(* ===== verification/Prelude.thy ===== *)
theory Prelude
  imports Main "HOL-Library.Word" "HOL-Library.Monad_Syntax"
begin

text \<open>
  Shared vocabulary of the development: the machine types of the C sources, the
  conversions and the truncating division of C, byte-addressed memory objects with
  explicit faults, and the lemma collections the component theories use.

  A C object (an array, a buffer) is the list of its bytes.  A pointer into it is a
  position, or, where the pointer is stored in a structure, the list of the bytes from the
  pointer to the end of the object.  A read or a write outside of the object is undefined
  behaviour in C; here it is the value \<open>None\<close>, so that memory safety is a
  theorem of the form \<open>\<exists>r. f x = Some r\<close>.
\<close>

unbundle bit_operations_syntax

named_theorems emit_simps \<open>writers rewritten to one emission of a byte string\<close>
named_theorems mem_simps \<open>loads and stores at the boundary of an append\<close>

section \<open>Machine types\<close>

type_synonym byte = "8 word"
type_synonym u16 = "16 word"
type_synonym u32 = "32 word"
type_synonym bytes = "byte list"

text \<open>A writable object together with the position of the running output pointer.\<close>

type_synonym out = "bytes \<times> nat"

section \<open>Integer conversions and division of C\<close>

text \<open>Conversion of an \<open>int\<close> value to \<open>uint32_t\<close>, and of any value to a 32-bit \<open>int\<close>.\<close>

definition to_u32 :: "int \<Rightarrow> int" where
  "to_u32 x = x mod 4294967296"

definition to_s32 :: "int \<Rightarrow> int" where
  "to_s32 x = (x + 2147483648) mod 4294967296 - 2147483648"

text \<open>Division and remainder truncate towards zero.\<close>

definition c_div :: "int \<Rightarrow> int \<Rightarrow> int" where
  "c_div a b = sgn a * sgn b * (\<bar>a\<bar> div \<bar>b\<bar>)"

definition c_mod :: "int \<Rightarrow> int \<Rightarrow> int" where
  "c_mod a b = a - b * c_div a b"

definition byte_of :: "int \<Rightarrow> byte" where
  "byte_of x = word_of_int x"

section \<open>Memory objects\<close>

definition load :: "bytes \<Rightarrow> nat \<Rightarrow> byte option" where
  "load m p = (if p < length m then Some (m ! p) else None)"

definition store :: "bytes \<Rightarrow> nat \<Rightarrow> byte \<Rightarrow> bytes option" where
  "store m p b = (if p < length m then Some (m[p := b]) else None)"

definition load_n :: "bytes \<Rightarrow> nat \<Rightarrow> nat \<Rightarrow> bytes option" where
  "load_n m p n = (if p + n \<le> length m then Some (take n (drop p m)) else None)"

text \<open>\<open>memcpy\<close> of a byte string to position \<open>p\<close>.\<close>

definition store_n :: "bytes \<Rightarrow> nat \<Rightarrow> bytes \<Rightarrow> bytes option" where
  "store_n m p bs = (if p + length bs \<le> length m
     then Some (take p m @ bs @ drop (p + length bs) m) else None)"

text \<open>The source bytes of a \<open>memcpy\<close> whose length is an \<open>int\<close>: a negative length
  converts to a huge \<open>size_t\<close> and faults.\<close>

definition load_i :: "bytes \<Rightarrow> int \<Rightarrow> bytes option" where
  "load_i m n = (if n < 0 then None else load_n m 0 (nat n))"

text \<open>Writing a byte string through an output pointer, which moves past it.\<close>

definition emit :: "out \<Rightarrow> bytes \<Rightarrow> out option" where
  "emit w bs = store_n (fst w) (snd w) bs \<bind> (\<lambda>m. Some (m, snd w + length bs))"

text \<open>\<open>strlen\<close> of the string that starts an object: it faults when no NUL byte ends it.\<close>

fun c_strlen :: "bytes \<Rightarrow> nat option" where
  "c_strlen [] = None"
| "c_strlen (c # cs) = (if c = 0 then Some 0 else map_option Suc (c_strlen cs))"

text \<open>The text of a NUL-terminated object, an object of \<open>n\<close> bytes that holds a text and is zero behind it, and
  \<open>memcpy (dst + strlen (dst), src, len)\<close>.\<close>

definition c_text :: "bytes \<Rightarrow> bytes option" where
  "c_text obj = map_option (\<lambda>n. take n obj) (c_strlen obj)"

definition padded :: "nat \<Rightarrow> bytes \<Rightarrow> bytes" where
  "padded n s = s @ replicate (n - length s) 0"

definition append_text :: "bytes \<Rightarrow> bytes \<Rightarrow> bytes option" where
  "append_text dst src = c_strlen dst \<bind> (\<lambda>n. store_n dst n src)"

text \<open>A string literal of the source.\<close>

definition c_lit :: "string \<Rightarrow> bytes" where
  "c_lit s = map (\<lambda>c. of_nat (of_char c)) s"

text \<open>\<open>strstr (hay, needle) != NULL\<close> on texts.\<close>

fun strstr :: "bytes \<Rightarrow> bytes \<Rightarrow> bool" where
  "strstr [] needle \<longleftrightarrow> needle = []"
| "strstr (c # hay) needle \<longleftrightarrow> take (length needle) (c # hay) = needle \<or> strstr hay needle"

section \<open>Shared lemmas\<close>

lemma c_div_nonneg [simp]: "0 \<le> a \<Longrightarrow> 0 < b \<Longrightarrow> c_div a b = a div b"
  by (cases "a = 0") (simp_all add: c_div_def)

lemma c_mod_nonneg [simp]: "0 \<le> a \<Longrightarrow> 0 < b \<Longrightarrow> c_mod a b = a mod b"
  by (simp add: c_mod_def minus_mult_div_eq_mod)

lemma c_div_decreases: "0 < c_div n b \<Longrightarrow> 1 < b \<Longrightarrow> 0 < n \<and> c_div n b < n"
proof -
  assume a: "0 < c_div n b" "1 < b"
  have "0 < n"
  proof (rule ccontr)
    assume "\<not> 0 < n"
    then have "sgn n \<le> 0" by (simp add: sgn_if)
    moreover have "0 \<le> \<bar>n\<bar> div \<bar>b\<bar>" using a(2) by (simp add: pos_imp_zdiv_nonneg_iff)
    ultimately have "sgn n * (\<bar>n\<bar> div \<bar>b\<bar>) \<le> 0" by (rule mult_nonpos_nonneg)
    with a show False by (simp add: c_div_def)
  qed
  with a have "c_div n b = n div b" by simp
  moreover have "n div b < n" using \<open>0 < n\<close> a(2) by (simp add: int_div_less_self)
  ultimately show ?thesis using \<open>0 < n\<close> by simp
qed

lemma to_u32_id [simp]: "0 \<le> x \<Longrightarrow> x < 4294967296 \<Longrightarrow> to_u32 x = x"
  by (simp add: to_u32_def)

lemma to_s32_id [simp]: "-2147483648 \<le> x \<Longrightarrow> x < 2147483648 \<Longrightarrow> to_s32 x = x"
  by (simp add: to_s32_def)

lemma uint_byte_of [simp]: "uint (byte_of x) = x mod 256"
  by (simp add: byte_of_def unsigned_of_int take_bit_eq_mod)

lemma uint_byte_bound: "uint (b :: byte) < 256"
  using uint_lt2p [of b] by simp

lemma byte_of_uint [simp]: "byte_of (uint b) = b"
  by (simp add: byte_of_def)

lemma byte_of_int [simp]: "byte_of (int k) = of_nat k"
  by (simp add: byte_of_def)

lemma load_append [mem_simps]: "load (xs @ ys) p = (if p < length xs then Some (xs ! p) else load ys (p - length xs))"
  by (auto simp: load_def nth_append)

lemma load_Cons_0 [mem_simps]: "load (x # xs) 0 = Some x"
  by (simp add: load_def)

lemma load_Cons_Suc [mem_simps]: "load (x # xs) (Suc p) = load xs p"
  by (simp add: load_def)

lemma load_n_append [mem_simps]: "load_n (xs @ ys) (length xs) (length ys) = Some ys"
  by (simp add: load_n_def)

lemma store_store_n: "store m p b = store_n m p [b]"
  by (auto simp: store_def store_n_def upd_conv_take_nth_drop)

lemma emit_append [emit_simps]: "emit w xs \<bind> (\<lambda>w'. emit w' ys) = emit w (xs @ ys)"
  by (cases w; cases xs) (auto simp: emit_def store_n_def min_def ac_simps)

lemma emit_append_k [emit_simps]: "emit w xs \<bind> (\<lambda>w'. emit w' ys \<bind> k) = emit w (xs @ ys) \<bind> k"
  by (simp add: emit_append flip: Option.bind_assoc)

lemma emit_start: "emit (m, 0) bs = (if length bs \<le> length m
    then Some (bs @ drop (length bs) m, length bs) else None)"
  by (simp add: emit_def store_n_def)

lemma emit_Some_iff: "emit w bs = Some w' \<longleftrightarrow> snd w + length bs \<le> length (fst w)
    \<and> w' = (take (snd w) (fst w) @ bs @ drop (snd w + length bs) (fst w), snd w + length bs)"
  by (auto simp: emit_def store_n_def)

lemma emit_None_iff: "emit w bs = None \<longleftrightarrow> length (fst w) < snd w + length bs"
  by (auto simp: emit_def store_n_def)

lemma c_strlen_text [simp]: "0 \<notin> set s \<Longrightarrow> c_strlen (s @ 0 # r) = Some (length s)"
  by (induction s) auto

lemma c_text_padded: "0 \<notin> set p \<Longrightarrow> 0 < k \<Longrightarrow> c_text (p @ replicate k 0) = Some p"
  by (cases k) (simp_all add: c_text_def)

lemma c_strlen_padded: "0 \<notin> set s \<Longrightarrow> length s < n \<Longrightarrow> c_strlen (padded n s) = Some (length s)"
  by (cases "n - length s") (simp_all add: padded_def)

lemma text_padded: "0 \<notin> set s \<Longrightarrow> length s < n \<Longrightarrow> c_text (padded n s) = Some s"
  by (simp add: padded_def c_text_padded)

lemma store_padded: "length s + length t \<le> n \<Longrightarrow> store_n (padded n s) (length s) t = Some (padded n (s @ t))"
  by (auto simp: store_n_def padded_def)

lemma append_padded:
  "0 \<notin> set s \<Longrightarrow> length s < n \<Longrightarrow> length s + length t \<le> n \<Longrightarrow> append_text (padded n s) t = Some (padded n (s @ t))"
  by (simp add: append_text_def c_strlen_padded store_padded)

lemma c_strlen_full: "0 \<notin> set s \<Longrightarrow> c_strlen s = None"
  by (induction s) auto

lemma c_strlen_Some: "c_strlen m = Some n \<Longrightarrow> n < length m \<and> 0 \<notin> set (take n m)"
  by (induction m arbitrary: n) (auto split: if_split_asm)

lemma c_text_Some: "c_text m = Some s \<Longrightarrow> 0 \<notin> set s \<and> length s < length m \<and> take (length s) m = s \<and> c_strlen m = Some (length s)"
proof -
  assume "c_text m = Some s"
  then obtain n where n: "c_strlen m = Some n" "s = take n m" by (auto simp: c_text_def)
  with c_strlen_Some [OF n(1)] show ?thesis by simp
qed

lemma store_app_hd [mem_simps]: "store (xs @ y # ys) (length xs) b = Some (xs @ b # ys)"
  by (simp add: store_def)

lemma load_app_hd [mem_simps]: "load (xs @ y # ys) (length xs) = Some y"
  by (simp add: load_def)

end
