(* ===== verification/MQTT_Packet.thy ===== *)
theory MQTT_Packet
  imports Prelude
begin

text \<open>
  The primitives of the MQTT wire format, \<^verbatim>\<open>src/eng/mqtt/MQTTPacket.c\<close> and the macros of
  \<^verbatim>\<open>MQTTPacket.h\<close>: the remaining-length code, the fixed-header bits, two-byte integers and
  length-delimited strings.  Writers run on an output object and pointer, readers on a buffer
  and a position; a fault is \<open>None\<close>.  The lemmas rewrite every writer to one emission of
  an explicit byte string and give the round trips and bounds the packet theories use.
\<close>

section \<open>Constants and types of MQTTPacket.h\<close>

abbreviation (input) MQTTPACKET_BUFFER_TOO_SHORT :: int where "MQTTPACKET_BUFFER_TOO_SHORT \<equiv> -2"
abbreviation (input) MQTTPACKET_READ_ERROR :: int where "MQTTPACKET_READ_ERROR \<equiv> -1"

text \<open>Control packet types (\<^verbatim>\<open>enum msgTypes\<close>).\<close>

abbreviation (input) MQTT_CPT_RESERVED :: byte where "MQTT_CPT_RESERVED \<equiv> 0"
abbreviation (input) CONNECT :: byte where "CONNECT \<equiv> 1"
abbreviation (input) CONNACK :: byte where "CONNACK \<equiv> 2"
abbreviation (input) PUBLISH :: byte where "PUBLISH \<equiv> 3"
abbreviation (input) PUBACK :: byte where "PUBACK \<equiv> 4"
abbreviation (input) PUBREC :: byte where "PUBREC \<equiv> 5"
abbreviation (input) PUBREL :: byte where "PUBREL \<equiv> 6"
abbreviation (input) PUBCOMP :: byte where "PUBCOMP \<equiv> 7"
abbreviation (input) SUBSCRIBE :: byte where "SUBSCRIBE \<equiv> 8"
abbreviation (input) SUBACK :: byte where "SUBACK \<equiv> 9"
abbreviation (input) UNSUBSCRIBE :: byte where "UNSUBSCRIBE \<equiv> 10"
abbreviation (input) UNSUBACK :: byte where "UNSUBACK \<equiv> 11"
abbreviation (input) PINGREQ :: byte where "PINGREQ \<equiv> 12"
abbreviation (input) PINGRESP :: byte where "PINGRESP \<equiv> 13"
abbreviation (input) DISCONNECT :: byte where "DISCONNECT \<equiv> 14"

text \<open>The header-bit macros.  A setter ORs its field into the byte.\<close>

definition MQTT_HEADER_GET_TYPE :: "byte \<Rightarrow> byte" where
  "MQTT_HEADER_GET_TYPE head = drop_bit 4 (head AND 0xF0)"

definition MQTT_HEADER_GET_DUP :: "byte \<Rightarrow> byte" where
  "MQTT_HEADER_GET_DUP head = drop_bit 3 (head AND 0x08)"

definition MQTT_HEADER_GET_QOS :: "byte \<Rightarrow> byte" where
  "MQTT_HEADER_GET_QOS head = drop_bit 1 (head AND 0x06)"

definition MQTT_HEADER_GET_RETAIN :: "byte \<Rightarrow> byte" where
  "MQTT_HEADER_GET_RETAIN head = head AND 0x01"

definition MQTT_HEADER_SET_TYPE :: "byte \<Rightarrow> byte \<Rightarrow> byte" where
  "MQTT_HEADER_SET_TYPE head ty = head OR (push_bit 4 ty AND 0xF0)"

definition MQTT_HEADER_SET_DUP :: "byte \<Rightarrow> byte \<Rightarrow> byte" where
  "MQTT_HEADER_SET_DUP head dup = head OR (push_bit 3 dup AND 0x08)"

definition MQTT_HEADER_SET_QOS :: "byte \<Rightarrow> int \<Rightarrow> byte" where
  "MQTT_HEADER_SET_QOS head qos = head OR (push_bit 1 (byte_of qos) AND 0x06)"

definition MQTT_HEADER_SET_RETAIN :: "byte \<Rightarrow> byte \<Rightarrow> byte" where
  "MQTT_HEADER_SET_RETAIN head retain = head OR (retain AND 0x01)"

text \<open>
  A C string is the list of its bytes up to the terminator; a \<open>char *\<close> inside a
  length-delimited string is the memory from the pointer to the end of its object.
\<close>

record MQTTString =
  cstring :: "bytes option"
  lenstring_len :: int
  lenstring_data :: "bytes option"

definition MQTTString_initializer :: MQTTString where
  "MQTTString_initializer = \<lparr>cstring = None, lenstring_len = 0, lenstring_data = None\<rparr>"

section \<open>Operations of MQTTPacket.c\<close>

text \<open>The do-while loop writes the digits at \<open>buf[rc]\<close> upwards and returns their number.\<close>

function MQTTPacket_encode_loop :: "bytes \<Rightarrow> nat \<Rightarrow> nat \<Rightarrow> int \<Rightarrow> (nat \<times> bytes) option" where
  "MQTTPacket_encode_loop buf p rc len =
    (let d = byte_of (c_mod len 128);
         len' = c_div len 128;
         d' = (if 0 < len' then d OR 0x80 else d)
     in store buf (p + rc) d' \<bind> (\<lambda>buf'.
        if 0 < len' then MQTTPacket_encode_loop buf' p (Suc rc) len'
        else Some (Suc rc, buf')))"
  by pat_completeness auto
termination
  by (relation "measure (\<lambda>(buf, p, rc, len). nat len)") (auto dest: c_div_decreases [where b = 128, simplified])

definition MQTTPacket_encode :: "bytes \<Rightarrow> nat \<Rightarrow> int \<Rightarrow> (nat \<times> bytes) option" where
  "MQTTPacket_encode buf p len = MQTTPacket_encode_loop buf p 0 len"

text \<open>
  \<open>getcharfn\<close> is the callback that delivers one byte: it returns the number of bytes
  read, the byte and its new state.  The result is (number of bytes counted, value, state).
\<close>

function MQTTPacket_decode_loop ::
    "('s \<Rightarrow> (int \<times> byte \<times> 's) option) \<Rightarrow> nat \<Rightarrow> int \<Rightarrow> int \<Rightarrow> 's \<Rightarrow> (nat \<times> int \<times> 's) option" where
  "MQTTPacket_decode_loop getcharfn len multiplier val s =
    (if 4 < len + 1 then Some (len + 1, val, s)
     else getcharfn s \<bind> (\<lambda>(rc, c, s').
        if rc \<noteq> 1 then Some (len + 1, val, s')
        else (let val' = val + uint (c AND 127) * multiplier
              in if c AND 128 \<noteq> 0
                 then MQTTPacket_decode_loop getcharfn (len + 1) (multiplier * 128) val' s'
                 else Some (len + 1, val', s'))))"
  by pat_completeness auto
termination
  by (relation "measure (\<lambda>(g, len, m, v, s). 4 - len)") auto

definition MQTTPacket_decode ::
    "('s \<Rightarrow> (int \<times> byte \<times> 's) option) \<Rightarrow> 's \<Rightarrow> (nat \<times> int \<times> 's) option" where
  "MQTTPacket_decode getcharfn s = MQTTPacket_decode_loop getcharfn 0 1 0 s"

definition MQTTPacket_len :: "int \<Rightarrow> int" where
  "MQTTPacket_len rem_len0 =
    (let rem_len = rem_len0 + 1
     in if rem_len < 128 then rem_len + 1
        else if rem_len < 16384 then rem_len + 2
        else if rem_len < 2097151 then rem_len + 3
        else rem_len + 4)"

text \<open>\<open>bufchar\<close> reads \<open>count\<close> bytes at the global \<open>bufptr\<close>, keeping the last one.\<close>

fun bufchar :: "bytes \<Rightarrow> nat \<Rightarrow> byte \<Rightarrow> nat \<Rightarrow> (byte \<times> nat) option" where
  "bufchar buf 0 c bufptr = Some (c, bufptr)"
| "bufchar buf (Suc count) c bufptr = load buf bufptr \<bind> (\<lambda>b. bufchar buf count b (Suc bufptr))"

definition MQTTPacket_decodeBuf :: "bytes \<Rightarrow> nat \<Rightarrow> (nat \<times> int) option" where
  "MQTTPacket_decodeBuf buf p =
    map_option (\<lambda>(n, v, s). (n, v))
      (MQTTPacket_decode (\<lambda>bufptr. map_option (\<lambda>(c, q). (1, c, q)) (bufchar buf 1 0 bufptr)) p)"

definition readInt :: "bytes \<Rightarrow> nat \<Rightarrow> (int \<times> nat) option" where
  "readInt buf p = load buf p \<bind> (\<lambda>a. load buf (p + 1) \<bind> (\<lambda>b.
     Some (256 * uint a + uint b, p + 2)))"

definition readChar :: "bytes \<Rightarrow> nat \<Rightarrow> (byte \<times> nat) option" where
  "readChar buf p = load buf p \<bind> (\<lambda>c. Some (c, p + 1))"

definition writeChar :: "out \<Rightarrow> byte \<Rightarrow> out option" where
  "writeChar w c = store (fst w) (snd w) c \<bind> (\<lambda>m. Some (m, snd w + 1))"

definition writeInt :: "out \<Rightarrow> int \<Rightarrow> out option" where
  "writeInt w anInt = store (fst w) (snd w) (byte_of (c_div anInt 256)) \<bind> (\<lambda>m.
     store m (snd w + 1) (byte_of (c_mod anInt 256)) \<bind> (\<lambda>m'. Some (m', snd w + 2)))"

definition writeCString :: "out \<Rightarrow> bytes \<Rightarrow> out option" where
  "writeCString w s = writeInt w (int (length s)) \<bind> (\<lambda>w'.
     store_n (fst w') (snd w') s \<bind> (\<lambda>m. Some (m, snd w' + length s)))"

definition getLenStringLen :: "bytes \<Rightarrow> int option" where
  "getLenStringLen ptr = load ptr 0 \<bind> (\<lambda>a. load ptr 1 \<bind> (\<lambda>b. Some (256 * uint a + uint b)))"

definition writeMQTTString :: "out \<Rightarrow> MQTTString \<Rightarrow> out option" where
  "writeMQTTString w s =
    (if 0 < lenstring_len s then
       writeInt w (lenstring_len s) \<bind> (\<lambda>w'.
       lenstring_data s \<bind> (\<lambda>data.
       load_n data 0 (nat (lenstring_len s)) \<bind> (\<lambda>bs.
       store_n (fst w') (snd w') bs \<bind> (\<lambda>m. Some (m, snd w' + nat (lenstring_len s))))))
     else case cstring s of
       Some str \<Rightarrow> writeCString w str
     | None \<Rightarrow> writeInt w 0)"

text \<open>
  \<open>readMQTTLenString buf p enddata s\<close> returns (rc, string, new position); the string
  structure keeps its old fields where the code leaves them.
\<close>

definition readMQTTLenString ::
    "bytes \<Rightarrow> nat \<Rightarrow> int \<Rightarrow> MQTTString \<Rightarrow> (int \<times> MQTTString \<times> nat) option" where
  "readMQTTLenString buf p enddata s =
    (if enddata - int p > 1 then
       readInt buf p \<bind> (\<lambda>(n, p').
         let s' = s\<lparr>lenstring_len := n\<rparr>
         in if int p' + n \<le> enddata
            then Some (1, s'\<lparr>lenstring_data := Some (drop p' buf), cstring := None\<rparr>, p' + nat n)
            else Some (0, s'\<lparr>cstring := None\<rparr>, p'))
     else Some (0, s\<lparr>cstring := None\<rparr>, p))"

definition MQTTstrlen :: "MQTTString \<Rightarrow> int" where
  "MQTTstrlen s = (case cstring s of Some str \<Rightarrow> int (length str) | None \<Rightarrow> lenstring_len s)"

definition MQTTPacket_equals :: "MQTTString \<Rightarrow> bytes \<Rightarrow> bool option" where
  "MQTTPacket_equals a bptr =
    (let aptr = (case cstring a of Some str \<Rightarrow> Some str | None \<Rightarrow> lenstring_data a);
         alen = (case cstring a of Some str \<Rightarrow> int (length str) | None \<Rightarrow> lenstring_len a);
         blen = int (length bptr)
     in if alen = blen
        then (case aptr of None \<Rightarrow> (if alen = 0 then Some True else None)
              | Some m \<Rightarrow> load_n m 0 (nat alen) \<bind> (\<lambda>bs. Some (bs = bptr)))
        else Some False)"

section \<open>The byte strings the writers emit\<close>

text \<open>The remaining-length code of MQTT 3.1.1, section 2.2.3: base-128 digits, low first.\<close>

fun rem_len_bytes :: "nat \<Rightarrow> bytes" where
  "rem_len_bytes n = (if n < 128 then [of_nat n] else (of_nat (n mod 128) OR 0x80) # rem_len_bytes (n div 128))"

definition int16_bytes :: "int \<Rightarrow> bytes" where
  "int16_bytes n = [byte_of (c_div n 256), byte_of (c_mod n 256)]"

definition utf_bytes :: "bytes \<Rightarrow> bytes" where
  "utf_bytes s = int16_bytes (int (length s)) @ s"

text \<open>The text of an \<open>MQTTString\<close>, and when its two representations agree.\<close>

definition mqtt_text :: "MQTTString \<Rightarrow> bytes" where
  "mqtt_text s = (case cstring s of Some str \<Rightarrow> str
     | None \<Rightarrow> take (nat (lenstring_len s)) (case lenstring_data s of None \<Rightarrow> [] | Some m \<Rightarrow> m))"

definition mqtt_string_ok :: "MQTTString \<Rightarrow> bool" where
  "mqtt_string_ok s \<longleftrightarrow> (case cstring s of Some str \<Rightarrow> lenstring_len s \<le> 0
     | None \<Rightarrow> 0 \<le> lenstring_len s \<and> (0 < lenstring_len s \<longrightarrow>
         (\<exists>m. lenstring_data s = Some m \<and> nat (lenstring_len s) \<le> length m)))"

declare MQTTPacket_encode_loop.simps [simp del]
declare MQTTPacket_decode_loop.simps [simp del]
declare rem_len_bytes.simps [simp del]

lemma length_int16_bytes [simp]: "length (int16_bytes n) = 2"
  by (simp add: int16_bytes_def)

lemma length_utf_bytes [simp]: "length (utf_bytes s) = length s + 2"
  by (simp add: utf_bytes_def)

lemma writeChar_emit [emit_simps]: "writeChar w c = emit w [c]"
  by (simp add: writeChar_def emit_def store_store_n)

lemma writeInt_emit [emit_simps]: "writeInt w n = emit w (int16_bytes n)"
proof -
  have "writeInt w n = writeChar w (byte_of (c_div n 256)) \<bind> (\<lambda>w'. writeChar w' (byte_of (c_mod n 256)))"
    by (simp add: writeInt_def writeChar_def)
  then show ?thesis by (simp add: emit_simps int16_bytes_def)
qed

lemma store_n_emit [emit_simps]:
  "store_n (fst w) (snd w) s \<bind> (\<lambda>m. Some (m, snd w + length s)) = emit w s"
  by (simp add: emit_def)

lemma writeCString_emit [emit_simps]: "writeCString w s = emit w (utf_bytes s)"
  by (simp add: writeCString_def emit_simps utf_bytes_def)

lemma writeMQTTString_emit:
  assumes "mqtt_string_ok s"
  shows "writeMQTTString w s = emit w (utf_bytes (mqtt_text s))"
proof (cases "cstring s")
  case None
  show ?thesis
  proof (cases "0 < lenstring_len s")
    case True
    with None assms obtain m where m: "lenstring_data s = Some m" "nat (lenstring_len s) \<le> length m"
      by (auto simp: mqtt_string_ok_def)
    let ?bs = "take (nat (lenstring_len s)) m"
    have l: "length ?bs = nat (lenstring_len s)" "mqtt_text s = ?bs"
      using m None by (simp_all add: mqtt_text_def)
    have "writeMQTTString w s = emit w (int16_bytes (lenstring_len s)) \<bind> (\<lambda>w'. emit w' ?bs)"
      using True m by (simp add: writeMQTTString_def load_n_def writeInt_emit emit_def min_absorb2)
    then show ?thesis using True l by (simp add: emit_append utf_bytes_def)
  next
    case False
    with None assms show ?thesis
      by (simp add: writeMQTTString_def mqtt_text_def emit_simps utf_bytes_def)
  qed
next
  case (Some str)
  with assms show ?thesis
    by (simp add: writeMQTTString_def mqtt_text_def mqtt_string_ok_def emit_simps)
qed

lemma MQTTstrlen_text: "mqtt_string_ok s \<Longrightarrow> MQTTstrlen s = int (length (mqtt_text s))"
  by (auto simp: mqtt_string_ok_def MQTTstrlen_def mqtt_text_def split: option.splits)

section \<open>The remaining-length code\<close>

lemma length_rem_len_bytes:
  "length (rem_len_bytes n) = (if n < 128 then 1 else Suc (length (rem_len_bytes (n div 128))))"
  by (subst rem_len_bytes.simps) simp

lemma rem_len_bytes_pos: "0 < length (rem_len_bytes n)"
  by (subst length_rem_len_bytes) simp

lemma rem_len_bytes_length:
  assumes "n < 268435456"
  shows "length (rem_len_bytes n) =
    (if n < 128 then 1 else if n < 16384 then 2 else if n < 2097152 then 3 else 4)"
proof -
  have d: "n div 128 div 128 = n div 16384" "n div 16384 div 128 = n div 2097152"
    by (simp_all add: div_mult2_eq [symmetric])
  show ?thesis
    using assms length_rem_len_bytes [of n] length_rem_len_bytes [of "n div 128"]
      length_rem_len_bytes [of "n div 16384"] length_rem_len_bytes [of "n div 2097152"]
    by (auto simp: d div_less_iff_less_mult)
qed

lemma MQTTPacket_encode_loop_bytes:
  assumes "0 \<le> n"
  shows "MQTTPacket_encode_loop buf p rc n =
    store_n buf (p + rc) (rem_len_bytes (nat n)) \<bind> (\<lambda>m. Some (rc + length (rem_len_bytes (nat n)), m))"
  using assms
proof (induction buf p rc n rule: MQTTPacket_encode_loop.induct)
  case (1 buf p rc n)
  have d: "byte_of (n mod 128) = of_nat (nat n mod 128)" "nat (n div 128) = nat n div 128"
    using "1.prems" byte_of_int [of "nat n mod 128"] by (simp_all add: zmod_int nat_div_distrib)
  show ?case
  proof (cases "0 < n div 128")
    case True
    then have big: "\<not> nat n < 128" "128 \<le> n" using "1.prems" by auto
    let ?d = "of_nat (nat n mod 128) OR (128 :: byte)"
    have IH: "MQTTPacket_encode_loop buf' p (Suc rc) (n div 128) =
        store_n buf' (p + Suc rc) (rem_len_bytes (nat n div 128)) \<bind>
          (\<lambda>m. Some (Suc rc + length (rem_len_bytes (nat n div 128)), m))"
      if "store buf (p + rc) ?d = Some buf'" for buf'
      using "1.IH" [OF refl refl refl, of buf'] True that "1.prems" by (simp add: d)
    have "MQTTPacket_encode_loop buf p rc n =
        store buf (p + rc) ?d \<bind> (\<lambda>buf'. MQTTPacket_encode_loop buf' p (Suc rc) (n div 128))"
      using True "1.prems" by (subst MQTTPacket_encode_loop.simps) (simp add: d)
    also have "\<dots> = store buf (p + rc) ?d \<bind> (\<lambda>buf'.
        store_n buf' (p + Suc rc) (rem_len_bytes (nat n div 128)) \<bind>
          (\<lambda>m. Some (Suc rc + length (rem_len_bytes (nat n div 128)), m)))"
      using IH by (cases "store buf (p + rc) ?d") auto
    also have "\<dots> = store_n buf (p + rc) (rem_len_bytes (nat n)) \<bind>
          (\<lambda>m. Some (rc + length (rem_len_bytes (nat n)), m))"
      using big by (auto simp: rem_len_bytes.simps [of "nat n"] store_store_n store_n_def min_def ac_simps)
    finally show ?thesis .
  next
    case False
    then have small: "n < 128" using "1.prems" by auto
    with "1.prems" show ?thesis
      using d by (subst MQTTPacket_encode_loop.simps, subst (1 2) rem_len_bytes.simps)
        (simp add: store_store_n nat_less_iff)
  qed
qed

lemma MQTTPacket_encode_bytes:
  "0 \<le> n \<Longrightarrow> MQTTPacket_encode buf p n =
    store_n buf p (rem_len_bytes (nat n)) \<bind> (\<lambda>m. Some (length (rem_len_bytes (nat n)), m))"
  by (simp add: MQTTPacket_encode_def MQTTPacket_encode_loop_bytes)

text \<open>The two halves of a digit byte: the continuation flag and the seven value bits.\<close>

lemma digit_value: "uint (c AND 127 :: byte) = uint c mod 128"
proof -
  have "c AND 127 = take_bit 7 c"
    by (simp add: take_bit_eq_mask mask_eq_exp_minus_1)
  then have "uint (c AND 127) = take_bit 7 (uint c)" by (simp only: unsigned_take_bit_eq)
  then show ?thesis by (simp add: take_bit_eq_mod)
qed

lemma digit_last: "k < 128 \<Longrightarrow> (of_nat k :: byte) AND 128 = 0"
proof -
  assume k: "k < 128"
  have "(of_nat k :: byte) = of_nat k AND 127"
    by (rule word_uint_eqI) (use k in \<open>simp add: digit_value unsigned_of_nat take_bit_eq_mod\<close>)
  then have "(of_nat k :: byte) AND 128 = of_nat k AND (127 AND 128)"
    by (metis and.assoc)
  then show ?thesis by simp
qed

lemma digit_more: "((b OR 128) :: byte) AND 127 = b AND 127" "((b OR 128) :: byte) AND 128 \<noteq> 0"
  by (simp_all add: word_ao_dist)

lemma digit_uint: "k < 128 \<Longrightarrow> uint (of_nat k AND 127 :: byte) = int k"
  by (simp add: digit_value unsigned_of_nat take_bit_eq_mod)

definition buf_getchar :: "bytes \<Rightarrow> nat \<Rightarrow> (int \<times> byte \<times> nat) option" where
  "buf_getchar buf = (\<lambda>p. map_option (\<lambda>(c, q). (1, c, q)) (bufchar buf 1 0 p))"

lemma buf_getchar_load: "buf_getchar buf p = map_option (\<lambda>c. (1, c, Suc p)) (load buf p)"
  by (cases "load buf p") (simp_all add: buf_getchar_def)

lemma load_drop: "drop p buf = c # cs \<Longrightarrow> load buf p = Some c \<and> drop (Suc p) buf = cs"
  by (metis Cons_nth_drop_Suc drop_eq_Nil leI list.distinct(1) list.sel(1,3) load_def)

lemma MQTTPacket_decode_loop_bytes:
  assumes "drop p buf = rem_len_bytes n @ post" "len + length (rem_len_bytes n) \<le> 4"
  shows "MQTTPacket_decode_loop (buf_getchar buf) len m v p =
    Some (len + length (rem_len_bytes n), v + m * int n, p + length (rem_len_bytes n))"
  using assms
proof (induction n arbitrary: len m v p rule: rem_len_bytes.induct)
  case (1 n)
  have len: "\<not> 4 < len + 1"
    using "1.prems"(2) rem_len_bytes_pos [of n] by linarith
  show ?case
  proof (cases "n < 128")
    case True
    then have "load buf p = Some (of_nat n)"
      using "1.prems"(1) by (simp add: rem_len_bytes.simps [of n] load_drop)
    with len True show ?thesis
      by (subst MQTTPacket_decode_loop.simps)
        (simp add: buf_getchar_load digit_last digit_uint rem_len_bytes.simps [of n] mult.commute)
  next
    case False
    let ?rest = "rem_len_bytes (n div 128)"
    have split: "rem_len_bytes n = (of_nat (n mod 128) OR 128) # ?rest"
      using False by (simp add: rem_len_bytes.simps [of n])
    with "1.prems"(1) have ld: "load buf p = Some (of_nat (n mod 128) OR 128)"
        "drop (Suc p) buf = ?rest @ post"
      using load_drop by (metis append_Cons)+
    have IH: "MQTTPacket_decode_loop (buf_getchar buf) (len + 1) (m * 128) (v + int (n mod 128) * m) (Suc p) =
        Some (len + 1 + length ?rest, v + int (n mod 128) * m + m * 128 * int (n div 128),
          Suc p + length ?rest)"
      using "1.prems"(2) split by (intro "1.IH" [OF False ld(2)]) simp
    have val: "v + int (n mod 128) * m + m * 128 * int (n div 128) = v + m * int n"
    proof -
      have "int n = int (n mod 128) + 128 * int (n div 128)"
        by (metis add.commute mult_div_mod_eq of_nat_add of_nat_mult of_nat_numeral)
      then show ?thesis by (simp add: algebra_simps)
    qed
    show ?thesis
      using len IH
      by (subst MQTTPacket_decode_loop.simps)
        (simp add: buf_getchar_load ld(1) digit_more digit_uint split val del: of_nat_mod)
  qed
qed

lemma MQTTPacket_decodeBuf_bytes:
  assumes "drop p buf = rem_len_bytes n @ post" "n < 268435456"
  shows "MQTTPacket_decodeBuf buf p = Some (length (rem_len_bytes n), int n)"
proof -
  have "length (rem_len_bytes n) \<le> 4"
    using assms(2) by (simp add: rem_len_bytes_length)
  then have "MQTTPacket_decode_loop (buf_getchar buf) 0 1 0 p =
      Some (0 + length (rem_len_bytes n), 0 + 1 * int n, p + length (rem_len_bytes n))"
    by (intro MQTTPacket_decode_loop_bytes [OF assms(1)]) simp
  then show ?thesis
    by (simp add: MQTTPacket_decodeBuf_def MQTTPacket_decode_def buf_getchar_def)
qed

end
