(* ===== verification/MQTT_Codec.thy ===== *)
theory MQTT_Codec
  imports MQTT_Packet
begin

text \<open>
  Serialisation and parsing of the MQTT control packets: \<^verbatim>\<open>MQTTSerializePublish.c\<close>,
  \<^verbatim>\<open>MQTTDeserializePublish.c\<close>, \<^verbatim>\<open>MQTTConnectClient.c\<close>, \<^verbatim>\<open>MQTTSubscribeClient.c\<close> and
  \<^verbatim>\<open>MQTTUnsubscribeClient.c\<close> under \<^verbatim>\<open>src/eng/mqtt\<close>.  A serialiser returns its \<open>rc\<close> and the
  object it wrote; a parser takes the out-parameters' old values and returns \<open>rc\<close> with
  the new ones.  The locale \<open>packet_writer\<close> states what every serialiser promises the
  client (no write past the buffer, a remaining-length field that frames exactly what was
  written); it is interpreted on each of them.
\<close>

section \<open>Definitions\<close>

text \<open>\<open>ptr += MQTTPacket_encode(ptr, rem_len)\<close>\<close>

definition writeRemLen :: "out \<Rightarrow> int \<Rightarrow> out option" where
  "writeRemLen w n = MQTTPacket_encode (fst w) (snd w) n \<bind> (\<lambda>(k, m). Some (m, snd w + k))"

text \<open>\<open>memcpy(ptr, src, n); ptr += n\<close>\<close>

definition writeBytes :: "out \<Rightarrow> bytes \<Rightarrow> int \<Rightarrow> out option" where
  "writeBytes w src n = load_i src n \<bind> (\<lambda>bs.
     store_n (fst w) (snd w) bs \<bind> (\<lambda>m. Some (m, snd w + length bs)))"

subsection \<open>MQTTSerializePublish.c\<close>

definition MQTTSerialize_publishLength :: "int \<Rightarrow> MQTTString \<Rightarrow> int \<Rightarrow> int" where
  "MQTTSerialize_publishLength qos topicName payloadlen =
    (let len = 2 + MQTTstrlen topicName + payloadlen in if qos > 0 then len + 2 else len)"

definition MQTTSerialize_publish ::
    "bytes \<Rightarrow> int \<Rightarrow> byte \<Rightarrow> int \<Rightarrow> byte \<Rightarrow> u16 \<Rightarrow> MQTTString \<Rightarrow> bytes \<Rightarrow> int \<Rightarrow> (int \<times> bytes) option" where
  "MQTTSerialize_publish buf buflen dup qos retained packetid topicName payload payloadlen =
    (let rem_len = MQTTSerialize_publishLength qos topicName payloadlen
     in if MQTTPacket_len rem_len > buflen then Some (MQTTPACKET_BUFFER_TOO_SHORT, buf)
        else let header = MQTT_HEADER_SET_RETAIN (MQTT_HEADER_SET_QOS (MQTT_HEADER_SET_DUP
                  (MQTT_HEADER_SET_TYPE 0 PUBLISH) dup) qos) retained
        in writeChar (buf, 0) header \<bind> (\<lambda>w.
           writeRemLen w rem_len \<bind> (\<lambda>w.
           writeMQTTString w topicName \<bind> (\<lambda>w.
           (if qos > 0 then writeInt w (uint packetid) else Some w) \<bind> (\<lambda>w.
           writeBytes w payload payloadlen \<bind> (\<lambda>w.
           Some (int (snd w), fst w)))))))"

definition MQTTSerialize_ack :: "bytes \<Rightarrow> int \<Rightarrow> byte \<Rightarrow> byte \<Rightarrow> u16 \<Rightarrow> (int \<times> bytes) option" where
  "MQTTSerialize_ack buf buflen packettype dup packetid =
    (if buflen < 4 then Some (MQTTPACKET_BUFFER_TOO_SHORT, buf)
     else let header = MQTT_HEADER_SET_QOS (MQTT_HEADER_SET_DUP (MQTT_HEADER_SET_TYPE 0 packettype) dup)
                (if packettype = PUBREL then 1 else 0)
     in writeChar (buf, 0) header \<bind> (\<lambda>w.
        writeRemLen w 2 \<bind> (\<lambda>w.
        writeInt w (uint packetid) \<bind> (\<lambda>w.
        Some (int (snd w), fst w)))))"

subsection \<open>MQTTDeserializePublish.c\<close>

text \<open>The out-parameters of \<open>MQTTDeserialize_publish\<close>.\<close>

record publish_fields =
  pf_dup :: byte
  pf_qos :: int
  pf_retained :: byte
  pf_packetid :: u16
  pf_topicName :: MQTTString
  pf_payload :: "bytes option"
  pf_payloadlen :: int

definition MQTTDeserialize_publish ::
    "publish_fields \<Rightarrow> bytes \<Rightarrow> int \<Rightarrow> (int \<times> publish_fields) option" where
  "MQTTDeserialize_publish f buf buflen =
    readChar buf 0 \<bind> (\<lambda>(header, curdata).
    if MQTT_HEADER_GET_TYPE header \<noteq> PUBLISH then Some (0, f)
    else let f = f\<lparr>pf_dup := MQTT_HEADER_GET_DUP header,
                   pf_qos := uint (MQTT_HEADER_GET_QOS header),
                   pf_retained := MQTT_HEADER_GET_RETAIN header\<rparr>
    in MQTTPacket_decodeBuf buf curdata \<bind> (\<lambda>(rc, mylen).
    let curdata = curdata + rc; enddata = int curdata + mylen
    in readMQTTLenString buf curdata enddata (pf_topicName f) \<bind> (\<lambda>(ok, topic, curdata).
    let f = f\<lparr>pf_topicName := topic\<rparr>
    in if ok = 0 \<or> enddata - int curdata < 0 then Some (int rc, f)
       else (if pf_qos f > 0
             then readInt buf curdata \<bind> (\<lambda>(n, curdata). Some (f\<lparr>pf_packetid := word_of_int n\<rparr>, curdata))
             else Some (f, curdata)) \<bind> (\<lambda>(f, curdata).
       Some (1, f\<lparr>pf_payloadlen := enddata - int curdata, pf_payload := Some (drop curdata buf)\<rparr>)))))"

text \<open>The result of \<open>MQTTDeserialize_ack\<close>: (rc, packettype, dup, packetid).\<close>

definition MQTTDeserialize_ack :: "u16 \<Rightarrow> bytes \<Rightarrow> int \<Rightarrow> (int \<times> byte \<times> byte \<times> u16) option" where
  "MQTTDeserialize_ack packetid buf buflen =
    readChar buf 0 \<bind> (\<lambda>(header, curdata).
    let dup = MQTT_HEADER_GET_DUP header; packettype = MQTT_HEADER_GET_TYPE header
    in MQTTPacket_decodeBuf buf curdata \<bind> (\<lambda>(rc, mylen).
    let curdata = curdata + rc; enddata = int curdata + mylen
    in if enddata - int curdata < 2 then Some (int rc, packettype, dup, packetid)
       else readInt buf curdata \<bind> (\<lambda>(n, curdata).
            Some (1, packettype, dup, word_of_int n))))"

subsection \<open>MQTTConnectClient.c\<close>

record MQTTPacket_willOptions =
  will_topicName :: MQTTString
  will_message :: MQTTString
  will_retained :: byte
  will_qos :: byte

record MQTTPacket_connectData =
  MQTTVersion :: byte
  clientID :: MQTTString
  keepAliveInterval :: u16
  cleansession :: byte
  willFlag :: byte
  will :: MQTTPacket_willOptions
  username :: MQTTString
  password :: MQTTString

text \<open>\<open>s.cstring || s.lenstring.data\<close>\<close>

definition string_given :: "MQTTString \<Rightarrow> bool" where
  "string_given s \<longleftrightarrow> cstring s \<noteq> None \<or> lenstring_data s \<noteq> None"

definition MQTTSerialize_connectLength :: "MQTTPacket_connectData \<Rightarrow> int" where
  "MQTTSerialize_connectLength options =
    (let len = (if MQTTVersion options = 3 then 12 else if MQTTVersion options = 4 then 10 else 0);
         len = len + MQTTstrlen (clientID options) + 2;
         len = (if willFlag options \<noteq> 0
                then len + MQTTstrlen (will_topicName (will options)) + 2
                         + MQTTstrlen (will_message (will options)) + 2 else len);
         len = (if string_given (username options) then len + MQTTstrlen (username options) + 2 else len);
         len = (if string_given (password options) then len + MQTTstrlen (password options) + 2 else len)
     in len)"

definition MQTT_connect_flags :: "MQTTPacket_connectData \<Rightarrow> byte" where
  "MQTT_connect_flags options =
    (let flags = 0;
         flags = flags OR (if cleansession options \<noteq> 0 then 0x02 else 0);
         flags = flags OR (if willFlag options \<noteq> 0 then 0x04 else 0);
         flags = (if flags AND 0x04 \<noteq> 0
                  then (flags OR push_bit 3 (will_qos (will options) AND 0x03))
                       OR (if will_retained (will options) \<noteq> 0 then 0x20 else 0)
                  else flags);
         flags = (if string_given (username options) then flags OR 0x80 else flags);
         flags = (if string_given (password options) then flags OR 0x40 else flags)
     in flags)"

definition str_MQTT :: bytes where "str_MQTT = [0x4D, 0x51, 0x54, 0x54]"
definition str_MQIsdp :: bytes where "str_MQIsdp = [0x4D, 0x51, 0x49, 0x73, 0x64, 0x70]"

definition MQTTSerialize_connect ::
    "bytes \<Rightarrow> int \<Rightarrow> MQTTPacket_connectData \<Rightarrow> (int \<times> bytes) option" where
  "MQTTSerialize_connect buf buflen options =
    (let len = MQTTSerialize_connectLength options
     in if MQTTPacket_len len > buflen then Some (MQTTPACKET_BUFFER_TOO_SHORT, buf)
        else let flags = MQTT_connect_flags options
        in writeChar (buf, 0) (MQTT_HEADER_SET_TYPE 0 CONNECT) \<bind> (\<lambda>w.
           writeRemLen w len \<bind> (\<lambda>w.
           (if MQTTVersion options = 4
            then writeCString w str_MQTT \<bind> (\<lambda>w. writeChar w 4)
            else writeCString w str_MQIsdp \<bind> (\<lambda>w. writeChar w 3)) \<bind> (\<lambda>w.
           writeChar w flags \<bind> (\<lambda>w.
           writeInt w (uint (keepAliveInterval options)) \<bind> (\<lambda>w.
           writeMQTTString w (clientID options) \<bind> (\<lambda>w.
           (if willFlag options \<noteq> 0
            then writeMQTTString w (will_topicName (will options)) \<bind> (\<lambda>w.
                 writeMQTTString w (will_message (will options)))
            else Some w) \<bind> (\<lambda>w.
           (if flags AND 0x80 \<noteq> 0 then writeMQTTString w (username options) else Some w) \<bind> (\<lambda>w.
           (if flags AND 0x40 \<noteq> 0 then writeMQTTString w (password options) else Some w) \<bind> (\<lambda>w.
           Some (int (snd w), fst w)))))))))))"

text \<open>
  The result of \<open>MQTTDeserialize_connack\<close>: (rc, sessionPresent, connack_rc).  The bit
  field \<open>sessionpresent\<close> is declared after seven unused bits, so that a compiler that
  allocates bit fields from the low end (GCC and ARM little-endian) reads bit 7.
\<close>

definition MQTTDeserialize_connack :: "byte \<Rightarrow> byte \<Rightarrow> bytes \<Rightarrow> int \<Rightarrow> (int \<times> byte \<times> byte) option" where
  "MQTTDeserialize_connack sessionPresent connack_rc buf buflen =
    readChar buf 0 \<bind> (\<lambda>(header, curdata).
    if MQTT_HEADER_GET_TYPE header \<noteq> CONNACK then Some (0, sessionPresent, connack_rc)
    else MQTTPacket_decodeBuf buf curdata \<bind> (\<lambda>(rc, mylen).
    let curdata = curdata + rc; enddata = int curdata + mylen
    in if enddata - int curdata < 2 then Some (int rc, sessionPresent, connack_rc)
       else readChar buf curdata \<bind> (\<lambda>(flags, curdata).
            readChar buf curdata \<bind> (\<lambda>(code, curdata).
            Some (1, drop_bit 7 flags, code)))))"

definition MQTTSerialize_zero :: "bytes \<Rightarrow> int \<Rightarrow> byte \<Rightarrow> (int \<times> bytes) option" where
  "MQTTSerialize_zero buf buflen packettype =
    (if buflen < 2 then Some (MQTTPACKET_BUFFER_TOO_SHORT, buf)
     else writeChar (buf, 0) (MQTT_HEADER_SET_TYPE 0 packettype) \<bind> (\<lambda>w.
          writeRemLen w 0 \<bind> (\<lambda>w. Some (int (snd w), fst w))))"

definition MQTTSerialize_disconnect :: "bytes \<Rightarrow> int \<Rightarrow> (int \<times> bytes) option" where
  "MQTTSerialize_disconnect buf buflen = MQTTSerialize_zero buf buflen DISCONNECT"

definition MQTTSerialize_pingreq :: "bytes \<Rightarrow> int \<Rightarrow> (int \<times> bytes) option" where
  "MQTTSerialize_pingreq buf buflen = MQTTSerialize_zero buf buflen PINGREQ"

subsection \<open>MQTTSubscribeClient.c\<close>

text \<open>The arrays \<open>topicFilters\<close> and \<open>requestedQoSs\<close> of \<open>count\<close> members are one list of pairs.\<close>

fun MQTTSerialize_subscribeLength :: "MQTTString list \<Rightarrow> int \<Rightarrow> int" where
  "MQTTSerialize_subscribeLength [] len = len"
| "MQTTSerialize_subscribeLength (t # ts) len = MQTTSerialize_subscribeLength ts (len + (2 + MQTTstrlen t + 1))"

fun subscribe_write_filters :: "out \<Rightarrow> (MQTTString \<times> int) list \<Rightarrow> out option" where
  "subscribe_write_filters w [] = Some w"
| "subscribe_write_filters w ((t, q) # ts) =
     writeMQTTString w t \<bind> (\<lambda>w. writeChar w (byte_of q) \<bind> (\<lambda>w. subscribe_write_filters w ts))"

definition MQTTSerialize_subscribe ::
    "bytes \<Rightarrow> int \<Rightarrow> byte \<Rightarrow> u16 \<Rightarrow> (MQTTString \<times> int) list \<Rightarrow> (int \<times> bytes) option" where
  "MQTTSerialize_subscribe buf buflen dup packetid filters =
    (let rem_len = MQTTSerialize_subscribeLength (map fst filters) 2
     in if MQTTPacket_len rem_len > buflen then Some (MQTTPACKET_BUFFER_TOO_SHORT, buf)
        else let header = MQTT_HEADER_SET_QOS (MQTT_HEADER_SET_DUP (MQTT_HEADER_SET_TYPE 0 SUBSCRIBE) dup) 1
        in writeChar (buf, 0) header \<bind> (\<lambda>w.
           writeRemLen w rem_len \<bind> (\<lambda>w.
           writeInt w (uint packetid) \<bind> (\<lambda>w.
           subscribe_write_filters w filters \<bind> (\<lambda>w.
           Some (int (snd w), fst w))))))"

text \<open>The granted-QoS loop; a \<open>char\<close> is sign-extended into the \<open>int\<close> array.\<close>

function suback_loop :: "bytes \<Rightarrow> nat \<Rightarrow> int \<Rightarrow> int \<Rightarrow> int list \<Rightarrow> (int \<times> int list) option" where
  "suback_loop buf curdata enddata maxcount granted =
    (if int curdata < enddata then
       (if int (length granted) \<ge> maxcount then Some (-1, granted)
        else readChar buf curdata \<bind> (\<lambda>(c, curdata').
             suback_loop buf (Suc curdata) enddata maxcount (granted @ [sint c])))
     else Some (1, granted))"
  by pat_completeness auto
termination
  by (relation "measure (\<lambda>(buf, cur, e, m, g). nat (e - int cur))") auto

text \<open>The result of \<open>MQTTDeserialize_suback\<close>: (rc, packetid, granted QoS codes, whose
  length is \<open>*count\<close>).\<close>

definition MQTTDeserialize_suback :: "u16 \<Rightarrow> int \<Rightarrow> bytes \<Rightarrow> int \<Rightarrow> (int \<times> u16 \<times> int list) option" where
  "MQTTDeserialize_suback packetid maxcount buf buflen =
    readChar buf 0 \<bind> (\<lambda>(header, curdata).
    if MQTT_HEADER_GET_TYPE header \<noteq> SUBACK then Some (0, packetid, [])
    else MQTTPacket_decodeBuf buf curdata \<bind> (\<lambda>(rc, mylen).
    let curdata = curdata + rc; enddata = int curdata + mylen
    in if enddata - int curdata < 2 then Some (int rc, packetid, [])
       else readInt buf curdata \<bind> (\<lambda>(n, curdata).
            suback_loop buf curdata enddata maxcount [] \<bind> (\<lambda>(rc, granted).
            Some (rc, word_of_int n, granted)))))"

subsection \<open>MQTTUnsubscribeClient.c\<close>

fun MQTTSerialize_unsubscribeLength :: "MQTTString list \<Rightarrow> int \<Rightarrow> int" where
  "MQTTSerialize_unsubscribeLength [] len = len"
| "MQTTSerialize_unsubscribeLength (t # ts) len = MQTTSerialize_unsubscribeLength ts (len + (2 + MQTTstrlen t))"

fun unsubscribe_write_filters :: "out \<Rightarrow> MQTTString list \<Rightarrow> out option" where
  "unsubscribe_write_filters w [] = Some w"
| "unsubscribe_write_filters w (t # ts) = writeMQTTString w t \<bind> (\<lambda>w. unsubscribe_write_filters w ts)"

definition MQTTSerialize_unsubscribe ::
    "bytes \<Rightarrow> int \<Rightarrow> byte \<Rightarrow> u16 \<Rightarrow> MQTTString list \<Rightarrow> (int \<times> bytes) option" where
  "MQTTSerialize_unsubscribe buf buflen dup packetid filters =
    (let rem_len = MQTTSerialize_unsubscribeLength filters 2
     in if MQTTPacket_len rem_len > buflen then Some (MQTTPACKET_BUFFER_TOO_SHORT, buf)
        else let header = MQTT_HEADER_SET_QOS (MQTT_HEADER_SET_DUP (MQTT_HEADER_SET_TYPE 0 UNSUBSCRIBE) dup) 1
        in writeChar (buf, 0) header \<bind> (\<lambda>w.
           writeRemLen w rem_len \<bind> (\<lambda>w.
           writeInt w (uint packetid) \<bind> (\<lambda>w.
           unsubscribe_write_filters w filters \<bind> (\<lambda>w.
           Some (int (snd w), fst w))))))"

text \<open>\<open>type\<close> starts at 0, so that the packet type of a parsed acknowledgement decides.\<close>

definition MQTTDeserialize_unsuback :: "u16 \<Rightarrow> bytes \<Rightarrow> int \<Rightarrow> (int \<times> u16) option" where
  "MQTTDeserialize_unsuback packetid buf buflen =
    MQTTDeserialize_ack packetid buf buflen \<bind> (\<lambda>(rc, ty, dup, packetid).
    Some (if ty = UNSUBACK then 1 else rc, packetid))"

declare suback_loop.simps [simp del]

section \<open>The contract of a serialiser\<close>

text \<open>A control packet: fixed header byte, remaining length, variable header and payload.\<close>

definition mqtt_frame :: "byte \<Rightarrow> bytes \<Rightarrow> bytes" where
  "mqtt_frame hdr body = hdr # rem_len_bytes (length body) @ body"

lemma length_mqtt_frame:
  "length (mqtt_frame hdr body) = 1 + length (rem_len_bytes (length body)) + length body"
  by (simp add: mqtt_frame_def)

lemma mqtt_frame_decode:
  "length body < 268435456 \<Longrightarrow>
    MQTTPacket_decodeBuf (mqtt_frame hdr body @ post) 1 = Some (length (rem_len_bytes (length body)), int (length body))"
  by (rule MQTTPacket_decodeBuf_bytes) (simp_all add: mqtt_frame_def)

lemma MQTTPacket_len_covers:
  "n < 268435456 \<Longrightarrow> 1 + int (length (rem_len_bytes n)) + int n \<le> MQTTPacket_len (int n)"
  by (simp add: MQTTPacket_len_def rem_len_bytes_length Let_def)

lemma writeRemLen_emit: "0 \<le> n \<Longrightarrow> writeRemLen w n = emit w (rem_len_bytes (nat n))"
  by (simp add: writeRemLen_def MQTTPacket_encode_bytes emit_def)

lemma writeBytes_emit:
  "0 \<le> n \<Longrightarrow> nat n \<le> length src \<Longrightarrow> writeBytes w src n = emit w (take (nat n) src)"
  by (simp add: writeBytes_def load_i_def load_n_def emit_def)

text \<open>Header, remaining length and body written one after the other are one frame.\<close>

lemma frame_emit:
  "writeChar w h \<bind> (\<lambda>w. writeRemLen w (int (length body)) \<bind> (\<lambda>w. emit w body \<bind> k)) =
    emit w (mqtt_frame h body) \<bind> k"
  by (simp add: writeRemLen_emit emit_simps mqtt_frame_def)

locale packet_writer =
  fixes ser :: "'a \<Rightarrow> bytes \<Rightarrow> int \<Rightarrow> (int \<times> bytes) option"
    and ok :: "'a \<Rightarrow> bool"
    and hdr :: "'a \<Rightarrow> byte"
    and body :: "'a \<Rightarrow> bytes"
    and need :: "'a \<Rightarrow> int"
  assumes ser_short: "buflen < need a \<Longrightarrow> ser a buf buflen = Some (-2, buf)"
    and ser_emit: "ok a \<Longrightarrow> need a \<le> buflen \<Longrightarrow>
      ser a buf buflen = emit (buf, 0) (mqtt_frame (hdr a) (body a)) \<bind> (\<lambda>w. Some (int (snd w), fst w))"
    and need_covers: "ok a \<Longrightarrow> int (length (mqtt_frame (hdr a) (body a))) \<le> need a"
    and body_bound: "ok a \<Longrightarrow> length (body a) < 268435456"
begin

lemma ser_written:
  assumes "ok a" "need a \<le> buflen" "buflen \<le> int (length buf)"
  shows "ser a buf buflen = Some (int (length (mqtt_frame (hdr a) (body a))),
    mqtt_frame (hdr a) (body a) @ drop (length (mqtt_frame (hdr a) (body a))) buf)"
proof -
  have "length (mqtt_frame (hdr a) (body a)) \<le> length buf"
    using need_covers [OF assms(1)] assms(2,3) by linarith
  then show ?thesis using ser_emit [OF assms(1,2)] by (simp add: emit_start)
qed

lemma ser_eq:
  "ok a \<Longrightarrow> buflen \<le> int (length buf) \<Longrightarrow> ser a buf buflen =
    (if buflen < need a then Some (-2, buf)
     else Some (int (length (mqtt_frame (hdr a) (body a))),
       mqtt_frame (hdr a) (body a) @ drop (length (mqtt_frame (hdr a) (body a))) buf))"
  by (simp add: ser_short ser_written)

lemma ser_safe:
  assumes "ok a" "buflen \<le> int (length buf)"
  shows "\<exists>rc m. ser a buf buflen = Some (rc, m) \<and> length m = length buf \<and> rc \<le> max (-2) buflen
    \<and> (rc = -2 \<longleftrightarrow> buflen < need a) \<and> drop (nat rc) m = drop (nat rc) buf"
proof (cases "buflen < need a")
  case True
  then show ?thesis using ser_short by auto
next
  case False
  let ?f = "mqtt_frame (hdr a) (body a)"
  have "int (length ?f) \<le> buflen" using need_covers [OF assms(1)] False by linarith
  moreover have "length ?f \<le> length buf" using calculation assms(2) by linarith
  ultimately show ?thesis using ser_written [OF assms(1) _ assms(2)] False by auto
qed

lemma ser_framed:
  assumes "ok a" "buflen \<le> int (length buf)" "ser a buf buflen = Some (rc, m)" "0 < rc"
  shows "\<exists>k v. MQTTPacket_decodeBuf m 1 = Some (k, v) \<and> rc = 1 + int k + v
    \<and> m ! 0 = hdr a \<and> take (nat v) (drop (1 + k) m) = body a"
proof -
  have "need a \<le> buflen"
    using ser_short [of buflen a buf] assms(3,4) by (cases "buflen < need a") auto
  from ser_written [OF assms(1) this assms(2)] assms(3)
  have m: "rc = int (length (mqtt_frame (hdr a) (body a)))"
      "m = mqtt_frame (hdr a) (body a) @ drop (length (mqtt_frame (hdr a) (body a))) buf" by auto
  show ?thesis
    using mqtt_frame_decode [OF body_bound [OF assms(1)], of "hdr a"] m
    by (auto simp: length_mqtt_frame) (simp_all add: mqtt_frame_def)
qed

end

section \<open>The serialisers meet the contract\<close>

type_synonym publish_args = "byte \<times> int \<times> byte \<times> u16 \<times> MQTTString \<times> bytes \<times> int"

definition ser_publish :: "publish_args \<Rightarrow> bytes \<Rightarrow> int \<Rightarrow> (int \<times> bytes) option" where
  "ser_publish = (\<lambda>(dup, qos, retained, packetid, topic, payload, n) buf buflen.
     MQTTSerialize_publish buf buflen dup qos retained packetid topic payload n)"

definition publish_hdr :: "publish_args \<Rightarrow> byte" where
  "publish_hdr = (\<lambda>(dup, qos, retained, packetid, topic, payload, n).
     MQTT_HEADER_SET_RETAIN (MQTT_HEADER_SET_QOS (MQTT_HEADER_SET_DUP
       (MQTT_HEADER_SET_TYPE 0 PUBLISH) dup) qos) retained)"

definition publish_body :: "publish_args \<Rightarrow> bytes" where
  "publish_body = (\<lambda>(dup, qos, retained, packetid, topic, payload, n).
     utf_bytes (mqtt_text topic) @ (if qos > 0 then int16_bytes (uint packetid) else []) @ take (nat n) payload)"

definition publish_ok :: "publish_args \<Rightarrow> bool" where
  "publish_ok = (\<lambda>(dup, qos, retained, packetid, topic, payload, n).
     mqtt_string_ok topic \<and> 0 \<le> n \<and> nat n \<le> length payload \<and> length (mqtt_text topic) + nat n + 4 < 268435456)"

definition publish_need :: "publish_args \<Rightarrow> int" where
  "publish_need = (\<lambda>(dup, qos, retained, packetid, topic, payload, n).
     MQTTPacket_len (MQTTSerialize_publishLength qos topic n))"

lemma publish_length:
  "publish_ok (dup, qos, retained, packetid, topic, payload, n) \<Longrightarrow>
    MQTTSerialize_publishLength qos topic n =
      int (length (publish_body (dup, qos, retained, packetid, topic, payload, n)))"
  by (simp add: publish_ok_def publish_body_def MQTTSerialize_publishLength_def MQTTstrlen_text Let_def min_absorb2)

lemma publish_body_bound: "publish_ok a \<Longrightarrow> length (publish_body a) < 268435456"
  by (cases a) (auto simp: publish_ok_def publish_body_def)

interpretation pub: packet_writer ser_publish publish_ok publish_hdr publish_body publish_need
proof
  fix a :: publish_args and buf and buflen :: int
  obtain dup qos retained packetid topic payload n where a: "a = (dup, qos, retained, packetid, topic, payload, n)"
    by (cases a)
  show "buflen < publish_need a \<Longrightarrow> ser_publish a buf buflen = Some (-2, buf)"
    by (simp add: a ser_publish_def publish_need_def MQTTSerialize_publish_def Let_def)
  show "int (length (mqtt_frame (publish_hdr a) (publish_body a))) \<le> publish_need a" if "publish_ok a"
    using MQTTPacket_len_covers [OF publish_body_bound [OF that]] publish_length that
    by (simp add: a publish_need_def length_mqtt_frame)
  show "length (publish_body a) < 268435456" if "publish_ok a" by (rule publish_body_bound [OF that])
  show "ser_publish a buf buflen = emit (buf, 0) (mqtt_frame (publish_hdr a) (publish_body a)) \<bind>
      (\<lambda>w. Some (int (snd w), fst w))" if "publish_ok a" "publish_need a \<le> buflen"
  proof -
    have "0 \<le> n" "nat n \<le> length payload" "mqtt_string_ok topic" using that by (simp_all add: a publish_ok_def)
    then have "writeMQTTString w topic \<bind> (\<lambda>w. (if qos > 0 then writeInt w (uint packetid) else Some w) \<bind>
        (\<lambda>w. writeBytes w payload n \<bind> k)) = emit w (publish_body a) \<bind> k" for w and k :: "out \<Rightarrow> (int \<times> bytes) option"
      by (simp add: a writeMQTTString_emit writeBytes_emit emit_simps publish_body_def)
    then show ?thesis
      using publish_length [of dup qos retained packetid topic payload n] that
      by (simp add: a ser_publish_def MQTTSerialize_publish_def publish_need_def Let_def publish_hdr_def frame_emit)
  qed
qed

text \<open>SUBSCRIBE and UNSUBSCRIBE: the filter loops.\<close>

definition subscribe_filter_bytes :: "(MQTTString \<times> int) list \<Rightarrow> bytes" where
  "subscribe_filter_bytes fs = concat (map (\<lambda>(t, q). utf_bytes (mqtt_text t) @ [byte_of q]) fs)"

definition unsubscribe_filter_bytes :: "MQTTString list \<Rightarrow> bytes" where
  "unsubscribe_filter_bytes fs = concat (map (\<lambda>t. utf_bytes (mqtt_text t)) fs)"

lemma subscribe_write_filters_emit:
  "\<forall>t \<in> fst ` set fs. mqtt_string_ok t \<Longrightarrow>
    emit w xs \<bind> (\<lambda>w. subscribe_write_filters w fs) = emit w (xs @ subscribe_filter_bytes fs)"
  by (induction fs arbitrary: xs)
    (auto simp: subscribe_filter_bytes_def writeMQTTString_emit emit_simps)

lemma unsubscribe_write_filters_emit:
  "\<forall>t \<in> set fs. mqtt_string_ok t \<Longrightarrow>
    emit w xs \<bind> (\<lambda>w. unsubscribe_write_filters w fs) = emit w (xs @ unsubscribe_filter_bytes fs)"
  by (induction fs arbitrary: xs)
    (auto simp: unsubscribe_filter_bytes_def writeMQTTString_emit emit_simps)

lemma subscribeLength_bytes:
  "\<forall>t \<in> fst ` set fs. mqtt_string_ok t \<Longrightarrow>
    MQTTSerialize_subscribeLength (map fst fs) len = len + int (length (subscribe_filter_bytes fs))"
  by (induction fs arbitrary: len) (auto simp: subscribe_filter_bytes_def MQTTstrlen_text)

lemma unsubscribeLength_bytes:
  "\<forall>t \<in> set fs. mqtt_string_ok t \<Longrightarrow>
    MQTTSerialize_unsubscribeLength fs len = len + int (length (unsubscribe_filter_bytes fs))"
  by (induction fs arbitrary: len) (auto simp: unsubscribe_filter_bytes_def MQTTstrlen_text)

definition ser_subscribe :: "byte \<times> u16 \<times> (MQTTString \<times> int) list \<Rightarrow> bytes \<Rightarrow> int \<Rightarrow> (int \<times> bytes) option" where
  "ser_subscribe = (\<lambda>(dup, packetid, fs) buf buflen. MQTTSerialize_subscribe buf buflen dup packetid fs)"

definition subscribe_ok :: "byte \<times> u16 \<times> (MQTTString \<times> int) list \<Rightarrow> bool" where
  "subscribe_ok = (\<lambda>(dup, packetid, fs). (\<forall>t \<in> fst ` set fs. mqtt_string_ok t)
     \<and> length (subscribe_filter_bytes fs) + 2 < 268435456)"

definition subscribe_hdr :: "byte \<times> u16 \<times> (MQTTString \<times> int) list \<Rightarrow> byte" where
  "subscribe_hdr = (\<lambda>(dup, packetid, fs).
     MQTT_HEADER_SET_QOS (MQTT_HEADER_SET_DUP (MQTT_HEADER_SET_TYPE 0 SUBSCRIBE) dup) 1)"

definition subscribe_body :: "byte \<times> u16 \<times> (MQTTString \<times> int) list \<Rightarrow> bytes" where
  "subscribe_body = (\<lambda>(dup, packetid, fs). int16_bytes (uint packetid) @ subscribe_filter_bytes fs)"

definition subscribe_need :: "byte \<times> u16 \<times> (MQTTString \<times> int) list \<Rightarrow> int" where
  "subscribe_need = (\<lambda>(dup, packetid, fs). MQTTPacket_len (MQTTSerialize_subscribeLength (map fst fs) 2))"

lemma subscribe_length:
  "subscribe_ok (dup, packetid, fs) \<Longrightarrow>
    MQTTSerialize_subscribeLength (map fst fs) 2 = int (length (subscribe_body (dup, packetid, fs)))"
  by (simp add: subscribe_ok_def subscribe_body_def subscribeLength_bytes)

lemma subscribe_body_bound: "subscribe_ok a \<Longrightarrow> length (subscribe_body a) < 268435456"
  by (cases a) (auto simp: subscribe_ok_def subscribe_body_def)

interpretation sub: packet_writer ser_subscribe subscribe_ok subscribe_hdr subscribe_body subscribe_need
proof
  fix a :: "byte \<times> u16 \<times> (MQTTString \<times> int) list" and buf and buflen :: int
  obtain dup packetid fs where a: "a = (dup, packetid, fs)" by (cases a)
  show "buflen < subscribe_need a \<Longrightarrow> ser_subscribe a buf buflen = Some (-2, buf)"
    by (simp add: a ser_subscribe_def subscribe_need_def MQTTSerialize_subscribe_def Let_def)
  show "int (length (mqtt_frame (subscribe_hdr a) (subscribe_body a))) \<le> subscribe_need a" if "subscribe_ok a"
    using MQTTPacket_len_covers [OF subscribe_body_bound [OF that]] subscribe_length that
    by (simp add: a subscribe_need_def length_mqtt_frame)
  show "length (subscribe_body a) < 268435456" if "subscribe_ok a" by (rule subscribe_body_bound [OF that])
  show "ser_subscribe a buf buflen = emit (buf, 0) (mqtt_frame (subscribe_hdr a) (subscribe_body a)) \<bind>
      (\<lambda>w. Some (int (snd w), fst w))" if "subscribe_ok a" "subscribe_need a \<le> buflen"
  proof -
    have "writeInt w (uint packetid) \<bind> (\<lambda>w. subscribe_write_filters w fs \<bind> k) =
        emit w (subscribe_body a) \<bind> k" for w and k :: "out \<Rightarrow> (int \<times> bytes) option"
      using subscribe_write_filters_emit [of fs w "int16_bytes (uint packetid)"] that(1)
      by (simp add: a subscribe_ok_def subscribe_body_def writeInt_emit flip: Option.bind_assoc)
    then show ?thesis using subscribe_length [of dup packetid fs] that
      by (simp add: a ser_subscribe_def MQTTSerialize_subscribe_def subscribe_need_def Let_def subscribe_hdr_def frame_emit)
  qed
qed

definition ser_unsubscribe :: "byte \<times> u16 \<times> MQTTString list \<Rightarrow> bytes \<Rightarrow> int \<Rightarrow> (int \<times> bytes) option" where
  "ser_unsubscribe = (\<lambda>(dup, packetid, fs) buf buflen. MQTTSerialize_unsubscribe buf buflen dup packetid fs)"

definition unsubscribe_ok :: "byte \<times> u16 \<times> MQTTString list \<Rightarrow> bool" where
  "unsubscribe_ok = (\<lambda>(dup, packetid, fs). (\<forall>t \<in> set fs. mqtt_string_ok t)
     \<and> length (unsubscribe_filter_bytes fs) + 2 < 268435456)"

definition unsubscribe_hdr :: "byte \<times> u16 \<times> MQTTString list \<Rightarrow> byte" where
  "unsubscribe_hdr = (\<lambda>(dup, packetid, fs).
     MQTT_HEADER_SET_QOS (MQTT_HEADER_SET_DUP (MQTT_HEADER_SET_TYPE 0 UNSUBSCRIBE) dup) 1)"

definition unsubscribe_body :: "byte \<times> u16 \<times> MQTTString list \<Rightarrow> bytes" where
  "unsubscribe_body = (\<lambda>(dup, packetid, fs). int16_bytes (uint packetid) @ unsubscribe_filter_bytes fs)"

definition unsubscribe_need :: "byte \<times> u16 \<times> MQTTString list \<Rightarrow> int" where
  "unsubscribe_need = (\<lambda>(dup, packetid, fs). MQTTPacket_len (MQTTSerialize_unsubscribeLength fs 2))"

lemma unsubscribe_length:
  "unsubscribe_ok (dup, packetid, fs) \<Longrightarrow>
    MQTTSerialize_unsubscribeLength fs 2 = int (length (unsubscribe_body (dup, packetid, fs)))"
  by (simp add: unsubscribe_ok_def unsubscribe_body_def unsubscribeLength_bytes)

lemma unsubscribe_body_bound: "unsubscribe_ok a \<Longrightarrow> length (unsubscribe_body a) < 268435456"
  by (cases a) (auto simp: unsubscribe_ok_def unsubscribe_body_def)

interpretation unsub: packet_writer ser_unsubscribe unsubscribe_ok unsubscribe_hdr unsubscribe_body unsubscribe_need
proof
  fix a :: "byte \<times> u16 \<times> MQTTString list" and buf and buflen :: int
  obtain dup packetid fs where a: "a = (dup, packetid, fs)" by (cases a)
  show "buflen < unsubscribe_need a \<Longrightarrow> ser_unsubscribe a buf buflen = Some (-2, buf)"
    by (simp add: a ser_unsubscribe_def unsubscribe_need_def MQTTSerialize_unsubscribe_def Let_def)
  show "int (length (mqtt_frame (unsubscribe_hdr a) (unsubscribe_body a))) \<le> unsubscribe_need a" if "unsubscribe_ok a"
    using MQTTPacket_len_covers [OF unsubscribe_body_bound [OF that]] unsubscribe_length that
    by (simp add: a unsubscribe_need_def length_mqtt_frame)
  show "length (unsubscribe_body a) < 268435456" if "unsubscribe_ok a" by (rule unsubscribe_body_bound [OF that])
  show "ser_unsubscribe a buf buflen = emit (buf, 0) (mqtt_frame (unsubscribe_hdr a) (unsubscribe_body a)) \<bind>
      (\<lambda>w. Some (int (snd w), fst w))" if "unsubscribe_ok a" "unsubscribe_need a \<le> buflen"
  proof -
    have "writeInt w (uint packetid) \<bind> (\<lambda>w. unsubscribe_write_filters w fs \<bind> k) =
        emit w (unsubscribe_body a) \<bind> k" for w and k :: "out \<Rightarrow> (int \<times> bytes) option"
      using unsubscribe_write_filters_emit [of fs w "int16_bytes (uint packetid)"] that(1)
      by (simp add: a unsubscribe_ok_def unsubscribe_body_def writeInt_emit flip: Option.bind_assoc)
    then show ?thesis using unsubscribe_length [of dup packetid fs] that
      by (simp add: a ser_unsubscribe_def MQTTSerialize_unsubscribe_def unsubscribe_need_def Let_def unsubscribe_hdr_def frame_emit)
  qed
qed

text \<open>Acknowledgements and the packets without a body.\<close>

definition ser_ack :: "byte \<times> byte \<times> u16 \<Rightarrow> bytes \<Rightarrow> int \<Rightarrow> (int \<times> bytes) option" where
  "ser_ack = (\<lambda>(packettype, dup, packetid) buf buflen. MQTTSerialize_ack buf buflen packettype dup packetid)"

definition ack_hdr :: "byte \<times> byte \<times> u16 \<Rightarrow> byte" where
  "ack_hdr = (\<lambda>(packettype, dup, packetid). MQTT_HEADER_SET_QOS (MQTT_HEADER_SET_DUP
     (MQTT_HEADER_SET_TYPE 0 packettype) dup) (if packettype = PUBREL then 1 else 0))"

definition ack_body :: "byte \<times> byte \<times> u16 \<Rightarrow> bytes" where
  "ack_body = (\<lambda>(packettype, dup, packetid). int16_bytes (uint packetid))"

interpretation ack: packet_writer ser_ack "\<lambda>_. True" ack_hdr ack_body "\<lambda>_. 4"
proof
  fix a :: "byte \<times> byte \<times> u16" and buf and buflen :: int
  obtain ty dup packetid where a: "a = (ty, dup, packetid)" by (cases a)
  show "buflen < 4 \<Longrightarrow> ser_ack a buf buflen = Some (-2, buf)"
    by (simp add: a ser_ack_def MQTTSerialize_ack_def)
  show "int (length (mqtt_frame (ack_hdr a) (ack_body a))) \<le> 4" "length (ack_body a) < 268435456"
    by (simp_all add: a ack_body_def length_mqtt_frame rem_len_bytes_length)
  have "writeChar (buf, 0) (ack_hdr a) \<bind> (\<lambda>w. writeRemLen w 2 \<bind> (\<lambda>w. writeInt w (uint packetid) \<bind> k)) =
      emit (buf, 0) (mqtt_frame (ack_hdr a) (ack_body a)) \<bind> k" for k :: "out \<Rightarrow> (int \<times> bytes) option"
    using frame_emit [of "(buf, 0)" "ack_hdr a" "ack_body a" k] by (simp add: a ack_body_def writeInt_emit)
  then show "ser_ack a buf buflen = emit (buf, 0) (mqtt_frame (ack_hdr a) (ack_body a)) \<bind>
      (\<lambda>w. Some (int (snd w), fst w))" if "4 \<le> buflen"
    using that by (simp add: a ser_ack_def MQTTSerialize_ack_def Let_def ack_hdr_def)
qed

definition ser_zero :: "byte \<Rightarrow> bytes \<Rightarrow> int \<Rightarrow> (int \<times> bytes) option" where
  "ser_zero ty buf buflen = MQTTSerialize_zero buf buflen ty"

interpretation zero: packet_writer ser_zero "\<lambda>_. True" "MQTT_HEADER_SET_TYPE 0" "\<lambda>_. []" "\<lambda>_. 2"
  by unfold_locales
    (simp_all add: ser_zero_def MQTTSerialize_zero_def mqtt_frame_def writeRemLen_emit emit_simps rem_len_bytes.simps [of 0])

text \<open>CONNECT: the flag byte announces exactly the fields that follow.\<close>

lemma connect_flags_bits:
  "MQTT_connect_flags options AND 0x80 \<noteq> 0 \<longleftrightarrow> string_given (username options)"
  "MQTT_connect_flags options AND 0x40 \<noteq> 0 \<longleftrightarrow> string_given (password options)"
  "MQTT_connect_flags options AND 0x04 \<noteq> 0 \<longleftrightarrow> willFlag options \<noteq> 0"
  "MQTT_connect_flags options AND 0x02 \<noteq> 0 \<longleftrightarrow> cleansession options \<noteq> 0"
  by (simp_all add: MQTT_connect_flags_def Let_def word_ao_dist and.assoc)

definition connect_proto :: "MQTTPacket_connectData \<Rightarrow> bytes" where
  "connect_proto options = (if MQTTVersion options = 4 then utf_bytes str_MQTT @ [4] else utf_bytes str_MQIsdp @ [3])"

definition connect_body :: "MQTTPacket_connectData \<Rightarrow> bytes" where
  "connect_body options = connect_proto options @ [MQTT_connect_flags options] @
     int16_bytes (uint (keepAliveInterval options)) @ utf_bytes (mqtt_text (clientID options)) @
     (if willFlag options \<noteq> 0 then utf_bytes (mqtt_text (will_topicName (will options))) @
        utf_bytes (mqtt_text (will_message (will options))) else []) @
     (if string_given (username options) then utf_bytes (mqtt_text (username options)) else []) @
     (if string_given (password options) then utf_bytes (mqtt_text (password options)) else [])"

definition connect_ok :: "MQTTPacket_connectData \<Rightarrow> bool" where
  "connect_ok options \<longleftrightarrow> (MQTTVersion options = 3 \<or> MQTTVersion options = 4)
     \<and> mqtt_string_ok (clientID options)
     \<and> mqtt_string_ok (will_topicName (will options)) \<and> mqtt_string_ok (will_message (will options))
     \<and> mqtt_string_ok (username options) \<and> mqtt_string_ok (password options)
     \<and> length (connect_body options) < 268435456"

lemma connect_length:
  assumes "connect_ok options"
  shows "MQTTSerialize_connectLength options = int (length (connect_body options))"
proof -
  have "int (length (connect_proto options)) + 3 = (if MQTTVersion options = 3 then 12 else 10)"
    using assms by (auto simp: connect_ok_def connect_proto_def str_MQTT_def str_MQIsdp_def)
  with assms show ?thesis
    by (auto simp: connect_ok_def MQTTSerialize_connectLength_def connect_body_def MQTTstrlen_text Let_def)
qed

lemma connect_body_emit:
  assumes "connect_ok options"
  shows "(if MQTTVersion options = 4
            then writeCString w str_MQTT \<bind> (\<lambda>w. writeChar w 4)
            else writeCString w str_MQIsdp \<bind> (\<lambda>w. writeChar w 3)) \<bind> (\<lambda>w.
           writeChar w (MQTT_connect_flags options) \<bind> (\<lambda>w.
           writeInt w (uint (keepAliveInterval options)) \<bind> (\<lambda>w.
           writeMQTTString w (clientID options) \<bind> (\<lambda>w.
           (if willFlag options \<noteq> 0
            then writeMQTTString w (will_topicName (will options)) \<bind> (\<lambda>w.
                 writeMQTTString w (will_message (will options)))
            else Some w) \<bind> (\<lambda>w.
           (if MQTT_connect_flags options AND 0x80 \<noteq> 0 then writeMQTTString w (username options) else Some w) \<bind> (\<lambda>w.
           (if MQTT_connect_flags options AND 0x40 \<noteq> 0 then writeMQTTString w (password options) else Some w) \<bind> k))))))
    = emit w (connect_body options) \<bind> k"
proof -
  have ok: "mqtt_string_ok (clientID options)" "mqtt_string_ok (will_topicName (will options))"
    "mqtt_string_ok (will_message (will options))" "mqtt_string_ok (username options)" "mqtt_string_ok (password options)"
    using assms by (simp_all add: connect_ok_def)
  note [simp] = ok [THEN writeMQTTString_emit] connect_flags_bits emit_simps connect_body_def connect_proto_def
  show ?thesis
    by (cases "willFlag options = 0"; cases "string_given (username options)"; cases "string_given (password options)";
        cases "MQTTVersion options = 4") simp_all
qed

definition ser_connect :: "MQTTPacket_connectData \<Rightarrow> bytes \<Rightarrow> int \<Rightarrow> (int \<times> bytes) option" where
  "ser_connect options buf buflen = MQTTSerialize_connect buf buflen options"

interpretation conn: packet_writer ser_connect connect_ok "\<lambda>_. MQTT_HEADER_SET_TYPE 0 CONNECT" connect_body
  "\<lambda>options. MQTTPacket_len (MQTTSerialize_connectLength options)"
proof
  fix options buf and buflen :: int
  show "buflen < MQTTPacket_len (MQTTSerialize_connectLength options) \<Longrightarrow> ser_connect options buf buflen = Some (-2, buf)"
    by (simp add: ser_connect_def MQTTSerialize_connect_def Let_def)
  show bound: "length (connect_body options) < 268435456" if "connect_ok options"
    using that by (simp add: connect_ok_def)
  show "int (length (mqtt_frame (MQTT_HEADER_SET_TYPE 0 CONNECT) (connect_body options))) \<le>
      MQTTPacket_len (MQTTSerialize_connectLength options)" if "connect_ok options"
    using MQTTPacket_len_covers [OF bound [OF that]] connect_length [OF that] by (simp add: length_mqtt_frame)
  show "ser_connect options buf buflen =
      emit (buf, 0) (mqtt_frame (MQTT_HEADER_SET_TYPE 0 CONNECT) (connect_body options)) \<bind>
      (\<lambda>w. Some (int (snd w), fst w))"
    if "connect_ok options" "MQTTPacket_len (MQTTSerialize_connectLength options) \<le> buflen"
    using that connect_length [OF that(1)]
    by (simp only: ser_connect_def MQTTSerialize_connect_def Let_def connect_body_emit [OF that(1)] frame_emit) simp
qed

section \<open>Header fields\<close>

lemma and_1_cases: "(d :: byte) AND 1 = 0 \<or> d AND 1 = 1"
  by (cases "odd d") (simp_all add: and_one_eq mod_2_eq_odd)

lemma header_set_dup: "MQTT_HEADER_SET_DUP h d = h OR push_bit 3 (d AND 1)"
  by (simp add: MQTT_HEADER_SET_DUP_def push_bit_and)

lemmas header_get_defs = MQTT_HEADER_GET_TYPE_def MQTT_HEADER_GET_DUP_def MQTT_HEADER_GET_QOS_def MQTT_HEADER_GET_RETAIN_def

lemma header_fields_eval:
  assumes "a = 0 \<or> a = (1 :: byte)" "b = 0 \<or> b = (1 :: byte)" "q = 0 \<or> q = 1 \<or> q = 2 \<or> q = (3 :: int)"
    and h: "h = (MQTT_HEADER_SET_QOS (0x30 OR push_bit 3 a) q) OR b"
  shows "MQTT_HEADER_GET_TYPE h = PUBLISH" "MQTT_HEADER_GET_DUP h = a"
    "uint (MQTT_HEADER_GET_QOS h) = q" "MQTT_HEADER_GET_RETAIN h = b"
  unfolding h using assms(1-3)
  by (elim disjE; simp add: header_get_defs MQTT_HEADER_SET_QOS_def byte_of_def)+

lemma publish_hdr_fields:
  assumes "0 \<le> qos" "qos \<le> 3"
  shows "MQTT_HEADER_GET_TYPE (publish_hdr (dup, qos, retained, r)) = PUBLISH"
    "MQTT_HEADER_GET_DUP (publish_hdr (dup, qos, retained, r)) = dup AND 1"
    "uint (MQTT_HEADER_GET_QOS (publish_hdr (dup, qos, retained, r))) = qos"
    "MQTT_HEADER_GET_RETAIN (publish_hdr (dup, qos, retained, r)) = retained AND 1"
proof -
  have q: "qos = 0 \<or> qos = 1 \<or> qos = 2 \<or> qos = 3" using assms by linarith
  have h: "publish_hdr (dup, qos, retained, r) = MQTT_HEADER_SET_QOS (0x30 OR push_bit 3 (dup AND 1)) qos OR (retained AND 1)"
    by (cases r) (simp add: publish_hdr_def header_set_dup MQTT_HEADER_SET_TYPE_def MQTT_HEADER_SET_RETAIN_def del: push_bit_and)
  note fields = header_fields_eval [OF and_1_cases and_1_cases q h]
  show "MQTT_HEADER_GET_TYPE (publish_hdr (dup, qos, retained, r)) = PUBLISH"
    "MQTT_HEADER_GET_DUP (publish_hdr (dup, qos, retained, r)) = dup AND 1"
    "uint (MQTT_HEADER_GET_QOS (publish_hdr (dup, qos, retained, r))) = qos"
    "MQTT_HEADER_GET_RETAIN (publish_hdr (dup, qos, retained, r)) = retained AND 1"
    by (fact fields)+
qed

section \<open>Reading back\<close>

lemma readInt_bytes:
  assumes "drop p buf = int16_bytes n @ rest" "0 \<le> n" "n < 65536"
  shows "readInt buf p = Some (n, p + 2)"
proof -
  have "load buf p = Some (byte_of (n div 256))" "load buf (Suc p) = Some (byte_of (n mod 256))"
    using assms load_drop [of p buf] load_drop [of "Suc p" buf] by (simp_all add: int16_bytes_def)
  moreover have "256 * (n div 256 mod 256) + n mod 256 = n" using assms(2,3) by simp
  ultimately show ?thesis by (simp add: readInt_def)
qed

lemma readMQTTLenString_bytes:
  assumes "drop p buf = utf_bytes t @ rest" "length t < 65536" "int (p + 2 + length t) \<le> enddata"
  shows "readMQTTLenString buf p enddata s = Some (1,
    s\<lparr>lenstring_len := int (length t), lenstring_data := Some (t @ rest), cstring := None\<rparr>, p + 2 + length t)"
proof -
  have d: "drop (p + 2) buf = t @ rest"
    using assms(1) by (metis append.assoc append_eq_conv_conj drop_drop add.commute length_int16_bytes utf_bytes_def)
  have "readInt buf p = Some (int (length t), p + 2)"
    using assms(1,2) by (intro readInt_bytes [of _ _ _ "t @ rest"]) (simp_all add: utf_bytes_def)
  with assms(3) d show ?thesis by (simp add: readMQTTLenString_def)
qed

text \<open>Parsing a PUBLISH frame: every field is recovered.\<close>

lemma MQTTDeserialize_publish_frame:
  fixes dup qos retained packetid topic payload n
  defines "a \<equiv> (dup, qos, retained, packetid, topic, payload, n)"
  assumes ok: "publish_ok a" and q: "0 \<le> qos" "qos \<le> 3" and t: "length (mqtt_text topic) < 65536"
  shows "MQTTDeserialize_publish f (mqtt_frame (publish_hdr a) (publish_body a) @ post) buflen =
    Some (1, f\<lparr>pf_dup := dup AND 1, pf_qos := qos, pf_retained := retained AND 1,
      pf_packetid := (if qos > 0 then packetid else pf_packetid f),
      pf_topicName := \<lparr>cstring = None, lenstring_len = int (length (mqtt_text topic)),
        lenstring_data = Some (mqtt_text topic @ (if qos > 0 then int16_bytes (uint packetid) else []) @
          take (nat n) payload @ post)\<rparr>,
      pf_payload := Some (take (nat n) payload @ post), pf_payloadlen := n\<rparr>)"
proof -
  let ?t = "mqtt_text topic" and ?pl = "take (nat n) payload"
  let ?pid = "if qos > 0 then int16_bytes (uint packetid) else []"
  let ?body = "utf_bytes ?t @ ?pid @ ?pl"
  let ?rl = "rem_len_bytes (length ?body)"
  let ?buf = "publish_hdr a # ?rl @ ?body @ post"
  have n: "0 \<le> n" "nat n \<le> length payload" "length ?pl = nat n" using ok by (simp_all add: a_def publish_ok_def)
  have body: "publish_body a = ?body" by (simp add: a_def publish_body_def)
  have rl: "MQTTPacket_decodeBuf ?buf 1 = Some (length ?rl, int (length ?body))"
    using MQTTPacket_decodeBuf_bytes [of 1 ?buf "length ?body" "?body @ post"] publish_body_bound [OF ok] body by simp
  have str: "readMQTTLenString ?buf (1 + length ?rl) (int (1 + length ?rl) + int (length ?body)) s =
      Some (1, s\<lparr>lenstring_len := int (length ?t), lenstring_data := Some (?t @ ?pid @ ?pl @ post), cstring := None\<rparr>,
        1 + length ?rl + 2 + length ?t)" for s
    by (rule readMQTTLenString_bytes [OF _ t]) (simp_all add: ac_simps)
  have pid: "readInt ?buf (1 + length ?rl + 2 + length ?t) = Some (uint packetid, 1 + length ?rl + 2 + length ?t + 2)"
    if "qos > 0"
    by (rule readInt_bytes [of _ _ _ "?pl @ post"])
      (use that uint_lt2p [of packetid] in \<open>simp_all add: utf_bytes_def\<close>)
  note hdr = publish_hdr_fields [OF q, of dup retained "(packetid, topic, payload, n)", folded a_def]
  have e: "mqtt_frame (publish_hdr a) (publish_body a) @ post = ?buf" by (simp add: mqtt_frame_def body)
  show ?thesis
    unfolding e MQTTDeserialize_publish_def
    using n rl str pid
    by (cases "qos > 0") (simp_all add: readChar_def load_Cons_0 hdr Let_def utf_bytes_def)
qed

end
