(* ===== verification/MQTT_Codec_Props.thy ===== *)
theory MQTT_Codec_Props
  imports MQTT_Codec
begin

text \<open>
  The properties of the MQTT codec: round trips through the wire format, framing and memory
  safety of the serialisers (from the interpretations of \<open>packet_writer\<close>), what the
  parsers read on truncated and on malformed packets, and bounds of the length code.
\<close>

section \<open>Supporting lemmas\<close>

lemma load_Some_iff: "load m p = Some b \<longleftrightarrow> p < length m \<and> b = m ! p"
  by (auto simp: load_def)

lemma readChar_in: "p < length buf \<Longrightarrow> readChar buf p = Some (buf ! p, p + 1)"
  by (simp add: readChar_def load_def)

lemma readInt_in: "p + 1 < length buf \<Longrightarrow> readInt buf p = Some (256 * uint (buf ! p) + uint (buf ! (p + 1)), p + 2)"
  by (simp add: readInt_def load_def)

lemma suback_loop_in:
  "enddata \<le> int (length buf) \<Longrightarrow> \<exists>rc g. suback_loop buf p enddata mx granted = Some (rc, g) \<and>
     (rc = 1 \<or> rc = -1) \<and> (int (length granted) \<le> mx \<longrightarrow> int (length g) \<le> mx)"
proof (induction buf p enddata mx granted rule: suback_loop.induct)
  case (1 buf p enddata mx granted)
  show ?case
  proof (cases "int p < enddata \<and> int (length granted) < mx")
    case True
    then have "p < length buf" using "1.prems" by linarith
    with "1.IH" [of "(buf ! p, p + 1)" "buf ! p" "p + 1"] True "1.prems" show ?thesis
      by (simp add: suback_loop.simps [of buf p] readChar_in)
  next
    case False
    then show ?thesis by (auto simp: suback_loop.simps [of buf p])
  qed
qed

lemma suback_loop_codes:
  assumes "drop p buf = gs @ rest" "int (length granted + length gs) \<le> mx"
  shows "suback_loop buf p (int (p + length gs)) mx granted = Some (1, granted @ map sint gs)"
  using assms
proof (induction gs arbitrary: p granted)
  case Nil
  then show ?case by (simp add: suback_loop.simps)
next
  case (Cons g gs)
  have "load buf p = Some g" "drop (Suc p) buf = gs @ rest"
    using load_drop [of p buf g "gs @ rest"] Cons.prems(1) by simp_all
  moreover have "int (Suc p + length gs) = int (p + length (g # gs))" by simp
  ultimately show ?case
    using Cons.IH [of "Suc p" "granted @ [sint g]"] Cons.prems(2)
    by (simp add: suback_loop.simps [of buf p] readChar_def)
qed

lemma suback_loop_full:
  assumes "drop p buf = gs @ rest" "length granted \<le> mx" "mx < length granted + length gs"
  shows "suback_loop buf p (int (p + length gs)) (int mx) granted = Some (-1, granted @ map sint (take (mx - length granted) gs))"
  using assms
proof (induction gs arbitrary: p granted)
  case Nil
  then show ?case by simp
next
  case (Cons g gs)
  have ld: "load buf p = Some g" "drop (Suc p) buf = gs @ rest"
    using load_drop [of p buf g "gs @ rest"] Cons.prems(1) by simp_all
  show ?case
  proof (cases "length granted = mx")
    case True
    then show ?thesis by (simp add: suback_loop.simps [of buf p])
  next
    case False
    then have "mx - length granted = Suc (mx - Suc (length granted))" using Cons.prems(2) by simp
    moreover have "int (Suc p + length gs) = int (p + length (g # gs))" by simp
    ultimately show ?thesis
      using Cons.IH [of "Suc p" "granted @ [sint g]"] Cons.prems(2,3) ld False
      by (simp add: suback_loop.simps [of buf p] readChar_def)
  qed
qed

lemma decode_loop_stop: "4 \<le> len \<Longrightarrow> MQTTPacket_decode_loop g len m v s = Some (len + 1, v, s)"
  by (subst MQTTPacket_decode_loop.simps) simp

lemma decode_loop_step: "len < 4 \<Longrightarrow> MQTTPacket_decode_loop g len m v s =
    g s \<bind> (\<lambda>(rc, c, s'). if rc \<noteq> 1 then Some (len + 1, v, s')
      else if c AND 128 \<noteq> 0 then MQTTPacket_decode_loop g (len + 1) (m * 128) (v + uint (c AND 127) * m) s'
      else Some (len + 1, v + uint (c AND 127) * m, s'))"
  by (subst MQTTPacket_decode_loop.simps) (simp add: Let_def cong: if_cong)

lemma decode_loop_bounds:
  "MQTTPacket_decode_loop g len m v s = Some (n, val, s') \<Longrightarrow> len \<le> 4 \<Longrightarrow> 0 < m \<Longrightarrow>
    len < n \<and> n \<le> 5 \<and> v \<le> val \<and> val - v \<le> m * 128 ^ (4 - len) - m"
proof (induction "4 - len" arbitrary: len m v s)
  case 0
  then show ?case by (simp add: decode_loop_stop)
next
  case (Suc d)
  then have len: "len < 4" and d': "4 - (len + 1) = d" by simp_all
  have "1 \<le> (128 :: int) ^ d" by simp
  then have mp: "m \<le> m * 128 ^ d" using Suc.prems(3) by simp
  have P: "m * 128 ^ (4 - len) = 128 * (m * 128 ^ d)" by (simp add: Suc.hyps(2) [symmetric])
  from len Suc.prems(1) obtain rc c t where g: "g s = Some (rc, c, t)"
    by (auto simp: decode_loop_step split: Option.bind_splits)
  have c: "0 \<le> uint (c AND 127)" "uint (c AND 127) \<le> 127"
    by (simp_all add: digit_value)
  have cm: "uint (c AND 127) * m \<le> 127 * m" using c(2) Suc.prems(3) by (simp add: mult_right_mono)
  have cm0: "0 \<le> uint (c AND 127) * m" using c(1) Suc.prems(3) by simp
  consider (stop) "rc \<noteq> 1" | (more) "rc = 1" "c AND 128 \<noteq> 0" | (last) "rc = 1" "c AND 128 = 0" by blast
  then show ?case
  proof cases
    case stop
    with len g Suc.prems(1) have "n = len + 1" "val = v" by (simp_all add: decode_loop_step)
    moreover have "m \<le> m * 128 ^ (4 - len)" using mp P Suc.prems(3) by linarith
    ultimately show ?thesis using len by simp
  next
    case more
    with len g Suc.prems(1) have "MQTTPacket_decode_loop g (len + 1) (m * 128) (v + uint (c AND 127) * m) t = Some (n, val, s')"
      by (simp add: decode_loop_step)
    from Suc.hyps(1) [OF d' [symmetric] this] len Suc.prems(3) d'
    have "len + 1 < n \<and> n \<le> 5 \<and> v + uint (c AND 127) * m \<le> val \<and>
        val - (v + uint (c AND 127) * m) \<le> m * 128 * 128 ^ d - m * 128" by simp
    with cm cm0 P show ?thesis by auto
  next
    case last
    with len g Suc.prems(1) have "n = len + 1" "val = v + uint (c AND 127) * m"
      by (simp_all add: decode_loop_step)
    with len cm cm0 mp P show ?thesis by auto
  qed
qed

lemma decodeBuf_bounds: "MQTTPacket_decodeBuf buf p = Some (n, v) \<Longrightarrow> 1 \<le> n \<and> n \<le> 5 \<and> 0 \<le> v \<and> v < 268435456"
  using decode_loop_bounds [of _ 0 1 0]
  by (fastforce simp: MQTTPacket_decodeBuf_def MQTTPacket_decode_def)

section \<open>Properties\<close>

text \<open>C2. A PUBLISH packet survives the wire: for every QoS, whenever the send buffer is large
  enough, \<open>MQTTSerialize_publish\<close> succeeds within the buffer and \<open>MQTTDeserialize_publish\<close>
  recovers the flags, the packet id, the topic and the payload from what it wrote.\<close>

theorem publish_roundtrip:
  assumes "publish_ok (dup, qos, retained, packetid, topic, payload, n)" "0 \<le> qos" "qos \<le> 2"
    and "length (mqtt_text topic) < 65536"
    and "MQTTPacket_len (MQTTSerialize_publishLength qos topic n) \<le> buflen" "buflen \<le> int (length buf)"
  shows "\<exists>rc m f'. MQTTSerialize_publish buf buflen dup qos retained packetid topic payload n = Some (rc, m)
    \<and> 0 < rc \<and> rc \<le> buflen \<and> MQTTDeserialize_publish f m buflen = Some (1, f')
    \<and> pf_dup f' = dup AND 1 \<and> pf_qos f' = qos \<and> pf_retained f' = retained AND 1
    \<and> pf_packetid f' = (if 0 < qos then packetid else pf_packetid f)
    \<and> mqtt_text (pf_topicName f') = mqtt_text topic
    \<and> pf_payloadlen f' = n \<and> map_option (take (nat n)) (pf_payload f') = Some (take (nat n) payload)"
proof -
  let ?a = "(dup, qos, retained, packetid, topic, payload, n)"
  let ?fr = "mqtt_frame (publish_hdr ?a) (publish_body ?a)"
  have need: "publish_need ?a \<le> buflen" using assms(5) by (simp add: publish_need_def)
  have ser: "MQTTSerialize_publish buf buflen dup qos retained packetid topic payload n =
      Some (int (length ?fr), ?fr @ drop (length ?fr) buf)"
    using pub.ser_written [OF assms(1) need assms(6)] by (simp add: ser_publish_def)
  have len: "0 < length ?fr" "int (length ?fr) \<le> buflen"
    using pub.need_covers [OF assms(1)] need by (simp_all add: length_mqtt_frame)
  have n: "length (take (nat n) payload) = nat n" using assms(1) by (auto simp: publish_ok_def)
  have "qos \<le> 3" using assms(3) by simp
  note MQTTDeserialize_publish_frame [OF assms(1,2) this assms(4), of f "drop (length ?fr) buf" buflen]
  with ser len n show ?thesis by (auto simp: mqtt_text_def split: option.splits)
qed

theorem publish_roundtrip_witness:
  "\<exists>rc m f'. MQTTSerialize_publish (replicate 16 0) 16 0 1 0 7 \<lparr>cstring = Some [0x2F, 0x61], lenstring_len = 0, lenstring_data = None\<rparr> [1, 2, 3] 3 = Some (rc, m)
    \<and> 0 < rc \<and> rc \<le> 16 \<and> MQTTDeserialize_publish \<lparr>pf_dup = 0, pf_qos = 0, pf_retained = 0, pf_packetid = 0,
        pf_topicName = MQTTString_initializer, pf_payload = None, pf_payloadlen = 0\<rparr> m 16 = Some (1, f')
    \<and> pf_qos f' = 1 \<and> pf_packetid f' = 7 \<and> mqtt_text (pf_topicName f') = [0x2F, 0x61]
    \<and> pf_payloadlen f' = 3 \<and> map_option (take 3) (pf_payload f') = Some [1, 2, 3]"
  using publish_roundtrip [of 0 1 0 7 "\<lparr>cstring = Some [0x2F, 0x61], lenstring_len = 0, lenstring_data = None\<rparr>" "[1, 2, 3]" 3 16 "replicate 16 0"
      "\<lparr>pf_dup = 0, pf_qos = 0, pf_retained = 0, pf_packetid = 0, pf_topicName = MQTTString_initializer, pf_payload = None, pf_payloadlen = 0\<rparr>"]
  by (auto simp: publish_ok_def mqtt_string_ok_def mqtt_text_def MQTTPacket_len_def MQTTSerialize_publishLength_def MQTTstrlen_def)

text \<open>C37. Serialising a PUBLISH is memory safe and all-or-nothing: with a buffer of at least
  \<open>buflen\<close> bytes it never writes outside of it, never reports more than \<open>buflen\<close>, leaves the
  bytes after the packet as they were, and a positive return value is exactly the length that
  the fixed header announces.\<close>

theorem publish_safe_and_framed:
  assumes "publish_ok (dup, qos, retained, packetid, topic, payload, n)" "buflen \<le> int (length buf)"
  shows "\<exists>rc m. MQTTSerialize_publish buf buflen dup qos retained packetid topic payload n = Some (rc, m)
    \<and> length m = length buf \<and> rc \<le> max (-2) buflen \<and> drop (nat rc) m = drop (nat rc) buf
    \<and> (0 < rc \<longrightarrow> (\<exists>k v. MQTTPacket_decodeBuf m 1 = Some (k, v) \<and> rc = 1 + int k + v
          \<and> take (nat v) (drop (1 + k) m) = publish_body (dup, qos, retained, packetid, topic, payload, n)))"
  using pub.ser_safe [OF assms] pub.ser_framed [OF assms] by (fastforce simp: ser_publish_def)

theorem publish_safe_and_framed_witness:
  "\<exists>rc m. MQTTSerialize_publish (replicate 3 0) 3 0 0 0 0 MQTTString_initializer [] 0 = Some (rc, m)
    \<and> length m = 3 \<and> rc \<le> 3"
  using publish_safe_and_framed [of 0 0 0 0 MQTTString_initializer "[]" 0 3 "replicate 3 0"]
  by (auto simp: publish_ok_def mqtt_string_ok_def mqtt_text_def MQTTString_initializer_def)

text \<open>CONNECT: with protocol version 3 or 4 the packet carries exactly the announced bytes:
  protocol name and level, a flag byte whose bits say which optional fields follow, the keep-alive
  interval and the fields in the order the standard prescribes; a buffer that is too small is
  refused without a write.\<close>

lemma connect_framed:
  assumes "connect_ok options" "buflen \<le> int (length buf)"
  shows "MQTTSerialize_connect buf buflen options =
      (if buflen < MQTTPacket_len (int (length (connect_body options))) then Some (-2, buf)
       else Some (int (length (mqtt_frame 0x10 (connect_body options))),
         mqtt_frame 0x10 (connect_body options) @ drop (length (mqtt_frame 0x10 (connect_body options))) buf))
    \<and> (MQTT_connect_flags options AND 0x80 \<noteq> 0 \<longleftrightarrow> string_given (username options))
    \<and> (MQTT_connect_flags options AND 0x40 \<noteq> 0 \<longleftrightarrow> string_given (password options))
    \<and> (MQTT_connect_flags options AND 0x04 \<noteq> 0 \<longleftrightarrow> willFlag options \<noteq> 0)"
proof -
  have h: "MQTT_HEADER_SET_TYPE 0 CONNECT = 0x10" by (simp add: MQTT_HEADER_SET_TYPE_def)
  have "MQTTSerialize_connect buf buflen options =
      (if buflen < MQTTPacket_len (int (length (connect_body options))) then Some (-2, buf)
       else Some (int (length (mqtt_frame 0x10 (connect_body options))),
         mqtt_frame 0x10 (connect_body options) @ drop (length (mqtt_frame 0x10 (connect_body options))) buf))"
    using conn.ser_eq [OF assms]
    by (simp add: ser_connect_def connect_length [OF assms(1)] h)
  with connect_flags_bits show ?thesis by blast
qed

text \<open>The smallest CONNECT the client can send: an empty client id.\<close>

text \<open>SUBSCRIBE and UNSUBSCRIBE: both serialisers stay inside the buffer and frame the packet
  id followed by every filter (with its requested QoS for SUBSCRIBE), in order.\<close>

lemma subscribe_unsubscribe_framed:
  assumes "subscribe_ok (dup, packetid, fs)" "unsubscribe_ok (dup, packetid, gs)" "buflen \<le> int (length buf)"
  defines "sframe \<equiv> mqtt_frame (0x82 OR push_bit 3 (dup AND 1)) (int16_bytes (uint packetid) @ subscribe_filter_bytes fs)"
    and "uframe \<equiv> mqtt_frame (0xA2 OR push_bit 3 (dup AND 1)) (int16_bytes (uint packetid) @ unsubscribe_filter_bytes gs)"
  shows "MQTTSerialize_subscribe buf buflen dup packetid fs =
      (if buflen < MQTTPacket_len (2 + int (length (subscribe_filter_bytes fs))) then Some (-2, buf)
       else Some (int (length sframe), sframe @ drop (length sframe) buf))
    \<and> MQTTSerialize_unsubscribe buf buflen dup packetid gs =
      (if buflen < MQTTPacket_len (2 + int (length (unsubscribe_filter_bytes gs))) then Some (-2, buf)
       else Some (int (length uframe), uframe @ drop (length uframe) buf))"
proof -
  have "MQTT_HEADER_SET_QOS h 1 = h OR 2" for h by (simp add: MQTT_HEADER_SET_QOS_def byte_of_def)
  then have h: "subscribe_hdr (dup, packetid, fs) = 0x82 OR push_bit 3 (dup AND 1)"
      "unsubscribe_hdr (dup, packetid, gs) = 0xA2 OR push_bit 3 (dup AND 1)"
    using and_1_cases [of dup]
    by (auto simp: subscribe_hdr_def unsubscribe_hdr_def header_set_dup MQTT_HEADER_SET_TYPE_def simp del: push_bit_and)
  show ?thesis
    using sub.ser_eq [OF assms(1,3)] unsub.ser_eq [OF assms(2,3)] subscribe_length [OF assms(1)] unsubscribe_length [OF assms(2)]
    by (simp add: ser_subscribe_def ser_unsubscribe_def h subscribe_body_def unsubscribe_body_def
        subscribe_need_def unsubscribe_need_def sframe_def uframe_def)
qed

text \<open>The remaining-length code is inverse to its decoder: for every length MQTT allows,
  \<open>MQTTPacket_encode\<close> writes at most four bytes and \<open>MQTTPacket_decodeBuf\<close> reads the same
  number of bytes and the same length back.\<close>

lemma rem_len_roundtrip:
  assumes "0 \<le> n" "n < 268435456" "p + 4 \<le> length buf"
  shows "\<exists>k m. MQTTPacket_encode buf p n = Some (k, m) \<and> 1 \<le> k \<and> k \<le> 4 \<and> length m = length buf
    \<and> MQTTPacket_decodeBuf m p = Some (k, n)"
proof -
  let ?b = "rem_len_bytes (nat n)"
  have b: "length ?b \<le> 4" using assms by (simp add: rem_len_bytes_length)
  let ?m = "take p buf @ ?b @ drop (p + length ?b) buf"
  have "MQTTPacket_encode buf p n = Some (length ?b, ?m)"
    using assms b by (simp add: MQTTPacket_encode_bytes store_n_def)
  moreover have "MQTTPacket_decodeBuf ?m p = Some (length ?b, int (nat n))"
    using assms by (intro MQTTPacket_decodeBuf_bytes) auto
  ultimately show ?thesis
    using assms b rem_len_bytes_pos [of "nat n"] by (auto simp: Suc_le_eq)
qed

text \<open>The decoder of the remaining length is total on any memory it can read: it counts
  between one and five bytes and yields a length below \<open>2^28\<close>; four bytes that all have the
  continuation bit set are reported as five bytes read, with no error.\<close>

lemma rem_len_decode_bounds:
  assumes "MQTTPacket_decodeBuf buf p = Some (n, v)"
  shows "1 \<le> n \<and> n \<le> 5 \<and> 0 \<le> v \<and> v < 268435456 \<and>
    (\<forall>a b c d. drop p buf = a # b # c # d # [] \<and> a AND 128 \<noteq> 0 \<and> b AND 128 \<noteq> 0 \<and> c AND 128 \<noteq> 0 \<and> d AND 128 \<noteq> 0
       \<longrightarrow> n = 5)"
proof -
  have "n = 5" if "drop p buf = a # b # c # d # []" "a AND 128 \<noteq> 0" "b AND 128 \<noteq> 0" "c AND 128 \<noteq> 0" "d AND 128 \<noteq> 0" for a b c d
  proof -
    from load_drop [OF that(1)] have 1: "load buf p = Some a" "drop (Suc p) buf = [b, c, d]" by simp_all
    from load_drop [OF 1(2)] have 2: "load buf (Suc p) = Some b" "drop (Suc (Suc p)) buf = [c, d]" by simp_all
    from load_drop [OF 2(2)] have 3: "load buf (Suc (Suc p)) = Some c" "drop (Suc (Suc (Suc p))) buf = [d]" by simp_all
    from load_drop [OF 3(2)] have 4: "load buf (Suc (Suc (Suc p))) = Some d" by simp
    show ?thesis
      using assms that 1(1) 2(1) 3(1) 4
      by (simp add: MQTTPacket_decodeBuf_def MQTTPacket_decode_def decode_loop_step decode_loop_stop)
  qed
  with decodeBuf_bounds [OF assms] show ?thesis by blast
qed

text \<open>Acknowledgements: what \<open>MQTTSerialize_ack\<close> writes, \<open>MQTTDeserialize_ack\<close> reads back
  with the same type, DUP flag and packet id.\<close>

lemma ack_roundtrip:
  assumes "ty < 16" "4 \<le> buflen" "buflen \<le> int (length buf)"
  shows "\<exists>m. MQTTSerialize_ack buf buflen ty dup packetid = Some (4, m)
    \<and> MQTTDeserialize_ack pid0 m buflen = Some (1, ty, dup AND 1, packetid)"
proof -
  let ?h = "ack_hdr (ty, dup, packetid)"
  have rl: "rem_len_bytes 2 = [2]" by (simp add: rem_len_bytes.simps [of 2])
  have fr: "mqtt_frame ?h (ack_body (ty, dup, packetid)) = ?h # 2 # int16_bytes (uint packetid)"
    by (simp add: mqtt_frame_def ack_body_def rl)
  let ?m = "?h # 2 # int16_bytes (uint packetid) @ drop 4 buf"
  have ser: "MQTTSerialize_ack buf buflen ty dup packetid = Some (4, ?m)"
    using ack.ser_eq [OF TrueI assms(3), of "(ty, dup, packetid)"] assms(2) by (simp add: ser_ack_def fr)
  have dec: "MQTTPacket_decodeBuf ?m 1 = Some (1, 2)"
    using MQTTPacket_decodeBuf_bytes [of 1 ?m 2 "int16_bytes (uint packetid) @ drop 4 buf"] by (simp add: rl)
  have rd: "readInt ?m (Suc (Suc 0)) = Some (uint packetid, 4)"
    using readInt_bytes [of "Suc (Suc 0)" ?m "uint packetid" "drop 4 buf"] uint_lt2p [of packetid] by simp
  have t: "ty = 0 \<or> ty = 1 \<or> ty = 2 \<or> ty = 3 \<or> ty = 4 \<or> ty = 5 \<or> ty = 6 \<or> ty = 7 \<or> ty = 8 \<or> ty = 9 \<or>
      ty = 10 \<or> ty = 11 \<or> ty = 12 \<or> ty = 13 \<or> ty = 14 \<or> ty = 15"
    using assms(1) by (simp add: word_less_nat_alt word_unat_eq_iff) presburger
  have hd: "MQTT_HEADER_GET_TYPE ?h = ty" "MQTT_HEADER_GET_DUP ?h = dup AND 1"
    using t and_1_cases [of dup]
    by (auto simp: ack_hdr_def header_get_defs header_set_dup MQTT_HEADER_SET_TYPE_def MQTT_HEADER_SET_QOS_def byte_of_def
        simp del: push_bit_and)
  show ?thesis using ser dec rd hd by (auto simp: MQTTDeserialize_ack_def readChar_def load_Cons_0)
qed

text \<open>The acknowledgement parsers stay inside the received packet: when the buffer holds the
  bytes that the remaining length announces, none of them reads outside of the buffer, and a SUBACK
  never yields more codes than the caller's array has room for.\<close>

lemma ack_parsers_in_bounds:
  assumes "MQTTPacket_decodeBuf buf 1 = Some (k, v)" "1 + int k + v \<le> int (length buf)" "0 \<le> mx"
  shows "(\<exists>r. MQTTDeserialize_ack pid buf buflen = Some r)
    \<and> (\<exists>r. MQTTDeserialize_connack sp cr buf buflen = Some r)
    \<and> (\<exists>r. MQTTDeserialize_unsuback pid buf buflen = Some r)
    \<and> (\<exists>rc p g. MQTTDeserialize_suback pid mx buf buflen = Some (rc, p, g) \<and> int (length g) \<le> mx)"
proof -
  have b: "1 \<le> k" "0 \<le> v" using decodeBuf_bounds [OF assms(1)] by simp_all
  then have "0 < length buf" using assms(2) by linarith
  then have h: "readChar buf 0 = Some (buf ! 0, 1)" using readChar_in [of 0 buf] by simp
  have i: "readInt buf (1 + k) = Some (256 * uint (buf ! (1 + k)) + uint (buf ! (1 + k + 1)), 1 + k + 2)"
      "readChar buf (1 + k) = Some (buf ! (1 + k), 1 + k + 1)"
      "readChar buf (1 + k + 1) = Some (buf ! (1 + k + 1), 1 + k + 2)" if "2 \<le> v"
    using that assms(2) readInt_in [of "1 + k" buf] readChar_in [of "1 + k" buf] readChar_in [of "1 + k + 1" buf] by simp_all
  have l: "\<exists>rc g. suback_loop buf (1 + k + 2) (1 + int k + v) mx [] = Some (rc, g) \<and> (rc = 1 \<or> rc = -1) \<and> int (length g) \<le> mx"
    using suback_loop_in [OF assms(2), of "1 + k + 2" mx "[]"] assms(3) by auto
  have ack: "\<exists>r. MQTTDeserialize_ack pid buf buflen = Some r"
    using h assms(1) i(1) by (cases "2 \<le> v") (simp_all add: MQTTDeserialize_ack_def)
  moreover have "\<exists>r. MQTTDeserialize_connack sp cr buf buflen = Some r"
    using h assms(1) i(2,3) by (cases "2 \<le> v") (simp_all add: MQTTDeserialize_connack_def)
  moreover have "\<exists>r. MQTTDeserialize_unsuback pid buf buflen = Some r"
    using ack by (auto simp: MQTTDeserialize_unsuback_def)
  moreover have "\<exists>rc p g. MQTTDeserialize_suback pid mx buf buflen = Some (rc, p, g) \<and> int (length g) \<le> mx"
    using h assms(1,3) i(1) l by (cases "2 \<le> v") (auto simp: MQTTDeserialize_suback_def)
  ultimately show ?thesis by blast
qed

text \<open>SUBACK: the parser returns the packet id and every granted code in order, and refuses a
  packet with more codes than the caller accepts.\<close>

lemma suback_parses_codes:
  assumes "0 \<le> packetid" "packetid < 65536" "length gs + 2 < 268435456"
  shows "MQTTDeserialize_suback pid (int mx) (mqtt_frame 0x90 (int16_bytes packetid @ gs) @ post) buflen =
    (if length gs \<le> mx then Some (1, word_of_int packetid, map sint gs)
     else Some (-1, word_of_int packetid, map sint (take mx gs)))"
proof -
  let ?b = "int16_bytes packetid @ gs" and ?rl = "rem_len_bytes (length gs + 2)"
  let ?buf = "mqtt_frame 0x90 ?b @ post"
  have buf: "?buf = 0x90 # ?rl @ ?b @ post" by (simp add: mqtt_frame_def)
  have dec: "MQTTPacket_decodeBuf ?buf 1 = Some (length ?rl, int (length gs + 2))"
    using mqtt_frame_decode [of ?b "0x90" post] assms(3) by simp
  have h: "readChar ?buf 0 = Some (0x90, 1)" "MQTT_HEADER_GET_TYPE 0x90 = SUBACK"
    by (simp_all add: buf readChar_def load_Cons_0 MQTT_HEADER_GET_TYPE_def)
  have pid: "readInt ?buf (1 + length ?rl) = Some (packetid, 1 + length ?rl + 2)"
    by (rule readInt_bytes [OF _ assms(1,2), of _ _ "gs @ post"]) (simp add: buf)
  have codes: "drop (1 + length ?rl + 2) ?buf = gs @ post"
  proof -
    have "drop (1 + length ?rl + 2) ?buf = drop 2 (drop (length ?rl) (?rl @ ?b @ post))"
      by (simp add: buf add.commute)
    then show ?thesis by (simp add: numeral_2_eq_2 int16_bytes_def)
  qed
  have e: "int (1 + length ?rl) + int (length gs + 2) = int (1 + length ?rl + 2 + length gs)" by simp
  show ?thesis
  proof (cases "length gs \<le> mx")
    case True
    then have "suback_loop ?buf (1 + length ?rl + 2) (int (1 + length ?rl + 2 + length gs)) (int mx) [] = Some (1, map sint gs)"
      using suback_loop_codes [OF codes, of "[]" "int mx"] by simp
    with h dec pid True show ?thesis by (simp add: MQTTDeserialize_suback_def e)
  next
    case False
    then have "suback_loop ?buf (1 + length ?rl + 2) (int (1 + length ?rl + 2 + length gs)) (int mx) [] = Some (-1, map sint (take mx gs))"
      using suback_loop_full [OF codes, of "[]" mx] by simp
    with h dec pid False show ?thesis by (simp add: MQTTDeserialize_suback_def e)
  qed
qed

text \<open>Truncated acknowledgements are reported as parsed: when the remaining length is 0 or 1
  the parsers jump to the exit with \<open>rc\<close> holding the one byte of the length field, which is the
  success code, and leave the packet id (for SUBACK also the code count) at its old value.\<close>

lemma truncated_acks_return_success:
  assumes "k < 2" "MQTT_HEADER_GET_TYPE h = SUBACK"
  shows "MQTTDeserialize_ack pid (h # of_nat k # post) buflen = Some (1, SUBACK, MQTT_HEADER_GET_DUP h, pid)
    \<and> MQTTDeserialize_suback pid mx (h # of_nat k # post) buflen = Some (1, pid, [])"
proof -
  have rl: "rem_len_bytes k = [of_nat k]" using assms(1) by (simp add: rem_len_bytes.simps [of k])
  have "MQTTPacket_decodeBuf (h # of_nat k # post) 1 = Some (1, int k)"
    using MQTTPacket_decodeBuf_bytes [of 1 "h # of_nat k # post" k post] assms(1) rl by simp
  with assms show ?thesis
    by (simp add: MQTTDeserialize_ack_def MQTTDeserialize_suback_def readChar_def load_Cons_0)
qed

text \<open>A PUBLISH with QoS above 0 whose remaining length ends right after the topic is accepted:
  the packet id is read past the announced end and the payload length becomes \<open>-2\<close>.\<close>

lemma publish_without_packet_id_accepted:
  assumes "length t < 65536" "MQTT_HEADER_GET_TYPE h = PUBLISH" "MQTT_HEADER_GET_QOS h \<noteq> 0"
  shows "\<exists>f'. MQTTDeserialize_publish f (mqtt_frame h (utf_bytes t) @ a # b # post) buflen = Some (1, f')
    \<and> pf_payloadlen f' = -2 \<and> pf_packetid f' = word_of_int (256 * uint a + uint b)"
proof -
  let ?rl = "rem_len_bytes (length t + 2)"
  let ?buf = "mqtt_frame h (utf_bytes t) @ a # b # post"
  have buf: "?buf = h # ?rl @ utf_bytes t @ a # b # post" by (simp add: mqtt_frame_def)
  have dec: "MQTTPacket_decodeBuf ?buf 1 = Some (length ?rl, int (length t + 2))"
    using mqtt_frame_decode [of "utf_bytes t" h "a # b # post"] assms(1) by simp
  have str: "readMQTTLenString ?buf (1 + length ?rl) (int (1 + length ?rl) + int (length t + 2)) s =
      Some (1, s\<lparr>lenstring_len := int (length t), lenstring_data := Some (t @ a # b # post), cstring := None\<rparr>,
        1 + length ?rl + 2 + length t)" for s
    by (rule readMQTTLenString_bytes [OF _ assms(1)]) (simp_all add: buf)
  have d: "drop (1 + length ?rl + 2 + length t) ?buf = a # b # post" by (simp add: buf)
  from load_drop [OF d] have "load ?buf (1 + length ?rl + 2 + length t) = Some a"
      "drop (Suc (1 + length ?rl + 2 + length t)) ?buf = b # post" by simp_all
  with load_drop [OF this(2)]
  have pid: "readInt ?buf (1 + length ?rl + 2 + length t) = Some (256 * uint a + uint b, 1 + length ?rl + 2 + length t + 2)"
    by (simp add: readInt_def)
  have q: "0 < uint (MQTT_HEADER_GET_QOS h)" using assms(3) by (metis order_le_less uint_0_iff unsigned_greater_eq)
  show ?thesis
    using dec str pid q assms(2) by (simp add: MQTTDeserialize_publish_def readChar_def buf load_Cons_0 Let_def)
qed

end
