(* ===== verification/Infra_String.thy ===== *)
theory Infra_String
  imports Prelude
begin

text \<open>
  The string utilities of \<open>src/eng/infra/infra_string.c\<close>: hexadecimal and decimal conversions,
  the tokenizer \<open>infra_strtok\<close> and the field extraction \<open>infra_json_value\<close>.  Characters are
  bytes; the character constants of the code are written as their codes.  A pointer into a
  string is the rest of the object from there, or a position; an access outside of the
  object, and the overflow of a signed \<open>int\<close>, are \<open>None\<close>.
\<close>

section \<open>Hexadecimal\<close>

definition infra_hex2char :: "byte \<Rightarrow> byte" where
  "infra_hex2char hex = (let hex = hex AND 0xF in if hex < 10 then 48 + hex else hex - 10 + 97)"

definition hex_lower :: bytes where
  "hex_lower = [48,49,50,51,52,53,54,55,56,57,97,98,99,100,101,102]"

definition hex_upper :: bytes where
  "hex_upper = [48,49,50,51,52,53,54,55,56,57,65,66,67,68,69,70]"

text \<open>The loop shared by the two encoders: \<open>n\<close> bytes from \<open>input[i]\<close> on, two characters each
  through the running output pointer.\<close>

fun hex_encode_loop :: "bytes \<Rightarrow> bytes \<Rightarrow> nat \<Rightarrow> nat \<Rightarrow> out \<Rightarrow> bytes option" where
  "hex_encode_loop zEncode input 0 i w = Some (fst w)"
| "hex_encode_loop zEncode input (Suc n) i w = do {
     a \<leftarrow> load input i;
     w \<leftarrow> emit w [zEncode ! unat (drop_bit 4 a AND 0xF)];
     w \<leftarrow> emit w [zEncode ! unat (a AND 0xF)];
     hex_encode_loop zEncode input n (Suc i) w }"

definition infra_hex2str :: "bytes \<Rightarrow> u16 \<Rightarrow> bytes \<Rightarrow> bytes option" where
  "infra_hex2str input input_len outp = hex_encode_loop hex_upper input (unat input_len) 0 (outp, 0)"

definition LITE_hexbuf_convert :: "bytes \<Rightarrow> bytes \<Rightarrow> int \<Rightarrow> int \<Rightarrow> bytes option" where
  "LITE_hexbuf_convert digest outp in_len uppercase =
     hex_encode_loop (if uppercase \<noteq> 0 then hex_upper else hex_lower) digest (nat in_len) 0 (outp, 0)"

definition LITE_isdigit :: "byte \<Rightarrow> bool" where
  "LITE_isdigit c = (c \<le> 57 \<and> c \<ge> 48)"

definition hexval_of_char :: "byte \<Rightarrow> byte" where
  "hexval_of_char hex =
     (if LITE_isdigit hex then hex - 48
      else if hex \<ge> 97 \<and> hex \<le> 102 then hex - 97 + 10
      else if hex \<ge> 65 \<and> hex \<le> 70 then hex - 65 + 10
      else 0)"

function hexstr_loop :: "bytes \<Rightarrow> int \<Rightarrow> int \<Rightarrow> bytes \<Rightarrow> nat \<Rightarrow> bytes option" where
  "hexstr_loop input input_len output_len outp i =
     (if int i < c_div input_len 2 \<and> int i < output_len then do {
        c0 \<leftarrow> load input (2 * i);
        c1 \<leftarrow> load input (2 * i + 1);
        outp \<leftarrow> store outp i (push_bit 4 (hexval_of_char c0) OR hexval_of_char c1);
        hexstr_loop input input_len output_len outp (Suc i) }
      else Some outp)"
  by pat_completeness auto
termination by (relation "measure (\<lambda>(_, _, ol, _, i). nat ol - i)") auto

declare hexstr_loop.simps [simp del]

definition LITE_hexstr_convert :: "bytes \<Rightarrow> int \<Rightarrow> bytes \<Rightarrow> int \<Rightarrow> bytes option" where
  "LITE_hexstr_convert input input_len outp output_len =
     (if c_mod input_len 2 \<noteq> 0 then Some outp else hexstr_loop input input_len output_len outp 0)"

section \<open>Decimal\<close>

text \<open>\<open>infra_int2str\<close>: the first loop stores the digits, least significant first, into the
  local \<open>tmp[10]\<close>, the second copies them back to front.  In the second loop an index of 0
  would wrap to 255, outside of the ten characters of \<open>output\<close>.\<close>

function int2str_digits :: "bytes \<Rightarrow> nat \<Rightarrow> nat \<Rightarrow> (bytes \<times> nat) option" where
  "int2str_digits tmp i input = do {
     tmp \<leftarrow> store tmp i (of_nat (input mod 10) + 48);
     (if input div 10 > 0 then int2str_digits tmp (i + 1) (input div 10) else Some (tmp, i + 1)) }"
  by pat_completeness auto
termination by (relation "measure (\<lambda>(_, _, n). n)") auto

declare int2str_digits.simps [simp del]

fun int2str_copy :: "bytes \<Rightarrow> bytes \<Rightarrow> nat \<Rightarrow> nat \<Rightarrow> bytes option" where
  "int2str_copy tmp outp 0 j = None"
| "int2str_copy tmp outp (Suc i) j = do {
     c \<leftarrow> load tmp j;
     outp \<leftarrow> store outp i c;
     (if i > 0 then int2str_copy tmp outp i (Suc j) else Some outp) }"

definition infra_int2str :: "u32 \<Rightarrow> bytes \<Rightarrow> bytes option" where
  "infra_int2str input outp = do {
     (tmp, i) \<leftarrow> int2str_digits (replicate 10 0) 0 (unat input);
     int2str_copy tmp outp i 0 }"

text \<open>\<open>infra_str2int\<close> reads a NUL-terminated string; the pointers \<open>input\<close> and \<open>val\<close> may be
  \<open>NULL\<close>.  The result is the return value and the value stored to \<open>*val\<close>.\<close>

fun str2int_skip :: "bytes \<Rightarrow> bytes option" where
  "str2int_skip [] = None"
| "str2int_skip (c # cs) = (if c = 32 then str2int_skip cs else Some (c # cs))"

fun str2int_digits :: "bytes \<Rightarrow> int \<Rightarrow> int option" where
  "str2int_digits [] temp = None"
| "str2int_digits (c # cs) temp =
     (if c = 0 then Some temp
      else if c < 48 \<or> c > 57 then Some temp
      else let temp = temp * 10 + (uint c - 48) in
        if temp > 2147483647 then None else str2int_digits cs temp)"

definition infra_str2int :: "bytes option \<Rightarrow> bool \<Rightarrow> (int \<times> int option) option" where
  "infra_str2int input val_ok = (case input of None \<Rightarrow> Some (-1, None)
     | Some s \<Rightarrow> if \<not> val_ok then Some (-1, None) else do {
         s \<leftarrow> str2int_skip s;
         c \<leftarrow> load s 0;
         let (sign, s) = (if c = 43 then (0, drop 1 s) else if c = 45 then (-1, drop 1 s) else (0 :: int, s));
         temp \<leftarrow> str2int_digits s 0;
         Some (0, Some (if sign = -1 then - temp else temp)) })"

fun str2uint_loop :: "bytes \<Rightarrow> nat \<Rightarrow> nat \<Rightarrow> u32 \<Rightarrow> (int \<times> u32 option) option" where
  "str2uint_loop input 0 index temp = Some (0, Some temp)"
| "str2uint_loop input (Suc n) index temp = do {
     c \<leftarrow> load input index;
     (if c < 48 \<or> c > 57 then Some (-1, None)
      else str2uint_loop input n (Suc index) (temp * 10 + ucast c - 48)) }"

definition utils_str2uint :: "bytes \<Rightarrow> byte \<Rightarrow> (int \<times> u32 option) option" where
  "utils_str2uint input input_len = str2uint_loop input (unat input_len) 0 0"

section \<open>Tokens and JSON fields\<close>

text \<open>The static variable \<open>pos\<close> of \<open>infra_strtok\<close>: the object it points into and the position;
  a position of \<open>None\<close> is the null pointer.\<close>

record strtok_static =
  tok_mem :: bytes
  tok_pos :: "nat option"

text \<open>The loop of the code.  It does not end on an empty delimiter.\<close>

partial_function (option) strtok_loop ::
    "bytes \<Rightarrow> bytes \<Rightarrow> nat \<Rightarrow> nat \<Rightarrow> bool \<Rightarrow> (bytes \<times> nat \<times> nat option) option" where
  "strtok_loop m delim pos target only_delim = do {
     n \<leftarrow> c_strlen (drop pos m);
     (if n < length delim then Some (m, pos, Some target)
      else if take (length delim) (drop pos m) \<noteq> delim then strtok_loop m delim (pos + 1) target False
      else if n = length delim then do {
        m \<leftarrow> store_n m pos (replicate (length delim) 0);
        Some (m, pos, if only_delim then None else Some target) }
      else if target = pos then strtok_loop m delim (pos + length delim) (pos + length delim) only_delim
      else do {
        m \<leftarrow> store_n m pos (replicate (length delim) 0);
        Some (m, pos + length delim, Some target) }) }"

text \<open>\<open>delim\<close> is the text of the delimiter, without its NUL.  The result is the position of the
  token in \<open>tok_mem\<close>, or the null pointer.\<close>

definition infra_strtok :: "bytes option \<Rightarrow> bytes option \<Rightarrow> strtok_static \<Rightarrow> (nat option \<times> strtok_static) option" where
  "infra_strtok str delim st = (
     let st = (case str of None \<Rightarrow> st | Some s \<Rightarrow> \<lparr>tok_mem = s, tok_pos = Some 0\<rparr>) in
     case (tok_pos st, delim) of
       (Some pos, Some d) \<Rightarrow> do {
         n \<leftarrow> c_strlen (drop pos (tok_mem st));
         (if n \<le> length d then Some (None, st)
          else do {
            (m, pos, target) \<leftarrow> strtok_loop (tok_mem st) d pos pos True;
            Some (target, \<lparr>tok_mem = m, tok_pos = Some pos\<rparr>) }) }
     | _ \<Rightarrow> Some (None, st))"

text \<open>\<open>infra_json_value\<close>: the indices and lengths are \<open>uint32_t\<close>, so the sums wrap.  The result
  is the return value and the slice (start, length) that is handed out.\<close>

definition add32 :: "nat \<Rightarrow> nat \<Rightarrow> nat" where
  "add32 a b = (a + b) mod 4294967296"

definition json_value_end :: "byte \<Rightarrow> bool" where
  "json_value_end c = (c = 44 \<or> c = 125 \<or> c = 93)"

function json_value_scan :: "bytes \<Rightarrow> nat \<Rightarrow> nat \<Rightarrow> nat option option" where
  "json_value_scan input input_len idx =
     (if idx < input_len then do {
        c \<leftarrow> load input idx;
        (if json_value_end c then Some (Some idx) else json_value_scan input input_len (idx + 1)) }
      else Some None)"
  by pat_completeness auto
termination by (relation "measure (\<lambda>(_, n, i). n - i)") auto

declare json_value_scan.simps [simp del]

function json_value_loop :: "bytes \<Rightarrow> nat \<Rightarrow> bytes \<Rightarrow> nat \<Rightarrow> nat \<Rightarrow> (int \<times> (nat \<times> nat) option) option" where
  "json_value_loop input input_len key key_len idx =
     (if idx < input_len then
        if add32 idx key_len \<ge> input_len then Some (-1, None)
        else do {
          at \<leftarrow> load_n input idx key_len;
          k \<leftarrow> load_n key 0 key_len;
          (if at = k then
             let idx = add32 idx key_len in
             if add32 idx 4 \<ge> input_len then Some (-1, None)
             else do {
               c \<leftarrow> load input (add32 idx 1);
               (if c \<noteq> 58 then Some (-1, None)
                else let value = add32 idx 2 in do {
                  r \<leftarrow> json_value_scan input input_len value;
                  (case r of Some idx \<Rightarrow> Some (0, Some (value, idx - value))
                   | None \<Rightarrow> Some (-1, None)) }) }
           else json_value_loop input input_len key key_len (idx + 1)) }
      else Some (-1, None))"
  by pat_completeness auto
termination by (relation "measure (\<lambda>(_, n, _, _, i). n - i)") auto

declare json_value_loop.simps [simp del]

definition infra_json_value :: "bytes \<Rightarrow> u32 \<Rightarrow> bytes \<Rightarrow> u32 \<Rightarrow> (int \<times> (nat \<times> nat) option) option" where
  "infra_json_value input input_len key key_len = json_value_loop input (unat input_len) key (unat key_len) 0"

section \<open>Hexadecimal: facts\<close>

text \<open>The text the encoders are meant to produce.\<close>

definition hex_text :: "bytes \<Rightarrow> bytes \<Rightarrow> bytes" where
  "hex_text zEncode bs = concat (map (\<lambda>a. [zEncode ! (unat a div 16), zEncode ! (unat a mod 16)]) bs)"

lemma length_hex_text [simp]: "length (hex_text z bs) = 2 * length bs"
  by (induction bs) (auto simp: hex_text_def)

lemma unat_byte_bound: "unat (a :: byte) < 256"
  using unsigned_less [of a, where 'a = nat] by simp

lemma and_15: "(a :: byte) AND 0xF = take_bit 4 a"
  by (simp add: take_bit_eq_mask mask_eq_exp_minus_1)

lemma nibble_low: "unat ((a :: byte) AND 0xF) = unat a mod 16"
  unfolding and_15 by (simp add: unsigned_take_bit_eq) (simp add: take_bit_eq_mod)

lemma unat_drop4: "unat (drop_bit 4 (a :: byte)) = unat a div 16"
  using take_bit_nat_eq_self [of "unat a" 8] unat_byte_bound [of a]
  unfolding unsigned_drop_bit_eq by (simp add: drop_bit_eq_div)

lemma nibble_high: "unat (drop_bit 4 (a :: byte) AND 0xF) = unat a div 16"
  using unat_byte_bound [of a] unfolding nibble_low unat_drop4 by simp

lemma hex_encode_loop_spec:
  "i + n \<le> length input \<Longrightarrow> snd w + 2 * n \<le> length (fst w) \<Longrightarrow>
   hex_encode_loop z input n i w = map_option fst (emit w (hex_text z (take n (drop i input))))"
proof (induction n arbitrary: i w)
  case 0
  then show ?case by (cases w) (simp add: hex_text_def emit_def store_n_def)
next
  case (Suc n)
  then have i: "i < length input" by simp
  let ?h = "hex_text z [input ! i]"
  have h: "?h = [z ! unat (drop_bit 4 (input ! i) AND 0xF)] @ [z ! unat (input ! i AND 0xF)]"
    using nibble_high [of "input ! i"] nibble_low [of "input ! i"] by (simp add: hex_text_def)
  obtain w' where w': "emit w ?h = Some w'" "length (fst w') = length (fst w)" "snd w' = snd w + 2"
    using Suc.prems(2) by (cases "emit w ?h") (auto simp: emit_None_iff emit_Some_iff)
  have "hex_encode_loop z input (Suc n) i w = emit w ?h \<bind> hex_encode_loop z input n (Suc i)"
    using i by (simp add: load_def h emit_simps)
  also have "\<dots> = map_option fst (emit w' (hex_text z (take n (drop (Suc i) input))))"
    using Suc w' by simp
  also have "\<dots> = map_option fst (emit w (?h @ hex_text z (take n (drop (Suc i) input))))"
    using w'(1) emit_append [of w ?h] by simp
  also have "?h @ hex_text z (take n (drop (Suc i) input)) = hex_text z (take (Suc n) (drop i input))"
    using i by (simp add: hex_text_def Cons_nth_drop_Suc [symmetric])
  finally show ?case .
qed

definition hex_table :: "bytes \<Rightarrow> bool" where
  "hex_table z \<longleftrightarrow> (\<forall>k \<in> set [0..<16]. hexval_of_char (z ! k) = of_nat k)"

lemma hex_tables: "hex_table hex_lower" "hex_table hex_upper"
  by (simp_all add: hex_table_def hex_lower_def hex_upper_def hexval_of_char_def LITE_isdigit_def upt_rec)

lemma hexval_pair:
  assumes "hex_table z"
  shows "push_bit 4 (hexval_of_char (z ! (unat a div 16))) OR hexval_of_char (z ! (unat a mod 16)) = (a :: byte)"
proof -
  have b: "unat a < 256" by (rule unat_byte_bound)
  then have "unat a div 16 < 16" "unat a mod 16 < 16" by auto
  with assms have v: "hexval_of_char (z ! (unat a div 16)) = of_nat (unat a div 16)"
    "hexval_of_char (z ! (unat a mod 16)) = of_nat (unat a mod 16)"
    unfolding hex_table_def by auto
  have d: "of_nat (unat a div 16) = drop_bit 4 a" "of_nat (unat a mod 16) = take_bit 4 a"
    unfolding unat_drop4 [symmetric] nibble_low [symmetric] and_15 by simp_all
  show ?thesis unfolding v d
    by (rule bit_eqI) (auto simp: bit_simps)
qed

lemma hexstr_loop_spec:
  assumes "hex_table z" "input = hex_text z bs @ rest" "length bs \<le> length outp"
  shows "i \<le> length bs \<Longrightarrow> take i outp = take i bs \<Longrightarrow>
     hexstr_loop input (2 * int (length bs)) (int (length bs)) outp i = Some (bs @ drop (length bs) outp)"
  using assms(3)
proof (induction "length bs - i" arbitrary: i outp)
  case 0
  then have "i = length bs" by simp
  with 0 show ?case
    by (subst hexstr_loop.simps) (metis append_take_drop_id less_irrefl take_all order_refl)
next
  case (Suc k)
  then have i: "i < length bs" by simp
  have nth: "hex_text z bs ! (2 * j) = z ! (unat (bs ! j) div 16)
    \<and> hex_text z bs ! (2 * j + 1) = z ! (unat (bs ! j) mod 16)" if "j < length bs" for j bs
    using that by (induction bs arbitrary: j) (auto simp: hex_text_def nth_Cons split: nat.splits)
  have l0: "load input (2 * i) = Some (z ! (unat (bs ! i) div 16))"
    using i nth [OF i] by (simp add: assms(2) load_def nth_append)
  have l1: "load input (2 * i + 1) = Some (z ! (unat (bs ! i) mod 16))"
    using i nth [OF i] by (simp add: assms(2) load_def nth_append)
  have c: "c_div (2 * int (length bs)) 2 = int (length bs)" by simp
  have "hexstr_loop input (2 * int (length bs)) (int (length bs)) outp i
      = hexstr_loop input (2 * int (length bs)) (int (length bs)) (outp[i := bs ! i]) (Suc i)"
    using i Suc.prems l1 hexval_pair [OF assms(1)]
    by (subst hexstr_loop.simps) (simp add: c l0 store_def)
  also have "\<dots> = Some (bs @ drop (length bs) (outp[i := bs ! i]))"
    using Suc i by (intro Suc.hyps(1)) (auto simp: take_Suc_conv_app_nth)
  finally show ?case using i by simp
qed

text \<open>Converting bytes to hexadecimal text, in either case, and back yields the bytes; the
  encoder writes exactly two characters per byte and leaves the rest of the output alone, the
  decoder reads exactly those and writes one byte per pair, and neither leaves its buffers.\<close>

lemma hex_roundtrip:
  assumes "length outp \<ge> 2 * length bs" "length outp' \<ge> length bs"
  shows "\<exists>txt. LITE_hexbuf_convert bs outp (int (length bs)) uppercase = Some (txt @ drop (2 * length bs) outp)
       \<and> length txt = 2 * length bs
       \<and> LITE_hexstr_convert (txt @ drop (2 * length bs) outp) (2 * int (length bs)) outp' (int (length bs))
           = Some (bs @ drop (length bs) outp')"
proof -
  let ?z = "if uppercase \<noteq> 0 then hex_upper else hex_lower"
  have "LITE_hexbuf_convert bs outp (int (length bs)) uppercase = Some (hex_text ?z bs @ drop (2 * length bs) outp)"
    using assms(1) by (simp add: LITE_hexbuf_convert_def hex_encode_loop_spec emit_start)
  moreover have "hex_table ?z" using hex_tables by simp
  then have "LITE_hexstr_convert (hex_text ?z bs @ drop (2 * length bs) outp) (2 * int (length bs)) outp' (int (length bs))
     = Some (bs @ drop (length bs) outp')"
    unfolding LITE_hexstr_convert_def using hexstr_loop_spec [OF _ refl assms(2), of ?z 0] by simp
  ultimately show ?thesis by auto
qed

section \<open>Decimal: facts\<close>

text \<open>The decimal notation of a number and the number a digit string denotes.\<close>

fun dec_digits :: "nat \<Rightarrow> bytes" where
  "dec_digits v = (if v < 10 then [of_nat v + 48] else dec_digits (v div 10) @ [of_nat (v mod 10) + 48])"

declare dec_digits.simps [simp del]

text \<open>The conversion \<open>%d\<close> of the formatting functions.\<close>

definition fmt_int :: "int \<Rightarrow> bytes" where
  "fmt_int x = (if x < 0 then c_lit ''-'' @ dec_digits (nat (- x)) else dec_digits (nat x))"

definition is_dec :: "byte \<Rightarrow> bool" where
  "is_dec c = (48 \<le> c \<and> c \<le> 57)"

definition dec_value :: "nat \<Rightarrow> bytes \<Rightarrow> nat" where
  "dec_value = foldl (\<lambda>v c. v * 10 + (unat c - 48))"

lemma dec_value_simps [simp]: "dec_value v [] = v" "dec_value v (c # cs) = dec_value (v * 10 + (unat c - 48)) cs"
  "dec_value v (xs @ ys) = dec_value (dec_value v xs) ys"
  by (simp_all add: dec_value_def)

lemma unat_digit: "k < 10 \<Longrightarrow> unat (of_nat k + 48 :: byte) = k + 48"
  by (simp add: unat_word_ariths unat_of_nat take_bit_nat_eq_self)

lemma is_dec_digit [simp]: "k < 10 \<Longrightarrow> is_dec (of_nat k + 48)"
  by (simp add: is_dec_def word_le_nat_alt unat_digit)

lemma dec_digits_chars: "\<forall>c \<in> set (dec_digits v). is_dec c"
  by (induction v rule: dec_digits.induct) (subst dec_digits.simps, simp)

lemma dec_value_digits [simp]: "dec_value 0 (dec_digits v) = v"
  by (induction v rule: dec_digits.induct) (subst dec_digits.simps, simp add: unat_digit)

lemma dec_digits_nonempty [simp]: "dec_digits v \<noteq> []"
  by (subst dec_digits.simps) simp

lemma dec_digits_length: "v < 10 ^ Suc n \<Longrightarrow> length (dec_digits v) \<le> Suc n"
proof (induction n arbitrary: v)
  case 0
  then show ?case by (subst dec_digits.simps) simp
next
  case (Suc n)
  then have "v div 10 < 10 ^ Suc n" by (simp add: less_mult_imp_div_less mult.commute)
  then have "length (dec_digits (v div 10)) \<le> Suc n" by (rule Suc.IH)
  then show ?case by (subst dec_digits.simps) simp
qed

lemma int2str_digits_spec:
  "i + length (dec_digits v) \<le> length tmp \<Longrightarrow>
   int2str_digits tmp i v = Some (take i tmp @ rev (dec_digits v) @ drop (i + length (dec_digits v)) tmp,
      i + length (dec_digits v))"
proof (induction v arbitrary: i tmp rule: dec_digits.induct)
  case (1 v)
  let ?t = "tmp[i := of_nat (v mod 10) + 48]"
  have i: "i < length tmp" using "1.prems" dec_digits_nonempty [of v] by (cases "dec_digits v") auto
  then have t: "take (Suc i) ?t = take i tmp @ [of_nat (v mod 10) + 48]" "drop (Suc i) ?t = drop (Suc i) tmp"
    by (simp_all add: take_Suc_conv_app_nth)
  show ?case
  proof (cases "v < 10")
    case True
    then have d: "dec_digits v = [of_nat v + 48]" by (subst dec_digits.simps) simp
    with True i t show ?thesis
      by (subst int2str_digits.simps) (simp add: store_def upd_conv_take_nth_drop)
  next
    case False
    then have d: "dec_digits v = dec_digits (v div 10) @ [of_nat (v mod 10) + 48]"
      by (subst dec_digits.simps) simp
    have "int2str_digits tmp i v = int2str_digits ?t (i + 1) (v div 10)"
      using i False by (subst int2str_digits.simps) (simp add: store_def div_greater_zero_iff)
    also have "\<dots> = Some (take (i + 1) ?t @ rev (dec_digits (v div 10)) @ drop (i + 1 + length (dec_digits (v div 10))) ?t,
        i + 1 + length (dec_digits (v div 10)))"
      using "1.prems" False d by (intro "1.IH") auto
    finally show ?thesis using t(1) by (simp add: d)
  qed
qed

lemma int2str_copy_spec:
  "0 < n \<Longrightarrow> j + n \<le> length tmp \<Longrightarrow> n \<le> length outp \<Longrightarrow>
   int2str_copy tmp outp n j = Some (rev (take n (drop j tmp)) @ drop n outp)"
proof (induction n arbitrary: j outp)
  case (Suc i)
  have j: "take (Suc i) (drop j tmp) = tmp ! j # take i (drop (Suc j) tmp)"
    using Suc.prems by (simp add: Cons_nth_drop_Suc [symmetric])
  have o: "drop i (outp[i := tmp ! j]) = tmp ! j # drop (Suc i) outp"
    using Suc.prems by (simp add: Cons_nth_drop_Suc [symmetric] drop_update_swap)
  show ?case
  proof (cases "i = 0")
    case True
    with Suc.prems j o show ?thesis by (auto simp: load_def store_def)
  next
    case False
    with Suc j o show ?thesis by (simp add: load_def store_def)
  qed
qed simp

lemma str2uint_loop_digits:
  "index + n \<le> length input \<Longrightarrow> \<forall>c \<in> set (take n (drop index input)). is_dec c \<Longrightarrow>
   str2uint_loop input n index (of_nat v) = Some (0, Some (of_nat (dec_value v (take n (drop index input)))))"
proof (induction n arbitrary: index v)
  case (Suc n)
  let ?c = "input ! index"
  have t: "take (Suc n) (drop index input) = ?c # take n (drop (Suc index) input)"
    using Suc.prems by (simp add: Cons_nth_drop_Suc [symmetric])
  then have c: "is_dec ?c" using Suc.prems by simp
  then have "of_nat v * 10 + ucast ?c - 48 = (of_nat (v * 10 + (unat ?c - 48)) :: u32)"
    by (simp add: is_dec_def word_le_nat_alt of_nat_diff)
  moreover have "str2uint_loop input n (Suc index) (of_nat (v * 10 + (unat ?c - 48)))
      = Some (0, Some (of_nat (dec_value v (take (Suc n) (drop index input)))))"
    using Suc.prems unfolding t by (subst Suc.IH) auto
  ultimately show ?case
    using Suc.prems(1) c by (simp add: load_def is_dec_def not_less del: of_nat_add of_nat_mult)
qed simp

lemma str2uint_loop_bad:
  "index \<le> k \<Longrightarrow> k < index + n \<Longrightarrow> index + n \<le> length input \<Longrightarrow> \<not> is_dec (input ! k) \<Longrightarrow>
   str2uint_loop input n index t = Some (-1, None)"
proof (induction n arbitrary: index t)
  case (Suc n)
  then show ?case
    by (cases "index = k") (auto simp: load_def is_dec_def not_less)
qed simp

lemma str2int_skip_spaces: "str2int_skip (replicate n 32 @ c # cs) = (if c = 32 then str2int_skip cs else Some (c # cs))"
  by (induction n) auto

lemma str2int_digits_value:
  "\<forall>c \<in> set ds. is_dec c \<Longrightarrow> \<not> is_dec t \<Longrightarrow> dec_value v ds \<le> 2147483647 \<Longrightarrow>
   str2int_digits (ds @ t # rest) (int v) = Some (int (dec_value v ds))"
proof (induction ds arbitrary: v)
  case Nil
  then show ?case by (auto simp: is_dec_def)
next
  case (Cons c ds)
  have mono: "w \<le> dec_value w xs" for w xs
  proof (induction xs arbitrary: w)
    case (Cons a xs)
    then have "w * 10 + (unat a - 48) \<le> dec_value (w * 10 + (unat a - 48)) xs" .
    then show ?case by simp
  qed simp
  have c: "48 \<le> unat c" "unat c \<le> 57" using Cons.prems(1) by (auto simp: is_dec_def word_le_nat_alt)
  then have u: "int v * 10 + (uint c - 48) = int (v * 10 + (unat c - 48))"
    by (simp add: of_nat_diff)
  have le: "v * 10 + (unat c - 48) \<le> 2147483647"
    using mono [of "v * 10 + (unat c - 48)" ds] Cons.prems(3) by simp
  have nz: "c \<noteq> 0" "\<not> c < 48" "\<not> 57 < c" using c by (auto simp: word_less_nat_alt)
  from le have "int (v * 10 + (unat c - 48)) \<le> 2147483647" by linarith
  with Cons u nz show ?case
    by (simp del: of_nat_add of_nat_mult of_nat_diff add: Let_def)
qed

text \<open>Printing an unsigned number and reading it back: \<open>infra_int2str\<close> writes the decimal
  notation of every 32-bit number, at most ten characters and no terminator, inside its
  buffers, and \<open>utils_str2uint\<close> applied to those characters returns the number;
  \<open>utils_str2uint\<close> rejects a text with any character that is not a digit.\<close>

lemma decimal_roundtrip:
  assumes "10 \<le> length outp"
  shows "(\<exists>n \<le> 10. infra_int2str v outp = Some (dec_digits (unat v) @ drop n outp)
           \<and> n = length (dec_digits (unat v))
           \<and> utils_str2uint (dec_digits (unat v) @ drop n outp) (of_nat n) = Some (0, Some v))
       \<and> (unat len \<le> length input \<and> (\<exists>k < unat len. \<not> is_dec (input ! k)) \<longrightarrow>
            utils_str2uint input len = Some (-1, None))"
proof -
  let ?d = "dec_digits (unat v)" let ?n = "length ?d"
  have "unat v < 2 ^ 32" using unsigned_less [of v, where 'a = nat] by simp
  then have n: "?n \<le> 10" using dec_digits_length [of "unat v" 9] by simp
  have "int2str_digits (replicate 10 0) 0 (unat v) = Some (rev ?d @ replicate (10 - ?n) 0, ?n)"
    using n int2str_digits_spec [of 0 "unat v" "replicate 10 0"] by simp
  then have "infra_int2str v outp = Some (?d @ drop ?n outp)"
    using n assms int2str_copy_spec [of ?n 0 "rev ?d @ replicate (10 - ?n) 0" outp]
    by (simp add: infra_int2str_def)
  moreover have "utils_str2uint (?d @ drop ?n outp) (of_nat ?n) = Some (0, Some v)"
    using n str2uint_loop_digits [of 0 ?n "?d @ drop ?n outp" 0] dec_digits_chars [of "unat v"]
    by (simp add: utils_str2uint_def unat_of_nat take_bit_nat_eq_self)
  moreover have "utils_str2uint input len = Some (-1, None)" if "unat len \<le> length input" "k < unat len" "\<not> is_dec (input ! k)" for k
    using that by (simp add: utils_str2uint_def str2uint_loop_bad [of 0 k])
  ultimately show ?thesis using n by blast
qed

text \<open>\<open>infra_str2int\<close> reads leading blanks, an optional sign and a run of digits up to the
  first other character, and stores the number they denote, whenever it is at most
  \<open>2147483647\<close>; the null pointers are refused.\<close>

lemma str2int_reads:
  assumes "\<forall>c \<in> set ds. is_dec c" "\<not> is_dec t" "dec_value 0 ds \<le> 2147483647"
    "sg \<in> {[], [43], [45]}" "ds = [] \<and> sg = [] \<longrightarrow> t \<notin> {32, 43, 45}"
  shows "infra_str2int (Some (replicate n 32 @ sg @ ds @ t # rest)) True
           = Some (0, Some (if sg = [45] then - int (dec_value 0 ds) else int (dec_value 0 ds)))
       \<and> infra_str2int None True = Some (-1, None) \<and> infra_str2int (Some s) False = Some (-1, None)"
proof -
  have v: "str2int_digits (ds @ t # rest) 0 = Some (int (dec_value 0 ds))"
    using str2int_digits_value [OF assms(1-3), of rest] by simp
  have h: "hd (ds @ t # rest) \<notin> {32, 43, 45}" if "sg = []"
    using that assms(1,5) by (cases ds) (auto simp: is_dec_def)
  then have "str2int_skip (replicate n 32 @ sg @ ds @ t # rest) = Some (sg @ ds @ t # rest)"
    using assms(4) by (cases ds) (auto simp: str2int_skip_spaces)
  moreover have "load (ds @ t # rest) 0 = Some (hd (ds @ t # rest))" by (cases ds) (simp_all add: load_def)
  ultimately show ?thesis
    using assms(4) v h by (auto simp: infra_str2int_def mem_simps)
qed

section \<open>JSON fields: facts\<close>

definition json_scan_result :: "bytes \<Rightarrow> nat \<Rightarrow> nat \<Rightarrow> nat option \<Rightarrow> bool" where
  "json_scan_result input n idx r = (case r of
     None \<Rightarrow> \<forall>k. idx \<le> k \<and> k < n \<longrightarrow> \<not> json_value_end (input ! k)
   | Some j \<Rightarrow> idx \<le> j \<and> j < n \<and> json_value_end (input ! j) \<and> (\<forall>k. idx \<le> k \<and> k < j \<longrightarrow> \<not> json_value_end (input ! k)))"

lemma json_scan_result_step:
  "\<not> json_value_end (input ! idx) \<Longrightarrow> json_scan_result input n (Suc idx) r \<Longrightarrow> json_scan_result input n idx r"
  unfolding json_scan_result_def
  by (cases r) (auto, metis Suc_leI le_neq_implies_less, metis Suc_leI le_neq_implies_less)

lemma json_value_scan_safe:
  "n \<le> length input \<Longrightarrow> \<exists>r. json_value_scan input n idx = Some r \<and> json_scan_result input n idx r"
proof (induction "n - idx" arbitrary: idx)
  case 0
  then show ?case by (subst json_value_scan.simps) (auto simp: json_scan_result_def)
next
  case (Suc m)
  then have i: "idx < n" "idx < length input" by auto
  show ?case
  proof (cases "json_value_end (input ! idx)")
    case True
    with i show ?thesis by (subst json_value_scan.simps) (auto simp: load_def json_scan_result_def)
  next
    case False
    obtain r where r: "json_value_scan input n (Suc idx) = Some r" "json_scan_result input n (Suc idx) r"
      using Suc.hyps(1) [OF _ Suc.prems, of "Suc idx"] Suc.hyps(2) by (metis Suc_diff_Suc diff_Suc_Suc i(1) nat.inject)
    have "json_value_scan input n idx = Some r"
      using i False r(1) by (subst json_value_scan.simps) (simp add: load_def)
    with json_scan_result_step [OF False r(2)] show ?thesis by blast
  qed
qed

lemma json_value_scan_finds:
  assumes "n \<le> length input" "idx \<le> j" "j < n" "json_value_end (input ! j)"
    "\<And>k. idx \<le> k \<Longrightarrow> k < j \<Longrightarrow> \<not> json_value_end (input ! k)"
  shows "json_value_scan input n idx = Some (Some j)"
proof -
  obtain r where r: "json_value_scan input n idx = Some r" "json_scan_result input n idx r"
    using json_value_scan_safe [OF assms(1)] by blast
  then obtain j' where j': "r = Some j'" using assms(2-4) by (cases r) (auto simp: json_scan_result_def)
  then have "idx \<le> j'" "json_value_end (input ! j')" "j < j' \<Longrightarrow> \<not> json_value_end (input ! j)"
    using r(2) assms(2) by (auto simp: json_scan_result_def)
  then have "j' = j" using assms(4,5) by (meson linorder_neqE_nat)
  with r j' show ?thesis by simp
qed

definition json_slice_ok :: "bytes \<Rightarrow> nat \<Rightarrow> nat \<times> nat \<Rightarrow> bool" where
  "json_slice_ok input n sl = (fst sl + snd sl < n \<and> json_value_end (input ! (fst sl + snd sl))
     \<and> (\<forall>k < snd sl. \<not> json_value_end (input ! (fst sl + k))))"

lemma add32_small [simp]: "a + b < 4294967296 \<Longrightarrow> add32 a b = a + b"
  by (simp add: add32_def)

lemma json_value_loop_step:
  assumes "n \<le> length input" "kl \<le> length key" "n + kl < 4294967290" "idx + kl < n"
  shows "json_value_loop input n key kl idx =
    (if take kl (drop idx input) = take kl key then
       if n \<le> idx + kl + 4 then Some (-1, None)
       else if input ! (idx + kl + 1) \<noteq> 58 then Some (-1, None)
       else json_value_scan input n (idx + kl + 2) \<bind> (\<lambda>r. case r of None \<Rightarrow> Some (-1, None)
              | Some j \<Rightarrow> Some (0, Some (idx + kl + 2, j - (idx + kl + 2))))
     else json_value_loop input n key kl (Suc idx))"
proof -
  have "load_n input idx kl = Some (take kl (drop idx input))" "load_n key 0 kl = Some (take kl key)"
    "n > idx + kl + 4 \<Longrightarrow> load input (idx + kl + 1) = Some (input ! (idx + kl + 1))"
    using assms by (simp_all add: load_n_def load_def)
  then show ?thesis using assms
    by (subst json_value_loop.simps) (simp add: Let_def)
qed

lemma json_value_loop_safe:
  assumes "n \<le> length input" "kl \<le> length key" "n + kl < 4294967290"
  shows "\<exists>r. json_value_loop input n key kl idx = Some (-1, None)
     \<or> json_value_loop input n key kl idx = Some (0, Some r) \<and> json_slice_ok input n r"
proof (induction "n - idx" arbitrary: idx)
  case 0
  then show ?case by (subst json_value_loop.simps) simp
next
  case (Suc m)
  then have i: "idx < n" by simp
  let ?v = "idx + kl + 2"
  show ?case
  proof (cases "idx + kl < n")
    case False
    with i assms show ?thesis by (subst json_value_loop.simps) simp
  next
    case True
    obtain r where r: "json_value_scan input n ?v = Some r" "json_scan_result input n ?v r"
      using json_value_scan_safe [OF assms(1), of ?v] by blast
    have "\<exists>r. json_value_loop input n key kl (Suc idx) = Some (-1, None)
     \<or> json_value_loop input n key kl (Suc idx) = Some (0, Some r) \<and> json_slice_ok input n r"
      using Suc by simp
    then show ?thesis using True r assms
      by (cases r) (simp_all add: json_value_loop_step [OF assms True] json_slice_ok_def json_scan_result_def)
  qed
qed

lemma json_value_loop_skip:
  assumes "n \<le> length input" "kl = length key" "n + kl < 4294967290" "j + kl < n"
    "\<And>i. i < j \<Longrightarrow> take kl (drop i input) \<noteq> key"
  shows "idx \<le> j \<Longrightarrow> json_value_loop input n key kl idx = json_value_loop input n key kl j"
proof (induction "j - idx" arbitrary: idx)
  case (Suc m)
  then have "json_value_loop input n key kl idx = json_value_loop input n key kl (Suc idx)"
    using assms by (subst json_value_loop_step) auto
  with Suc show ?case by simp
qed simp

text \<open>Extraction of a JSON field is memory safe for every input and key: the call either
  reports failure or hands out a slice that lies inside the input, contains no
  \<open>,\<close>, \<open>}\<close> or \<open>]\<close> and is followed by one of them.\<close>

lemma json_value_safe:
  assumes "unat input_len \<le> length input" "unat key_len \<le> length key"
    "unat input_len + unat key_len < 4294967290"
  shows "\<exists>sl. infra_json_value input input_len key key_len = Some (-1, None)
     \<or> infra_json_value input input_len key key_len = Some (0, Some sl) \<and> json_slice_ok input (unat input_len) sl"
  unfolding infra_json_value_def by (rule json_value_loop_safe [OF assms])

text \<open>On the first occurrence of the key, followed by a closing quote, a colon, a value free
  of \<open>,\<close>, \<open>}\<close>, \<open>]\<close> and one of these, the value is returned, provided at least two bytes
  stand for the value and what follows its terminator.  A one-character value that ends the
  input, which the comment in the code names as the shortest accepted form, is refused.\<close>

lemma json_value_finds:
  assumes "input = pre @ key @ [q, 58] @ val @ [d] @ post"
    "\<And>i. i < length pre \<Longrightarrow> take (length key) (drop i input) \<noteq> key"
    "\<forall>c \<in> set val. \<not> json_value_end c" "json_value_end d" "length input + length key < 4294967290"
  shows "infra_json_value input (of_nat (length input)) key (of_nat (length key)) =
     (if length val + length post \<ge> 2 then Some (0, Some (length pre + length key + 2, length val))
      else Some (-1, None))"
proof -
  let ?n = "length input" let ?j = "length pre" let ?k = "length key"
  have n: "?n = ?j + ?k + 3 + length val + length post" using assms(1) by simp
  have u: "unat (of_nat ?n :: u32) = ?n" "unat (of_nat ?k :: u32) = ?k"
    using assms(5) by (simp_all add: unat_of_nat take_bit_nat_eq_self)
  have skip: "json_value_loop input ?n key ?k 0 = json_value_loop input ?n key ?k ?j"
    using assms(2,5) n by (intro json_value_loop_skip) auto
  have at: "take ?k (drop ?j input) = key" "input ! (?j + ?k + 1) = 58"
    using assms(1) by (simp_all add: nth_append)
  have scan: "json_value_scan input ?n (?j + ?k + 2) = Some (Some (?j + ?k + 2 + length val))"
    using n assms(3,4) by (intro json_value_scan_finds) (auto simp: assms(1) nth_append)
  have "json_value_loop input ?n key ?k ?j =
     (if length val + length post \<ge> 2 then Some (0, Some (?j + ?k + 2, length val)) else Some (-1, None))"
    using n at scan assms(5) by (subst json_value_loop_step) auto
  with skip u show ?thesis by (simp add: infra_json_value_def)
qed

end
