(* ===== verification/Infra_Hash.thy ===== *)
theory Infra_Hash
  imports Infra_String
begin

text \<open>
  What \<open>infra_md5.c\<close>, \<open>infra_sha1.c\<close> and \<open>infra_sha256.c\<close> share: the byte-order macros, the
  block loop of the update functions and the key pads of the HMAC functions, and, as a
  locale each, the contract of a streaming hash: \<open>md_code\<close> states the shape of the update and
  finish code over an arbitrary context type, and its lemmas show that any sequence of
  updates absorbs the concatenation of the inputs and that finishing yields the padded
  Merkle-Damgard hash of it; \<open>hmac_code\<close> adds the keyed construction.
\<close>

section \<open>Byte order\<close>

definition GET_UINT32_BE :: "bytes \<Rightarrow> nat \<Rightarrow> u32" where
  "GET_UINT32_BE b i = push_bit 24 (ucast (b ! i)) OR push_bit 16 (ucast (b ! (i + 1)))
     OR push_bit 8 (ucast (b ! (i + 2))) OR ucast (b ! (i + 3))"

definition GET_UINT32_LE :: "bytes \<Rightarrow> nat \<Rightarrow> u32" where
  "GET_UINT32_LE b i = ucast (b ! i) OR push_bit 8 (ucast (b ! (i + 1)))
     OR push_bit 16 (ucast (b ! (i + 2))) OR push_bit 24 (ucast (b ! (i + 3)))"

text \<open>The four bytes the store macros write, and the stores at an offset of an array.\<close>

definition be32 :: "u32 \<Rightarrow> bytes" where
  "be32 n = [ucast (drop_bit 24 n), ucast (drop_bit 16 n), ucast (drop_bit 8 n), ucast n]"

definition le32 :: "u32 \<Rightarrow> bytes" where
  "le32 n = [ucast (n AND 0xFF), ucast (drop_bit 8 n AND 0xFF), ucast (drop_bit 16 n AND 0xFF), ucast (drop_bit 24 n AND 0xFF)]"

definition PUT_UINT32_BE :: "u32 \<Rightarrow> bytes \<Rightarrow> nat \<Rightarrow> bytes option" where
  "PUT_UINT32_BE n b i = store_n b i (be32 n)"

definition PUT_UINT32_LE :: "u32 \<Rightarrow> bytes \<Rightarrow> nat \<Rightarrow> bytes option" where
  "PUT_UINT32_LE n b i = store_n b i (le32 n)"

text \<open>A run of store macros at the offsets \<open>i, i + 4, \<dots>\<close>.\<close>

fun put_words :: "(u32 \<Rightarrow> bytes \<Rightarrow> nat \<Rightarrow> bytes option) \<Rightarrow> u32 list \<Rightarrow> bytes \<Rightarrow> nat \<Rightarrow> bytes option" where
  "put_words put [] b i = Some b"
| "put_words put (n # ns) b i = put n b i \<bind> (\<lambda>b. put_words put ns b (i + 4))"

section \<open>The loop of the update functions\<close>

text \<open>\<open>while (ilen >= 64)\<close>: process the block at the input pointer and advance it.\<close>

function while_blocks :: "('c \<Rightarrow> bytes \<Rightarrow> 'c) \<Rightarrow> 'c \<Rightarrow> bytes \<Rightarrow> nat \<Rightarrow> ('c \<times> bytes \<times> nat) option" where
  "while_blocks process ctx input ilen =
     (if ilen \<ge> 64 then do {
        blk \<leftarrow> load_n input 0 64;
        while_blocks process (process ctx blk) (drop 64 input) (ilen - 64) }
      else Some (ctx, input, ilen))"
  by pat_completeness auto
termination by (relation "measure (\<lambda>(_, _, _, n). n)") auto

declare while_blocks.simps [simp del]

text \<open>The 64 padding bytes of the finish functions.\<close>

definition md_padding :: bytes where
  "md_padding = 0x80 # replicate 63 0"

text \<open>The pads of the HMAC functions: \<open>memset\<close>, \<open>memcpy\<close> of the key, exclusive or.\<close>

definition hmac_pad :: "byte \<Rightarrow> bytes \<Rightarrow> bytes option" where
  "hmac_pad x key = map_option (map (\<lambda>b. b XOR x)) (store_n (replicate 64 0) 0 key)"

text \<open>The rotation macro \<open>S\<close> of SHA-1 and MD5.\<close>

definition rot_S :: "u32 \<Rightarrow> nat \<Rightarrow> u32" where
  "rot_S x n = (push_bit n x OR drop_bit (32 - n) (x AND 0xFFFFFFFF))"

text \<open>The static \<open>utils_hb2hex\<close> of both files and the loop that writes a digest as text.\<close>

definition utils_hb2hex :: "byte \<Rightarrow> byte" where
  "utils_hb2hex hb = (let hb = hb AND 0xF in if hb < 10 then 48 + hb else hb - 10 + 97)"

fun put_hex :: "bytes \<Rightarrow> nat \<Rightarrow> bytes \<Rightarrow> bytes option" where
  "put_hex [] i digest = Some digest"
| "put_hex (b # bs) i digest = do {
     digest \<leftarrow> store digest (i * 2) (utils_hb2hex (drop_bit 4 b));
     digest \<leftarrow> store digest (i * 2 + 1) (utils_hb2hex b);
     put_hex bs (i + 1) digest }"

section \<open>Merkle-Damgard hashing\<close>

text \<open>The whole blocks of a message folded into a chaining value, and the bytes after them.\<close>

function md_absorb :: "('s \<Rightarrow> bytes \<Rightarrow> 's) \<Rightarrow> 's \<Rightarrow> bytes \<Rightarrow> 's" where
  "md_absorb f s m = (if length m < 64 then s else md_absorb f (f s (take 64 m)) (drop 64 m))"
  by pat_completeness auto
termination by (relation "measure (\<lambda>(_, _, m). length m)") auto

declare md_absorb.simps [simp del]

definition md_rest :: "bytes \<Rightarrow> bytes" where
  "md_rest m = drop (64 * (length m div 64)) m"

text \<open>Padding: a one bit, zeros up to 56 bytes modulo 64, then the length in bits.\<close>

definition md_pad :: "(nat \<Rightarrow> bytes) \<Rightarrow> nat \<Rightarrow> bytes" where
  "md_pad enc64 n = take (if n mod 64 < 56 then 56 - n mod 64 else 120 - n mod 64) md_padding @ enc64 (8 * n mod 2 ^ 64)"

definition md_hash :: "('s \<Rightarrow> bytes \<Rightarrow> 's) \<Rightarrow> 's \<Rightarrow> (nat \<Rightarrow> bytes) \<Rightarrow> ('s \<Rightarrow> bytes) \<Rightarrow> bytes \<Rightarrow> bytes" where
  "md_hash f iv enc64 digest m = digest (md_absorb f iv (m @ md_pad enc64 (length m)))"

text \<open>The state words as digest bytes.\<close>

definition words_be :: "u32 list \<Rightarrow> bytes" where
  "words_be ws = concat (map be32 ws)"

definition words_le :: "u32 list \<Rightarrow> bytes" where
  "words_le ws = concat (map le32 ws)"

text \<open>HMAC (RFC 2104) for a key of at most one block.\<close>

definition hmac_key :: "byte \<Rightarrow> bytes \<Rightarrow> bytes" where
  "hmac_key x key = map (\<lambda>b. b XOR x) (key @ replicate (64 - length key) 0)"

definition hmac :: "(bytes \<Rightarrow> bytes) \<Rightarrow> bytes \<Rightarrow> bytes \<Rightarrow> bytes" where
  "hmac H key msg = H (hmac_key 0x5c key @ H (hmac_key 0x36 key @ msg))"

text \<open>The eight bytes of a 64-bit number.\<close>

definition be64 :: "nat \<Rightarrow> bytes" where
  "be64 n = map (\<lambda>i. of_nat (n div 256 ^ (7 - i))) [0..<8]"

definition le64 :: "nat \<Rightarrow> bytes" where
  "le64 n = map (\<lambda>i. of_nat (n div 256 ^ i)) [0..<8]"

lemma md_absorb_short: "length m < 64 \<Longrightarrow> md_absorb f s m = s"
  by (subst md_absorb.simps) simp

lemma md_absorb_block: "length b = 64 \<Longrightarrow> md_absorb f s (b @ m) = md_absorb f (f s b) m"
  by (subst md_absorb.simps) simp

lemma length_md_rest [simp]: "length (md_rest m) = length m mod 64"
  by (simp add: md_rest_def minus_mult_div_eq_mod)

lemma md_rest_short [simp]: "length m < 64 \<Longrightarrow> md_rest m = m"
  by (simp add: md_rest_def)

lemma md_rest_block [simp]: "length b = 64 \<Longrightarrow> md_rest (b @ m) = md_rest m"
  by (simp add: md_rest_def div_add_self1)

lemma md_rest_empty: "64 dvd length m \<Longrightarrow> md_rest m = []"
  using length_md_rest [of m] by (simp del: length_md_rest)

lemma md_absorb_cong:
  assumes "\<And>s b. ok s \<Longrightarrow> f s b = g s b" "\<And>s b. ok s \<Longrightarrow> ok (g s b)"
  shows "ok s \<Longrightarrow> md_absorb f s m = md_absorb g s m"
proof (induction "length m" arbitrary: s m rule: less_induct)
  case less
  then show ?case using assms by (subst (1 2) md_absorb.simps) auto
qed

lemma md_absorb_append: "md_absorb f s (x @ y) = md_absorb f (md_absorb f s x) (md_rest x @ y)"
proof (induction f s x rule: md_absorb.induct)
  case (1 f s x)
  show ?case
  proof (cases "length x < 64")
    case True
    then show ?thesis by (simp add: md_absorb_short)
  next
    case False
    obtain b r where x: "x = b @ r" "length b = 64"
      using False by (metis append_take_drop_id length_take min.absorb2 not_less)
    with 1 False have "md_absorb f (f s b) (r @ y) = md_absorb f (md_absorb f (f s b) r) (md_rest r @ y)" by simp
    with x show ?thesis by (simp add: md_absorb_block)
  qed
qed

lemma md_rest_append: "md_rest (x @ y) = md_rest (md_rest x @ y)"
proof -
  let ?q = "64 * (length x div 64)"
  have "x = take ?q x @ md_rest x" by (simp add: md_rest_def)
  moreover have "md_rest (take (64 * k) x @ z) = md_rest z" if "64 * k \<le> length x" for k z
    using that by (simp add: md_rest_def min_def)
  moreover have "?q \<le> length x" by simp
  ultimately show ?thesis by (metis append_assoc)
qed

lemma while_blocks_spec:
  assumes st: "\<And>c b. st (process c b) = f (st c) b"
    and keep: "\<And>c b. keep (process c b) = keep c"
  shows "\<exists>c'. while_blocks process c (x @ rest) (length x) = Some (c', md_rest x @ rest, length x mod 64)
     \<and> st c' = md_absorb f (st c) x \<and> keep c' = keep c"
proof (induction "length x" arbitrary: c x rule: less_induct)
  case less
  show ?case
  proof (cases "length x < 64")
    case True
    then show ?thesis by (subst while_blocks.simps) (simp add: md_absorb_short)
  next
    case False
    obtain b r where x: "x = b @ r" "length b = 64"
      using False by (metis append_take_drop_id length_take min.absorb2 not_less)
    have "while_blocks process c (x @ rest) (length x) = while_blocks process (process c b) (r @ rest) (length r)"
      using x by (subst while_blocks.simps) (simp add: load_n_def)
    moreover obtain c' where "while_blocks process (process c b) (r @ rest) (length r) = Some (c', md_rest r @ rest, length r mod 64)"
       "st c' = md_absorb f (st (process c b)) r" "keep c' = keep (process c b)"
      using less [of r "process c b"] x by auto
    ultimately show ?thesis using x by (simp add: md_absorb_block st keep)
  qed
qed

lemma length_be_le [simp]: "length (be32 n) = 4" "length (le32 n) = 4" "length (be64 k) = 8" "length (le64 k) = 8"
  by (simp_all add: be32_def le32_def be64_def le64_def)

lemma put_words_spec:
  assumes put: "\<And>n b i. put n b i = store_n b i (enc n)" and len: "\<And>n. length (enc n) = 4"
  shows "i + 4 * length ns \<le> length b \<Longrightarrow>
    put_words put ns b i = Some (take i b @ concat (map enc ns) @ drop (i + 4 * length ns) b)"
proof (induction ns arbitrary: b i)
  case (Cons n ns)
  let ?b = "take i b @ enc n @ drop (i + 4) b"
  have "put n b i = Some ?b" using Cons.prems len by (simp add: put store_n_def)
  moreover have "put_words put ns ?b (i + 4) = Some (take (i + 4) ?b @ concat (map enc ns) @ drop (i + 4 + 4 * length ns) ?b)"
    using Cons.prems len by (intro Cons.IH) simp
  ultimately show ?case using Cons.prems len by (simp add: min_def algebra_simps)
qed simp

lemma words_be_length [simp]: "length (words_be ws) = 4 * length ws"
  by (induction ws) (simp_all add: words_be_def)

lemma words_le_length [simp]: "length (words_le ws) = 4 * length ws"
  by (induction ws) (simp_all add: words_le_def)

lemma put_words_be: "i + 4 * length ns \<le> length b \<Longrightarrow>
    put_words PUT_UINT32_BE ns b i = Some (take i b @ words_be ns @ drop (i + 4 * length ns) b)"
  unfolding words_be_def by (rule put_words_spec) (simp_all add: PUT_UINT32_BE_def)

lemma put_words_le: "i + 4 * length ns \<le> length b \<Longrightarrow>
    put_words PUT_UINT32_LE ns b i = Some (take i b @ words_le ns @ drop (i + 4 * length ns) b)"
  unfolding words_le_def by (rule put_words_spec) (simp_all add: PUT_UINT32_LE_def)

lemma put_words_append: "put_words put (xs @ ys) b i = put_words put xs b i \<bind> (\<lambda>b. put_words put ys b (i + 4 * length xs))"
  by (induction xs arbitrary: b i) (simp_all add: algebra_simps)

lemma put_length_be: "(PUT_UINT32_BE high (replicate 8 0) 0 \<bind> (\<lambda>m. PUT_UINT32_BE low m 4)) = Some (be32 high @ be32 low)"
  using put_words_be [of 0 "[high, low]" "replicate 8 0"] by (simp add: words_be_def)

lemma put_length_le: "(PUT_UINT32_LE low (replicate 8 0) 0 \<bind> (\<lambda>m. PUT_UINT32_LE high m 4)) = Some (le32 low @ le32 high)"
  using put_words_le [of 0 "[low, high]" "replicate 8 0"] by (simp add: words_le_def)

lemma and_all_ones: "(x :: u32) AND 0xFFFFFFFF = x"
proof -
  have "(0xFFFFFFFF :: u32) = mask 32" by (simp add: mask_eq_exp_minus_1)
  then have "x AND 0xFFFFFFFF = take_bit 32 x" by (simp only: take_bit_eq_mask)
  then show ?thesis by (simp add: take_bit_word_eq_self)
qed

lemma hmac_pad_key: "length key \<le> 64 \<Longrightarrow> hmac_pad x key = Some (hmac_key x key)"
  by (simp add: hmac_pad_def hmac_key_def store_n_def)

lemma length_hmac_key [simp]: "length key \<le> 64 \<Longrightarrow> length (hmac_key x key) = 64"
  by (simp add: hmac_key_def)

lemma shift3_arith:
  fixes x y :: nat
  assumes "x < 2 ^ 32" "y < 2 ^ 32"
  shows "(x div 2 ^ 29 + 8 * y mod 2 ^ 32) mod 2 ^ 32 * 2 ^ 32 + 8 * x mod 2 ^ 32 = 8 * (y * 2 ^ 32 + x) mod 2 ^ 64"
proof -
  obtain q r where x: "x = q * 2 ^ 29 + r" "r < 2 ^ 29" "q < 8"
    using assms(1) by (intro that [of "x div 2 ^ 29" "x mod 2 ^ 29"]) auto
  obtain p s where y: "y = p * 2 ^ 29 + s" "s < 2 ^ 29"
    by (intro that [of "y div 2 ^ 29" "y mod 2 ^ 29"]) auto
  have "8 * x = r * 8 + q * 2 ^ 32" "8 * y = s * 8 + p * 2 ^ 32" using x y by simp_all
  then have m: "8 * x mod 2 ^ 32 = r * 8" "8 * y mod 2 ^ 32 = s * 8" using x(2) y(2) by simp_all
  have "8 * (y * 2 ^ 32 + x) = ((q + s * 8) * 2 ^ 32 + r * 8) + p * 2 ^ 64" using x y by simp
  then have "8 * (y * 2 ^ 32 + x) mod 2 ^ 64 = ((q + s * 8) * 2 ^ 32 + r * 8) mod 2 ^ 64"
    by (simp only: mod_mult_self1)
  also have "\<dots> = (q + s * 8) * 2 ^ 32 + r * 8" using x y by (intro mod_less) simp
  finally have "8 * (y * 2 ^ 32 + x) mod 2 ^ 64 = (q + s * 8) * 2 ^ 32 + r * 8" .
  then show ?thesis using x y m by simp
qed

text \<open>The two length words of the finish functions are the halves of the bit count.\<close>

lemma bit_count_words:
  fixes t0 t1 :: u32
  assumes "unat t1 * 2 ^ 32 + unat t0 = n mod 2 ^ 64"
  shows "unat (drop_bit 29 t0 OR push_bit 3 t1) * 2 ^ 32 + unat (push_bit 3 t0) = 8 * n mod 2 ^ 64"
proof -
  have a: "unat t0 < 2 ^ 32" "unat t1 < 2 ^ 32"
    using unsigned_less [of t0, where 'a = nat] unsigned_less [of t1, where 'a = nat] by simp_all
  have "drop_bit 29 t0 AND push_bit 3 t1 = 0"
    by (rule bit_eqI) (auto simp: bit_simps dest: bit_imp_le_length)
  then have "drop_bit 29 t0 OR push_bit 3 t1 = drop_bit 29 t0 + push_bit 3 t1"
    by (simp add: disjunctive_add_eq_or)
  moreover have d: "unat (drop_bit 29 t0) = unat t0 div 2 ^ 29"
    using take_bit_nat_eq_self [of "unat t0" 32] a unfolding unsigned_drop_bit_eq by (simp add: drop_bit_eq_div)
  moreover have p: "unat (push_bit 3 t) = 8 * unat t mod 2 ^ 32" for t :: u32
    by (simp add: unsigned_push_bit_eq) (simp add: push_bit_eq_mult take_bit_eq_mod mult.commute)
  moreover have "(unat t0 div 2 ^ 29 + 8 * unat t1 mod 2 ^ 32) mod 2 ^ 32 * 2 ^ 32 + 8 * unat t0 mod 2 ^ 32
      = 8 * (unat t1 * 2 ^ 32 + unat t0) mod 2 ^ 64"
    using a by (intro shift3_arith)
  ultimately have "unat (drop_bit 29 t0 OR push_bit 3 t1) * 2 ^ 32 + unat (push_bit 3 t0)
      = 8 * (unat t1 * 2 ^ 32 + unat t0) mod 2 ^ 64"
    by (simp only: unat_word_ariths(1)) simp
  then show ?thesis unfolding assms by (simp only: mod_mult_right_eq)
qed

lemma carry_arith:
  fixes a s :: nat
  assumes "a < 2 ^ 32" "s < 2 * 2 ^ 32"
  shows "(a * 2 ^ 32 + s) mod 2 ^ 64 = (if s \<ge> 2 ^ 32 then (a + 1) mod 2 ^ 32 else a) * 2 ^ 32 + s mod 2 ^ 32"
proof (cases "s < 2 ^ 32")
  case True
  with assms(1) have "a * 2 ^ 32 + s < 2 ^ 64" by simp
  moreover have "\<not> 2 ^ 32 \<le> s" using True by (simp only: not_le)
  ultimately show ?thesis using True by (simp only: mod_less if_False)
next
  case False
  then obtain r where r: "s = 2 ^ 32 + r" "r < 2 ^ 32"
    using assms(2) by (intro that [of "s - 2 ^ 32"]) simp_all
  show ?thesis
  proof (cases "a + 1 = 2 ^ 32")
    case True
    then have "a * 2 ^ 32 + s = 2 ^ 64 + r" using r by simp
    moreover have "r mod 2 ^ 64 = r" "s mod 2 ^ 32 = r" using r by simp_all
    ultimately show ?thesis using r(1) by (simp only: True mod_add_self1 mod_self le_add1 if_True mult_0 add_0)
  next
    case a: False
    with assms(1) r have "a * 2 ^ 32 + s < 2 ^ 64" "a + 1 < 2 ^ 32" "a * 2 ^ 32 + s = (a + 1) * 2 ^ 32 + r" by simp_all
    moreover have "s mod 2 ^ 32 = r" using r by simp
    ultimately show ?thesis using r(1) by (simp only: mod_less le_add1 if_True)
  qed
qed

text \<open>The stores of the two length words are the eight bytes of the 64-bit bit count.\<close>

lemma byte_div: "ucast (drop_bit k (w :: u32)) = (of_nat (unat w div 2 ^ k) :: byte)"
proof -
  have "unat w < 2 ^ 32" using unsigned_less [of w, where 'a = nat] by simp
  then have "unat (drop_bit k w) = unat w div 2 ^ k"
    using take_bit_nat_eq_self [of "unat w" 32] unfolding unsigned_drop_bit_eq by (simp add: drop_bit_eq_div)
  then show ?thesis by (metis of_nat_unat)
qed

lemma ucast_and_255: "ucast ((w :: u32) AND 0xFF) = (ucast w :: byte)"
proof -
  have "w AND 0xFF = take_bit 8 w" by (simp add: take_bit_eq_mask mask_eq_exp_minus_1)
  then show ?thesis by (simp only: ) (rule bit_word_eqI, simp add: bit_simps)
qed

lemma byte_of_sum: "of_nat ((a * 256 + b) :: nat) = (of_nat b :: byte)"
proof -
  have "(of_nat 256 :: byte) = 0" by (simp add: word_eq_iff_unsigned)
  then show ?thesis by (simp only: of_nat_add of_nat_mult mult_zero_right add_0)
qed

lemma be32_bytes: "be32 w = map (\<lambda>i. of_nat (unat w div 256 ^ (3 - i))) [0..<4]"
  using byte_div [of 24 w] byte_div [of 16 w] byte_div [of 8 w] byte_div [of 0 w] by (simp add: be32_def upt_rec)

lemma le32_bytes: "le32 w = map (\<lambda>i. of_nat (unat w div 256 ^ i)) [0..<4]"
  using byte_div [of 24 w] byte_div [of 16 w] byte_div [of 8 w] byte_div [of 0 w]
  by (simp add: le32_def upt_rec ucast_and_255)

lemma word_pair_bytes:
  fixes high low :: u32
  assumes "k \<le> 3"
  shows "(of_nat ((unat high * 2 ^ 32 + unat low) div 256 ^ k) :: byte) = of_nat (unat low div 256 ^ k)"
    "(of_nat ((unat high * 2 ^ 32 + unat low) div 256 ^ (k + 4)) :: byte) = of_nat (unat high div 256 ^ k)"
proof -
  have l: "unat low < 2 ^ 32" using unsigned_less [of low, where 'a = nat] by simp
  have "(unat high * 2 ^ 32 + unat low) div 256 ^ k = unat high * 256 ^ (4 - k) + unat low div 256 ^ k"
  proof -
    have "(2 :: nat) ^ 32 = 256 ^ (4 - k) * 256 ^ k"
      using assms by (simp flip: power_add)
    then have "unat high * 2 ^ 32 + unat low = unat low + unat high * 256 ^ (4 - k) * 256 ^ k" by simp
    then show ?thesis by (simp only: div_mult_self1 power_eq_0_iff) simp
  qed
  also have "\<dots> = (unat high * 256 ^ (3 - k)) * 256 + unat low div 256 ^ k"
  proof -
    have "4 - k = Suc (3 - k)" using assms by simp
    then show ?thesis by (simp only: power_Suc2 mult.assoc)
  qed
  finally show "(of_nat ((unat high * 2 ^ 32 + unat low) div 256 ^ k) :: byte) = of_nat (unat low div 256 ^ k)"
    by (simp only: byte_of_sum)
  have "(unat high * 2 ^ 32 + unat low) div 2 ^ 32 = unat high" using l by simp
  then have "(unat high * 2 ^ 32 + unat low) div 256 ^ (k + 4) = unat high div 256 ^ k"
    by (simp add: power_add div_mult2_eq mult.commute [of "256 ^ k"] del: div_mult_self3)
  then show "(of_nat ((unat high * 2 ^ 32 + unat low) div 256 ^ (k + 4)) :: byte) = of_nat (unat high div 256 ^ k)"
    by simp
qed

lemma be64_words: "be32 high @ be32 low = be64 (unat high * 2 ^ 32 + unat low)"
  using word_pair_bytes [of 0 high low] word_pair_bytes [of 1 high low] word_pair_bytes [of 2 high low] word_pair_bytes [of 3 high low]
  by (simp add: be64_def be32_bytes upt_rec)

lemma le64_words: "le32 low @ le32 high = le64 (unat high * 2 ^ 32 + unat low)"
  using word_pair_bytes [of 0 high low] word_pair_bytes [of 1 high low] word_pair_bytes [of 2 high low] word_pair_bytes [of 3 high low]
  by (simp add: le64_def le32_bytes upt_rec)

lemma rot_S_rotl: "0 < n \<Longrightarrow> n < 32 \<Longrightarrow> rot_S x n = word_rotl n x"
proof (rule bit_word_eqI)
  fix k assume n: "0 < n" "n < 32" and "k < LENGTH(32)"
  then have k: "k < 32" by simp
  have r: "bit (word_rotl n x) k = bit x ((k + (32 - n)) mod 32)"
    using n k by (simp add: word_rotl_eq_word_rotr bit_word_rotr_iff)
  have l: "bit (rot_S x n) k = (n \<le> k \<and> bit x (k - n) \<or> bit x (32 - n + k))"
    using k by (auto simp: rot_S_def and_all_ones bit_simps)
  show "bit (rot_S x n) k = bit (word_rotl n x) k"
  proof (cases "n \<le> k")
    case True
    then have e: "(k + (32 - n)) mod 32 = k - n" using n k by (simp add: mod_if)
    have "\<not> bit x (32 - n + k)" using True n bit_imp_le_length [of x "32 - n + k"] by auto
    then show ?thesis unfolding r l e using True by simp
  next
    case False
    then have e: "(k + (32 - n)) mod 32 = 32 - n + k" using n by simp
    show ?thesis unfolding r l e using False by simp
  qed
qed

lemma hb2hex_lower: "utils_hb2hex b = hex_lower ! (unat b mod 16)"
proof -
  have u: "unat (b AND 0xF) = unat b mod 16" by (rule nibble_low)
  have "b AND 0xF = of_nat (unat b mod 16)" unfolding u [symmetric] by simp
  moreover have "unat b mod 16 \<in> set [0..<16]" by simp
  moreover have "\<forall>k \<in> set [0..<16]. (if (of_nat k :: byte) < 10 then 48 + of_nat k else of_nat k - 10 + 97) = hex_lower ! k"
    by (simp add: hex_lower_def upt_rec)
  ultimately show ?thesis by (simp only: utils_hb2hex_def Let_def)
qed

lemma put_hex_spec:
  "i * 2 + 2 * length bs \<le> length d \<Longrightarrow>
   put_hex bs i d = Some (take (i * 2) d @ hex_text hex_lower bs @ drop (i * 2 + 2 * length bs) d)"
proof (induction bs arbitrary: i d)
  case Nil
  then show ?case by (simp add: hex_text_def)
next
  case (Cons b bs)
  let ?h = "utils_hb2hex (drop_bit 4 b)" let ?l = "utils_hb2hex b"
  have h: "?h = hex_lower ! (unat b div 16)" "?l = hex_lower ! (unat b mod 16)"
    unfolding hb2hex_lower unat_drop4 using unat_byte_bound [of b] by simp_all
  let ?d = "d[i * 2 := ?h, i * 2 + 1 := ?l]"
  have "put_hex (b # bs) i d = put_hex bs (i + 1) ?d" using Cons.prems by (simp add: store_def)
  also have "\<dots> = Some (take ((i + 1) * 2) ?d @ hex_text hex_lower bs @ drop ((i + 1) * 2 + 2 * length bs) ?d)"
    using Cons.prems by (intro Cons.IH) simp
  also have "take ((i + 1) * 2) ?d = take (i * 2) d @ [?h, ?l]"
    using Cons.prems by (simp add: take_Suc_conv_app_nth)
  finally show ?case using h by (simp add: hex_text_def add.assoc)
qed

section \<open>The contract of the update functions\<close>

text \<open>The shape of the code of an update function over a context of any type: the accessors of
  the context, its writers with their laws, the block function and the update function.\<close>

locale md_code =
  fixes total0 total1 :: "'c \<Rightarrow> u32" and hstate :: "'c \<Rightarrow> u32 list" and buffer :: "'c \<Rightarrow> bytes"
    and ready :: "'c \<Rightarrow> bool"
    and put_total :: "u32 \<Rightarrow> u32 \<Rightarrow> 'c \<Rightarrow> 'c" and put_buffer :: "bytes \<Rightarrow> 'c \<Rightarrow> 'c"
    and process :: "'c \<Rightarrow> bytes \<Rightarrow> 'c" and compress :: "u32 list \<Rightarrow> bytes \<Rightarrow> u32 list"
    and update :: "'c \<Rightarrow> bytes \<Rightarrow> nat \<Rightarrow> 'c option"
  assumes put_total_laws: "total0 (put_total a b c) = a" "total1 (put_total a b c) = b"
      "hstate (put_total a b c) = hstate c" "buffer (put_total a b c) = buffer c"
      "ready (put_total a b c) = ready c"
    and put_buffer_laws: "total0 (put_buffer x c) = total0 c" "total1 (put_buffer x c) = total1 c"
      "hstate (put_buffer x c) = hstate c" "buffer (put_buffer x c) = x"
      "ready (put_buffer x c) = ready c"
    and process_laws: "total0 (process c blk) = total0 c" "total1 (process c blk) = total1 c"
      "hstate (process c blk) = compress (hstate c) blk" "buffer (process c blk) = buffer c"
      "ready (process c blk) = ready c"
    and update_code: "update c input ilen = (if ilen = 0 then Some c else
      let left = unat (total0 c AND 0x3F); fill = 64 - left;
          t0 = total0 c + of_nat ilen;
          c = put_total t0 (if t0 < of_nat ilen then total1 c + 1 else total1 c) c in do {
        (c, input, ilen, left) \<leftarrow>
          (if left \<noteq> 0 \<and> ilen \<ge> fill then do {
             x \<leftarrow> load_n input 0 fill;
             b \<leftarrow> store_n (buffer c) left x;
             Some (process (put_buffer b c) b, drop fill input, ilen - fill, 0) }
           else Some (c, input, ilen, left));
        (c, input, ilen) \<leftarrow> while_blocks process c input ilen;
        (if ilen > 0 then do {
           x \<leftarrow> load_n input 0 ilen;
           b \<leftarrow> store_n (buffer c) left x;
           Some (put_buffer b c) }
         else Some c) })"
begin

text \<open>\<open>c\<close> has absorbed the message \<open>m\<close> from the initial value \<open>iv\<close>.\<close>

definition absorbed :: "u32 list \<Rightarrow> 'c \<Rightarrow> bytes \<Rightarrow> bool" where
  "absorbed iv c m \<longleftrightarrow> hstate c = md_absorb compress iv m \<and> length (buffer c) = 64 \<and> ready c
     \<and> take (length m mod 64) (buffer c) = md_rest m
     \<and> unat (total1 c) * 2 ^ 32 + unat (total0 c) = length m mod 2 ^ 64"

lemma absorbed_left: "absorbed iv c m \<Longrightarrow> unat (total0 c AND 0x3F) = length m mod 64"
proof -
  assume "absorbed iv c m"
  then have "(unat (total1 c) * 2 ^ 32 + unat (total0 c)) mod 64 = length m mod 2 ^ 64 mod 64"
    by (simp only: absorbed_def)
  moreover have "(unat (total1 c) * 2 ^ 32 + unat (total0 c)) mod 64 = unat (total0 c) mod 64"
    using mod_mult_self1 [of "unat (total0 c)" "unat (total1 c) * 67108864" 64] by (simp add: add.commute mult.assoc)
  moreover have "length m mod 2 ^ 64 mod 64 = length m mod 64"
    by (rule mod_mod_cancel) simp
  moreover have "total0 c AND 0x3F = take_bit 6 (total0 c)" by (simp add: take_bit_eq_mask mask_eq_exp_minus_1)
  ultimately show ?thesis by (simp add: unsigned_take_bit_eq) (simp add: take_bit_eq_mod)
qed

lemma carry_count:
  assumes "unat t1 * 2 ^ 32 + unat (t0 :: u32) = n mod 2 ^ 64" "k < 2 ^ 32"
  shows "unat (if t0 + of_nat k < (of_nat k :: u32) then t1 + 1 else (t1 :: u32)) * 2 ^ 32 + unat (t0 + of_nat k)
     = (n + k) mod 2 ^ 64"
proof -
  have b: "unat t0 < 2 ^ 32" "unat t1 < 2 ^ 32"
    using unsigned_less [of t0, where 'a = nat] unsigned_less [of t1, where 'a = nat] by simp_all
  have k: "unat (of_nat k :: u32) = k" using assms(2) by (simp add: unat_of_nat take_bit_nat_eq_self)
  have s: "unat (t0 + of_nat k) = (unat t0 + k) mod 2 ^ 32" by (simp only: unat_word_ariths k) simp
  have u: "unat (t1 + 1) = (unat t1 + 1) mod 2 ^ 32" by (simp only: unat_word_ariths) simp
  have c: "t0 + of_nat k < (of_nat k :: u32) \<longleftrightarrow> unat t0 + k \<ge> 2 ^ 32"
    unfolding word_less_nat_alt s k using b(1) assms(2)
    by (cases "unat t0 + k < 2 ^ 32") (auto simp: mod_if)
  have "(n + k) mod 2 ^ 64 = (unat t1 * 2 ^ 32 + unat t0 + k) mod 2 ^ 64"
    unfolding assms(1) by (simp add: mod_add_left_eq)
  also have "\<dots> = (if unat t0 + k \<ge> 2 ^ 32 then (unat t1 + 1) mod 2 ^ 32 else unat t1) * 2 ^ 32 + (unat t0 + k) mod 2 ^ 32"
    using carry_arith [of "unat t1" "unat t0 + k"] b assms(2) by (simp add: add.assoc)
  finally show ?thesis unfolding s c using u by simp
qed

lemma absorbed_start: "hstate c = iv \<Longrightarrow> total0 c = 0 \<Longrightarrow> total1 c = 0 \<Longrightarrow> length (buffer c) = 64 \<Longrightarrow> ready c \<Longrightarrow> absorbed iv c []"
  by (simp add: absorbed_def md_absorb_short)

text \<open>The last statement of the update: the bytes that do not fill a block go to the buffer.\<close>

lemma tail_store:
  assumes "length (buffer c) = 64" "l + length y \<le> 64"
  shows "\<exists>c'. (if length y > 0 then load_n (y @ rest) 0 (length y) \<bind> (\<lambda>x. store_n (buffer c) l x \<bind> (\<lambda>b. Some (put_buffer b c)))
      else Some c) = Some c' \<and> total0 c' = total0 c \<and> total1 c' = total1 c \<and> hstate c' = hstate c
    \<and> ready c' = ready c \<and> length (buffer c') = 64 \<and> take (l + length y) (buffer c') = take l (buffer c) @ y"
  using assms by (cases y) (auto simp: load_n_def store_n_def put_buffer_laws min_def)

lemma blocks_and_tail:
  assumes "length (buffer c) = 64" "l + length x mod 64 \<le> 64"
  shows "\<exists>c'. (do {
        (c, input, ilen) \<leftarrow> while_blocks process c (x @ rest) (length x);
        (if ilen > 0 then do {
           x \<leftarrow> load_n input 0 ilen;
           b \<leftarrow> store_n (buffer c) l x;
           Some (put_buffer b c) }
         else Some c) }) = Some c' \<and> total0 c' = total0 c \<and> total1 c' = total1 c
      \<and> hstate c' = md_absorb compress (hstate c) x \<and> ready c' = ready c \<and> length (buffer c') = 64
      \<and> take (l + length x mod 64) (buffer c') = take l (buffer c) @ md_rest x"
proof -
  obtain c1 where c1: "while_blocks process c (x @ rest) (length x) = Some (c1, md_rest x @ rest, length x mod 64)"
    "hstate c1 = md_absorb compress (hstate c) x" "(total0 c1, total1 c1, buffer c1, ready c1) = (total0 c, total1 c, buffer c, ready c)"
    using while_blocks_spec [of hstate process compress "\<lambda>c. (total0 c, total1 c, buffer c, ready c)" c x rest]
    by (auto simp: process_laws)
  have "length (buffer c1) = 64" "l + length (md_rest x) \<le> 64" using c1(3) assms by simp_all
  from tail_store [OF this, of rest] c1 show ?thesis
    unfolding length_md_rest by (simp only: prod.inject Option.bind.bind_lunit prod.case)
qed

lemma update_absorbs:
  assumes c: "absorbed iv c m" and x: "length x < 2 ^ 32"
  shows "\<exists>c'. update c (x @ rest) (length x) = Some c' \<and> absorbed iv c' (m @ x)"
proof (cases "x = []")
  case True
  with c show ?thesis by (simp add: update_code)
next
  case False
  let ?l = "length m mod 64"
  let ?t0 = "total0 c + of_nat (length x)"
  define C where "C = put_total ?t0 (if ?t0 < of_nat (length x) then total1 c + 1 else total1 c) c"
  have c': "hstate C = md_absorb compress iv m" "length (buffer C) = 64" "take ?l (buffer C) = md_rest m" "ready C"
    using c by (simp_all add: absorbed_def put_total_laws C_def)
  have tot: "unat (total1 C) * 2 ^ 32 + unat (total0 C) = length (m @ x) mod 2 ^ 64"
    using carry_count [OF _ x, of "total1 c" "total0 c" "length m"] c by (simp add: absorbed_def put_total_laws C_def)
  have upd: "update c (x @ rest) (length x) = do {
        (c, input, ilen, left) \<leftarrow>
          (if ?l \<noteq> 0 \<and> length x \<ge> 64 - ?l then do {
             y \<leftarrow> load_n (x @ rest) 0 (64 - ?l);
             b \<leftarrow> store_n (buffer C) ?l y;
             Some (process (put_buffer b C) b, drop (64 - ?l) (x @ rest), length x - (64 - ?l), 0) }
           else Some (C, x @ rest, length x, ?l));
        (c, input, ilen) \<leftarrow> while_blocks process c input ilen;
        (if ilen > 0 then do {
           x \<leftarrow> load_n input 0 ilen;
           b \<leftarrow> store_n (buffer c) left x;
           Some (put_buffer b c) }
         else Some c) }"
    by (simp only: update_code Let_def C_def absorbed_left [OF c] length_0_conv False if_False)
  have app: "md_absorb compress iv (m @ x) = md_absorb compress (md_absorb compress iv m) (md_rest m @ x)"
    "md_rest (m @ x) = md_rest (md_rest m @ x)"
    by (rule md_absorb_append, rule md_rest_append)
  show ?thesis
  proof (cases "?l \<noteq> 0 \<and> length x \<ge> 64 - ?l")
    case True
    obtain x1 x2 where x12: "x = x1 @ x2" "length x1 = 64 - ?l"
      using True by (metis append_take_drop_id length_take min.absorb2)
    let ?b = "md_rest m @ x1"
    have lb: "length ?b = 64" using x12 mod_less_divisor [of 64 "length m"] by simp
    have "store_n (buffer C) ?l x1 = Some ?b" using c' x12 lb by (simp add: store_n_def)
    moreover have "load_n (x @ rest) 0 (64 - ?l) = Some x1" "drop (64 - ?l) (x @ rest) = x2 @ rest"
      "length x - (64 - ?l) = length x2"
      unfolding x12(2) [symmetric] x12(1) by (simp_all add: load_n_def)
    ultimately have u: "update c (x @ rest) (length x) = do {
        (c, input, ilen) \<leftarrow> while_blocks process (process (put_buffer ?b C) ?b) (x2 @ rest) (length x2);
        (if ilen > 0 then do {
           x \<leftarrow> load_n input 0 ilen;
           b \<leftarrow> store_n (buffer c) 0 x;
           Some (put_buffer b c) }
         else Some c) }"
      unfolding upd using True by (simp only: not_False_eq_True simp_thms if_True Option.bind.bind_lunit prod.case)
    have "length (buffer (process (put_buffer ?b C) ?b)) = 64" using lb by (simp add: process_laws put_buffer_laws)
    then obtain c2 where c2: "update c (x @ rest) (length x) = Some c2" "total0 c2 = total0 C" "total1 c2 = total1 C" "ready c2"
      "hstate c2 = md_absorb compress (compress (hstate C) ?b) x2" "length (buffer c2) = 64"
      "take (length x2 mod 64) (buffer c2) = md_rest x2"
      using blocks_and_tail [of "process (put_buffer ?b C) ?b" 0 x2 rest] mod_less_divisor [of 64 "length x2"]
      unfolding u using c'(4) by (auto simp: process_laws put_buffer_laws less_imp_le)
    have r: "md_rest (m @ x) = md_rest x2" "md_absorb compress iv (m @ x) = hstate c2"
      unfolding app c2(5) c'(1) unfolding x12(1)
      using md_rest_block [OF lb, of x2] md_absorb_block [OF lb, of compress "md_absorb compress iv m" x2]
      by (simp_all only: append_assoc)
    moreover have "length (m @ x) mod 64 = length x2 mod 64" using r(1) by (metis length_md_rest)
    ultimately have "absorbed iv c2 (m @ x)" using c2 tot by (simp only: absorbed_def simp_thms)
    with c2(1) show ?thesis by blast
  next
    case F: False
    then have s: "?l = 0 \<or> ?l + length x < 64" by auto
    then have r: "md_absorb compress (md_absorb compress iv m) x = md_absorb compress iv (m @ x)"
        "md_rest m @ md_rest x = md_rest (m @ x)"
      unfolding app by (auto simp: md_absorb_short md_rest_empty)
    have "?l + length x mod 64 \<le> 64" using s mod_less_divisor [of 64 "length x"] by auto
    then obtain c2 where c2: "update c (x @ rest) (length x) = Some c2" "total0 c2 = total0 C" "total1 c2 = total1 C" "ready c2"
      "hstate c2 = md_absorb compress (hstate C) x" "length (buffer c2) = 64"
      "take (?l + length x mod 64) (buffer c2) = take ?l (buffer C) @ md_rest x"
      using blocks_and_tail [OF c'(2), of ?l x rest]
      unfolding upd if_not_P [OF F] Option.bind.bind_lunit prod.case using c'(4) by blast
    have "?l + length x mod 64 = length (m @ x) mod 64" using r(2) by (metis length_md_rest length_append)
    then have "absorbed iv c2 (m @ x)" using c2 tot r c' by (simp only: absorbed_def simp_thms)
    with c2(1) show ?thesis by blast
  qed
qed

end

section \<open>The contract of the finish functions\<close>

text \<open>The code of a finish function: the length words \<open>high\<close> and \<open>low\<close>, padded by two updates,
  then the state written out.  \<open>len_words\<close> is the order the length words are written in.\<close>

locale md_finish_code = md_code total0 total1 hstate buffer ready put_total put_buffer process compress update
  for total0 total1 :: "'c \<Rightarrow> u32" and hstate buffer ready put_total put_buffer process compress update +
  fixes finish :: "'c \<Rightarrow> bytes \<Rightarrow> ('c \<times> bytes) option" and len_words :: "u32 \<Rightarrow> u32 \<Rightarrow> bytes"
    and write_out :: "'c \<Rightarrow> bytes \<Rightarrow> bytes option"
    and enc64 :: "nat \<Rightarrow> bytes" and digest :: "u32 list \<Rightarrow> bytes" and dlen :: nat and iv :: "u32 list"
    and wf :: "u32 list \<Rightarrow> bool"
  assumes finish_code: "finish c outp =
      (let high = drop_bit 29 (total0 c) OR push_bit 3 (total1 c); low = push_bit 3 (total0 c);
           last = unat (total0 c AND 0x3F); padn = (if last < 56 then 56 - last else 120 - last) in do {
        c \<leftarrow> update c md_padding padn;
        c \<leftarrow> update c (len_words high low) 8;
        outp \<leftarrow> write_out c outp;
        Some (c, outp) })"
    and write_out_digest: "wf (hstate c) \<Longrightarrow> ready c \<Longrightarrow> dlen \<le> length outp \<Longrightarrow>
        write_out c outp = Some (digest (hstate c) @ drop dlen outp)"
    and len_words_enc: "len_words high low = enc64 (unat high * 2 ^ 32 + unat low)"
    and enc64_length: "length (enc64 n) = 8"
    and wf_iv: "wf iv" and wf_compress: "wf s \<Longrightarrow> wf (compress s b)"
    and digest_length: "wf s \<Longrightarrow> length (digest s) = dlen"
begin

lemma wf_absorb: "wf s \<Longrightarrow> wf (md_absorb compress s m)"
proof (induction "length m" arbitrary: s m rule: less_induct)
  case less
  then show ?case using wf_compress by (subst md_absorb.simps) auto
qed

lemma length_md_hash: "length (md_hash compress iv enc64 digest m) = dlen"
  by (simp add: md_hash_def digest_length wf_absorb wf_iv)

lemma finish_hash:
  assumes c: "absorbed iv c m" and o: "dlen \<le> length outp"
  shows "\<exists>c'. finish c outp = Some (c', md_hash compress iv enc64 digest m @ drop dlen outp)"
proof -
  let ?l = "length m mod 64"
  let ?n = "if ?l < 56 then 56 - ?l else 120 - ?l"
  let ?high = "drop_bit 29 (total0 c) OR push_bit 3 (total1 c)" let ?low = "push_bit 3 (total0 c)"
  have l: "?l < 64" by simp
  have n: "?n \<le> 64" by auto
  then have pad: "md_padding = take ?n md_padding @ drop ?n md_padding" "length (take ?n md_padding) = ?n"
    by (simp_all add: md_padding_def del: take_Cons_numeral)
  obtain c1 where c1: "update c md_padding ?n = Some c1" "absorbed iv c1 (m @ take ?n md_padding)"
    using update_absorbs [OF c, of "take ?n md_padding" "drop ?n md_padding"] pad n by auto
  have w: "len_words ?high ?low = enc64 (8 * length m mod 2 ^ 64)"
    using c bit_count_words [of "total1 c" "total0 c" "length m"] by (simp add: len_words_enc absorbed_def)
  obtain c2 where c2: "update c1 (len_words ?high ?low) 8 = Some c2" "absorbed iv c2 (m @ md_pad enc64 (length m))"
    using update_absorbs [OF c1(2), of "enc64 (8 * length m mod 2 ^ 64)" "[]"]
    by (auto simp: enc64_length w md_pad_def)
  have "wf (hstate c2)" "ready c2" using c2(2) by (simp_all add: absorbed_def wf_absorb wf_iv)
  then have "finish c outp = Some (c2, digest (hstate c2) @ drop dlen outp)"
    using c1(1) c2(1) o absorbed_left [OF c] by (simp add: finish_code write_out_digest Let_def)
  then show ?thesis using c2(2) by (simp add: absorbed_def md_hash_def)
qed

text \<open>One pass over a list of inputs, as the one-shot and the HMAC functions make it.\<close>

lemma pass_hash:
  assumes "absorbed iv c []" "length x < 2 ^ 32" "length y < 2 ^ 32" "dlen \<le> length outp"
  shows "\<exists>c'. (update c (x @ rx) (length x) \<bind> (\<lambda>c. update c (y @ ry) (length y) \<bind> (\<lambda>c. finish c outp)))
     = Some (c', md_hash compress iv enc64 digest (x @ y) @ drop dlen outp)"
proof -
  obtain c1 where c1: "update c (x @ rx) (length x) = Some c1" "absorbed iv c1 x"
    using update_absorbs [OF assms(1,2)] by auto
  obtain c2 where "update c1 (y @ ry) (length y) = Some c2" "absorbed iv c2 (x @ y)"
    using update_absorbs [OF c1(2) assms(3)] by auto
  with c1 finish_hash [OF _ assms(4)] show ?thesis by auto
qed

lemma one_shot_hash:
  assumes "absorbed iv c []" "length x < 2 ^ 32" "dlen \<le> length outp"
  shows "\<exists>c'. (update c (x @ rx) (length x) \<bind> (\<lambda>c. finish c outp))
     = Some (c', md_hash compress iv enc64 digest x @ drop dlen outp)"
  using pass_hash [OF assms(1,2) _ assms(3), of "[]" rx "[]"] by (simp add: update_code)

text \<open>The two passes of HMAC.\<close>

lemma hmac_passes:
  assumes c: "absorbed iv c []" and k: "length key \<le> 64" and m: "length msg < 2 ^ 32"
    and o: "length outp = dlen" and d: "dlen < 2 ^ 32"
  shows "\<exists>c'. (do {
      k_ipad \<leftarrow> hmac_pad 0x36 key;
      k_opad \<leftarrow> hmac_pad 0x5c key;
      c1 \<leftarrow> update c k_ipad 64;
      c1 \<leftarrow> update c1 (msg @ rest) (length msg);
      (c1, out1) \<leftarrow> finish c1 outp;
      c2 \<leftarrow> update c k_opad 64;
      c2 \<leftarrow> update c2 out1 dlen;
      finish c2 out1 }) = Some (c', hmac (md_hash compress iv enc64 digest) key msg)"
proof -
  let ?H = "md_hash compress iv enc64 digest"
  let ?i = "hmac_key 0x36 key @ msg"
  note lk = length_hmac_key [OF k]
  obtain c1 where "(update c (hmac_key 0x36 key) 64 \<bind> (\<lambda>c. update c (msg @ rest) (length msg) \<bind> (\<lambda>c. finish c outp)))
     = Some (c1, ?H ?i)"
    using pass_hash [OF c _ m, of "hmac_key 0x36 key" outp "[]" rest] lk o by auto
  moreover obtain c2 where "(update c (hmac_key 0x5c key) 64 \<bind> (\<lambda>c. update c (?H ?i) dlen \<bind> (\<lambda>c. finish c (?H ?i))))
     = Some (c2, ?H (hmac_key 0x5c key @ ?H ?i))"
    using pass_hash [OF c, of "hmac_key 0x5c key" "?H ?i" "?H ?i" "[]" "[]"] lk d by (auto simp: length_md_hash)
  ultimately show ?thesis
    by (auto simp: hmac_pad_key [OF k] hmac_def split: option.splits bind_splits)
qed

end

end
