(* ===== verification/Infra_SHA256.thy ===== *)
theory Infra_SHA256
  imports Infra_Hash
begin

text \<open>
  \<open>src/eng/infra/infra_sha256.c\<close>: the context, the block function, update, finish, the one-shot
  hash and HMAC, statement by statement; the definition of SHA-256 after FIPS 180-4; and that
  the code computes it.  The build defines \<open>INFRA_SHA256_SMALLER\<close>, so the block function is
  the loop of 64 rounds.
\<close>

section \<open>The code\<close>

record iot_sha256_context =
  sha256_total0 :: u32
  sha256_total1 :: u32
  sha256_state :: "u32 list"
  sha256_buffer :: bytes
  sha256_is224 :: int

text \<open>\<open>memset\<close> of the context to zero bytes.\<close>

definition utils_sha256_init :: "iot_sha256_context \<Rightarrow> iot_sha256_context" where
  "utils_sha256_init ctx = \<lparr>sha256_total0 = 0, sha256_total1 = 0, sha256_state = replicate 8 0,
     sha256_buffer = replicate 64 0, sha256_is224 = 0\<rparr>"

definition utils_sha256_zeroize :: "iot_sha256_context \<Rightarrow> iot_sha256_context" where
  "utils_sha256_zeroize ctx = \<lparr>sha256_total0 = 0, sha256_total1 = 0, sha256_state = replicate 8 0,
     sha256_buffer = replicate 64 0, sha256_is224 = 0\<rparr>"

definition utils_sha256_free :: "iot_sha256_context option \<Rightarrow> iot_sha256_context option" where
  "utils_sha256_free ctx = (case ctx of None \<Rightarrow> None | Some c \<Rightarrow> Some (utils_sha256_zeroize c))"

definition sha256_iv :: "u32 list" where
  "sha256_iv = [0x6A09E667, 0xBB67AE85, 0x3C6EF372, 0xA54FF53A, 0x510E527F, 0x9B05688C, 0x1F83D9AB, 0x5BE0CD19]"

definition utils_sha256_starts :: "iot_sha256_context \<Rightarrow> iot_sha256_context" where
  "utils_sha256_starts ctx = ctx\<lparr>sha256_total0 := 0, sha256_total1 := 0, sha256_state := sha256_iv, sha256_is224 := 0\<rparr>"

definition K256 :: "u32 list" where
  "K256 = [
    0x428A2F98, 0x71374491, 0xB5C0FBCF, 0xE9B5DBA5,
    0x3956C25B, 0x59F111F1, 0x923F82A4, 0xAB1C5ED5,
    0xD807AA98, 0x12835B01, 0x243185BE, 0x550C7DC3,
    0x72BE5D74, 0x80DEB1FE, 0x9BDC06A7, 0xC19BF174,
    0xE49B69C1, 0xEFBE4786, 0x0FC19DC6, 0x240CA1CC,
    0x2DE92C6F, 0x4A7484AA, 0x5CB0A9DC, 0x76F988DA,
    0x983E5152, 0xA831C66D, 0xB00327C8, 0xBF597FC7,
    0xC6E00BF3, 0xD5A79147, 0x06CA6351, 0x14292967,
    0x27B70A85, 0x2E1B2138, 0x4D2C6DFC, 0x53380D13,
    0x650A7354, 0x766A0ABB, 0x81C2C92E, 0x92722C85,
    0xA2BFE8A1, 0xA81A664B, 0xC24B8B70, 0xC76C51A3,
    0xD192E819, 0xD6990624, 0xF40E3585, 0x106AA070,
    0x19A4C116, 0x1E376C08, 0x2748774C, 0x34B0BCB5,
    0x391C0CB3, 0x4ED8AA4A, 0x5B9CCA4F, 0x682E6FF3,
    0x748F82EE, 0x78A5636F, 0x84C87814, 0x8CC70208,
    0x90BEFFFA, 0xA4506CEB, 0xBEF9A3F7, 0xC67178F2]"

definition SHR :: "u32 \<Rightarrow> nat \<Rightarrow> u32" where
  "SHR x n = drop_bit n (x AND 0xFFFFFFFF)"

definition ROTR :: "u32 \<Rightarrow> nat \<Rightarrow> u32" where
  "ROTR x n = (SHR x n OR push_bit (32 - n) x)"

definition sha256_S0 :: "u32 \<Rightarrow> u32" where "sha256_S0 x = (ROTR x 7 XOR ROTR x 18 XOR SHR x 3)"
definition sha256_S1 :: "u32 \<Rightarrow> u32" where "sha256_S1 x = (ROTR x 17 XOR ROTR x 19 XOR SHR x 10)"
definition sha256_S2 :: "u32 \<Rightarrow> u32" where "sha256_S2 x = (ROTR x 2 XOR ROTR x 13 XOR ROTR x 22)"
definition sha256_S3 :: "u32 \<Rightarrow> u32" where "sha256_S3 x = (ROTR x 6 XOR ROTR x 11 XOR ROTR x 25)"

definition sha256_F0 :: "u32 \<Rightarrow> u32 \<Rightarrow> u32 \<Rightarrow> u32" where
  "sha256_F0 x y z = ((x AND y) OR (z AND (x OR y)))"

definition sha256_F1 :: "u32 \<Rightarrow> u32 \<Rightarrow> u32 \<Rightarrow> u32" where
  "sha256_F1 x y z = (z XOR (x AND (y XOR z)))"

text \<open>The macro \<open>R(t)\<close>: one more word of the schedule.\<close>

definition sha256_R :: "u32 list \<Rightarrow> nat \<Rightarrow> u32 list" where
  "sha256_R W t = W[t := sha256_S1 (W ! (t - 2)) + W ! (t - 7) + sha256_S0 (W ! (t - 15)) + W ! (t - 16)]"

text \<open>The macro \<open>P\<close> applied to \<open>A[0] \<dots> A[7]\<close>: \<open>d\<close> and \<open>h\<close> are updated in place.\<close>

definition sha256_P :: "u32 list \<Rightarrow> u32 \<Rightarrow> u32 \<Rightarrow> u32 list" where
  "sha256_P A x K = (
     let temp1 = A ! 7 + sha256_S3 (A ! 4) + sha256_F1 (A ! 4) (A ! 5) (A ! 6) + K + x;
         temp2 = sha256_S2 (A ! 0) + sha256_F0 (A ! 0) (A ! 1) (A ! 2)
     in A[3 := A ! 3 + temp1, 7 := temp1 + temp2])"

text \<open>One iteration of the loop over \<open>i\<close>: a word of the schedule, \<open>P\<close>, the shift of \<open>A\<close>.\<close>

definition sha256_iter :: "bytes \<Rightarrow> u32 list \<times> u32 list \<Rightarrow> nat \<Rightarrow> u32 list \<times> u32 list" where
  "sha256_iter data WA i = (
     let W = fst WA; A = snd WA;
         W = (if i < 16 then W[i := GET_UINT32_BE data (4 * i)] else sha256_R W i);
         A = sha256_P A (W ! i) (K256 ! i);
         temp1 = A ! 7
     in (W, [temp1, A ! 0, A ! 1, A ! 2, A ! 3, A ! 4, A ! 5, A ! 6]))"

definition sha256_rounds :: "u32 list \<Rightarrow> bytes \<Rightarrow> nat \<Rightarrow> u32 list \<times> u32 list" where
  "sha256_rounds st data n = foldl (sha256_iter data) (replicate 64 0, take 8 st) [0..<n]"

definition sha256_block :: "u32 list \<Rightarrow> bytes \<Rightarrow> u32 list" where
  "sha256_block st data = map2 (+) st (snd (sha256_rounds st data 64))"

definition utils_sha256_process :: "iot_sha256_context \<Rightarrow> bytes \<Rightarrow> iot_sha256_context" where
  "utils_sha256_process ctx data = ctx\<lparr>sha256_state := sha256_block (sha256_state ctx) data\<rparr>"

definition utils_sha256_update :: "iot_sha256_context \<Rightarrow> bytes \<Rightarrow> nat \<Rightarrow> iot_sha256_context option" where
  "utils_sha256_update ctx input ilen = (if ilen = 0 then Some ctx else
     let left = unat (sha256_total0 ctx AND 0x3F);
         fill = 64 - left;
         t0 = sha256_total0 ctx + of_nat ilen;
         ctx = ctx\<lparr>sha256_total0 := t0,
                   sha256_total1 := (if t0 < of_nat ilen then sha256_total1 ctx + 1 else sha256_total1 ctx)\<rparr> in do {
       (ctx, input, ilen, left) \<leftarrow>
         (if left \<noteq> 0 \<and> ilen \<ge> fill then do {
            x \<leftarrow> load_n input 0 fill;
            b \<leftarrow> store_n (sha256_buffer ctx) left x;
            Some (utils_sha256_process (ctx\<lparr>sha256_buffer := b\<rparr>) b, drop fill input, ilen - fill, 0) }
          else Some (ctx, input, ilen, left));
       (ctx, input, ilen) \<leftarrow> while_blocks utils_sha256_process ctx input ilen;
       (if ilen > 0 then do {
          x \<leftarrow> load_n input 0 ilen;
          b \<leftarrow> store_n (sha256_buffer ctx) left x;
          Some (ctx\<lparr>sha256_buffer := b\<rparr>) }
        else Some ctx) })"

text \<open>The last statements of \<open>utils_sha256_finish\<close>: the digest words.\<close>

definition sha256_put_state :: "iot_sha256_context \<Rightarrow> bytes \<Rightarrow> bytes option" where
  "sha256_put_state ctx outp = do {
     outp \<leftarrow> put_words PUT_UINT32_BE (take 7 (sha256_state ctx)) outp 0;
     (if sha256_is224 ctx = 0 then PUT_UINT32_BE (sha256_state ctx ! 7) outp 28 else Some outp) }"

definition utils_sha256_finish :: "iot_sha256_context \<Rightarrow> bytes \<Rightarrow> (iot_sha256_context \<times> bytes) option" where
  "utils_sha256_finish ctx outp = (
     let high = drop_bit 29 (sha256_total0 ctx) OR push_bit 3 (sha256_total1 ctx);
         low = push_bit 3 (sha256_total0 ctx) in do {
       msglen \<leftarrow> PUT_UINT32_BE high (replicate 8 0) 0;
       msglen \<leftarrow> PUT_UINT32_BE low msglen 4;
       (let last = unat (sha256_total0 ctx AND 0x3F);
            padn = (if last < 56 then 56 - last else 120 - last) in do {
         ctx \<leftarrow> utils_sha256_update ctx md_padding padn;
         ctx \<leftarrow> utils_sha256_update ctx msglen 8;
         outp \<leftarrow> sha256_put_state ctx outp;
         Some (ctx, outp) }) })"

text \<open>The uninitialised local context is an arbitrary value.\<close>

definition utils_sha256 :: "iot_sha256_context \<Rightarrow> bytes \<Rightarrow> nat \<Rightarrow> bytes \<Rightarrow> bytes option" where
  "utils_sha256 junk input ilen outp = do {
     let ctx = utils_sha256_starts (utils_sha256_init junk);
     ctx \<leftarrow> utils_sha256_update ctx input ilen;
     (ctx, outp) \<leftarrow> utils_sha256_finish ctx outp;
     let ctx = utils_sha256_free (Some ctx);
     Some outp }"

text \<open>Null pointers and keys of more than 64 bytes leave the output as it is.\<close>

definition utils_hmac_sha256 ::
    "iot_sha256_context \<Rightarrow> bytes option \<Rightarrow> nat \<Rightarrow> bytes option \<Rightarrow> nat \<Rightarrow> bytes option \<Rightarrow> bytes option option" where
  "utils_hmac_sha256 junk msg msg_len key key_len outp = (case (msg, key, outp) of
     (Some msg, Some key, Some outp) \<Rightarrow>
       if key_len > 64 then Some (Some outp) else do {
         k \<leftarrow> load_n key 0 key_len;
         k_ipad \<leftarrow> hmac_pad 0x36 k;
         k_opad \<leftarrow> hmac_pad 0x5c k;
         let ctx = utils_sha256_starts (utils_sha256_init junk);
         ctx \<leftarrow> utils_sha256_update ctx k_ipad 64;
         ctx \<leftarrow> utils_sha256_update ctx msg msg_len;
         (ctx, outp) \<leftarrow> utils_sha256_finish ctx outp;
         let ctx = utils_sha256_starts (utils_sha256_init ctx);
         ctx \<leftarrow> utils_sha256_update ctx k_opad 64;
         ctx \<leftarrow> utils_sha256_update ctx outp 32;
         (ctx, outp) \<leftarrow> utils_sha256_finish ctx outp;
         Some (Some outp) }
   | _ \<Rightarrow> Some outp)"

section \<open>SHA-256 after FIPS 180-4\<close>

definition Ch :: "u32 \<Rightarrow> u32 \<Rightarrow> u32 \<Rightarrow> u32" where
  "Ch x y z = (x AND y) XOR (NOT x AND z)"

definition Maj :: "u32 \<Rightarrow> u32 \<Rightarrow> u32 \<Rightarrow> u32" where
  "Maj x y z = (x AND y) XOR (x AND z) XOR (y AND z)"

definition Sigma0 :: "u32 \<Rightarrow> u32" where "Sigma0 x = word_rotr 2 x XOR word_rotr 13 x XOR word_rotr 22 x"
definition Sigma1 :: "u32 \<Rightarrow> u32" where "Sigma1 x = word_rotr 6 x XOR word_rotr 11 x XOR word_rotr 25 x"
definition sigma0 :: "u32 \<Rightarrow> u32" where "sigma0 x = word_rotr 7 x XOR word_rotr 18 x XOR drop_bit 3 x"
definition sigma1 :: "u32 \<Rightarrow> u32" where "sigma1 x = word_rotr 17 x XOR word_rotr 19 x XOR drop_bit 10 x"

fun sha256_schedule :: "bytes \<Rightarrow> nat \<Rightarrow> u32" where
  "sha256_schedule M t = (if t < 16 then GET_UINT32_BE M (4 * t)
     else sigma1 (sha256_schedule M (t - 2)) + sha256_schedule M (t - 7)
        + sigma0 (sha256_schedule M (t - 15)) + sha256_schedule M (t - 16))"

declare sha256_schedule.simps [simp del]

text \<open>The working variables \<open>(a, b, c, d, e, f, g, h)\<close> as a list.\<close>

fun sha256_step :: "u32 \<Rightarrow> u32 \<Rightarrow> u32 list \<Rightarrow> u32 list" where
  "sha256_step K W [a, b, c, d, e, f, g, h] = (
     let T1 = h + Sigma1 e + Ch e f g + K + W; T2 = Sigma0 a + Maj a b c
     in [T1 + T2, a, b, c, d + T1, e, f, g])"
| "sha256_step K W v = v"

primrec sha256_work :: "bytes \<Rightarrow> u32 list \<Rightarrow> nat \<Rightarrow> u32 list" where
  "sha256_work M H 0 = H"
| "sha256_work M H (Suc t) = sha256_step (K256 ! t) (sha256_schedule M t) (sha256_work M H t)"

definition sha256_compress :: "u32 list \<Rightarrow> bytes \<Rightarrow> u32 list" where
  "sha256_compress H M = map2 (+) H (sha256_work M H 64)"

definition SHA256 :: "bytes \<Rightarrow> bytes" where
  "SHA256 = md_hash sha256_compress sha256_iv be64 words_be"

section \<open>The block function is the FIPS compression\<close>

lemma SHR_shift: "SHR x n = drop_bit n x"
  by (simp add: SHR_def and_all_ones)

lemma ROTR_rotate: "0 < n \<Longrightarrow> n < 32 \<Longrightarrow> ROTR x n = word_rotr n x"
proof (rule bit_word_eqI)
  fix k assume n: "0 < n" "n < 32" and "k < LENGTH(32)"
  then have k: "k < 32" by simp
  show "bit (ROTR x n) k = bit (word_rotr n x) k"
  proof (cases "k + n < 32")
    case True
    with n show ?thesis by (auto simp: ROTR_def SHR_shift bit_simps bit_word_rotr_iff add.commute)
  next
    case False
    with n k have "(k + n) mod 32 = k - (32 - n)" by (simp add: mod_if)
    with n k False show ?thesis by (auto simp: ROTR_def SHR_shift bit_simps bit_word_rotr_iff add.commute dest: bit_imp_le_length)
  qed
qed

lemma sha256_functions:
  "sha256_S0 x = sigma0 x" "sha256_S1 x = sigma1 x" "sha256_S2 x = Sigma0 x" "sha256_S3 x = Sigma1 x"
  "sha256_F0 x y z = Maj x y z" "sha256_F1 x y z = Ch x y z"
  by (simp_all add: sha256_S0_def sha256_S1_def sha256_S2_def sha256_S3_def sigma0_def sigma1_def Sigma0_def
      Sigma1_def ROTR_rotate SHR_shift)
    (rule bit_word_eqI, auto simp: sha256_F0_def sha256_F1_def Maj_def Ch_def bit_simps)+

lemma list_8: "length xs = 8 \<Longrightarrow> \<exists>a b c d e f g h. xs = [a, b, c, d, e, f, g, h]"
  by (auto simp: numeral_eq_Suc length_Suc_conv)

lemma sha256_iter_step:
  assumes A: "length A = 8" and W: "length W = 64" "\<And>j. j < i \<Longrightarrow> W ! j = sha256_schedule data j" and i: "i < 64"
  shows "\<exists>W'. sha256_iter data (W, A) i = (W', sha256_step (K256 ! i) (sha256_schedule data i) A)
     \<and> length W' = 64 \<and> (\<forall>j < Suc i. W' ! j = sha256_schedule data j)"
proof -
  obtain a b c d e f g h where abc: "A = [a, b, c, d, e, f, g, h]" using list_8 [OF A] by blast
  define W' where "W' = (if i < 16 then W[i := GET_UINT32_BE data (4 * i)] else sha256_R W i)"
  have Wi: "W' ! i = sha256_schedule data i"
    using W i by (subst sha256_schedule.simps) (simp add: W'_def sha256_R_def sha256_functions)
  have "W' ! j = sha256_schedule data j" if "j < Suc i" for j
    using that Wi W(2) by (cases "j = i") (auto simp: W'_def sha256_R_def)
  moreover have "sha256_iter data (W, A) i = (W', sha256_step (K256 ! i) (sha256_schedule data i) A)"
    using Wi unfolding sha256_iter_def by (simp add: abc Let_def sha256_P_def sha256_functions flip: W'_def)
  moreover have "length W' = 64" using W by (simp add: W'_def sha256_R_def)
  ultimately show ?thesis by blast
qed

lemma length_sha256_step [simp]: "length (sha256_step K W v) = length v"
  by (induction K W v rule: sha256_step.induct) (simp_all add: Let_def)

lemma length_sha256_work [simp]: "length (sha256_work M H n) = length H"
  by (induction n) simp_all

lemma sha256_rounds_work:
  "length st = 8 \<Longrightarrow> n \<le> 64 \<Longrightarrow> \<exists>W. sha256_rounds st data n = (W, sha256_work data st n)
     \<and> length W = 64 \<and> (\<forall>j < n. W ! j = sha256_schedule data j)"
proof (induction n)
  case 0
  then show ?case by (simp add: sha256_rounds_def)
next
  case (Suc n)
  then obtain W where W: "sha256_rounds st data n = (W, sha256_work data st n)" "length W = 64"
    "\<And>j. j < n \<Longrightarrow> W ! j = sha256_schedule data j" by auto
  have "sha256_rounds st data (Suc n) = sha256_iter data (sha256_rounds st data n) n"
    by (simp add: sha256_rounds_def)
  with W sha256_iter_step [of "sha256_work data st n" W n data] Suc.prems show ?case by auto
qed

lemma sha256_block_compress: "length st = 8 \<Longrightarrow> sha256_block st data = sha256_compress st data"
  using sha256_rounds_work [of st 64 data] by (auto simp: sha256_block_def sha256_compress_def)

lemma length_sha256_compress [simp]: "length (sha256_compress H M) = length H"
  by (simp add: sha256_compress_def)

lemma length_sha256_block [simp]: "length st = 8 \<Longrightarrow> length (sha256_block st data) = 8"
  by (simp add: sha256_block_compress)

section \<open>The streaming contract\<close>

lemma utils_sha256_process_fields:
  "sha256_total0 (utils_sha256_process c b) = sha256_total0 c" "sha256_total1 (utils_sha256_process c b) = sha256_total1 c"
  "sha256_state (utils_sha256_process c b) = sha256_block (sha256_state c) b"
  "sha256_buffer (utils_sha256_process c b) = sha256_buffer c"
  "sha256_is224 (utils_sha256_process c b) = sha256_is224 c"
  by (simp_all add: utils_sha256_process_def)

interpretation sha256c: md_code sha256_total0 sha256_total1 sha256_state sha256_buffer "\<lambda>c. sha256_is224 c = 0"
    "\<lambda>a b c. c\<lparr>sha256_total0 := a, sha256_total1 := b\<rparr>" "\<lambda>x c. c\<lparr>sha256_buffer := x\<rparr>"
    utils_sha256_process sha256_block utils_sha256_update
  by unfold_locales (simp_all add: utils_sha256_process_fields utils_sha256_update_def Let_def)

lemma sha256_output:
  assumes "length st = 8" "32 \<le> length outp"
  shows "(put_words PUT_UINT32_BE (take 7 st) outp 0 \<bind> (\<lambda>outp. PUT_UINT32_BE (st ! 7) outp 28))
    = Some (words_be st @ drop 32 outp)"
proof -
  have st: "st = take 7 st @ [st ! 7]"
    using assms(1) take_Suc_conv_app_nth [of 7 st] by simp
  have "put_words PUT_UINT32_BE st outp 0 = Some (words_be st @ drop 32 outp)"
    using assms by (simp add: put_words_be)
  moreover have "put_words PUT_UINT32_BE (take 7 st @ [st ! 7]) outp 0
     = put_words PUT_UINT32_BE (take 7 st) outp 0 \<bind> (\<lambda>outp. PUT_UINT32_BE (st ! 7) outp 28)"
    using assms(1) by (simp add: put_words_append)
  ultimately show ?thesis using st by simp
qed

interpretation sha256f: md_finish_code sha256_total0 sha256_total1 sha256_state sha256_buffer "\<lambda>c. sha256_is224 c = 0"
    "\<lambda>a b c. c\<lparr>sha256_total0 := a, sha256_total1 := b\<rparr>" "\<lambda>x c. c\<lparr>sha256_buffer := x\<rparr>"
    utils_sha256_process sha256_block utils_sha256_update utils_sha256_finish "\<lambda>h l. be32 h @ be32 l"
    sha256_put_state be64 words_be 32 sha256_iv "\<lambda>s. length s = 8"
proof unfold_locales
  show "utils_sha256_finish c outp =
      (let high = drop_bit 29 (sha256_total0 c) OR push_bit 3 (sha256_total1 c); low = push_bit 3 (sha256_total0 c);
           last = unat (sha256_total0 c AND 0x3F); padn = (if last < 56 then 56 - last else 120 - last) in do {
        c \<leftarrow> utils_sha256_update c md_padding padn;
        c \<leftarrow> utils_sha256_update c (be32 high @ be32 low) 8;
        outp \<leftarrow> sha256_put_state c outp;
        Some (c, outp) })" for c outp
    unfolding utils_sha256_finish_def Let_def Option.bind_assoc [symmetric] put_length_be by simp
qed (simp_all add: be64_words sha256_iv_def sha256_put_state_def sha256_output)

lemma SHA256_block: "md_hash sha256_block sha256_iv be64 words_be = SHA256"
proof
  fix m
  have "md_absorb sha256_block sha256_iv x = md_absorb sha256_compress sha256_iv x" for x
    by (rule md_absorb_cong [where ok = "\<lambda>s. length s = 8"]) (simp_all add: sha256_block_compress sha256_iv_def)
  then show "md_hash sha256_block sha256_iv be64 words_be m = SHA256 m"
    by (simp add: SHA256_def md_hash_def)
qed

text \<open>The context after the two initialisation calls, whatever it held before.\<close>

definition sha256_fresh :: iot_sha256_context where
  "sha256_fresh = \<lparr>sha256_total0 = 0, sha256_total1 = 0, sha256_state = sha256_iv, sha256_buffer = replicate 64 0, sha256_is224 = 0\<rparr>"

lemma sha256_initialised: "utils_sha256_starts (utils_sha256_init c) = sha256_fresh"
  by (simp add: utils_sha256_starts_def utils_sha256_init_def sha256_fresh_def)

lemma sha256_start: "sha256c.absorbed sha256_iv sha256_fresh []"
  by (rule sha256c.absorbed_start) (simp_all add: sha256_fresh_def)

text \<open>The first primes with the integer parts of their cube and square roots, and the condition
  that a word is the first 32 bits of the fractional part of the \<open>k\<close>-th root.\<close>

definition prime_cube_roots :: "(nat \<times> nat) list" where
  "prime_cube_roots = [
    (2, 1), (3, 1), (5, 1), (7, 1), (11, 2), (13, 2), (17, 2), (19, 2),
    (23, 2), (29, 3), (31, 3), (37, 3), (41, 3), (43, 3), (47, 3), (53, 3),
    (59, 3), (61, 3), (67, 4), (71, 4), (73, 4), (79, 4), (83, 4), (89, 4),
    (97, 4), (101, 4), (103, 4), (107, 4), (109, 4), (113, 4), (127, 5), (131, 5),
    (137, 5), (139, 5), (149, 5), (151, 5), (157, 5), (163, 5), (167, 5), (173, 5),
    (179, 5), (181, 5), (191, 5), (193, 5), (197, 5), (199, 5), (211, 5), (223, 6),
    (227, 6), (229, 6), (233, 6), (239, 6), (241, 6), (251, 6), (257, 6), (263, 6),
    (269, 6), (271, 6), (277, 6), (281, 6), (283, 6), (293, 6), (307, 6), (311, 6)]"

definition prime_square_roots :: "(nat \<times> nat) list" where
  "prime_square_roots = [(2, 1), (3, 1), (5, 2), (7, 2), (11, 3), (13, 3), (17, 4), (19, 4)]"

definition root_fraction :: "nat \<Rightarrow> nat \<times> nat \<Rightarrow> u32 \<Rightarrow> bool" where
  "root_fraction k pr w = ((snd pr * 2 ^ 32 + unat w) ^ k \<le> fst pr * 2 ^ (32 * k)
     \<and> fst pr * 2 ^ (32 * k) < (snd pr * 2 ^ 32 + unat w + 1) ^ k)"

section \<open>Properties\<close>

text \<open>C20. The one-shot hash is SHA-256 of FIPS 180-4: for every message of less than \<open>2 ^ 32\<close>
  bytes the call succeeds, reads nothing past the message, writes exactly the 32 digest bytes,
  and they are the digest the standard defines (schedule, rounds, padding, length).\<close>

theorem sha256_correct:
  assumes "length msg < 2 ^ 32" "32 \<le> length outp"
  shows "utils_sha256 junk (msg @ rest) (length msg) outp = Some (SHA256 msg @ drop 32 outp)"
proof -
  obtain c' where "(utils_sha256_update sha256_fresh (msg @ rest) (length msg)
      \<bind> (\<lambda>c. utils_sha256_finish c outp)) = Some (c', SHA256 msg @ drop 32 outp)"
    using sha256f.one_shot_hash [OF sha256_start assms] unfolding SHA256_block by blast
  then show ?thesis by (auto simp: utils_sha256_def sha256_initialised bind_eq_Some_conv)
qed

theorem sha256_correct_witness:
  "utils_sha256 (utils_sha256_init undefined) [97, 98, 99] 3 (replicate 32 0) = Some (SHA256 [97, 98, 99])"
  using sha256_correct [of "[97, 98, 99]" "replicate 32 0" "utils_sha256_init undefined" "[]"] by (simp add: numeral_3_eq_3)

text \<open>Streaming: however a message is cut into pieces, updating with the pieces and finishing
  gives the digest of the whole message; the block buffer is never overrun.\<close>

lemma sha256_streaming:
  assumes "\<forall>x \<in> set parts. length x < 2 ^ 32" "32 \<le> length outp"
  shows "\<exists>c. foldl (\<lambda>r x. r \<bind> (\<lambda>c. utils_sha256_update c x (length x)))
            (Some (utils_sha256_starts (utils_sha256_init junk))) parts = Some c
     \<and> length (sha256_buffer c) = 64
     \<and> (\<exists>c'. utils_sha256_finish c outp = Some (c', SHA256 (concat parts) @ drop 32 outp))"
proof -
  have "\<exists>c. foldl (\<lambda>r x. r \<bind> (\<lambda>c. utils_sha256_update c x (length x)))
            (Some (utils_sha256_starts (utils_sha256_init junk))) parts = Some c
     \<and> sha256c.absorbed sha256_iv c (concat parts)"
    using assms(1)
  proof (induction parts rule: rev_induct)
    case Nil
    then show ?case using sha256_start by (simp add: sha256_initialised)
  next
    case (snoc x xs)
    then show ?case using sha256c.update_absorbs [of sha256_iv _ "concat xs" x "[]"] by auto
  qed
  then show ?thesis
    using sha256f.finish_hash [OF _ assms(2)] unfolding SHA256_block by (auto simp: sha256c.absorbed_def)
qed

lemma hmac_sha256_value:
  assumes "length msg < 2 ^ 32" "length outp = 32" and k: "length key \<le> 64"
  shows "utils_hmac_sha256 junk (Some (msg @ mrest)) (length msg) (Some (key @ krest)) (length key) (Some outp) = Some (Some (hmac SHA256 key msg))"
proof -
  let ?c = sha256_fresh
  obtain c' where "(do {
    k_ipad \<leftarrow> hmac_pad 0x36 key;
    k_opad \<leftarrow> hmac_pad 0x5c key;
    c1 \<leftarrow> utils_sha256_update ?c k_ipad 64;
    c1 \<leftarrow> utils_sha256_update c1 (msg @ mrest) (length msg);
    (c1, out1) \<leftarrow> utils_sha256_finish c1 outp;
    c2 \<leftarrow> utils_sha256_update ?c k_opad 64;
    c2 \<leftarrow> utils_sha256_update c2 out1 32;
    utils_sha256_finish c2 out1 }) = Some (c', hmac SHA256 key msg)" (is "?passes = _")
    using sha256f.hmac_passes [OF sha256_start k assms(1,2)] unfolding SHA256_block by auto
  moreover have "utils_hmac_sha256 junk (Some (msg @ mrest)) (length msg) (Some (key @ krest)) (length key) (Some outp)
    = ?passes \<bind> (\<lambda>(ctx, outp). Some (Some outp))"
    using k by (simp add: utils_hmac_sha256_def load_n_def sha256_initialised case_prod_unfold)
  ultimately show ?thesis by simp
qed

text \<open>C38. \<open>utils_hmac_sha256\<close> is HMAC of RFC 2104 over SHA-256 for keys of at most 64 bytes, with
  the pads and the intermediate digest it keeps in the output buffer; a longer key (which the
  RFC hashes first) and null pointers leave the output untouched, without an error.\<close>

theorem hmac_sha256_correct:
  assumes "length msg < 2 ^ 32" "length outp = 32"
  shows "utils_hmac_sha256 junk (Some (msg @ mrest)) (length msg) (Some (key @ krest)) (length key) (Some outp)
     = Some (Some (if length key \<le> 64 then hmac SHA256 key msg else outp))
   \<and> (m = None \<or> k = None \<or> o' = None \<longrightarrow> utils_hmac_sha256 junk m ml k kl o' = Some o')"
proof -
  have "utils_hmac_sha256 junk m ml k kl o' = Some o'" if "m = None \<or> k = None \<or> o' = None"
    using that unfolding utils_hmac_sha256_def by (cases m; cases k; cases o') simp_all
  moreover have "utils_hmac_sha256 junk (Some (msg @ mrest)) (length msg) (Some (key @ krest)) (length key) (Some outp)
     = Some (Some outp)" if "\<not> length key \<le> 64"
    using that by (simp add: utils_hmac_sha256_def)
  ultimately show ?thesis using hmac_sha256_value [OF assms] by simp
qed

theorem hmac_sha256_correct_witness:
  "utils_hmac_sha256 undefined (Some [1]) 1 (Some [7]) 1 (Some (replicate 32 0)) = Some (Some (hmac SHA256 [7] [1]))"
  using hmac_sha256_correct [of "[1]" "replicate 32 0" undefined "[]" "[7]" "[]"] by simp

text \<open>The tables of the code are the constants of FIPS 180-4: the 64 round constants are the
  first 32 bits of the fractional parts of the cube roots of the first 64 primes, the initial
  state those of the square roots of the first eight.\<close>

lemma sha256_constants:
  "list_all2 (root_fraction 3) prime_cube_roots K256 \<and> list_all2 (root_fraction 2) prime_square_roots sha256_iv"
  by (simp add: root_fraction_def prime_cube_roots_def prime_square_roots_def K256_def sha256_iv_def)

end
