(* ===== verification/Infra_SHA1.thy ===== *)
theory Infra_SHA1
  imports Infra_Hash
begin

text \<open>
  \<open>src/eng/infra/infra_sha1.c\<close>: the context, the block function, update, finish, the one-shot
  hash and the two HMAC functions; SHA-1 after FIPS 180-4; and that the code computes it.
  The 80 unrolled calls of the macro \<open>P\<close> are the steps \<open>0 \<dots> 79\<close>: call \<open>t\<close> names the registers
  rotated \<open>t\<close> times, takes \<open>W[t]\<close> or \<open>R(t)\<close>, and the \<open>F\<close> and \<open>K\<close> in force at its place.
\<close>

section \<open>The code\<close>

record iot_sha1_context =
  sha1_total0 :: u32
  sha1_total1 :: u32
  sha1_state :: "u32 list"
  sha1_buffer :: bytes

definition utils_sha1_init :: "iot_sha1_context \<Rightarrow> iot_sha1_context" where
  "utils_sha1_init ctx = \<lparr>sha1_total0 = 0, sha1_total1 = 0, sha1_state = replicate 5 0, sha1_buffer = replicate 64 0\<rparr>"

definition utils_sha1_zeroize :: "iot_sha1_context \<Rightarrow> iot_sha1_context" where
  "utils_sha1_zeroize ctx = \<lparr>sha1_total0 = 0, sha1_total1 = 0, sha1_state = replicate 5 0, sha1_buffer = replicate 64 0\<rparr>"

definition utils_sha1_free :: "iot_sha1_context option \<Rightarrow> iot_sha1_context option" where
  "utils_sha1_free ctx = (case ctx of None \<Rightarrow> None | Some c \<Rightarrow> Some (utils_sha1_zeroize c))"

definition utils_sha1_clone :: "iot_sha1_context \<Rightarrow> iot_sha1_context \<Rightarrow> iot_sha1_context" where
  "utils_sha1_clone dst src = src"

definition sha1_iv :: "u32 list" where
  "sha1_iv = [0x67452301, 0xEFCDAB89, 0x98BADCFE, 0x10325476, 0xC3D2E1F0]"

definition utils_sha1_starts :: "iot_sha1_context \<Rightarrow> iot_sha1_context" where
  "utils_sha1_starts ctx = ctx\<lparr>sha1_total0 := 0, sha1_total1 := 0, sha1_state := sha1_iv\<rparr>"

text \<open>The macro \<open>R(t)\<close> on the circular schedule of 16 words.\<close>

definition sha1_R :: "u32 list \<Rightarrow> nat \<Rightarrow> u32 list" where
  "sha1_R W t = (
     let temp = W ! ((t - 3) mod 16) XOR W ! ((t - 8) mod 16) XOR W ! ((t - 14) mod 16) XOR W ! (t mod 16)
     in W[t mod 16 := rot_S temp 1])"

definition sha1_F :: "nat \<Rightarrow> u32 \<Rightarrow> u32 \<Rightarrow> u32 \<Rightarrow> u32" where
  "sha1_F t x y z =
     (if t < 20 then z XOR (x AND (y XOR z))
      else if t < 40 then x XOR y XOR z
      else if t < 60 then (x AND y) OR (z AND (x OR y))
      else x XOR y XOR z)"

definition sha1_K :: "nat \<Rightarrow> u32" where
  "sha1_K t = (if t < 20 then 0x5A827999 else if t < 40 then 0x6ED9EBA1 else if t < 60 then 0x8F1BBCDC else 0xCA62C1D6)"

text \<open>The macro \<open>P(a,b,c,d,e,x)\<close> on the registers \<open>A \<dots> E\<close>, which the five indices name.\<close>

definition sha1_P :: "nat \<Rightarrow> u32 list \<Rightarrow> nat \<Rightarrow> nat \<Rightarrow> nat \<Rightarrow> nat \<Rightarrow> nat \<Rightarrow> u32 \<Rightarrow> u32 list" where
  "sha1_P t r a b c d e x = (
     let r = r[e := r ! e + (rot_S (r ! a) 5 + sha1_F t (r ! b) (r ! c) (r ! d) + sha1_K t + x)]
     in r[b := rot_S (r ! b) 30])"

text \<open>The registers of call \<open>t\<close>: \<open>P(A,B,C,D,E)\<close>, \<open>P(E,A,B,C,D)\<close>, \<open>P(D,E,A,B,C)\<close> and so on.\<close>

definition sha1_reg :: "nat \<Rightarrow> nat \<Rightarrow> nat" where
  "sha1_reg t k = (k + 4 * t) mod 5"

definition sha1_call :: "u32 list \<times> u32 list \<Rightarrow> nat \<Rightarrow> u32 list \<times> u32 list" where
  "sha1_call WR t = (
     let W = (if t < 16 then fst WR else sha1_R (fst WR) t)
     in (W, sha1_P t (snd WR) (sha1_reg t 0) (sha1_reg t 1) (sha1_reg t 2) (sha1_reg t 3) (sha1_reg t 4) (W ! (t mod 16))))"

definition sha1_calls :: "u32 list \<Rightarrow> bytes \<Rightarrow> nat \<Rightarrow> u32 list \<times> u32 list" where
  "sha1_calls st data n = foldl sha1_call (map (\<lambda>i. GET_UINT32_BE data (4 * i)) [0..<16], take 5 st) [0..<n]"

definition sha1_block :: "u32 list \<Rightarrow> bytes \<Rightarrow> u32 list" where
  "sha1_block st data = map2 (+) st (snd (sha1_calls st data 80))"

definition utils_sha1_process :: "iot_sha1_context \<Rightarrow> bytes \<Rightarrow> iot_sha1_context" where
  "utils_sha1_process ctx data = ctx\<lparr>sha1_state := sha1_block (sha1_state ctx) data\<rparr>"

definition utils_sha1_update :: "iot_sha1_context \<Rightarrow> bytes \<Rightarrow> nat \<Rightarrow> iot_sha1_context option" where
  "utils_sha1_update ctx input ilen = (if ilen = 0 then Some ctx else
     let left = unat (sha1_total0 ctx AND 0x3F);
         fill = 64 - left;
         t0 = sha1_total0 ctx + of_nat ilen;
         ctx = ctx\<lparr>sha1_total0 := t0,
                   sha1_total1 := (if t0 < of_nat ilen then sha1_total1 ctx + 1 else sha1_total1 ctx)\<rparr> in do {
       (ctx, input, ilen, left) \<leftarrow>
         (if left \<noteq> 0 \<and> ilen \<ge> fill then do {
            x \<leftarrow> load_n input 0 fill;
            b \<leftarrow> store_n (sha1_buffer ctx) left x;
            Some (utils_sha1_process (ctx\<lparr>sha1_buffer := b\<rparr>) b, drop fill input, ilen - fill, 0) }
          else Some (ctx, input, ilen, left));
       (ctx, input, ilen) \<leftarrow> while_blocks utils_sha1_process ctx input ilen;
       (if ilen > 0 then do {
          x \<leftarrow> load_n input 0 ilen;
          b \<leftarrow> store_n (sha1_buffer ctx) left x;
          Some (ctx\<lparr>sha1_buffer := b\<rparr>) }
        else Some ctx) })"

definition sha1_put_state :: "iot_sha1_context \<Rightarrow> bytes \<Rightarrow> bytes option" where
  "sha1_put_state ctx outp = put_words PUT_UINT32_BE (take 5 (sha1_state ctx)) outp 0"

definition utils_sha1_finish :: "iot_sha1_context \<Rightarrow> bytes \<Rightarrow> (iot_sha1_context \<times> bytes) option" where
  "utils_sha1_finish ctx outp = (
     let high = drop_bit 29 (sha1_total0 ctx) OR push_bit 3 (sha1_total1 ctx);
         low = push_bit 3 (sha1_total0 ctx) in do {
       msglen \<leftarrow> PUT_UINT32_BE high (replicate 8 0) 0;
       msglen \<leftarrow> PUT_UINT32_BE low msglen 4;
       (let last = unat (sha1_total0 ctx AND 0x3F);
            padn = (if last < 56 then 56 - last else 120 - last) in do {
         ctx \<leftarrow> utils_sha1_update ctx md_padding padn;
         ctx \<leftarrow> utils_sha1_update ctx msglen 8;
         outp \<leftarrow> sha1_put_state ctx outp;
         Some (ctx, outp) }) })"

definition utils_sha1 :: "iot_sha1_context \<Rightarrow> bytes \<Rightarrow> nat \<Rightarrow> bytes \<Rightarrow> bytes option" where
  "utils_sha1 junk input ilen outp = do {
     let ctx = utils_sha1_starts (utils_sha1_init junk);
     ctx \<leftarrow> utils_sha1_update ctx input ilen;
     (ctx, outp) \<leftarrow> utils_sha1_finish ctx outp;
     let ctx = utils_sha1_free (Some ctx);
     Some outp }"

text \<open>The common body of the two HMAC functions up to the digest bytes in the local \<open>out[20]\<close>.
  The lengths are \<open>int\<close>: the message length is converted to \<open>uint32_t\<close> by the call of update.\<close>

definition hmac_sha1_out :: "iot_sha1_context \<Rightarrow> bytes \<Rightarrow> int \<Rightarrow> bytes \<Rightarrow> int \<Rightarrow> bytes option" where
  "hmac_sha1_out junk msg msg_len key key_len = do {
     k \<leftarrow> load_i key key_len;
     k_ipad \<leftarrow> hmac_pad 0x36 k;
     k_opad \<leftarrow> hmac_pad 0x5c k;
     let ctx = utils_sha1_starts (utils_sha1_init junk);
     ctx \<leftarrow> utils_sha1_update ctx k_ipad 64;
     ctx \<leftarrow> utils_sha1_update ctx msg (nat (to_u32 msg_len));
     (ctx, out1) \<leftarrow> utils_sha1_finish ctx (replicate 20 0);
     let ctx = utils_sha1_starts (utils_sha1_init ctx);
     ctx \<leftarrow> utils_sha1_update ctx k_opad 64;
     ctx \<leftarrow> utils_sha1_update ctx out1 20;
     (ctx, out1) \<leftarrow> utils_sha1_finish ctx out1;
     Some out1 }"

text \<open>\<open>utils_hmac_sha1\<close> writes 40 hexadecimal characters, \<open>utils_hmac_sha1_hex\<close> the 20 bytes.\<close>

definition utils_hmac_sha1 ::
    "iot_sha1_context \<Rightarrow> bytes option \<Rightarrow> int \<Rightarrow> bytes option \<Rightarrow> bytes option \<Rightarrow> int \<Rightarrow> bytes option option" where
  "utils_hmac_sha1 junk msg msg_len digest key key_len = (case (msg, digest, key) of
     (Some msg, Some digest, Some key) \<Rightarrow>
       if key_len > 64 then Some (Some digest)
       else hmac_sha1_out junk msg msg_len key key_len \<bind> (\<lambda>out1. map_option Some (put_hex out1 0 digest))
   | _ \<Rightarrow> Some digest)"

definition utils_hmac_sha1_hex ::
    "iot_sha1_context \<Rightarrow> bytes option \<Rightarrow> int \<Rightarrow> bytes option \<Rightarrow> bytes option \<Rightarrow> int \<Rightarrow> bytes option option" where
  "utils_hmac_sha1_hex junk msg msg_len digest key key_len = (case (msg, digest, key) of
     (Some msg, Some digest, Some key) \<Rightarrow>
       if key_len > 64 then Some (Some digest)
       else hmac_sha1_out junk msg msg_len key key_len \<bind> (\<lambda>out1. map_option Some (store_n digest 0 out1))
   | _ \<Rightarrow> Some digest)"

section \<open>SHA-1 after FIPS 180-4\<close>

fun sha1_schedule :: "bytes \<Rightarrow> nat \<Rightarrow> u32" where
  "sha1_schedule M t = (if t < 16 then GET_UINT32_BE M (4 * t)
     else word_rotl 1 (sha1_schedule M (t - 3) XOR sha1_schedule M (t - 8)
        XOR sha1_schedule M (t - 14) XOR sha1_schedule M (t - 16)))"

declare sha1_schedule.simps [simp del]

text \<open>The functions \<open>Ch\<close>, \<open>Parity\<close> and \<open>Maj\<close> of the four groups of twenty rounds.\<close>

definition sha1_f :: "nat \<Rightarrow> u32 \<Rightarrow> u32 \<Rightarrow> u32 \<Rightarrow> u32" where
  "sha1_f t x y z =
     (if t < 20 then (x AND y) XOR (NOT x AND z)
      else if 40 \<le> t \<and> t < 60 then (x AND y) XOR (x AND z) XOR (y AND z)
      else x XOR y XOR z)"

fun sha1_step :: "nat \<Rightarrow> u32 \<Rightarrow> u32 list \<Rightarrow> u32 list" where
  "sha1_step t W [a, b, c, d, e] = [word_rotl 5 a + sha1_f t b c d + e + sha1_K t + W, a, word_rotl 30 b, c, d]"
| "sha1_step t W v = v"

primrec sha1_work :: "bytes \<Rightarrow> u32 list \<Rightarrow> nat \<Rightarrow> u32 list" where
  "sha1_work M H 0 = H"
| "sha1_work M H (Suc t) = sha1_step t (sha1_schedule M t) (sha1_work M H t)"

definition sha1_compress :: "u32 list \<Rightarrow> bytes \<Rightarrow> u32 list" where
  "sha1_compress H M = map2 (+) H (sha1_work M H 80)"

definition SHA1 :: "bytes \<Rightarrow> bytes" where
  "SHA1 = md_hash sha1_compress sha1_iv be64 words_be"

section \<open>The block function is the FIPS compression\<close>

lemma sha1_F_f: "sha1_F t x y z = sha1_f t x y z"
  by (rule bit_word_eqI) (auto simp: sha1_F_def sha1_f_def bit_simps)

text \<open>The registers after \<open>t\<close> calls hold the working variables, rotated \<open>t\<close> times.\<close>

definition sha1_regs :: "nat \<Rightarrow> u32 list \<Rightarrow> u32 list" where
  "sha1_regs t v = map (\<lambda>j. v ! ((j + t) mod 5)) [0..<5]"

lemma list_5: "length xs = 5 \<Longrightarrow> \<exists>a b c d e. xs = [a, b, c, d, e]"
  by (auto simp: numeral_eq_Suc length_Suc_conv)

lemma sha1_P_step:
  assumes "length v = 5"
  shows "sha1_P t (sha1_regs t v) (sha1_reg t 0) (sha1_reg t 1) (sha1_reg t 2) (sha1_reg t 3) (sha1_reg t 4) x
     = sha1_regs (Suc t) (sha1_step t x v)"
proof -
  obtain a b c d e where v: "v = [a, b, c, d, e]" using list_5 [OF assms] by blast
  define q where "q = t mod 5"
  have "(j + t) mod 5 = (j + q) mod 5" for j by (simp only: q_def mod_add_right_eq)
  moreover from this [of "Suc _"] have "(j + Suc t) mod 5 = (j + Suc q) mod 5" for j by simp
  moreover have "(j + 4 * t) mod 5 = (j + 4 * q) mod 5" for j by (metis q_def mod_add_right_eq mod_mult_right_eq)
  ultimately have r: "sha1_regs t v = sha1_regs q v" "sha1_regs (Suc t) w = sha1_regs (Suc q) w" "sha1_reg t k = sha1_reg q k" for v w k
    unfolding sha1_regs_def sha1_reg_def by simp_all
  have "q \<in> set [0..<5]" by (simp add: q_def)
  then consider "q = 0" | "q = 1" | "q = 2" | "q = 3" | "q = 4" by (auto simp: upt_rec)
  then show ?thesis unfolding r
    by cases (simp_all add: v sha1_regs_def sha1_reg_def sha1_P_def upt_rec Let_def sha1_F_f rot_S_rotl algebra_simps)
qed

text \<open>The circular array holds the last 16 words of the schedule.\<close>

definition sha1_window :: "bytes \<Rightarrow> nat \<Rightarrow> u32 list \<Rightarrow> bool" where
  "sha1_window M t W \<longleftrightarrow> length W = 16 \<and> (\<forall>j. j < t \<and> t \<le> j + 16 \<longrightarrow> W ! (j mod 16) = sha1_schedule M j)"

lemma mod_16_eq: "t \<ge> 16 \<Longrightarrow> t mod 16 = (t - 16) mod (16 :: nat)"
  by (simp add: le_mod_geq)

lemma mod_16_neq: "j < t \<Longrightarrow> t < j + 16 \<Longrightarrow> j mod 16 \<noteq> (t :: nat) mod 16"
proof
  assume h: "j < t" "t < j + 16" "j mod 16 = t mod 16"
  then have "16 dvd t - j" by (metis mod_eq_dvd_iff_nat less_imp_le)
  moreover have "0 < t - j" "t - j < 16" using h by auto
  ultimately show False using nat_dvd_not_less by blast
qed

lemma sha1_R_window:
  assumes "sha1_window M t W" "16 \<le> t"
  shows "sha1_window M (Suc t) (sha1_R W t) \<and> sha1_R W t ! (t mod 16) = sha1_schedule M t"
proof -
  have w: "W ! ((t - k) mod 16) = sha1_schedule M (t - k)" if "k \<in> {3, 8, 14, 16}" for k
    using assms that unfolding sha1_window_def by auto
  have "sha1_R W t = W[t mod 16 := sha1_schedule M t]"
    using w [of 3] w [of 8] w [of 14] w [of 16] assms(2) mod_16_eq [OF assms(2)]
    by (subst sha1_schedule.simps) (simp add: sha1_R_def Let_def rot_S_rotl)
  moreover have "W[t mod 16 := sha1_schedule M t] ! (j mod 16) = sha1_schedule M j" if "j < Suc t" "Suc t \<le> j + 16" for j
    using that assms mod_16_neq [of j t] unfolding sha1_window_def by (cases "j = t") auto
  ultimately show ?thesis using assms unfolding sha1_window_def by simp
qed

lemma length_sha1_step [simp]: "length (sha1_step t W v) = length v"
  by (induction t W v rule: sha1_step.induct) simp_all

lemma length_sha1_work [simp]: "length (sha1_work M H n) = length H"
  by (induction n) simp_all

lemma sha1_calls_work:
  assumes "length st = 5"
  shows "\<exists>W. sha1_calls st data n = (W, sha1_regs n (sha1_work data st n)) \<and> sha1_window data (max n 16) W"
proof (induction n)
  case 0
  have "sha1_regs 0 st = st" using list_5 [OF assms] by (auto simp: sha1_regs_def upt_rec)
  moreover have "sha1_window data 16 (map (\<lambda>i. GET_UINT32_BE data (4 * i)) [0..<16])"
    by (auto simp: sha1_window_def sha1_schedule.simps)
  ultimately show ?case using assms by (simp add: sha1_calls_def)
next
  case (Suc n)
  then obtain W where W: "sha1_calls st data n = (W, sha1_regs n (sha1_work data st n))" "sha1_window data (max n 16) W" by blast
  define W' where "W' = (if n < 16 then W else sha1_R W n)"
  have w: "sha1_window data (max (Suc n) 16) W' \<and> W' ! (n mod 16) = sha1_schedule data n"
    using W(2) sha1_R_window [of data n W] by (auto simp: W'_def max_def sha1_window_def not_less split: if_splits)
  have "sha1_calls st data (Suc n) = sha1_call (sha1_calls st data n) n" by (simp add: sha1_calls_def)
  also have "\<dots> = (W', sha1_regs (Suc n) (sha1_work data st (Suc n)))"
    using w assms unfolding W(1) sha1_call_def Let_def fst_conv snd_conv W'_def [symmetric]
    by (simp add: sha1_P_step [simplified])
  finally show ?case using w by blast
qed

lemma sha1_block_compress: "length st = 5 \<Longrightarrow> sha1_block st data = sha1_compress st data"
proof -
  assume l: "length st = 5"
  have "sha1_regs 80 v = v" if "length v = 5" for v using list_5 [OF that] by (auto simp: sha1_regs_def upt_rec)
  with sha1_calls_work [OF l, of data 80] l show ?thesis by (auto simp: sha1_block_def sha1_compress_def)
qed

lemma length_sha1_block [simp]: "length st = 5 \<Longrightarrow> length (sha1_block st data) = 5"
  by (simp add: sha1_block_compress sha1_compress_def)

section \<open>The streaming contract\<close>

lemma utils_sha1_process_fields:
  "sha1_total0 (utils_sha1_process c b) = sha1_total0 c" "sha1_total1 (utils_sha1_process c b) = sha1_total1 c"
  "sha1_state (utils_sha1_process c b) = sha1_block (sha1_state c) b"
  "sha1_buffer (utils_sha1_process c b) = sha1_buffer c"
  by (simp_all add: utils_sha1_process_def)

interpretation sha1c: md_code sha1_total0 sha1_total1 sha1_state sha1_buffer "\<lambda>c. True"
    "\<lambda>a b c. c\<lparr>sha1_total0 := a, sha1_total1 := b\<rparr>" "\<lambda>x c. c\<lparr>sha1_buffer := x\<rparr>"
    utils_sha1_process sha1_block utils_sha1_update
  by unfold_locales (simp_all add: utils_sha1_process_fields utils_sha1_update_def Let_def)

interpretation sha1f: md_finish_code sha1_total0 sha1_total1 sha1_state sha1_buffer "\<lambda>c. True"
    "\<lambda>a b c. c\<lparr>sha1_total0 := a, sha1_total1 := b\<rparr>" "\<lambda>x c. c\<lparr>sha1_buffer := x\<rparr>"
    utils_sha1_process sha1_block utils_sha1_update utils_sha1_finish "\<lambda>h l. be32 h @ be32 l"
    sha1_put_state be64 words_be 20 sha1_iv "\<lambda>s. length s = 5"
proof unfold_locales
  show "utils_sha1_finish c outp =
      (let high = drop_bit 29 (sha1_total0 c) OR push_bit 3 (sha1_total1 c); low = push_bit 3 (sha1_total0 c);
           last = unat (sha1_total0 c AND 0x3F); padn = (if last < 56 then 56 - last else 120 - last) in do {
        c \<leftarrow> utils_sha1_update c md_padding padn;
        c \<leftarrow> utils_sha1_update c (be32 high @ be32 low) 8;
        outp \<leftarrow> sha1_put_state c outp;
        Some (c, outp) })" for c outp
    unfolding utils_sha1_finish_def Let_def Option.bind_assoc [symmetric] put_length_be by simp
qed (simp_all add: be64_words sha1_iv_def sha1_put_state_def put_words_be)

lemma SHA1_block: "md_hash sha1_block sha1_iv be64 words_be = SHA1"
proof
  fix m
  have "md_absorb sha1_block sha1_iv x = md_absorb sha1_compress sha1_iv x" for x
    by (rule md_absorb_cong [where ok = "\<lambda>s. length s = 5"])
      (simp_all add: sha1_block_compress sha1_iv_def sha1_compress_def)
  then show "md_hash sha1_block sha1_iv be64 words_be m = SHA1 m"
    by (simp add: SHA1_def md_hash_def)
qed

text \<open>The context after the two initialisation calls, whatever it held before.\<close>

definition sha1_fresh :: iot_sha1_context where
  "sha1_fresh = \<lparr>sha1_total0 = 0, sha1_total1 = 0, sha1_state = sha1_iv, sha1_buffer = replicate 64 0\<rparr>"

lemma sha1_initialised: "utils_sha1_starts (utils_sha1_init c) = sha1_fresh"
  by (simp add: utils_sha1_starts_def utils_sha1_init_def sha1_fresh_def)

lemma sha1_start: "sha1c.absorbed sha1_iv sha1_fresh []"
  by (rule sha1c.absorbed_start) (simp_all add: sha1_fresh_def)

lemma hmac_sha1_out_spec:
  assumes "length key \<le> 64" "length msg < 2 ^ 31"
  shows "hmac_sha1_out junk (msg @ mrest) (int (length msg)) (key @ krest) (int (length key)) = Some (hmac SHA1 key msg)"
proof -
  obtain c' where "(do {
      k_ipad \<leftarrow> hmac_pad 0x36 key;
      k_opad \<leftarrow> hmac_pad 0x5c key;
      c1 \<leftarrow> utils_sha1_update sha1_fresh k_ipad 64;
      c1 \<leftarrow> utils_sha1_update c1 (msg @ mrest) (length msg);
      (c1, out1) \<leftarrow> utils_sha1_finish c1 (replicate 20 0);
      c2 \<leftarrow> utils_sha1_update sha1_fresh k_opad 64;
      c2 \<leftarrow> utils_sha1_update c2 out1 20;
      utils_sha1_finish c2 out1 }) = Some (c', hmac SHA1 key msg)" (is "?passes = _")
    using sha1f.hmac_passes [OF sha1_start assms(1), of msg "replicate 20 0" mrest] assms(2) unfolding SHA1_block by auto
  moreover have "hmac_sha1_out junk (msg @ mrest) (int (length msg)) (key @ krest) (int (length key))
      = ?passes \<bind> (\<lambda>(ctx, outp). Some outp)"
    using assms by (simp add: hmac_sha1_out_def load_i_def load_n_def sha1_initialised case_prod_unfold)
  ultimately show ?thesis by simp
qed

section \<open>Properties\<close>

text \<open>The one-shot hash is SHA-1 of FIPS 180-4 on every message of less than \<open>2 ^ 32\<close> bytes:
  the unrolled rounds on rotating registers and the circular 16-word schedule compute the
  standard's rounds, and the call touches no memory but the message and the 20 digest bytes.\<close>

lemma sha1_correct:
  assumes "length msg < 2 ^ 32" "20 \<le> length outp"
  shows "utils_sha1 junk (msg @ rest) (length msg) outp = Some (SHA1 msg @ drop 20 outp)"
proof -
  obtain c' where "(utils_sha1_update sha1_fresh (msg @ rest) (length msg)
      \<bind> (\<lambda>c. utils_sha1_finish c outp)) = Some (c', SHA1 msg @ drop 20 outp)"
    using sha1f.one_shot_hash [OF sha1_start assms] unfolding SHA1_block by blast
  then show ?thesis by (auto simp: utils_sha1_def sha1_initialised bind_eq_Some_conv)
qed

text \<open>\<open>utils_hmac_sha1\<close> writes HMAC-SHA-1 (RFC 2104) as 40 lower-case hexadecimal characters and
  \<open>utils_hmac_sha1_hex\<close> writes it as 20 bytes, for keys of at most 64 bytes; with a longer key
  both return with the digest buffer unchanged and without an error.\<close>

lemma hmac_sha1_correct:
  assumes "length msg < 2 ^ 31" "40 \<le> length digest" "length key < 2 ^ 31"
  shows "utils_hmac_sha1 junk (Some (msg @ mrest)) (int (length msg)) (Some digest) (Some (key @ krest)) (int (length key))
     = Some (Some (if length key \<le> 64 then hex_text hex_lower (hmac SHA1 key msg) @ drop 40 digest else digest))
   \<and> utils_hmac_sha1_hex junk (Some (msg @ mrest)) (int (length msg)) (Some digest) (Some (key @ krest)) (int (length key))
     = Some (Some (if length key \<le> 64 then hmac SHA1 key msg @ drop 20 digest else digest))"
proof (cases "length key \<le> 64")
  case True
  have "length (hmac SHA1 key msg) = 20"
    using sha1f.length_md_hash unfolding SHA1_block hmac_def by simp
  then show ?thesis
    using True assms(2) by (simp add: utils_hmac_sha1_def utils_hmac_sha1_hex_def hmac_sha1_out_spec [OF True assms(1)]
        put_hex_spec store_n_def)
next
  case False
  then have "int (length key) > 64" by linarith
  then show ?thesis using False by (simp add: utils_hmac_sha1_def utils_hmac_sha1_hex_def)
qed

end
