(* ===== verification/Infra_MD5.thy ===== *)
theory Infra_MD5
  imports Infra_Hash
begin

text \<open>
  \<open>src/eng/infra/infra_md5.c\<close>: the context, the block function, update, finish, the one-shot hash
  and HMAC; MD5 after RFC 1321; and that the code computes it.  The 64 unrolled calls of the
  macro \<open>P\<close> are the rows of \<open>md5_calls_table\<close> (word, rotation, constant); call \<open>t\<close> names the
  registers rotated \<open>t\<close> times and uses the \<open>F\<close> in force at its place.
\<close>

section \<open>The code\<close>

record iot_md5_context =
  md5_total0 :: u32
  md5_total1 :: u32
  md5_state :: "u32 list"
  md5_buffer :: bytes

definition utils_md5_init :: "iot_md5_context \<Rightarrow> iot_md5_context" where
  "utils_md5_init ctx = \<lparr>md5_total0 = 0, md5_total1 = 0, md5_state = replicate 4 0, md5_buffer = replicate 64 0\<rparr>"

definition utils_md5_zeroize :: "iot_md5_context \<Rightarrow> iot_md5_context" where
  "utils_md5_zeroize ctx = \<lparr>md5_total0 = 0, md5_total1 = 0, md5_state = replicate 4 0, md5_buffer = replicate 64 0\<rparr>"

definition utils_md5_free :: "iot_md5_context option \<Rightarrow> iot_md5_context option" where
  "utils_md5_free ctx = (case ctx of None \<Rightarrow> None | Some c \<Rightarrow> Some (utils_md5_zeroize c))"

definition utils_md5_clone :: "iot_md5_context \<Rightarrow> iot_md5_context \<Rightarrow> iot_md5_context" where
  "utils_md5_clone dst src = src"

definition md5_iv :: "u32 list" where
  "md5_iv = [0x67452301, 0xEFCDAB89, 0x98BADCFE, 0x10325476]"

definition utils_md5_starts :: "iot_md5_context \<Rightarrow> iot_md5_context" where
  "utils_md5_starts ctx = ctx\<lparr>md5_total0 := 0, md5_total1 := 0, md5_state := md5_iv\<rparr>"

definition md5_F :: "nat \<Rightarrow> u32 \<Rightarrow> u32 \<Rightarrow> u32 \<Rightarrow> u32" where
  "md5_F t x y z =
     (if t < 16 then z XOR (x AND (y XOR z))
      else if t < 32 then y XOR (z AND (x XOR y))
      else if t < 48 then x XOR y XOR z
      else y XOR (x OR NOT z))"

definition md5_calls_table :: "(nat \<times> nat \<times> u32) list" where
  "md5_calls_table = [
    (0, 7, 0xD76AA478), (1, 12, 0xE8C7B756), (2, 17, 0x242070DB), (3, 22, 0xC1BDCEEE),
    (4, 7, 0xF57C0FAF), (5, 12, 0x4787C62A), (6, 17, 0xA8304613), (7, 22, 0xFD469501),
    (8, 7, 0x698098D8), (9, 12, 0x8B44F7AF), (10, 17, 0xFFFF5BB1), (11, 22, 0x895CD7BE),
    (12, 7, 0x6B901122), (13, 12, 0xFD987193), (14, 17, 0xA679438E), (15, 22, 0x49B40821),
    (1, 5, 0xF61E2562), (6, 9, 0xC040B340), (11, 14, 0x265E5A51), (0, 20, 0xE9B6C7AA),
    (5, 5, 0xD62F105D), (10, 9, 0x02441453), (15, 14, 0xD8A1E681), (4, 20, 0xE7D3FBC8),
    (9, 5, 0x21E1CDE6), (14, 9, 0xC33707D6), (3, 14, 0xF4D50D87), (8, 20, 0x455A14ED),
    (13, 5, 0xA9E3E905), (2, 9, 0xFCEFA3F8), (7, 14, 0x676F02D9), (12, 20, 0x8D2A4C8A),
    (5, 4, 0xFFFA3942), (8, 11, 0x8771F681), (11, 16, 0x6D9D6122), (14, 23, 0xFDE5380C),
    (1, 4, 0xA4BEEA44), (4, 11, 0x4BDECFA9), (7, 16, 0xF6BB4B60), (10, 23, 0xBEBFBC70),
    (13, 4, 0x289B7EC6), (0, 11, 0xEAA127FA), (3, 16, 0xD4EF3085), (6, 23, 0x04881D05),
    (9, 4, 0xD9D4D039), (12, 11, 0xE6DB99E5), (15, 16, 0x1FA27CF8), (2, 23, 0xC4AC5665),
    (0, 6, 0xF4292244), (7, 10, 0x432AFF97), (14, 15, 0xAB9423A7), (5, 21, 0xFC93A039),
    (12, 6, 0x655B59C3), (3, 10, 0x8F0CCC92), (10, 15, 0xFFEFF47D), (1, 21, 0x85845DD1),
    (8, 6, 0x6FA87E4F), (15, 10, 0xFE2CE6E0), (6, 15, 0xA3014314), (13, 21, 0x4E0811A1),
    (4, 6, 0xF7537E82), (11, 10, 0xBD3AF235), (2, 15, 0x2AD7D2BB), (9, 21, 0xEB86D391)]"

text \<open>The macro \<open>P(a,b,c,d,k,s,t)\<close> on the registers \<open>A \<dots> D\<close>, which the four indices name.\<close>

definition md5_P :: "nat \<Rightarrow> u32 list \<Rightarrow> u32 list \<Rightarrow> nat \<Rightarrow> nat \<Rightarrow> nat \<Rightarrow> nat \<Rightarrow> nat \<Rightarrow> nat \<Rightarrow> u32 \<Rightarrow> u32 list" where
  "md5_P n X r a b c d k s t = (
     let r = r[a := r ! a + (md5_F n (r ! b) (r ! c) (r ! d) + X ! k + t)]
     in r[a := rot_S (r ! a) s + r ! b])"

text \<open>The registers of call \<open>n\<close>: \<open>P(A,B,C,D)\<close>, \<open>P(D,A,B,C)\<close>, \<open>P(C,D,A,B)\<close>, \<open>P(B,C,D,A)\<close> and so on.\<close>

definition md5_reg :: "nat \<Rightarrow> nat \<Rightarrow> nat" where
  "md5_reg n k = (k + 3 * n) mod 4"

definition md5_call :: "u32 list \<Rightarrow> u32 list \<Rightarrow> nat \<Rightarrow> u32 list" where
  "md5_call X r n = (case md5_calls_table ! n of (k, s, t) \<Rightarrow>
     md5_P n X r (md5_reg n 0) (md5_reg n 1) (md5_reg n 2) (md5_reg n 3) k s t)"

definition md5_calls :: "u32 list \<Rightarrow> bytes \<Rightarrow> nat \<Rightarrow> u32 list" where
  "md5_calls st data n = foldl (md5_call (map (\<lambda>i. GET_UINT32_LE data (4 * i)) [0..<16])) (take 4 st) [0..<n]"

definition md5_block :: "u32 list \<Rightarrow> bytes \<Rightarrow> u32 list" where
  "md5_block st data = map2 (+) st (md5_calls st data 64)"

definition utils_md5_process :: "iot_md5_context \<Rightarrow> bytes \<Rightarrow> iot_md5_context" where
  "utils_md5_process ctx data = ctx\<lparr>md5_state := md5_block (md5_state ctx) data\<rparr>"

definition utils_md5_update :: "iot_md5_context \<Rightarrow> bytes \<Rightarrow> nat \<Rightarrow> iot_md5_context option" where
  "utils_md5_update ctx input ilen = (if ilen = 0 then Some ctx else
     let left = unat (md5_total0 ctx AND 0x3F);
         fill = 64 - left;
         t0 = md5_total0 ctx + of_nat ilen;
         ctx = ctx\<lparr>md5_total0 := t0,
                   md5_total1 := (if t0 < of_nat ilen then md5_total1 ctx + 1 else md5_total1 ctx)\<rparr> in do {
       (ctx, input, ilen, left) \<leftarrow>
         (if left \<noteq> 0 \<and> ilen \<ge> fill then do {
            x \<leftarrow> load_n input 0 fill;
            b \<leftarrow> store_n (md5_buffer ctx) left x;
            Some (utils_md5_process (ctx\<lparr>md5_buffer := b\<rparr>) b, drop fill input, ilen - fill, 0) }
          else Some (ctx, input, ilen, left));
       (ctx, input, ilen) \<leftarrow> while_blocks utils_md5_process ctx input ilen;
       (if ilen > 0 then do {
          x \<leftarrow> load_n input 0 ilen;
          b \<leftarrow> store_n (md5_buffer ctx) left x;
          Some (ctx\<lparr>md5_buffer := b\<rparr>) }
        else Some ctx) })"

definition md5_put_state :: "iot_md5_context \<Rightarrow> bytes \<Rightarrow> bytes option" where
  "md5_put_state ctx outp = put_words PUT_UINT32_LE (take 4 (md5_state ctx)) outp 0"

definition utils_md5_finish :: "iot_md5_context \<Rightarrow> bytes \<Rightarrow> (iot_md5_context \<times> bytes) option" where
  "utils_md5_finish ctx outp = (
     let high = drop_bit 29 (md5_total0 ctx) OR push_bit 3 (md5_total1 ctx);
         low = push_bit 3 (md5_total0 ctx) in do {
       msglen \<leftarrow> PUT_UINT32_LE low (replicate 8 0) 0;
       msglen \<leftarrow> PUT_UINT32_LE high msglen 4;
       (let last = unat (md5_total0 ctx AND 0x3F);
            padn = (if last < 56 then 56 - last else 120 - last) in do {
         ctx \<leftarrow> utils_md5_update ctx md_padding padn;
         ctx \<leftarrow> utils_md5_update ctx msglen 8;
         outp \<leftarrow> md5_put_state ctx outp;
         Some (ctx, outp) }) })"

definition utils_md5 :: "iot_md5_context \<Rightarrow> bytes \<Rightarrow> nat \<Rightarrow> bytes \<Rightarrow> bytes option" where
  "utils_md5 junk input ilen outp = do {
     let ctx = utils_md5_starts (utils_md5_init junk);
     ctx \<leftarrow> utils_md5_update ctx input ilen;
     (ctx, outp) \<leftarrow> utils_md5_finish ctx outp;
     let ctx = utils_md5_free (Some ctx);
     Some outp }"

text \<open>\<open>utils_hmac_md5\<close>; the lengths are \<open>int\<close>, the message length is converted to \<open>uint32_t\<close>.\<close>

definition hmac_md5_out :: "iot_md5_context \<Rightarrow> bytes \<Rightarrow> int \<Rightarrow> bytes \<Rightarrow> int \<Rightarrow> bytes option" where
  "hmac_md5_out junk msg msg_len key key_len = do {
     k \<leftarrow> load_i key key_len;
     k_ipad \<leftarrow> hmac_pad 0x36 k;
     k_opad \<leftarrow> hmac_pad 0x5c k;
     let ctx = utils_md5_starts (utils_md5_init junk);
     ctx \<leftarrow> utils_md5_update ctx k_ipad 64;
     ctx \<leftarrow> utils_md5_update ctx msg (nat (to_u32 msg_len));
     (ctx, out1) \<leftarrow> utils_md5_finish ctx (replicate 16 0);
     let ctx = utils_md5_starts (utils_md5_init ctx);
     ctx \<leftarrow> utils_md5_update ctx k_opad 64;
     ctx \<leftarrow> utils_md5_update ctx out1 16;
     (ctx, out1) \<leftarrow> utils_md5_finish ctx out1;
     Some out1 }"

definition utils_hmac_md5 ::
    "iot_md5_context \<Rightarrow> bytes option \<Rightarrow> int \<Rightarrow> bytes option \<Rightarrow> bytes option \<Rightarrow> int \<Rightarrow> bytes option option" where
  "utils_hmac_md5 junk msg msg_len digest key key_len = (case (msg, digest, key) of
     (Some msg, Some digest, Some key) \<Rightarrow>
       if key_len > 64 then Some (Some digest)
       else hmac_md5_out junk msg msg_len key key_len \<bind> (\<lambda>out1. map_option Some (put_hex out1 0 digest))
   | _ \<Rightarrow> Some digest)"

section \<open>MD5 after RFC 1321\<close>

text \<open>The functions F, G, H and I.\<close>

definition md5_f :: "nat \<Rightarrow> u32 \<Rightarrow> u32 \<Rightarrow> u32 \<Rightarrow> u32" where
  "md5_f n x y z =
     (if n < 16 then (x AND y) OR (NOT x AND z)
      else if n < 32 then (x AND z) OR (y AND NOT z)
      else if n < 48 then x XOR y XOR z
      else y XOR (x OR NOT z))"

text \<open>Which word of the block a step uses, how far it rotates, and the table \<open>T\<close> of the RFC,
  the integer parts of \<open>2 ^ 32\<close> times the absolute sine of \<open>1 \<dots> 64\<close> (radians).\<close>

definition md5_word :: "nat \<Rightarrow> nat" where
  "md5_word n = (if n < 16 then n else if n < 32 then (5 * n + 1) mod 16
     else if n < 48 then (3 * n + 5) mod 16 else 7 * n mod 16)"

definition md5_shift :: "nat \<Rightarrow> nat" where
  "md5_shift n = (if n < 16 then [7, 12, 17, 22] else if n < 32 then [5, 9, 14, 20]
     else if n < 48 then [4, 11, 16, 23] else [6, 10, 15, 21]) ! (n mod 4)"

definition md5_T :: "u32 list" where
  "md5_T = [
    0xD76AA478, 0xE8C7B756, 0x242070DB, 0xC1BDCEEE,
    0xF57C0FAF, 0x4787C62A, 0xA8304613, 0xFD469501,
    0x698098D8, 0x8B44F7AF, 0xFFFF5BB1, 0x895CD7BE,
    0x6B901122, 0xFD987193, 0xA679438E, 0x49B40821,
    0xF61E2562, 0xC040B340, 0x265E5A51, 0xE9B6C7AA,
    0xD62F105D, 0x02441453, 0xD8A1E681, 0xE7D3FBC8,
    0x21E1CDE6, 0xC33707D6, 0xF4D50D87, 0x455A14ED,
    0xA9E3E905, 0xFCEFA3F8, 0x676F02D9, 0x8D2A4C8A,
    0xFFFA3942, 0x8771F681, 0x6D9D6122, 0xFDE5380C,
    0xA4BEEA44, 0x4BDECFA9, 0xF6BB4B60, 0xBEBFBC70,
    0x289B7EC6, 0xEAA127FA, 0xD4EF3085, 0x04881D05,
    0xD9D4D039, 0xE6DB99E5, 0x1FA27CF8, 0xC4AC5665,
    0xF4292244, 0x432AFF97, 0xAB9423A7, 0xFC93A039,
    0x655B59C3, 0x8F0CCC92, 0xFFEFF47D, 0x85845DD1,
    0x6FA87E4F, 0xFE2CE6E0, 0xA3014314, 0x4E0811A1,
    0xF7537E82, 0xBD3AF235, 0x2AD7D2BB, 0xEB86D391]"

fun md5_step :: "nat \<Rightarrow> u32 \<Rightarrow> u32 list \<Rightarrow> u32 list" where
  "md5_step n x [a, b, c, d] = [d, b + word_rotl (md5_shift n) (a + md5_f n b c d + x + md5_T ! n), b, c]"
| "md5_step n x v = v"

primrec md5_work :: "bytes \<Rightarrow> u32 list \<Rightarrow> nat \<Rightarrow> u32 list" where
  "md5_work M H 0 = H"
| "md5_work M H (Suc n) = md5_step n (GET_UINT32_LE M (4 * md5_word n)) (md5_work M H n)"

definition md5_compress :: "u32 list \<Rightarrow> bytes \<Rightarrow> u32 list" where
  "md5_compress H M = map2 (+) H (md5_work M H 64)"

definition MD5 :: "bytes \<Rightarrow> bytes" where
  "MD5 = md_hash md5_compress md5_iv le64 words_le"

section \<open>The block function is the RFC transformation\<close>

lemma md5_F_f: "md5_F t x y z = md5_f t x y z"
  by (rule bit_word_eqI) (auto simp: md5_F_def md5_f_def bit_simps)

lemma md5_table: "n < 64 \<Longrightarrow> md5_calls_table ! n = (md5_word n, md5_shift n, md5_T ! n)"
proof -
  have "map (\<lambda>n. (md5_word n, md5_shift n, md5_T ! n)) [0..<64] = md5_calls_table"
    by (simp add: md5_calls_table_def md5_word_def md5_shift_def md5_T_def upt_rec)
  moreover assume "n < 64"
  ultimately show ?thesis by (metis (no_types, lifting) add_0 diff_zero length_upt nth_map nth_upt)
qed

lemma md5_shift_range: "0 < md5_shift n \<and> md5_shift n < 32"
proof -
  have "n mod 4 \<in> set [0..<4]" by simp
  then consider "n mod 4 = 0" | "n mod 4 = 1" | "n mod 4 = 2" | "n mod 4 = 3" by (auto simp: upt_rec)
  then show ?thesis by cases (simp_all add: md5_shift_def)
qed

lemma md5_word_range: "n < 64 \<Longrightarrow> md5_word n < 16"
  by (simp add: md5_word_def)

text \<open>The registers after \<open>n\<close> calls hold the working variables, rotated \<open>n\<close> times.\<close>

definition md5_regs :: "nat \<Rightarrow> u32 list \<Rightarrow> u32 list" where
  "md5_regs n v = map (\<lambda>j. v ! ((j + n) mod 4)) [0..<4]"

lemma list_4: "length xs = 4 \<Longrightarrow> \<exists>a b c d. xs = [a, b, c, d]"
  by (auto simp: numeral_eq_Suc length_Suc_conv)

lemma md5_P_step:
  assumes "length v = 4"
  shows "md5_P n X (md5_regs n v) (md5_reg n 0) (md5_reg n 1) (md5_reg n 2) (md5_reg n 3) k (md5_shift n) (md5_T ! n)
     = md5_regs (Suc n) (md5_step n (X ! k) v)"
proof -
  obtain a b c d where v: "v = [a, b, c, d]" using list_4 [OF assms] by blast
  define q where "q = n mod 4"
  have "(j + n) mod 4 = (j + q) mod 4" for j by (simp only: q_def mod_add_right_eq)
  moreover from this [of "Suc _"] have "(j + Suc n) mod 4 = (j + Suc q) mod 4" for j by simp
  moreover have "(j + 3 * n) mod 4 = (j + 3 * q) mod 4" for j by (metis q_def mod_add_right_eq mod_mult_right_eq)
  ultimately have r: "md5_regs n v = md5_regs q v" "md5_regs (Suc n) w = md5_regs (Suc q) w" "md5_reg n k = md5_reg q k" for v w k
    unfolding md5_regs_def md5_reg_def by simp_all
  have "q \<in> set [0..<4]" by (simp add: q_def)
  then consider "q = 0" | "q = 1" | "q = 2" | "q = 3" by (auto simp: upt_rec)
  then show ?thesis unfolding r using md5_shift_range [of n]
    by cases (simp_all add: v md5_regs_def md5_reg_def md5_P_def upt_rec Let_def md5_F_f rot_S_rotl algebra_simps)
qed

lemma length_md5_step [simp]: "length (md5_step t W v) = length v"
  by (induction t W v rule: md5_step.induct) simp_all

lemma length_md5_work [simp]: "length (md5_work M H n) = length H"
  by (induction n) simp_all

lemma md5_calls_work:
  assumes "length st = 4"
  shows "n \<le> 64 \<Longrightarrow> md5_calls st data n = md5_regs n (md5_work data st n)"
proof (induction n)
  case 0
  have "md5_regs 0 st = st" using list_4 [OF assms] by (auto simp: md5_regs_def upt_rec)
  then show ?case using assms by (simp add: md5_calls_def)
next
  case (Suc n)
  let ?X = "map (\<lambda>i. GET_UINT32_LE data (4 * i)) [0..<16]"
  have "md5_calls st data (Suc n) = md5_call ?X (md5_calls st data n) n" by (simp add: md5_calls_def)
  also have "\<dots> = md5_regs (Suc n) (md5_step n (?X ! md5_word n) (md5_work data st n))"
    using Suc assms md5_P_step [of "md5_work data st n" n ?X "md5_word n"] by (simp add: md5_call_def md5_table)
  finally show ?case using Suc.prems md5_word_range [of n] by simp
qed

lemma md5_block_compress: "length st = 4 \<Longrightarrow> md5_block st data = md5_compress st data"
proof -
  assume l: "length st = 4"
  have "md5_regs 64 v = v" if "length v = 4" for v using list_4 [OF that] by (auto simp: md5_regs_def upt_rec)
  with l show ?thesis by (simp add: md5_block_def md5_compress_def md5_calls_work)
qed

lemma length_md5_block [simp]: "length st = 4 \<Longrightarrow> length (md5_block st data) = 4"
  by (simp add: md5_block_compress md5_compress_def)

section \<open>The streaming contract\<close>

lemma utils_md5_process_fields:
  "md5_total0 (utils_md5_process c b) = md5_total0 c" "md5_total1 (utils_md5_process c b) = md5_total1 c"
  "md5_state (utils_md5_process c b) = md5_block (md5_state c) b"
  "md5_buffer (utils_md5_process c b) = md5_buffer c"
  by (simp_all add: utils_md5_process_def)

interpretation md5c: md_code md5_total0 md5_total1 md5_state md5_buffer "\<lambda>c. True"
    "\<lambda>a b c. c\<lparr>md5_total0 := a, md5_total1 := b\<rparr>" "\<lambda>x c. c\<lparr>md5_buffer := x\<rparr>"
    utils_md5_process md5_block utils_md5_update
  by unfold_locales (simp_all add: utils_md5_process_fields utils_md5_update_def Let_def)

interpretation md5f: md_finish_code md5_total0 md5_total1 md5_state md5_buffer "\<lambda>c. True"
    "\<lambda>a b c. c\<lparr>md5_total0 := a, md5_total1 := b\<rparr>" "\<lambda>x c. c\<lparr>md5_buffer := x\<rparr>"
    utils_md5_process md5_block utils_md5_update utils_md5_finish "\<lambda>h l. le32 l @ le32 h"
    md5_put_state le64 words_le 16 md5_iv "\<lambda>s. length s = 4"
proof unfold_locales
  show "utils_md5_finish c outp =
      (let high = drop_bit 29 (md5_total0 c) OR push_bit 3 (md5_total1 c); low = push_bit 3 (md5_total0 c);
           last = unat (md5_total0 c AND 0x3F); padn = (if last < 56 then 56 - last else 120 - last) in do {
        c \<leftarrow> utils_md5_update c md_padding padn;
        c \<leftarrow> utils_md5_update c (le32 low @ le32 high) 8;
        outp \<leftarrow> md5_put_state c outp;
        Some (c, outp) })" for c outp
    unfolding utils_md5_finish_def Let_def Option.bind_assoc [symmetric] put_length_le by simp
qed (simp_all add: le64_words md5_iv_def md5_put_state_def put_words_le)

lemma MD5_block: "md_hash md5_block md5_iv le64 words_le = MD5"
proof
  fix m
  have "md_absorb md5_block md5_iv x = md_absorb md5_compress md5_iv x" for x
    by (rule md_absorb_cong [where ok = "\<lambda>s. length s = 4"])
      (simp_all add: md5_block_compress md5_iv_def md5_compress_def)
  then show "md_hash md5_block md5_iv le64 words_le m = MD5 m"
    by (simp add: MD5_def md_hash_def)
qed

text \<open>The context after the two initialisation calls, whatever it held before.\<close>

definition md5_fresh :: iot_md5_context where
  "md5_fresh = \<lparr>md5_total0 = 0, md5_total1 = 0, md5_state = md5_iv, md5_buffer = replicate 64 0\<rparr>"

lemma md5_initialised: "utils_md5_starts (utils_md5_init c) = md5_fresh"
  by (simp add: utils_md5_starts_def utils_md5_init_def md5_fresh_def)

lemma md5_start: "md5c.absorbed md5_iv md5_fresh []"
  by (rule md5c.absorbed_start) (simp_all add: md5_fresh_def)

lemma hmac_md5_out_spec:
  assumes "length key \<le> 64" "length msg < 2 ^ 31"
  shows "hmac_md5_out junk (msg @ mrest) (int (length msg)) (key @ krest) (int (length key)) = Some (hmac MD5 key msg)"
proof -
  obtain c' where "(do {
      k_ipad \<leftarrow> hmac_pad 0x36 key;
      k_opad \<leftarrow> hmac_pad 0x5c key;
      c1 \<leftarrow> utils_md5_update md5_fresh k_ipad 64;
      c1 \<leftarrow> utils_md5_update c1 (msg @ mrest) (length msg);
      (c1, out1) \<leftarrow> utils_md5_finish c1 (replicate 16 0);
      c2 \<leftarrow> utils_md5_update md5_fresh k_opad 64;
      c2 \<leftarrow> utils_md5_update c2 out1 16;
      utils_md5_finish c2 out1 }) = Some (c', hmac MD5 key msg)" (is "?passes = _")
    using md5f.hmac_passes [OF md5_start assms(1), of msg "replicate 16 0" mrest] assms(2) unfolding MD5_block by auto
  moreover have "hmac_md5_out junk (msg @ mrest) (int (length msg)) (key @ krest) (int (length key))
      = ?passes \<bind> (\<lambda>(ctx, outp). Some outp)"
    using assms by (simp add: hmac_md5_out_def load_i_def load_n_def md5_initialised case_prod_unfold)
  ultimately show ?thesis by simp
qed

section \<open>Properties\<close>

text \<open>The one-shot hash is MD5 of RFC 1321 on every message of less than \<open>2 ^ 32\<close> bytes:
  the unrolled rounds on rotating registers compute the steps of the RFC, and the call
  touches no memory but the message and the 16 digest bytes.\<close>

lemma md5_correct:
  assumes "length msg < 2 ^ 32" "16 \<le> length outp"
  shows "utils_md5 junk (msg @ rest) (length msg) outp = Some (MD5 msg @ drop 16 outp)"
proof -
  obtain c' where "(utils_md5_update md5_fresh (msg @ rest) (length msg)
      \<bind> (\<lambda>c. utils_md5_finish c outp)) = Some (c', MD5 msg @ drop 16 outp)"
    using md5f.one_shot_hash [OF md5_start assms] unfolding MD5_block by blast
  then show ?thesis by (auto simp: utils_md5_def md5_initialised bind_eq_Some_conv)
qed

text \<open>\<open>utils_hmac_md5\<close> writes HMAC-MD5 (RFC 2104) as 32 lower-case hexadecimal characters, for
  keys of at most 64 bytes; with a longer key it returns with the digest buffer unchanged and
  without an error.\<close>

lemma hmac_md5_correct:
  assumes "length msg < 2 ^ 31" "32 \<le> length digest" "length key < 2 ^ 31"
  shows "utils_hmac_md5 junk (Some (msg @ mrest)) (int (length msg)) (Some digest) (Some (key @ krest)) (int (length key))
     = Some (Some (if length key \<le> 64 then hex_text hex_lower (hmac MD5 key msg) @ drop 32 digest else digest))"
proof (cases "length key \<le> 64")
  case True
  have "length (hmac MD5 key msg) = 16"
    using md5f.length_md_hash unfolding MD5_block hmac_def by simp
  then show ?thesis
    using True assms(2) by (simp add: utils_hmac_md5_def hmac_md5_out_spec [OF True assms(1)] put_hex_spec)
next
  case False
  then have "int (length key) > 64" by linarith
  then show ?thesis using False by (simp add: utils_hmac_md5_def)
qed

end
