(* ===== verification/MQTT_Topic.thy ===== *)
theory MQTT_Topic
  imports Infra_String
begin

text \<open>
  Topic names and filters in \<open>src/eng/mqtt/iotx_mqtt_client.c\<close>: the matcher
  \<open>iotx_mc_is_topic_matched\<close> and the syntax check \<open>iotx_mc_check_rule\<close> and
  \<open>iotx_mc_check_topic\<close>, which uses \<open>infra_strtok\<close>.  The matcher is compared with a
  definition on topic levels, the syntax check with what it is meant to refuse.
  The codes: 43 is \<open>+\<close>, 35 is \<open>#\<close>, 47 is \<open>/\<close>.
\<close>

section \<open>The matcher\<close>

text \<open>\<open>curf\<close> is the rest of the filter before its NUL, \<open>curn\<close> the rest of the topic name up to
  \<open>curn_end\<close>.  The inner loop of the \<open>+\<close> branch moves \<open>curn\<close> to the last character of the
  level.\<close>

fun skip_level :: "bytes \<Rightarrow> bytes" where
  "skip_level (n # ns) = (if ns \<noteq> [] \<and> hd ns \<noteq> 47 then skip_level ns else n # ns)"
| "skip_level [] = []"

function topic_match_loop :: "bytes \<Rightarrow> bytes \<Rightarrow> bytes \<times> bytes" where
  "topic_match_loop [] curn = ([], curn)"
| "topic_match_loop (f # fs) [] = (f # fs, [])"
| "topic_match_loop (f # fs) (n # ns) =
     (if n = 47 \<and> f \<noteq> 47 then (f # fs, n # ns)
      else if f \<noteq> 43 \<and> f \<noteq> 35 \<and> f \<noteq> n then (f # fs, n # ns)
      else
        let curn = (if f = 43 then skip_level (n # ns) else if f = 35 then [last (n # ns)] else n # ns)
        in topic_match_loop fs (tl curn))"
  by pat_completeness auto
termination by (relation "measure (\<lambda>(f, _). length f)") auto

definition iotx_mc_is_topic_matched :: "bytes option \<Rightarrow> bytes option \<Rightarrow> bool" where
  "iotx_mc_is_topic_matched topicFilter topicName = (case (topicFilter, topicName) of
     (Some curf, Some curn) \<Rightarrow> topic_match_loop curf curn = ([], [])
   | _ \<Rightarrow> False)"

section \<open>Matching on levels\<close>

text \<open>A filter or a name as the list of its levels: \<open>/a/b\<close> has the levels empty, \<open>a\<close>, \<open>b\<close>.\<close>

fun join_levels :: "bytes list \<Rightarrow> bytes" where
  "join_levels [] = []"
| "join_levels [l] = l"
| "join_levels (l # ls) = l @ 47 # join_levels ls"

fun levels_match :: "bytes list \<Rightarrow> bytes list \<Rightarrow> bool" where
  "levels_match [] [] = True"
| "levels_match (f # fs) (t # ts) =
     (if f = [35] \<and> fs = [] then t \<noteq> []
      else (if f = [43] then t \<noteq> [] else f = t) \<and> levels_match fs ts)"
| "levels_match _ _ = False"

definition plain_level :: "bytes \<Rightarrow> bool" where
  "plain_level l \<longleftrightarrow> 47 \<notin> set l"

text \<open>A filter level is a wildcard alone or has none; \<open>#\<close> only stands last.\<close>

fun filter_levels_ok :: "bytes list \<Rightarrow> bool" where
  "filter_levels_ok [] = False"
| "filter_levels_ok [f] = (f = [35] \<or> f = [43] \<or> set f \<inter> {35, 43, 47} = {})"
| "filter_levels_ok (f # fs) = ((f = [43] \<or> set f \<inter> {35, 43, 47} = {}) \<and> filter_levels_ok fs)"

lemma tl_skip_level: "tl (skip_level (n # ns)) = dropWhile (\<lambda>c. c \<noteq> 47) ns"
proof (induction ns arbitrary: n)
  case (Cons m ns)
  then show ?case by (cases "m = 47") auto
qed simp

lemma join_Cons: "ls \<noteq> [] \<Longrightarrow> join_levels (l # ls) = l @ 47 # join_levels ls"
  by (cases ls) auto

text \<open>Plain characters are matched one by one.\<close>

lemma match_plain_chars:
  "set l \<inter> {35, 43, 47} = {} \<Longrightarrow> set t \<inter> {47} = {} \<Longrightarrow> (rf = [] \<or> hd rf = 47) \<Longrightarrow> (rt = [] \<or> hd rt = 47) \<Longrightarrow>
   topic_match_loop (l @ rf) (t @ rt) = ([], []) \<longleftrightarrow> l = t \<and> topic_match_loop rf rt = ([], [])"
proof (induction l arbitrary: t)
  case Nil
  then show ?case by (cases t; cases rf) auto
next
  case (Cons f l)
  show ?case
  proof (cases t)
    case Nil
    with Cons.prems show ?thesis by (cases rt) auto
  next
    case (Cons n t')
    with Cons.prems Cons.IH [of t'] show ?thesis by auto
  qed
qed

lemma match_slash: "topic_match_loop (47 # fs) (47 # ts) = topic_match_loop fs ts"
  by simp

lemma match_plus:
  assumes "set t \<inter> {47} = {}" "rt = [] \<or> hd rt = 47"
  shows "topic_match_loop (43 # rf) (t @ rt) = ([], []) \<longleftrightarrow> t \<noteq> [] \<and> topic_match_loop rf rt = ([], [])"
proof (cases t)
  case Nil
  with assms(2) show ?thesis by (cases rt) auto
next
  case (Cons n ns)
  have "dropWhile (\<lambda>c. c \<noteq> 47) (ns @ rt) = rt"
    using assms Cons by (cases rt) (auto simp: dropWhile_append3)
  then have "tl (skip_level (n # ns @ rt)) = rt" by (simp only: tl_skip_level)
  with assms(1) Cons show ?thesis by (simp del: skip_level.simps)
qed

lemma match_hash: "topic_match_loop [35] t = ([], []) \<longleftrightarrow> t \<noteq> [] \<and> hd t \<noteq> 47"
  by (cases t) auto

lemma matcher_levels:
  "filter_levels_ok fs \<Longrightarrow> ts \<noteq> [] \<Longrightarrow> \<forall>t \<in> set ts. plain_level t \<Longrightarrow>
   topic_match_loop (join_levels fs) (join_levels ts) = ([], []) \<longleftrightarrow> levels_match fs ts"
proof (induction fs arbitrary: ts)
  case (Cons f fs)
  then obtain t ts' where ts: "ts = t # ts'" by (cases ts) auto
  have tp: "set t \<inter> {47} = {}" using Cons.prems(3) ts by (auto simp: plain_level_def)
  define rf where "rf = (if fs = [] then [] else 47 # join_levels fs)"
  define rt where "rt = (if ts' = [] then [] else 47 # join_levels ts')"
  have j: "join_levels (f # fs) = f @ rf" "join_levels ts = t @ rt"
    by (auto simp: rf_def rt_def ts join_Cons)
  have h: "rf = [] \<or> hd rf = 47" "rt = [] \<or> hd rt = 47" by (auto simp: rf_def rt_def)
  have rest: "topic_match_loop rf rt = ([], []) \<longleftrightarrow> levels_match fs ts'"
  proof (cases "fs = [] \<or> ts' = []")
    case True
    then show ?thesis by (cases fs; cases ts') (auto simp: rf_def rt_def)
  next
    case False
    then have "filter_levels_ok fs" using Cons.prems(1) by (cases fs) auto
    with Cons False ts show ?thesis by (auto simp: rf_def rt_def)
  qed
  consider (hash) "f = [35]" "fs = []" | (plus) "f = [43]" | (plain) "set f \<inter> {35, 43, 47} = {}"
    using Cons.prems(1) by (cases fs) auto
  then show ?case
  proof cases
    case hash
    then have "rf = []" by (simp add: rf_def)
    with hash h tp show ?thesis unfolding j by (cases t; cases rt) (auto simp: match_hash ts)
  next
    case plus
    then show ?thesis unfolding j using match_plus [OF tp h(2), of rf] rest ts by auto
  next
    case plain
    then have "f \<noteq> [35]" "f \<noteq> [43]" by auto
    then show ?thesis unfolding j using match_plain_chars [OF plain tp h] rest ts by auto
  qed
qed simp

section \<open>The syntax check\<close>

datatype iotx_mc_topic_type_t = TOPIC_NAME_TYPE | TOPIC_FILTER_TYPE

text \<open>The result codes of \<open>src/eng/infra/infra_state.h\<close> that the MQTT client returns.\<close>

abbreviation (input) STATE_SUCCESS :: int where "STATE_SUCCESS \<equiv> 0"
abbreviation (input) STATE_USER_INPUT_INVALID :: int where "STATE_USER_INPUT_INVALID \<equiv> -0x113"
abbreviation (input) STATE_SYS_DEPEND_MALLOC :: int where "STATE_SYS_DEPEND_MALLOC \<equiv> -0x201"
abbreviation (input) STATE_SYS_DEPEND_MUTEX_CREATE :: int where "STATE_SYS_DEPEND_MUTEX_CREATE \<equiv> -0x205"
abbreviation (input) STATE_SYS_DEPEND_NWK_CLOSE :: int where "STATE_SYS_DEPEND_NWK_CLOSE \<equiv> -0x208"
abbreviation (input) STATE_SYS_DEPEND_NWK_READ_ERROR :: int where "STATE_SYS_DEPEND_NWK_READ_ERROR \<equiv> -0x20B"
abbreviation (input) STATE_SYS_DEPEND_NWK_INVALID_HANDLE :: int where "STATE_SYS_DEPEND_NWK_INVALID_HANDLE \<equiv> -0x20A"
abbreviation (input) STATE_MQTT_CONNACK_VERSION_UNACCEPT :: int where "STATE_MQTT_CONNACK_VERSION_UNACCEPT \<equiv> -0x301"
abbreviation (input) STATE_MQTT_CONNACK_IDENT_REJECT :: int where "STATE_MQTT_CONNACK_IDENT_REJECT \<equiv> -0x302"
abbreviation (input) STATE_MQTT_CONNACK_SERVICE_NA :: int where "STATE_MQTT_CONNACK_SERVICE_NA \<equiv> -0x303"
abbreviation (input) STATE_MQTT_CONNACK_NOT_AUTHORIZED :: int where "STATE_MQTT_CONNACK_NOT_AUTHORIZED \<equiv> -0x304"
abbreviation (input) STATE_MQTT_CONNACK_BAD_USERDATA :: int where "STATE_MQTT_CONNACK_BAD_USERDATA \<equiv> -0x305"
abbreviation (input) STATE_MQTT_WAIT_RECONN_TIMER :: int where "STATE_MQTT_WAIT_RECONN_TIMER \<equiv> -0x306"
abbreviation (input) STATE_MQTT_SERIALIZE_CONN_ERROR :: int where "STATE_MQTT_SERIALIZE_CONN_ERROR \<equiv> -0x30C"
abbreviation (input) STATE_MQTT_SERIALIZE_PUBACK_ERROR :: int where "STATE_MQTT_SERIALIZE_PUBACK_ERROR \<equiv> -0x30D"
abbreviation (input) STATE_MQTT_SERIALIZE_PINGREQ_ERROR :: int where "STATE_MQTT_SERIALIZE_PINGREQ_ERROR \<equiv> -0x30E"
abbreviation (input) STATE_MQTT_SERIALIZE_SUB_ERROR :: int where "STATE_MQTT_SERIALIZE_SUB_ERROR \<equiv> -0x30F"
abbreviation (input) STATE_MQTT_SERIALIZE_UNSUB_ERROR :: int where "STATE_MQTT_SERIALIZE_UNSUB_ERROR \<equiv> -0x310"
abbreviation (input) STATE_MQTT_SERIALIZE_PUB_ERROR :: int where "STATE_MQTT_SERIALIZE_PUB_ERROR \<equiv> -0x311"
abbreviation (input) STATE_MQTT_DESERIALIZE_CONNACK_ERROR :: int where "STATE_MQTT_DESERIALIZE_CONNACK_ERROR \<equiv> -0x312"
abbreviation (input) STATE_MQTT_DESERIALIZE_SUBACK_ERROR :: int where "STATE_MQTT_DESERIALIZE_SUBACK_ERROR \<equiv> -0x313"
abbreviation (input) STATE_MQTT_DESERIALIZE_PUB_ERROR :: int where "STATE_MQTT_DESERIALIZE_PUB_ERROR \<equiv> -0x314"
abbreviation (input) STATE_MQTT_DESERIALIZE_UNSUBACK_ERROR :: int where "STATE_MQTT_DESERIALIZE_UNSUBACK_ERROR \<equiv> -0x315"
abbreviation (input) STATE_MQTT_PACKET_READ_ERROR :: int where "STATE_MQTT_PACKET_READ_ERROR \<equiv> -0x316"
abbreviation (input) STATE_MQTT_CONNACK_UNKNOWN_ERROR :: int where "STATE_MQTT_CONNACK_UNKNOWN_ERROR \<equiv> -0x317"
abbreviation (input) STATE_MQTT_RX_BUFFER_TOO_SHORT :: int where "STATE_MQTT_RX_BUFFER_TOO_SHORT \<equiv> -0x318"
abbreviation (input) STATE_MQTT_TX_BUFFER_TOO_SHORT :: int where "STATE_MQTT_TX_BUFFER_TOO_SHORT \<equiv> -0x319"
abbreviation (input) STATE_MQTT_TOPIC_BUF_TOO_SHORT :: int where "STATE_MQTT_TOPIC_BUF_TOO_SHORT \<equiv> -0x31A"
abbreviation (input) STATE_MQTT_CONN_RETRY_EXCEED_MAX :: int where "STATE_MQTT_CONN_RETRY_EXCEED_MAX \<equiv> -0x31B"
abbreviation (input) STATE_MQTT_QOS1_REPUB_EXCEED_MAX :: int where "STATE_MQTT_QOS1_REPUB_EXCEED_MAX \<equiv> -0x31C"
abbreviation (input) STATE_MQTT_PUB_QOS_INVALID :: int where "STATE_MQTT_PUB_QOS_INVALID \<equiv> -0x31D"
abbreviation (input) STATE_MQTT_IN_OFFLINE_STATUS :: int where "STATE_MQTT_IN_OFFLINE_STATUS \<equiv> -0x31E"
abbreviation (input) STATE_MQTT_RECV_UNKNOWN_PACKET :: int where "STATE_MQTT_RECV_UNKNOWN_PACKET \<equiv> -0x31F"
abbreviation (input) STATE_MQTT_UNEXP_TOPIC_FORMAT :: int where "STATE_MQTT_UNEXP_TOPIC_FORMAT \<equiv> -0x322"
abbreviation (input) STATE_MQTT_SYNC_SUB_TIMEOUT :: int where "STATE_MQTT_SYNC_SUB_TIMEOUT \<equiv> -0x323"
abbreviation (input) STATE_MQTT_ASYNC_STACK_CONN_IN_PROG :: int where "STATE_MQTT_ASYNC_STACK_CONN_IN_PROG \<equiv> -0x324"

definition CONFIG_MQTT_TOPIC_MAXLEN :: nat where "CONFIG_MQTT_TOPIC_MAXLEN = 128"

text \<open>The loop over the characters of one level; \<open>len\<close> is the length of the level.\<close>

fun check_rule_chars :: "nat \<Rightarrow> iotx_mc_topic_type_t \<Rightarrow> bytes \<Rightarrow> int" where
  "check_rule_chars len type [] = STATE_SUCCESS"
| "check_rule_chars len type (c # cs) =
     (if type = TOPIC_FILTER_TYPE \<and> (c = 43 \<or> c = 35) \<and> len \<noteq> 1 then STATE_MQTT_UNEXP_TOPIC_FORMAT
      else if type \<noteq> TOPIC_FILTER_TYPE \<and> (c = 43 \<or> c = 35) then STATE_MQTT_UNEXP_TOPIC_FORMAT
      else if c < 32 \<or> c \<ge> 127 then STATE_MQTT_UNEXP_TOPIC_FORMAT
      else check_rule_chars len type cs)"

definition iotx_mc_check_rule :: "bytes option \<Rightarrow> iotx_mc_topic_type_t \<Rightarrow> int" where
  "iotx_mc_check_rule iterm type = (case iterm of None \<Rightarrow> STATE_USER_INPUT_INVALID
     | Some s \<Rightarrow> check_rule_chars (length s) type s)"

text \<open>The string a token of \<open>infra_strtok\<close> points to.\<close>

definition token_text :: "strtok_static \<Rightarrow> nat \<Rightarrow> bytes" where
  "token_text st p = takeWhile (\<lambda>c. c \<noteq> 0) (drop p (tok_mem st))"

partial_function (option) check_topic_loop ::
    "iotx_mc_topic_type_t \<Rightarrow> bool \<Rightarrow> strtok_static \<Rightarrow> (int \<times> strtok_static) option" where
  "check_topic_loop type last_seen st = do {
     (iterm, st) \<leftarrow> infra_strtok None (Some [47]) st;
     (case iterm of None \<Rightarrow> Some (STATE_SUCCESS, st)
      | Some p \<Rightarrow>
          if last_seen then Some (STATE_MQTT_UNEXP_TOPIC_FORMAT, st)
          else let res = iotx_mc_check_rule (Some (token_text st p)) type in
            if res < STATE_SUCCESS then Some (res, st)
            else check_topic_loop type (last_seen \<or> (token_text st p \<noteq> [] \<and> hd (token_text st p) = 35)) st) }"

text \<open>The topic is a string without NUL.  The copy \<open>topicString\<close> has 128 bytes, of which
  \<open>strncpy\<close> fills at most 127.\<close>

definition topicString :: "bytes \<Rightarrow> bytes" where
  "topicString name = take 127 name @ replicate (128 - length (take 127 name)) 0"

definition iotx_mc_check_topic ::
    "bytes option \<Rightarrow> iotx_mc_topic_type_t \<Rightarrow> strtok_static \<Rightarrow> (int \<times> strtok_static) option" where
  "iotx_mc_check_topic topicName type st = (case topicName of
     None \<Rightarrow> Some (STATE_MQTT_UNEXP_TOPIC_FORMAT, st)
   | Some name \<Rightarrow>
       if name = [] \<or> hd name \<noteq> 47 then Some (STATE_MQTT_UNEXP_TOPIC_FORMAT, st)
       else if length name > CONFIG_MQTT_TOPIC_MAXLEN then Some (STATE_MQTT_TOPIC_BUF_TOO_SHORT, st)
       else do {
         (iterm, st) \<leftarrow> infra_strtok (Some (topicString name)) (Some [47]) st;
         (let res = iotx_mc_check_rule (map_option (token_text st) iterm) type in
          if res < STATE_SUCCESS then Some (res, st)
          else check_topic_loop type False st) })"

section \<open>Tokens\<close>

text \<open>The tokens a string of length at least two yields at \<open>/\<close>; a rest of one character is not
  a token.\<close>

function topic_tokens :: "bytes \<Rightarrow> bytes list" where
  "topic_tokens s = (if length s \<le> 1 then [] else
     let t = dropWhile (\<lambda>c. c = 47) s in
     if t = [] then [] else takeWhile (\<lambda>c. c \<noteq> 47) t # topic_tokens (tl (dropWhile (\<lambda>c. c \<noteq> 47) t)))"
  by pat_completeness auto
termination
proof (relation "measure length")
  fix s t :: bytes
  assume t: "t = dropWhile (\<lambda>c. c = 47) s" "t \<noteq> []"
  have "length (tl (dropWhile (\<lambda>c. c \<noteq> 47) t)) < length t"
  proof -
    have "0 < length t" using t(2) by simp
    with length_dropWhile_le [of "\<lambda>c. c \<noteq> 47" t] show ?thesis unfolding length_tl by arith
  qed
  also have "\<dots> \<le> length s" unfolding t(1) by (rule length_dropWhile_le)
  finally show "(tl (dropWhile (\<lambda>c. c \<noteq> 47) t), s) \<in> measure length" by simp
qed simp

declare topic_tokens.simps [simp del]

lemma strtok_strip:
  assumes "t \<noteq> []" "0 \<notin> set t"
  shows "strtok_loop (pre @ replicate k 47 @ t @ 0 # post) [47] (length pre) (length pre) b
    = strtok_loop (pre @ replicate k 47 @ t @ 0 # post) [47] (length pre + k) (length pre + k) b"
proof (induction k arbitrary: pre)
  case (Suc k)
  let ?m = "pre @ replicate (Suc k) 47 @ t @ 0 # post"
  have n: "c_strlen (drop (length pre) ?m) = Some (Suc k + length t)"
    using c_strlen_text [of "replicate (Suc k) 47 @ t" post] assms(2) by (simp add: in_set_replicate)
  have "strtok_loop ?m [47] (length pre) (length pre) b = strtok_loop ?m [47] (length pre + 1) (length pre + 1) b"
    using assms(1) n by (subst strtok_loop.simps) simp
  also have "\<dots> = strtok_loop ((pre @ [47]) @ replicate k 47 @ t @ 0 # post) [47] (length (pre @ [47])) (length (pre @ [47])) b"
    by simp
  also have "\<dots> = strtok_loop ((pre @ [47]) @ replicate k 47 @ t @ 0 # post) [47] (length (pre @ [47]) + k) (length (pre @ [47]) + k) b"
    by (rule Suc.IH)
  finally show ?case by simp
qed simp

lemma strtok_scan:
  assumes "0 \<notin> set r" "r = [] \<or> hd r = 47"
  shows "47 \<notin> set tok \<Longrightarrow> 0 \<notin> set tok \<Longrightarrow>
    strtok_loop (pre @ tok @ r @ 0 # post) [47] (length pre) tgt b
    = strtok_loop (pre @ tok @ r @ 0 # post) [47] (length pre + length tok) tgt (b \<and> tok = [])"
proof (induction tok arbitrary: pre b)
  case (Cons c tok)
  let ?m = "pre @ (c # tok) @ r @ 0 # post"
  have n: "c_strlen (drop (length pre) ?m) = Some (Suc (length tok + length r))"
    using c_strlen_text [of "c # tok @ r" post] Cons.prems assms(1) by simp
  have "strtok_loop ?m [47] (length pre) tgt b = strtok_loop ?m [47] (length pre + 1) tgt False"
    using n Cons.prems by (subst strtok_loop.simps) simp
  also have "\<dots> = strtok_loop ((pre @ [c]) @ tok @ r @ 0 # post) [47] (length (pre @ [c])) tgt False" by simp
  also have "\<dots> = strtok_loop ((pre @ [c]) @ tok @ r @ 0 # post) [47] (length (pre @ [c]) + length tok) tgt (False \<and> tok = [])"
    using Cons.prems by (intro Cons.IH) auto
  finally show ?case by simp
qed simp

text \<open>One call of \<open>infra_strtok\<close> at a string inside a buffer: delimiters alone, and a token.\<close>

lemma strtok_only_delims:
  assumes "1 < k"
  shows "strtok_loop (pre @ replicate k 47 @ 0 # post) [47] (length pre) (length pre) True
    = Some (pre @ replicate (k - 1) 47 @ 0 # 0 # post, length pre + (k - 1), None)"
proof -
  have r: "replicate k (47 :: byte) = replicate (k - 1) 47 @ [47]"
    using assms by (metis Suc_diff_1 less_trans zero_less_one replicate_append_same replicate_Suc)
  have "strtok_loop (pre @ replicate k 47 @ 0 # post) [47] (length pre) (length pre) True
      = strtok_loop (pre @ replicate (k - 1) 47 @ [47] @ 0 # post) [47] (length pre + (k - 1)) (length pre + (k - 1)) True"
    using strtok_strip [of "[47]" pre "k - 1" post True] unfolding r by simp
  also have "\<dots> = Some (pre @ replicate (k - 1) 47 @ 0 # 0 # post, length pre + (k - 1), None)"
    by (subst strtok_loop.simps) (simp add: store_n_def)
  finally show ?thesis .
qed

lemma strtok_token:
  assumes "tok \<noteq> []" "47 \<notin> set tok" "0 \<notin> set tok" "0 \<notin> set r" "r = [] \<or> hd r = 47"
  shows "strtok_loop (pre @ (replicate k 47 @ tok @ r) @ 0 # post) [47] (length pre) (length pre) True
    = Some (pre @ replicate k 47 @ tok @ (if r = [] then [] else [0]) @ tl r @ 0 # post,
        length pre + k + length tok + (if tl r = [] then 0 else 1), Some (length pre + k))"
proof -
  let ?p = "pre @ replicate k 47"
  let ?m = "(?p @ tok) @ r @ 0 # post"
  have "strtok_loop (pre @ (replicate k 47 @ tok @ r) @ 0 # post) [47] (length pre) (length pre) True
      = strtok_loop (?p @ tok @ r @ 0 # post) [47] (length ?p) (length ?p) True"
    using strtok_strip [of "tok @ r" pre k post True] assms by simp
  also have "\<dots> = strtok_loop ?m [47] (length (?p @ tok)) (length ?p) False"
    using strtok_scan [OF assms(4,5,2,3), of ?p post "length ?p" True] assms(1) by (simp add: add.assoc)
  also have "\<dots> = Some (?p @ tok @ (if r = [] then [] else [0]) @ tl r @ 0 # post,
        length (?p @ tok) + (if tl r = [] then 0 else 1), Some (length ?p))"
  proof -
    have d: "drop (length (?p @ tok)) ?m = r @ 0 # post" by simp
    have n: "c_strlen (r @ 0 # post) = Some (length r)" using assms(4) by simp
    show ?thesis
    proof (cases r)
      case Nil
      show ?thesis by (subst strtok_loop.simps) (simp add: Nil)
    next
      case (Cons c u)
      with assms(5) have c: "c = 47" by simp
      have w: "store_n ?m (length (?p @ tok)) [0] = Some ((?p @ tok) @ 0 # u @ 0 # post)"
        by (simp add: store_n_def Cons)
      have neq: "length ?p \<noteq> length (?p @ tok)" using assms(1) by simp
      have hd: "take 1 (drop (length (?p @ tok)) ?m) = [47]" unfolding d by (simp add: Cons c)
      have "strtok_loop ?m [47] (length (?p @ tok)) (length ?p) False =
        (if length r = 1 then Some ((?p @ tok) @ 0 # u @ 0 # post, length (?p @ tok), Some (length ?p))
         else Some ((?p @ tok) @ 0 # u @ 0 # post, length (?p @ tok) + 1, Some (length ?p)))"
        using n w neq hd Cons by (subst strtok_loop.simps) (simp only: d, auto simp: store_n_def)
      then show ?thesis using Cons by simp
    qed
  qed
  finally show ?thesis by simp
qed

text \<open>What the syntax check does with the tokens.\<close>

fun tokens_check :: "iotx_mc_topic_type_t \<Rightarrow> bool \<Rightarrow> bytes list \<Rightarrow> int" where
  "tokens_check type last_seen [] = STATE_SUCCESS"
| "tokens_check type last_seen (t # ts) =
     (if last_seen then STATE_MQTT_UNEXP_TOPIC_FORMAT
      else let res = iotx_mc_check_rule (Some t) type in
        if res < STATE_SUCCESS then res else tokens_check type (hd t = 35) ts)"

lemma split_token:
  obtains (delims) k where "s = replicate k (47 :: byte)"
  | (token) k tok r where "s = replicate k 47 @ tok @ r" "tok \<noteq> []" "47 \<notin> set tok" "r = [] \<or> hd r = 47"
proof (cases "dropWhile (\<lambda>c. c = 47) s")
  case Nil
  then have "\<forall>c \<in> set s. c = 47" by (simp add: dropWhile_eq_Nil_conv)
  then have "s = replicate (length s) 47" by (simp add: replicate_eqI)
  then show ?thesis by (rule delims)
next
  case (Cons c u)
  let ?t = "c # u" let ?k = "length (takeWhile (\<lambda>c. c = 47) s)"
  have "takeWhile (\<lambda>c. c = 47) s = replicate ?k 47"
    by (rule replicate_eqI) (auto dest: set_takeWhileD)
  then have "s = replicate ?k 47 @ ?t" using Cons takeWhile_dropWhile_id [of "\<lambda>c. c = 47" s] by simp
  then have "s = replicate ?k 47 @ takeWhile (\<lambda>c. c \<noteq> 47) ?t @ dropWhile (\<lambda>c. c \<noteq> 47) ?t"
    by (simp only: takeWhile_dropWhile_id)
  note eq = this
  have c: "c \<noteq> 47" using Cons hd_dropWhile [of "\<lambda>c. c = 47" s] by simp
  have "takeWhile (\<lambda>c. c \<noteq> 47) ?t \<noteq> []" using c by simp
  moreover have "47 \<notin> set (takeWhile (\<lambda>c. c \<noteq> 47) ?t)" by (auto dest: set_takeWhileD)
  moreover have "dropWhile (\<lambda>c. c \<noteq> 47) ?t = [] \<or> hd (dropWhile (\<lambda>c. c \<noteq> 47) ?t) = 47"
    using hd_dropWhile [of "\<lambda>c. c \<noteq> 47" ?t] by blast
  ultimately show ?thesis by (rule token [OF eq])
qed

lemma topic_tokens_delims: "topic_tokens (replicate k 47) = []"
  by (subst topic_tokens.simps) simp

lemma topic_tokens_token:
  assumes "tok \<noteq> []" "47 \<notin> set tok" "r = [] \<or> hd r = 47" "1 < length (replicate k 47 @ tok @ r)"
  shows "topic_tokens (replicate k 47 @ tok @ r) = tok # topic_tokens (tl r)"
proof -
  have "dropWhile (\<lambda>c. c = 47) (tok @ r) = tok @ r" using assms(1,2) by (cases tok) auto
  then have d: "dropWhile (\<lambda>c. c = 47) (replicate k 47 @ tok @ r) = tok @ r"
    by (simp add: dropWhile_append)
  have "takeWhile (\<lambda>c. c \<noteq> 47) (tok @ r) = tok" "dropWhile (\<lambda>c. c \<noteq> 47) (tok @ r) = r"
    using assms(2,3) by (cases r; auto simp: takeWhile_append dropWhile_append)+
  with d assms(1,4) show ?thesis by (subst topic_tokens.simps) (simp add: Let_def)
qed

lemma strtok_call:
  assumes "0 \<notin> set s"
  shows "(topic_tokens s = [] \<longrightarrow> (\<exists>st'. infra_strtok None (Some [47]) \<lparr>tok_mem = pre @ s @ 0 # post, tok_pos = Some (length pre)\<rparr> = Some (None, st')))
   \<and> (topic_tokens s \<noteq> [] \<longrightarrow> (\<exists>p st' pre' post' s'.
        infra_strtok None (Some [47]) \<lparr>tok_mem = pre @ s @ 0 # post, tok_pos = Some (length pre)\<rparr> = Some (Some p, st')
        \<and> token_text st' p = hd (topic_tokens s) \<and> hd (topic_tokens s) \<noteq> []
        \<and> st' = \<lparr>tok_mem = pre' @ s' @ 0 # post', tok_pos = Some (length pre')\<rparr>
        \<and> topic_tokens s' = tl (topic_tokens s) \<and> length s' < length s \<and> 0 \<notin> set s'))"
proof -
  let ?st = "\<lparr>tok_mem = pre @ s @ 0 # post, tok_pos = Some (length pre)\<rparr>"
  have len: "c_strlen (drop (length pre) (tok_mem ?st)) = Some (length s)" using assms by simp
  show ?thesis
  proof (cases "length s \<le> 1")
    case True
    then have "topic_tokens s = []" by (subst topic_tokens.simps) simp
    with True len show ?thesis by (simp add: infra_strtok_def)
  next
    case long: False
    show ?thesis
    proof (cases rule: split_token [of s])
      case (delims k)
      then have "1 < k" using long by simp
      with len show ?thesis
        by (simp add: infra_strtok_def delims strtok_only_delims topic_tokens_delims)
    next
      case (token k tok r)
      have z: "0 \<notin> set tok" "0 \<notin> set r" using assms token(1) by auto
      define pre' where "pre' = (if tl r = [] then pre @ replicate k 47 @ tok else pre @ replicate k 47 @ tok @ [0])"
      define post' where "post' = (if tl r = [] \<and> r \<noteq> [] then 0 # post else post)"
      define st' where "st' = \<lparr>tok_mem = pre' @ tl r @ 0 # post', tok_pos = Some (length pre')\<rparr>"
      have m: "pre @ replicate k 47 @ tok @ (if r = [] then [] else [0]) @ tl r @ 0 # post = tok_mem st'"
        "length pre + k + length tok + (if tl r = [] then 0 else 1) = length pre'"
        by (cases r; auto simp: st'_def pre'_def post'_def)+
      have st: "infra_strtok None (Some [47]) ?st = Some (Some (length pre + k), st')"
        using len long strtok_token [OF token(2,3) z token(4), of pre k post] unfolding m
        by (simp add: infra_strtok_def token(1) st'_def)
      have tx: "token_text st' (length pre + k) = tok"
      proof -
        have "drop (length pre + k) (tok_mem st') = tok @ (if r = [] then [] else [0]) @ tl r @ 0 # post"
          unfolding m(1) [symmetric] by simp
        moreover have "takeWhile (\<lambda>c. c \<noteq> 0) (tok @ 0 # y) = tok" for y
          using z(1) by (subst takeWhile_append2) auto
        ultimately show ?thesis by (cases r) (simp_all add: token_text_def)
      qed
      have tks: "topic_tokens s = tok # topic_tokens (tl r)"
        using topic_tokens_token [OF token(2,3,4)] long token(1) by simp
      have "length (tl r) < length s" "0 \<notin> set (tl r)" using token(1,2) z(2) by (cases r; auto)+
      with st tx token(2) show ?thesis unfolding tks
        by (intro conjI impI exI [of _ "length pre + k"] exI [of _ st'] exI [of _ pre'] exI [of _ post'] exI [of _ "tl r"])
          (simp_all add: st'_def)
    qed
  qed
qed

lemma check_topic_loop_tokens:
  "0 \<notin> set s \<Longrightarrow> \<exists>st'. check_topic_loop type b \<lparr>tok_mem = pre @ s @ 0 # post, tok_pos = Some (length pre)\<rparr>
     = Some (tokens_check type b (topic_tokens s), st')"
proof (induction "length s" arbitrary: s pre post b rule: less_induct)
  case less
  note call = strtok_call [OF less.prems, of pre post]
  show ?case
  proof (cases "topic_tokens s")
    case Nil
    with call show ?thesis by (subst check_topic_loop.simps) auto
  next
    case (Cons t ts)
    then obtain p st' pre' post' s' where
      st: "infra_strtok None (Some [47]) \<lparr>tok_mem = pre @ s @ 0 # post, tok_pos = Some (length pre)\<rparr> = Some (Some p, st')"
        "token_text st' p = t" "t \<noteq> []" "st' = \<lparr>tok_mem = pre' @ s' @ 0 # post', tok_pos = Some (length pre')\<rparr>"
        "topic_tokens s' = ts" "length s' < length s" "0 \<notin> set s'"
      using call by auto
    obtain st'' where "check_topic_loop type (hd t = 35) st' = Some (tokens_check type (hd t = 35) ts, st'')"
      using less.hyps [OF st(6,7), of "hd t = 35" pre' post'] st(4,5) by auto
    with st(1-3) Cons show ?thesis by (subst check_topic_loop.simps) (auto simp: Let_def)
  qed
qed

text \<open>The result of the syntax check as a function of the name.\<close>

definition check_topic_result :: "iotx_mc_topic_type_t \<Rightarrow> bytes \<Rightarrow> int" where
  "check_topic_result type name =
     (if name = [] \<or> hd name \<noteq> 47 then STATE_MQTT_UNEXP_TOPIC_FORMAT
      else if length name > 128 then STATE_MQTT_TOPIC_BUF_TOO_SHORT
      else if topic_tokens (take 127 name) = [] then STATE_USER_INPUT_INVALID
      else let ts = topic_tokens (take 127 name); res = iotx_mc_check_rule (Some (hd ts)) type in
        if res < STATE_SUCCESS then res else tokens_check type False (tl ts))"

lemma check_topic_total:
  assumes "0 \<notin> set name"
  shows "\<exists>st'. iotx_mc_check_topic (Some name) type st = Some (check_topic_result type name, st')"
proof (cases "name = [] \<or> hd name \<noteq> 47 \<or> length name > 128")
  case True
  then show ?thesis by (auto simp: iotx_mc_check_topic_def check_topic_result_def CONFIG_MQTT_TOPIC_MAXLEN_def)
next
  case False
  let ?s = "take 127 name"
  have str: "topicString name = [] @ ?s @ 0 # replicate (127 - length ?s) 0"
    by (simp add: topicString_def Suc_diff_le flip: replicate_Suc)
  have z: "0 \<notin> set ?s" using assms in_set_takeD by fast
  have first: "infra_strtok (Some (topicString name)) (Some [47]) st
     = infra_strtok None (Some [47]) \<lparr>tok_mem = [] @ ?s @ 0 # replicate (127 - length ?s) 0, tok_pos = Some (length ([] :: bytes))\<rparr>"
    unfolding str [symmetric] by (simp add: infra_strtok_def)
  note call = strtok_call [OF z, of "[]" "replicate (127 - length ?s) 0"]
  show ?thesis
  proof (cases "topic_tokens ?s")
    case Nil
    with call first False show ?thesis
      by (auto simp: iotx_mc_check_topic_def check_topic_result_def CONFIG_MQTT_TOPIC_MAXLEN_def
          iotx_mc_check_rule_def)
  next
    case (Cons t ts)
    then obtain p st' pre' post' s' where
      st: "infra_strtok (Some (topicString name)) (Some [47]) st = Some (Some p, st')"
        "token_text st' p = t" "st' = \<lparr>tok_mem = pre' @ s' @ 0 # post', tok_pos = Some (length pre')\<rparr>"
        "topic_tokens s' = ts" "0 \<notin> set s'"
      using call unfolding first by auto
    obtain st'' where "check_topic_loop type False st' = Some (tokens_check type False ts, st'')"
      using check_topic_loop_tokens [OF st(5), of type False pre' post'] st(3,4) by auto
    with st(1,2) False Cons show ?thesis
      by (auto simp: iotx_mc_check_topic_def check_topic_result_def CONFIG_MQTT_TOPIC_MAXLEN_def Let_def)
  qed
qed

text \<open>The characters a level may have: printable, and a wildcard only alone in a filter.\<close>

definition level_char_ok :: "nat \<Rightarrow> iotx_mc_topic_type_t \<Rightarrow> byte \<Rightarrow> bool" where
  "level_char_ok n type c \<longleftrightarrow> \<not> (c < 32 \<or> c \<ge> 127) \<and> ((c = 43 \<or> c = 35) \<longrightarrow> type = TOPIC_FILTER_TYPE \<and> n = 1)"

lemma check_rule_value:
  "check_rule_chars n type cs = (if \<forall>c \<in> set cs. level_char_ok n type c then STATE_SUCCESS else STATE_MQTT_UNEXP_TOPIC_FORMAT)"
proof (induction cs)
  case (Cons c cs)
  have "check_rule_chars n type (c # cs) = (if level_char_ok n type c then check_rule_chars n type cs else STATE_MQTT_UNEXP_TOPIC_FORMAT)"
    by (cases type) (auto simp: level_char_ok_def)
  with Cons show ?case by simp
qed simp

lemma tokens_check_value:
  "tokens_check type False ts = STATE_SUCCESS \<longleftrightarrow>
     (\<forall>t \<in> set ts. \<forall>c \<in> set t. level_char_ok (length t) type c) \<and> (\<forall>t \<in> set (butlast ts). hd t \<noteq> 35)"
proof (induction ts)
  case (Cons t ts)
  have n: "STATE_MQTT_UNEXP_TOPIC_FORMAT < STATE_SUCCESS" "STATE_MQTT_UNEXP_TOPIC_FORMAT \<noteq> STATE_SUCCESS"
    by (simp_all add:)
  show ?case
  proof (cases "\<forall>c \<in> set t. level_char_ok (length t) type c")
    case True
    then have "tokens_check type False (t # ts) = tokens_check type (hd t = 35) ts"
      by (simp add: iotx_mc_check_rule_def check_rule_value)
    then show ?thesis using True Cons n by (cases ts; cases "hd t = 35") auto
  next
    case False
    then have "tokens_check type False (t # ts) = STATE_MQTT_UNEXP_TOPIC_FORMAT"
      using n by (auto simp: iotx_mc_check_rule_def check_rule_value Let_def)
    with False n show ?thesis by auto
  qed
qed simp

section \<open>Properties\<close>

text \<open>C4. The topic matcher decides level-wise wildcard matching: for a filter whose levels are
  plain, \<open>+\<close> alone, or \<open>#\<close> alone at the end, a topic name matches exactly when the levels
  agree, \<open>+\<close> standing for one non-empty level and \<open>#\<close> for all remaining levels, the first
  of them non-empty.  The loop is total on every input.\<close>

theorem topic_matcher_correct:
  assumes "filter_levels_ok fs" "ts \<noteq> []" "\<forall>t \<in> set ts. plain_level t"
  shows "iotx_mc_is_topic_matched (Some (join_levels fs)) (Some (join_levels ts)) \<longleftrightarrow> levels_match fs ts"
  using matcher_levels [OF assms] by (simp add: iotx_mc_is_topic_matched_def)

theorem topic_matcher_correct_witness:
  "iotx_mc_is_topic_matched (Some [47, 97, 47, 43, 47, 35]) (Some [47, 97, 47, 98, 47, 99, 47, 100])"
  using topic_matcher_correct [of "[[], [97], [43], [35]]" "[[], [97], [98], [99], [100]]"]
  by (simp add: plain_level_def)

text \<open>The syntax check always returns, whatever the static state of the tokenizer, and accepts a
  name or filter exactly when it starts with \<open>/\<close>, has at most 128 characters, and, of the
  levels the tokenizer yields for its first 127 characters, there is at least one, all are
  printable, wildcards stand alone and only in filters, and no level from the second on that
  starts with \<open>#\<close> is followed by another.\<close>

lemma check_topic_decides:
  assumes "0 \<notin> set name"
  shows "\<exists>rc st'. iotx_mc_check_topic (Some name) type st = Some (rc, st')
     \<and> (rc = STATE_SUCCESS \<longleftrightarrow> name \<noteq> [] \<and> hd name = 47 \<and> length name \<le> 128
         \<and> topic_tokens (take 127 name) \<noteq> []
         \<and> (\<forall>t \<in> set (topic_tokens (take 127 name)). \<forall>c \<in> set t. level_char_ok (length t) type c)
         \<and> (\<forall>t \<in> set (butlast (tl (topic_tokens (take 127 name)))). hd t \<noteq> 35))"
proof -
  let ?ts = "topic_tokens (take 127 name)"
  obtain st' where st: "iotx_mc_check_topic (Some name) type st = Some (check_topic_result type name, st')"
    using check_topic_total [OF assms] by blast
  have n: "STATE_MQTT_UNEXP_TOPIC_FORMAT < STATE_SUCCESS" "STATE_MQTT_TOPIC_BUF_TOO_SHORT \<noteq> STATE_SUCCESS"
      "STATE_USER_INPUT_INVALID \<noteq> STATE_SUCCESS"
    by (simp_all add:)
  have "check_topic_result type name = STATE_SUCCESS \<longleftrightarrow> name \<noteq> [] \<and> hd name = 47 \<and> length name \<le> 128 \<and> ?ts \<noteq> []
         \<and> (\<forall>t \<in> set ?ts. \<forall>c \<in> set t. level_char_ok (length t) type c) \<and> (\<forall>t \<in> set (butlast (tl ?ts)). hd t \<noteq> 35)"
  proof (cases "name \<noteq> [] \<and> hd name = 47 \<and> length name \<le> 128 \<and> ?ts \<noteq> []")
    case True
    then obtain t ts where ts: "?ts = t # ts" by (cases ?ts) auto
    with True n show ?thesis
      by (simp add: check_topic_result_def iotx_mc_check_rule_def check_rule_value Let_def tokens_check_value)
  next
    case False
    with n show ?thesis by (auto simp: check_topic_result_def)
  qed
  with st show ?thesis by blast
qed

text \<open>Two gaps of the syntax check: the tokenizer drops a last level of one character, so
  \<open>/ab/#\<close> passes as a topic name to publish to; and \<open>#\<close> in the first level is not
  remembered, so the filter \<open>/#/ab\<close> passes.\<close>

lemma check_topic_gaps:
  "\<exists>st1 st2. iotx_mc_check_topic (Some [47, 97, 98, 47, 35]) TOPIC_NAME_TYPE st = Some (STATE_SUCCESS, st1)
     \<and> iotx_mc_check_topic (Some [47, 35, 47, 97, 98]) TOPIC_FILTER_TYPE st = Some (STATE_SUCCESS, st2)"
proof -
  have "topic_tokens [47, 97, 98, 47, 35] = [[97, 98]]" "topic_tokens [47, 35, 47, 97, 98] = [[35], [97, 98]]"
    by (simp_all add: topic_tokens.simps)
  then have "check_topic_result TOPIC_NAME_TYPE [47, 97, 98, 47, 35] = STATE_SUCCESS"
    "check_topic_result TOPIC_FILTER_TYPE [47, 35, 47, 97, 98] = STATE_SUCCESS"
    by (simp_all add: check_topic_result_def iotx_mc_check_rule_def)
  then show ?thesis
    using check_topic_total [of "[47, 97, 98, 47, 35]" TOPIC_NAME_TYPE st]
      check_topic_total [of "[47, 35, 47, 97, 98]" TOPIC_FILTER_TYPE st] by auto
qed

end
