(* ===== verification/Infra_Timer.thy ===== *)
theory Infra_Timer
  imports Prelude
begin

text \<open>
  The millisecond timers of \<open>src/eng/infra/infra_timer.c\<close>.  \<open>HAL_UptimeMs\<close> belongs to the
  platform: every operation takes the values its calls of it return, in order.  A pointer
  argument that may be \<open>NULL\<close> is an option.
\<close>

section \<open>The code\<close>

record iotx_time_t =
  time :: u32

definition UINT32_MAX :: u32 where
  "UINT32_MAX = 0xFFFFFFFF"

definition iotx_time_start :: "iotx_time_t option \<Rightarrow> u32 \<Rightarrow> iotx_time_t option" where
  "iotx_time_start timer uptime = (case timer of None \<Rightarrow> None
     | Some t \<Rightarrow> Some (t\<lparr>time := uptime\<rparr>))"

definition utils_time_spend :: "iotx_time_t option \<Rightarrow> u32 \<Rightarrow> u32" where
  "utils_time_spend start uptime = (case start of None \<Rightarrow> 0
     | Some t \<Rightarrow> let now = uptime; res = now - time t in res)"

definition utils_time_is_expired :: "iotx_time_t option \<Rightarrow> u32 \<Rightarrow> u32" where
  "utils_time_is_expired timer uptime = (case timer of None \<Rightarrow> 1
     | Some t \<Rightarrow> let cur_time = uptime in if cur_time - time t < UINT32_MAX div 2 then 1 else 0)"

text \<open>Two readings of the clock: the first inside \<open>utils_time_is_expired\<close>, the second for the
  difference that is returned.\<close>

definition iotx_time_left :: "iotx_time_t option \<Rightarrow> u32 \<Rightarrow> u32 \<Rightarrow> u32" where
  "iotx_time_left tend uptime uptime' = (case tend of None \<Rightarrow> 0
     | Some t \<Rightarrow> if utils_time_is_expired tend uptime \<noteq> 0 then 0
         else let now = uptime'; res = time t - now in res)"

definition iotx_time_init :: "iotx_time_t option \<Rightarrow> iotx_time_t option" where
  "iotx_time_init timer = (case timer of None \<Rightarrow> None | Some t \<Rightarrow> Some (t\<lparr>time := 0\<rparr>))"

definition utils_time_countdown_ms :: "iotx_time_t option \<Rightarrow> u32 \<Rightarrow> u32 \<Rightarrow> iotx_time_t option" where
  "utils_time_countdown_ms timer millisecond uptime = (case timer of None \<Rightarrow> None
     | Some t \<Rightarrow> Some (t\<lparr>time := uptime + millisecond\<rparr>))"

definition utils_time_get_ms :: "u32 \<Rightarrow> u32" where
  "utils_time_get_ms uptime = uptime"

section \<open>Real time against the wrapping counter\<close>

text \<open>The counter is the real number of milliseconds since start-up modulo \<open>2 ^ 32\<close>.\<close>

definition uptime_at :: "nat \<Rightarrow> u32" where
  "uptime_at T = of_nat T"

lemma u32_diff_fwd: "a \<le> b \<Longrightarrow> b - a < 2 ^ 32 \<Longrightarrow> unat (of_nat b - of_nat a :: u32) = b - a"
  by (simp add: unat_of_nat take_bit_nat_eq_self flip: of_nat_diff)

lemma u32_diff_back: "b < a \<Longrightarrow> a - b < 2 ^ 32 \<Longrightarrow> unat (of_nat b - of_nat a :: u32) = 2 ^ 32 - (a - b)"
proof -
  assume h: "b < a" "a - b < 2 ^ 32"
  have "of_nat b - of_nat a = (of_nat (2 ^ 32 - (a - b)) :: u32)"
    using h by (simp add: of_nat_diff)
  then show ?thesis using h by (simp add: unat_of_nat take_bit_nat_eq_self del: of_nat_diff)
qed

lemma unat_half_max: "unat (UINT32_MAX div 2) = 2147483647"
  by (simp add: UINT32_MAX_def)

text \<open>The comparison of the code, on real times, over the window in which it is meaningful.\<close>

lemma is_expired_window:
  assumes "tdue < T + 2147483650" "T < tdue + 2147483647"
  shows "utils_time_is_expired (Some \<lparr>time = uptime_at tdue\<rparr>) (uptime_at T) = (if tdue \<le> T then 1 else 0)"
proof (cases "tdue \<le> T")
  case True
  then have "unat (uptime_at T - uptime_at tdue) = T - tdue"
    using assms unfolding uptime_at_def by (intro u32_diff_fwd) auto
  with True assms show ?thesis
    by (simp add: utils_time_is_expired_def word_less_nat_alt unat_half_max)
next
  case False
  then have "unat (uptime_at T - uptime_at tdue) = 2 ^ 32 - (tdue - T)"
    using assms unfolding uptime_at_def by (intro u32_diff_back) auto
  with False assms show ?thesis
    by (simp add: utils_time_is_expired_def word_less_nat_alt unat_half_max)
qed

lemma countdown_due:
  "utils_time_countdown_ms (Some t) (of_nat d) (uptime_at T) = Some (t\<lparr>time := uptime_at (T + d)\<rparr>)"
  by (simp add: utils_time_countdown_ms_def uptime_at_def)

section \<open>Properties\<close>

text \<open>C24. A countdown of \<open>d\<close> milliseconds started at real time \<open>T0\<close> expires exactly when \<open>d\<close>
  milliseconds have passed, across any number of wrap-arounds of the 32-bit uptime counter,
  as long as \<open>d\<close> is at most \<open>2147483649\<close> and the timer is looked at less than
  \<open>2147483647\<close> ms (about 24.8 days) after it is due; \<open>utils_time_spend\<close> measures the time
  since \<open>iotx_time_start\<close>.\<close>

theorem countdown_expires_exactly:
  assumes "d \<le> 2147483649" "T0 \<le> T" "T - T0 < d + 2147483647"
  shows "utils_time_is_expired (utils_time_countdown_ms (Some t) (of_nat d) (uptime_at T0)) (uptime_at T)
           = (if T0 + d \<le> T then 1 else 0)
       \<and> (T - T0 < 2 ^ 32 \<longrightarrow>
            unat (utils_time_spend (iotx_time_start (Some t) (uptime_at T0)) (uptime_at T)) = T - T0)"
proof -
  have "utils_time_is_expired (Some \<lparr>time = uptime_at (T0 + d)\<rparr>) (uptime_at T) = (if T0 + d \<le> T then 1 else 0)"
    using assms by (intro is_expired_window) auto
  moreover have "utils_time_countdown_ms (Some t) (of_nat d) (uptime_at T0) = Some \<lparr>time = uptime_at (T0 + d)\<rparr>"
    unfolding countdown_due by (cases t) simp
  moreover have "unat (utils_time_spend (iotx_time_start (Some t) (uptime_at T0)) (uptime_at T)) = T - T0"
    if "T - T0 < 2 ^ 32"
    using u32_diff_fwd [OF assms(2) that] by (simp add: utils_time_spend_def iotx_time_start_def uptime_at_def)
  ultimately show ?thesis by simp
qed

theorem countdown_expires_exactly_witness:
  "utils_time_is_expired (utils_time_countdown_ms (Some \<lparr>time = 7\<rparr>) 5000 (uptime_at 4294966000)) (uptime_at 4294970999) = 0"
  using countdown_expires_exactly [of 5000 4294966000 4294970999 "\<lparr>time = 7\<rparr>"] by simp

text \<open>The remaining time of a countdown is right at every moment when both readings of the
  clock fall before the deadline, and zero when the first one does not.  When the deadline
  lies between the two readings the subtraction wraps: the call reports more than 49 days
  less the overrun instead of zero.\<close>

lemma time_left_race:
  assumes "tdue \<le> T + 2147483649" "T < tdue + 2147483647" "T \<le> T'" "T' < T + 2147483647"
  shows "iotx_time_left (Some \<lparr>time = uptime_at tdue\<rparr>) (uptime_at T) (uptime_at T') =
     (if tdue \<le> T then 0 else if T' \<le> tdue then of_nat (tdue - T') else of_nat (2 ^ 32 - (T' - tdue)))"
proof -
  have "iotx_time_left (Some \<lparr>time = uptime_at tdue\<rparr>) (uptime_at T) (uptime_at T') =
     (if tdue \<le> T then 0 else uptime_at tdue - uptime_at T')"
    using is_expired_window [of tdue T] assms by (simp add: iotx_time_left_def)
  moreover have "uptime_at tdue - uptime_at T' = of_nat (tdue - T')" if "T' \<le> tdue"
    using that by (simp add: uptime_at_def of_nat_diff)
  moreover have "uptime_at tdue - uptime_at T' = of_nat (2 ^ 32 - (T' - tdue))" if "\<not> T' \<le> tdue" "tdue > T"
    using that assms(4) by (simp add: uptime_at_def of_nat_diff)
  ultimately show ?thesis by auto
qed

end
