(* ===== verification/MQTT_Client_State.thy ===== *)
theory MQTT_Client_State
  imports MQTT_Codec MQTT_Topic Infra_Timer
begin

text \<open>
  The state of the MQTT client, \<open>src/eng/mqtt/iotx_mqtt_client.h\<close> and \<open>mqtt_api.h\<close>, and the
  platform it runs on.  The platform (\<open>src/eng/wrappers\<close>, the \<open>HAL_*\<close> functions) is the
  parameter \<open>h :: hal\<close>: what a call returns is a function of the number of platform calls made
  before it (\<open>tick\<close>) and of its arguments; \<open>hal_junk16\<close> is the content of an uninitialised
  \<open>unsigned short\<close>, \<open>hal_identity_cb\<close> says whether a callback for identity responses is registered.  An operation of the client is a function from the
  state to an optional pair of result and new state; \<open>None\<close> is a memory fault or a loop that
  does not end.

  User callbacks are recorded in \<open>events\<close> with the locks held at the call; a callback does not
  call back into the client.  \<open>held\<close> is the stack of locks held; \<open>lock_bad\<close> becomes true when
  a lock is taken although one of the same or a higher rank is held, or released out of order.
\<close>

section \<open>Platform\<close>

record hal =
  hal_uptime :: "nat \<Rightarrow> nat"
  hal_ssl_read :: "nat \<Rightarrow> nat \<Rightarrow> u32 \<Rightarrow> int \<times> bytes"
  hal_ssl_write :: "nat \<Rightarrow> bytes \<Rightarrow> u32 \<Rightarrow> int"
  hal_ssl_establish :: "nat \<Rightarrow> nat"
  hal_malloc :: "nat \<Rightarrow> nat \<Rightarrow> bool"
  hal_mutex :: "nat \<Rightarrow> bool"
  hal_identity_cb :: bool
  hal_junk16 :: "nat \<Rightarrow> u16"
  hal_sizeof_client :: nat

section \<open>Types of the client\<close>

text \<open>Function and context pointers are numbers; a null function pointer is \<open>None\<close>.\<close>

record iotx_mqtt_event_handle_t =
  h_fp :: "nat option"
  pcontext :: nat

datatype iotx_mqtt_event_type_t =
    IOTX_MQTT_EVENT_UNDEF | IOTX_MQTT_EVENT_DISCONNECT | IOTX_MQTT_EVENT_RECONNECT
  | IOTX_MQTT_EVENT_SUBCRIBE_SUCCESS | IOTX_MQTT_EVENT_SUBCRIBE_TIMEOUT | IOTX_MQTT_EVENT_SUBCRIBE_NACK
  | IOTX_MQTT_EVENT_UNSUBCRIBE_SUCCESS | IOTX_MQTT_EVENT_UNSUBCRIBE_TIMEOUT | IOTX_MQTT_EVENT_UNSUBCRIBE_NACK
  | IOTX_MQTT_EVENT_PUBLISH_SUCCESS | IOTX_MQTT_EVENT_PUBLISH_TIMEOUT | IOTX_MQTT_EVENT_PUBLISH_NACK
  | IOTX_MQTT_EVENT_PUBLISH_RECEIVED | IOTX_MQTT_EVENT_BUFFER_OVERFLOW

record iotx_mqtt_topic_info_t =
  ti_packet_id :: u16
  ti_qos :: byte
  ti_dup :: byte
  ti_retain :: byte
  ti_topic_len :: u16
  ti_payload_len :: u32
  ti_ptopic :: "bytes option"
  ti_payload :: "bytes option"

datatype event_msg = Msg_null | Msg_text | Msg_packet_id u16 | Msg_topic iotx_mqtt_topic_info_t

record iotx_mqtt_event_msg_t =
  event_type :: iotx_mqtt_event_type_t
  msg :: event_msg

datatype iotx_mc_state_t =
    IOTX_MC_STATE_INVALID | IOTX_MC_STATE_INITIALIZED | IOTX_MC_STATE_CONNECTED
  | IOTX_MC_STATE_DISCONNECTED | IOTX_MC_STATE_DISCONNECTED_RECONNECTING | IOTX_MC_STATE_CONNECT_BLOCK

datatype iotx_mc_node_t = IOTX_MC_NODE_STATE_NORMANL | IOTX_MC_NODE_STATE_INVALID

record iotx_mc_topic_handle_t =
  topic_type :: iotx_mc_topic_type_t
  th_handle :: iotx_mqtt_event_handle_t
  topic_filter :: bytes

record iotx_mc_pub_info_t =
  pub_start_time :: iotx_time_t
  node_state :: iotx_mc_node_t
  msg_id :: u16
  pub_len :: nat
  pub_buf :: bytes

record iotx_mc_reconnect_param_t =
  reconnect_next_time :: iotx_time_t
  reconnect_time_interval_ms :: u32

record mqtt_sub_sync_node_t =
  sync_packet_id :: int
  ack_type :: iotx_mqtt_event_type_t

record utils_network_t =
  pHostAddress :: "bytes option"
  port :: u16
  ca_crt_len :: u16
  ca_crt :: "bytes option"
  handle :: nat

datatype mc_lock = Lock_yield | Lock_read_buf | Lock_list_pub | Lock_write_buf | Lock_generic

text \<open>The client structure; the five lock pointers are present or null.\<close>

record iotx_mc_client_t =
  lock_generic :: bool
  packet_id :: nat
  request_timeout_ms :: u32
  cycle_timeout_ms :: u32
  buf_size_send :: nat
  buf_size_send_max :: nat
  buf_size_read_max :: nat
  buf_size_read :: nat
  keepalive_probes :: byte
  buf_send :: "bytes option"
  buf_read :: "bytes option"
  list_sub_handle :: "iotx_mc_topic_handle_t list"
  ipstack :: utils_network_t
  next_ping_time :: iotx_time_t
  client_state :: iotx_mc_state_t
  reconnect_param :: iotx_mc_reconnect_param_t
  connect_data :: MQTTPacket_connectData
  list_pub_wait_ack :: "iotx_mc_pub_info_t list"
  list_sub_sync_ack :: "mqtt_sub_sync_node_t list"
  lock_list_pub :: bool
  lock_write_buf :: bool
  lock_read_buf :: bool
  lock_yield :: bool
  handle_event :: iotx_mqtt_event_handle_t

text \<open>What the user of the client observes besides results: callbacks with the locks held.\<close>

datatype mc_event =
    Ev_callback nat nat iotx_mqtt_event_msg_t "mc_lock list"
  | Ev_identity bytes

text \<open>The client together with the rest of the program state: the number of platform calls, the
  locks, the live mutexes, the bytes sent, the events, the static variables \<open>_in_yield_cb\<close> and
  those of \<open>infra_strtok\<close>, and the product key and device name kept by \<open>IOT_Ioctl\<close>.\<close>

record mc = iotx_mc_client_t +
  tick :: nat
  held :: "mc_lock list"
  lock_bad :: bool
  mutexes :: nat
  sent :: bytes
  events :: "mc_event list"
  in_yield_cb :: bool
  tok :: strtok_static
  ctx_product_key :: bytes
  ctx_device_name :: bytes

type_synonym 'a mc_result = "('a \<times> mc) option"

section \<open>Configuration\<close>

abbreviation (input) CONFIG_MQTT_KEEPALIVE_INTERVAL :: nat where "CONFIG_MQTT_KEEPALIVE_INTERVAL \<equiv> 60"
abbreviation (input) CONFIG_MQTT_KEEPALIVE_INTERVAL_MIN :: nat where "CONFIG_MQTT_KEEPALIVE_INTERVAL_MIN \<equiv> 30"
abbreviation (input) CONFIG_MQTT_KEEPALIVE_INTERVAL_MAX :: nat where "CONFIG_MQTT_KEEPALIVE_INTERVAL_MAX \<equiv> 1200"
abbreviation (input) CONFIG_MQTT_REQUEST_TIMEOUT :: u32 where "CONFIG_MQTT_REQUEST_TIMEOUT \<equiv> 5000"
abbreviation (input) CONFIG_MQTT_REQ_TIMEOUT_MIN :: u32 where "CONFIG_MQTT_REQ_TIMEOUT_MIN \<equiv> 1000"
abbreviation (input) CONFIG_MQTT_REQ_TIMEOUT_MAX :: u32 where "CONFIG_MQTT_REQ_TIMEOUT_MAX \<equiv> 10000"
abbreviation (input) MUTLI_SUBSCIRBE_MAX :: int where "MUTLI_SUBSCIRBE_MAX \<equiv> 5"
abbreviation (input) IOTX_MC_REPUB_NUM_MAX :: nat where "IOTX_MC_REPUB_NUM_MAX \<equiv> 10"
abbreviation (input) IOTX_MC_PACKET_ID_MAX :: nat where "IOTX_MC_PACKET_ID_MAX \<equiv> 65535"
abbreviation (input) IOTX_MC_RECONNECT_INTERVAL_MIN_MS :: u32 where "IOTX_MC_RECONNECT_INTERVAL_MIN_MS \<equiv> 1000"
abbreviation (input) IOTX_MC_RECONNECT_INTERVAL_MAX_MS :: u32 where "IOTX_MC_RECONNECT_INTERVAL_MAX_MS \<equiv> 30000"
abbreviation (input) IOTX_MC_KEEPALIVE_PROBE_MAX :: byte where "IOTX_MC_KEEPALIVE_PROBE_MAX \<equiv> 2"
abbreviation (input) MQTT_DYNBUF_SEND_MARGIN :: int where "MQTT_DYNBUF_SEND_MARGIN \<equiv> 64"
abbreviation (input) MQTT_DYNBUF_RECV_MARGIN :: int where "MQTT_DYNBUF_RECV_MARGIN \<equiv> 8"
abbreviation (input) RETRY_TIME_LIMIT :: nat where "RETRY_TIME_LIMIT \<equiv> 9"
abbreviation (input) WAIT_CONNACK_MAX :: nat where "WAIT_CONNACK_MAX \<equiv> 10"
abbreviation (input) MQTT_PUBLISH_PACKET_ERROR :: int where "MQTT_PUBLISH_PACKET_ERROR \<equiv> -21"
abbreviation (input) MQTT_PUBLISH_ACK_PACKET_ERROR :: int where "MQTT_PUBLISH_ACK_PACKET_ERROR \<equiv> -19"
abbreviation (input) ERROR_CERT_VERIFY_FAIL :: int where "ERROR_CERT_VERIFY_FAIL \<equiv> -309"
abbreviation (input) ERROR_CERTIFICATE_EXPIRED :: int where "ERROR_CERTIFICATE_EXPIRED \<equiv> -1015"

section \<open>Platform calls\<close>

definition ticked :: "mc \<Rightarrow> mc" where
  "ticked s = s\<lparr>tick := Suc (tick s)\<rparr>"

definition HAL_UptimeMs :: "hal \<Rightarrow> mc \<Rightarrow> u32 \<times> mc" where
  "HAL_UptimeMs h s = (of_nat (hal_uptime h (tick s)), ticked s)"

definition HAL_SleepMs :: "u32 \<Rightarrow> mc \<Rightarrow> mc" where
  "HAL_SleepMs ms s = ticked s"

definition HAL_Malloc :: "hal \<Rightarrow> nat \<Rightarrow> mc \<Rightarrow> bool \<times> mc" where
  "HAL_Malloc h n s = (hal_malloc h (tick s) n, ticked s)"

text \<open>The order in which locks nest.\<close>

fun lock_rank :: "mc_lock \<Rightarrow> nat" where
  "lock_rank Lock_yield = 0"
| "lock_rank Lock_read_buf = 1"
| "lock_rank Lock_list_pub = 2"
| "lock_rank Lock_write_buf = 3"
| "lock_rank Lock_generic = 4"

definition HAL_MutexLock :: "mc_lock \<Rightarrow> mc \<Rightarrow> mc" where
  "HAL_MutexLock l s = s\<lparr>held := l # held s,
     lock_bad := (lock_bad s \<or> (\<exists>m \<in> set (held s). lock_rank l \<le> lock_rank m))\<rparr>"

definition HAL_MutexUnlock :: "mc_lock \<Rightarrow> mc \<Rightarrow> mc" where
  "HAL_MutexUnlock l s = s\<lparr>held := tl (held s), lock_bad := (lock_bad s \<or> held s = [] \<or> hd (held s) \<noteq> l)\<rparr>"

definition HAL_MutexCreate :: "hal \<Rightarrow> mc \<Rightarrow> bool \<times> mc" where
  "HAL_MutexCreate h s = (let r = hal_mutex h (tick s) in
     (r, (ticked s)\<lparr>mutexes := (if r then Suc (mutexes s) else mutexes s)\<rparr>))"

definition HAL_MutexDestroy :: "mc \<Rightarrow> mc" where
  "HAL_MutexDestroy s = s\<lparr>mutexes := mutexes s - 1\<rparr>"

section \<open>Timers of the client\<close>

text \<open>The operations of \<open>infra_timer.c\<close> with their readings of the clock.\<close>

definition time_is_expired :: "hal \<Rightarrow> iotx_time_t \<Rightarrow> mc \<Rightarrow> bool \<times> mc" where
  "time_is_expired h t s = (let (up, s) = HAL_UptimeMs h s in (utils_time_is_expired (Some t) up \<noteq> 0, s))"

definition time_left :: "hal \<Rightarrow> iotx_time_t \<Rightarrow> mc \<Rightarrow> u32 \<times> mc" where
  "time_left h t s = (let (up, s) = HAL_UptimeMs h s in
     if utils_time_is_expired (Some t) up \<noteq> 0 then (iotx_time_left (Some t) up up, s)
     else let (up', s) = HAL_UptimeMs h s in (iotx_time_left (Some t) up up', s))"

definition time_countdown :: "hal \<Rightarrow> u32 \<Rightarrow> mc \<Rightarrow> iotx_time_t \<times> mc" where
  "time_countdown h ms s = (let (up, s) = HAL_UptimeMs h s in
     (the (utils_time_countdown_ms (iotx_time_init (Some \<lparr>time = 0\<rparr>)) ms up), s))"

definition time_start :: "hal \<Rightarrow> mc \<Rightarrow> iotx_time_t \<times> mc" where
  "time_start h s = (let (up, s) = HAL_UptimeMs h s in (the (iotx_time_start (Some \<lparr>time = 0\<rparr>) up), s))"

definition time_spend :: "hal \<Rightarrow> iotx_time_t \<Rightarrow> mc \<Rightarrow> u32 \<times> mc" where
  "time_spend h t s = (let (up, s) = HAL_UptimeMs h s in (utils_time_spend (Some t) up, s))"

text \<open>\<open>left_t = iotx_time_left(t); left_t = (left_t == 0) ? 1 : left_t;\<close>\<close>

definition time_left_1 :: "hal \<Rightarrow> iotx_time_t \<Rightarrow> mc \<Rightarrow> u32 \<times> mc" where
  "time_left_1 h t s = (let (left_t, s) = time_left h t s in (if left_t = 0 then 1 else left_t, s))"

section \<open>Network (infra_net.c)\<close>

text \<open>The TLS build: \<open>read_ssl\<close>, \<open>write_ssl\<close>, \<open>disconnect_ssl\<close> and \<open>connect_ssl\<close> on the
  structure \<open>ipstack\<close> of the client, which is never null.  A read yields the return value of the
  platform and the bytes it stored.\<close>

definition utils_net_read :: "hal \<Rightarrow> nat \<Rightarrow> u32 \<Rightarrow> mc \<Rightarrow> (int \<times> bytes) \<times> mc" where
  "utils_net_read h len timeout_ms s = (let (rc, bs) = hal_ssl_read h (tick s) len timeout_ms in
     ((rc, take len bs), ticked s))"

definition utils_net_write :: "hal \<Rightarrow> bytes \<Rightarrow> u32 \<Rightarrow> mc \<Rightarrow> int \<times> mc" where
  "utils_net_write h buf timeout_ms s = (let rc = hal_ssl_write h (tick s) buf timeout_ms in
     (rc, (ticked s)\<lparr>sent := sent s @ take (nat rc) buf\<rparr>))"

definition iotx_net_disconnect :: "mc \<Rightarrow> int \<times> mc" where
  "iotx_net_disconnect s = (STATE_SUCCESS, (ticked s)\<lparr>ipstack := (ipstack s)\<lparr>handle := 0\<rparr>\<rparr>)"

definition iotx_net_connect :: "hal \<Rightarrow> mc \<Rightarrow> int \<times> mc" where
  "iotx_net_connect h s = (let hdl = hal_ssl_establish h (tick s);
       s = (ticked s)\<lparr>ipstack := (ipstack s)\<lparr>handle := hdl\<rparr>\<rparr>
     in (if hdl \<noteq> 0 then STATE_SUCCESS else STATE_SYS_DEPEND_NWK_INVALID_HANDLE, s))"

definition iotx_net_init :: "utils_network_t \<Rightarrow> bytes option \<Rightarrow> u16 \<Rightarrow> bytes option \<Rightarrow> int \<times> utils_network_t" where
  "iotx_net_init net host prt crt = (case host of None \<Rightarrow> (STATE_USER_INPUT_INVALID, net)
     | Some _ \<Rightarrow> (STATE_SUCCESS, net\<lparr>pHostAddress := host, port := prt, ca_crt := crt,
         ca_crt_len := (case crt of None \<Rightarrow> 0 | Some c \<Rightarrow> of_nat (length c)), handle := 0\<rparr>))"

end
