(* ===== verification/MQTT_Client_Send.thy ===== *)
theory MQTT_Client_Send
  imports MQTT_Client_State
begin

text \<open>
  The sending half of \<open>src/eng/mqtt/iotx_mqtt_client.c\<close>: client state and buffers, the
  transmission loop, CONNECT, PUBACK, PINGREQ, PUBLISH with its list of messages that wait for
  an acknowledgement, SUBSCRIBE, UNSUBSCRIBE and DISCONNECT.  The configuration is the one of the
  repository: dynamic memory, dynamic buffers, QoS 1 enabled, no topic compression, the
  synchronous protocol stack.  Sizes passed to \<open>HAL_Malloc\<close> are those of a 32-bit target.
\<close>

section \<open>Client state and buffers\<close>

definition iotx_mc_set_client_state :: "iotx_mc_state_t \<Rightarrow> mc \<Rightarrow> mc" where
  "iotx_mc_set_client_state newState s =
    (let s = HAL_MutexLock Lock_generic s;
         s = s\<lparr>client_state := newState\<rparr>
     in HAL_MutexUnlock Lock_generic s)"

definition iotx_mc_get_client_state :: "mc \<Rightarrow> iotx_mc_state_t \<times> mc" where
  "iotx_mc_get_client_state s =
    (let s = HAL_MutexLock Lock_generic s;
         state = client_state s
     in (state, HAL_MutexUnlock Lock_generic s))"

definition wrapper_mqtt_check_state :: "mc \<Rightarrow> bool \<times> mc" where
  "wrapper_mqtt_check_state s =
    (let (state, s) = iotx_mc_get_client_state s in (state = IOTX_MC_STATE_CONNECTED, s))"

definition get_connect_length :: "MQTTPacket_connectData \<Rightarrow> int" where
  "get_connect_length options = MQTTPacket_len (MQTTSerialize_connectLength options)"

definition reset_send_buffer :: "mc \<Rightarrow> int \<times> mc" where
  "reset_send_buffer s = (case buf_send s of None \<Rightarrow> (STATE_USER_INPUT_INVALID, s)
     | Some _ \<Rightarrow> (STATE_SUCCESS, s\<lparr>buf_send := None, buf_size_send := 0\<rparr>))"

definition reset_recv_buffer :: "mc \<Rightarrow> int \<times> mc" where
  "reset_recv_buffer s = (case buf_read s of None \<Rightarrow> (STATE_USER_INPUT_INVALID, s)
     | Some _ \<Rightarrow> (STATE_SUCCESS, s\<lparr>buf_read := None, buf_size_read := 0\<rparr>))"

text \<open>\<open>tmp_len\<close> is an \<open>int\<close>; it is compared with the unsigned limit and passed on as a size, so its
  value modulo \<open>2^32\<close> is what counts.\<close>

definition alloc_send_buffer :: "hal \<Rightarrow> int \<Rightarrow> mc \<Rightarrow> int \<times> mc" where
  "alloc_send_buffer h len s =
    (let tmp_len = nat (to_u32 (MQTT_DYNBUF_SEND_MARGIN + len));
         tmp_len = (if tmp_len > buf_size_send_max s then buf_size_send_max s else tmp_len);
         (p, s) = HAL_Malloc h tmp_len s
     in if \<not> p then (STATE_SYS_DEPEND_MALLOC, s\<lparr>buf_send := None\<rparr>)
        else (STATE_SUCCESS, s\<lparr>buf_send := Some (replicate tmp_len 0), buf_size_send := tmp_len\<rparr>))"

definition alloc_recv_buffer :: "hal \<Rightarrow> int \<Rightarrow> mc \<Rightarrow> (int \<times> mc) option" where
  "alloc_recv_buffer h len s =
    (let tmp_len = nat (to_u32 (MQTT_DYNBUF_RECV_MARGIN + len));
         tmp_len = (if tmp_len > buf_size_read_max s then buf_size_read_max s else tmp_len);
         (p, s) = HAL_Malloc h tmp_len s
     in if \<not> p then Some (STATE_SYS_DEPEND_MALLOC, s)
        else (case buf_read s of
            Some old \<Rightarrow> do {
              bs \<leftarrow> load_n old 0 (if buf_size_read s < tmp_len then buf_size_read s else tmp_len);
              temp \<leftarrow> store_n (replicate tmp_len 0) 0 bs;
              Some (STATE_SUCCESS, s\<lparr>buf_read := Some temp, buf_size_read := tmp_len\<rparr>) }
          | None \<Rightarrow> Some (STATE_SUCCESS, s\<lparr>buf_read := Some (replicate tmp_len 0), buf_size_read := tmp_len\<rparr>)))"

section \<open>Transmission\<close>

text \<open>\<open>bs\<close> are the \<open>length\<close> bytes to send, \<open>n\<close> is the counter \<open>sent\<close>, which is returned.\<close>

partial_function (option) send_loop :: "hal \<Rightarrow> iotx_time_t \<Rightarrow> bytes \<Rightarrow> nat \<Rightarrow> mc \<Rightarrow> (nat \<times> mc) option" where
  "send_loop h t bs n s =
    (if n < length bs then
       let (expired, s) = time_is_expired h t s in
       if expired then Some (n, s)
       else let (left_t, s) = time_left_1 h t s;
                (rc, s) = utils_net_write h (drop n bs) left_t s
            in if rc < 0 then Some (n, s) else send_loop h t bs (n + nat rc) s
     else Some (n, s))"

definition iotx_mc_send_packet :: "hal \<Rightarrow> bytes \<Rightarrow> nat \<Rightarrow> iotx_time_t \<Rightarrow> mc \<Rightarrow> int mc_result" where
  "iotx_mc_send_packet h buf len t s = do {
     bs \<leftarrow> load_n buf 0 len;
     (n, s) \<leftarrow> send_loop h t bs 0 s;
     Some (if n = len then STATE_SUCCESS else STATE_SYS_DEPEND_NWK_CLOSE, s) }"

text \<open>The exit of the senders: free the send buffer and release its lock.\<close>

definition send_exit :: "mc \<Rightarrow> mc" where
  "send_exit s = HAL_MutexUnlock Lock_write_buf (snd (reset_send_buffer s))"

definition MQTTConnect :: "hal \<Rightarrow> mc \<Rightarrow> int mc_result" where
  "MQTTConnect h s = do {
     let s = HAL_MutexLock Lock_write_buf s;
     let len = get_connect_length (connect_data s);
     let (res, s) = alloc_send_buffer h len s;
     if res < STATE_SUCCESS then Some (res, HAL_MutexUnlock Lock_write_buf s)
     else do {
       buf \<leftarrow> buf_send s;
       (len, buf) \<leftarrow> MQTTSerialize_connect buf (to_s32 (int (buf_size_send s))) (connect_data s);
       let s = s\<lparr>buf_send := Some buf\<rparr>;
       if len \<le> 0 then Some (STATE_MQTT_SERIALIZE_CONN_ERROR, send_exit s)
       else do {
         let (connectTimer, s) = time_countdown h (request_timeout_ms s) s;
         (res, s) \<leftarrow> iotx_mc_send_packet h buf (nat len) connectTimer s;
         if res < STATE_SUCCESS then Some (res, send_exit s)
         else Some (STATE_SUCCESS, send_exit s) } } }"

definition MQTTPuback :: "hal \<Rightarrow> u16 \<Rightarrow> byte \<Rightarrow> mc \<Rightarrow> int mc_result" where
  "MQTTPuback h msgId type s = do {
     let (timer, s) = time_countdown h (request_timeout_ms s) s;
     let s = HAL_MutexLock Lock_write_buf s;
     if type = PUBACK then do {
       let (rc, s) = alloc_send_buffer h 0 s;
       if rc < STATE_SUCCESS then Some (rc, HAL_MutexUnlock Lock_write_buf s)
       else do {
         buf \<leftarrow> buf_send s;
         (len, buf) \<leftarrow> MQTTSerialize_ack buf (to_s32 (int (buf_size_send s))) PUBACK 0 msgId;
         let s = s\<lparr>buf_send := Some buf\<rparr>;
         if len \<le> 0 then Some (STATE_MQTT_SERIALIZE_PUBACK_ERROR, send_exit s)
         else do {
           (rc, s) \<leftarrow> iotx_mc_send_packet h buf (nat len) timer s;
           if rc < STATE_SUCCESS then Some (rc, send_exit s)
           else Some (STATE_SUCCESS, send_exit s) } } }
     else Some (STATE_MQTT_SERIALIZE_PUBACK_ERROR, HAL_MutexUnlock Lock_write_buf s) }"

definition MQTTKeepalive :: "hal \<Rightarrow> mc \<Rightarrow> int mc_result" where
  "MQTTKeepalive h s = do {
     let (timer, s) = time_countdown h 1000 s;
     let s = HAL_MutexLock Lock_write_buf s;
     let (rc, s) = alloc_send_buffer h 0 s;
     if rc < STATE_SUCCESS then Some (rc, HAL_MutexUnlock Lock_write_buf s)
     else do {
       buf \<leftarrow> buf_send s;
       (len, buf) \<leftarrow> MQTTSerialize_pingreq buf (to_s32 (int (buf_size_send s)));
       let s = s\<lparr>buf_send := Some buf\<rparr>;
       if len \<le> 0 then Some (STATE_MQTT_SERIALIZE_PINGREQ_ERROR, send_exit s)
       else do {
         (rc, s) \<leftarrow> iotx_mc_send_packet h buf (nat len) timer s;
         if rc < STATE_SUCCESS then Some (STATE_SYS_DEPEND_NWK_CLOSE, send_exit s)
         else Some (STATE_SUCCESS, send_exit s) } } }"

definition MQTTDisconnect :: "hal \<Rightarrow> mc \<Rightarrow> int mc_result" where
  "MQTTDisconnect h s = do {
     let s = HAL_MutexLock Lock_write_buf s;
     let (res, s) = alloc_send_buffer h 0 s;
     if res < STATE_SUCCESS then Some (res, HAL_MutexUnlock Lock_write_buf s)
     else do {
       buf \<leftarrow> buf_send s;
       (len, buf) \<leftarrow> MQTTSerialize_disconnect buf (to_s32 (int (buf_size_send s)));
       let s = s\<lparr>buf_send := Some buf\<rparr>;
       let (timer, s) = time_countdown h (request_timeout_ms s) s;
       (rc, s) \<leftarrow> (if len > 0 then iotx_mc_send_packet h buf (nat len) timer s else Some (STATE_SUCCESS, s));
       Some (rc, send_exit s) } }"

section \<open>Publishing\<close>

definition iotx_mc_push_pubInfo_to :: "hal \<Rightarrow> int \<Rightarrow> u16 \<Rightarrow> mc \<Rightarrow> int mc_result" where
  "iotx_mc_push_pubInfo_to h len msgId s =
    (if len < 0 \<or> len > int (buf_size_send s) then Some (STATE_MQTT_TX_BUFFER_TOO_SHORT, s)
     else if length (list_pub_wait_ack s) \<ge> IOTX_MC_REPUB_NUM_MAX then Some (STATE_MQTT_QOS1_REPUB_EXCEED_MAX, s)
     else do {
       let (p, s) = HAL_Malloc h (28 + nat len) s;
       if \<not> p then Some (STATE_SYS_DEPEND_MALLOC, s)
       else do {
         let (now, s) = time_start h s;
         buf \<leftarrow> buf_send s;
         bs \<leftarrow> load_n buf 0 (nat len);
         let repubInfo = \<lparr>pub_start_time = now, node_state = IOTX_MC_NODE_STATE_NORMANL, msg_id = msgId,
                          pub_len = nat len, pub_buf = bs\<rparr>;
         Some (STATE_SUCCESS, s\<lparr>list_pub_wait_ack := list_pub_wait_ack s @ [repubInfo]\<rparr>) } })"

definition iotx_mc_mask_pubInfo_from :: "u16 \<Rightarrow> mc \<Rightarrow> int \<times> mc" where
  "iotx_mc_mask_pubInfo_from msgId s =
    (let s = HAL_MutexLock Lock_list_pub s;
         s = s\<lparr>list_pub_wait_ack := map (\<lambda>node. if msg_id node = msgId
               then node\<lparr>node_state := IOTX_MC_NODE_STATE_INVALID\<rparr> else node) (list_pub_wait_ack s)\<rparr>
     in (STATE_SUCCESS, HAL_MutexUnlock Lock_list_pub s))"

definition MQTTRePublish :: "hal \<Rightarrow> bytes \<Rightarrow> nat \<Rightarrow> mc \<Rightarrow> int mc_result" where
  "MQTTRePublish h buf len s = do {
     let (timer, s) = time_countdown h (request_timeout_ms s) s;
     let s = HAL_MutexLock Lock_write_buf s;
     (rc, s) \<leftarrow> iotx_mc_send_packet h buf len timer s;
     if rc \<noteq> STATE_SUCCESS then Some (STATE_SYS_DEPEND_NWK_CLOSE, HAL_MutexUnlock Lock_write_buf s)
     else Some (STATE_SUCCESS, HAL_MutexUnlock Lock_write_buf s) }"

text \<open>The walk over the list; the result is the list that is left, the state of each node
  updated.\<close>

fun pub_info_loop :: "hal \<Rightarrow> iotx_mc_pub_info_t list \<Rightarrow> mc \<Rightarrow> (iotx_mc_pub_info_t list) mc_result" where
  "pub_info_loop h [] s = Some ([], s)"
| "pub_info_loop h (node # nodes) s =
    (if node_state node = IOTX_MC_NODE_STATE_INVALID then pub_info_loop h nodes s
     else let (state, s) = iotx_mc_get_client_state s in
     if state \<noteq> IOTX_MC_STATE_CONNECTED
     then do { (rest, s) \<leftarrow> pub_info_loop h nodes s; Some (node # rest, s) }
     else let (spend, s) = time_spend h (pub_start_time node) s in
     if spend \<le> request_timeout_ms s * 2
     then do { (rest, s) \<leftarrow> pub_info_loop h nodes s; Some (node # rest, s) }
     else do {
       (rc, s) \<leftarrow> MQTTRePublish h (pub_buf node) (pub_len node) s;
       let (now, s) = time_start h s;
       let node = node\<lparr>pub_start_time := now\<rparr>;
       if rc = STATE_SYS_DEPEND_NWK_CLOSE
       then Some (node # nodes, iotx_mc_set_client_state IOTX_MC_STATE_DISCONNECTED s)
       else do { (rest, s) \<leftarrow> pub_info_loop h nodes s; Some (node # rest, s) } })"

definition MQTTPubInfoProc :: "hal \<Rightarrow> mc \<Rightarrow> int mc_result" where
  "MQTTPubInfoProc h s = do {
     let s = HAL_MutexLock Lock_list_pub s;
     (nodes, s) \<leftarrow> pub_info_loop h (list_pub_wait_ack s) s;
     let s = s\<lparr>list_pub_wait_ack := nodes\<rparr>;
     Some (STATE_SUCCESS, HAL_MutexUnlock Lock_list_pub s) }"

text \<open>On a failed transmission the node just appended is taken off the list again.\<close>

definition MQTTPublish :: "hal \<Rightarrow> bytes \<Rightarrow> iotx_mqtt_topic_info_t \<Rightarrow> mc \<Rightarrow> int mc_result" where
  "MQTTPublish h topicName topic_msg s = do {
     let topic = MQTTString_initializer\<lparr>cstring := Some topicName\<rparr>;
     let (timer, s) = time_countdown h (request_timeout_ms s) s;
     let s = HAL_MutexLock Lock_list_pub s;
     let s = HAL_MutexLock Lock_write_buf s;
     let (res, s) = alloc_send_buffer h (to_s32 (int (length topicName) + uint (ti_payload_len topic_msg))) s;
     if res < STATE_SUCCESS then Some (res, HAL_MutexUnlock Lock_list_pub (HAL_MutexUnlock Lock_write_buf s))
     else do {
       buf \<leftarrow> buf_send s;
       payload \<leftarrow> ti_payload topic_msg;
       (len, buf) \<leftarrow> MQTTSerialize_publish buf (to_s32 (int (buf_size_send s))) 0 (uint (ti_qos topic_msg))
          (ti_retain topic_msg) (ti_packet_id topic_msg) topic payload (to_s32 (uint (ti_payload_len topic_msg)));
       let s = s\<lparr>buf_send := Some buf\<rparr>;
       if len \<le> 0 then Some (STATE_MQTT_SERIALIZE_PUB_ERROR, HAL_MutexUnlock Lock_list_pub (send_exit s))
       else do {
         (res, s) \<leftarrow> (if ti_qos topic_msg > 0 then iotx_mc_push_pubInfo_to h len (ti_packet_id topic_msg) s
                       else Some (STATE_SUCCESS, s));
         if res < STATE_SUCCESS then Some (res, HAL_MutexUnlock Lock_list_pub (send_exit s))
         else do {
           (rc, s) \<leftarrow> iotx_mc_send_packet h buf (nat len) timer s;
           if rc \<noteq> STATE_SUCCESS then
             (let s = (if ti_qos topic_msg > 0 then s\<lparr>list_pub_wait_ack := butlast (list_pub_wait_ack s)\<rparr> else s)
              in Some (STATE_SYS_DEPEND_NWK_CLOSE, HAL_MutexUnlock Lock_list_pub (send_exit s)))
           else Some (STATE_SUCCESS, HAL_MutexUnlock Lock_list_pub (send_exit s)) } } } }"

section \<open>Subscriptions\<close>

definition iotx_mc_get_next_packetid :: "mc \<Rightarrow> nat \<times> mc" where
  "iotx_mc_get_next_packetid s =
    (let s = HAL_MutexLock Lock_generic s;
         s = s\<lparr>packet_id := (if packet_id s = IOTX_MC_PACKET_ID_MAX then 1 else packet_id s + 1)\<rparr>;
         i = packet_id s
     in (i, HAL_MutexUnlock Lock_generic s))"

definition iotx_mc_check_handle_is_identical_ex ::
    "iotx_mc_topic_handle_t \<Rightarrow> iotx_mc_topic_handle_t \<Rightarrow> int" where
  "iotx_mc_check_handle_is_identical_ex messageHandlers1 messageHandler2 =
    (let topicNameLen = length (topic_filter messageHandlers1) in
     if topicNameLen \<noteq> length (topic_filter messageHandler2) then 1
     else if take topicNameLen (topic_filter messageHandlers1) \<noteq> take topicNameLen (topic_filter messageHandler2) then 1
     else 0)"

definition iotx_mc_check_handle_is_identical ::
    "iotx_mc_topic_handle_t \<Rightarrow> iotx_mc_topic_handle_t \<Rightarrow> int" where
  "iotx_mc_check_handle_is_identical messageHandlers1 messageHandler2 =
    (if iotx_mc_check_handle_is_identical_ex messageHandlers1 messageHandler2 \<noteq> 0 then 1
     else if h_fp (th_handle messageHandlers1) \<noteq> h_fp (th_handle messageHandler2) then 1
     else if pcontext (th_handle messageHandlers1) \<noteq> pcontext (th_handle messageHandler2) then 1
     else 0)"

text \<open>The block that adds a handler unless an identical one is registered (written twice in the
  source).\<close>

definition sub_handle_add :: "iotx_mc_topic_handle_t \<Rightarrow> mc \<Rightarrow> mc" where
  "sub_handle_add handler s =
    (let s = HAL_MutexLock Lock_generic s;
         dup = (\<exists>node \<in> set (list_sub_handle s). iotx_mc_check_handle_is_identical node handler = 0);
         s = (if \<not> dup then s\<lparr>list_sub_handle := list_sub_handle s @ [handler]\<rparr> else s)
     in HAL_MutexUnlock Lock_generic s)"

definition MQTTSubscribe ::
    "hal \<Rightarrow> bytes \<Rightarrow> int \<Rightarrow> nat \<Rightarrow> nat option \<Rightarrow> nat \<Rightarrow> mc \<Rightarrow> int mc_result" where
  "MQTTSubscribe h topicFilter qos msgId messageHandler pctx s =
    (if messageHandler = None then Some (STATE_USER_INPUT_INVALID, s)
     else do {
     let topic = MQTTString_initializer\<lparr>cstring := Some topicFilter\<rparr>;
     let (timer, s) = time_countdown h (request_timeout_ms s) s;
     let (p, s) = HAL_Malloc h 24 s;
     if \<not> p then Some (STATE_SYS_DEPEND_MALLOC, s)
     else do {
     let (p, s) = HAL_Malloc h (length topicFilter + 1) s;
     if \<not> p then Some (STATE_SYS_DEPEND_MALLOC, s)
     else do {
     let handler = \<lparr>topic_type = TOPIC_NAME_TYPE, th_handle = \<lparr>h_fp = messageHandler, pcontext = pctx\<rparr>,
                    topic_filter = topicFilter\<rparr>;
     if qos = 3 then Some (STATE_SUCCESS, sub_handle_add handler s)
     else do {
     let s = HAL_MutexLock Lock_write_buf s;
     let (res, s) = alloc_send_buffer h (int (length topicFilter)) s;
     if res < STATE_SUCCESS then Some (res, HAL_MutexUnlock Lock_write_buf s)
     else do {
       buf \<leftarrow> buf_send s;
       (len, buf) \<leftarrow> MQTTSerialize_subscribe buf (to_s32 (int (buf_size_send s))) 0 (of_nat msgId) [(topic, qos)];
       let s = s\<lparr>buf_send := Some buf\<rparr>;
       if len \<le> 0 then Some (STATE_MQTT_SERIALIZE_SUB_ERROR, send_exit s)
       else do {
         (rc, s) \<leftarrow> iotx_mc_send_packet h buf (nat len) timer s;
         if rc \<noteq> STATE_SUCCESS then Some (STATE_SYS_DEPEND_NWK_CLOSE, send_exit s)
         else Some (STATE_SUCCESS, sub_handle_add handler (send_exit s)) } } } } } })"

text \<open>The walk that removes handlers: a handler goes when the topic equals its filter or matches it.\<close>

fun unsub_loop :: "MQTTString \<Rightarrow> bytes \<Rightarrow> iotx_mc_topic_handle_t list \<Rightarrow> iotx_mc_topic_handle_t list option" where
  "unsub_loop cur_topic name [] = Some []"
| "unsub_loop cur_topic name (node # nodes) = do {
     eq \<leftarrow> MQTTPacket_equals cur_topic (topic_filter node);
     rest \<leftarrow> unsub_loop cur_topic name nodes;
     Some (if eq \<or> iotx_mc_is_topic_matched (Some (topic_filter node)) (Some name) then rest else node # rest) }"

definition MQTTUnsubscribe :: "hal \<Rightarrow> bytes \<Rightarrow> nat \<Rightarrow> mc \<Rightarrow> int mc_result" where
  "MQTTUnsubscribe h topicFilter msgId s = do {
     let topic = MQTTString_initializer\<lparr>cstring := Some topicFilter\<rparr>;
     let (timer, s) = time_countdown h (request_timeout_ms s) s;
     let (p, s) = HAL_Malloc h 24 s;
     if \<not> p then Some (STATE_SYS_DEPEND_MALLOC, s)
     else do {
     let (p, s) = HAL_Malloc h (length topicFilter + 1) s;
     if \<not> p then Some (STATE_SYS_DEPEND_MALLOC, s)
     else do {
     let handler_filter = topicFilter @ [0];
     let s = HAL_MutexLock Lock_write_buf s;
     let (res, s) = alloc_send_buffer h (int (length topicFilter)) s;
     if res < STATE_SUCCESS then Some (res, HAL_MutexUnlock Lock_write_buf s)
     else do {
       buf \<leftarrow> buf_send s;
       (len, buf) \<leftarrow> MQTTSerialize_unsubscribe buf (to_s32 (int (buf_size_send s))) 0 (of_nat msgId) [topic];
       let s = s\<lparr>buf_send := Some buf\<rparr>;
       if len \<le> 0 then Some (STATE_MQTT_SERIALIZE_UNSUB_ERROR, send_exit s)
       else do {
         (rc, s) \<leftarrow> iotx_mc_send_packet h buf (nat len) timer s;
         if rc \<noteq> STATE_SUCCESS then Some (STATE_SYS_DEPEND_NWK_CLOSE, send_exit s)
         else do {
           let cur_topic = \<lparr>cstring = None, lenstring_len = int (length topicFilter) + 1,
                            lenstring_data = Some handler_filter\<rparr>;
           let s = HAL_MutexLock Lock_generic s;
           nodes \<leftarrow> unsub_loop cur_topic handler_filter (list_sub_handle s);
           let s = HAL_MutexUnlock Lock_generic (s\<lparr>list_sub_handle := nodes\<rparr>);
           Some (STATE_SUCCESS, send_exit s) } } } } } }"

end
