(* ===== verification/MQTT_Client_Recv.thy ===== *)
theory MQTT_Client_Recv
  imports MQTT_Client_Send
begin

text \<open>
  The receiving half of \<open>src/eng/mqtt/iotx_mqtt_client.c\<close>: reading one packet from the network,
  the handlers of CONNACK, PUBACK, SUBACK, PUBLISH and UNSUBACK, the delivery of messages to the
  subscribed handlers, and one turn of the receive cycle.
\<close>

section \<open>Reading a packet\<close>

text \<open>The loop over the bytes of the remaining length; the result is the return code and the value.\<close>

function decode_packet_loop :: "hal \<Rightarrow> u32 \<Rightarrow> nat \<Rightarrow> int \<Rightarrow> int \<Rightarrow> mc \<Rightarrow> (int \<times> int) mc_result" where
  "decode_packet_loop h timeout len multiplier val s =
    (if len + 1 > 4 then Some ((MQTTPACKET_READ_ERROR, val), s)
     else let ((rc, bs), s) = utils_net_read h 1 (if timeout = 0 then 1 else timeout) s in
     if rc \<le> STATE_SUCCESS then Some ((STATE_SYS_DEPEND_NWK_CLOSE, val), s)
     else (case bs of [] \<Rightarrow> None
       | i # _ \<Rightarrow>
         let val = val + uint (i AND 127) * multiplier; multiplier = multiplier * 128
         in if i AND 128 \<noteq> 0 then decode_packet_loop h timeout (len + 1) multiplier val s
            else Some ((int (len + 1), val), s)))"
  by pat_completeness auto
termination by (relation "measure (\<lambda>(_, _, len, _). 4 - len)") auto

declare decode_packet_loop.simps [simp del]

definition iotx_mc_decode_packet :: "hal \<Rightarrow> u32 \<Rightarrow> mc \<Rightarrow> (int \<times> int) mc_result" where
  "iotx_mc_decode_packet h timeout s = decode_packet_loop h timeout 0 1 0 s"

text \<open>The event handler of the user, when there is one; \<open>_in_yield_cb\<close> is set around the call.\<close>

definition handle_event_call :: "iotx_mqtt_event_handle_t \<Rightarrow> iotx_mqtt_event_msg_t \<Rightarrow> mc \<Rightarrow> int \<times> mc" where
  "handle_event_call hdl m s = (case h_fp hdl of None \<Rightarrow> (STATE_USER_INPUT_INVALID, s)
     | Some f \<Rightarrow>
         let s = s\<lparr>in_yield_cb := True\<rparr>;
             s = s\<lparr>events := events s @ [Ev_callback f (pcontext hdl) m (held s)]\<rparr>;
             s = s\<lparr>in_yield_cb := False\<rparr>
         in (STATE_SUCCESS, s))"

text \<open>Discarding a packet that does not fit: whole reads of at most the buffer size.\<close>

partial_function (option) drain_loop :: "hal \<Rightarrow> u32 \<Rightarrow> nat \<Rightarrow> mc \<Rightarrow> int mc_result" where
  "drain_loop h left_t rem_len s =
    (let needReadLen = (if rem_len > buf_size_read s then buf_size_read s else rem_len);
         ((rc, bs), s) = utils_net_read h needReadLen left_t s
     in do {
       buf \<leftarrow> buf_read s;
       buf \<leftarrow> store_n buf 0 bs;
       let s = s\<lparr>buf_read := Some buf\<rparr>;
       if rc \<noteq> int needReadLen then Some (STATE_SYS_DEPEND_NWK_READ_ERROR, s)
       else if rem_len - needReadLen \<noteq> 0 then drain_loop h left_t (rem_len - needReadLen) s
       else Some (STATE_SUCCESS, s) })"

definition iotx_mc_read_packet :: "hal \<Rightarrow> iotx_time_t \<Rightarrow> byte \<Rightarrow> mc \<Rightarrow> (int \<times> byte) mc_result" where
  "iotx_mc_read_packet h timer packet_type s = do {
     let s = HAL_MutexLock Lock_read_buf s;
     (rc, s) \<leftarrow> alloc_recv_buffer h 0 s;
     if rc < 0 then Some ((rc, packet_type), HAL_MutexUnlock Lock_read_buf s)
     else do {
     let (left_t, s) = time_left_1 h timer s;
     let ((rc, bs), s) = utils_net_read h 1 left_t s;
     buf \<leftarrow> buf_read s;
     buf \<leftarrow> store_n buf 0 bs;
     let s = s\<lparr>buf_read := Some buf\<rparr>;
     if rc = 0 then Some ((STATE_SUCCESS, 0), HAL_MutexUnlock Lock_read_buf s)
     else if rc < STATE_SUCCESS then Some ((STATE_SYS_DEPEND_NWK_CLOSE, packet_type), HAL_MutexUnlock Lock_read_buf s)
     else do {
     let (left_t, s) = time_left_1 h timer s;
     ((rc, rem_len), s) \<leftarrow> iotx_mc_decode_packet h left_t s;
     if rc < 0 then Some ((rc, packet_type), HAL_MutexUnlock Lock_read_buf s)
     else do {
     buf \<leftarrow> buf_read s;
     (k, buf) \<leftarrow> MQTTPacket_encode buf 1 rem_len;
     let len = 1 + k;
     let s = s\<lparr>buf_read := Some buf\<rparr>;
     (rc, s) \<leftarrow> alloc_recv_buffer h (rem_len + int len) s;
     if rc < 0 then Some ((rc, packet_type), HAL_MutexUnlock Lock_read_buf s)
     else if rem_len > 0 \<and> rem_len + int len > int (buf_size_read s) then do {
       let (left_t, s) = time_left_1 h timer s;
       (rc, s) \<leftarrow> drain_loop h left_t (nat rem_len) s;
       let s = HAL_MutexUnlock Lock_read_buf s;
       if rc \<noteq> STATE_SUCCESS then Some ((rc, 0), s)
       else Some ((STATE_SUCCESS, 0),
         if h_fp (handle_event s) \<noteq> None
         then snd (handle_event_call (handle_event s) \<lparr>event_type = IOTX_MQTT_EVENT_BUFFER_OVERFLOW, msg = Msg_text\<rparr> s)
         else s) }
     else do {
     let (left_t, s) = time_left_1 h timer s;
     let ((rc, bs), s) = utils_net_read h (nat rem_len) left_t s;
     buf \<leftarrow> buf_read s;
     buf \<leftarrow> store_n buf len bs;
     let s = s\<lparr>buf_read := Some buf\<rparr>;
     if rem_len > 0 \<and> rc < 0 then Some ((STATE_SYS_DEPEND_NWK_CLOSE, packet_type), HAL_MutexUnlock Lock_read_buf s)
     else if rem_len > 0 \<and> rc \<noteq> rem_len then Some ((STATE_MQTT_PACKET_READ_ERROR, packet_type), HAL_MutexUnlock Lock_read_buf s)
     else do {
       hdr \<leftarrow> load buf 0;
       buf \<leftarrow> (if len + nat rem_len < buf_size_read s then store buf (len + nat rem_len) 0 else Some buf);
       let s = s\<lparr>buf_read := Some buf\<rparr>;
       Some ((STATE_SUCCESS, MQTT_HEADER_GET_TYPE hdr), HAL_MutexUnlock Lock_read_buf s) } } } } } }"

section \<open>Handlers\<close>

definition iotx_mc_handle_recv_CONNACK :: "mc \<Rightarrow> int option" where
  "iotx_mc_handle_recv_CONNACK s = do {
     buf \<leftarrow> buf_read s;
     (rc, sessionPresent, connack_rc) \<leftarrow> MQTTDeserialize_connack 0 255 buf (to_s32 (int (buf_size_read s)));
     Some (if rc \<noteq> 1 then STATE_MQTT_DESERIALIZE_CONNACK_ERROR
           else if connack_rc = 0 then STATE_SUCCESS
           else if connack_rc = 1 then STATE_MQTT_CONNACK_VERSION_UNACCEPT
           else if connack_rc = 2 then STATE_MQTT_CONNACK_IDENT_REJECT
           else if connack_rc = 3 then STATE_MQTT_CONNACK_SERVICE_NA
           else if connack_rc = 5 then STATE_MQTT_CONNACK_NOT_AUTHORIZED
           else if connack_rc = 4 then STATE_MQTT_CONNACK_BAD_USERDATA
           else STATE_MQTT_CONNACK_UNKNOWN_ERROR) }"

text \<open>Freeing the receive buffer under its lock.\<close>

definition recv_reset_locked :: "mc \<Rightarrow> mc" where
  "recv_reset_locked s = HAL_MutexUnlock Lock_read_buf (snd (reset_recv_buffer (HAL_MutexLock Lock_read_buf s)))"

function wait_connack_loop :: "hal \<Rightarrow> iotx_time_t \<Rightarrow> nat \<Rightarrow> byte \<Rightarrow> mc \<Rightarrow> int mc_result" where
  "wait_connack_loop h timer wait_connack packetType s = do {
     ((rc, packetType), s) \<leftarrow> iotx_mc_read_packet h timer packetType s;
     if rc < STATE_SUCCESS then Some (rc, recv_reset_locked s)
     else if wait_connack + 1 > WAIT_CONNACK_MAX then Some (STATE_SYS_DEPEND_NWK_CLOSE, recv_reset_locked s)
     else if packetType \<noteq> CONNACK then wait_connack_loop h timer (wait_connack + 1) packetType s
     else do {
       let s = HAL_MutexLock Lock_read_buf s;
       rc \<leftarrow> iotx_mc_handle_recv_CONNACK s;
       Some (rc, HAL_MutexUnlock Lock_read_buf (snd (reset_recv_buffer s))) } }"
  by pat_completeness auto
termination by (relation "measure (\<lambda>(_, _, n, _). 10 - n)") auto

declare wait_connack_loop.simps [simp del]

definition iotx_mc_wait_CONNACK :: "hal \<Rightarrow> mc \<Rightarrow> int mc_result" where
  "iotx_mc_wait_CONNACK h s =
    (let (timer, s) = time_countdown h (request_timeout_ms s) s in wait_connack_loop h timer 0 0 s)"

definition iotx_mc_handle_recv_PUBACK :: "hal \<Rightarrow> mc \<Rightarrow> int mc_result" where
  "iotx_mc_handle_recv_PUBACK h s = do {
     buf \<leftarrow> buf_read s;
     (rc, type, dup, mypacketid) \<leftarrow> MQTTDeserialize_ack (hal_junk16 h (tick s)) buf (to_s32 (int (buf_size_read s)));
     if rc \<noteq> 1 then Some (MQTT_PUBLISH_ACK_PACKET_ERROR, s)
     else do {
       let (_, s) = iotx_mc_mask_pubInfo_from mypacketid s;
       Some (STATE_SUCCESS,
         if h_fp (handle_event s) \<noteq> None
         then snd (handle_event_call (handle_event s)
                \<lparr>event_type = IOTX_MQTT_EVENT_PUBLISH_SUCCESS, msg = Msg_packet_id mypacketid\<rparr> s)
         else s) } }"

definition iotx_mqtt_event_handle_sub :: "u16 \<Rightarrow> iotx_mqtt_event_type_t \<Rightarrow> mc \<Rightarrow> mc" where
  "iotx_mqtt_event_handle_sub pid ev s =
    (let s = HAL_MutexLock Lock_generic s;
         s = s\<lparr>list_sub_sync_ack := map (\<lambda>node. if sync_packet_id node = uint pid
               then node\<lparr>ack_type := ev\<rparr> else node) (list_sub_sync_ack s)\<rparr>
     in HAL_MutexUnlock Lock_generic s)"

text \<open>\<open>fail_flag\<close> is reset for every code, so the last code decides.\<close>

fun suback_fail_flag :: "int list \<Rightarrow> int \<Rightarrow> int" where
  "suback_fail_flag [] fail_flag = fail_flag"
| "suback_fail_flag (q # qs) fail_flag = suback_fail_flag qs (if byte_of q = 0x80 then 1 else 0)"

definition iotx_mc_handle_recv_SUBACK :: "hal \<Rightarrow> mc \<Rightarrow> int mc_result" where
  "iotx_mc_handle_recv_SUBACK h s = do {
     buf \<leftarrow> buf_read s;
     (rc, mypacketid, grantedQoS) \<leftarrow>
        MQTTDeserialize_suback (hal_junk16 h (tick s)) MUTLI_SUBSCIRBE_MAX buf (to_s32 (int (buf_size_read s)));
     if rc < 0 then Some (STATE_MQTT_DESERIALIZE_SUBACK_ERROR, s)
     else do {
       let ev = (if suback_fail_flag grantedQoS (-1) = 1 then IOTX_MQTT_EVENT_SUBCRIBE_NACK
                 else IOTX_MQTT_EVENT_SUBCRIBE_SUCCESS);
       let s = iotx_mqtt_event_handle_sub mypacketid ev s;
       Some (STATE_SUCCESS,
         if h_fp (handle_event s) \<noteq> None
         then snd (handle_event_call (handle_event s) \<lparr>event_type = ev, msg = Msg_packet_id mypacketid\<rparr> s)
         else s) } }"

definition iotx_mc_handle_recv_UNSUBACK :: "mc \<Rightarrow> int mc_result" where
  "iotx_mc_handle_recv_UNSUBACK s = do {
     buf \<leftarrow> buf_read s;
     (rc, mypacketid) \<leftarrow> MQTTDeserialize_unsuback 0 buf (to_s32 (int (buf_size_read s)));
     if rc \<noteq> 1 then Some (STATE_MQTT_DESERIALIZE_UNSUBACK_ERROR, s)
     else Some (STATE_SUCCESS,
       if h_fp (handle_event s) \<noteq> None
       then snd (handle_event_call (handle_event s)
              \<lparr>event_type = IOTX_MQTT_EVENT_UNSUBCRIBE_SUCCESS, msg = Msg_packet_id mypacketid\<rparr> s)
       else s) }"

section \<open>Identity responses\<close>

definition identify_topic :: bytes where
  "identify_topic = map (\<lambda>c. of_nat (of_char c)) ''/ext/auth/identity/response''"

definition str_productKey :: bytes where "str_productKey = map (\<lambda>c. of_nat (of_char c)) ''productKey''"
definition str_deviceName :: bytes where "str_deviceName = map (\<lambda>c. of_nat (of_char c)) ''deviceName''"

text \<open>\<open>IOT_Ioctl\<close> with the options that set the product key and the device name.\<close>

definition ioctl_set_product_key :: "bytes \<Rightarrow> mc \<Rightarrow> mc" where
  "ioctl_set_product_key str s = (if length str \<le> 20 then s\<lparr>ctx_product_key := str\<rparr> else s)"

definition ioctl_set_device_name :: "bytes \<Rightarrow> mc \<Rightarrow> mc" where
  "ioctl_set_device_name str s = (if length str \<le> 32 then s\<lparr>ctx_device_name := str\<rparr> else s)"

text \<open>A JSON value without its first and last byte, copied into a fresh string; lengths are
  unsigned, so that a value of fewer than two bytes makes \<open>memcpy\<close> run over \<open>2^32 - 1\<close> bytes or
  one less.\<close>

definition unquote :: "bytes \<Rightarrow> nat \<times> nat \<Rightarrow> bytes option" where
  "unquote payload v = (if snd v < 2 then None
     else do { bs \<leftarrow> load_n payload (fst v + 1) (snd v - 2); Some (takeWhile (\<lambda>c. c \<noteq> 0) bs) })"

definition iotx_mc_parse_identity_response :: "hal \<Rightarrow> iotx_mqtt_topic_info_t \<Rightarrow> mc \<Rightarrow> mc option" where
  "iotx_mc_parse_identity_response h topic_msg s = do {
     ptopic \<leftarrow> ti_ptopic topic_msg;
     same \<leftarrow> (if unat (ti_topic_len topic_msg) = length identify_topic
              then map_option (\<lambda>bs. bs = identify_topic) (load_n ptopic 0 (length identify_topic)) else Some False);
     if \<not> same then Some s
     else do {
     let (p, s) = HAL_Malloc h (unat (ti_payload_len topic_msg + 1)) s;
     if \<not> p then Some s
     else do {
     payload \<leftarrow> ti_payload topic_msg;
     text \<leftarrow> load_n payload 0 (unat (ti_payload_len topic_msg));
     let s = (if hal_identity_cb h then s\<lparr>events := events s @ [Ev_identity (takeWhile (\<lambda>c. c \<noteq> 0) text)]\<rparr> else s);
     (rc1, product_key) \<leftarrow> infra_json_value payload (ti_payload_len topic_msg) str_productKey (of_nat (length str_productKey));
     if rc1 \<noteq> STATE_SUCCESS then Some s
     else do {
     (rc2, device_name) \<leftarrow> infra_json_value payload (ti_payload_len topic_msg) str_deviceName (of_nat (length str_deviceName));
     if rc2 \<noteq> STATE_SUCCESS then Some s
     else do {
     pk \<leftarrow> product_key;
     dn \<leftarrow> device_name;
     let (p, s) = HAL_Malloc h (nat (to_u32 (int (snd pk) - 1))) s;
     if \<not> p then Some s
     else do {
     str_product_key \<leftarrow> unquote payload pk;
     let (p, s) = HAL_Malloc h (nat (to_u32 (int (snd dn) - 1))) s;
     if \<not> p then Some s
     else do {
     str_device_name \<leftarrow> unquote payload dn;
     Some (ioctl_set_device_name str_device_name (ioctl_set_product_key str_product_key s)) } } } } } } }"

section \<open>Delivery\<close>

text \<open>The walk over the handlers; the result is \<open>flag_matched\<close>.\<close>

fun deliver_loop ::
    "MQTTString \<Rightarrow> bytes \<Rightarrow> iotx_mqtt_topic_info_t \<Rightarrow> iotx_mc_topic_handle_t list \<Rightarrow> bool \<Rightarrow> mc \<Rightarrow> bool mc_result" where
  "deliver_loop topicName name topic_msg [] flag_matched s = Some (flag_matched, s)"
| "deliver_loop topicName name topic_msg (node # nodes) flag_matched s = do {
     eq \<leftarrow> MQTTPacket_equals topicName (topic_filter node);
     if eq \<or> iotx_mc_is_topic_matched (Some (topic_filter node)) (Some name) then do {
       let s = HAL_MutexUnlock Lock_generic s;
       let (flag_matched, s) = (if h_fp (th_handle node) \<noteq> None
            then (True, snd (handle_event_call (th_handle node)
                    \<lparr>event_type = IOTX_MQTT_EVENT_PUBLISH_RECEIVED, msg = Msg_topic topic_msg\<rparr> s))
            else (flag_matched, s));
       let s = HAL_MutexLock Lock_generic s;
       deliver_loop topicName name topic_msg nodes flag_matched s }
     else deliver_loop topicName name topic_msg nodes flag_matched s }"

definition iotx_mc_deliver_message :: "hal \<Rightarrow> MQTTString \<Rightarrow> iotx_mqtt_topic_info_t \<Rightarrow> mc \<Rightarrow> mc option" where
  "iotx_mc_deliver_message h topicName topic_msg s = do {
     let topic_msg = topic_msg\<lparr>ti_ptopic := lenstring_data topicName,
                               ti_topic_len := word_of_int (lenstring_len topicName)\<rparr>;
     s \<leftarrow> iotx_mc_parse_identity_response h topic_msg s;
     data \<leftarrow> lenstring_data topicName;
     name \<leftarrow> load_i data (lenstring_len topicName);
     let s = HAL_MutexLock Lock_generic s;
     (flag_matched, s) \<leftarrow> deliver_loop topicName name topic_msg (list_sub_handle s) False s;
     let s = HAL_MutexUnlock Lock_generic s;
     Some (if \<not> flag_matched \<and> h_fp (handle_event s) \<noteq> None
           then snd (handle_event_call (handle_event s)
                  \<lparr>event_type = IOTX_MQTT_EVENT_PUBLISH_RECEIVED, msg = Msg_topic topic_msg\<rparr> s)
           else s) }"

definition iotx_mc_handle_recv_PUBLISH :: "hal \<Rightarrow> mc \<Rightarrow> int mc_result" where
  "iotx_mc_handle_recv_PUBLISH h s = do {
     buf \<leftarrow> buf_read s;
     (rc, f) \<leftarrow> MQTTDeserialize_publish \<lparr>pf_dup = 0, pf_qos = 0, pf_retained = 0, pf_packetid = 0,
        pf_topicName = MQTTString_initializer, pf_payload = None, pf_payloadlen = 0\<rparr> buf (to_s32 (int (buf_size_read s)));
     if rc \<noteq> 1 then Some (MQTT_PUBLISH_PACKET_ERROR, s)
     else do {
     let topicName = pf_topicName f;
     let topic_msg = \<lparr>ti_packet_id = pf_packetid f, ti_qos = byte_of (pf_qos f), ti_dup = pf_dup f,
        ti_retain = pf_retained f, ti_topic_len = 0, ti_payload_len = word_of_int (pf_payloadlen f),
        ti_ptopic = None, ti_payload = pf_payload f\<rparr>;
     if lenstring_len topicName = 0 \<or> lenstring_data topicName = None then Some (STATE_MQTT_DESERIALIZE_PUB_ERROR, s)
     else do {
     s \<leftarrow> iotx_mc_deliver_message h topicName topic_msg s;
     if ti_qos topic_msg = 0 then Some (STATE_SUCCESS, s)
     else if ti_qos topic_msg = 1 then MQTTPuback h (ti_packet_id topic_msg) PUBACK s
     else if ti_qos topic_msg = 2 then MQTTPuback h (ti_packet_id topic_msg) PUBREC s
     else Some (STATE_MQTT_PUB_QOS_INVALID, s) } } }"

section \<open>One turn of the receive cycle\<close>

text \<open>The dispatch on the packet type, under the lock of the receive buffer.\<close>

definition cycle_dispatch :: "hal \<Rightarrow> byte \<Rightarrow> mc \<Rightarrow> int mc_result" where
  "cycle_dispatch h packetType s =
    (if packetType = CONNACK then Some (STATE_SUCCESS, s)
     else if packetType = PUBACK then iotx_mc_handle_recv_PUBACK h s
     else if packetType = SUBACK then iotx_mc_handle_recv_SUBACK h s
     else if packetType = PUBLISH then iotx_mc_handle_recv_PUBLISH h s
     else if packetType = UNSUBACK then iotx_mc_handle_recv_UNSUBACK s
     else if packetType = PINGRESP then Some (STATE_SUCCESS, s)
     else Some (STATE_MQTT_RECV_UNKNOWN_PACKET, s))"

definition iotx_mc_cycle :: "hal \<Rightarrow> iotx_time_t \<Rightarrow> mc \<Rightarrow> int mc_result" where
  "iotx_mc_cycle h timer s = do {
     let (state, s) = iotx_mc_get_client_state s;
     if state \<noteq> IOTX_MC_STATE_CONNECTED then Some (STATE_MQTT_IN_OFFLINE_STATUS, s)
     else if IOTX_MC_KEEPALIVE_PROBE_MAX < keepalive_probes s
     then Some (STATE_MQTT_IN_OFFLINE_STATUS,
            (iotx_mc_set_client_state IOTX_MC_STATE_DISCONNECTED s)\<lparr>keepalive_probes := 0\<rparr>)
     else do {
     ((rc, packetType), s) \<leftarrow> iotx_mc_read_packet h timer 0 s;
     if rc \<noteq> STATE_SUCCESS then do {
       let s = recv_reset_locked s;
       let s = (if rc = STATE_SYS_DEPEND_NWK_CLOSE then iotx_mc_set_client_state IOTX_MC_STATE_DISCONNECTED s else s);
       Some (STATE_SYS_DEPEND_NWK_CLOSE, s) }
     else if packetType = MQTT_CPT_RESERVED then Some (STATE_SUCCESS, recv_reset_locked s)
     else do {
       let s = s\<lparr>keepalive_probes := 0\<rparr>;
       let s = HAL_MutexLock Lock_read_buf s;
       (rc, s) \<leftarrow> cycle_dispatch h packetType s;
       Some (rc, HAL_MutexUnlock Lock_read_buf (snd (reset_recv_buffer s))) } } }"

end
