(* ===== verification/MQTT_Client.thy ===== *)
theory MQTT_Client
  imports MQTT_Client_Recv
begin

text \<open>
  The client as a whole, \<open>src/eng/mqtt/iotx_mqtt_client.c\<close>: initialisation, connecting with
  retries, the yield cycle with keep-alive and reconnection, and the interface functions
  \<open>wrapper_mqtt_*\<close> for a client handle that is not null.
\<close>

section \<open>Initialisation\<close>

record iotx_mqtt_param_t =
  p_port :: u16
  p_host :: "bytes option"
  p_client_id :: "bytes option"
  p_username :: "bytes option"
  p_password :: "bytes option"
  p_pub_key :: "bytes option"
  p_clean_session :: byte
  p_request_timeout_ms :: u32
  p_keepalive_interval_ms :: u32
  p_write_buf_size :: nat
  p_read_buf_size :: nat
  p_handle_event :: iotx_mqtt_event_handle_t

definition MQTTPacket_willOptions_initializer :: MQTTPacket_willOptions where
  "MQTTPacket_willOptions_initializer = \<lparr>will_topicName = MQTTString_initializer,
     will_message = MQTTString_initializer, will_retained = 0, will_qos = 0\<rparr>"

definition MQTTPacket_connectData_initializer :: MQTTPacket_connectData where
  "MQTTPacket_connectData_initializer = \<lparr>MQTTVersion = 4, clientID = MQTTString_initializer,
     keepAliveInterval = of_nat CONFIG_MQTT_KEEPALIVE_INTERVAL_MIN, cleansession = 1, willFlag = 0,
     will = MQTTPacket_willOptions_initializer, username = MQTTString_initializer, password = MQTTString_initializer\<rparr>"

definition iotx_mc_set_connect_params :: "MQTTPacket_connectData \<Rightarrow> mc \<Rightarrow> int \<times> mc" where
  "iotx_mc_set_connect_params params s =
    (let interval = (if unat (keepAliveInterval params) < CONFIG_MQTT_KEEPALIVE_INTERVAL_MIN
                     then of_nat CONFIG_MQTT_KEEPALIVE_INTERVAL
                     else if unat (keepAliveInterval params) > CONFIG_MQTT_KEEPALIVE_INTERVAL_MAX
                     then of_nat CONFIG_MQTT_KEEPALIVE_INTERVAL
                     else keepAliveInterval params)
     in (STATE_SUCCESS, s\<lparr>connect_data := params\<lparr>keepAliveInterval := interval\<rparr>\<rparr>))"

definition cstring_of :: "bytes option \<Rightarrow> MQTTString" where
  "cstring_of str = MQTTString_initializer\<lparr>cstring := str\<rparr>"

definition utils_network_zero :: utils_network_t where
  "utils_network_zero = \<lparr>pHostAddress = None, port = 0, ca_crt_len = 0, ca_crt = None, handle = 0\<rparr>"

text \<open>The body of \<open>iotx_mc_init\<close> after the mutexes: parameters, lists, network.  The result is the
  return code and the new client state.\<close>

definition mc_init_params :: "iotx_mqtt_param_t \<Rightarrow> mc \<Rightarrow> (int \<times> iotx_mc_state_t) \<times> mc" where
  "mc_init_params params s =
    (let connectdata = MQTTPacket_connectData_initializer\<lparr>MQTTVersion := 4,
           keepAliveInterval := of_nat (unat (p_keepalive_interval_ms params) div 1000),
           clientID := cstring_of (p_client_id params), username := cstring_of (p_username params),
           password := cstring_of (p_password params), cleansession := p_clean_session params\<rparr>;
         s = s\<lparr>request_timeout_ms := (if p_request_timeout_ms params < CONFIG_MQTT_REQ_TIMEOUT_MIN
                  \<or> p_request_timeout_ms params > CONFIG_MQTT_REQ_TIMEOUT_MAX
                then CONFIG_MQTT_REQUEST_TIMEOUT else p_request_timeout_ms params),
             buf_size_send_max := p_write_buf_size params, buf_size_read_max := p_read_buf_size params,
             keepalive_probes := 0, handle_event := p_handle_event params,
             reconnect_param := (reconnect_param s)\<lparr>reconnect_time_interval_ms := IOTX_MC_RECONNECT_INTERVAL_MIN_MS\<rparr>,
             list_pub_wait_ack := [], list_sub_handle := [], list_sub_sync_ack := []\<rparr>;
         (rc, s) = iotx_mc_set_connect_params connectdata s
     in if rc < STATE_SUCCESS then ((rc, IOTX_MC_STATE_INVALID), s)
        else let s = s\<lparr>next_ping_time := \<lparr>time = 0\<rparr>,
                   reconnect_param := (reconnect_param s)\<lparr>reconnect_next_time := \<lparr>time = 0\<rparr>\<rparr>\<rparr>;
                 (rc, net) = iotx_net_init utils_network_zero (p_host params) (p_port params) (p_pub_key params);
                 s = s\<lparr>ipstack := net\<rparr>
             in if rc \<noteq> STATE_SUCCESS then ((rc, IOTX_MC_STATE_INVALID), s)
                else ((STATE_SUCCESS, IOTX_MC_STATE_INITIALIZED), s))"

text \<open>The exit of \<open>iotx_mc_init\<close>; on failure it frees the buffers and destroys four of the five
  mutexes.\<close>

definition mc_init_exit :: "int \<Rightarrow> iotx_mc_state_t \<Rightarrow> mc \<Rightarrow> int \<times> mc" where
  "mc_init_exit rc mc_state s =
    (let s = iotx_mc_set_client_state mc_state s in
     if rc < STATE_SUCCESS then
       let s = s\<lparr>buf_send := None, buf_read := None\<rparr>;
           s = (if lock_list_pub s then (HAL_MutexDestroy s)\<lparr>lock_list_pub := False\<rparr> else s);
           s = (if lock_write_buf s then (HAL_MutexDestroy s)\<lparr>lock_write_buf := False\<rparr> else s);
           s = (if lock_read_buf s then (HAL_MutexDestroy s)\<lparr>lock_read_buf := False\<rparr> else s);
           s = (if lock_yield s then (HAL_MutexDestroy s)\<lparr>lock_yield := False\<rparr> else s)
       in (rc, s)
     else (rc, s))"

definition iotx_mc_init :: "hal \<Rightarrow> iotx_mqtt_param_t \<Rightarrow> mc \<Rightarrow> int \<times> mc" where
  "iotx_mc_init h params s =
    (if p_write_buf_size params = 0 \<or> p_read_buf_size params = 0 then (STATE_USER_INPUT_INVALID, s)
     else let (p, s) = HAL_MutexCreate h s; s = s\<lparr>lock_generic := p\<rparr> in
     if \<not> p then (STATE_SYS_DEPEND_MUTEX_CREATE, s)
     else let (p, s) = HAL_MutexCreate h s; s = s\<lparr>lock_list_pub := p\<rparr> in
     if \<not> p then mc_init_exit (-1) IOTX_MC_STATE_INVALID s
     else let (p, s) = HAL_MutexCreate h s; s = s\<lparr>lock_yield := p\<rparr> in
     if \<not> p then mc_init_exit (-1) IOTX_MC_STATE_INVALID s
     else let (p, s) = HAL_MutexCreate h s; s = s\<lparr>lock_write_buf := p\<rparr> in
     if \<not> p then mc_init_exit (-1) IOTX_MC_STATE_INVALID s
     else let (p, s) = HAL_MutexCreate h s; s = s\<lparr>lock_read_buf := p\<rparr> in
     if \<not> p then mc_init_exit (-1) IOTX_MC_STATE_INVALID s
     else let ((rc, mc_state), s) = mc_init_params params s in mc_init_exit rc mc_state s)"

text \<open>A client structure of zero bytes in the given environment.\<close>

definition client_zero :: "mc \<Rightarrow> mc" where
  "client_zero s = s\<lparr>lock_generic := False, packet_id := 0, request_timeout_ms := 0, cycle_timeout_ms := 0,
     buf_size_send := 0, buf_size_send_max := 0, buf_size_read_max := 0, buf_size_read := 0, keepalive_probes := 0,
     buf_send := None, buf_read := None, list_sub_handle := [], ipstack := utils_network_zero,
     next_ping_time := \<lparr>time = 0\<rparr>, client_state := IOTX_MC_STATE_INVALID,
     reconnect_param := \<lparr>reconnect_next_time = \<lparr>time = 0\<rparr>, reconnect_time_interval_ms = 0\<rparr>,
     connect_data := MQTTPacket_connectData_initializer\<lparr>MQTTVersion := 0, keepAliveInterval := 0, cleansession := 0\<rparr>,
     list_pub_wait_ack := [], list_sub_sync_ack := [], lock_list_pub := False, lock_write_buf := False,
     lock_read_buf := False, lock_yield := False, handle_event := \<lparr>h_fp = None, pcontext = 0\<rparr>\<rparr>"

text \<open>The result is whether a client handle is returned.\<close>

definition wrapper_mqtt_init :: "hal \<Rightarrow> iotx_mqtt_param_t \<Rightarrow> mc \<Rightarrow> bool \<times> mc" where
  "wrapper_mqtt_init h mqtt_params s =
    (let (p, s) = HAL_Malloc h (hal_sizeof_client h) s in
     if \<not> p then (False, s)
     else let s = client_zero s; (err, s) = iotx_mc_init h mqtt_params s in
     if err < STATE_SUCCESS then (False, client_zero s) else (True, s))"

section \<open>Connecting\<close>

text \<open>The result of the loop is a value to return at once (\<open>Inl\<close>) or the counter after the loop
  (\<open>Inr\<close>).\<close>

function mqtt_connect_loop :: "hal \<Rightarrow> u16 \<Rightarrow> nat \<Rightarrow> mc \<Rightarrow> (int + nat) mc_result" where
  "mqtt_connect_loop h userKeepAliveInterval try_count s = do {
     (rc, s) \<leftarrow> MQTTConnect h s;
     let s = s\<lparr>connect_data := (connect_data s)\<lparr>keepAliveInterval := userKeepAliveInterval\<rparr>\<rparr>;
     if rc < STATE_SUCCESS then Some (Inl rc, snd (iotx_net_disconnect s))
     else do {
     (rc, s) \<leftarrow> iotx_mc_wait_CONNACK h s;
     if rc \<le> STATE_MQTT_CONNACK_VERSION_UNACCEPT \<and> rc \<ge> STATE_MQTT_CONNACK_NOT_AUTHORIZED
     then Some (Inl rc, snd (iotx_net_disconnect s))
     else if STATE_SUCCESS \<noteq> rc then do {
       let s = HAL_SleepMs 2000 s;
       let s = snd (iotx_net_disconnect s);
       let s = snd (iotx_net_connect h s);
       if try_count + 1 < RETRY_TIME_LIMIT then mqtt_connect_loop h userKeepAliveInterval (try_count + 1) s
       else Some (Inr (try_count + 1), s) }
     else Some (Inr try_count, s) } }"
  by pat_completeness auto
termination by (relation "measure (\<lambda>(_, _, n, _). 9 - n)") auto

declare mqtt_connect_loop.simps [simp del]

definition mqtt_connect :: "hal \<Rightarrow> mc \<Rightarrow> int mc_result" where
  "mqtt_connect h s = do {
     let userKeepAliveInterval = keepAliveInterval (connect_data s);
     let s = s\<lparr>connect_data := (connect_data s)\<lparr>keepAliveInterval := userKeepAliveInterval * 2\<rparr>\<rparr>;
     let s = (if keepAliveInterval (connect_data s) > of_nat CONFIG_MQTT_KEEPALIVE_INTERVAL_MAX
              then s\<lparr>connect_data := (connect_data s)\<lparr>keepAliveInterval := of_nat CONFIG_MQTT_KEEPALIVE_INTERVAL_MAX\<rparr>\<rparr>
              else s);
     (r, s) \<leftarrow> mqtt_connect_loop h userKeepAliveInterval 1 s;
     (case r of Inl rc \<Rightarrow> Some (rc, s)
      | Inr try_count \<Rightarrow>
          if try_count = RETRY_TIME_LIMIT then Some (STATE_MQTT_CONN_RETRY_EXCEED_MAX, s)
          else do {
            let s = s\<lparr>keepalive_probes := 0\<rparr>;
            let s = iotx_mc_set_client_state IOTX_MC_STATE_CONNECTED s;
            let (t, s) = time_countdown h (of_nat (unat (keepAliveInterval (connect_data s)) * 1000)) s;
            Some (STATE_SUCCESS, s\<lparr>next_ping_time := t\<rparr>) }) }"

function nwk_connect_loop :: "hal \<Rightarrow> nat \<Rightarrow> mc \<Rightarrow> int \<times> mc" where
  "nwk_connect_loop h retry_cnt s =
    (let (rc, s) = iotx_net_connect h s in
     if STATE_SUCCESS \<noteq> rc then
       let s = snd (iotx_net_disconnect s);
           rc = (if ERROR_CERTIFICATE_EXPIRED = rc then ERROR_CERT_VERIFY_FAIL else STATE_SYS_DEPEND_NWK_CLOSE);
           s = HAL_SleepMs 1000 s
       in if retry_cnt + 1 \<le> 3 then nwk_connect_loop h (retry_cnt + 1) s else (rc, s)
     else (rc, s))"
  by pat_completeness auto
termination by (relation "measure (\<lambda>(_, n, _). 4 - n)") auto

declare nwk_connect_loop.simps [simp del]

definition mqtt_nwk_connect :: "hal \<Rightarrow> mc \<Rightarrow> int \<times> mc" where
  "mqtt_nwk_connect h s = nwk_connect_loop h 1 s"

section \<open>The yield cycle\<close>

partial_function (option) mqtt_cycle_loop :: "hal \<Rightarrow> iotx_time_t \<Rightarrow> mc \<Rightarrow> unit mc_result" where
  "mqtt_cycle_loop h t s = do {
     let s = HAL_MutexLock Lock_yield s;
     (rc, s) \<leftarrow> iotx_mc_cycle h t s;
     (rc', s) \<leftarrow> (if rc = STATE_SUCCESS then MQTTPubInfoProc h s else Some (rc, s));
     let s = HAL_MutexUnlock Lock_yield s;
     let (left_t, s) = time_left h t s;
     let s = HAL_SleepMs (if left_t < 10 then left_t else 10) s;
     let (expired, s) = time_is_expired h t s;
     if \<not> expired then mqtt_cycle_loop h t s else Some ((), s) }"

definition mqtt_cycle :: "hal \<Rightarrow> mc \<Rightarrow> unit mc_result" where
  "mqtt_cycle h s = (let (t, s) = time_countdown h (cycle_timeout_ms s) s in mqtt_cycle_loop h t s)"

definition iotx_mc_keepalive_sub :: "hal \<Rightarrow> mc \<Rightarrow> int mc_result" where
  "iotx_mc_keepalive_sub h s = do {
     let (connected, s) = wrapper_mqtt_check_state s;
     if \<not> connected then Some (STATE_SUCCESS, s)
     else do {
     let (expired, s) = time_is_expired h (next_ping_time s) s;
     if \<not> expired then Some (STATE_SUCCESS, s)
     else do {
     let (t, s) = time_countdown h (of_nat (unat (keepAliveInterval (connect_data s)) * 1000)) s;
     let s = s\<lparr>next_ping_time := t\<rparr>;
     (rc, s) \<leftarrow> MQTTKeepalive h s;
     if rc < STATE_SUCCESS
     then Some (rc, if rc = STATE_SYS_DEPEND_NWK_CLOSE then iotx_mc_set_client_state IOTX_MC_STATE_DISCONNECTED s else s)
     else Some (STATE_SUCCESS, s\<lparr>keepalive_probes := keepalive_probes s + 1\<rparr>) } } }"

definition iotx_mc_attempt_reconnect :: "hal \<Rightarrow> mc \<Rightarrow> int mc_result" where
  "iotx_mc_attempt_reconnect h s = do {
     let s = snd (iotx_net_disconnect s);
     let (rc, s) = mqtt_nwk_connect h s;
     mqtt_connect h s }"

definition iotx_mc_handle_reconnect :: "hal \<Rightarrow> mc \<Rightarrow> int mc_result" where
  "iotx_mc_handle_reconnect h s = do {
     let (expired, s) = time_is_expired h (reconnect_next_time (reconnect_param s)) s;
     if \<not> expired then Some (STATE_MQTT_WAIT_RECONN_TIMER, HAL_SleepMs 100 s)
     else do {
     (rc, s) \<leftarrow> iotx_mc_attempt_reconnect h s;
     if rc = STATE_SUCCESS then Some (STATE_SUCCESS, iotx_mc_set_client_state IOTX_MC_STATE_CONNECTED s)
     else if rc = STATE_MQTT_ASYNC_STACK_CONN_IN_PROG then Some (rc, s)
     else do {
       let interval = reconnect_time_interval_ms (reconnect_param s);
       let s = s\<lparr>reconnect_param := (reconnect_param s)\<lparr>reconnect_time_interval_ms :=
                 (if IOTX_MC_RECONNECT_INTERVAL_MAX_MS > interval then interval * 2
                  else IOTX_MC_RECONNECT_INTERVAL_MAX_MS)\<rparr>\<rparr>;
       let interval_ms = reconnect_time_interval_ms (reconnect_param s);
       let interval_ms = (if IOTX_MC_RECONNECT_INTERVAL_MAX_MS < interval_ms
                          then IOTX_MC_RECONNECT_INTERVAL_MAX_MS else interval_ms);
       let (t, s) = time_countdown h interval_ms s;
       Some (rc, s\<lparr>reconnect_param := (reconnect_param s)\<lparr>reconnect_next_time := t\<rparr>\<rparr>) } } }"

text \<open>The two callbacks call the handler directly, without \<open>_in_yield_cb\<close>.\<close>

definition direct_callback :: "iotx_mqtt_event_type_t \<Rightarrow> mc \<Rightarrow> mc" where
  "direct_callback ev s = (case h_fp (handle_event s) of None \<Rightarrow> s
     | Some f \<Rightarrow> s\<lparr>events := events s @ [Ev_callback f (pcontext (handle_event s)) \<lparr>event_type = ev, msg = Msg_null\<rparr> (held s)]\<rparr>)"

definition iotx_mc_reconnect_callback :: "mc \<Rightarrow> mc" where
  "iotx_mc_reconnect_callback = direct_callback IOTX_MQTT_EVENT_RECONNECT"

definition iotx_mc_disconnect_callback :: "mc \<Rightarrow> mc" where
  "iotx_mc_disconnect_callback = direct_callback IOTX_MQTT_EVENT_DISCONNECT"

definition set_reconnect_interval :: "u32 \<Rightarrow> mc \<Rightarrow> mc" where
  "set_reconnect_interval ms s = s\<lparr>reconnect_param := (reconnect_param s)\<lparr>reconnect_time_interval_ms := ms\<rparr>\<rparr>"

definition iotx_mc_keepalive :: "hal \<Rightarrow> mc \<Rightarrow> unit mc_result" where
  "iotx_mc_keepalive h s = do {
     (rc, s) \<leftarrow> iotx_mc_keepalive_sub h s;
     let (currentState, s) = iotx_mc_get_client_state s;
     if currentState = IOTX_MC_STATE_DISCONNECTED_RECONNECTING \<or> currentState = IOTX_MC_STATE_CONNECT_BLOCK then do {
       (rc, s) \<leftarrow> iotx_mc_handle_reconnect h s;
       if rc < STATE_SUCCESS then Some ((), s)
       else Some ((), set_reconnect_interval IOTX_MC_RECONNECT_INTERVAL_MIN_MS (iotx_mc_reconnect_callback s)) }
     else if currentState = IOTX_MC_STATE_DISCONNECTED then do {
       let s = iotx_mc_disconnect_callback s;
       let s = set_reconnect_interval IOTX_MC_RECONNECT_INTERVAL_MIN_MS s;
       let (t, s) = time_countdown h (reconnect_time_interval_ms (reconnect_param s)) s;
       let s = s\<lparr>reconnect_param := (reconnect_param s)\<lparr>reconnect_next_time := t\<rparr>\<rparr>;
       let s = snd (iotx_net_disconnect s);
       Some ((), iotx_mc_set_client_state IOTX_MC_STATE_DISCONNECTED_RECONNECTING s) }
     else Some ((), s) }"

definition wrapper_mqtt_yield :: "hal \<Rightarrow> int \<Rightarrow> mc \<Rightarrow> int mc_result" where
  "wrapper_mqtt_yield h timeout_ms s =
    (if timeout_ms < 0 then Some (STATE_USER_INPUT_INVALID, s)
     else do {
       let timeout_ms = (if timeout_ms = 0 then 10 else timeout_ms);
       let s = HAL_MutexLock Lock_yield s;
       let s = s\<lparr>cycle_timeout_ms := word_of_int timeout_ms\<rparr>;
       (u, s) \<leftarrow> iotx_mc_keepalive h s;
       let s = HAL_MutexUnlock Lock_yield s;
       (u, s) \<leftarrow> mqtt_cycle h s;
       Some (STATE_SUCCESS, s) })"

section \<open>The interface functions\<close>

text \<open>The loop after the connection: \<open>pk\<close> and \<open>dn\<close> are the local copies of product key and device
  name, into which \<open>IOT_Ioctl\<close> copies without clearing.\<close>

function connect_cycle_loop :: "hal \<Rightarrow> nat \<Rightarrow> bytes \<Rightarrow> bytes \<Rightarrow> mc \<Rightarrow> unit mc_result" where
  "connect_cycle_loop h try_count pk dn s = do {
     let s = HAL_MutexLock Lock_yield s;
     let s = s\<lparr>cycle_timeout_ms := 500\<rparr>;
     let s = HAL_MutexUnlock Lock_yield s;
     (u, s) \<leftarrow> mqtt_cycle h s;
     let pk = ctx_product_key s @ drop (length (ctx_product_key s)) pk;
     let dn = ctx_device_name s @ drop (length (ctx_device_name s)) dn;
     if pk \<noteq> [] \<and> dn \<noteq> [] then Some ((), s)
     else if try_count + 1 < RETRY_TIME_LIMIT then connect_cycle_loop h (try_count + 1) pk dn s
     else Some ((), s) }"
  by pat_completeness auto
termination by (relation "measure (\<lambda>(_, n, _). 9 - n)") auto

declare connect_cycle_loop.simps [simp del]

definition wrapper_mqtt_connect :: "hal \<Rightarrow> mc \<Rightarrow> int mc_result" where
  "wrapper_mqtt_connect h s = do {
     let (rc, s) = mqtt_nwk_connect h s;
     if rc \<noteq> STATE_SUCCESS then Some (rc, s)
     else do {
       (rc, s) \<leftarrow> mqtt_connect h s;
       (u, s) \<leftarrow> connect_cycle_loop h 0 [] [] s;
       Some (rc, s) } }"

definition iotx_mc_disconnect :: "hal \<Rightarrow> mc \<Rightarrow> int mc_result" where
  "iotx_mc_disconnect h s = do {
     let (connected, s) = wrapper_mqtt_check_state s;
     (rc, s) \<leftarrow> (if connected then MQTTDisconnect h s else Some (-1, s));
     let s = snd (iotx_net_disconnect s);
     Some (STATE_SUCCESS, iotx_mc_set_client_state IOTX_MC_STATE_INITIALIZED s) }"

definition wrapper_mqtt_release :: "hal \<Rightarrow> mc \<Rightarrow> int mc_result" where
  "wrapper_mqtt_release h s = do {
     let s = HAL_SleepMs 100 s;
     (rc, s) \<leftarrow> iotx_mc_disconnect h s;
     let s = iotx_mc_set_client_state IOTX_MC_STATE_INVALID s;
     let s = HAL_SleepMs 100 s;
     let s = s\<lparr>list_sub_handle := []\<rparr>;
     let s = HAL_MutexDestroy (HAL_MutexDestroy (HAL_MutexDestroy (HAL_MutexDestroy (HAL_MutexDestroy s))));
     Some (STATE_SUCCESS, client_zero s) }"

definition wrapper_mqtt_subscribe ::
    "hal \<Rightarrow> bytes option \<Rightarrow> int \<Rightarrow> nat option \<Rightarrow> nat \<Rightarrow> mc \<Rightarrow> int mc_result" where
  "wrapper_mqtt_subscribe h topicFilter qos topic_handle_func pctx s = (case topicFilter of
     None \<Rightarrow> Some (STATE_USER_INPUT_INVALID, s)
   | Some filt \<Rightarrow>
     if filt = [] \<or> topic_handle_func = None then Some (STATE_USER_INPUT_INVALID, s)
     else do {
     let (msgId, s) = iotx_mc_get_next_packetid s;
     let (connected, s) = wrapper_mqtt_check_state s;
     if \<not> connected then Some (STATE_MQTT_IN_OFFLINE_STATUS, s)
     else do {
     (rc, st) \<leftarrow> iotx_mc_check_topic (Some filt) TOPIC_FILTER_TYPE (tok s);
     let s = s\<lparr>tok := st\<rparr>;
     if rc < STATE_SUCCESS then Some (rc, s)
     else do {
     (rc, s) \<leftarrow> MQTTSubscribe h filt qos msgId topic_handle_func pctx s;
     if rc < STATE_SUCCESS
     then Some (rc, if rc = STATE_SYS_DEPEND_NWK_CLOSE then iotx_mc_set_client_state IOTX_MC_STATE_DISCONNECTED s else s)
     else Some (int msgId, s) } } })"

definition wrapper_mqtt_unsubscribe :: "hal \<Rightarrow> bytes option \<Rightarrow> mc \<Rightarrow> int mc_result" where
  "wrapper_mqtt_unsubscribe h topicFilter s = (case topicFilter of
     None \<Rightarrow> Some (STATE_USER_INPUT_INVALID, s)
   | Some filt \<Rightarrow> do {
     let (msgId, s) = iotx_mc_get_next_packetid s;
     (rc, st) \<leftarrow> iotx_mc_check_topic (Some filt) TOPIC_FILTER_TYPE (tok s);
     let s = s\<lparr>tok := st\<rparr>;
     if rc < STATE_SUCCESS then Some (rc, s)
     else do {
     let (connected, s) = wrapper_mqtt_check_state s;
     if \<not> connected then Some (STATE_MQTT_IN_OFFLINE_STATUS, s)
     else do {
     (rc, s) \<leftarrow> MQTTUnsubscribe h filt msgId s;
     if rc < STATE_SUCCESS
     then Some (rc, if rc = STATE_SYS_DEPEND_NWK_CLOSE then iotx_mc_set_client_state IOTX_MC_STATE_DISCONNECTED s else s)
     else Some (int msgId, s) } } })"

text \<open>The packet id is stored in the caller's message, which is returned with the result.\<close>

definition wrapper_mqtt_publish ::
    "hal \<Rightarrow> bytes option \<Rightarrow> iotx_mqtt_topic_info_t \<Rightarrow> mc \<Rightarrow> (int \<times> iotx_mqtt_topic_info_t) mc_result" where
  "wrapper_mqtt_publish h topicName topic_msg s = (case (topicName, ti_payload topic_msg) of
     (Some name, Some payload) \<Rightarrow> do {
     (rc, st) \<leftarrow> iotx_mc_check_topic (Some name) TOPIC_NAME_TYPE (tok s);
     let s = s\<lparr>tok := st\<rparr>;
     if rc < STATE_SUCCESS then Some ((rc, topic_msg), s)
     else do {
     let (connected, s) = wrapper_mqtt_check_state s;
     if \<not> connected then Some ((STATE_MQTT_IN_OFFLINE_STATUS, topic_msg), s)
     else do {
     let (mid, topic_msg, s) = (if ti_qos topic_msg = 1 \<or> ti_qos topic_msg = 2
          then let (i, s) = iotx_mc_get_next_packetid s in (i, topic_msg\<lparr>ti_packet_id := of_nat i\<rparr>, s)
          else (0, topic_msg, s));
     if ti_qos topic_msg = 2 then Some ((STATE_MQTT_PUB_QOS_INVALID, topic_msg), s)
     else do {
     (rc, s) \<leftarrow> MQTTPublish h name topic_msg s;
     if rc < STATE_SUCCESS
     then Some ((rc, topic_msg), if rc = STATE_SYS_DEPEND_NWK_CLOSE
                 then iotx_mc_set_client_state IOTX_MC_STATE_DISCONNECTED s else s)
     else Some ((int mid, topic_msg), s) } } } }
   | _ \<Rightarrow> Some ((STATE_USER_INPUT_INVALID, topic_msg), s))"

text \<open>The body of the inner loop of \<open>wrapper_mqtt_subscribe_sync\<close>: only the first node of the list
  is looked at.  The result is whether to return, and the new \<open>ret\<close> and \<open>subed\<close>.\<close>

definition sub_sync_check :: "int \<Rightarrow> bool \<Rightarrow> mc \<Rightarrow> (bool \<times> int \<times> bool) \<times> mc" where
  "sub_sync_check ret subed s = (case list_sub_sync_ack s of
     [] \<Rightarrow> ((False, ret, subed), s)
   | node # nodes \<Rightarrow>
     if sync_packet_id node = ret then
       if ack_type node = IOTX_MQTT_EVENT_SUBCRIBE_SUCCESS
       then ((True, ret, subed), s\<lparr>list_sub_sync_ack := nodes\<rparr>)
       else if ack_type node = IOTX_MQTT_EVENT_SUBCRIBE_NACK \<or> ack_type node = IOTX_MQTT_EVENT_SUBCRIBE_TIMEOUT
       then ((False, -1, False), s\<lparr>list_sub_sync_ack := nodes\<rparr>)
       else ((False, ret, subed), s)
     else ((False, ret, subed), s))"

definition sub_sync_register :: "hal \<Rightarrow> int \<Rightarrow> bool \<Rightarrow> mc \<Rightarrow> bool \<times> mc" where
  "sub_sync_register h ret subed s =
    (if \<not> subed \<and> ret \<ge> 0 then
       let (p, s) = HAL_Malloc h 20 s in
       if p then
         let s = HAL_MutexLock Lock_generic s;
             s = s\<lparr>list_sub_sync_ack := list_sub_sync_ack s @ [\<lparr>sync_packet_id = ret, ack_type = IOTX_MQTT_EVENT_UNDEF\<rparr>]\<rparr>
         in (True, HAL_MutexUnlock Lock_generic s)
       else (subed, s)
     else (subed, s))"

partial_function (option) subscribe_sync_loop ::
    "hal \<Rightarrow> bytes option \<Rightarrow> int \<Rightarrow> nat option \<Rightarrow> nat \<Rightarrow> iotx_time_t \<Rightarrow> int \<Rightarrow> bool \<Rightarrow> mc \<Rightarrow> int mc_result" where
  "subscribe_sync_loop h topicFilter qos fp pctx timer ret subed s = do {
     (ret', s) \<leftarrow> (if ret < 0 then wrapper_mqtt_subscribe h topicFilter qos fp pctx s else Some (ret, s));
     if ret < 0 \<and> (in_yield_cb s \<or> qos = 3) then Some (ret', s)
     else do {
     let ret = ret';
     let (subed, s) = sub_sync_register h ret subed s;
     (rc, s) \<leftarrow> wrapper_mqtt_yield h 100 s;
     let s = HAL_MutexLock Lock_generic s;
     let ((found, ret, subed), s) = sub_sync_check ret subed s;
     let s = HAL_MutexUnlock Lock_generic s;
     if found then Some (ret, s)
     else do {
     let (expired, s) = time_is_expired h timer s;
     if \<not> expired then subscribe_sync_loop h topicFilter qos fp pctx timer ret subed s
     else do {
       let s = HAL_MutexLock Lock_generic s;
       let s = s\<lparr>list_sub_sync_ack := filter (\<lambda>node. sync_packet_id node \<noteq> ret) (list_sub_sync_ack s)\<rparr>;
       let s = HAL_MutexUnlock Lock_generic s;
       Some (STATE_MQTT_SYNC_SUB_TIMEOUT, s) } } } }"

definition wrapper_mqtt_subscribe_sync ::
    "hal \<Rightarrow> bytes option \<Rightarrow> int \<Rightarrow> nat option \<Rightarrow> nat \<Rightarrow> int \<Rightarrow> mc \<Rightarrow> int mc_result" where
  "wrapper_mqtt_subscribe_sync h topicFilter qos fp pctx timeout_ms s = do {
     let qos = (if qos > 3 then 0 else qos);
     let (timer, s) = time_countdown h (word_of_int timeout_ms) s;
     subscribe_sync_loop h topicFilter qos fp pctx timer (-1) False s }"

end
