(* ===== verification/MQTT_Client_Inv.thy ===== *)
theory MQTT_Client_Inv
  imports MQTT_Client
begin

text \<open>
  The invariant of the MQTT client and its preservation.  \<open>wp Q m\<close> says that every state in which
  the operation \<open>m\<close> returns satisfies \<open>Q\<close>; each operation has one lemma that the invariant is
  kept and the locks are given back, and the proofs compose these lemmas along the code.
\<close>

named_theorems prim_simps \<open>effects of the primitive operations on the state\<close>

section \<open>Weakest preconditions\<close>

definition wp :: "('a \<Rightarrow> mc \<Rightarrow> bool) \<Rightarrow> 'a mc_result \<Rightarrow> bool" where
  "wp Q m \<longleftrightarrow> (\<forall>r s. m = Some (r, s) \<longrightarrow> Q r s)"

lemma wp_Some [simp]: "wp Q (Some (r, s)) = Q r s"
  by (simp add: wp_def)

lemma wp_pair: "wp Q (Some y) = Q (fst y) (snd y)"
  by (cases y) simp

lemma wp_None [simp]: "wp Q None"
  by (simp add: wp_def)

lemma wp_if: "(c \<Longrightarrow> wp Q m) \<Longrightarrow> (\<not> c \<Longrightarrow> wp Q n) \<Longrightarrow> wp Q (if c then m else n)"
  by simp

lemma wp_mono: "wp R m \<Longrightarrow> (\<And>r s. R r s \<Longrightarrow> Q r s) \<Longrightarrow> wp Q m"
  by (simp add: wp_def)

lemma wp_call: "wp R m \<Longrightarrow> (\<And>r s. R r s \<Longrightarrow> wp Q (f (r, s))) \<Longrightarrow> wp Q (m \<bind> f)"
  by (cases m) (auto simp: wp_def)

lemma wp_opt: "(\<And>v. x = Some v \<Longrightarrow> wp Q (f v)) \<Longrightarrow> wp Q (x \<bind> f)"
  by (cases x) auto

section \<open>The invariant\<close>

definition handler_key :: "iotx_mc_topic_handle_t \<Rightarrow> bytes \<times> nat option \<times> nat" where
  "handler_key n = (topic_filter n, h_fp (th_handle n), pcontext (th_handle n))"

text \<open>The values the reconnection interval can have.\<close>

definition backoff :: "u32 \<Rightarrow> bool" where
  "backoff ms \<longleftrightarrow> ms \<in> {1000, 2000, 4000, 8000, 16000, 30000, 32000}"

definition ok :: "mc \<Rightarrow> bool" where
  "ok s \<longleftrightarrow> \<not> lock_bad s
     \<and> length (list_pub_wait_ack s) \<le> 10
     \<and> packet_id s \<le> 65535
     \<and> 1000 \<le> request_timeout_ms s \<and> request_timeout_ms s \<le> 10000
     \<and> backoff (reconnect_time_interval_ms (reconnect_param s))
     \<and> 30 \<le> keepAliveInterval (connect_data s) \<and> keepAliveInterval (connect_data s) \<le> 1200
     \<and> distinct (map handler_key (list_sub_handle s))
     \<and> keepalive_probes s \<le> 3 \<and> \<not> in_yield_cb s"

text \<open>Locks of a lower rank only are held.\<close>

definition below :: "nat \<Rightarrow> mc \<Rightarrow> bool" where
  "below k s \<longleftrightarrow> (\<forall>m \<in> set (held s). lock_rank m < k)"

text \<open>What no operation changes for its caller; what in addition the reader keeps; what in addition
  the senders keep.\<close>

definition keeps :: "mc \<Rightarrow> mc \<Rightarrow> bool" where
  "keeps s s' \<longleftrightarrow> held s' = held s \<and> (buf_send s = None \<longrightarrow> buf_send s' = None)"

definition keeps_r :: "mc \<Rightarrow> mc \<Rightarrow> bool" where
  "keeps_r s s' \<longleftrightarrow> keeps s s' \<and> keepalive_probes s' = keepalive_probes s
     \<and> (client_state s' = IOTX_MC_STATE_CONNECTED \<longrightarrow> client_state s = IOTX_MC_STATE_CONNECTED)"

definition keeps_all :: "mc \<Rightarrow> mc \<Rightarrow> bool" where
  "keeps_all s s' \<longleftrightarrow> keeps_r s s' \<and> buf_read s' = buf_read s"

lemmas inv_defs = ok_def below_def keeps_def keeps_r_def keeps_all_def

lemma keeps_trans: "keeps s s' \<Longrightarrow> keeps s' s'' \<Longrightarrow> keeps s s''"
  and keeps_r_trans: "keeps_r s s' \<Longrightarrow> keeps_r s' s'' \<Longrightarrow> keeps_r s s''"
  and keeps_all_trans: "keeps_all s s' \<Longrightarrow> keeps_all s' s'' \<Longrightarrow> keeps_all s s''"
  by (simp_all add: keeps_def keeps_r_def keeps_all_def)

lemma keeps_refl [simp]: "keeps s s" "keeps_r s s" "keeps_all s s"
  by (simp_all add: keeps_def keeps_r_def keeps_all_def)

lemma keeps_below: "keeps s s' \<Longrightarrow> below k s' = below k s"
  and keeps_r_below: "keeps_r s s' \<Longrightarrow> below k s' = below k s"
  and keeps_all_below: "keeps_all s s' \<Longrightarrow> below k s' = below k s"
  by (simp_all add: keeps_def keeps_r_def keeps_all_def below_def)

section \<open>Primitive operations\<close>

lemma HAL_UptimeMs_eq: "HAL_UptimeMs h s = (of_nat (hal_uptime h (tick s)), s\<lparr>tick := Suc (tick s)\<rparr>)"
  by (simp add: HAL_UptimeMs_def ticked_def)

lemma snd_time [prim_simps]:
  "snd (time_is_expired h t s) = s\<lparr>tick := Suc (tick s)\<rparr>"
  "snd (time_countdown h ms s) = s\<lparr>tick := Suc (tick s)\<rparr>"
  "snd (time_start h s) = s\<lparr>tick := Suc (tick s)\<rparr>"
  "snd (time_spend h t s) = s\<lparr>tick := Suc (tick s)\<rparr>"
  by (simp_all add: time_is_expired_def time_countdown_def time_start_def time_spend_def HAL_UptimeMs_eq)

definition left_ticks :: "hal \<Rightarrow> iotx_time_t \<Rightarrow> mc \<Rightarrow> nat" where
  "left_ticks h t s = (if utils_time_is_expired (Some t) (of_nat (hal_uptime h (tick s))) \<noteq> 0 then 1 else 2)"

lemma snd_time_left [prim_simps]:
  "snd (time_left h t s) = s\<lparr>tick := tick s + left_ticks h t s\<rparr>"
  "snd (time_left_1 h t s) = s\<lparr>tick := tick s + left_ticks h t s\<rparr>"
  by (simp_all add: time_left_1_def time_left_def HAL_UptimeMs_eq left_ticks_def split_beta)

lemma snd_hal [prim_simps]:
  "HAL_SleepMs ms s = s\<lparr>tick := Suc (tick s)\<rparr>"
  "snd (HAL_Malloc h n s) = s\<lparr>tick := Suc (tick s)\<rparr>"
  "snd (utils_net_read h n t s) = s\<lparr>tick := Suc (tick s)\<rparr>"
  "snd (utils_net_write h buf t s) = s\<lparr>tick := Suc (tick s), sent := sent s @ take (nat (fst (utils_net_write h buf t s))) buf\<rparr>"
  "snd (iotx_net_disconnect s) = s\<lparr>tick := Suc (tick s), ipstack := (ipstack s)\<lparr>handle := 0\<rparr>\<rparr>"
  "snd (iotx_net_connect h s) = s\<lparr>tick := Suc (tick s), ipstack := (ipstack s)\<lparr>handle := hal_ssl_establish h (tick s)\<rparr>\<rparr>"
  by (simp_all add: HAL_SleepMs_def HAL_Malloc_def utils_net_read_def utils_net_write_def iotx_net_disconnect_def
      iotx_net_connect_def ticked_def split_beta Let_def)

lemma lock_effects [prim_simps]:
  "HAL_MutexLock l s = s\<lparr>held := l # held s, lock_bad := (lock_bad s \<or> \<not> below (lock_rank l) s)\<rparr>"
  "HAL_MutexUnlock l s = s\<lparr>held := tl (held s), lock_bad := (lock_bad s \<or> held s = [] \<or> hd (held s) \<noteq> l)\<rparr>"
  by (auto simp: HAL_MutexLock_def HAL_MutexUnlock_def below_def not_less)

lemma client_state_effects [prim_simps]:
  "iotx_mc_set_client_state st s = s\<lparr>client_state := st, lock_bad := (lock_bad s \<or> \<not> below 4 s)\<rparr>"
  "iotx_mc_get_client_state s = (client_state s, s\<lparr>lock_bad := (lock_bad s \<or> \<not> below 4 s)\<rparr>)"
  "wrapper_mqtt_check_state s = (client_state s = IOTX_MC_STATE_CONNECTED, s\<lparr>lock_bad := (lock_bad s \<or> \<not> below 4 s)\<rparr>)"
  by (simp_all add: iotx_mc_set_client_state_def iotx_mc_get_client_state_def wrapper_mqtt_check_state_def lock_effects)

lemma reset_effects [prim_simps]:
  "snd (reset_send_buffer s) = s\<lparr>buf_send := None, buf_size_send := (if buf_send s = None then buf_size_send s else 0)\<rparr>"
  "snd (reset_recv_buffer s) = s\<lparr>buf_read := None, buf_size_read := (if buf_read s = None then buf_size_read s else 0)\<rparr>"
  by (auto simp: reset_send_buffer_def reset_recv_buffer_def split: option.splits)

lemma below_mono: "below j s \<Longrightarrow> j \<le> k \<Longrightarrow> below k s"
  by (auto simp: below_def)

lemma below_2: "below 2 s \<Longrightarrow> below 2 s \<and> below 3 s \<and> below 4 s"
  and below_1: "below 1 s \<Longrightarrow> below 1 s \<and> below 2 s \<and> below 3 s \<and> below 4 s"
  and below_0: "below 0 s \<Longrightarrow> below 0 s \<and> below 1 s \<and> below 2 s \<and> below 3 s \<and> below 4 s"
  and below_3: "below 3 s \<Longrightarrow> below 3 s \<and> below 4 s"
  by (auto intro: below_mono)

lemma below_push [simp]: "below k (s\<lparr>held := l # hs\<rparr>) \<longleftrightarrow> lock_rank l < k \<and> below k (s\<lparr>held := hs\<rparr>)"
  by (simp add: below_def)

section \<open>Senders\<close>

definition send_buf_len :: "int \<Rightarrow> mc \<Rightarrow> nat" where
  "send_buf_len len s = min (nat (to_u32 (64 + len))) (buf_size_send_max s)"

lemma alloc_send_effect [prim_simps]:
  "alloc_send_buffer h len s = (let n = send_buf_len len s; p = hal_malloc h (tick s) n in
     (if p then STATE_SUCCESS else STATE_SYS_DEPEND_MALLOC,
      s\<lparr>tick := Suc (tick s), buf_send := (if p then Some (replicate n 0) else None),
        buf_size_send := (if p then n else buf_size_send s)\<rparr>))"
  by (auto simp: alloc_send_buffer_def send_buf_len_def Let_def HAL_Malloc_def ticked_def)

definition sent_only :: "mc \<Rightarrow> mc \<Rightarrow> bool" where
  "sent_only s s' \<longleftrightarrow> s' = s\<lparr>tick := tick s', sent := sent s'\<rparr>"

lemma sent_only_refl: "sent_only s s"
  by (simp add: sent_only_def)

lemma sent_only_trans: "sent_only s s' \<Longrightarrow> sent_only s' s'' \<Longrightarrow> sent_only s s''"
proof -
  assume "sent_only s s'" "sent_only s' s''"
  then have "s'' = s'\<lparr>tick := tick s'', sent := sent s''\<rparr>" "s' = s\<lparr>tick := tick s', sent := sent s'\<rparr>"
    by (simp_all add: sent_only_def)
  then have "s'' = s\<lparr>tick := tick s', sent := sent s'\<rparr>\<lparr>tick := tick s'', sent := sent s''\<rparr>" by metis
  then show ?thesis by (simp add: sent_only_def)
qed

lemma sent_only_prims:
  "sent_only s (s\<lparr>tick := k\<rparr>)" "sent_only s (s\<lparr>tick := k, sent := x\<rparr>)"
  by (simp_all add: sent_only_def)

lemma send_loop_effect: "send_loop h t bs n s = Some y \<Longrightarrow> sent_only s (snd y)"
proof (erule send_loop.raw_induct [rotated, where P = "\<lambda>h t bs n s y. sent_only s (snd y)"])
  fix send h t bs n s y
  assume IH: "\<And>h t bs n s y. send h t bs n s = Some y \<Longrightarrow> sent_only s (snd y)"
    and eq: "(if n < length bs then let (expired, s) = time_is_expired h t s in
       if expired then Some (n, s)
       else let (left_t, s) = time_left_1 h t s; (rc, s) = utils_net_write h (drop n bs) left_t s
            in if rc < 0 then Some (n, s) else send h t bs (n + nat rc) s
     else Some (n, s)) = Some y"
  define s1 where "s1 = snd (time_left_1 h t (snd (time_is_expired h t s)))"
  define l where "l = fst (time_left_1 h t (snd (time_is_expired h t s)))"
  define s2 where "s2 = snd (utils_net_write h (drop n bs) l s1)"
  have s2: "sent_only s s2" by (simp add: s2_def s1_def prim_simps sent_only_prims)
  have "snd y = s \<or> snd y = snd (time_is_expired h t s) \<or> snd y = s2 \<or> (\<exists>j. send h t bs j s2 = Some y)"
    using eq by (auto simp: split_beta Let_def s2_def s1_def l_def split: if_splits)
  then consider "snd y = s" | "snd y = snd (time_is_expired h t s)" | "snd y = s2" | "sent_only s2 (snd y)"
    using IH by blast
  then show "sent_only s (snd y)"
    using s2 by cases (auto simp: prim_simps sent_only_prims sent_only_refl intro: sent_only_trans)
qed

lemma send_packet_effect: "wp (\<lambda>r s'. sent_only s s' \<and> (r = STATE_SUCCESS \<or> r = STATE_SYS_DEPEND_NWK_CLOSE))
    (iotx_mc_send_packet h buf len t s)"
  by (auto simp: wp_def iotx_mc_send_packet_def split: Option.bind_splits if_splits dest!: send_loop_effect)

lemma wp_send:
  "(\<And>r a b. r = STATE_SUCCESS \<or> r = STATE_SYS_DEPEND_NWK_CLOSE \<Longrightarrow> wp Q (f (r, s\<lparr>tick := a, sent := b\<rparr>))) \<Longrightarrow>
   wp Q (iotx_mc_send_packet h buf len t s \<bind> f)"
proof (rule wp_call [OF send_packet_effect])
  fix r s'
  assume q: "\<And>r a b. r = STATE_SUCCESS \<or> r = STATE_SYS_DEPEND_NWK_CLOSE \<Longrightarrow> wp Q (f (r, s\<lparr>tick := a, sent := b\<rparr>))"
    and "sent_only s s' \<and> (r = STATE_SUCCESS \<or> r = STATE_SYS_DEPEND_NWK_CLOSE)"
  then show "wp Q (f (r, s'))" unfolding sent_only_def by metis
qed

text \<open>Primitive operations that return a value and change the clock only.\<close>

lemma wp_prims:
  "(\<And>l k. wp Q (f l (s\<lparr>tick := k\<rparr>))) \<Longrightarrow> wp Q (case time_left_1 h t s of (l, s) \<Rightarrow> f l s)"
  "(\<And>l k. wp Q (f l (s\<lparr>tick := k\<rparr>))) \<Longrightarrow> wp Q (case time_left h t s of (l, s) \<Rightarrow> f l s)"
  "(\<And>b k. wp Q (g b (s\<lparr>tick := k\<rparr>))) \<Longrightarrow> wp Q (case time_is_expired h t s of (b, s) \<Rightarrow> g b s)"
  "(\<And>b k. wp Q (i b (s\<lparr>tick := k\<rparr>))) \<Longrightarrow> wp Q (case time_countdown h ms s of (b, s) \<Rightarrow> i b s)"
  "(\<And>r b k. wp Q (j (r, b) (s\<lparr>tick := k\<rparr>))) \<Longrightarrow> wp Q (case utils_net_read h n ms s of (x, s) \<Rightarrow> j x s)"
  by (simp_all add: split_beta prim_simps) (metis prod.collapse)

text \<open>Binding a computation that does not touch the state, by the type of its result.\<close>

lemmas wp_codec =
  wp_opt [where x = x for x :: "bytes option"] wp_opt [where x = x for x :: "(int \<times> bytes) option"]
  wp_opt [where x = x for x :: "(nat \<times> bytes) option"] wp_opt [where x = x for x :: "byte option"]
  wp_opt [where x = x for x :: "iotx_mc_topic_handle_t list option"] wp_opt [where x = x for x :: "int option"]
  wp_opt [where x = x for x :: "bool option"]

lemma MQTTConnect_ok: "ok s \<Longrightarrow> below 3 s \<Longrightarrow> wp (\<lambda>r s'. ok s' \<and> keeps_all s s') (MQTTConnect h s)"
  unfolding MQTTConnect_def Let_def
  by (auto simp: prim_simps send_exit_def inv_defs Let_def split_beta intro!: wp_if wp_send wp_codec)

lemma MQTTPuback_ok: "ok s \<Longrightarrow> below 3 s \<Longrightarrow> wp (\<lambda>r s'. ok s' \<and> keeps_all s s') (MQTTPuback h i ty s)"
  unfolding MQTTPuback_def Let_def
  by (auto simp: prim_simps send_exit_def inv_defs Let_def split_beta intro!: wp_if wp_send wp_codec)

lemma MQTTKeepalive_ok: "ok s \<Longrightarrow> below 3 s \<Longrightarrow> wp (\<lambda>r s'. ok s' \<and> keeps_all s s') (MQTTKeepalive h s)"
  unfolding MQTTKeepalive_def Let_def
  by (auto simp: prim_simps send_exit_def inv_defs Let_def split_beta intro!: wp_if wp_send wp_codec)

lemma bind_if: "Option.bind (if c then m else n) f = (if c then Option.bind m f else Option.bind n f)"
  by simp

lemma MQTTDisconnect_ok: "ok s \<Longrightarrow> below 3 s \<Longrightarrow> wp (\<lambda>r s'. ok s' \<and> keeps_all s s') (MQTTDisconnect h s)"
  unfolding MQTTDisconnect_def Let_def bind_if
  by (auto simp: prim_simps send_exit_def inv_defs Let_def split_beta intro!: wp_if wp_send wp_codec)

lemma MQTTRePublish_ok: "ok s \<Longrightarrow> below 3 s \<Longrightarrow> wp (\<lambda>r s'. ok s' \<and> keeps_all s s' \<and> list_pub_wait_ack s' = list_pub_wait_ack s) (MQTTRePublish h b n s)"
  unfolding MQTTRePublish_def Let_def
  by (auto simp: prim_simps inv_defs Let_def split_beta intro!: wp_if wp_send wp_codec)

lemma push_pubInfo_effect:
  "(\<And>r k l. length l \<le> 10 \<Longrightarrow> (r = STATE_SUCCESS \<Longrightarrow> butlast l = list_pub_wait_ack s) \<Longrightarrow> wp Q (f (r, s\<lparr>tick := k, list_pub_wait_ack := l\<rparr>)))
   \<Longrightarrow> length (list_pub_wait_ack s) \<le> 10 \<Longrightarrow> wp Q (iotx_mc_push_pubInfo_to h len i s \<bind> f)"
proof -
  assume q: "\<And>r k l. length l \<le> 10 \<Longrightarrow> (r = STATE_SUCCESS \<Longrightarrow> butlast l = list_pub_wait_ack s) \<Longrightarrow> wp Q (f (r, s\<lparr>tick := k, list_pub_wait_ack := l\<rparr>))"
    and l: "length (list_pub_wait_ack s) \<le> 10"
  have "wp Q (f (r, s\<lparr>tick := k\<rparr>))" if "r \<noteq> STATE_SUCCESS" for r k
    using q [of "list_pub_wait_ack s" r k] l that by simp
  moreover have "wp Q (f (r, s))" if "r \<noteq> STATE_SUCCESS" for r
    using q [of "list_pub_wait_ack s" r "tick s"] l that by simp
  moreover have "wp Q (f (STATE_SUCCESS, s\<lparr>tick := k, list_pub_wait_ack := list_pub_wait_ack s @ [x]\<rparr>))"
    if "length (list_pub_wait_ack s) < 10" for k x
    using q [of "list_pub_wait_ack s @ [x]" STATE_SUCCESS k] that by simp
  ultimately show ?thesis
    unfolding iotx_mc_push_pubInfo_to_def Let_def
    by (auto simp: prim_simps split_beta bind_if intro!: wp_codec)
qed

lemma MQTTPublish_ok: "ok s \<Longrightarrow> below 2 s \<Longrightarrow> wp (\<lambda>r s'. ok s' \<and> keeps_all s s') (MQTTPublish h t m s)"
  unfolding MQTTPublish_def Let_def bind_if
  by (drule below_2) (auto simp: prim_simps send_exit_def inv_defs Let_def split_beta intro!: wp_if wp_send wp_codec push_pubInfo_effect)

lemma get_next_packetid_effect [prim_simps]:
  "iotx_mc_get_next_packetid s = (let i = (if packet_id s = 65535 then 1 else packet_id s + 1) in
     (i, s\<lparr>packet_id := i, lock_bad := (lock_bad s \<or> \<not> below 4 s)\<rparr>))"
  by (simp add: iotx_mc_get_next_packetid_def prim_simps Let_def)

lemma identical_iff: "iotx_mc_check_handle_is_identical a b = 0 \<longleftrightarrow> handler_key a = handler_key b"
  by (auto simp: iotx_mc_check_handle_is_identical_def iotx_mc_check_handle_is_identical_ex_def handler_key_def Let_def)

definition handle_insert :: "iotx_mc_topic_handle_t \<Rightarrow> iotx_mc_topic_handle_t list \<Rightarrow> iotx_mc_topic_handle_t list" where
  "handle_insert nd l = (if handler_key nd \<in> handler_key ` set l then l else l @ [nd])"

lemma distinct_handle_insert [simp]:
  "distinct (map handler_key (handle_insert nd l)) = distinct (map handler_key l)"
  by (auto simp: handle_insert_def)

lemma sub_handle_add_effect [prim_simps]:
  "sub_handle_add nd s = s\<lparr>list_sub_handle := handle_insert nd (list_sub_handle s), lock_bad := (lock_bad s \<or> \<not> below 4 s)\<rparr>"
  by (auto simp: sub_handle_add_def prim_simps Let_def identical_iff image_iff handle_insert_def)

lemma MQTTSubscribe_ok: "ok s \<Longrightarrow> below 3 s \<Longrightarrow> wp (\<lambda>r s'. ok s' \<and> keeps_all s s') (MQTTSubscribe h f q i m p s)"
  unfolding MQTTSubscribe_def Let_def bind_if
  by (drule below_3) (auto simp: prim_simps send_exit_def inv_defs Let_def split_beta intro!: wp_if wp_send wp_codec)

lemma unsub_loop_sub: "unsub_loop t n l = Some l' \<Longrightarrow> set l' \<subseteq> set l \<and> (distinct (map handler_key l) \<longrightarrow> distinct (map handler_key l'))"
proof (induction l arbitrary: l')
  case (Cons a l)
  then obtain x xa where "unsub_loop t n l = Some xa" "l' = xa \<or> l' = a # xa"
    by (auto split: Option.bind_splits if_splits)
  with Cons.IH [of xa] show ?case by (auto simp: image_iff subset_iff)
qed simp

lemma MQTTUnsubscribe_ok: "ok s \<Longrightarrow> below 3 s \<Longrightarrow> wp (\<lambda>r s'. ok s' \<and> keeps_all s s') (MQTTUnsubscribe h f i s)"
  unfolding MQTTUnsubscribe_def Let_def bind_if
  by (drule below_3) (auto simp: prim_simps send_exit_def inv_defs Let_def split_beta dest: unsub_loop_sub intro!: wp_if wp_send wp_codec)

lemma mask_pubInfo_effect [prim_simps]:
  "snd (iotx_mc_mask_pubInfo_from i s) = s\<lparr>list_pub_wait_ack := map (\<lambda>node. if msg_id node = i
       then node\<lparr>node_state := IOTX_MC_NODE_STATE_INVALID\<rparr> else node) (list_pub_wait_ack s),
     lock_bad := (lock_bad s \<or> \<not> below 2 s)\<rparr>"
  by (simp add: iotx_mc_mask_pubInfo_from_def prim_simps Let_def)

lemma pub_info_loop_ok:
  "ok s \<Longrightarrow> below 3 s \<Longrightarrow> wp (\<lambda>nodes s'. ok s' \<and> keeps_all s s' \<and> list_pub_wait_ack s' = list_pub_wait_ack s
     \<and> length nodes \<le> length ns) (pub_info_loop h ns s)"
proof (induction ns arbitrary: s)
  case (Cons n ns)
  note IH = Cons.IH [THEN wp_call] Cons.IH [THEN wp_mono]
  show ?case using Cons.prems below_3 [OF Cons.prems(2)]
    by (auto simp: prim_simps split_beta Let_def inv_defs intro!: wp_if wp_call [OF MQTTRePublish_ok] IH)
qed (simp add: inv_defs)

lemma MQTTPubInfoProc_ok: "ok s \<Longrightarrow> below 2 s \<Longrightarrow> wp (\<lambda>r s'. ok s' \<and> keeps_all s s') (MQTTPubInfoProc h s)"
  unfolding MQTTPubInfoProc_def Let_def
  by (drule below_2) (auto simp: prim_simps split_beta Let_def inv_defs intro!: wp_call [OF pub_info_loop_ok])

section \<open>Receivers\<close>

lemma wp_alloc_recv:
  "(\<And>r b k. wp Q (f (r, s\<lparr>tick := Suc (tick s), buf_read := b, buf_size_read := k\<rparr>))) \<Longrightarrow>
   wp Q (alloc_recv_buffer h len s \<bind> f)"
proof -
  assume q: "\<And>r b k. wp Q (f (r, s\<lparr>tick := Suc (tick s), buf_read := b, buf_size_read := k\<rparr>))"
  have "wp Q (f (r, s\<lparr>tick := Suc (tick s)\<rparr>))" for r
    using q [where r = r and b = "buf_read s" and k = "buf_size_read s"] by simp
  with q show ?thesis
    unfolding alloc_recv_buffer_def Let_def
    by (auto simp: prim_simps split_beta bind_if split: option.split intro!: wp_codec)
qed

text \<open>The parts of the reader that change nothing but the clock and the receive buffer.\<close>

definition read_only :: "mc \<Rightarrow> mc \<Rightarrow> bool" where
  "read_only s s' \<longleftrightarrow> s' = s\<lparr>tick := tick s', buf_read := buf_read s'\<rparr>"

lemma read_only_prims: "read_only s s" "read_only s (s\<lparr>tick := k\<rparr>)" "read_only s (s\<lparr>tick := k, buf_read := b\<rparr>)"
  by (simp_all add: read_only_def)

lemma read_only_step: "read_only (s\<lparr>tick := k\<rparr>) s' \<Longrightarrow> read_only s s'"
    "read_only (s\<lparr>tick := k, buf_read := b\<rparr>) s' \<Longrightarrow> read_only s s'"
  by (simp_all add: read_only_def)

lemma wp_read_only: "(\<And>y. m = Some y \<Longrightarrow> read_only s (snd y)) \<Longrightarrow>
    (\<And>r k b. wp Q (f (r, s\<lparr>tick := k, buf_read := b\<rparr>))) \<Longrightarrow> wp Q (m \<bind> f)"
proof (rule wp_call [where R = "\<lambda>r s'. read_only s s'"])
  show "(\<And>y. m = Some y \<Longrightarrow> read_only s (snd y)) \<Longrightarrow> wp (\<lambda>r s'. read_only s s') m" by (auto simp: wp_def)
next
  fix r s'
  assume "\<And>r k b. wp Q (f (r, s\<lparr>tick := k, buf_read := b\<rparr>))" "read_only s s'"
  then show "wp Q (f (r, s'))" unfolding read_only_def by metis
qed

lemma decode_packet_loop_effect: "decode_packet_loop h t len m v s = Some y \<Longrightarrow> read_only s (snd y)"
proof (induction "4 - len" arbitrary: len m v s)
  case 0
  then show ?case unfolding decode_packet_loop.simps [of h t len m v s] by (auto simp: read_only_prims split: if_splits)
next
  case (Suc k)
  have k: "k = 4 - Suc len" using Suc.hyps(2) by simp
  show ?case using Suc.prems Suc.hyps(1) [OF k] unfolding decode_packet_loop.simps [of h t len m v s]
    by (auto simp: prim_simps split_beta Let_def read_only_prims split: list.splits if_splits intro: read_only_step)
qed

lemma drain_loop_effect: "drain_loop h t n s = Some y \<Longrightarrow> read_only s (snd y)"
proof (erule drain_loop.raw_induct [rotated, where P = "\<lambda>h t n s y. read_only s (snd y)"])
  fix drain h t n s y
  assume IH: "\<And>h t n s y. drain h t n s = Some y \<Longrightarrow> read_only s (snd y)"
    and eq: "(let needReadLen = if buf_size_read s < n then buf_size_read s else n;
          ((rc, bs), s) = utils_net_read h needReadLen t s
      in buf_read s \<bind> (\<lambda>buf. store_n buf 0 bs \<bind> (\<lambda>buf.
           let s = s\<lparr>buf_read := Some buf\<rparr> in
           if rc \<noteq> int needReadLen then Some (STATE_SYS_DEPEND_NWK_READ_ERROR, s)
           else if n - needReadLen \<noteq> 0 then drain h t (n - needReadLen) s
           else Some (STATE_SUCCESS, s)))) = Some y"
  show "read_only s (snd y)"
    using eq by (auto simp: Let_def split_beta prim_simps read_only_prims split: Option.bind_splits if_splits
        dest!: IH intro: read_only_step)
qed

lemmas wp_decode = wp_read_only [where m = "decode_packet_loop h t l m v s" and s = s for h t l m v s, OF decode_packet_loop_effect]
lemmas wp_drain = wp_read_only [where m = "drain_loop h t n s" and s = s for h t n s, OF drain_loop_effect]

definition fired :: "iotx_mqtt_event_handle_t \<Rightarrow> iotx_mqtt_event_msg_t \<Rightarrow> mc \<Rightarrow> mc_event list" where
  "fired hdl m s = (case h_fp hdl of None \<Rightarrow> [] | Some f \<Rightarrow> [Ev_callback f (pcontext hdl) m (held s)])"

lemma event_call_effect [prim_simps]:
  "snd (handle_event_call hdl m s) = s\<lparr>events := events s @ fired hdl m s,
     in_yield_cb := (in_yield_cb s \<and> h_fp hdl = None)\<rparr>"
  by (auto simp: handle_event_call_def fired_def split: option.splits)

text \<open>The same rules on binds of tuples, so that the code is followed by resolution alone.\<close>

lemma wp_SomeI: "Q r s \<Longrightarrow> wp Q (Some (r, s))"
  by simp

lemma wp_decode2:
  "(\<And>r v k b. wp Q (f r v (s\<lparr>tick := k, buf_read := b\<rparr>))) \<Longrightarrow>
   wp Q (decode_packet_loop h t l m x s \<bind> (\<lambda>((r, v), s). f r v s))"
  by (rule wp_decode) (auto split: prod.split)

lemma wp_opt2: "(\<And>a b. x = Some (a, b) \<Longrightarrow> wp Q (f a b)) \<Longrightarrow> wp Q (x \<bind> (\<lambda>(a, b). f a b))"
  by (rule wp_opt) auto

lemmas wp_binds =
  wp_alloc_recv [where f = "case_prod f" for f, simplified] wp_decode2
  wp_drain [where f = "case_prod f" for f, simplified]
  wp_opt2 [where x = x for x :: "(nat \<times> bytes) option"] wp_opt2 [where x = x for x :: "(int \<times> bytes) option"]
  wp_opt [where x = x for x :: "bytes option"] wp_opt [where x = x for x :: "byte option"]
  wp_prims(1-4) wp_prims(5) [where j = "case_prod f" for f, simplified]

lemma read_packet_ok: "ok s \<Longrightarrow> below 1 s \<Longrightarrow> wp (\<lambda>r s'. ok s' \<and> keeps_r s s') (iotx_mc_read_packet h t p s)"
  unfolding iotx_mc_read_packet_def Let_def bind_if iotx_mc_decode_packet_def
  by (drule below_1) (intro wp_if wp_SomeI wp_binds; auto simp: prim_simps inv_defs)

lemma recv_reset_effect [prim_simps]:
  "recv_reset_locked s = s\<lparr>buf_read := None, buf_size_read := (if buf_read s = None then buf_size_read s else 0),
     lock_bad := (lock_bad s \<or> \<not> below 1 s)\<rparr>"
  by (auto simp: recv_reset_locked_def prim_simps)

lemma wait_connack_ok:
  "ok s \<Longrightarrow> below 1 s \<Longrightarrow> wp (\<lambda>r s'. ok s' \<and> keeps_r s s' \<and> buf_read s' = None) (wait_connack_loop h t n p s)"
proof (induction "10 - n" arbitrary: n p s rule: less_induct)
  case less
  have IH: "wp (\<lambda>r s'. ok s' \<and> keeps_r s s' \<and> buf_read s' = None) (wait_connack_loop h t (Suc n) q s')"
    if "ok s'" "keeps_r s s'" "Suc n \<le> 10" for q s'
    by (rule wp_mono [OF less.hyps [of "Suc n" s' q]])
      (use that less.prems keeps_r_below [OF that(2)] in \<open>auto intro: keeps_r_trans\<close>)
  have b: "below 1 s'" if "keeps_r s s'" for s'
    using less.prems keeps_r_below [OF that] by simp
  have exit: "wp (\<lambda>r s'. ok s' \<and> keeps_r s s' \<and> buf_read s' = None) (Some (rc, recv_reset_locked s'))"
    if "ok s'" "keeps_r s s'" for rc s'
    using that b [OF that(2)] by (auto simp: prim_simps inv_defs)
  have ack: "wp (\<lambda>r s'. ok s' \<and> keeps_r s s' \<and> buf_read s' = None) (iotx_mc_handle_recv_CONNACK (HAL_MutexLock Lock_read_buf s')
        \<bind> (\<lambda>rc. Some (rc, HAL_MutexUnlock Lock_read_buf (snd (reset_recv_buffer (HAL_MutexLock Lock_read_buf s'))))))"
    if "ok s'" "keeps_r s s'" for s'
    using that b [OF that(2)] by (intro wp_opt) (auto simp: prim_simps inv_defs)
  show ?case unfolding wait_connack_loop.simps [of h t n p s] Let_def
    by (rule wp_call [OF read_packet_ok [OF less.prems]])
      (auto simp del: wp_Some simp: not_less intro!: wp_if exit IH ack)
qed

lemma handle_sub_effect [prim_simps]:
  "iotx_mqtt_event_handle_sub i ev s = s\<lparr>list_sub_sync_ack := map (\<lambda>node. if sync_packet_id node = uint i
       then node\<lparr>ack_type := ev\<rparr> else node) (list_sub_sync_ack s), lock_bad := (lock_bad s \<or> \<not> below 4 s)\<rparr>"
  by (simp add: iotx_mqtt_event_handle_sub_def prim_simps Let_def)

lemma recv_PUBACK_ok: "ok s \<Longrightarrow> below 2 s \<Longrightarrow> wp (\<lambda>r s'. ok s' \<and> keeps_all s s') (iotx_mc_handle_recv_PUBACK h s)"
  unfolding iotx_mc_handle_recv_PUBACK_def Let_def
  by (rule wp_opt, rule wp_opt) (auto simp: prim_simps inv_defs split_beta intro!: wp_if)

lemma recv_SUBACK_ok: "ok s \<Longrightarrow> below 4 s \<Longrightarrow> wp (\<lambda>r s'. ok s' \<and> keeps_all s s') (iotx_mc_handle_recv_SUBACK h s)"
  unfolding iotx_mc_handle_recv_SUBACK_def Let_def
  by (rule wp_opt, rule wp_opt) (auto simp: prim_simps inv_defs split_beta intro!: wp_if)

lemma recv_UNSUBACK_ok: "ok s \<Longrightarrow> wp (\<lambda>r s'. ok s' \<and> keeps_all s s') (iotx_mc_handle_recv_UNSUBACK s)"
  unfolding iotx_mc_handle_recv_UNSUBACK_def Let_def
  by (rule wp_opt, rule wp_opt) (auto simp: prim_simps inv_defs split_beta intro!: wp_if)

text \<open>The identity response changes the events and the two context strings only.\<close>

definition ident_only :: "mc \<Rightarrow> mc \<Rightarrow> bool" where
  "ident_only s s' \<longleftrightarrow> s' = s\<lparr>tick := tick s', events := events s', ctx_product_key := ctx_product_key s',
     ctx_device_name := ctx_device_name s'\<rparr>"

lemma parse_identity_effect: "iotx_mc_parse_identity_response h m s = Some s' \<Longrightarrow> ident_only s s'"
  unfolding iotx_mc_parse_identity_response_def Let_def
  by (auto simp: prim_simps split_beta ident_only_def ioctl_set_product_key_def ioctl_set_device_name_def
      split: Option.bind_splits if_splits)

lemma ident_only_inv: "ident_only s s' \<Longrightarrow> ok s \<Longrightarrow> ok s' \<and> keeps_all s s'"
proof -
  assume "ident_only s s'" "ok s"
  then obtain a b c d where "s' = s\<lparr>tick := a, events := b, ctx_product_key := c, ctx_device_name := d\<rparr>"
    unfolding ident_only_def by blast
  with \<open>ok s\<close> show ?thesis by (simp add: inv_defs)
qed

lemma event_call_ok:
  "ok s \<Longrightarrow> ok (snd (handle_event_call hdl m s))" "keeps_all s (snd (handle_event_call hdl m s))"
  by (simp_all add: prim_simps inv_defs)

lemma deliver_loop_ok:
  "ok s \<Longrightarrow> held s = Lock_generic # hs \<Longrightarrow> \<forall>m \<in> set hs. lock_rank m < 4 \<Longrightarrow>
   wp (\<lambda>r s'. ok s' \<and> keeps_all s s') (deliver_loop t n m ns fl s)"
proof (induction ns arbitrary: fl s)
  case (Cons nd ns)
  have IH: "wp (\<lambda>r s'. ok s' \<and> keeps_all s s') (deliver_loop t n m ns fl s')"
    if "ok s'" "keeps_all s s'" for fl s'
  proof (rule wp_mono [OF Cons.IH])
    show "ok s'" "held s' = Lock_generic # hs" using that Cons.prems(2) by (simp_all add: inv_defs)
  qed (use that Cons.prems(3) in \<open>auto intro: keeps_all_trans\<close>)
  have ev: "ok s'" "keeps_all s s'"
    if "s' = HAL_MutexLock Lock_generic (snd (handle_event_call hdl ms (HAL_MutexUnlock Lock_generic s)))
       \<or> s' = HAL_MutexLock Lock_generic (HAL_MutexUnlock Lock_generic s)" for s' hdl ms
    using that Cons.prems by (auto simp: prim_simps inv_defs)
  show ?case unfolding deliver_loop.simps Let_def
    by (rule wp_opt, rule wp_if) (auto intro!: IH intro: ev Cons.prems(1))
qed (simp add: inv_defs)

lemma deliver_message_ok:
  assumes "iotx_mc_deliver_message h t m s = Some s'" "ok s" "below 4 s"
  shows "ok s' \<and> keeps_all s s'"
proof -
  let ?m = "m\<lparr>ti_ptopic := lenstring_data t, ti_topic_len := word_of_int (lenstring_len t)\<rparr>"
  obtain s1 d n fl s2 where s1: "iotx_mc_parse_identity_response h ?m s = Some s1"
    and s2: "deliver_loop t n ?m (list_sub_handle (HAL_MutexLock Lock_generic s1)) False (HAL_MutexLock Lock_generic s1) = Some (fl, s2)"
    and s': "s' = HAL_MutexUnlock Lock_generic s2
       \<or> s' = snd (handle_event_call (handle_event (HAL_MutexUnlock Lock_generic s2))
            \<lparr>event_type = IOTX_MQTT_EVENT_PUBLISH_RECEIVED, msg = Msg_topic ?m\<rparr> (HAL_MutexUnlock Lock_generic s2))"
    using assms(1) unfolding iotx_mc_deliver_message_def Let_def
    by (auto split: Option.bind_splits if_splits)
  have 1: "ok s1" "keeps_all s s1" using ident_only_inv [OF parse_identity_effect [OF s1] assms(2)] by simp_all
  then have "ok (HAL_MutexLock Lock_generic s1)" using assms(3) by (simp add: prim_simps inv_defs)
  moreover have "held (HAL_MutexLock Lock_generic s1) = Lock_generic # held s1" by (simp add: HAL_MutexLock_def)
  moreover have "\<forall>m \<in> set (held s1). lock_rank m < 4" using 1 assms(3) by (simp add: inv_defs)
  ultimately have "ok s2 \<and> keeps_all (HAL_MutexLock Lock_generic s1) s2"
    using deliver_loop_ok s2 unfolding wp_def by blast
  with 1 have "ok (HAL_MutexUnlock Lock_generic s2)" "keeps_all s (HAL_MutexUnlock Lock_generic s2)"
    by (simp_all add: prim_simps inv_defs)
  with s' show ?thesis by (auto intro: event_call_ok keeps_all_trans)
qed

lemma recv_PUBLISH_ok: "ok s \<Longrightarrow> below 3 s \<Longrightarrow> wp (\<lambda>r s'. ok s' \<and> keeps_all s s') (iotx_mc_handle_recv_PUBLISH h s)"
proof -
  assume s: "ok s" "below 3 s"
  have p: "wp (\<lambda>r s'. ok s' \<and> keeps_all s s') (MQTTPuback h i ty s')" if "ok s'" "keeps_all s s'" for i ty s'
    by (rule wp_mono [OF MQTTPuback_ok]) (use that s keeps_all_below [OF that(2)] in \<open>auto intro: keeps_all_trans\<close>)
  have d: "ok s' \<and> keeps_all s s'" if "iotx_mc_deliver_message h t m s = Some s'" for t m s'
    using deliver_message_ok [OF that] s below_3 [OF s(2)] by blast
  show ?thesis unfolding iotx_mc_handle_recv_PUBLISH_def Let_def
    by (rule wp_opt, rule wp_opt) (auto simp: s dest!: d intro!: wp_if wp_opt p)
qed

lemma cycle_dispatch_ok: "ok s \<Longrightarrow> below 2 s \<Longrightarrow> wp (\<lambda>r s'. ok s' \<and> keeps_all s s') (cycle_dispatch h p s)"
  unfolding cycle_dispatch_def
  by (drule below_2) (auto intro!: wp_if recv_PUBACK_ok recv_SUBACK_ok recv_PUBLISH_ok recv_UNSUBACK_ok)

section \<open>The cycle\<close>

text \<open>What the composed operations keep, and the bound on the unanswered pings of a connected client.\<close>

definition steps :: "mc \<Rightarrow> mc \<Rightarrow> bool" where
  "steps s s' \<longleftrightarrow> keeps s s' \<and> (buf_read s = None \<longrightarrow> buf_read s' = None)"

definition alive :: "mc \<Rightarrow> bool" where
  "alive s \<longleftrightarrow> (client_state s = IOTX_MC_STATE_CONNECTED \<longrightarrow> keepalive_probes s \<le> 2)"

lemma steps_refl [simp]: "steps s s"
  by (simp add: steps_def)

lemma steps_trans: "steps s s' \<Longrightarrow> steps s' s'' \<Longrightarrow> steps s s''"
  by (auto simp: steps_def intro: keeps_trans)

lemma keeps_all_steps: "keeps_all s s' \<Longrightarrow> steps s s'"
  by (simp add: steps_def keeps_all_def keeps_r_def)

lemma keeps_all_alive: "keeps_all s s' \<Longrightarrow> alive s \<Longrightarrow> alive s'"
  by (auto simp: alive_def keeps_all_def keeps_r_def)

lemma steps_below: "steps s s' \<Longrightarrow> below k s' = below k s"
  by (simp add: steps_def keeps_below)

lemmas step_defs = steps_def alive_def inv_defs

lemma cycle_ok: "ok s \<Longrightarrow> below 1 s \<Longrightarrow> wp (\<lambda>r s'. ok s' \<and> steps s s' \<and> alive s') (iotx_mc_cycle h t s)"
proof -
  assume s: "ok s" "below 1 s"
  let ?s = "s\<lparr>lock_bad := (lock_bad s \<or> \<not> below 4 s)\<rparr>"
  have s0: "?s = s" using s below_1 [OF s(2)] by (simp add: ok_def)
  have *: "wp (\<lambda>r s'. ok s' \<and> steps s s' \<and> alive s') (iotx_mc_read_packet h t 0 s \<bind> f)"
    if live: "\<not> 2 < keepalive_probes s" and f: "\<And>rc pt s'. ok s' \<Longrightarrow> keeps_r s s' \<Longrightarrow> below 1 s' \<Longrightarrow>
       wp (\<lambda>r s''. ok s'' \<and> keeps s' s'' \<and> buf_read s'' = None \<and> (alive s' \<longrightarrow> alive s'')) (f ((rc, pt), s'))" for f
  proof (rule wp_call [OF read_packet_ok [OF s]], clarify)
    fix rc pt s'
    assume s': "ok s'" "keeps_r s s'"
    have "alive s'" using s'(2) live by (auto simp: alive_def keeps_r_def not_less)
    then show "wp (\<lambda>r s'. ok s' \<and> steps s s' \<and> alive s') (f ((rc, pt), s'))"
      by (intro wp_mono [OF f [OF s']]) (use s' s keeps_r_below in \<open>auto simp: steps_def keeps_r_def intro: keeps_trans\<close>)
  qed
  have d: "wp (\<lambda>r s''. ok s'' \<and> keeps s' s'' \<and> buf_read s'' = None \<and> (alive s' \<longrightarrow> alive s''))
      (cycle_dispatch h p (HAL_MutexLock Lock_read_buf (s'\<lparr>keepalive_probes := 0\<rparr>)) \<bind>
        (\<lambda>(rc, s). Some (rc, HAL_MutexUnlock Lock_read_buf (snd (reset_recv_buffer s)))))"
    if "ok s'" "below 1 s'" for p s'
    by (rule wp_call [OF cycle_dispatch_ok])
      (use that below_1 [OF that(2)] in \<open>auto simp: prim_simps step_defs\<close>)
  have r: "ok (recv_reset_locked s') \<and> keeps s' (recv_reset_locked s') \<and> buf_read (recv_reset_locked s') = None
      \<and> client_state (recv_reset_locked s') = client_state s' \<and> keepalive_probes (recv_reset_locked s') = keepalive_probes s'"
    if "ok s'" "below 1 s'" for s'
    using that by (simp add: prim_simps inv_defs)
  have st: "ok (iotx_mc_set_client_state IOTX_MC_STATE_DISCONNECTED s') \<and> keeps s' (iotx_mc_set_client_state IOTX_MC_STATE_DISCONNECTED s')
      \<and> buf_read (iotx_mc_set_client_state IOTX_MC_STATE_DISCONNECTED s') = buf_read s' \<and> alive (iotx_mc_set_client_state IOTX_MC_STATE_DISCONNECTED s')"
    if "ok s'" "below 4 s'" for s'
    using that by (simp add: prim_simps inv_defs alive_def)
  show ?thesis
  proof (cases "client_state s = IOTX_MC_STATE_CONNECTED \<and> \<not> 2 < keepalive_probes s")
    case False
    then show ?thesis using s below_1 [OF s(2)] unfolding iotx_mc_cycle_def Let_def
      by (auto simp: prim_simps step_defs)
  next
    case True
    then have eq: "iotx_mc_cycle h t s = iotx_mc_read_packet h t 0 s \<bind> (\<lambda>((rc, packetType), s).
        if rc \<noteq> STATE_SUCCESS then
          Some (STATE_SYS_DEPEND_NWK_CLOSE, if rc = STATE_SYS_DEPEND_NWK_CLOSE
             then iotx_mc_set_client_state IOTX_MC_STATE_DISCONNECTED (recv_reset_locked s) else recv_reset_locked s)
        else if packetType = MQTT_CPT_RESERVED then Some (STATE_SUCCESS, recv_reset_locked s)
        else cycle_dispatch h packetType (HAL_MutexLock Lock_read_buf (s\<lparr>keepalive_probes := 0\<rparr>)) \<bind>
          (\<lambda>(rc, s). Some (rc, HAL_MutexUnlock Lock_read_buf (snd (reset_recv_buffer s)))))"
      using s0 unfolding iotx_mc_cycle_def Let_def client_state_effects by auto
    show ?thesis unfolding eq
    proof (rule * [OF conjunct2 [OF True]], unfold prod.case, intro wp_if)
      fix rc pt s'
      assume s': "ok s'" "below 1 s'"
      note r = r [OF s']
      have b: "below 4 (recv_reset_locked s')" using r s'(2) below_1 keeps_below by blast
      show "wp (\<lambda>r s''. ok s'' \<and> keeps s' s'' \<and> buf_read s'' = None \<and> (alive s' \<longrightarrow> alive s''))
        (Some (STATE_SYS_DEPEND_NWK_CLOSE, if rc = STATE_SYS_DEPEND_NWK_CLOSE
             then iotx_mc_set_client_state IOTX_MC_STATE_DISCONNECTED (recv_reset_locked s') else recv_reset_locked s'))"
        using r st [OF _ b] by (auto simp: alive_def intro: keeps_trans)
      show "wp (\<lambda>r s''. ok s'' \<and> keeps s' s'' \<and> buf_read s'' = None \<and> (alive s' \<longrightarrow> alive s''))
        (Some (STATE_SUCCESS, recv_reset_locked s'))"
        using r by (auto simp: alive_def)
    qed (rule d)
  qed
qed

lemma ok_steps_tick [simp]: "ok (s\<lparr>tick := k\<rparr>) = ok s" "steps (s\<lparr>tick := k\<rparr>) s' = steps s s'" "steps s (s'\<lparr>tick := k\<rparr>) = steps s s'"
    "alive (s\<lparr>tick := k\<rparr>) = alive s" "below j (s\<lparr>tick := k\<rparr>) = below j s"
  by (simp_all add: step_defs)

text \<open>One turn: the cycle, then the list of unacknowledged messages, under the yield lock.\<close>

definition cycle_turn :: "hal \<Rightarrow> iotx_time_t \<Rightarrow> mc \<Rightarrow> unit mc_result" where
  "cycle_turn h t s = iotx_mc_cycle h t (HAL_MutexLock Lock_yield s) \<bind> (\<lambda>(rc, s).
     (if rc = STATE_SUCCESS then MQTTPubInfoProc h s else Some (rc, s)) \<bind> (\<lambda>(rc', s).
       Some ((), HAL_MutexUnlock Lock_yield s)))"

lemma cycle_turn_ok:
  assumes "ok s" "held s = []"
  shows "wp (\<lambda>r s'. ok s' \<and> steps s s' \<and> alive s') (cycle_turn h t s)"
proof -
  let ?l = "HAL_MutexLock Lock_yield s"
  have l: "ok ?l" "below 1 ?l" "held ?l = [Lock_yield]" using assms by (simp_all add: prim_simps inv_defs)
  have u: "ok (HAL_MutexUnlock Lock_yield s')" "steps s (HAL_MutexUnlock Lock_yield s')" "alive (HAL_MutexUnlock Lock_yield s')"
    if "ok s'" "steps ?l s'" "alive s'" for s'
    using that l(3) assms(2) by (simp_all add: prim_simps step_defs)
  show ?thesis unfolding cycle_turn_def
  proof (rule wp_call [OF cycle_ok [OF l(1,2)]], clarify)
    fix rc s' assume s': "ok s'" "steps ?l s'" "alive s'"
    have b: "below 2 s'" using s' l(2) below_1 steps_below by blast
    have k: "steps ?l sa" "alive sa" if "keeps_all s' sa" for sa
      using that s' by (auto intro: keeps_all_steps keeps_all_alive steps_trans)
    show "wp (\<lambda>r s'. ok s' \<and> steps s s' \<and> alive s') ((if rc = STATE_SUCCESS then MQTTPubInfoProc h s' else Some (rc, s')) \<bind>
        (\<lambda>(rc', s). Some ((), HAL_MutexUnlock Lock_yield s)))"
      unfolding bind_if using s' b by (auto intro!: wp_if wp_call [OF MQTTPubInfoProc_ok] u dest: k)
  qed
qed

lemma mqtt_cycle_loop_ok:
  "ok s \<Longrightarrow> held s = [] \<Longrightarrow> wp (\<lambda>r s'. ok s' \<and> steps s s' \<and> alive s') (mqtt_cycle_loop h t s)"
proof -
  have "ok s \<longrightarrow> held s = [] \<longrightarrow> ok (snd y) \<and> steps s (snd y) \<and> alive (snd y)" if "mqtt_cycle_loop h t s = Some y" for y
    using that
  proof (rule mqtt_cycle_loop.raw_induct [rotated, where P = "\<lambda>h t s y. ok s \<longrightarrow> held s = [] \<longrightarrow> ok (snd y) \<and> steps s (snd y) \<and> alive (snd y)"])
    fix loop h t s y
    assume IH: "\<And>h t s y. loop h t s = Some y \<Longrightarrow> ok s \<longrightarrow> held s = [] \<longrightarrow> ok (snd y) \<and> steps s (snd y) \<and> alive (snd y)"
      and eq: "(let s = HAL_MutexLock Lock_yield s in iotx_mc_cycle h t s \<bind> (\<lambda>(rc, s).
          (if rc = STATE_SUCCESS then MQTTPubInfoProc h s else Some (rc, s)) \<bind> (\<lambda>(rc', s).
            let s = HAL_MutexUnlock Lock_yield s; (left_t, s) = time_left h t s;
                s = HAL_SleepMs (if left_t < 10 then left_t else 10) s; (expired, s) = time_is_expired h t s
            in if \<not> expired then loop h t s else Some ((), s)))) = Some y"
    obtain s1 k where t: "cycle_turn h t s = Some ((), s1)"
      and y: "y = ((), s1\<lparr>tick := k\<rparr>) \<or> loop h t (s1\<lparr>tick := k\<rparr>) = Some y"
      using eq by (auto simp: Let_def split_beta cycle_turn_def prim_simps split: Option.bind_splits if_splits)
    show "ok s \<longrightarrow> held s = [] \<longrightarrow> ok (snd y) \<and> steps s (snd y) \<and> alive (snd y)"
    proof (intro impI)
      assume "ok s" "held s = []"
      with t cycle_turn_ok have s1: "ok s1" "steps s s1" "alive s1" unfolding wp_def by blast+
      then have "held (s1\<lparr>tick := k\<rparr>) = []" using \<open>held s = []\<close> by (simp add: steps_def keeps_def)
      with y s1 IH [of h t "s1\<lparr>tick := k\<rparr>" y] show "ok (snd y) \<and> steps s (snd y) \<and> alive (snd y)"
        by (auto intro: steps_trans)
    qed
  qed
  then show "ok s \<Longrightarrow> held s = [] \<Longrightarrow> wp (\<lambda>r s'. ok s' \<and> steps s s' \<and> alive s') (mqtt_cycle_loop h t s)"
    by (auto simp: wp_def)
qed

lemma mqtt_cycle_ok: "ok s \<Longrightarrow> held s = [] \<Longrightarrow> wp (\<lambda>r s'. ok s' \<and> steps s s' \<and> alive s') (mqtt_cycle h s)"
  unfolding mqtt_cycle_def Let_def
  by (rule wp_prims(4), rule wp_mono [OF mqtt_cycle_loop_ok]) simp_all

section \<open>Connecting and keeping alive\<close>

lemma nwk_connect_effect: "\<exists>k n. snd (nwk_connect_loop h c s) = s\<lparr>tick := k, ipstack := n\<rparr>"
proof (induction "4 - c" arbitrary: c s rule: less_induct)
  case less
  let ?s = "snd (iotx_net_connect h s)" and ?r = "fst (iotx_net_connect h s)"
  let ?s' = "HAL_SleepMs 1000 (snd (iotx_net_disconnect ?s))"
  have 1: "?s = s\<lparr>tick := Suc (tick s), ipstack := (ipstack s)\<lparr>handle := hal_ssl_establish h (tick s)\<rparr>\<rparr>"
    by (simp add: prim_simps)
  have 2: "?s' = s\<lparr>tick := tick ?s', ipstack := ipstack ?s'\<rparr>" by (simp add: prim_simps)
  have "snd (nwk_connect_loop h c s) = ?s \<or> snd (nwk_connect_loop h c s) = ?s'
      \<or> (c < 3 \<and> snd (nwk_connect_loop h c s) = snd (nwk_connect_loop h (Suc c) ?s'))"
    unfolding nwk_connect_loop.simps [of h c s] by (auto simp: split_beta Let_def)
  moreover have "\<exists>k n. snd (nwk_connect_loop h (Suc c) ?s') = s\<lparr>tick := k, ipstack := n\<rparr>" if "c < 3"
  proof -
    have lt: "4 - Suc c < 4 - c" using that by simp
    obtain k n where "snd (nwk_connect_loop h (Suc c) ?s') = ?s'\<lparr>tick := k, ipstack := n\<rparr>"
      using less [OF lt, of ?s'] by blast
    then have "snd (nwk_connect_loop h (Suc c) ?s') = s\<lparr>tick := k, ipstack := n\<rparr>" by (simp add: prim_simps)
    then show ?thesis by blast
  qed
  ultimately show ?case using 1 2 by metis
qed

lemma nwk_connect_ok: "ok s \<Longrightarrow> ok (snd (mqtt_nwk_connect h s)) \<and> keeps_all s (snd (mqtt_nwk_connect h s))"
  using nwk_connect_effect [of h 1 s] by (auto simp: mqtt_nwk_connect_def inv_defs)

definition interval_ok :: "u16 \<Rightarrow> bool" where
  "interval_ok k \<longleftrightarrow> 30 \<le> k \<and> k \<le> 1200"

text \<open>What the steps of a connection attempt keep before the client becomes connected.\<close>

definition connects :: "mc \<Rightarrow> mc \<Rightarrow> bool" where
  "connects s s' \<longleftrightarrow> ok s' \<and> steps s s' \<and> keepalive_probes s' = keepalive_probes s
      \<and> (client_state s' = IOTX_MC_STATE_CONNECTED \<longrightarrow> client_state s = IOTX_MC_STATE_CONNECTED)"

lemma connects_trans: "connects s s' \<Longrightarrow> connects s' s'' \<Longrightarrow> connects s s''"
  by (auto simp: connects_def intro: steps_trans)

lemma keeps_all_connects: "ok s' \<Longrightarrow> keeps_all s s' \<Longrightarrow> connects s s'"
  by (auto simp: connects_def steps_def keeps_all_def keeps_r_def)

lemma connects_net [simp]:
  "connects s (snd (iotx_net_disconnect s')) = connects s s'" "connects s (snd (iotx_net_connect h s')) = connects s s'"
  "connects s (HAL_SleepMs ms s') = connects s s'"
  by (simp_all add: connects_def step_defs prim_simps)

lemma wait_CONNACK_ok: "ok s \<Longrightarrow> below 1 s \<Longrightarrow> wp (\<lambda>r s'. connects s s') (iotx_mc_wait_CONNACK h s)"
  unfolding iotx_mc_wait_CONNACK_def Let_def
  by (rule wp_prims(4), rule wp_mono [OF wait_connack_ok])
    (auto simp: connects_def steps_def keeps_r_def keeps_def)

lemma mqtt_connect_loop_ok:
  "ok s \<Longrightarrow> below 1 s \<Longrightarrow> interval_ok ka \<Longrightarrow> wp (\<lambda>r s'. connects s s') (mqtt_connect_loop h ka n s)"
proof (induction "9 - n" arbitrary: n s rule: less_induct)
  case less
  have b: "below 3 s" using less.prems(2) below_1 by blast
  have IH: "wp (\<lambda>r s'. connects s s') (mqtt_connect_loop h ka (Suc n) s')" if "n < 8" "connects s s'" for s'
    by (rule wp_mono [OF less.hyps [of "Suc n" s']])
      (use that less.prems steps_below [of s s' 1] connects_trans [OF that(2)] in \<open>auto simp: connects_def\<close>)
  have W: "wp (\<lambda>r s'. connects s s') (iotx_mc_wait_CONNACK h s')" if "connects s s'" for s'
    by (rule wp_mono [OF wait_CONNACK_ok])
      (use that less.prems steps_below [of s s' 1] connects_trans [OF that] in \<open>auto simp: connects_def\<close>)
  have k: "connects s (s'\<lparr>connect_data := (connect_data s')\<lparr>keepAliveInterval := ka\<rparr>\<rparr>)" if "ok s' \<and> keeps_all s s'" for s'
    using that less.prems(3) by (auto simp: connects_def step_defs interval_ok_def)
  show ?case unfolding mqtt_connect_loop.simps [of h ka n s] Let_def
    by (rule wp_call [OF MQTTConnect_ok [OF less.prems(1) b]])
      (auto split del: if_split intro!: wp_if k wp_call [OF W] IH)
qed

lemma double_interval: "interval_ok k \<Longrightarrow> interval_ok (if k * 2 > 1200 then 1200 else k * 2)"
proof -
  assume "interval_ok k"
  then have "unat k \<le> 1200" "30 \<le> unat k" by (simp_all add: interval_ok_def word_le_nat_alt)
  then have "unat k * unat (2 :: u16) < 2 ^ LENGTH(16)" by simp
  then have "unat (k * 2) = unat k * 2" by (simp only: unat_mult_lem) simp
  then show ?thesis using \<open>30 \<le> unat k\<close> by (auto simp: interval_ok_def word_le_nat_alt not_less)
qed

lemma mqtt_connect_ok:
  assumes "ok s" "below 1 s"
  shows "wp (\<lambda>r s'. ok s' \<and> steps s s') (mqtt_connect h s)"
proof -
  let ?k = "keepAliveInterval (connect_data s)"
  have k: "interval_ok ?k" using assms(1) by (simp add: ok_def interval_ok_def)
  let ?s = "s\<lparr>connect_data := (connect_data s)\<lparr>keepAliveInterval := (if ?k * 2 > 1200 then 1200 else ?k * 2)\<rparr>\<rparr>"
  have s: "ok ?s" "below 1 ?s" using double_interval [OF k] assms by (simp_all add: ok_def below_def interval_ok_def)
  have eq: "mqtt_connect h s = mqtt_connect_loop h ?k 1 ?s \<bind> (\<lambda>(r, s). case r of Inl rc \<Rightarrow> Some (rc, s)
      | Inr try_count \<Rightarrow>
          if try_count = RETRY_TIME_LIMIT then Some (STATE_MQTT_CONN_RETRY_EXCEED_MAX, s)
          else case time_countdown h (of_nat (unat (keepAliveInterval (connect_data s)) * 1000))
                 (iotx_mc_set_client_state IOTX_MC_STATE_CONNECTED (s\<lparr>keepalive_probes := 0\<rparr>))
            of (t, s) \<Rightarrow> Some (STATE_SUCCESS, s\<lparr>next_ping_time := t\<rparr>))"
    unfolding mqtt_connect_def Let_def by (simp add: client_state_effects cong: if_cong sum.case_cong)
  show ?thesis unfolding eq
  proof (rule wp_call [OF mqtt_connect_loop_ok [OF s k]], clarsimp split del: if_split)
    fix r s'
    assume c: "connects ?s s'"
    then have st: "ok s'" "steps s s'" by (auto simp: connects_def steps_def keeps_def)
    have "below 4 s'" using c assms(2) below_1 by (auto simp: connects_def steps_def keeps_def below_def)
    with st show "wp (\<lambda>r s'. ok s' \<and> steps s s')
       (case r of Inl rc \<Rightarrow> Some (rc, s') | Inr try_count \<Rightarrow>
          if try_count = RETRY_TIME_LIMIT then Some (STATE_MQTT_CONN_RETRY_EXCEED_MAX, s')
          else case time_countdown h (of_nat (unat (keepAliveInterval (connect_data s')) * 1000))
                 (iotx_mc_set_client_state IOTX_MC_STATE_CONNECTED (s'\<lparr>keepalive_probes := 0\<rparr>))
            of (t, s) \<Rightarrow> Some (STATE_SUCCESS, s\<lparr>next_ping_time := t\<rparr>))"
      by (auto split: sum.split simp: prim_simps split_beta step_defs)
  qed
qed

lemma keepalive_sub_ok:
  assumes "ok s" "below 3 s" "alive s"
  shows "wp (\<lambda>r s'. ok s' \<and> steps s s') (iotx_mc_keepalive_sub h s)"
proof -
  have b4: "below 4 s" using below_3 [OF assms(2)] by simp
  have p: "ok (s'\<lparr>keepalive_probes := keepalive_probes s' + 1\<rparr>)"
    if "client_state s = IOTX_MC_STATE_CONNECTED" "ok s'" "keepalive_probes s' = keepalive_probes s" for s'
  proof -
    have "keepalive_probes s' \<le> 2" using assms(3) that by (simp add: alive_def)
    then have "keepalive_probes s' + 1 \<le> 3" by (simp add: word_le_nat_alt unat_word_ariths)
    with that(2) show ?thesis by (simp add: ok_def)
  qed
  have q: "wp (\<lambda>r s'. ok s' \<and> keeps_all s s') (MQTTKeepalive h (s\<lparr>tick := k, next_ping_time := t\<rparr>))" for k t
    by (rule wp_mono [OF MQTTKeepalive_ok]) (use assms in \<open>auto simp: inv_defs\<close>)
  have s0: "s\<lparr>lock_bad := (lock_bad s \<or> \<not> below 4 s)\<rparr> = s" using assms(1) b4 by (simp add: ok_def)
  have d: "ok (iotx_mc_set_client_state IOTX_MC_STATE_DISCONNECTED s')" "steps s (iotx_mc_set_client_state IOTX_MC_STATE_DISCONNECTED s')"
    if "ok s' \<and> keeps_all s s'" for s'
    using that b4 keeps_all_below [of s s' 4] by (auto simp: client_state_effects step_defs)
  have i: "steps s (s'\<lparr>keepalive_probes := n\<rparr>)" if "keeps_all s s'" for s' n
    using that by (auto simp: step_defs)
  have kp: "keepalive_probes s' = keepalive_probes s" if "keeps_all s s'" for s'
    using that by (simp add: keeps_all_def keeps_r_def)
  show ?thesis unfolding iotx_mc_keepalive_sub_def Let_def client_state_effects(3) prod.case s0
    by (auto simp: assms(1) intro!: wp_if wp_prims wp_call [OF q] p d i kp) (simp add: keeps_all_steps)
qed

lemma backoff_next: "backoff i \<Longrightarrow> backoff (if IOTX_MC_RECONNECT_INTERVAL_MAX_MS > i then i * 2 else IOTX_MC_RECONNECT_INTERVAL_MAX_MS)"
  unfolding backoff_def by auto

lemma attempt_reconnect_ok:
  assumes "ok s" "below 1 s"
  shows "wp (\<lambda>r s'. ok s' \<and> steps s s') (iotx_mc_attempt_reconnect h s)"
proof -
  let ?d = "snd (iotx_net_disconnect s)"
  have d: "ok ?d" "keeps_all s ?d" using assms(1) by (simp_all add: prim_simps inv_defs)
  then have c: "ok (snd (mqtt_nwk_connect h ?d))" "steps s (snd (mqtt_nwk_connect h ?d))"
    using nwk_connect_ok [of ?d h] by (auto intro: keeps_all_steps steps_trans)
  show ?thesis unfolding iotx_mc_attempt_reconnect_def Let_def split_beta
    by (rule wp_mono [OF mqtt_connect_ok [OF c(1)]])
      (use c(2) assms(2) steps_below [OF c(2)] in \<open>auto intro: steps_trans\<close>)
qed

lemma handle_reconnect_ok:
  assumes "ok s" "below 1 s"
  shows "wp (\<lambda>r s'. ok s' \<and> steps s s') (iotx_mc_handle_reconnect h s)"
proof -
  have b4: "below 4 s'" if "steps s s'" for s'
    using below_1 [OF assms(2)] steps_below [OF that] by simp
  have a: "wp (\<lambda>r s'. ok s' \<and> steps s s') (iotx_mc_attempt_reconnect h (s\<lparr>tick := k\<rparr>))" for k
    by (rule wp_mono [OF attempt_reconnect_ok]) (use assms in auto)
  have st: "ok (iotx_mc_set_client_state st s')" "steps s (iotx_mc_set_client_state st s')" if "ok s' \<and> steps s s'" for st s'
    using that b4 by (auto simp: client_state_effects step_defs)
  have i: "ok (s'\<lparr>reconnect_param := p\<rparr>)" "steps s (s'\<lparr>reconnect_param := p\<rparr>)"
    if "ok s' \<and> steps s s'" "backoff (reconnect_time_interval_ms p)" for s' p
    using that by (simp_all add: step_defs)
  have bo: "backoff (reconnect_time_interval_ms (reconnect_param s'))" if "ok s'" for s'
    using that by (simp add: ok_def)
  show ?thesis unfolding iotx_mc_handle_reconnect_def Let_def
    by (auto simp: assms snd_hal(1) split del: if_split intro!: wp_if wp_prims wp_call [OF a] st i backoff_next bo)
qed

lemma direct_callback_ok: "ok (direct_callback ev s) = ok s" "keeps_all s (direct_callback ev s)"
  by (simp_all add: direct_callback_def inv_defs split: option.splits)

lemma set_interval_ok: "ok s \<Longrightarrow> backoff ms \<Longrightarrow> ok (set_reconnect_interval ms s)" "keeps_all s (set_reconnect_interval ms s)"
  by (simp_all add: set_reconnect_interval_def inv_defs)

lemma set_state_ok:
  assumes "ok s'" "steps s s'" "below 4 s"
  shows "ok (iotx_mc_set_client_state st s')" "steps s (iotx_mc_set_client_state st s')"
  using assms steps_below [OF assms(2), of 4] by (auto simp: client_state_effects step_defs)

lemma keepalive_ok:
  assumes "ok s" "below 1 s" "alive s"
  shows "wp (\<lambda>r s'. ok s' \<and> steps s s') (iotx_mc_keepalive h s)"
proof -
  have b: "below 3 s" "below 4 s" using below_1 [OF assms(2)] by simp_all
  have s0: "s'\<lparr>lock_bad := (lock_bad s' \<or> \<not> below 4 s')\<rparr> = s'" if "ok s'" "steps s s'" for s'
    using that b(2) steps_below [OF that(2)] by (simp add: ok_def)
  have r: "wp (\<lambda>r s'. ok s' \<and> steps s s') (iotx_mc_handle_reconnect h s')" if "ok s'" "steps s s'" for s'
    by (rule wp_mono [OF handle_reconnect_ok [OF that(1)]])
      (use that assms(2) steps_below [OF that(2)] in \<open>auto intro: steps_trans\<close>)
  have bo: "backoff 1000" by (simp add: backoff_def)
  have c: "ok (set_reconnect_interval 1000 (direct_callback ev s'))" "steps s (set_reconnect_interval 1000 (direct_callback ev s'))"
    if "ok s'" "steps s s'" for ev s'
    using that set_interval_ok(1) [OF _ bo]
      steps_trans [OF that(2) steps_trans [OF keeps_all_steps [OF direct_callback_ok(2)] keeps_all_steps [OF set_interval_ok(2)]]]
    by (auto simp: direct_callback_ok(1))
  have d: "ok (iotx_mc_set_client_state st (snd (iotx_net_disconnect (s'\<lparr>tick := k, reconnect_param := (reconnect_param s')\<lparr>reconnect_next_time := t\<rparr>\<rparr>))))"
      "steps s (iotx_mc_set_client_state st (snd (iotx_net_disconnect (s'\<lparr>tick := k, reconnect_param := (reconnect_param s')\<lparr>reconnect_next_time := t\<rparr>\<rparr>))))"
    if "ok s'" "steps s s'" for s' k st t
    by (rule set_state_ok; use that b(2) in \<open>simp add: prim_simps step_defs\<close>)+
  show ?thesis unfolding iotx_mc_keepalive_def Let_def
  proof (rule wp_call [OF keepalive_sub_ok [OF assms(1) b(1) assms(3)]], clarify)
    fix rc s' assume s': "ok s'" "steps s s'"
    show "wp (\<lambda>r s'. ok s' \<and> steps s s') (case iotx_mc_get_client_state s' of (currentState, s) \<Rightarrow>
       if currentState = IOTX_MC_STATE_DISCONNECTED_RECONNECTING \<or> currentState = IOTX_MC_STATE_CONNECT_BLOCK
       then iotx_mc_handle_reconnect h s \<bind> (\<lambda>(rc, s). if rc < STATE_SUCCESS then Some ((), s)
          else Some ((), set_reconnect_interval IOTX_MC_RECONNECT_INTERVAL_MIN_MS (iotx_mc_reconnect_callback s)))
       else if currentState = IOTX_MC_STATE_DISCONNECTED
       then case time_countdown h (reconnect_time_interval_ms (reconnect_param (set_reconnect_interval IOTX_MC_RECONNECT_INTERVAL_MIN_MS (iotx_mc_disconnect_callback s))))
              (set_reconnect_interval IOTX_MC_RECONNECT_INTERVAL_MIN_MS (iotx_mc_disconnect_callback s)) of
            (t, s) \<Rightarrow> Some ((), iotx_mc_set_client_state IOTX_MC_STATE_DISCONNECTED_RECONNECTING
                (snd (iotx_net_disconnect (s\<lparr>reconnect_param := (reconnect_param s)\<lparr>reconnect_next_time := t\<rparr>\<rparr>))))
       else Some ((), s))"
      unfolding client_state_effects(2) prod.case s0 [OF s'] iotx_mc_reconnect_callback_def iotx_mc_disconnect_callback_def
      by (auto simp: s' split del: if_split intro!: wp_if wp_prims wp_call [OF r] c d)
  qed
qed

section \<open>The interface functions\<close>

text \<open>The state between two calls of the interface.\<close>

definition api_ok :: "mc \<Rightarrow> bool" where
  "api_ok s \<longleftrightarrow> ok s \<and> held s = [] \<and> buf_send s = None \<and> buf_read s = None \<and> alive s"

lemma api_step: "api_ok s \<Longrightarrow> ok s' \<Longrightarrow> steps s s' \<Longrightarrow> alive s' \<Longrightarrow> api_ok s'"
  by (simp add: api_ok_def steps_def keeps_def)

lemma api_keeps: "api_ok s \<Longrightarrow> ok s' \<Longrightarrow> keeps_all s s' \<Longrightarrow> api_ok s'"
  by (auto simp: api_ok_def keeps_all_def keeps_r_def keeps_def alive_def)

lemma api_below: "api_ok s \<Longrightarrow> below k s"
  by (simp add: api_ok_def below_def)

lemma api_check_state: "api_ok s \<Longrightarrow> wrapper_mqtt_check_state s = (client_state s = IOTX_MC_STATE_CONNECTED, s)"
  by (simp add: client_state_effects api_below api_ok_def ok_def)

lemma api_disconnected: "api_ok s \<Longrightarrow> api_ok (iotx_mc_set_client_state IOTX_MC_STATE_DISCONNECTED s)"
  by (simp add: client_state_effects api_below) (simp add: api_ok_def step_defs)

lemma api_tok [simp]: "api_ok (s\<lparr>tok := x\<rparr>) = api_ok s"
  by (simp add: api_ok_def step_defs)

lemma api_packetid: "api_ok s \<Longrightarrow> api_ok (snd (iotx_mc_get_next_packetid s)) \<and> 1 \<le> fst (iotx_mc_get_next_packetid s)
     \<and> fst (iotx_mc_get_next_packetid s) \<le> 65535"
  by (simp add: get_next_packetid_effect Let_def api_below) (auto simp: api_ok_def step_defs)

lemma mqtt_yield_ok: "api_ok s \<Longrightarrow> wp (\<lambda>r s'. api_ok s') (wrapper_mqtt_yield h ms s)"
proof -
  assume s: "api_ok s"
  define l where "l x = (HAL_MutexLock Lock_yield s)\<lparr>cycle_timeout_ms := x\<rparr>" for x
  have l: "ok (l x)" "below 1 (l x)" "alive (l x)" "held (l x) = [Lock_yield]" for x
    using s by (simp_all add: l_def prim_simps api_ok_def step_defs)
  have u: "ok (HAL_MutexUnlock Lock_yield s')" "held (HAL_MutexUnlock Lock_yield s') = []" "steps s (HAL_MutexUnlock Lock_yield s')"
    if "ok s'" "steps (l x) s'" for s' x
    using that s l(4) [of x] by (simp_all add: prim_simps api_ok_def step_defs l_def)
  show ?thesis unfolding wrapper_mqtt_yield_def Let_def l_def [symmetric]
    by (auto simp: s intro!: wp_if wp_call [OF keepalive_ok [OF l(1-3)]] wp_call [OF mqtt_cycle_ok] u)
      (use s u(3) in \<open>blast intro: api_step steps_trans\<close>)+
qed

text \<open>A sender called from the interface, and the exit that marks the client disconnected.\<close>

lemma api_call:
  assumes "api_ok s" "\<And>s. ok s \<Longrightarrow> below k s \<Longrightarrow> wp (\<lambda>r s'. ok s' \<and> keeps_all s s') (f s)"
  shows "wp (\<lambda>r s'. api_ok s') (f s)"
proof (rule wp_mono [OF assms(2)])
  show "ok s" "below k s" using assms(1) api_below by (simp_all add: api_ok_def)
qed (use assms(1) api_keeps in blast)

lemma api_exit: "api_ok s \<Longrightarrow> api_ok (if c then iotx_mc_set_client_state IOTX_MC_STATE_DISCONNECTED s else s)"
  by (simp add: api_disconnected)

lemma wp_check_topic: "(\<And>rc st. wp Q (f rc st)) \<Longrightarrow> wp Q (iotx_mc_check_topic n ty st \<bind> (\<lambda>(rc, st). f rc st))"
  by (rule wp_opt) auto

lemma wp_packetid:
  "api_ok s \<Longrightarrow> (\<And>i s. api_ok s \<Longrightarrow> wp Q (f i s)) \<Longrightarrow> wp Q (case iotx_mc_get_next_packetid s of (i, s) \<Rightarrow> f i s)"
  using api_packetid [of s] by (simp add: split_beta)

lemma wp_check_state:
  "api_ok s \<Longrightarrow> (\<And>c. wp Q (f c s)) \<Longrightarrow> wp Q (case wrapper_mqtt_check_state s of (c, s) \<Rightarrow> f c s)"
  by (simp add: api_check_state)

lemma mqtt_publish_ok: "api_ok s \<Longrightarrow> wp (\<lambda>r s'. api_ok s') (wrapper_mqtt_publish h t m s)"
proof -
  assume s: "api_ok s"
  have p: "wp (\<lambda>r s'. api_ok s') (MQTTPublish h n m s')" if "api_ok s'" for n m s'
    by (rule api_call [OF that MQTTPublish_ok])
  have i: "api_ok (snd (snd (if c then (case iotx_mc_get_next_packetid s' of (i, s) \<Rightarrow> (i, g i, s)) else (0, m, s'))))"
    if "api_ok s'" for c s' g
    using that api_packetid [OF that] by (simp add: split_beta)
  show ?thesis unfolding wrapper_mqtt_publish_def Let_def
    by (auto simp: s api_check_state split del: if_split split: option.split
        intro!: wp_check_topic wp_check_state wp_if wp_call [OF p] api_exit i simp: split_beta)
qed

lemma mqtt_subscribe_ok: "api_ok s \<Longrightarrow> wp (\<lambda>r s'. api_ok s') (wrapper_mqtt_subscribe h t q f c s)"
proof -
  assume s: "api_ok s"
  have p: "wp (\<lambda>r s'. api_ok s') (MQTTSubscribe h t q i f c s')" if "api_ok s'" for t i f s'
    by (rule api_call [OF that MQTTSubscribe_ok])
  show ?thesis unfolding wrapper_mqtt_subscribe_def Let_def
    by (auto simp: s split del: if_split split: option.split
        intro!: wp_check_topic wp_check_state wp_packetid wp_if wp_call [OF p] api_exit)
qed

lemma mqtt_unsubscribe_ok: "api_ok s \<Longrightarrow> wp (\<lambda>r s'. api_ok s') (wrapper_mqtt_unsubscribe h t s)"
proof -
  assume s: "api_ok s"
  have p: "wp (\<lambda>r s'. api_ok s') (MQTTUnsubscribe h t i s')" if "api_ok s'" for t i s'
    by (rule api_call [OF that MQTTUnsubscribe_ok])
  show ?thesis unfolding wrapper_mqtt_unsubscribe_def Let_def
    by (auto simp: s split del: if_split split: option.split
        intro!: wp_check_topic wp_check_state wp_packetid wp_if wp_call [OF p] api_exit)
qed

lemma connect_cycle_loop_ok:
  "ok s \<Longrightarrow> held s = [] \<Longrightarrow> wp (\<lambda>r s'. ok s' \<and> steps s s' \<and> alive s') (connect_cycle_loop h n pk dn s)"
proof (induction "9 - n" arbitrary: n pk dn s rule: less_induct)
  case less
  define l where "l = HAL_MutexUnlock Lock_yield ((HAL_MutexLock Lock_yield s)\<lparr>cycle_timeout_ms := 500\<rparr>)"
  have l: "ok l" "held l = []" "steps s l" using less.prems by (simp_all add: l_def prim_simps step_defs)
  have IH: "wp (\<lambda>r s'. ok s' \<and> steps s s' \<and> alive s') (connect_cycle_loop h (Suc n) pk dn s')"
    if "n < 8" "ok s'" "steps l s'" for pk dn s'
    by (rule wp_mono [OF less.hyps [of "Suc n" s']])
      (use that l steps_trans [OF l(3) that(3)] in \<open>auto simp: steps_def keeps_def\<close>)
  show ?case unfolding connect_cycle_loop.simps [of h n pk dn s] Let_def l_def [symmetric]
  proof (rule wp_call [OF mqtt_cycle_ok [OF l(1,2)]], clarify)
    fix s' assume s': "ok s'" "steps l s'" "alive s'"
    show "wp (\<lambda>r s'. ok s' \<and> steps s s' \<and> alive s')
      (if ctx_product_key s' @ drop (length (ctx_product_key s')) pk \<noteq> []
          \<and> ctx_device_name s' @ drop (length (ctx_device_name s')) dn \<noteq> [] then Some ((), s')
       else if n + 1 < RETRY_TIME_LIMIT
       then connect_cycle_loop h (n + 1) (ctx_product_key s' @ drop (length (ctx_product_key s')) pk)
              (ctx_device_name s' @ drop (length (ctx_device_name s')) dn) s'
       else Some ((), s'))"
      using s' steps_trans [OF l(3) s'(2)] IH [OF _ s'(1,2)] by (intro wp_if) simp_all
  qed
qed

lemma mqtt_connect_api_ok: "api_ok s \<Longrightarrow> wp (\<lambda>r s'. api_ok s') (wrapper_mqtt_connect h s)"
proof -
  assume s: "api_ok s"
  let ?n = "snd (mqtt_nwk_connect h s)"
  have o: "ok s" "held s = []" using s by (simp_all add: api_ok_def)
  have n: "ok ?n" "keeps_all s ?n" using nwk_connect_ok [OF o(1), of h] by simp_all
  note a = api_keeps [OF s n]
  have c: "wp (\<lambda>r s'. ok s' \<and> steps s s' \<and> held s' = []) (mqtt_connect h ?n)"
  proof (rule wp_mono [OF mqtt_connect_ok [OF n(1) api_below [OF a]]])
    fix r s' assume s': "ok s' \<and> steps ?n s'"
    have "steps s s'" using keeps_all_steps [OF n(2)] s' steps_trans by blast
    then show "ok s' \<and> steps s s' \<and> held s' = []" using s' o(2) by (simp add: steps_def keeps_def)
  qed
  have d: "wp (\<lambda>r s'. api_ok s') (connect_cycle_loop h 0 [] [] s')" if "ok s'" "steps s s'" "held s' = []" for s'
    by (rule wp_mono [OF connect_cycle_loop_ok [OF that(1,3)]])
      (use api_step [OF s] steps_trans [OF that(2)] in blast)
  show ?thesis unfolding wrapper_mqtt_connect_def Let_def split_beta
    by (intro wp_if wp_call [OF c] wp_call [OF d]) (simp_all add: a wp_pair)
qed

lemma sub_sync_register_ok: "api_ok s \<Longrightarrow> api_ok (snd (sub_sync_register h r b s))"
  by (auto simp: sub_sync_register_def prim_simps Let_def split_beta api_ok_def step_defs)

lemma sub_sync_check_ok:
  "api_ok s \<Longrightarrow> api_ok (HAL_MutexUnlock Lock_generic (snd (sub_sync_check r b (HAL_MutexLock Lock_generic s))))"
  by (auto simp: sub_sync_check_def prim_simps api_ok_def step_defs split: list.split)

lemma sub_sync_clear_ok:
  "api_ok s \<Longrightarrow> api_ok (HAL_MutexUnlock Lock_generic ((HAL_MutexLock Lock_generic s)\<lparr>list_sub_sync_ack := x\<rparr>))"
  by (simp add: prim_simps api_ok_def step_defs)

lemma subscribe_sync_loop_ok: "api_ok s \<Longrightarrow> wp (\<lambda>r s'. api_ok s') (subscribe_sync_loop h f q fp c t ret sb s)"
proof -
  have "api_ok s \<longrightarrow> api_ok (snd y)" if "subscribe_sync_loop h f q fp c t ret sb s = Some y" for y
    using that
  proof (rule subscribe_sync_loop.raw_induct [rotated, where P = "\<lambda>h f q fp c t ret sb s y. api_ok s \<longrightarrow> api_ok (snd y)"])
    fix loop h f q fp c t ret sb s y
    assume IH: "\<And>h f q fp c t ret sb s y. loop h f q fp c t ret sb s = Some y \<Longrightarrow> api_ok s \<longrightarrow> api_ok (snd y)"
      and eq: "(if ret < 0 then wrapper_mqtt_subscribe h f q fp c s else Some (ret, s)) \<bind> (\<lambda>(ret', s).
       if ret < 0 \<and> (in_yield_cb s \<or> q = 3) then Some (ret', s)
       else let ret = ret'; (sb, s) = sub_sync_register h ret sb s
         in wrapper_mqtt_yield h 100 s \<bind> (\<lambda>(rc, s).
           let s = HAL_MutexLock Lock_generic s; ((found, ret, sb), s) = sub_sync_check ret sb s;
               s = HAL_MutexUnlock Lock_generic s
           in if found then Some (ret, s)
              else let (expired, s) = time_is_expired h t s
                in if \<not> expired then loop h f q fp c t ret sb s
                   else let s = HAL_MutexLock Lock_generic s;
                            s = s\<lparr>list_sub_sync_ack := filter (\<lambda>node. sync_packet_id node \<noteq> ret) (list_sub_sync_ack s)\<rparr>;
                            s = HAL_MutexUnlock Lock_generic s
                     in Some (STATE_MQTT_SYNC_SUB_TIMEOUT, s))) = Some y"
    have w: "wp (\<lambda>r s'. api_ok s') (loop h f q fp c t ret sb s)" if "api_ok s" for ret sb s
      using IH that by (fastforce simp: wp_def)
    have s: "wp (\<lambda>r s'. api_ok s') (if ret < 0 then wrapper_mqtt_subscribe h f q fp c s else Some (ret, s))" if "api_ok s"
      using that mqtt_subscribe_ok by simp
    have tk: "api_ok (s\<lparr>tick := k\<rparr>) = api_ok s" for s k by (simp add: api_ok_def)
    show "api_ok s \<longrightarrow> api_ok (snd y)"
    proof
      assume "api_ok s"
      have "wp (\<lambda>r s'. api_ok s') (Some y)" unfolding eq [symmetric] Let_def split_beta
        by (rule wp_call [OF s [OF \<open>api_ok s\<close>]])
          (auto simp: tk snd_time split del: if_split
            intro!: wp_if wp_call [OF mqtt_yield_ok] sub_sync_register_ok sub_sync_check_ok sub_sync_clear_ok w)
      then show "api_ok (snd y)" by (cases y) simp
    qed
  qed
  then show "api_ok s \<Longrightarrow> wp (\<lambda>r s'. api_ok s') (subscribe_sync_loop h f q fp c t ret sb s)"
    by (auto simp: wp_def)
qed

end
