(* ===== verification/MQTT_Client_Api.thy ===== *)
theory MQTT_Client_Api
  imports MQTT_Client_Inv
begin

text \<open>
  The interface of the client as a state machine: a program makes one client and calls the
  interface functions in any order.  \<open>client_call\<close> is the contract every interface function
  fulfils; it is interpreted on each of them and on the step of the machine.
\<close>

section \<open>The contract of an interface function\<close>

locale client_call =
  fixes op :: "mc \<Rightarrow> 'a mc_result"
  assumes keeps_api: "api_ok s \<Longrightarrow> wp (\<lambda>r s'. api_ok s') (op s)"
begin

lemma returns_ok: "api_ok s \<Longrightarrow> op s = Some (r, s') \<Longrightarrow> api_ok s'"
  using keeps_api [of s] by (simp add: wp_def)

lemma releases_locks: "api_ok s \<Longrightarrow> op s = Some (r, s') \<Longrightarrow> held s' = [] \<and> \<not> lock_bad s'"
  using returns_ok [of s r s'] by (simp add: api_ok_def ok_def)

lemma frees_buffers: "api_ok s \<Longrightarrow> op s = Some (r, s') \<Longrightarrow> buf_send s' = None \<and> buf_read s' = None"
  using returns_ok [of s r s'] by (simp add: api_ok_def)

end

text \<open>An operation that is called with lower locks held and gives them back is one.\<close>

locale client_sender =
  fixes op :: "mc \<Rightarrow> 'a mc_result" and rank :: nat
  assumes keeps_ok: "ok s \<Longrightarrow> below rank s \<Longrightarrow> wp (\<lambda>r s'. ok s' \<and> keeps_all s s') (op s)"

sublocale client_sender \<subseteq> client_call op
  by (unfold_locales) (rule api_call [OF _ keeps_ok])

interpretation publish_packet: client_sender "MQTTPublish h t m" 2 for h t m
  by unfold_locales (rule MQTTPublish_ok)

interpretation subscribe_packet: client_sender "MQTTSubscribe h f q i fp c" 3 for h f q i fp c
  by unfold_locales (rule MQTTSubscribe_ok)

interpretation unsubscribe_packet: client_sender "MQTTUnsubscribe h f i" 3 for h f i
  by unfold_locales (rule MQTTUnsubscribe_ok)

interpretation disconnect_packet: client_sender "MQTTDisconnect h" 3 for h
  by unfold_locales (rule MQTTDisconnect_ok)

interpretation republish: client_sender "MQTTPubInfoProc h" 2 for h
  by unfold_locales (rule MQTTPubInfoProc_ok)

lemma subscribe_sync_ok: "api_ok s \<Longrightarrow> wp (\<lambda>r s'. api_ok s') (wrapper_mqtt_subscribe_sync h f q fp c ms s)"
proof -
  assume "api_ok s"
  then have "api_ok (s\<lparr>tick := k\<rparr>)" for k by (simp add: api_ok_def step_defs)
  then show ?thesis unfolding wrapper_mqtt_subscribe_sync_def Let_def
    by (intro wp_prims subscribe_sync_loop_ok)
qed

section \<open>Initialisation and release\<close>

text \<open>A program state in which a client can be made: no lock of an earlier client is held.\<close>

definition env_ok :: "mc \<Rightarrow> bool" where
  "env_ok s \<longleftrightarrow> held s = [] \<and> \<not> lock_bad s \<and> \<not> in_yield_cb s"

lemma mutex_create_effect [prim_simps]:
  "HAL_MutexCreate h s = (hal_mutex h (tick s),
     s\<lparr>tick := Suc (tick s), mutexes := (if hal_mutex h (tick s) then Suc (mutexes s) else mutexes s)\<rparr>)"
  by (simp add: HAL_MutexCreate_def ticked_def Let_def)

lemma interval_bounds: "(30 \<le> (k :: u16)) = (30 \<le> unat k)" "((k :: u16) \<le> 1200) = (unat k \<le> 1200)"
  by (simp_all add: word_le_nat_alt)

lemma init_params_ok:
  "env_ok s \<Longrightarrow> client_state s = IOTX_MC_STATE_INVALID \<Longrightarrow> packet_id s = 0 \<Longrightarrow> buf_send s = None \<Longrightarrow> buf_read s = None \<Longrightarrow>
   api_ok (snd (mc_init_params params s))"
  by (cases "p_host params")
    (simp_all add: mc_init_params_def iotx_mc_set_connect_params_def iotx_net_init_def env_ok_def api_ok_def
      interval_bounds backoff_def step_defs Let_def not_less)

lemma init_params_rc: "fst (fst (mc_init_params params s)) = (if p_host params = None then STATE_USER_INPUT_INVALID else STATE_SUCCESS)"
  "snd (fst (mc_init_params params s)) = (if p_host params = None then IOTX_MC_STATE_INVALID else IOTX_MC_STATE_INITIALIZED)"
  by (cases "p_host params"; simp add: mc_init_params_def iotx_mc_set_connect_params_def iotx_net_init_def Let_def)+

lemma init_exit_success:
  "mc_init_exit STATE_SUCCESS st s = (STATE_SUCCESS, iotx_mc_set_client_state st s)"
  by (simp add: mc_init_exit_def Let_def)

text \<open>A successful initialisation, in one step: five mutexes, then the parameters.\<close>

definition init_state :: "mc \<Rightarrow> mc" where
  "init_state s = (client_zero s)\<lparr>lock_generic := True, lock_list_pub := True, lock_yield := True,
     lock_write_buf := True, tick := tick s + 6, mutexes := mutexes s + 5, lock_read_buf := True\<rparr>"

lemma init_exit_rc: "fst (mc_init_exit rc st s) = rc"
  by (simp add: mc_init_exit_def Let_def)

lemma init_success:
  assumes "wrapper_mqtt_init h params s = (True, s')"
  shows "p_host params \<noteq> None"
    and "s' = iotx_mc_set_client_state IOTX_MC_STATE_INITIALIZED (snd (mc_init_params params (init_state s)))"
proof -
  have "p_host params \<noteq> None \<and> s' = iotx_mc_set_client_state IOTX_MC_STATE_INITIALIZED (snd (mc_init_params params (init_state s)))"
    using assms
    by (auto simp: wrapper_mqtt_init_def iotx_mc_init_def prim_simps HAL_Malloc_def ticked_def split_beta Let_def init_params_rc
        init_exit_rc init_exit_success init_state_def client_zero_def numeral_eq_Suc [of "num.Bit0 _"] numeral_eq_Suc [of "num.Bit1 _"] split: if_splits)
  then show "p_host params \<noteq> None"
    and "s' = iotx_mc_set_client_state IOTX_MC_STATE_INITIALIZED (snd (mc_init_params params (init_state s)))" by simp_all
qed


lemma init_ok: "env_ok s \<Longrightarrow> wrapper_mqtt_init h params s = (True, s') \<Longrightarrow> api_ok s'"
proof -
  assume "env_ok s" and i: "wrapper_mqtt_init h params s = (True, s')"
  then have "api_ok (snd (mc_init_params params (init_state s)))"
    by (intro init_params_ok) (simp_all add: init_state_def client_zero_def env_ok_def)
  then show "api_ok s'" unfolding init_success(2) [OF i]
    by (simp add: prim_simps api_below) (simp add: api_ok_def step_defs)
qed

lemma release_ok:
  assumes "api_ok s" "wrapper_mqtt_release h s = Some (r, s')"
  shows "env_ok s'"
proof -
  let ?s = "s\<lparr>tick := Suc (tick s)\<rparr>"
  have s: "api_ok ?s" using assms(1) by (simp add: api_ok_def step_defs)
  have e: "env_ok t" if "api_ok t" for t using that by (simp add: api_ok_def ok_def env_ok_def)
  have d: "wp (\<lambda>r s'. env_ok s') (if client_state ?s = IOTX_MC_STATE_CONNECTED then MQTTDisconnect h ?s else Some (-1, ?s))"
    using wp_mono [OF disconnect_packet.keeps_api [OF s] e] e [OF s] by simp
  have "wp (\<lambda>r s'. env_ok s') (iotx_mc_disconnect h ?s)"
    unfolding iotx_mc_disconnect_def Let_def api_check_state [OF s] prod.case
    by (rule wp_call [OF d]) (simp add: prim_simps env_ok_def below_def)
  then have "wp (\<lambda>r s'. env_ok s') (wrapper_mqtt_release h s)"
    unfolding wrapper_mqtt_release_def Let_def snd_hal(1)
    by (rule wp_call) (simp add: prim_simps env_ok_def below_def HAL_MutexDestroy_def client_zero_def)
  then show ?thesis using assms(2) by (simp add: wp_def)
qed

section \<open>The machine\<close>

datatype api_call =
    Call_connect
  | Call_yield int
  | Call_publish "bytes option" iotx_mqtt_topic_info_t
  | Call_subscribe "bytes option" int "nat option" nat
  | Call_subscribe_sync "bytes option" int "nat option" nat int
  | Call_unsubscribe "bytes option"

fun api_run :: "hal \<Rightarrow> api_call \<Rightarrow> mc \<Rightarrow> int mc_result" where
  "api_run h Call_connect s = wrapper_mqtt_connect h s"
| "api_run h (Call_yield ms) s = wrapper_mqtt_yield h ms s"
| "api_run h (Call_publish t m) s = do { ((rc, m'), s) \<leftarrow> wrapper_mqtt_publish h t m s; Some (rc, s) }"
| "api_run h (Call_subscribe f q fp c) s = wrapper_mqtt_subscribe h f q fp c s"
| "api_run h (Call_subscribe_sync f q fp c ms) s = wrapper_mqtt_subscribe_sync h f q fp c ms s"
| "api_run h (Call_unsubscribe f) s = wrapper_mqtt_unsubscribe h f s"

interpretation api: client_call "api_run h c" for h c
proof
  fix s assume s: "api_ok s"
  show "wp (\<lambda>r s'. api_ok s') (api_run h c s)"
    by (cases c) (auto intro!: wp_call [OF mqtt_publish_ok [OF s]]
      simp: s mqtt_connect_api_ok mqtt_yield_ok mqtt_subscribe_ok subscribe_sync_ok mqtt_unsubscribe_ok)
qed

text \<open>Client states a program can reach on the platform \<open>h\<close>: a client is made, functions are
  called one after the other, and a client can be released and made anew.\<close>

inductive mc_reachable :: "hal \<Rightarrow> mc \<Rightarrow> bool" for h where
  init: "env_ok s0 \<Longrightarrow> wrapper_mqtt_init h params s0 = (True, s) \<Longrightarrow> mc_reachable h s"
| call: "mc_reachable h s \<Longrightarrow> api_run h c s = Some (r, s') \<Longrightarrow> mc_reachable h s'"
| again: "mc_reachable h s \<Longrightarrow> wrapper_mqtt_release h s = Some (r, s') \<Longrightarrow>
    wrapper_mqtt_init h params s' = (True, s'') \<Longrightarrow> mc_reachable h s''"

lemma reachable_api_ok: "mc_reachable h s \<Longrightarrow> api_ok s"
  by (induction rule: mc_reachable.induct) (auto intro: init_ok api.returns_ok release_ok)

end
