(* ===== verification/MQTT_Client_Send_Props.thy ===== *)
theory MQTT_Client_Send_Props
  imports MQTT_Client_Api MQTT_Codec_Props
begin

text \<open>
  The sending half of the client returns: the transmission loop ends when the clock of the platform
  runs, and a PUBLISH goes out as the packet the codec describes.
\<close>

section \<open>A platform whose clock runs\<close>

text \<open>Readings never go back, do not jump by more than about three days between two platform
  calls, and grow without bound.\<close>

definition clock_runs :: "hal \<Rightarrow> bool" where
  "clock_runs h \<longleftrightarrow> (\<forall>k. hal_uptime h k \<le> hal_uptime h (Suc k) \<and> hal_uptime h (Suc k) \<le> hal_uptime h k + 268435456)
     \<and> (\<forall>T. \<exists>k. T \<le> hal_uptime h k)"

text \<open>A write reports an error or at most the number of bytes it was given.\<close>

definition writes_ok :: "hal \<Rightarrow> bool" where
  "writes_ok h \<longleftrightarrow> (\<forall>k bs t. hal_ssl_write h k bs t \<le> int (length bs))"

lemma clock_mono: "clock_runs h \<Longrightarrow> i \<le> j \<Longrightarrow> hal_uptime h i \<le> hal_uptime h j"
  by (rule lift_Suc_mono_le) (auto simp: clock_runs_def)

lemma clock_jump: "clock_runs h \<Longrightarrow> hal_uptime h (i + n) \<le> hal_uptime h i + n * 268435456"
proof (induction n)
  case (Suc n)
  then have "hal_uptime h (Suc (i + n)) \<le> hal_uptime h (i + n) + 268435456" by (simp add: clock_runs_def)
  with Suc show ?case by simp
qed simp

lemma clock_passes: "clock_runs h \<Longrightarrow> \<exists>k. T \<le> hal_uptime h k"
  by (simp add: clock_runs_def)

text \<open>A timer that is due at the real time \<open>due\<close>, looked at while the comparison is meaningful.\<close>

definition timer_due :: "hal \<Rightarrow> iotx_time_t \<Rightarrow> nat \<Rightarrow> mc \<Rightarrow> bool" where
  "timer_due h t due s \<longleftrightarrow> t = \<lparr>time = uptime_at due\<rparr> \<and> due \<le> hal_uptime h (tick s) + 2147483649
     \<and> hal_uptime h (tick s) < due + 2147483647"

lemma expired_iff: "timer_due h t due s \<Longrightarrow>
    time_is_expired h t s = (due \<le> hal_uptime h (tick s), s\<lparr>tick := Suc (tick s)\<rparr>)"
  using is_expired_window [of due "hal_uptime h (tick s)"]
  by (simp add: timer_due_def time_is_expired_def HAL_UptimeMs_eq uptime_at_def)

lemma timer_due_later:
  assumes "clock_runs h" "timer_due h t due s" "hal_uptime h (tick s) < due" "tick s' = tick s + n" "n \<le> 7"
  shows "timer_due h t due s'"
proof -
  have "hal_uptime h (tick s) \<le> hal_uptime h (tick s')" using assms(4) by (simp add: clock_mono [OF assms(1)])
  moreover have "n * 268435456 \<le> 7 * 268435456" using assms(5) by (rule mult_le_mono1)
  ultimately show ?thesis using clock_jump [OF assms(1), of "tick s" n] assms by (simp add: timer_due_def)
qed

lemma countdown_timer: "fst (time_countdown h ms s) = \<lparr>time = uptime_at (hal_uptime h (tick s) + unat ms)\<rparr>"
  by (simp add: time_countdown_def HAL_UptimeMs_eq utils_time_countdown_ms_def iotx_time_init_def uptime_at_def)

lemma countdown_due_later:
  assumes "clock_runs h" "tick s' = tick s + n" "n \<le> 7" "unat ms \<le> 2147483649"
  shows "timer_due h (fst (time_countdown h ms s)) (hal_uptime h (tick s) + unat ms) s'"
proof -
  have "hal_uptime h (tick s) \<le> hal_uptime h (tick s')" using assms(2) by (simp add: clock_mono [OF assms(1)])
  moreover have "n * 268435456 \<le> 7 * 268435456" using assms(3) by (rule mult_le_mono1)
  ultimately show ?thesis using clock_jump [OF assms(1), of "tick s" n] assms by (simp add: timer_due_def countdown_timer)
qed

section \<open>The transmission loop\<close>

lemma left_ticks_bounds: "1 \<le> left_ticks h t s" "left_ticks h t s \<le> 2"
  by (simp_all add: left_ticks_def)

lemma net_write_fst: "fst (utils_net_write h buf t s) = hal_ssl_write h (tick s) buf t"
  by (simp add: utils_net_write_def Let_def)

text \<open>The loop ends, and a prefix of the packet has been written.\<close>

lemma send_loop_returns:
  assumes "clock_runs h" "writes_ok h" "timer_due h t due s" "n \<le> length bs"
  shows "\<exists>m s'. send_loop h t bs n s = Some (m, s') \<and> n \<le> m \<and> m \<le> length bs \<and> sent s' = sent s @ take (m - n) (drop n bs)"
proof -
  from clock_passes [OF assms(1)] obtain K where K: "due \<le> hal_uptime h K" by blast
  show ?thesis using assms(3,4)
  proof (induction "K - tick s" arbitrary: n s rule: less_induct)
    case less
    note e = expired_iff [OF less.prems(1)]
    show ?case
    proof (cases "n < length bs \<and> \<not> due \<le> hal_uptime h (tick s)")
      case False
      then show ?thesis using less.prems(2) by (subst send_loop.simps) (auto simp: e)
    next
      case True
      define s1 where "s1 = snd (time_left_1 h t (s\<lparr>tick := Suc (tick s)\<rparr>))"
      define l where "l = fst (time_left_1 h t (s\<lparr>tick := Suc (tick s)\<rparr>))"
      define rc where "rc = hal_ssl_write h (tick s1) (drop n bs) l"
      define s2 where "s2 = snd (utils_net_write h (drop n bs) l s1)"
      have eq: "send_loop h t bs n s = (if rc < 0 then Some (n, s2) else send_loop h t bs (n + nat rc) s2)"
        using True by (subst send_loop.simps) (simp add: e split_beta s1_def l_def rc_def s2_def net_write_fst)
      have s2: "sent s2 = sent s @ take (nat rc) (drop n bs)" "tick s < tick s2" "\<exists>j\<le>7. tick s2 = tick s + j"
        using left_ticks_bounds [of h t "s\<lparr>tick := Suc (tick s)\<rparr>"]
        by (auto simp: s2_def s1_def rc_def l_def prim_simps net_write_fst intro!: exI [of _ "left_ticks h t (s\<lparr>tick := Suc (tick s)\<rparr>) + 2"])
      have len: "n + nat rc \<le> length bs"
        using assms(2) True unfolding writes_ok_def rc_def by (smt (verit) length_drop nat_le_iff le_diff_conv2 less_imp_le_nat add.commute)
      have "tick s < K" using True K clock_mono [OF assms(1), of K "tick s"] by (meson linorder_not_less order_trans)
      with s2(2) have "K - tick s2 < K - tick s" by simp
      moreover have "timer_due h t due s2" using s2(3) timer_due_later [OF assms(1) less.prems(1)] True by auto
      ultimately obtain m s' where "send_loop h t bs (n + nat rc) s2 = Some (m, s')" "n + nat rc \<le> m" "m \<le> length bs"
          "sent s' = sent s2 @ take (m - (n + nat rc)) (drop (n + nat rc) bs)"
        using less.hyps [OF _ _ len, of s2] by blast
      moreover have "take (nat rc) (drop n bs) @ take (m - (n + nat rc)) (drop (n + nat rc) bs) = take (m - n) (drop n bs)"
        if "n + nat rc \<le> m" for m
        using that take_add [of "nat rc" "m - (n + nat rc)" "drop n bs"] by (simp add: add.commute)
      ultimately show ?thesis using True s2(1) by (auto simp: eq)
    qed
  qed
qed


lemma send_packet_returns:
  assumes "clock_runs h" "writes_ok h" "timer_due h t due s" "len \<le> length buf"
  shows "\<exists>m s'. iotx_mc_send_packet h buf len t s =
       Some (if m = len then STATE_SUCCESS else STATE_SYS_DEPEND_NWK_CLOSE, s') \<and> m \<le> len
     \<and> sent s' = sent s @ take m buf \<and> sent_only s s'"
proof -
  from send_loop_returns [OF assms(1-3), of 0 "take len buf"] obtain m s' where
    m: "send_loop h t (take len buf) 0 s = Some (m, s')" "m \<le> len" "sent s' = sent s @ take m (take len buf)"
    using assms(4) by auto
  moreover have "sent_only s s'" using send_loop_effect [OF m(1)] by simp
  ultimately show ?thesis using assms(4)
    by (auto simp: iotx_mc_send_packet_def load_n_def min_absorb1 intro!: exI [of _ m])
qed


section \<open>Total correctness\<close>

text \<open>\<open>returns Q m\<close>: the operation returns, in a state that satisfies \<open>Q\<close>.\<close>

definition returns :: "('a \<Rightarrow> mc \<Rightarrow> bool) \<Rightarrow> 'a mc_result \<Rightarrow> bool" where
  "returns Q m \<longleftrightarrow> (\<exists>r s. m = Some (r, s) \<and> Q r s)"

lemma returns_Some [simp]: "returns Q (Some (r, s)) = Q r s"
  by (simp add: returns_def)

lemma returns_if: "(c \<Longrightarrow> returns Q m) \<Longrightarrow> (\<not> c \<Longrightarrow> returns Q n) \<Longrightarrow> returns Q (if c then m else n)"
  by simp

lemma returns_call: "returns R m \<Longrightarrow> (\<And>r s. R r s \<Longrightarrow> returns Q (f (r, s))) \<Longrightarrow> returns Q (m \<bind> f)"
  by (auto simp: returns_def)

lemma returns_mono: "returns R m \<Longrightarrow> (\<And>r s. R r s \<Longrightarrow> Q r s) \<Longrightarrow> returns Q m"
  by (auto simp: returns_def)

lemma returns_send:
  assumes "clock_runs h" "writes_ok h" "timer_due h t due s" "len \<le> length buf"
    and "\<And>m k. m \<le> len \<Longrightarrow> returns Q (f (if m = len then STATE_SUCCESS else STATE_SYS_DEPEND_NWK_CLOSE,
           s\<lparr>tick := k, sent := sent s @ take m buf\<rparr>))"
  shows "returns Q (iotx_mc_send_packet h buf len t s \<bind> f)"
proof -
  obtain m s' where "iotx_mc_send_packet h buf len t s = Some (if m = len then STATE_SUCCESS else STATE_SYS_DEPEND_NWK_CLOSE, s')"
    "m \<le> len" "sent s' = sent s @ take m buf" "sent_only s s'"
    using send_packet_returns [OF assms(1-4)] by blast
  then show ?thesis using assms(5) [of m "tick s'"] by (simp add: sent_only_def)
qed

section \<open>Publishing\<close>

text \<open>The packet for a message, and the messages a caller may pass.\<close>

definition publish_args_of :: "bytes \<Rightarrow> iotx_mqtt_topic_info_t \<Rightarrow> publish_args" where
  "publish_args_of name m = (0, uint (ti_qos m), ti_retain m, ti_packet_id m,
     MQTTString_initializer\<lparr>cstring := Some name\<rparr>, the (ti_payload m), uint (ti_payload_len m))"

definition publish_packet :: "bytes \<Rightarrow> iotx_mqtt_topic_info_t \<Rightarrow> bytes" where
  "publish_packet name m = mqtt_frame (publish_hdr (publish_args_of name m)) (publish_body (publish_args_of name m))"

definition message_ok :: "bytes \<Rightarrow> iotx_mqtt_topic_info_t \<Rightarrow> bool" where
  "message_ok name m \<longleftrightarrow> (\<exists>p. ti_payload m = Some p \<and> unat (ti_payload_len m) \<le> length p)
     \<and> length name + unat (ti_payload_len m) + 4 < 268435456"

text \<open>The messages that wait for an acknowledgement.\<close>

definition outbox :: "mc \<Rightarrow> (u16 \<times> bytes) list" where
  "outbox s = map (\<lambda>n. (msg_id n, pub_buf n)) (filter (\<lambda>n. node_state n = IOTX_MC_NODE_STATE_NORMANL) (list_pub_wait_ack s))"

text \<open>What one call of \<open>MQTTPublish\<close> did.\<close>

definition published :: "bytes \<Rightarrow> iotx_mqtt_topic_info_t \<Rightarrow> mc \<Rightarrow> int \<Rightarrow> mc \<Rightarrow> bool" where
  "published name m s rc s' \<longleftrightarrow>
    (if rc = STATE_SUCCESS
     then sent s' = sent s @ publish_packet name m
        \<and> outbox s' = (if ti_qos m > 0 then outbox s @ [(ti_packet_id m, publish_packet name m)] else outbox s)
     else rc < 0 \<and> outbox s' = outbox s
        \<and> (\<exists>k < length (publish_packet name m). sent s' = sent s @ take k (publish_packet name m)
             \<and> (rc \<noteq> STATE_SYS_DEPEND_NWK_CLOSE \<longrightarrow> k = 0)))"

lemma publish_args_ok: "message_ok name m \<Longrightarrow> publish_ok (publish_args_of name m)"
  by (auto simp: message_ok_def publish_args_of_def publish_ok_def mqtt_string_ok_def mqtt_text_def
      MQTTString_initializer_def)

lemma publish_ser:
  assumes "message_ok name m" "ti_payload m = Some p" "buflen \<le> int (length buf)"
  shows "MQTTSerialize_publish buf buflen 0 (uint (ti_qos m)) (ti_retain m) (ti_packet_id m)
       (MQTTString_initializer\<lparr>cstring := Some name\<rparr>) p (to_s32 (uint (ti_payload_len m)))
     = (if buflen < publish_need (publish_args_of name m) then Some (-2, buf)
        else Some (int (length (publish_packet name m)), publish_packet name m @ drop (length (publish_packet name m)) buf))"
proof -
  have "uint (ti_payload_len m) = int (unat (ti_payload_len m))" "unat (ti_payload_len m) < 268435456"
    using assms(1) by (simp_all add: message_ok_def)
  then have "to_s32 (uint (ti_payload_len m)) = uint (ti_payload_len m)" by (intro to_s32_id) linarith+
  then show ?thesis using pub.ser_eq [OF publish_args_ok [OF assms(1)] assms(3)] assms(2)
    by (simp add: publish_packet_def publish_args_of_def ser_publish_def)
qed

lemma publish_packet_pos: "0 < length (publish_packet name m)"
  by (simp add: publish_packet_def length_mqtt_frame)

lemma publish_packet_len:
  "message_ok name m \<Longrightarrow> \<not> buflen < publish_need (publish_args_of name m) \<Longrightarrow> int (length (publish_packet name m)) \<le> buflen"
  using pub.need_covers [OF publish_args_ok] by (fastforce simp: publish_packet_def)


lemma returns_push:
  assumes "buf_send s = Some buf" "len \<le> length buf" "len \<le> buf_size_send s"
    and "\<And>r k. r < 0 \<Longrightarrow> r \<noteq> STATE_SYS_DEPEND_NWK_CLOSE \<Longrightarrow> returns Q (f (r, s\<lparr>tick := k\<rparr>))"
    and "\<And>k t. k \<le> 2 \<Longrightarrow> length (list_pub_wait_ack s) < 10 \<Longrightarrow> returns Q (f (STATE_SUCCESS, s\<lparr>tick := tick s + k, list_pub_wait_ack := list_pub_wait_ack s @
           [\<lparr>pub_start_time = t, node_state = IOTX_MC_NODE_STATE_NORMANL, msg_id = i, pub_len = len, pub_buf = take len buf\<rparr>]\<rparr>))"
  shows "returns Q (iotx_mc_push_pubInfo_to h (int len) i s \<bind> f)"
proof -
  have "returns Q (f (STATE_MQTT_QOS1_REPUB_EXCEED_MAX, s))" using assms(4) [of "-0x31C" "tick s"] by simp
  moreover have "returns Q (f (STATE_SYS_DEPEND_MALLOC, s\<lparr>tick := Suc (tick s)\<rparr>))" using assms(4) by simp
  moreover have "snd (HAL_Malloc h n t) = t\<lparr>tick := Suc (tick t)\<rparr>" "snd (time_start h t) = t\<lparr>tick := Suc (tick t)\<rparr>" for n t
    by (simp_all add: prim_simps)
  ultimately show ?thesis using assms(1-3) assms(5) [of 2]
    by (simp add: iotx_mc_push_pubInfo_to_def split_beta load_n_def numeral_2_eq_2)
qed

text \<open>The end of the publish, once the packet is in the send buffer.\<close>

definition publish_tail :: "hal \<Rightarrow> iotx_mqtt_topic_info_t \<Rightarrow> bytes \<Rightarrow> int \<Rightarrow> iotx_time_t \<Rightarrow> mc \<Rightarrow> int mc_result" where
  "publish_tail h m buf len timer s = do {
     (res, s) \<leftarrow> (if ti_qos m > 0 then iotx_mc_push_pubInfo_to h len (ti_packet_id m) s else Some (STATE_SUCCESS, s));
     if res < STATE_SUCCESS then Some (res, HAL_MutexUnlock Lock_list_pub (send_exit s))
     else do {
       (rc, s) \<leftarrow> iotx_mc_send_packet h buf (nat len) timer s;
       if rc \<noteq> STATE_SUCCESS then
         (let s = (if ti_qos m > 0 then s\<lparr>list_pub_wait_ack := butlast (list_pub_wait_ack s)\<rparr> else s)
          in Some (STATE_SYS_DEPEND_NWK_CLOSE, HAL_MutexUnlock Lock_list_pub (send_exit s)))
       else Some (STATE_SUCCESS, HAL_MutexUnlock Lock_list_pub (send_exit s)) } }"

lemma exit_frame [simp]:
  "list_pub_wait_ack (HAL_MutexUnlock l (send_exit s)) = list_pub_wait_ack s" "sent (HAL_MutexUnlock l (send_exit s)) = sent s"
  by (simp_all add: send_exit_def prim_simps)

lemma take_shorter: "k \<le> length xs \<Longrightarrow> k \<noteq> length xs \<Longrightarrow> \<exists>j < length xs. take k xs = take j xs"
  by (metis le_neq_implies_less)

lemma publish_tail_returns:
  assumes "clock_runs h" "writes_ok h" "\<And>k. k \<le> 2 \<Longrightarrow> timer_due h t due (s\<lparr>tick := tick s + k\<rparr>)"
    and "buf_send s = Some buf" "buf = publish_packet name m @ rest" "length (publish_packet name m) \<le> buf_size_send s"
  shows "returns (published name m s) (publish_tail h m buf (int (length (publish_packet name m))) t s)"
proof -
  let ?p = "publish_packet name m"
  have p: "take k buf = take k ?p" if "k \<le> length ?p" for k using that assms(5) by simp
  have d: "timer_due h t due (s\<lparr>tick := tick s + k, list_pub_wait_ack := l\<rparr>)" if "k \<le> 2" for k l
    using assms(3) [OF that] by (simp add: timer_due_def)
  have d0: "timer_due h t due s" using assms(3) [of 0] by (simp add: timer_due_def)
  show ?thesis
  proof (cases "ti_qos m > 0")
    case True
    show ?thesis unfolding publish_tail_def if_P [OF True] nat_int
      by (rule returns_push [where buf = buf])
        (use assms(4-6) publish_packet_pos [of name m] in \<open>auto simp: True published_def p outbox_def Let_def
          intro!: returns_send [OF assms(1,2) d] take_shorter\<close>)
  next
    case False
    show ?thesis unfolding publish_tail_def if_not_P [OF False] nat_int
      by (auto simp: False published_def p outbox_def assms(5) publish_packet_pos intro!: returns_send [OF assms(1,2) d0] take_shorter)
  qed
qed


lemma MQTTPublish_tail:
  assumes "message_ok name m" "ti_payload m = Some p"
  shows "MQTTPublish h name m s = (let (timer, s) = time_countdown h (request_timeout_ms s) s;
       s = HAL_MutexLock Lock_write_buf (HAL_MutexLock Lock_list_pub s);
       (res, s) = alloc_send_buffer h (int (length name) + uint (ti_payload_len m)) s
     in if res < STATE_SUCCESS then Some (res, HAL_MutexUnlock Lock_list_pub (HAL_MutexUnlock Lock_write_buf s))
        else buf_send s \<bind> (\<lambda>buf.
          MQTTSerialize_publish buf (to_s32 (int (buf_size_send s))) 0 (uint (ti_qos m)) (ti_retain m) (ti_packet_id m)
            (MQTTString_initializer\<lparr>cstring := Some name\<rparr>) p (to_s32 (uint (ti_payload_len m))) \<bind> (\<lambda>(len, buf).
          if len \<le> 0 then Some (STATE_MQTT_SERIALIZE_PUB_ERROR, HAL_MutexUnlock Lock_list_pub (send_exit (s\<lparr>buf_send := Some buf\<rparr>)))
          else publish_tail h m buf len timer (s\<lparr>buf_send := Some buf\<rparr>))))"
proof -
  have "uint (ti_payload_len m) = int (unat (ti_payload_len m))" "length name + unat (ti_payload_len m) < 268435456"
    using assms(1) by (simp_all add: message_ok_def)
  then have l: "to_s32 (int (length name) + uint (ti_payload_len m)) = int (length name) + uint (ti_payload_len m)"
    by (intro to_s32_id) linarith+
  show ?thesis unfolding MQTTPublish_def publish_tail_def Let_def l assms(2) Option.bind.simps ..
qed

lemma MQTTPublish_returns:
  assumes "clock_runs h" "writes_ok h" "message_ok name m" "unat (request_timeout_ms s) \<le> 2147483649"
  shows "returns (published name m s) (MQTTPublish h name m s)"
proof -
  obtain p where p: "ti_payload m = Some p" using assms(3) by (auto simp: message_ok_def)
  define n where "n = send_buf_len (int (length name) + uint (ti_payload_len m)) s"
  define t where "t = fst (time_countdown h (request_timeout_ms s) s)"
  define s1 where "s1 = HAL_MutexLock Lock_write_buf (HAL_MutexLock Lock_list_pub (s\<lparr>tick := Suc (tick s)\<rparr>))"
  have n: "int n < 2147483648"
  proof -
    have "uint (ti_payload_len m) = int (unat (ti_payload_len m))" "length name + unat (ti_payload_len m) < 268435456"
      using assms(3) by (simp_all add: message_ok_def)
    then have "to_u32 (64 + (int (length name) + uint (ti_payload_len m))) < 2147483648"
      by (subst to_u32_id) linarith+
    then show ?thesis unfolding n_def send_buf_len_def by linarith
  qed
  have c: "time_countdown h (request_timeout_ms s) s = (t, s\<lparr>tick := Suc (tick s)\<rparr>)"
    unfolding t_def by (rule prod_eqI) (simp_all add: prim_simps)
  have s1: "send_buf_len l s1 = send_buf_len l s" "tick s1 = Suc (tick s)" "list_pub_wait_ack s1 = list_pub_wait_ack s" "sent s1 = sent s" for l
    by (simp_all add: s1_def prim_simps send_buf_len_def)
  define s2 where "s2 b = s1\<lparr>tick := tick s + 2, buf_send := Some b, buf_size_send := n\<rparr>" for b
  have s2: "buf_send (s2 b) = Some b" "buf_size_send (s2 b) = n" "s2 b\<lparr>buf_send := Some b'\<rparr> = s2 b'"
    "list_pub_wait_ack (s2 b) = list_pub_wait_ack s" "sent (s2 b) = sent s" for b b'
    by (simp_all add: s2_def s1)
  have alloc: "alloc_send_buffer h (int (length name) + uint (ti_payload_len m)) s1 =
      (if hal_malloc h (Suc (tick s)) n then (STATE_SUCCESS, s2 (replicate n 0))
       else (STATE_SYS_DEPEND_MALLOC, s1\<lparr>tick := tick s + 2, buf_send := None\<rparr>))"
    by (simp add: alloc_send_effect s1 n_def [symmetric] Let_def s2_def)
  note eq = MQTTPublish_tail [OF assms(3) p, of h s, unfolded c Let_def prod.case s1_def [symmetric] alloc]
  note pos = publish_packet_pos [of name m]
  show ?thesis
  proof (cases "hal_malloc h (Suc (tick s)) n")
    case False
    with pos show ?thesis by (auto simp: eq published_def outbox_def prim_simps s1)
  next
    case True
    have ser: "to_s32 (int n) = int n" using n by simp
    note ps = publish_ser [OF assms(3) p, of "int n" "replicate n 0"]
    show ?thesis
    proof (cases "int n < publish_need (publish_args_of name m)")
      case True
      with \<open>hal_malloc _ _ _\<close> pos show ?thesis
        by (auto simp: eq ser ps s2 published_def outbox_def)
    next
      case False
      let ?b = "publish_packet name m @ drop (length (publish_packet name m)) (replicate n 0)"
      have "timer_due h t (hal_uptime h (tick s) + unat (request_timeout_ms s)) (s2 ?b\<lparr>tick := tick (s2 ?b) + k\<rparr>)" if "k \<le> 2" for k
        unfolding t_def by (rule countdown_due_later [OF assms(1) _ _ assms(4), of _ _ "2 + k"]) (use that in \<open>simp_all add: s2_def\<close>)
      then have "returns (published name m (s2 ?b)) (publish_tail h m ?b (int (length (publish_packet name m))) t (s2 ?b))"
        using publish_packet_len [OF assms(3) False] by (intro publish_tail_returns [OF assms(1,2)]) (simp_all add: s2)
      moreover have "published name m (s2 ?b) = published name m s" by (simp add: fun_eq_iff published_def outbox_def s2)
      ultimately show ?thesis using True False pos by (auto simp: eq ser ps s2(1-3))
    qed
  qed
qed

end
