(* ===== verification/MQTT_Client_Outbox.thy ===== *)
theory MQTT_Client_Outbox
  imports MQTT_Client_Send_Props
begin

text \<open>
  Delivery at least once: the list of QoS 1 messages that wait for their PUBACK refines an outbox
  with the three operations post, acknowledge and resend.  What a client of the outbox may rely on
  is proved from the laws of the operations alone.
\<close>

section \<open>The interface\<close>

datatype ('i, 'm) box_event = Posted 'i 'm | Failed | Acked 'i | Worked

inductive event_run :: "('s \<Rightarrow> 'e \<Rightarrow> 's \<Rightarrow> bool) \<Rightarrow> 's \<Rightarrow> 'e list \<Rightarrow> 's \<Rightarrow> bool" for step where
  run_Nil: "event_run step s [] s"
| run_Cons: "step s e s' \<Longrightarrow> event_run step s' es s'' \<Longrightarrow> event_run step s (e # es) s''"

inductive_cases run_ConsE: "event_run step s (e # es) s''"

locale outbox_laws =
  fixes box :: "'s \<Rightarrow> ('i \<times> 'm) list"
    and step :: "'s \<Rightarrow> ('i, 'm) box_event \<Rightarrow> 's \<Rightarrow> bool"
  assumes posted: "step s (Posted i m) s' \<Longrightarrow> box s' = box s @ [(i, m)]"
    and failed: "step s Failed s' \<Longrightarrow> box s' = box s"
    and acked: "step s (Acked i) s' \<Longrightarrow> box s' = filter (\<lambda>(j, _). j \<noteq> i) (box s)"
    and worked: "step s Worked s' \<Longrightarrow> box s' = box s"
begin

lemma step_keeps: "step s e s' \<Longrightarrow> (i, m) \<in> set (box s) \<Longrightarrow> e \<noteq> Acked i \<Longrightarrow> (i, m) \<in> set (box s')"
  by (cases e) (auto dest: posted failed acked worked)

lemma unacked_kept: "event_run step s es s' \<Longrightarrow> (i, m) \<in> set (box s) \<Longrightarrow> Acked i \<notin> set es \<Longrightarrow> (i, m) \<in> set (box s')"
  by (induction rule: event_run.induct) (auto dest: step_keeps)

lemma nothing_invented:
  "event_run step s es s' \<Longrightarrow> (i, m) \<in> set (box s') \<Longrightarrow> (i, m) \<in> set (box s) \<or> Posted i m \<in> set es"
proof (induction rule: event_run.induct)
  case (run_Cons s e s' es s'')
  have "(i, m) \<in> set (box s) \<or> e = Posted i m" if "(i, m) \<in> set (box s')"
    using run_Cons.hyps(1) that by (cases e) (auto dest: posted failed acked worked)
  with run_Cons show ?case by auto
qed simp

lemma acked_gone: "event_run step s es s' \<Longrightarrow> es = Acked i # fs \<Longrightarrow> (\<And>m. Posted i m \<notin> set fs) \<Longrightarrow> (i, m) \<notin> set (box s')"
proof
  assume r: "event_run step s es s'" and es: "es = Acked i # fs" and fs: "\<And>m. Posted i m \<notin> set fs" and b: "(i, m) \<in> set (box s')"
  from r es obtain t where "step s (Acked i) t" "event_run step t fs s'" by (auto elim: run_ConsE)
  with nothing_invented [of t fs s' i m] b fs acked show False by fastforce
qed

end

section \<open>The client's list\<close>

definition box_of :: "iotx_mc_pub_info_t list \<Rightarrow> (u16 \<times> bytes) list" where
  "box_of l = map (\<lambda>n. (msg_id n, pub_buf n)) (filter (\<lambda>n. node_state n = IOTX_MC_NODE_STATE_NORMANL) l)"

lemma outbox_box_of: "outbox s = box_of (list_pub_wait_ack s)"
  by (simp add: outbox_def box_of_def)

lemma box_of_Cons: "box_of (n # l) = (if node_state n = IOTX_MC_NODE_STATE_NORMANL then (msg_id n, pub_buf n) # box_of l else box_of l)"
  by (simp add: box_of_def)

lemma node_invalid: "(n \<noteq> IOTX_MC_NODE_STATE_INVALID) = (n = IOTX_MC_NODE_STATE_NORMANL)"
  by (cases n) simp_all

text \<open>The walk over the list drops acknowledged messages and nothing else; the bytes that are sent
  again are those of the first transmission.\<close>

lemma pub_info_loop_box: "wp (\<lambda>ns' s'. box_of ns' = box_of ns) (pub_info_loop h ns s)"
proof (induction ns arbitrary: s)
  case (Cons n ns)
  have IH: "wp (\<lambda>ns' s'. box_of ns' = box_of (n # ns)) (pub_info_loop h ns s' \<bind> (\<lambda>(rest, s). Some (n' # rest, s)))"
    if "node_state n' = node_state n" "msg_id n' = msg_id n" "pub_buf n' = pub_buf n" for n' s'
    by (rule wp_call [OF Cons.IH]) (simp add: box_of_Cons that)
  have T: "wp (\<lambda>r s'. True) m" for m :: "int mc_result" by (simp add: wp_def)
  show ?case
  proof (cases "node_state n = IOTX_MC_NODE_STATE_INVALID")
    case True
    then show ?thesis using Cons.IH by (simp add: box_of_Cons)
  next
    case False
    show ?thesis unfolding pub_info_loop.simps if_not_P [OF False] Let_def split_beta
      by (intro wp_if wp_call [OF T] IH [unfolded split_beta])  (simp_all add: box_of_Cons)
  qed
qed simp

lemma PubInfoProc_box: "MQTTPubInfoProc h s = Some (r, s') \<Longrightarrow> outbox s' = outbox s"
proof -
  have "wp (\<lambda>r s'. outbox s' = outbox s) (MQTTPubInfoProc h s)"
    unfolding MQTTPubInfoProc_def Let_def
    by (rule wp_call [OF pub_info_loop_box]) (simp add: prim_simps outbox_box_of)
  then show "MQTTPubInfoProc h s = Some (r, s') \<Longrightarrow> outbox s' = outbox s" by (simp add: wp_def)
qed

lemma box_of_mask: "box_of (map (\<lambda>n. if msg_id n = i then n\<lparr>node_state := IOTX_MC_NODE_STATE_INVALID\<rparr> else n) l)
    = filter (\<lambda>(j, _). j \<noteq> i) (box_of l)"
  by (induction l) (simp_all add: box_of_def)

lemma mask_box: "outbox (snd (iotx_mc_mask_pubInfo_from i s)) = filter (\<lambda>(j, _). j \<noteq> i) (outbox s)"
  by (simp add: outbox_box_of mask_pubInfo_effect box_of_mask)

text \<open>The operations of the client on its list, on a platform whose clock runs.\<close>

inductive client_box_step :: "hal \<Rightarrow> mc \<Rightarrow> (u16, bytes) box_event \<Rightarrow> mc \<Rightarrow> bool" for h where
  box_post: "\<lbrakk>clock_runs h; writes_ok h; message_ok name m; unat (request_timeout_ms s) \<le> 10000; 0 < ti_qos m;
     MQTTPublish h name m s = Some (STATE_SUCCESS, s')\<rbrakk>
    \<Longrightarrow> client_box_step h s (Posted (ti_packet_id m) (publish_packet name m)) s'"
| box_fail: "\<lbrakk>clock_runs h; writes_ok h; message_ok name m; unat (request_timeout_ms s) \<le> 10000;
     MQTTPublish h name m s = Some (rc, s'); rc \<noteq> STATE_SUCCESS \<or> ti_qos m = 0\<rbrakk> \<Longrightarrow> client_box_step h s Failed s'"
| box_ack: "iotx_mc_mask_pubInfo_from i s = (rc, s') \<Longrightarrow> client_box_step h s (Acked i) s'"
| box_work: "MQTTPubInfoProc h s = Some (rc, s') \<Longrightarrow> client_box_step h s Worked s'"

inductive_cases client_box_stepE:
  "client_box_step h s (Posted i m) s'" "client_box_step h s Failed s'" "client_box_step h s (Acked i) s'"
  "client_box_step h s Worked s'"

lemma publish_box:
  "\<lbrakk>clock_runs h; writes_ok h; message_ok name m; unat (request_timeout_ms s) \<le> 10000; MQTTPublish h name m s = Some (rc, s')\<rbrakk>
    \<Longrightarrow> published name m s rc s'"
  using MQTTPublish_returns [of h name m s] by (simp add: returns_def)

interpretation box: outbox_laws outbox "client_box_step h" for h
proof
  show "outbox s' = outbox s @ [(i, m)]" if "client_box_step h s (Posted i m) s'" for s i m s'
    using that by (auto elim!: client_box_stepE dest!: publish_box simp: published_def)
  show "outbox s' = outbox s" if "client_box_step h s Failed s'" for s s'
    using that by (elim client_box_stepE) (drule (4) publish_box, auto simp: published_def split: if_splits)
  show "outbox s' = filter (\<lambda>(j, _). j \<noteq> i) (outbox s)" if "client_box_step h s (Acked i) s'" for s i s'
    using that mask_box [of i s] by (auto elim!: client_box_stepE)
  show "outbox s' = outbox s" if "client_box_step h s Worked s'" for s s'
    using that by (auto elim!: client_box_stepE dest: PubInfoProc_box)
qed

end
