(* ===== verification/MQTT_Client_Props.thy ===== *)
theory MQTT_Client_Props
  imports MQTT_Client_Outbox
begin

text \<open>
  What the MQTT client promises: the invariant of every reachable client, publishing that returns
  and keeps unacknowledged messages, delivery to the matching handlers, detection of a dead link,
  packet identifiers, and the places where the code does something else than its interface says.
\<close>

section \<open>A sample platform and client\<close>

text \<open>A platform for examples: every call takes one millisecond, memory never runs out, writes take
  everything, nothing arrives.\<close>

definition sample_hal :: hal where
  "sample_hal = \<lparr>hal_uptime = (\<lambda>k. k), hal_ssl_read = (\<lambda>_ _ _. (0, [])), hal_ssl_write = (\<lambda>_ bs _. int (length bs)),
     hal_ssl_establish = (\<lambda>_. 1), hal_malloc = (\<lambda>_ _. True), hal_mutex = (\<lambda>_. True), hal_identity_cb = False,
     hal_junk16 = (\<lambda>_. 0), hal_sizeof_client = 400\<rparr>"

definition sample_env :: mc where
  "sample_env = client_zero \<lparr>lock_generic = False, packet_id = 0, request_timeout_ms = 0, cycle_timeout_ms = 0,
     buf_size_send = 0, buf_size_send_max = 0, buf_size_read_max = 0, buf_size_read = 0, keepalive_probes = 0,
     buf_send = None, buf_read = None, list_sub_handle = [], ipstack = utils_network_zero, next_ping_time = \<lparr>time = 0\<rparr>,
     client_state = IOTX_MC_STATE_INVALID, reconnect_param = \<lparr>reconnect_next_time = \<lparr>time = 0\<rparr>, reconnect_time_interval_ms = 0\<rparr>,
     connect_data = MQTTPacket_connectData_initializer, list_pub_wait_ack = [], list_sub_sync_ack = [], lock_list_pub = False,
     lock_write_buf = False, lock_read_buf = False, lock_yield = False, handle_event = \<lparr>h_fp = None, pcontext = 0\<rparr>,
     tick = 0, held = [], lock_bad = False, mutexes = 0, sent = [], events = [], in_yield_cb = False,
     tok = \<lparr>tok_mem = [], tok_pos = None\<rparr>, ctx_product_key = [], ctx_device_name = []\<rparr>"

definition sample_params :: iotx_mqtt_param_t where
  "sample_params = \<lparr>p_port = 1883, p_host = Some [104], p_client_id = Some [99], p_username = None, p_password = None,
     p_pub_key = None, p_clean_session = 1, p_request_timeout_ms = 2000, p_keepalive_interval_ms = 60000,
     p_write_buf_size = 1024, p_read_buf_size = 1024, p_handle_event = \<lparr>h_fp = None, pcontext = 0\<rparr>\<rparr>"

definition sample_client :: mc where
  "sample_client = snd (wrapper_mqtt_init sample_hal sample_params sample_env)"

lemma sample_env_ok: "env_ok sample_env"
  by (simp add: env_ok_def sample_env_def client_zero_def)

lemma sample_init: "wrapper_mqtt_init sample_hal sample_params sample_env = (True, sample_client)"
proof -
  have "fst (wrapper_mqtt_init sample_hal sample_params sample_env) = True"
    by (simp add: wrapper_mqtt_init_def iotx_mc_init_def prim_simps HAL_Malloc_def ticked_def split_beta Let_def
        init_exit_rc init_params_rc sample_hal_def sample_params_def)
  then show ?thesis unfolding sample_client_def by (metis prod.collapse)
qed

lemma sample_reachable: "mc_reachable sample_hal sample_client"
  by (rule mc_reachable.init [OF sample_env_ok sample_init])

lemma sample_clock: "clock_runs sample_hal" "writes_ok sample_hal"
  by (auto simp: clock_runs_def writes_ok_def sample_hal_def)

text \<open>The same client once it is connected.\<close>

definition sample_online :: mc where
  "sample_online = sample_client\<lparr>client_state := IOTX_MC_STATE_CONNECTED\<rparr>"

lemma sample_probes: "keepalive_probes sample_client = 0" "sent sample_client = []" "list_pub_wait_ack sample_client = []"
    "list_sub_handle sample_client = []" "packet_id sample_client = 0" "events sample_client = []" "handle_event sample_client = \<lparr>h_fp = None, pcontext = 0\<rparr>"
  unfolding init_success(2) [OF sample_init]
  by (simp_all add: prim_simps mc_init_params_def iotx_mc_set_connect_params_def init_state_def client_zero_def Let_def split_beta
      iotx_net_init_def sample_params_def sample_env_def)

lemma sample_online_ok: "api_ok sample_online" "client_state sample_online = IOTX_MC_STATE_CONNECTED"
  using reachable_api_ok [OF sample_reachable] by (simp_all add: sample_online_def api_ok_def step_defs sample_probes)

section \<open>The invariant\<close>

text \<open>C1. In every state a program can bring a client to, whatever the network, the clock and the memory
  allocator of the platform do: no lock is held and every lock was taken in the order yield,
  read buffer, publish list, write buffer, generic, and released in the reverse order
  (the discipline that excludes deadlock between callers); no buffer is left allocated; at most ten messages wait for an acknowledgement; the
  packet id fits in 16 bits; the request timeout, the keep-alive interval and the reconnection
  interval have only the values the configuration allows; no handler is registered twice; and a
  client that is connected has at most two keep-alive probes open.\<close>

theorem client_invariant:
  assumes "mc_reachable h s"
  shows "held s = [] \<and> \<not> lock_bad s \<and> buf_send s = None \<and> buf_read s = None
    \<and> length (list_pub_wait_ack s) \<le> 10 \<and> packet_id s \<le> 65535
    \<and> 1000 \<le> request_timeout_ms s \<and> request_timeout_ms s \<le> 10000
    \<and> 30 \<le> keepAliveInterval (connect_data s) \<and> keepAliveInterval (connect_data s) \<le> 1200
    \<and> reconnect_time_interval_ms (reconnect_param s) \<in> {1000, 2000, 4000, 8000, 16000, 30000, 32000}
    \<and> distinct (map (\<lambda>n. (topic_filter n, h_fp (th_handle n), pcontext (th_handle n))) (list_sub_handle s))
    \<and> (client_state s = IOTX_MC_STATE_CONNECTED \<longrightarrow> keepalive_probes s \<le> 2)"
proof -
  have "handler_key = (\<lambda>n. (topic_filter n, h_fp (th_handle n), pcontext (th_handle n)))"
    by (simp add: fun_eq_iff handler_key_def)
  with reachable_api_ok [OF assms] show ?thesis
    by (simp add: api_ok_def ok_def alive_def backoff_def)
qed

theorem client_invariant_witness: "held sample_client = [] \<and> packet_id sample_client \<le> 65535"
  using client_invariant [OF sample_reachable] by simp


section \<open>Publishing\<close>

text \<open>The message as it is sent: a QoS 1 message gets the next packet id.\<close>

definition next_id :: "mc \<Rightarrow> nat" where
  "next_id s = (if packet_id s = 65535 then 1 else packet_id s + 1)"

definition numbered :: "iotx_mqtt_topic_info_t \<Rightarrow> mc \<Rightarrow> iotx_mqtt_topic_info_t" where
  "numbered m s = (if ti_qos m = 1 then m\<lparr>ti_packet_id := of_nat (next_id s)\<rparr> else m)"

lemma message_ok_numbered: "message_ok name (numbered m s) = message_ok name m"
  by (simp add: message_ok_def numbered_def)

lemma published_frame:
  "list_pub_wait_ack s = list_pub_wait_ack t \<Longrightarrow> sent s = sent t \<Longrightarrow> published name m s = published name m t"
  by (simp add: fun_eq_iff published_def outbox_def)

lemma publish_call:
  assumes "api_ok s" "client_state s = IOTX_MC_STATE_CONNECTED" "0 \<notin> set name"
    and "check_topic_result TOPIC_NAME_TYPE name = STATE_SUCCESS" "message_ok name m" "ti_qos m = 0 \<or> ti_qos m = 1"
  shows "\<exists>s1. api_ok s1 \<and> list_pub_wait_ack s1 = list_pub_wait_ack s \<and> sent s1 = sent s
    \<and> wrapper_mqtt_publish h (Some name) m s = MQTTPublish h name (numbered m s) s1 \<bind> (\<lambda>(rc, s').
         if rc < STATE_SUCCESS
         then Some ((rc, numbered m s), if rc = STATE_SYS_DEPEND_NWK_CLOSE then iotx_mc_set_client_state IOTX_MC_STATE_DISCONNECTED s' else s')
         else Some ((if ti_qos m = 1 then int (next_id s) else 0, numbered m s), s'))"
proof -
  obtain p where p: "ti_payload m = Some p" using assms(5) by (auto simp: message_ok_def)
  obtain st where st: "iotx_mc_check_topic (Some name) TOPIC_NAME_TYPE (tok s) = Some (STATE_SUCCESS, st)"
    using check_topic_total [OF assms(3), of TOPIC_NAME_TYPE "tok s"] assms(4) by auto
  let ?s = "s\<lparr>tok := st\<rparr>"
  have a: "api_ok ?s" using assms(1) by simp
  have i: "iotx_mc_get_next_packetid ?s = (next_id s, ?s\<lparr>packet_id := next_id s\<rparr>)"
    using api_below [OF a, of 4] a by (simp add: get_next_packetid_effect next_id_def Let_def api_ok_def ok_def)
  have "api_ok (?s\<lparr>packet_id := next_id s\<rparr>)" using api_packetid [OF a] i by simp
  then show ?thesis using assms(2,6) api_check_state [OF a] a
    by (intro exI [of _ "if ti_qos m = 1 then ?s\<lparr>packet_id := next_id s\<rparr> else ?s"])
      (auto simp: wrapper_mqtt_publish_def p st i numbered_def Let_def split_beta intro!: Option.bind_cong)
qed

text \<open>C3. Publishing returns.  On a platform whose clock runs and whose writes report what they wrote, a
  publish with QoS 0 or 1 on a connected client that satisfies the invariant \<open>api_ok\<close>, with an admissible topic and a payload that is as
  long as stated, comes back after at most the request timeout, whatever the network does.  It either
  reports the packet id (0 for QoS 0), and then exactly the PUBLISH packet of the message went out
  and a QoS 1 message is in the outbox under a packet id between 1 and 65535; or it reports an
  error, and then the outbox is as before and at most a proper prefix of the packet went out, none
  of it unless the error is a closed connection, which also puts the client offline.\<close>

theorem publish_returns:
  assumes "clock_runs h" "writes_ok h" "api_ok s" "client_state s = IOTX_MC_STATE_CONNECTED"
    and "0 \<notin> set name" "check_topic_result TOPIC_NAME_TYPE name = STATE_SUCCESS" "message_ok name m"
    and "ti_qos m = 0 \<or> ti_qos m = 1"
  shows "\<exists>rc s'. wrapper_mqtt_publish h (Some name) m s = Some ((rc, numbered m s), s')
    \<and> (if 0 \<le> rc
       then rc = (if ti_qos m = 1 then int (next_id s) else 0)
          \<and> sent s' = sent s @ publish_packet name (numbered m s)
          \<and> outbox s' = outbox s @ (if ti_qos m = 1 then [(of_nat (next_id s), publish_packet name (numbered m s))] else [])
       else outbox s' = outbox s
          \<and> (\<exists>k < length (publish_packet name (numbered m s)). sent s' = sent s @ take k (publish_packet name (numbered m s))
               \<and> (if rc = STATE_SYS_DEPEND_NWK_CLOSE then client_state s' = IOTX_MC_STATE_DISCONNECTED else k = 0)))"
proof -
  obtain s1 where s1: "api_ok s1" "list_pub_wait_ack s1 = list_pub_wait_ack s" "sent s1 = sent s"
    and eq: "wrapper_mqtt_publish h (Some name) m s = MQTTPublish h name (numbered m s) s1 \<bind> (\<lambda>(rc, s').
         if rc < STATE_SUCCESS
         then Some ((rc, numbered m s), if rc = STATE_SYS_DEPEND_NWK_CLOSE then iotx_mc_set_client_state IOTX_MC_STATE_DISCONNECTED s' else s')
         else Some ((if ti_qos m = 1 then int (next_id s) else 0, numbered m s), s'))"
    using publish_call [OF assms(3-8)] by blast
  have "unat (request_timeout_ms s1) \<le> 10000" using s1(1) by (simp add: api_ok_def ok_def word_le_nat_alt)
  then have "returns (published name (numbered m s) s1) (MQTTPublish h name (numbered m s) s1)"
    by (intro MQTTPublish_returns [OF assms(1,2)]) (simp_all add: message_ok_numbered assms(7))
  then obtain rc s2 where "MQTTPublish h name (numbered m s) s1 = Some (rc, s2)" "published name (numbered m s) s rc s2"
    unfolding published_frame [OF s1(2,3)] by (auto simp: returns_def)
  then show ?thesis using assms(8)
    by (auto simp: eq published_def numbered_def outbox_def prim_simps split: if_splits)
qed


text \<open>A message for the examples: \<open>hi\<close> with QoS 1 to the topic \<open>/ab\<close>.\<close>

definition sample_msg :: iotx_mqtt_topic_info_t where
  "sample_msg = \<lparr>ti_packet_id = 0, ti_qos = 1, ti_dup = 0, ti_retain = 0, ti_topic_len = 0, ti_payload_len = 2,
     ti_ptopic = None, ti_payload = Some [104, 105]\<rparr>"

lemma sample_topic_ok: "check_topic_result TOPIC_NAME_TYPE [47, 97, 98] = STATE_SUCCESS"
proof -
  have "topic_tokens [47, 97, 98] = [[97, 98]]" by (simp add: topic_tokens.simps)
  then show ?thesis by (simp add: check_topic_result_def iotx_mc_check_rule_def)
qed

theorem publish_returns_witness:
  "\<exists>rc s'. wrapper_mqtt_publish sample_hal (Some [47, 97, 98]) sample_msg sample_online = Some ((rc, numbered sample_msg sample_online), s')
    \<and> (0 \<le> rc \<longrightarrow> rc = 1 \<and> outbox s' = [(1, publish_packet [47, 97, 98] (numbered sample_msg sample_online))])"
  using publish_returns [OF sample_clock sample_online_ok _ sample_topic_ok, of sample_msg]
  by (auto simp: message_ok_def sample_msg_def next_id_def sample_online_def sample_probes outbox_def split: if_splits)


text \<open>C5. The list of unacknowledged messages refines an outbox: a publish with QoS above 0 that reports success posts
  exactly one message, a publish that fails (also one whose transmission broke off after the node
  was queued) posts none; a PUBACK removes the messages with its packet id and nothing else; and
  the periodic walk, which drops acknowledged nodes and sends overdue ones again, changes nothing.\<close>

theorem outbox_refined:
  assumes "clock_runs h" "writes_ok h" "message_ok name m" "unat (request_timeout_ms s) \<le> 10000"
    and "MQTTPublish h name m s = Some (rc, s1)" "iotx_mc_mask_pubInfo_from i s = (rc2, s2)" "MQTTPubInfoProc h s = Some (rc3, s3)"
  shows "outbox s1 = (if rc = STATE_SUCCESS \<and> 0 < ti_qos m then outbox s @ [(ti_packet_id m, publish_packet name m)] else outbox s)
    \<and> outbox s2 = filter (\<lambda>(j, _). j \<noteq> i) (outbox s) \<and> outbox s3 = outbox s"
proof (intro conjI)
  have p: "published name m s rc s1" by (rule publish_box [OF assms(1-5)])
  then show "outbox s1 = (if rc = STATE_SUCCESS \<and> 0 < ti_qos m then outbox s @ [(ti_packet_id m, publish_packet name m)] else outbox s)"
    by (simp add: published_def split: if_splits)
  show "outbox s2 = filter (\<lambda>(j, _). j \<noteq> i) (outbox s)" by (rule box.acked [OF box_ack [OF assms(6)]])
  show "outbox s3 = outbox s" by (rule box.worked [OF box_work [OF assms(7)]])
qed

theorem outbox_refined_witness:
  "\<exists>rc s1 s3. MQTTPublish sample_hal [47, 97] sample_msg sample_client = Some (rc, s1)
    \<and> MQTTPubInfoProc sample_hal sample_client = Some (0, s3)
    \<and> outbox s1 = (if rc = 0 then [(0, publish_packet [47, 97] sample_msg)] else []) \<and> outbox s3 = []"
proof -
  have m: "message_ok [47, 97] sample_msg" by (simp add: message_ok_def sample_msg_def)
  have t: "unat (request_timeout_ms sample_client) \<le> 10000"
    using reachable_api_ok [OF sample_reachable] by (simp add: api_ok_def ok_def word_le_nat_alt)
  then obtain rc s1 where 1: "MQTTPublish sample_hal [47, 97] sample_msg sample_client = Some (rc, s1)"
    using MQTTPublish_returns [OF sample_clock m, of sample_client] by (auto simp: returns_def)
  obtain s3 where 2: "MQTTPubInfoProc sample_hal sample_client = Some (0, s3)"
    by (simp add: MQTTPubInfoProc_def prim_simps sample_probes)
  obtain rc2 s2 where 3: "iotx_mc_mask_pubInfo_from 0 sample_client = (rc2, s2)" by fastforce
  show ?thesis using outbox_refined [OF sample_clock m t 1 3 2] 1 2
    by (auto simp: outbox_def sample_probes sample_msg_def)
qed

text \<open>C6. Delivery at least once: through any sequence of publishes, acknowledgements and walks over the list, a
  message in the outbox stays there, byte for byte, until a PUBACK with its packet id arrives; and
  nothing is ever in the outbox that was not published.\<close>

theorem unacked_message_kept:
  assumes "event_run (client_box_step h) s es s'"
  shows "(\<forall>(i, p) \<in> set (outbox s). Acked i \<notin> set es \<longrightarrow> (i, p) \<in> set (outbox s'))
    \<and> (\<forall>(i, p) \<in> set (outbox s'). (i, p) \<in> set (outbox s) \<or> Posted i p \<in> set es)"
  using box.unacked_kept [OF assms] box.nothing_invented [OF assms] by auto

theorem unacked_message_kept_witness:
  "\<exists>s s'. outbox s = [(7, [0x32])] \<and> event_run (client_box_step sample_hal) s [Acked 3, Worked] s' \<and> (7, [0x32]) \<in> set (outbox s')"
proof -
  let ?s = "sample_client\<lparr>client_state := IOTX_MC_STATE_DISCONNECTED, list_pub_wait_ack := [\<lparr>pub_start_time = \<lparr>time = 0\<rparr>,
     node_state = IOTX_MC_NODE_STATE_NORMANL, msg_id = 7, pub_len = 1, pub_buf = [0x32]\<rparr>]\<rparr>"
  let ?s1 = "snd (iotx_mc_mask_pubInfo_from 3 ?s)"
  obtain s2 where 2: "MQTTPubInfoProc sample_hal ?s1 = Some (0, s2)"
    by (simp add: MQTTPubInfoProc_def prim_simps)
  have "client_box_step sample_hal ?s (Acked 3) ?s1"
    using box_ack [of 3 ?s "fst (iotx_mc_mask_pubInfo_from 3 ?s)" ?s1] by simp
  then have r: "event_run (client_box_step sample_hal) ?s [Acked 3, Worked] s2"
    by (rule run_Cons) (rule run_Cons [where s' = s2], rule box_work [OF 2], rule run_Nil)
  moreover have "outbox ?s = [(7, [0x32])]" by (simp add: outbox_def)
  moreover from this unacked_message_kept [OF r] have "(7, [0x32]) \<in> set (outbox s2)" by simp
  ultimately show ?thesis by blast
qed


section \<open>Delivery\<close>

definition recv_event :: "iotx_mqtt_topic_info_t \<Rightarrow> mc_lock list \<Rightarrow> iotx_mqtt_event_handle_t \<Rightarrow> mc_event" where
  "recv_event m locks hdl = Ev_callback (the (h_fp hdl)) (pcontext hdl)
     \<lparr>event_type = IOTX_MQTT_EVENT_PUBLISH_RECEIVED, msg = Msg_topic m\<rparr> locks"

text \<open>The handlers of a message: those with a callback whose filter is the topic or matches it.\<close>

definition handlers_for :: "bytes \<Rightarrow> mc \<Rightarrow> iotx_mc_topic_handle_t list" where
  "handlers_for name s = filter (\<lambda>n. (topic_filter n = name \<or> iotx_mc_is_topic_matched (Some (topic_filter n)) (Some name))
     \<and> h_fp (th_handle n) \<noteq> None) (list_sub_handle s)"

lemma equals_lenstring:
  "n \<le> length d \<Longrightarrow> MQTTPacket_equals \<lparr>cstring = None, lenstring_len = int n, lenstring_data = Some d\<rparr> f = Some (f = take n d)"
  by (auto simp: MQTTPacket_equals_def load_n_def Let_def)

lemma handle_event_effect:
  "handle_event_call hdl m s = (case h_fp hdl of None \<Rightarrow> (STATE_USER_INPUT_INVALID, s)
     | Some f \<Rightarrow> (STATE_SUCCESS, s\<lparr>in_yield_cb := False, events := events s @ [Ev_callback f (pcontext hdl) m (held s)]\<rparr>))"
  by (simp add: handle_event_call_def split: option.split)

text \<open>The loop runs with the generic lock on top and gives it back around every callback.\<close>

lemma deliver_loop_events:
  assumes "n \<le> length d" "held s = Lock_generic # hs" "\<not> lock_bad s" "\<not> in_yield_cb s" "below 4 (s\<lparr>held := hs\<rparr>)"
  defines "P \<equiv> \<lambda>nd. (topic_filter nd = take n d \<or> iotx_mc_is_topic_matched (Some (topic_filter nd)) (Some (take n d))) \<and> h_fp (th_handle nd) \<noteq> None"
  shows "deliver_loop \<lparr>cstring = None, lenstring_len = int n, lenstring_data = Some d\<rparr> (take n d) m l fl s =
    Some (fl \<or> filter P l \<noteq> [], s\<lparr>events := events s @ map (\<lambda>nd. recv_event m hs (th_handle nd)) (filter P l)\<rparr>)"
  using assms(2-5)
proof (induction l arbitrary: fl s)
  case (Cons a l)
  note eq = equals_lenstring [OF assms(1), of "topic_filter a"]
  let ?s = "s\<lparr>events := events s @ [recv_event m hs (th_handle a)]\<rparr>"
  have IH: "deliver_loop \<lparr>cstring = None, lenstring_len = int n, lenstring_data = Some d\<rparr> (take n d) m l fl' s' =
    Some (fl' \<or> filter P l \<noteq> [], s'\<lparr>events := events s' @ map (\<lambda>nd. recv_event m hs (th_handle nd)) (filter P l)\<rparr>)"
    if "s' = s \<or> s' = ?s" for fl' s'
    using that Cons.prems Cons.IH [of s' fl'] by (auto simp: below_def)
  have lk: "HAL_MutexLock Lock_generic (HAL_MutexUnlock Lock_generic s) = s"
    using Cons.prems by (simp add: prim_simps below_def)
  have cb: "HAL_MutexLock Lock_generic (snd (handle_event_call (th_handle a) \<lparr>event_type = IOTX_MQTT_EVENT_PUBLISH_RECEIVED, msg = Msg_topic m\<rparr>
      (HAL_MutexUnlock Lock_generic s))) = ?s" if "h_fp (th_handle a) \<noteq> None"
    using that Cons.prems by (auto simp: handle_event_effect prim_simps recv_event_def below_def)
  show ?case
  proof (cases "topic_filter a = take n d \<or> iotx_mc_is_topic_matched (Some (topic_filter a)) (Some (take n d))")
    case True
    then show ?thesis using lk cb by (auto simp: eq IH P_def Let_def)
  next
    case False
    then show ?thesis by (simp add: eq IH P_def)
  qed
qed (cases s; simp)


lemma identity_skipped:
  assumes "n \<le> length d" "n < 65536" "take n d \<noteq> identify_topic" "ti_ptopic m = Some d" "ti_topic_len m = of_nat n"
  shows "iotx_mc_parse_identity_response h m s = Some s"
proof -
  have "unat (of_nat n :: u16) = n" using assms(2) by (simp add: unat_of_nat take_bit_nat_eq_self)
  then show ?thesis using assms by (auto simp: iotx_mc_parse_identity_response_def load_n_def)
qed

text \<open>C22. A received message is delivered to exactly the subscribers it is for: the callbacks of all handlers
  whose filter equals the topic or matches it are called once each, in the order of subscription,
  with the topic and payload of the message and with the generic lock released; when no handler
  has a callback for it, the client's own event handler gets it, if there is one.  The rest
  of the client is unchanged.\<close>

theorem message_delivered:
  fixes m :: iotx_mqtt_topic_info_t and h :: hal
  assumes "n \<le> length d" "n < 65536" "take n d \<noteq> identify_topic" "\<not> lock_bad s" "\<not> in_yield_cb s" "below 4 s"
  defines "topic \<equiv> \<lparr>cstring = None, lenstring_len = int n, lenstring_data = Some d\<rparr>"
    and "m' \<equiv> m\<lparr>ti_ptopic := Some d, ti_topic_len := of_nat n\<rparr>"
    and "hs \<equiv> handlers_for (take n d) s"
  shows "iotx_mc_deliver_message h topic m s = Some (s\<lparr>events := events s @
     (if hs \<noteq> [] then map (\<lambda>nd. recv_event m' (held s) (th_handle nd)) hs
      else if h_fp (handle_event s) \<noteq> None then [recv_event m' (held s) (handle_event s)] else [])\<rparr>)"
proof -
  let ?l = "HAL_MutexLock Lock_generic s"
  have id: "iotx_mc_parse_identity_response h m' s = Some s"
    by (rule identity_skipped [OF assms(1-3)]) (simp_all add: m'_def)
  have dl: "deliver_loop topic (take n d) m' (list_sub_handle ?l) False ?l =
      Some (hs \<noteq> [], ?l\<lparr>events := events s @ map (\<lambda>nd. recv_event m' (held s) (th_handle nd)) hs\<rparr>)"
    unfolding topic_def using deliver_loop_events [OF assms(1), of ?l "held s" m' "list_sub_handle s" False] assms(4-6)
    by (simp add: prim_simps hs_def handlers_for_def below_def)
  have u: "HAL_MutexUnlock Lock_generic (?l\<lparr>events := e\<rparr>) = s\<lparr>events := e\<rparr>" for e
    using assms(4,6) by (simp add: prim_simps)
  have "iotx_mc_deliver_message h topic m s = deliver_loop topic (take n d) m' (list_sub_handle ?l) False ?l \<bind> (\<lambda>(flag_matched, s).
     let s = HAL_MutexUnlock Lock_generic s in
     Some (if \<not> flag_matched \<and> h_fp (handle_event s) \<noteq> None
           then snd (handle_event_call (handle_event s) \<lparr>event_type = IOTX_MQTT_EVENT_PUBLISH_RECEIVED, msg = Msg_topic m'\<rparr> s)
           else s))"
    using id assms(1) unfolding m'_def iotx_mc_deliver_message_def topic_def Let_def MQTTString.select_convs of_int_of_nat_eq
    by (simp add: load_i_def load_n_def)
  then show ?thesis using assms(5)
    by (auto simp: dl u handle_event_effect recv_event_def Let_def split: option.split)
qed

theorem message_delivered_witness:
  "iotx_mc_deliver_message sample_hal \<lparr>cstring = None, lenstring_len = 3, lenstring_data = Some [47, 97, 98, 1, 2]\<rparr> sample_msg
     (sample_client\<lparr>list_sub_handle := [\<lparr>topic_type = TOPIC_NAME_TYPE, th_handle = \<lparr>h_fp = Some 5, pcontext = 6\<rparr>, topic_filter = [47, 43]\<rparr>]\<rparr>)
   = Some (sample_client\<lparr>list_sub_handle := [\<lparr>topic_type = TOPIC_NAME_TYPE, th_handle = \<lparr>h_fp = Some 5, pcontext = 6\<rparr>, topic_filter = [47, 43]\<rparr>],
       events := [recv_event (sample_msg\<lparr>ti_ptopic := Some [47, 97, 98, 1, 2], ti_topic_len := 3\<rparr>) [] \<lparr>h_fp = Some 5, pcontext = 6\<rparr>]\<rparr>)"
proof -
  let ?s = "sample_client\<lparr>list_sub_handle := [\<lparr>topic_type = TOPIC_NAME_TYPE, th_handle = \<lparr>h_fp = Some 5, pcontext = 6\<rparr>, topic_filter = [47, 43]\<rparr>]\<rparr>"
  have a: "\<not> lock_bad ?s" "\<not> in_yield_cb ?s" "below 4 ?s" "held ?s = []"
    using reachable_api_ok [OF sample_reachable] by (simp_all add: api_ok_def ok_def below_def)
  have h: "handlers_for [47, 97, 98] ?s = list_sub_handle ?s"
    by (simp add: handlers_for_def iotx_mc_is_topic_matched_def)
  show ?thesis
    using message_delivered [of 3 "[47, 97, 98, 1, 2]" ?s sample_hal sample_msg] a h
    by (simp add: identify_topic_def sample_probes)
qed


section \<open>A dead link\<close>

lemma wp_conj: "wp P m \<Longrightarrow> wp Q m \<Longrightarrow> wp (\<lambda>r s. P r s \<and> Q r s) m"
  by (simp add: wp_def)

lemma keepalive_state: "wp (\<lambda>r s'. client_state s' = client_state s) (MQTTKeepalive h s)"
  unfolding MQTTKeepalive_def Let_def
  by (auto simp: prim_simps send_exit_def Let_def split_beta intro!: wp_if wp_send wp_codec)

text \<open>A ping that is due: the state in which it is sent.\<close>

definition ping_state :: "hal \<Rightarrow> mc \<Rightarrow> mc" where
  "ping_state h s = (let e = snd (time_is_expired h (next_ping_time s) s);
     ct = time_countdown h (of_nat (unat (keepAliveInterval (connect_data e)) * 1000)) e
     in (snd ct)\<lparr>next_ping_time := fst ct\<rparr>)"

lemma keepalive_sub_due:
  assumes "ok s" "below 4 s" "client_state s = IOTX_MC_STATE_CONNECTED" "fst (time_is_expired h (next_ping_time s) s)"
  shows "iotx_mc_keepalive_sub h s = MQTTKeepalive h (ping_state h s) \<bind> (\<lambda>(rc, s). if rc < STATE_SUCCESS
      then Some (rc, if rc = STATE_SYS_DEPEND_NWK_CLOSE then iotx_mc_set_client_state IOTX_MC_STATE_DISCONNECTED s else s)
      else Some (STATE_SUCCESS, s\<lparr>keepalive_probes := keepalive_probes s + 1\<rparr>))"
proof -
  have "wrapper_mqtt_check_state s = (True, s)" using assms(1-3) by (simp add: client_state_effects ok_def)
  then show ?thesis using assms(4) by (simp add: iotx_mc_keepalive_sub_def Let_def split_beta ping_state_def)
qed

text \<open>C23. A dead link is noticed: when the third keep-alive probe in a row is sent without anything having
  been received (the open probes go from two to three), the very next turn of the
  receive cycle puts the client offline without touching the network, and starts the count afresh.\<close>

theorem dead_link_detected:
  assumes "ok s" "below 1 s" "client_state s = IOTX_MC_STATE_CONNECTED" "keepalive_probes s = 2"
    and "fst (time_is_expired h (next_ping_time s) s)" "iotx_mc_keepalive_sub h s = Some (STATE_SUCCESS, s1)"
  shows "keepalive_probes s1 = 3
    \<and> iotx_mc_cycle h t s1 = Some (STATE_MQTT_IN_OFFLINE_STATUS,
        s1\<lparr>client_state := IOTX_MC_STATE_DISCONNECTED, keepalive_probes := 0\<rparr>)"
proof -
  have b: "below 3 s" "below 4 s" using below_mono [OF assms(2)] by simp_all
  define k where "k = ping_state h s"
  have k: "ok k" "below 3 k" "below 4 k" "client_state k = IOTX_MC_STATE_CONNECTED" "keepalive_probes k = 2"
    using assms b by (simp_all add: k_def ping_state_def prim_simps inv_defs Let_def)
  have w: "wp (\<lambda>r s'. (ok s' \<and> keeps_all k s') \<and> client_state s' = client_state k) (MQTTKeepalive h k)"
    by (rule wp_conj [OF MQTTKeepalive_ok [OF k(1,2)] keepalive_state])
  note eq = keepalive_sub_due [OF assms(1) b(2) assms(3,5), folded k_def]
  have "wp (\<lambda>r s'. r = STATE_SUCCESS \<longrightarrow> ok s' \<and> below 4 s' \<and> client_state s' = IOTX_MC_STATE_CONNECTED \<and> keepalive_probes s' = 3)
      (iotx_mc_keepalive_sub h s)"
    unfolding eq by (rule wp_call [OF w]) (use k(3-5) in \<open>auto simp: step_defs\<close>)
  with assms(6) have s1: "ok s1" "below 4 s1" "client_state s1 = IOTX_MC_STATE_CONNECTED" "keepalive_probes s1 = 3"
    by (simp_all add: wp_def)
  then show ?thesis by (simp add: iotx_mc_cycle_def client_state_effects below_def ok_def)
qed


text \<open>On the sample platform a packet goes out in one write.\<close>

lemma sample_send:
  assumes "0 < len" "len \<le> length buf" "\<not> fst (time_is_expired sample_hal t s)"
  shows "\<exists>k. iotx_mc_send_packet sample_hal buf len t s = Some (STATE_SUCCESS, s\<lparr>tick := k, sent := sent s @ take len buf\<rparr>)"
proof -
  have w: "fst (utils_net_write sample_hal bs l s') = int (length bs)" for bs l s'
    by (simp add: utils_net_write_def sample_hal_def Let_def)
  have "send_loop sample_hal t (take len buf) len s' = Some (len, s')" for s'
    by (subst send_loop.simps) (simp add: assms(2))
  then have "send_loop sample_hal t (take len buf) 0 s = Some (len, s\<lparr>tick := Suc (Suc (tick s) + left_ticks sample_hal t (s\<lparr>tick := Suc (tick s)\<rparr>)),
      sent := sent s @ take len buf\<rparr>)"
    using assms by (subst send_loop.simps) (simp add: split_beta prim_simps w)
  then show ?thesis using assms(2) by (auto simp: iotx_mc_send_packet_def load_n_def)
qed

lemma sample_ping:
  assumes "64 \<le> buf_size_send_max s"
  shows "\<exists>s'. MQTTKeepalive sample_hal s = Some (STATE_SUCCESS, s')"
proof -
  define t where "t = fst (time_countdown sample_hal 1000 s)"
  have c: "time_countdown sample_hal 1000 s = (t, s\<lparr>tick := Suc (tick s)\<rparr>)"
    unfolding t_def by (rule prod_eqI) (simp_all add: prim_simps)
  have z: "MQTTSerialize_pingreq (replicate 64 0) 64 = Some (2, [0xC0, 0] @ replicate 62 0)"
    using zero.ser_written [of 64 "replicate 64 0" PINGREQ]
    by (simp add: MQTTSerialize_pingreq_def ser_zero_def mqtt_frame_def rem_len_bytes.simps [of 0] MQTT_HEADER_SET_TYPE_def)
  have d: "\<not> fst (time_is_expired sample_hal t s')" if "tick s' = tick s + 2" for s'
    using expired_iff [OF countdown_due_later [OF sample_clock(1) that, of 1000]] by (simp add: t_def that sample_hal_def)
  have m: "hal_malloc sample_hal k n" for k n by (simp add: sample_hal_def)
  let ?s = "s\<lparr>held := Lock_write_buf # held s, lock_bad := (lock_bad s \<or> \<not> below 3 s), tick := tick s + 2,
      buf_size_send := 64, buf_send := Some ([0xC0, 0] @ replicate 62 0)\<rparr>"
  obtain k where k: "iotx_mc_send_packet sample_hal ([0xC0, 0] @ replicate 62 0) 2 t ?s = Some (STATE_SUCCESS, ?s\<lparr>tick := k, sent := sent s @ [0xC0, 0]\<rparr>)"
    using sample_send [of 2 "[0xC0, 0] @ replicate 62 0" t ?s] d [of ?s] by auto
  have "send_buf_len 0 (s\<lparr>tick := i, held := x, lock_bad := y\<rparr>) = 64" for i x y
    using assms by (simp add: send_buf_len_def min_def)
  then show ?thesis using k
    unfolding MQTTKeepalive_def Let_def c prod.case by (simp add: alloc_send_effect Let_def m prim_simps z below_def)
qed


theorem dead_link_detected_witness:
  "\<exists>s1. iotx_mc_keepalive_sub sample_hal (sample_online\<lparr>keepalive_probes := 2, next_ping_time := \<lparr>time = 0\<rparr>\<rparr>) = Some (0, s1)
    \<and> keepalive_probes s1 = 3 \<and> fst (the (iotx_mc_cycle sample_hal \<lparr>time = 0\<rparr> s1)) = STATE_MQTT_IN_OFFLINE_STATUS"
proof -
  let ?s = "sample_online\<lparr>keepalive_probes := 2, next_ping_time := \<lparr>time = 0\<rparr>\<rparr>"
  have s: "ok ?s" "below 1 ?s" "below 4 ?s" "client_state ?s = IOTX_MC_STATE_CONNECTED"
    using sample_online_ok by (simp_all add: api_ok_def step_defs)
  have t: "tick sample_client = 6" "buf_size_send_max sample_client = 1024"
    unfolding init_success(2) [OF sample_init]
    by (simp_all add: prim_simps mc_init_params_def iotx_mc_set_connect_params_def init_state_def client_zero_def Let_def split_beta
        iotx_net_init_def sample_params_def sample_env_def)
  have e: "fst (time_is_expired sample_hal (next_ping_time ?s) ?s)"
    by (simp add: time_is_expired_def HAL_UptimeMs_eq sample_online_def t sample_hal_def utils_time_is_expired_def UINT32_MAX_def)
  obtain s' where "MQTTKeepalive sample_hal (ping_state sample_hal ?s) = Some (STATE_SUCCESS, s')"
    using sample_ping [of "ping_state sample_hal ?s"] by (auto simp: sample_online_def t ping_state_def Let_def prim_simps)
  then obtain s1 where s1: "iotx_mc_keepalive_sub sample_hal ?s = Some (STATE_SUCCESS, s1)"
    using keepalive_sub_due [OF s(1,3,4) e] by simp
  show ?thesis using dead_link_detected [OF s(1,2,4) _ e s1, of "\<lparr>time = 0\<rparr>"] s1 by simp
qed

end
