(* ===== verification/MQTT_Client_Edges.thy ===== *)
theory MQTT_Client_Edges
  imports MQTT_Client_Props
begin

text \<open>
  Packet identifiers, initialisation and the report of a lost connection; and three places where
  the client does not do what its interface says: unsubscribing, a wrong password, and a
  failed initialisation.
\<close>

section \<open>Packet identifiers\<close>

fun draw_ids :: "nat \<Rightarrow> mc \<Rightarrow> nat list \<times> mc" where
  "draw_ids 0 s = ([], s)"
| "draw_ids (Suc n) s = (let (i, s) = iotx_mc_get_next_packetid s; (is, s) = draw_ids n s in (i # is, s))"

lemma draw_ids_eq:
  "packet_id s \<le> 65535 \<Longrightarrow> fst (draw_ids n s) = map (\<lambda>k. (packet_id s + k) mod 65535 + 1) [0..<n]"
proof (induction n arbitrary: s)
  case (Suc n)
  let ?i = "if packet_id s = 65535 then 1 else packet_id s + 1"
  have i: "?i = packet_id s mod 65535 + 1" using Suc.prems by (cases "packet_id s = 65535") auto
  have "(?i + k) mod 65535 = (packet_id s + Suc k) mod 65535" for k
    unfolding i by (metis add_Suc_right add_Suc_shift mod_add_left_eq Suc_eq_plus1)
  moreover have "fst (draw_ids n (snd (iotx_mc_get_next_packetid s))) = map (\<lambda>k. (?i + k) mod 65535 + 1) [0..<n]"
    using Suc.IH [of "snd (iotx_mc_get_next_packetid s)"] Suc.prems by (simp add: get_next_packetid_effect Let_def)
  moreover have "fst (iotx_mc_get_next_packetid s) = packet_id s mod 65535 + 1"
    using i by (simp add: get_next_packetid_effect Let_def)
  ultimately show ?case
    by (simp add: split_beta Let_def map_upt_Suc del: upt_Suc)
qed simp

text \<open>C35. Packet identifiers are never 0 and are not reused before all 65535 of them have been given
  out: successive calls count up from the last one and wrap from 65535 to 1.\<close>

theorem packet_ids_cycle:
  assumes "packet_id s \<le> 65535" "n \<le> 65535"
  shows "fst (draw_ids n s) = map (\<lambda>k. (packet_id s + k) mod 65535 + 1) [0..<n]
    \<and> distinct (fst (draw_ids n s)) \<and> set (fst (draw_ids n s)) \<subseteq> {1..65535}"
proof -
  have le: "i = j" if "(packet_id s + i) mod 65535 = (packet_id s + j) mod 65535" "i < n" "j < n" "j \<le> i" for i j
  proof -
    have "65535 dvd i - j" using that mod_eq_dvd_iff_nat [of "packet_id s + j" "packet_id s + i" 65535] by simp
    then show ?thesis using that assms(2) dvd_imp_le [of 65535 "i - j"] by fastforce
  qed
  have eq: "i = j" if "(packet_id s + i) mod 65535 = (packet_id s + j) mod 65535" "i < n" "j < n" for i j
    using that le [of i j] le [of j i] by (cases "j \<le> i") auto
  have "inj_on (\<lambda>k. (packet_id s + k) mod 65535 + 1) (set [0..<n])"
    by (rule inj_onI, rule eq) simp_all
  then have "distinct (map (\<lambda>k. (packet_id s + k) mod 65535 + 1) [0..<n])" by (simp only: distinct_map distinct_upt simp_thms)
  moreover have "(packet_id s + k) mod 65535 + 1 \<in> {1..65535}" for k
    using mod_less_divisor [of 65535 "packet_id s + k"] by (simp add: Suc_le_eq)
  ultimately show ?thesis unfolding draw_ids_eq [OF assms(1)] by auto
qed

theorem packet_ids_cycle_witness: "fst (draw_ids 3 (sample_client\<lparr>packet_id := 65534\<rparr>)) = [65535, 1, 2]"
  using packet_ids_cycle [of "sample_client\<lparr>packet_id := 65534\<rparr>" 3] by (simp add: upt_rec)


section \<open>Losing the connection\<close>

text \<open>C36. A lost connection is reported and repaired in order: the first keep-alive step after the
  client went offline calls the user's event handler once with the disconnect event, closes the network
  channel, sets the reconnection interval back to one second, arms the reconnection timer with it
  and moves to the reconnecting state; it sends nothing.\<close>

theorem disconnect_reported:
  assumes "ok s" "below 1 s" "client_state s = IOTX_MC_STATE_DISCONNECTED"
  shows "\<exists>s'. iotx_mc_keepalive h s = Some ((), s') \<and> client_state s' = IOTX_MC_STATE_DISCONNECTED_RECONNECTING
    \<and> handle (ipstack s') = 0 \<and> sent s' = sent s
    \<and> reconnect_param s' = \<lparr>reconnect_next_time = \<lparr>time = uptime_at (hal_uptime h (tick s) + 1000)\<rparr>, reconnect_time_interval_ms = 1000\<rparr>
    \<and> events s' = events s @ (case h_fp (handle_event s) of None \<Rightarrow> []
        | Some f \<Rightarrow> [Ev_callback f (pcontext (handle_event s)) \<lparr>event_type = IOTX_MQTT_EVENT_DISCONNECT, msg = Msg_null\<rparr> (held s)])"
proof -
  have c: "wrapper_mqtt_check_state s = (False, s)" "iotx_mc_get_client_state s = (IOTX_MC_STATE_DISCONNECTED, s)"
    using assms below_mono [OF assms(2), of 4] by (simp_all add: client_state_effects ok_def)
  have "iotx_mc_keepalive_sub h s = Some (STATE_SUCCESS, s)" by (simp add: iotx_mc_keepalive_sub_def c)
  then show ?thesis using assms(3)
    by (cases "reconnect_param s"; cases "h_fp (handle_event s)")
      (simp_all add: iotx_mc_keepalive_def c(2) split_beta iotx_mc_disconnect_callback_def direct_callback_def
        set_reconnect_interval_def countdown_timer prim_simps)
qed

theorem disconnect_reported_witness:
  "\<exists>s'. iotx_mc_keepalive sample_hal (sample_client\<lparr>client_state := IOTX_MC_STATE_DISCONNECTED\<rparr>) = Some ((), s')
    \<and> client_state s' = IOTX_MC_STATE_DISCONNECTED_RECONNECTING"
proof -
  have "ok (sample_client\<lparr>client_state := IOTX_MC_STATE_DISCONNECTED\<rparr>)" "below 1 (sample_client\<lparr>client_state := IOTX_MC_STATE_DISCONNECTED\<rparr>)"
    using reachable_api_ok [OF sample_reachable] by (simp_all add: api_ok_def step_defs)
  from disconnect_reported [OF this, of sample_hal] show ?thesis by auto
qed

section \<open>Deviations\<close>

lemma match_without_wildcards:
  "set g \<inter> {35, 43} = {} \<Longrightarrow> topic_match_loop g n = ([], []) \<Longrightarrow> g = n"
  by (induction g n rule: topic_match_loop.induct) (auto split: if_splits)

lemma unsub_keeps:
  assumes "unsub_loop \<lparr>cstring = None, lenstring_len = int (length f) + 1, lenstring_data = Some (f @ [0])\<rparr> (f @ [0]) l = Some l'"
    and "nd \<in> set l" "set (topic_filter nd) \<inter> {0, 35, 43} = {}"
  shows "nd \<in> set l'"
  using assms
proof (induction l arbitrary: l')
  case (Cons a l)
  have e: "MQTTPacket_equals \<lparr>cstring = None, lenstring_len = int (length f) + 1, lenstring_data = Some (f @ [0])\<rparr> g = Some (g = f @ [0])" for g
    using equals_lenstring [of "length f + 1" "f @ [0]" g] by (simp add: add.commute)
  have k: "\<not> iotx_mc_is_topic_matched (Some (topic_filter nd)) (Some (f @ [0]))" "topic_filter nd \<noteq> f @ [0]"
    using Cons.prems(3) match_without_wildcards [of "topic_filter nd" "f @ [0]"]
    by (auto simp: iotx_mc_is_topic_matched_def)
  obtain r where r: "unsub_loop \<lparr>cstring = None, lenstring_len = int (length f) + 1, lenstring_data = Some (f @ [0])\<rparr> (f @ [0]) l = Some r"
    "l' = (if topic_filter a = f @ [0] \<or> iotx_mc_is_topic_matched (Some (topic_filter a)) (Some (f @ [0])) then r else a # r)"
    using Cons.prems(1) by (auto simp: e split: Option.bind_splits)
  with Cons.IH [OF r(1)] Cons.prems k show ?case by auto
qed simp

lemma returns_opt: "\<exists>a b. x = Some (a, b) \<and> P a b \<Longrightarrow> (\<And>a b. P a b \<Longrightarrow> returns Q (f (a, b))) \<Longrightarrow> returns Q (x \<bind> f)"
  by auto

lemma returns_opt1: "\<exists>v. x = Some v \<Longrightarrow> (\<And>v. returns Q (f v)) \<Longrightarrow> returns Q (x \<bind> f)"
  by auto

lemma unsub_total:
  "\<exists>l'. unsub_loop \<lparr>cstring = None, lenstring_len = int (length f) + 1, lenstring_data = Some (f @ [0])\<rparr> (f @ [0]) l = Some l'"
proof (induction l)
  case (Cons a l)
  then show ?case using equals_lenstring [of "length f + 1" "f @ [0]" "topic_filter a"] by (auto simp: add.commute)
qed simp

lemma MQTTUnsubscribe_returns:
  assumes "clock_runs h" "writes_ok h" "unat (request_timeout_ms s) \<le> 10000" "length f < 65536"
  shows "returns (\<lambda>rc s'. True) (MQTTUnsubscribe h f i s)"
proof -
  define t where "t = fst (time_countdown h (request_timeout_ms s) s)"
  have c: "time_countdown h (request_timeout_ms s) s = (t, s\<lparr>tick := Suc (tick s)\<rparr>)"
    unfolding t_def by (rule prod_eqI) (simp_all add: prim_simps)
  have m: "HAL_Malloc h n s' = (hal_malloc h (tick s') n, s'\<lparr>tick := Suc (tick s')\<rparr>)" for n s'
    by (simp add: HAL_Malloc_def ticked_def)
  have d: "timer_due h t (hal_uptime h (tick s) + unat (request_timeout_ms s)) s'" if "tick s' = tick s + 4" for s'
    unfolding t_def by (rule countdown_due_later [OF assms(1) that]) (use assms(3) in simp_all)
  have u: "unsubscribe_ok (0, of_nat i, [MQTTString_initializer\<lparr>cstring := Some f\<rparr>])"
    using assms(4) by (simp add: unsubscribe_ok_def mqtt_string_ok_def MQTTString_initializer_def unsubscribe_filter_bytes_def mqtt_text_def)
  have n: "send_buf_len (int (length f)) s' < 2147483648" for s'
    using assms(4) by (simp add: send_buf_len_def)
  have ser: "\<exists>len b. MQTTSerialize_unsubscribe (replicate n 0) (to_s32 (int n)) 0 (of_nat i) [MQTTString_initializer\<lparr>cstring := Some f\<rparr>] = Some (len, b)
      \<and> nat len \<le> length b" if "n < 2147483648" for n
    using unsub.ser_safe [OF u, of "int n" "replicate n 0"] that by (auto simp: ser_unsubscribe_def)
  show ?thesis
    unfolding MQTTUnsubscribe_def Let_def c prod.case m lock_effects
    by (auto simp: alloc_send_effect Let_def split_beta intro!: returns_if returns_opt [OF ser [OF n]]
      returns_send [OF assms(1,2) d] returns_opt1 [OF unsub_total])
qed

text \<open>Unsubscribing leaves the handlers in place.  On a platform whose clock runs the call returns; whatever topic is
  unsubscribed and whether or not the call succeeds, every handler whose filter has no wildcard is
  still registered afterwards, the one of the very topic included.  The length of the topic is
  computed with its terminating NUL, so that it never equals a filter.\<close>

lemma unsubscribe_keeps_handlers:
  assumes "clock_runs h" "writes_ok h" "unat (request_timeout_ms s) \<le> 10000" "length f < 65536"
    and "nd \<in> set (list_sub_handle s)" "set (topic_filter nd) \<inter> {0, 35, 43} = {}"
  shows "\<exists>rc s'. MQTTUnsubscribe h f i s = Some (rc, s') \<and> nd \<in> set (list_sub_handle s')"
proof -
  have "wp (\<lambda>r s'. nd \<in> set (list_sub_handle s')) (MQTTUnsubscribe h f i s)"
    unfolding MQTTUnsubscribe_def Let_def bind_if
    by (auto simp: prim_simps send_exit_def Let_def split_beta assms(5,6) dest: unsub_keeps [OF _ assms(5,6)]
        intro!: wp_if wp_send wp_codec)
  moreover have "\<exists>rc s'. MQTTUnsubscribe h f i s = Some (rc, s')"
    using MQTTUnsubscribe_returns [OF assms(1-4)] by (simp add: returns_def)
  ultimately show ?thesis by (auto simp: wp_def)
qed

text \<open>A client with one handler, for the topic \<open>/a\<close>.\<close>

definition sample_handler :: iotx_mc_topic_handle_t where
  "sample_handler = \<lparr>topic_type = TOPIC_NAME_TYPE, th_handle = \<lparr>h_fp = Some 5, pcontext = 6\<rparr>, topic_filter = [47, 97]\<rparr>"

text \<open>What the client makes of the return code of a CONNACK.\<close>

lemma connack_value:
  assumes "buf_read s = Some (0x20 # 2 # fl # c # rest)"
  shows "iotx_mc_handle_recv_CONNACK s = Some (
     if c = 0 then STATE_SUCCESS else if c = 1 then STATE_MQTT_CONNACK_VERSION_UNACCEPT
     else if c = 2 then STATE_MQTT_CONNACK_IDENT_REJECT else if c = 3 then STATE_MQTT_CONNACK_SERVICE_NA
     else if c = 4 then STATE_MQTT_CONNACK_BAD_USERDATA else if c = 5 then STATE_MQTT_CONNACK_NOT_AUTHORIZED
     else STATE_MQTT_CONNACK_UNKNOWN_ERROR)"
proof -
  have "MQTTPacket_decodeBuf (0x20 # 2 # fl # c # rest) 1 = Some (1, 2)"
    by (simp add: MQTTPacket_decodeBuf_def MQTTPacket_decode_def decode_loop_step load_def)
  then show ?thesis using assms
    by (simp add: iotx_mc_handle_recv_CONNACK_def MQTTDeserialize_connack_def readChar_def load_def header_get_defs)
qed

text \<open>A wrong password is not taken for a rejection.  Of the six codes of a CONNACK the connection loop
  gives up at once on 1, 2, 3 and 5 (unacceptable version, rejected identifier, server unavailable, not
  authorised), closing the channel and returning the mapped code; on code 4, bad user name or password, whose
  state code lies outside of the range that is compared, it sleeps, reconnects and tries again.\<close>

lemma wrong_password_retried:
  assumes "buf_read b = Some (0x20 # 2 # fl # c # rest)"
  shows "\<exists>rc. iotx_mc_handle_recv_CONNACK b = Some rc \<and> (rc = STATE_SUCCESS) = (c = 0)
    \<and> (\<forall>h ka n s s1 s2. n + 1 < RETRY_TIME_LIMIT \<and> MQTTConnect h s = Some (STATE_SUCCESS, s1)
        \<and> iotx_mc_wait_CONNACK h (s1\<lparr>connect_data := (connect_data s1)\<lparr>keepAliveInterval := ka\<rparr>\<rparr>) = Some (rc, s2) \<longrightarrow>
        mqtt_connect_loop h ka n s =
          (if c = 0 then Some (Inr n, s2)
           else if c \<in> {1, 2, 3, 5} then Some (Inl rc, snd (iotx_net_disconnect s2))
           else mqtt_connect_loop h ka (n + 1) (snd (iotx_net_connect h (snd (iotx_net_disconnect (HAL_SleepMs 2000 s2)))))))"
proof -
  obtain rc where rc: "iotx_mc_handle_recv_CONNACK b = Some rc" using connack_value [OF assms] by blast
  have e: "rc = 0 \<longleftrightarrow> c = 0" "rc \<le> -0x301 \<and> rc \<ge> -0x304 \<longleftrightarrow> c \<in> {1, 2, 3, 5}"
    using rc unfolding connack_value [OF assms] by (auto split: if_splits)
  have "mqtt_connect_loop h ka n s =
      (if c = 0 then Some (Inr n, s2)
       else if c \<in> {1, 2, 3, 5} then Some (Inl rc, snd (iotx_net_disconnect s2))
       else mqtt_connect_loop h ka (n + 1) (snd (iotx_net_connect h (snd (iotx_net_disconnect (HAL_SleepMs 2000 s2))))))"
    if "n + 1 < RETRY_TIME_LIMIT" "MQTTConnect h s = Some (STATE_SUCCESS, s1)"
      "iotx_mc_wait_CONNACK h (s1\<lparr>connect_data := (connect_data s1)\<lparr>keepAliveInterval := ka\<rparr>\<rparr>) = Some (rc, s2)" for h ka n s s1 s2
    using that e by (subst mqtt_connect_loop.simps) (auto simp: Let_def)
  with rc e(1) show ?thesis by blast
qed

lemma init_params_frame:
  "mutexes (snd (mc_init_params params t)) = mutexes t" "lock_list_pub (snd (mc_init_params params t)) = lock_list_pub t"
  "lock_write_buf (snd (mc_init_params params t)) = lock_write_buf t" "lock_read_buf (snd (mc_init_params params t)) = lock_read_buf t"
  "lock_yield (snd (mc_init_params params t)) = lock_yield t"
  by (cases "p_host params"; simp add: mc_init_params_def iotx_mc_set_connect_params_def iotx_net_init_def Let_def)+

text \<open>Initialisation: a client that is returned has its five mutexes and is in the initialised state; when
  initialisation fails after the first mutex was created, nothing else of the client is left, but
  that mutex is never destroyed: \<open>iotx_mc_init\<close> gives back the other four only.\<close>

lemma failed_init_leaks_mutex:
  assumes "hal_malloc h (tick s) (hal_sizeof_client h)" "hal_mutex h (tick s + 1)" "0 < p_write_buf_size params" "0 < p_read_buf_size params"
    and "wrapper_mqtt_init h params s = (r, s')"
  shows "mutexes s' = mutexes s + (if r then 5 else 1) \<and> client_state s' = (if r then IOTX_MC_STATE_INITIALIZED else IOTX_MC_STATE_INVALID)
    \<and> (\<not> r \<longrightarrow> \<not> lock_generic s')"
proof (cases r)
  case True
  then have i: "wrapper_mqtt_init h params s = (True, s')" using assms(5) by simp
  show ?thesis using True unfolding init_success(2) [OF i]
    by (simp add: init_params_frame client_state_effects init_state_def client_zero_def)
next
  case False
  let ?z = "client_zero (s\<lparr>tick := Suc (tick s)\<rparr>)"
  have z: "tick ?z = Suc (tick s)" "mutexes ?z = mutexes s" by (simp_all add: client_zero_def)
  have e: "mutexes (snd (mc_init_exit rc st t)) = mutexes t - (if lock_list_pub t then 1 else 0) - (if lock_write_buf t then 1 else 0)
      - (if lock_read_buf t then 1 else 0) - (if lock_yield t then 1 else 0)" if "rc < 0" for rc st t
    using that by (simp add: mc_init_exit_def client_state_effects HAL_MutexDestroy_def Let_def)
  have l: "\<not> lock_list_pub ?z" "\<not> lock_write_buf ?z" "\<not> lock_read_buf ?z" "\<not> lock_yield ?z" by (simp_all add: client_zero_def)
  have f: "wrapper_mqtt_init h params s = (let r = iotx_mc_init h params ?z in if fst r < 0 then (False, client_zero (snd r)) else (True, snd r))"
    using assms(1) by (simp add: wrapper_mqtt_init_def HAL_Malloc_def ticked_def split_beta Let_def)
  have "fst (iotx_mc_init h params ?z) < 0 \<Longrightarrow> mutexes (snd (iotx_mc_init h params ?z)) = mutexes s + 1"
    using assms(2-4)
    by (auto simp: init_params_frame iotx_mc_init_def prim_simps split_beta Let_def z e init_exit_rc init_params_rc l split: if_splits)
  then show ?thesis using False assms(5) unfolding f by (auto simp: Let_def client_zero_def split: if_splits)
qed


end
