(* ===== verification/CoAP_Packet.thy ===== *)
theory CoAP_Packet
  imports Prelude
begin

text \<open>
  The CoAP message codec, \<open>src/eng/coap/CoAPPacket\<close>: the message structure with its options
  (\<open>CoAPMessage_common.c\<close>), the serialiser (\<open>CoAPSerialize_common.c\<close>) and the parser
  (\<open>CoAPDeserialize_common.c\<close>).  A buffer is a byte object with a position; lengths of C type
  \<open>unsigned short\<close> are natural numbers with the reduction modulo 65536 written out where a
  computation can exceed it.  A pointer stored in a message is the list of the bytes from the
  pointer to the end of its object.
\<close>

section \<open>Messages\<close>

abbreviation (input) COAP_SUCCESS :: int where "COAP_SUCCESS \<equiv> 0"
abbreviation (input) COAP_ERROR_INVALID_PARAM :: int where "COAP_ERROR_INVALID_PARAM \<equiv> 0x101"
abbreviation (input) COAP_ERROR_NULL :: int where "COAP_ERROR_NULL \<equiv> 0x102"
abbreviation (input) COAP_ERROR_MALLOC :: int where "COAP_ERROR_MALLOC \<equiv> 0x103"
abbreviation (input) COAP_ERROR_INVALID_LENGTH :: int where "COAP_ERROR_INVALID_LENGTH \<equiv> 0x104"
abbreviation (input) COAP_ERROR_DATA_SIZE :: int where "COAP_ERROR_DATA_SIZE \<equiv> 0x105"
abbreviation (input) COAP_ERROR_NOT_FOUND :: int where "COAP_ERROR_NOT_FOUND \<equiv> 0x107"
abbreviation (input) COAP_ERROR_WRITE_FAILED :: int where "COAP_ERROR_WRITE_FAILED \<equiv> 0x10A"
abbreviation (input) COAP_MSG_MAX_TOKEN_LEN :: nat where "COAP_MSG_MAX_TOKEN_LEN \<equiv> 8"
abbreviation (input) COAP_MSG_MAX_OPTION_NUM :: nat where "COAP_MSG_MAX_OPTION_NUM \<equiv> 12"
abbreviation (input) COAP_MESSAGE_TYPE_CON :: byte where "COAP_MESSAGE_TYPE_CON \<equiv> 0"
abbreviation (input) COAP_MESSAGE_TYPE_NON :: byte where "COAP_MESSAGE_TYPE_NON \<equiv> 1"
abbreviation (input) COAP_MESSAGE_TYPE_ACK :: byte where "COAP_MESSAGE_TYPE_ACK \<equiv> 2"
abbreviation (input) COAP_MESSAGE_TYPE_RST :: byte where "COAP_MESSAGE_TYPE_RST \<equiv> 3"
abbreviation (input) COAP_MSG_CODE_EMPTY_MESSAGE :: byte where "COAP_MSG_CODE_EMPTY_MESSAGE \<equiv> 0"

text \<open>The bit fields \<open>version\<close>, \<open>type\<close> and \<open>tokenlen\<close> have 2, 2 and 4 bits; every value stored
  in them fits.\<close>

record CoAPMsgHeader =
  version :: byte
  type :: byte
  tokenlen :: byte
  code :: byte
  msgid :: u16

record CoAPMsgOption =
  num :: u16
  len :: u16
  val :: "bytes option"

record CoAPMessage =
  header :: CoAPMsgHeader
  token :: bytes
  options :: "CoAPMsgOption list"
  optcount :: nat
  optdelta :: byte
  payloadlen :: u16
  payload :: "bytes option"
  msg_handler :: "nat option"
  msg_user :: nat
  msg_keep :: int

definition CoAPMessage_init :: CoAPMessage where
  "CoAPMessage_init = \<lparr>header = \<lparr>version = 1, type = COAP_MESSAGE_TYPE_ACK, tokenlen = 0, code = COAP_MSG_CODE_EMPTY_MESSAGE, msgid = 0\<rparr>,
     token = replicate 8 0, options = replicate 12 \<lparr>num = 0, len = 0, val = None\<rparr>, optcount = 0, optdelta = 0,
     payloadlen = 0, payload = None, msg_handler = None, msg_user = 0, msg_keep = 0\<rparr>"

text \<open>Adding an option; \<open>ok\<close> is the result of the allocation.  The number stored is the difference to the
  previous option, which is kept in one byte.\<close>

definition CoAPStrOption_add :: "bool \<Rightarrow> CoAPMessage \<Rightarrow> u16 \<Rightarrow> bytes \<Rightarrow> u16 \<Rightarrow> (int \<times> CoAPMessage) option" where
  "CoAPStrOption_add ok message optnum data datalen =
    (if COAP_MSG_MAX_OPTION_NUM \<le> optcount message then Some (COAP_ERROR_INVALID_PARAM, message)
     else let o' = (options message ! optcount message)\<lparr>num := optnum - ucast (optdelta message), len := datalen\<rparr>;
              message = message\<lparr>options := (options message)[optcount message := o']\<rparr> in
     if \<not> ok then Some (COAP_ERROR_MALLOC, message)
     else do {
       bs \<leftarrow> load_n data 0 (unat datalen);
       Some (COAP_SUCCESS, message\<lparr>options := (options message)[optcount message := o'\<lparr>val := Some bs\<rparr>],
         optdelta := ucast optnum, optcount := optcount message + 1\<rparr>) })"

definition CoAPUintOption_add :: "bool \<Rightarrow> CoAPMessage \<Rightarrow> u16 \<Rightarrow> u32 \<Rightarrow> int \<times> CoAPMessage" where
  "CoAPUintOption_add ok message optnum data =
    (if COAP_MSG_MAX_OPTION_NUM \<le> optcount message then (COAP_ERROR_INVALID_PARAM, message)
     else let (n, bs) = (if data = 0 then (0, None)
            else if data \<le> 255 then (1, Some [ucast data])
            else if data \<le> 65535 then (2, Some [ucast (drop_bit 8 (data AND 0xFF00)), ucast (data AND 0xFF)])
            else (4, Some [ucast (drop_bit 24 (data AND 0xFF000000)), ucast (drop_bit 16 (data AND 0xFF0000)),
                           ucast (drop_bit 8 (data AND 0xFF00)), ucast (data AND 0xFF)]));
              o' = \<lparr>num = optnum - ucast (optdelta message), len = n, val = (if ok then bs else None)\<rparr>
     in (COAP_SUCCESS, message\<lparr>options := (options message)[optcount message := o'],
           optdelta := ucast optnum, optcount := optcount message + 1\<rparr>))"

text \<open>The first option with a number; the functions that look one up go through the array.\<close>

definition find_option :: "CoAPMessage \<Rightarrow> u16 \<Rightarrow> CoAPMsgOption option" where
  "find_option message optnum = find (\<lambda>o'. num o' = optnum) (take (optcount message) (options message))"

text \<open>The result is the return value, the destination buffer and the length.\<close>

definition CoAPStrOption_get :: "CoAPMessage \<Rightarrow> u16 \<Rightarrow> bytes \<Rightarrow> u16 \<Rightarrow> (int \<times> bytes \<times> u16) option" where
  "CoAPStrOption_get message optnum data datalen = (case find_option message optnum of
     None \<Rightarrow> Some (COAP_ERROR_NOT_FOUND, data, datalen)
   | Some o' \<Rightarrow>
       if datalen \<ge> len o' then do {
         v \<leftarrow> (case val o' of None \<Rightarrow> if len o' = 0 then Some [] else None | Some v \<Rightarrow> load_n v 0 (unat (len o')));
         data \<leftarrow> store_n data 0 v;
         Some (COAP_SUCCESS, data, len o') }
       else Some (COAP_ERROR_INVALID_LENGTH, data, datalen))"

fun be_value :: "bytes \<Rightarrow> u32 \<Rightarrow> u32" where
  "be_value [] d = d"
| "be_value (b # bs) d = be_value bs (d OR push_bit (8 * length bs) (ucast b))"

text \<open>The bytes are combined with OR into the value the caller passed.\<close>

definition CoAPUintOption_get :: "CoAPMessage \<Rightarrow> u16 \<Rightarrow> u32 \<Rightarrow> (int \<times> u32) option" where
  "CoAPUintOption_get message optnum data = (case find_option message optnum of
     None \<Rightarrow> Some (COAP_ERROR_NOT_FOUND, data)
   | Some o' \<Rightarrow>
       if 1 \<le> len o' \<and> len o' \<le> 4 then do {
         v \<leftarrow> val o';
         bs \<leftarrow> load_n v 0 (unat (len o'));
         Some (COAP_SUCCESS, be_value bs data) }
       else Some (COAP_SUCCESS, 0))"

definition CoAPOption_present :: "CoAPMessage \<Rightarrow> u16 \<Rightarrow> int" where
  "CoAPOption_present message opt = (if find_option message opt = None then COAP_ERROR_NOT_FOUND else COAP_SUCCESS)"

definition CoAPMessageId_set :: "CoAPMessage \<Rightarrow> u16 \<Rightarrow> int \<times> CoAPMessage" where
  "CoAPMessageId_set message i = (COAP_SUCCESS, message\<lparr>header := (header message)\<lparr>msgid := i\<rparr>\<rparr>)"

definition CoAPMessageType_set :: "CoAPMessage \<Rightarrow> byte \<Rightarrow> int \<times> CoAPMessage" where
  "CoAPMessageType_set message t =
    (if COAP_MESSAGE_TYPE_CON \<noteq> t \<and> COAP_MESSAGE_TYPE_NON \<noteq> t \<and> COAP_MESSAGE_TYPE_ACK \<noteq> t \<and> COAP_MESSAGE_TYPE_RST \<noteq> t
     then (COAP_ERROR_INVALID_PARAM, message)
     else (COAP_SUCCESS, message\<lparr>header := (header message)\<lparr>type := t\<rparr>\<rparr>))"

definition CoAPMessageCode_set :: "CoAPMessage \<Rightarrow> byte \<Rightarrow> int \<times> CoAPMessage" where
  "CoAPMessageCode_set message c = (COAP_SUCCESS, message\<lparr>header := (header message)\<lparr>code := c\<rparr>\<rparr>)"

definition CoAPMessageCode_get :: "CoAPMessage \<Rightarrow> int \<times> byte" where
  "CoAPMessageCode_get message = (COAP_SUCCESS, code (header message))"

definition CoAPMessageToken_set :: "CoAPMessage \<Rightarrow> bytes option \<Rightarrow> byte \<Rightarrow> (int \<times> CoAPMessage) option" where
  "CoAPMessageToken_set message tok n = (case tok of None \<Rightarrow> Some (COAP_ERROR_NULL, message)
     | Some t \<Rightarrow> if 8 < n then Some (COAP_ERROR_INVALID_LENGTH, message)
         else do {
           bs \<leftarrow> load_n t 0 (unat n);
           t' \<leftarrow> store_n (token message) 0 bs;
           Some (COAP_SUCCESS, message\<lparr>token := t', header := (header message)\<lparr>tokenlen := n\<rparr>\<rparr>) })"

definition CoAPMessageUserData_set :: "CoAPMessage \<Rightarrow> nat \<Rightarrow> int \<times> CoAPMessage" where
  "CoAPMessageUserData_set message u = (if u = 0 then (COAP_ERROR_NULL, message) else (COAP_SUCCESS, message\<lparr>msg_user := u\<rparr>))"

definition CoAPMessageKeep_Set :: "CoAPMessage \<Rightarrow> int \<Rightarrow> int \<times> CoAPMessage" where
  "CoAPMessageKeep_Set message k = (if k < 0 then (COAP_ERROR_NULL, message) else (COAP_SUCCESS, message\<lparr>msg_keep := k\<rparr>))"

definition CoAPMessagePayload_set :: "CoAPMessage \<Rightarrow> bytes option \<Rightarrow> u16 \<Rightarrow> int \<times> CoAPMessage" where
  "CoAPMessagePayload_set message p n = (if 0 < n \<and> p = None then (COAP_ERROR_NULL, message)
     else (COAP_SUCCESS, message\<lparr>payload := p, payloadlen := n\<rparr>))"

definition CoAPMessage_destory :: "CoAPMessage \<Rightarrow> int \<times> CoAPMessage" where
  "CoAPMessage_destory message = (COAP_SUCCESS, message\<lparr>options := map (\<lambda>o'. o'\<lparr>val := None\<rparr>) (options message)\<rparr>)"

section \<open>Serialiser\<close>

definition u16_of :: "nat \<Rightarrow> nat" where
  "u16_of n = n mod 65536"

definition CoAPSerialize_Header :: "CoAPMessage \<Rightarrow> bytes \<Rightarrow> nat \<Rightarrow> nat \<Rightarrow> (nat \<times> bytes) option" where
  "CoAPSerialize_Header msg buf p buflen = (if 4 > buflen then Some (0, buf)
     else let h = header msg in do {
       buf \<leftarrow> store_n buf p [push_bit 6 (version h AND 3) OR push_bit 4 (type h AND 3) OR (tokenlen h AND 15), code h,
          ucast (drop_bit 8 (msgid h AND 0xFF00)), ucast (msgid h AND 0xFF)];
       Some (4, buf) })"

definition CoAPSerialize_Token :: "CoAPMessage \<Rightarrow> bytes \<Rightarrow> nat \<Rightarrow> nat \<Rightarrow> (nat \<times> bytes) option" where
  "CoAPSerialize_Token msg buf p buflen = (let n = unat (tokenlen (header msg)) in
     if buflen < n then Some (0, buf)
     else do { t \<leftarrow> load_n (token msg) 0 n; buf \<leftarrow> store_n buf p t; Some (n, buf) })"

text \<open>The nibble and the extension bytes for an option number difference or length.\<close>

definition opt_nibble :: "u16 \<Rightarrow> byte" where
  "opt_nibble n = (if 269 \<le> n then 14 else if 13 \<le> n then 13 else ucast n)"

definition opt_ext :: "u16 \<Rightarrow> bytes" where
  "opt_ext n = (if 269 \<le> n then [ucast (drop_bit 8 ((n - 269) AND 0xFF00)), ucast ((n - 269) AND 0xFF)]
     else if 13 \<le> n then [ucast (n - 13)] else [])"

definition CoAPSerialize_Option :: "CoAPMsgOption \<Rightarrow> bytes \<Rightarrow> nat \<Rightarrow> (nat \<times> bytes) option" where
  "CoAPSerialize_Option opt buf p = do {
     w \<leftarrow> emit (buf, p) [push_bit 4 (opt_nibble (num opt)) OR (opt_nibble (len opt) AND 15)];
     w \<leftarrow> emit w (opt_ext (num opt));
     w \<leftarrow> emit w (opt_ext (len opt));
     v \<leftarrow> (case val opt of None \<Rightarrow> if len opt = 0 then Some [] else None | Some v \<Rightarrow> load_n v 0 (unat (len opt)));
     w \<leftarrow> emit w v;
     Some (u16_of (snd w - p), fst w) }"

fun serialize_options_loop :: "CoAPMsgOption list \<Rightarrow> bytes \<Rightarrow> nat \<Rightarrow> nat \<Rightarrow> (nat \<times> bytes) option" where
  "serialize_options_loop [] buf p count = Some (count, buf)"
| "serialize_options_loop (o' # os) buf p count = do {
     (l, buf) \<leftarrow> CoAPSerialize_Option o' buf (p + count);
     if 0 < l then serialize_options_loop os buf p (u16_of (count + l)) else Some (0, buf) }"

definition CoAPSerialize_Options :: "CoAPMessage \<Rightarrow> bytes \<Rightarrow> nat \<Rightarrow> nat \<Rightarrow> (nat \<times> bytes) option" where
  "CoAPSerialize_Options msg buf p buflen = serialize_options_loop (take (optcount msg) (options msg)) buf p 0"

definition CoAPSerialize_OptionLen :: "CoAPMsgOption \<Rightarrow> nat" where
  "CoAPSerialize_OptionLen opt = u16_of (1 + (if 269 \<le> num opt then 2 else if 13 \<le> num opt then 1 else 0)
     + (if 269 \<le> len opt then 2 else if 13 \<le> len opt then 1 else 0) + unat (len opt))"

fun options_len_loop :: "CoAPMsgOption list \<Rightarrow> nat \<Rightarrow> nat" where
  "options_len_loop [] count = count"
| "options_len_loop (o' # os) count = (let l = CoAPSerialize_OptionLen o' in
     if 0 < l then options_len_loop os (u16_of (count + l)) else 0)"

definition CoAPSerialize_OptionsLen :: "CoAPMessage \<Rightarrow> nat" where
  "CoAPSerialize_OptionsLen msg = options_len_loop (take (optcount msg) (options msg)) 0"

definition CoAPSerialize_Payload :: "CoAPMessage \<Rightarrow> bytes \<Rightarrow> nat \<Rightarrow> nat \<Rightarrow> (nat \<times> bytes) option" where
  "CoAPSerialize_Payload msg buf p buflen = (let n = unat (payloadlen msg) in
     if n + 1 > buflen then Some (0, buf)
     else (case payload msg of
         Some pl \<Rightarrow> if n > 0 then do {
             w \<leftarrow> emit (buf, p) [0xFF];
             bs \<leftarrow> load_n pl 0 n;
             w \<leftarrow> emit w bs;
             Some (n + 1, fst w) }
           else Some (0, buf)
       | None \<Rightarrow> Some (0, buf)))"

definition CoAPSerialize_MessageLength :: "CoAPMessage \<Rightarrow> nat" where
  "CoAPSerialize_MessageLength msg =
    (let msglen = 4;
         msglen = u16_of (msglen + unat (tokenlen (header msg)));
         msglen = u16_of (msglen + CoAPSerialize_OptionsLen msg)
     in if 0 < payloadlen msg then u16_of (u16_of (msglen + unat (payloadlen msg)) + 1) else msglen)"

text \<open>\<open>remlen -= count\<close> on an \<open>unsigned short\<close>.\<close>

definition u16_minus :: "nat \<Rightarrow> nat \<Rightarrow> nat" where
  "u16_minus a b = nat ((int a - int b) mod 65536)"

definition CoAPSerialize_Message :: "CoAPMessage \<Rightarrow> bytes \<Rightarrow> nat \<Rightarrow> (int \<times> bytes) option" where
  "CoAPSerialize_Message msg buf buflen = do {
     (count, buf) \<leftarrow> CoAPSerialize_Header msg buf 0 buflen;
     let ptr = count;
     let remlen = u16_minus buflen count;
     (count, buf) \<leftarrow> CoAPSerialize_Token msg buf ptr remlen;
     let ptr = ptr + count;
     let remlen = u16_minus remlen count;
     (count, buf) \<leftarrow> CoAPSerialize_Options msg buf ptr remlen;
     let ptr = ptr + count;
     let remlen = u16_minus remlen count;
     (count, buf) \<leftarrow> CoAPSerialize_Payload msg buf ptr remlen;
     let ptr = ptr + u16_of count;
     let remlen = u16_minus remlen (u16_of count);
     Some (int buflen - int remlen, buf) }"

section \<open>Parser\<close>

text \<open>The parser works on a byte object \<open>buf\<close> at a position; \<open>left\<close> and \<open>buflen\<close> are the \<open>int\<close> byte counts
  the code passes along, which need not agree with the size of the object.\<close>

definition CoAPDeserialize_Header :: "CoAPMessage \<Rightarrow> bytes \<Rightarrow> nat \<Rightarrow> (int \<times> CoAPMessage) option" where
  "CoAPDeserialize_Header msg buf p = do {
     b0 \<leftarrow> load buf p;
     b1 \<leftarrow> load buf (p + 1);
     b2 \<leftarrow> load buf (p + 2);
     b3 \<leftarrow> load buf (p + 3);
     Some (4, msg\<lparr>header := \<lparr>version = drop_bit 6 b0 AND 3, type = drop_bit 4 b0 AND 3, tokenlen = b0 AND 15,
       code = b1, msgid = push_bit 8 (ucast b2) + ucast b3\<rparr>\<rparr>) }"

definition CoAPDeserialize_Token :: "CoAPMessage \<Rightarrow> bytes \<Rightarrow> nat \<Rightarrow> (int \<times> CoAPMessage) option" where
  "CoAPDeserialize_Token msg buf p = (let n = unat (tokenlen (header msg)) in do {
     bs \<leftarrow> load_n buf p (if n > COAP_MSG_MAX_TOKEN_LEN then COAP_MSG_MAX_TOKEN_LEN else n);
     t \<leftarrow> store_n (token msg) 0 bs;
     Some (int n, msg\<lparr>token := t\<rparr>) })"

text \<open>The macro returns from the function when the step leaves no byte; the model passes the failure on.\<close>

definition COAP_OPT_CHECK :: "nat \<Rightarrow> int \<Rightarrow> nat \<Rightarrow> (nat \<times> int) option" where
  "COAP_OPT_CHECK p left step = (if left < int step then None
     else let left = left - int step in if left < 1 then None else Some (p + step, left))"

text \<open>The extended forms of a difference or a length: the value added to \<open>pre\<close>, and the position after
  the extension bytes unless the check fails.  Both bytes are read before the check.\<close>

definition read_ext :: "u16 \<Rightarrow> byte \<Rightarrow> bytes \<Rightarrow> nat \<Rightarrow> int \<Rightarrow> (u16 \<times> (nat \<times> int) option) option" where
  "read_ext pre nib buf p left =
    (if nib = 13 then do { b \<leftarrow> load buf p; Some (pre + (13 + ucast b), COAP_OPT_CHECK p left 1) }
     else if nib = 14 then do {
       b0 \<leftarrow> load buf p;
       b1 \<leftarrow> load buf (p + 1);
       Some (pre + 269 + push_bit 8 (ucast b0) + ucast b1, COAP_OPT_CHECK p left 2) }
     else Some (pre + ucast nib, Some (p, left)))"

definition CoAPDeserialize_Option :: "CoAPMsgOption \<Rightarrow> bytes \<Rightarrow> nat \<Rightarrow> int \<Rightarrow> u16 \<Rightarrow> (int \<times> CoAPMsgOption \<times> u16) option" where
  "CoAPDeserialize_Option opt buf p left predeltas = do {
     b \<leftarrow> load buf p;
     case COAP_OPT_CHECK p left 1 of None \<Rightarrow> Some (-1, opt, predeltas)
     | Some (q, left) \<Rightarrow> do {
         (predelta, w) \<leftarrow> read_ext predeltas (drop_bit 4 (b AND 0xF0)) buf q left;
         case w of None \<Rightarrow> Some (-1, opt, predeltas)
         | Some (q, left) \<Rightarrow> do {
             let opt = opt\<lparr>num := predelta\<rparr>;
             (optlen, w) \<leftarrow> read_ext 0 (b AND 0x0F) buf q left;
             case w of None \<Rightarrow> Some (-1, opt, predeltas)
             | Some (q, left) \<Rightarrow>
                 Some (int q - int p + int (unat optlen), opt\<lparr>len := optlen, val := Some (drop q buf)\<rparr>, predelta) } } }"

text \<open>The loop of \<open>CoAPDeserialize_Options\<close>; \<open>start\<close> is the position of the first option.\<close>

function deserialize_options_loop ::
    "CoAPMessage \<Rightarrow> bytes \<Rightarrow> nat \<Rightarrow> nat \<Rightarrow> int \<Rightarrow> u16 \<Rightarrow> nat \<Rightarrow> (int \<times> CoAPMessage) option" where
  "deserialize_options_loop msg buf start p left optdeltas index =
    (if left \<le> 0 then Some (int p - int start, msg)
     else do {
       b \<leftarrow> load buf p;
       if b = 0xFF \<or> \<not> index < COAP_MSG_MAX_OPTION_NUM then Some (int p - int start, msg)
       else do {
         (n, opt, optdeltas) \<leftarrow> CoAPDeserialize_Option (options msg ! index) buf p left optdeltas;
         let msg = msg\<lparr>options := (options msg)[index := opt]\<rparr>;
         if n < 0 then Some (n, msg)
         else deserialize_options_loop (msg\<lparr>optcount := optcount msg + 1\<rparr>) buf start (p + nat n) (left - n) optdeltas (index + 1) } })"
  by pat_completeness auto
termination by (relation "measure (\<lambda>(msg, buf, start, p, left, optdeltas, index). 12 - index)") auto

declare deserialize_options_loop.simps [simp del]

definition CoAPDeserialize_Options :: "CoAPMessage \<Rightarrow> bytes \<Rightarrow> nat \<Rightarrow> int \<Rightarrow> (int \<times> CoAPMessage) option" where
  "CoAPDeserialize_Options msg buf p buflen = deserialize_options_loop (msg\<lparr>optcount := 0\<rparr>) buf p p buflen 0 0"

definition CoAPDeserialize_Payload :: "CoAPMessage \<Rightarrow> bytes \<Rightarrow> nat \<Rightarrow> int \<Rightarrow> (int \<times> CoAPMessage) option" where
  "CoAPDeserialize_Payload msg buf p buflen = do {
     b \<leftarrow> load buf p;
     if b = 0xFF then Some (buflen, msg\<lparr>payloadlen := word_of_int (buflen - 1), payload := Some (drop (p + 1) buf)\<rparr>)
     else Some (0, msg) }"

definition CoAPDeserialize_Message :: "CoAPMessage \<Rightarrow> bytes \<Rightarrow> int \<Rightarrow> (int \<times> CoAPMessage) option" where
  "CoAPDeserialize_Message msg buf buflen =
    (if buflen < 4 then Some (COAP_ERROR_INVALID_LENGTH, msg)
     else do {
       (count, msg) \<leftarrow> CoAPDeserialize_Header msg buf 0;
       let remlen = buflen;
       if count > remlen then Some (COAP_ERROR_INVALID_LENGTH, msg)
       else do {
       let ptr = nat count;
       let remlen = remlen - count;
       (count, msg) \<leftarrow> CoAPDeserialize_Token msg buf ptr;
       if count > remlen then Some (COAP_ERROR_INVALID_LENGTH, msg)
       else do {
       let ptr = ptr + nat count;
       let remlen = remlen - count;
       (count, msg) \<leftarrow> CoAPDeserialize_Options msg buf ptr remlen;
       if count > remlen \<or> count < 0 then Some (COAP_ERROR_INVALID_LENGTH, msg)
       else do {
       let ptr = ptr + nat count;
       let remlen = remlen - count;
       (_, msg) \<leftarrow> CoAPDeserialize_Payload msg buf ptr remlen;
       Some (COAP_SUCCESS, msg) } } } })"

end
