(* ===== verification/CoAP_Resource.thy ===== *)
theory CoAP_Resource
  imports Infra_MD5 CoAP_Packet
begin

text \<open>
  The resources of the CoAP server, \<open>src/eng/coap/server/CoAPResource.c\<close>, and the address functions of
  \<open>CoAPPlatform.c\<close>.  A path is stored as the first five bytes of its MD5 sum, or, when it contains \<open>/#\<close>, as text
  that is compared as a prefix.  A C string is the list of its characters without the NUL.
\<close>

section \<open>C strings\<close>

abbreviation (input) slash :: byte where "slash \<equiv> 0x2F"

text \<open>\<open>strncmp (a, b, n) == 0\<close> on texts.\<close>

definition strncmp_eq :: "bytes \<Rightarrow> bytes \<Rightarrow> nat \<Rightarrow> bool" where
  "strncmp_eq a b n \<longleftrightarrow> take n (a @ [0]) = take n (b @ [0])"

section \<open>Internet addresses\<close>

definition isdigit :: "byte \<Rightarrow> bool" where "isdigit c \<longleftrightarrow> 0x30 \<le> c \<and> c \<le> 0x39"
definition isxdigit :: "byte \<Rightarrow> bool" where "isxdigit c \<longleftrightarrow> isdigit c \<or> 0x41 \<le> c \<and> c \<le> 0x46 \<or> 0x61 \<le> c \<and> c \<le> 0x66"
definition islower :: "byte \<Rightarrow> bool" where "islower c \<longleftrightarrow> 0x61 \<le> c \<and> c \<le> 0x7A"
definition isspace :: "byte \<Rightarrow> bool" where "isspace c \<longleftrightarrow> c = 0x20 \<or> 0x09 \<le> c \<and> c \<le> 0x0D"

text \<open>The digits of one number; the result is the value and the rest of the string.\<close>

fun aton_digits :: "u32 \<Rightarrow> u32 \<Rightarrow> bytes \<Rightarrow> u32 \<times> bytes" where
  "aton_digits base v [] = (v, [])"
| "aton_digits base v (c # s) =
    (if isdigit c then aton_digits base (v * base + ucast (c - 0x30)) s
     else if base = 16 \<and> isxdigit c
       then aton_digits base (push_bit 4 v OR ucast (c + 10 - (if islower c then 0x61 else 0x41))) s
     else (v, c # s))"

definition aton_number :: "bytes \<Rightarrow> (u32 \<times> bytes) option" where
  "aton_number s = (case s of [] \<Rightarrow> None | c # t \<Rightarrow>
     if \<not> isdigit c then None
     else if c = 0x30 then
       (case t of x # u \<Rightarrow> if x = 0x78 \<or> x = 0x58 then Some (aton_digits 16 0 u) else Some (aton_digits 8 0 t)
        | [] \<Rightarrow> Some (aton_digits 8 0 t))
     else Some (aton_digits 10 0 s))"

text \<open>The outer loop: the numbers before the last one, the last one and the rest; \<open>k\<close> numbers may still be followed
  by a dot.\<close>

fun aton_parts :: "nat \<Rightarrow> u32 list \<Rightarrow> bytes \<Rightarrow> (u32 list \<times> u32 \<times> bytes) option" where
  "aton_parts k parts s = (case aton_number s of None \<Rightarrow> None
   | Some (v, r) \<Rightarrow> (case r of c # t \<Rightarrow>
         if c = 0x2E then (case k of 0 \<Rightarrow> None | Suc k \<Rightarrow> aton_parts k (parts @ [v]) t) else Some (parts, v, r)
       | [] \<Rightarrow> Some (parts, v, r)))"

definition platform_aton :: "bytes \<Rightarrow> u32" where
  "platform_aton ip = (case aton_parts 3 [] ip of None \<Rightarrow> 0
   | Some (parts, v, r) \<Rightarrow>
       if (case r of [] \<Rightarrow> False | c # _ \<Rightarrow> \<not> isspace c) then 0
       else (case parts of
           [] \<Rightarrow> v
         | [a] \<Rightarrow> if v > 0xFFFFFF then 0 else v OR push_bit 24 a
         | [a, b] \<Rightarrow> if v > 0xFFFF then 0 else v OR (push_bit 24 a OR push_bit 16 b)
         | a # b # c # _ \<Rightarrow> if v > 0xFF then 0 else v OR (push_bit 24 a OR push_bit 16 b OR push_bit 8 c)))"

definition platform_is_multicast :: "bytes \<Rightarrow> bool" where
  "platform_is_multicast ip = (let a = platform_aton ip in a > 0xE00000FF \<and> a \<le> 0xEFFFFFFF)"

section \<open>Resources\<close>

datatype path_type_t = PATH_NORMAL | PATH_FILTER

text \<open>\<open>callback\<close> is the identity of the function, \<open>None\<close> for the null pointer; \<open>res_id\<close> is the address of the node.\<close>

record CoAPResource =
  res_id :: nat
  permission :: u16
  callback :: "nat option"
  res_ctype :: u32
  maxage :: u32
  path :: bytes
  filter_path :: "bytes option"
  path_type :: path_type_t

record resource_list =
  res_list :: "CoAPResource list"
  res_count :: byte
  res_maxcount :: byte
  res_next :: nat

abbreviation (input) COAP_PATH_DEFAULT_SUM_LEN :: nat where "COAP_PATH_DEFAULT_SUM_LEN \<equiv> 5"
abbreviation (input) COAP_MSG_MAX_PATH_LEN :: nat where "COAP_MSG_MAX_PATH_LEN \<equiv> 128"
abbreviation (input) FAIL_RETURN :: int where "FAIL_RETURN \<equiv> -1"

text \<open>\<open>junk\<close> is the uninitialised MD5 context on the stack.\<close>

definition CoAPPathMD5_sum :: "iot_md5_context \<Rightarrow> bytes \<Rightarrow> nat \<Rightarrow> bytes \<Rightarrow> nat \<Rightarrow> (int \<times> bytes) option" where
  "CoAPPathMD5_sum junk p n outbuf outlen = (if n = 0 \<or> outlen = 0 then Some (-1, outbuf)
     else do {
       md5 \<leftarrow> utils_md5 junk p n (replicate 16 0);
       bs \<leftarrow> load_n md5 0 (if outlen > 16 then 16 else outlen);
       outbuf \<leftarrow> store_n outbuf 0 bs;
       Some (0, outbuf) })"

definition CoAPResource_init :: "byte \<Rightarrow> int \<times> resource_list" where
  "CoAPResource_init maxcount = (COAP_SUCCESS, \<lparr>res_list = [], res_count = 0, res_maxcount = maxcount, res_next = 0\<rparr>)"

definition CoAPResource_deinit :: "resource_list \<Rightarrow> int \<times> resource_list" where
  "CoAPResource_deinit rl = (COAP_SUCCESS, rl\<lparr>res_list := [], res_count := 0, res_maxcount := 0\<rparr>)"

text \<open>\<open>ok\<close> and \<open>ok2\<close> are the results of the two allocations.\<close>

definition CoAPResource_create :: "iot_md5_context \<Rightarrow> bool \<Rightarrow> bool \<Rightarrow> nat \<Rightarrow> bytes \<Rightarrow> path_type_t \<Rightarrow> u16 \<Rightarrow> u32 \<Rightarrow> u32 \<Rightarrow> nat option
    \<Rightarrow> CoAPResource option option" where
  "CoAPResource_create junk ok ok2 i p t perm ctype age cb =
    (if length p \<ge> COAP_MSG_MAX_PATH_LEN then Some None
     else if \<not> ok then Some None
     else let r = \<lparr>res_id = i, permission = perm, callback = cb, res_ctype = ctype, maxage = age,
                   path = replicate 5 0, filter_path = None, path_type = t\<rparr> in
       if t = PATH_NORMAL then do {
         (_, md) \<leftarrow> CoAPPathMD5_sum junk p (length p) (path r) COAP_PATH_DEFAULT_SUM_LEN;
         Some (Some (r\<lparr>path := md\<rparr>)) }
       else if \<not> ok2 then Some None
       else Some (Some (r\<lparr>filter_path := Some p\<rparr>)))"

text \<open>The test of the loop in \<open>CoAPResource_register\<close>, and the update of the first node that passes it.\<close>

definition same_resource :: "path_type_t \<Rightarrow> bytes \<Rightarrow> bytes \<Rightarrow> CoAPResource \<Rightarrow> bool" where
  "same_resource t p md node \<longleftrightarrow>
    (if t = PATH_NORMAL \<and> path_type node = PATH_NORMAL then take 5 md = take 5 (path node)
     else t = PATH_FILTER \<and> path_type node = PATH_FILTER
       \<and> (case filter_path node of None \<Rightarrow> False | Some f \<Rightarrow> strncmp_eq p f (length p)))"

fun update_first :: "('a \<Rightarrow> bool) \<Rightarrow> ('a \<Rightarrow> 'a) \<Rightarrow> 'a list \<Rightarrow> bool \<times> 'a list" where
  "update_first P f [] = (False, [])"
| "update_first P f (x # xs) = (if P x then (True, f x # xs) else map_prod id ((#) x) (update_first P f xs))"

definition CoAPResource_register :: "iot_md5_context \<Rightarrow> bool \<Rightarrow> bool \<Rightarrow> resource_list \<Rightarrow> bytes \<Rightarrow> u16 \<Rightarrow> u32 \<Rightarrow> u32 \<Rightarrow> nat option
    \<Rightarrow> (int \<times> resource_list) option" where
  "CoAPResource_register junk ok ok2 rl p perm ctype age cb =
    (if res_count rl \<ge> res_maxcount rl then Some (COAP_ERROR_DATA_SIZE, rl)
     else do {
       (t, md) \<leftarrow> (if strstr p [slash, 0x23] then Some (PATH_FILTER, replicate 5 0)
         else map_option (\<lambda>(_, s). (PATH_NORMAL, s)) (CoAPPathMD5_sum junk p (length p) (replicate 5 0) COAP_PATH_DEFAULT_SUM_LEN));
       let (found, nodes) = update_first (same_resource t p md)
              (\<lambda>node. node\<lparr>callback := cb, res_ctype := ctype, maxage := age, permission := perm\<rparr>) (res_list rl);
       if found then Some (COAP_SUCCESS, rl\<lparr>res_list := nodes\<rparr>)
       else do {
         new \<leftarrow> CoAPResource_create junk ok ok2 (res_next rl) p t perm ctype age cb;
         Some (COAP_SUCCESS, case new of None \<Rightarrow> rl
           | Some n \<Rightarrow> rl\<lparr>res_list := res_list rl @ [n], res_count := res_count rl + 1, res_next := res_next rl + 1\<rparr>) } })"

definition CoAPResource_unregister :: "resource_list \<Rightarrow> bytes \<Rightarrow> int \<times> resource_list" where
  "CoAPResource_unregister rl p = (0x10D, rl)"

text \<open>\<open>strlen (filter) - 1\<close> is a \<open>size_t\<close>; the only caller has checked that the filter is not empty.\<close>

definition CoAPResource_topicFilterMatch :: "bytes \<Rightarrow> bytes \<Rightarrow> int" where
  "CoAPResource_topicFilterMatch filt topic =
    (let k = (if filt = [] then 2 ^ 32 - 1 else length filt - 1) in
     if strncmp_eq filt topic k \<and> length topic > k \<and> \<not> strstr (drop k topic) [slash] then 0 else -1)"

definition resource_matches :: "bytes \<Rightarrow> bytes \<Rightarrow> CoAPResource \<Rightarrow> bool" where
  "resource_matches md p node \<longleftrightarrow> take 5 md = take 5 (path node)
     \<or> path_type node = PATH_FILTER \<and> (case filter_path node of None \<Rightarrow> False
          | Some f \<Rightarrow> length f > 0 \<and> CoAPResource_topicFilterMatch f p = 0)"

definition CoAPResourceByPath_get :: "iot_md5_context \<Rightarrow> resource_list \<Rightarrow> bytes \<Rightarrow> CoAPResource option option" where
  "CoAPResourceByPath_get junk rl p = do {
     (_, md) \<leftarrow> CoAPPathMD5_sum junk p (length p) (replicate 5 0) COAP_PATH_DEFAULT_SUM_LEN;
     Some (find (resource_matches md p) (res_list rl)) }"

end
