(* ===== verification/CoAP_Server.thy ===== *)
theory CoAP_Server
  imports CoAP_Resource
begin

text \<open>
  The CoAP server of the local control channel, \<open>src/eng/coap/server\<close>: the list of messages waiting for an answer,
  sending, dispatch of received datagrams, retransmission and time-out (\<open>CoAPMessage.c\<close>), observers on both sides
  (\<open>CoAPObserve.c\<close>), the context (\<open>CoAPExport.c\<close>) and the functions of the application interface (\<open>CoAPServer.c\<close>).

  The state is the record \<open>CoAPIntContext\<close>.  The platform is the record \<open>coap_env\<close> of the answers it gives, one stream
  for each function, indexed by a counter in the state: the results of \<open>HAL_UDP_sendto\<close> and \<open>coap_malloc\<close>, the
  readings of \<open>HAL_UptimeMs\<close> (64 bits, never wrapping), and what \<open>HAL_UDP_recvfrom\<close> delivers.  Datagrams handed to
  the network and calls of application callbacks are events appended to \<open>trace\<close>; a callback does not change the state.
  Mutexes are taken and released in pairs and left out.
\<close>

section \<open>State\<close>

record NetworkAddr =
  addr :: bytes
  port :: u16

datatype CoAPReqResult = COAP_REQUEST_SUCCESS | COAP_RECV_RESP_TIMEOUT | COAP_RECV_RESP_SUC

datatype coap_event =
    Sent NetworkAddr bytes
  | Handler nat CoAPReqResult nat NetworkAddr "CoAPMessage option"
  | Request nat bytes NetworkAddr CoAPMessage
  | Slept nat

record CoAPSendNode =
  n_header :: CoAPMsgHeader
  retrans_count :: byte
  n_token :: bytes
  timeout :: nat
  timeout_val :: u16
  n_handler :: "nat option"
  n_remote :: NetworkAddr
  n_user :: nat
  n_message :: bytes
  acked :: bool
  n_keep :: int

record CoapObserver =
  os_remote :: NetworkAddr
  os_token :: bytes
  os_tokenlen :: byte
  os_ctype :: byte
  p_resource_of_interest :: CoAPResource
  observer_sequence_num :: u32
  os_msg_type :: byte

record CoAPObservable =
  oc_remote :: NetworkAddr
  oc_token :: bytes
  oc_tokenlen :: byte
  oc_callback :: "nat option"
  max_age :: u32
  oc_userdata :: nat

record 'a CoAPList =
  nodes :: "'a list"
  count :: byte
  maxcount :: byte

record CoAPIntContext =
  message_id :: u16
  recvbuf :: bytes
  sendlist :: "CoAPSendNode CoAPList"
  obsserver :: "CoapObserver CoAPList"
  obsclient :: "CoAPObservable CoAPList"
  resource :: resource_list
  waittime :: u32
  server_token :: u32
  wn :: nat
  mn :: nat
  tn :: nat
  rn :: nat
  trace :: "coap_event list"

record coap_env =
  wr :: "nat \<Rightarrow> int"
  mem :: "nat \<Rightarrow> bool"
  uptime :: "nat \<Rightarrow> nat"
  rd :: "nat \<Rightarrow> int \<times> NetworkAddr \<times> bytes"
  ip :: bytes
  junk :: iot_md5_context

abbreviation (input) COAP_MSG_MAX_PDU_LEN :: nat where "COAP_MSG_MAX_PDU_LEN \<equiv> 1280"
abbreviation (input) COAP_OPTION_OBSERVE :: u16 where "COAP_OPTION_OBSERVE \<equiv> 6"
abbreviation (input) COAP_OPTION_URI_PATH :: u16 where "COAP_OPTION_URI_PATH \<equiv> 11"
abbreviation (input) COAP_OPTION_CONTENT_FORMAT :: u16 where "COAP_OPTION_CONTENT_FORMAT \<equiv> 12"
abbreviation (input) COAP_OPTION_MAXAGE :: u16 where "COAP_OPTION_MAXAGE \<equiv> 14"
abbreviation (input) COAP_OPTION_ACCEPT :: u16 where "COAP_OPTION_ACCEPT \<equiv> 17"
abbreviation (input) COAP_CT_APP_JSON :: u32 where "COAP_CT_APP_JSON \<equiv> 50"
abbreviation (input) COAP_ERROR_OBJ_ALREADY_EXIST :: int where "COAP_ERROR_OBJ_ALREADY_EXIST \<equiv> 0x10E"
abbreviation (input) COAP_MAX_RETRY_COUNT :: byte where "COAP_MAX_RETRY_COUNT \<equiv> 8"
abbreviation (input) COAP_ACK_TIMEOUT :: u16 where "COAP_ACK_TIMEOUT \<equiv> 600"

text \<open>The platform functions.\<close>

definition CoAPNetwork_write :: "coap_env \<Rightarrow> CoAPIntContext \<Rightarrow> NetworkAddr \<Rightarrow> bytes \<Rightarrow> int \<times> CoAPIntContext" where
  "CoAPNetwork_write e c r bs = (wr e (wn c), c\<lparr>wn := wn c + 1, trace := trace c @ [Sent r bs]\<rparr>)"

definition coap_malloc :: "coap_env \<Rightarrow> CoAPIntContext \<Rightarrow> bool \<times> CoAPIntContext" where
  "coap_malloc e c = (mem e (mn c), c\<lparr>mn := mn c + 1\<rparr>)"

definition HAL_UptimeMs :: "coap_env \<Rightarrow> CoAPIntContext \<Rightarrow> nat \<times> CoAPIntContext" where
  "HAL_UptimeMs e c = (uptime e (tn c), c\<lparr>tn := tn c + 1\<rparr>)"

definition emit_event :: "coap_event \<Rightarrow> CoAPIntContext \<Rightarrow> CoAPIntContext" where
  "emit_event ev c = c\<lparr>trace := trace c @ [ev]\<rparr>"

text \<open>Calling a handler when there is one.\<close>

definition call_handler :: "nat option \<Rightarrow> CoAPReqResult \<Rightarrow> nat \<Rightarrow> NetworkAddr \<Rightarrow> CoAPMessage option \<Rightarrow> CoAPIntContext \<Rightarrow> CoAPIntContext" where
  "call_handler h res user remote m c = (case h of None \<Rightarrow> c | Some f \<Rightarrow> emit_event (Handler f res user remote m) c)"

text \<open>Lists with a count: \<open>list_add_tail\<close>, and \<open>list_del\<close> of the node at an index.\<close>

definition list_add :: "'a \<Rightarrow> 'a CoAPList \<Rightarrow> 'a CoAPList" where
  "list_add x l = l\<lparr>nodes := nodes l @ [x], count := count l + 1\<rparr>"

definition list_remove :: "nat \<Rightarrow> 'a CoAPList \<Rightarrow> 'a CoAPList" where
  "list_remove i l = l\<lparr>nodes := take i (nodes l) @ drop (Suc i) (nodes l), count := count l - 1\<rparr>"

definition list_filter :: "('a \<Rightarrow> bool) \<Rightarrow> 'a CoAPList \<Rightarrow> 'a CoAPList" where
  "list_filter P l = l\<lparr>nodes := filter P (nodes l), count := count l - of_nat (length (filter (\<lambda>x. \<not> P x) (nodes l)))\<rparr>"

definition list_change :: "nat \<Rightarrow> ('a \<Rightarrow> 'a) \<Rightarrow> 'a CoAPList \<Rightarrow> 'a CoAPList" where
  "list_change i f l = l\<lparr>nodes := (nodes l)[i := f (nodes l ! i)]\<rparr>"

text \<open>The index of the first node that passes a test, which may fault.\<close>

fun find_index :: "('a \<Rightarrow> bool option) \<Rightarrow> 'a list \<Rightarrow> nat option option" where
  "find_index P [] = Some None"
| "find_index P (x # xs) = do { b \<leftarrow> P x; if b then Some (Some 0) else map_option (map_option Suc) (find_index P xs) }"

section \<open>Message classes\<close>

definition COAPAckMsg :: "CoAPMsgHeader \<Rightarrow> bool" where
  "COAPAckMsg h \<longleftrightarrow> code h = COAP_MSG_CODE_EMPTY_MESSAGE \<and> type h = COAP_MESSAGE_TYPE_ACK"

definition CoAPRespMsg :: "CoAPMsgHeader \<Rightarrow> bool" where
  "CoAPRespMsg h \<longleftrightarrow> code h \<ge> 0x40 \<and> code h < 0xC0"

definition CoAPPingMsg :: "CoAPMsgHeader \<Rightarrow> bool" where
  "CoAPPingMsg h \<longleftrightarrow> code h = COAP_MSG_CODE_EMPTY_MESSAGE \<and> type h = COAP_MESSAGE_TYPE_CON"

definition CoAPResetMsg :: "CoAPMsgHeader \<Rightarrow> bool" where
  "CoAPResetMsg h \<longleftrightarrow> type h = COAP_MESSAGE_TYPE_RST"

definition CoAPCONRespMsg :: "CoAPMsgHeader \<Rightarrow> bool" where
  "CoAPCONRespMsg h \<longleftrightarrow> code h = 0x45 \<and> type h = COAP_MESSAGE_TYPE_CON"

definition CoAPReqMsg :: "CoAPMsgHeader \<Rightarrow> bool" where
  "CoAPReqMsg h \<longleftrightarrow> 1 \<le> code h \<and> 32 > code h"

section \<open>Observed resources\<close>

text \<open>\<open>0 != tokenlen && tokenlen == message->header.tokenlen && 0 == memcmp (token, message->token, tokenlen)\<close>.\<close>

definition token_match :: "byte \<Rightarrow> bytes \<Rightarrow> CoAPMessage \<Rightarrow> bool option" where
  "token_match tlen tok m = (if tlen \<noteq> 0 \<and> tlen = tokenlen (header m)
     then do { a \<leftarrow> load_n tok 0 (unat tlen); b \<leftarrow> load_n (token m) 0 (unat tlen); Some (a = b) }
     else Some False)"

text \<open>\<open>memcpy\<close> of the token of a message into the token of a node.\<close>

definition copy_token :: "CoAPMessage \<Rightarrow> bytes \<Rightarrow> bytes option" where
  "copy_token m tok = load_n (token m) 0 (unat (tokenlen (header m))) \<bind> store_n tok 0"

definition CoAPObsClient_add :: "coap_env \<Rightarrow> CoAPIntContext \<Rightarrow> CoAPMessage \<Rightarrow> NetworkAddr \<Rightarrow> CoAPSendNode option
    \<Rightarrow> (int \<times> CoAPIntContext) option" where
  "CoAPObsClient_add e c m remote sendnode = do {
     hit \<leftarrow> find_index (\<lambda>n. token_match (oc_tokenlen n) (oc_token n) m) (nodes (obsclient c));
     if CoAPOption_present m COAP_OPTION_OBSERVE = COAP_SUCCESS then
       (case sendnode of
         None \<Rightarrow> (case hit of None \<Rightarrow> Some (COAP_SUCCESS, c)
           | Some i \<Rightarrow> do {
               let n = nodes (obsclient c) ! i;
               (_, age) \<leftarrow> CoAPUintOption_get m COAP_OPTION_MAXAGE (max_age n);
               let c = c\<lparr>obsclient := list_change i (\<lambda>n. n\<lparr>max_age := age\<rparr>) (obsclient c)\<rparr>;
               Some (COAP_SUCCESS, call_handler (oc_callback n) COAP_REQUEST_SUCCESS (oc_userdata n) remote (Some m) c) })
       | Some sn \<Rightarrow>
           if hit = None \<and> count (obsclient c) < maxcount (obsclient c) then do {
             let (ok, c) = coap_malloc e c;
             if \<not> ok then Some (COAP_SUCCESS, c)
             else do {
               tok \<leftarrow> copy_token m (replicate 8 0);
               (_, age) \<leftarrow> CoAPUintOption_get m COAP_OPTION_MAXAGE 0;
               Some (COAP_SUCCESS, c\<lparr>obsclient := list_add \<lparr>oc_remote = remote, oc_token = tok, oc_tokenlen = tokenlen (header m),
                  oc_callback = n_handler sn, max_age = age, oc_userdata = n_user sn\<rparr> (obsclient c)\<rparr>) } }
           else Some (COAP_SUCCESS, c))
     else (case hit of None \<Rightarrow> Some (COAP_SUCCESS, c)
       | Some i \<Rightarrow> Some (COAP_SUCCESS, c\<lparr>obsclient := list_remove i (obsclient c)\<rparr>)) }"

definition CoAPObsClient_delete :: "CoAPIntContext \<Rightarrow> CoAPMessage \<Rightarrow> (int \<times> CoAPIntContext) option" where
  "CoAPObsClient_delete c m =
    (if code (header m) = 1 \<and> CoAPOption_present m COAP_OPTION_OBSERVE = COAP_SUCCESS then do {
       (ret, obs) \<leftarrow> CoAPUintOption_get m COAP_OPTION_OBSERVE 0;
       if ret = COAP_SUCCESS \<and> obs = 1 then do {
         hit \<leftarrow> find_index (\<lambda>n. token_match (oc_tokenlen n) (oc_token n) m) (nodes (obsclient c));
         Some (COAP_SUCCESS, case hit of None \<Rightarrow> c | Some i \<Rightarrow> c\<lparr>obsclient := list_remove i (obsclient c)\<rparr>) }
       else Some (COAP_SUCCESS, c) }
     else Some (COAP_SUCCESS, c))"

section \<open>Sending\<close>

definition CoAPMessageId_gen :: "CoAPIntContext \<Rightarrow> u16 \<times> CoAPIntContext" where
  "CoAPMessageId_gen c = (if message_id c = 65535 then (1, c\<lparr>message_id := 1\<rparr>)
     else (message_id c, c\<lparr>message_id := message_id c + 1\<rparr>))"

definition CoAPMessageHandler_set :: "CoAPMessage \<Rightarrow> nat option \<Rightarrow> int \<times> CoAPMessage" where
  "CoAPMessageHandler_set m h = (COAP_SUCCESS, m\<lparr>msg_handler := h\<rparr>)"

text \<open>The node \<open>CoAPMessageList_add\<close> fills in; \<open>buffer\<close> is the \<open>len\<close> bytes of the encoded message.\<close>

definition send_node :: "nat \<Rightarrow> bool \<Rightarrow> bytes \<Rightarrow> NetworkAddr \<Rightarrow> CoAPMessage \<Rightarrow> bytes \<Rightarrow> CoAPSendNode" where
  "send_node tick multicast tok remote m buffer = (let con = (type (header m) = COAP_MESSAGE_TYPE_CON) in
     \<lparr>n_header = header m, retrans_count = (if con then COAP_MAX_RETRY_COUNT else 0), n_token = tok,
      timeout = (if con then unat COAP_ACK_TIMEOUT + tick else unat COAP_ACK_TIMEOUT * 4 + tick), timeout_val = COAP_ACK_TIMEOUT,
      n_handler = msg_handler m, n_remote = remote, n_user = msg_user m, n_message = buffer, acked = False,
      n_keep = (if multicast \<or> msg_keep m = 1 then 1 else 0)\<rparr>)"

definition CoAPMessageList_add :: "coap_env \<Rightarrow> CoAPIntContext \<Rightarrow> NetworkAddr \<Rightarrow> CoAPMessage \<Rightarrow> bytes \<Rightarrow> (int \<times> CoAPIntContext) option" where
  "CoAPMessageList_add e c remote m buffer = do {
     let (ok, c) = coap_malloc e c;
     if \<not> ok then Some (COAP_ERROR_NULL, c)
     else do {
       dest \<leftarrow> c_text (addr remote);
       let (tick, c) = HAL_UptimeMs e c;
       tok \<leftarrow> copy_token m (replicate 8 0);
       if count (sendlist c) \<ge> maxcount (sendlist c) then Some (COAP_ERROR_DATA_SIZE, c)
       else Some (COAP_SUCCESS, c\<lparr>sendlist := list_add (send_node tick (platform_is_multicast dest) tok remote m buffer) (sendlist c)\<rparr>) } }"

text \<open>\<open>HAL_Snprintf (ptr, room, "%02X", b)\<close> at position \<open>p\<close> of the buffer: a negative size converts to a huge one.\<close>

definition snprintf_hex :: "bytes \<Rightarrow> nat \<Rightarrow> int \<Rightarrow> byte \<Rightarrow> bytes option" where
  "snprintf_hex buf p room b = (let t = [hex_upper ! unat (drop_bit 4 b), hex_upper ! unat (b AND 15)] in
     if room = 0 then Some buf
     else if 0 < room \<and> room \<le> 2 then store_n buf p (take (nat room - 1) t @ [0])
     else store_n buf p (t @ [0]))"

fun token_dump_loop :: "bytes \<Rightarrow> nat \<Rightarrow> nat \<Rightarrow> bytes \<Rightarrow> nat \<Rightarrow> int \<Rightarrow> bytes option" where
  "token_dump_loop tok 0 index buf p room = Some buf"
| "token_dump_loop tok (Suc left) index buf p room = do {
     b \<leftarrow> load tok index;
     buf \<leftarrow> snprintf_hex buf p room b;
     token_dump_loop tok left (index + 1) buf (p + 2) (room - 2) }"

definition CoAPMessageToken_dump :: "bytes \<Rightarrow> byte \<Rightarrow> bytes option" where
  "CoAPMessageToken_dump tok tlen = token_dump_loop tok (unat tlen) 0 (replicate 17 0) 0 16"

definition CoAPMessage_dump :: "CoAPMessage \<Rightarrow> unit option" where
  "CoAPMessage_dump m = do {
     _ \<leftarrow> CoAPMessageToken_dump (token m) (tokenlen (header m));
     _ \<leftarrow> CoAPUintOption_get m COAP_OPTION_CONTENT_FORMAT 0;
     Some () }"

definition CoAPMessage_send :: "coap_env \<Rightarrow> CoAPIntContext \<Rightarrow> NetworkAddr \<Rightarrow> CoAPMessage \<Rightarrow> (int \<times> CoAPIntContext) option" where
  "CoAPMessage_send e c remote m = do {
     let msglen = CoAPSerialize_MessageLength m;
     if COAP_MSG_MAX_PDU_LEN < msglen then Some (COAP_ERROR_DATA_SIZE, c)
     else do {
       let (ok, c) = coap_malloc e c;
       if \<not> ok then Some (COAP_ERROR_NULL, c)
       else do {
         (n, buff) \<leftarrow> CoAPSerialize_Message m (replicate msglen 0) msglen;
         let msglen = nat (n mod 65536);
         (_, c) \<leftarrow> CoAPObsClient_delete c m;
         bs \<leftarrow> load_n buff 0 msglen;
         let (w, c) = CoAPNetwork_write e c remote bs;
         if nat (w mod 65536) = msglen then
           (if CoAPReqMsg (header m) \<or> CoAPCONRespMsg (header m) then do {
              (ret, c) \<leftarrow> CoAPMessageList_add e c remote m bs;
              if ret \<noteq> COAP_SUCCESS then Some (ret, c)
              else do { _ \<leftarrow> CoAPMessage_dump m; Some (COAP_SUCCESS, c) } }
            else do { _ \<leftarrow> CoAPMessage_dump m; Some (COAP_SUCCESS, c) })
         else Some (COAP_ERROR_WRITE_FAILED, c) } } }"

definition CoAPMessageId_cancel :: "CoAPIntContext \<Rightarrow> u16 \<Rightarrow> int \<times> CoAPIntContext" where
  "CoAPMessageId_cancel c i = (COAP_SUCCESS, c\<lparr>sendlist := list_filter (\<lambda>n. msgid (n_header n) \<noteq> i) (sendlist c)\<rparr>)"

definition CoAPMessage_cancel :: "CoAPIntContext \<Rightarrow> CoAPMessage \<Rightarrow> int \<times> CoAPIntContext" where
  "CoAPMessage_cancel c m = (COAP_SUCCESS, c\<lparr>sendlist := list_filter (\<lambda>n. msgid (n_header n) \<noteq> msgid (header m)) (sendlist c)\<rparr>)"

section \<open>Received messages\<close>

definition CoAPAckMessage_handle :: "CoAPIntContext \<Rightarrow> CoAPMessage \<Rightarrow> int \<times> CoAPIntContext" where
  "CoAPAckMessage_handle c m = (case find_index (\<lambda>n. Some (msgid (n_header n) = msgid (header m))) (nodes (sendlist c)) of
     Some (Some i) \<Rightarrow>
       let n = nodes (sendlist c) ! i;
           c = c\<lparr>sendlist := (if CoAPRespMsg (n_header n) then list_remove i (sendlist c)
                  else list_change i (\<lambda>n. n\<lparr>acked := True\<rparr>) (sendlist c))\<rparr>
       in (COAP_SUCCESS, call_handler (n_handler n) COAP_RECV_RESP_SUC (n_user n) (n_remote n) None c)
   | _ \<Rightarrow> (COAP_SUCCESS, c))"

definition CoAPAckMessage_send :: "coap_env \<Rightarrow> CoAPIntContext \<Rightarrow> NetworkAddr \<Rightarrow> u16 \<Rightarrow> (int \<times> CoAPIntContext) option" where
  "CoAPAckMessage_send e c remote i = CoAPMessage_send e c remote (snd (CoAPMessageId_set CoAPMessage_init i))"

definition CoAPRestMessage_send :: "coap_env \<Rightarrow> CoAPIntContext \<Rightarrow> NetworkAddr \<Rightarrow> u16 \<Rightarrow> (int \<times> CoAPIntContext) option" where
  "CoAPRestMessage_send e c remote i =
    CoAPMessage_send e c remote (snd (CoAPMessageId_set (snd (CoAPMessageType_set CoAPMessage_init COAP_MESSAGE_TYPE_RST)) i))"

definition CoAPErrRespMessage_send :: "coap_env \<Rightarrow> CoAPIntContext \<Rightarrow> NetworkAddr \<Rightarrow> CoAPMessage \<Rightarrow> byte \<Rightarrow> (int \<times> CoAPIntContext) option" where
  "CoAPErrRespMessage_send e c remote m err_code = do {
     let response = snd (CoAPMessageId_set (snd (CoAPMessageCode_set CoAPMessage_init err_code)) (msgid (header m)));
     (_, response) \<leftarrow> CoAPMessageToken_set response (Some (token m)) (tokenlen (header m));
     let response = snd (CoAPMessageType_set response
       (if type (header m) = COAP_MESSAGE_TYPE_CON then COAP_MESSAGE_TYPE_ACK else type (header m)));
     CoAPMessage_send e c remote response }"

text \<open>The function returns \<open>COAP_ERROR_NOT_FOUND\<close> in every case.\<close>

definition CoAPRespMessage_handle :: "coap_env \<Rightarrow> CoAPIntContext \<Rightarrow> NetworkAddr \<Rightarrow> CoAPMessage \<Rightarrow> (int \<times> CoAPIntContext) option" where
  "CoAPRespMessage_handle e c remote m = do {
     (_, c) \<leftarrow> (if type (header m) = COAP_MESSAGE_TYPE_CON then CoAPAckMessage_send e c remote (msgid (header m)) else Some (0, c));
     hit \<leftarrow> find_index (\<lambda>n. token_match (tokenlen (n_header n)) (n_token n) m) (nodes (sendlist c));
     case hit of
       Some i \<Rightarrow> do {
         let n = nodes (sendlist c) ! i;
         let c = (if n_keep n = 0 then c\<lparr>sendlist := list_remove i (sendlist c)\<rparr> else c);
         let m = m\<lparr>msg_user := n_user n\<rparr>;
         (case n_handler n of
           Some h \<Rightarrow> do {
             (_, c) \<leftarrow> CoAPObsClient_add e c m remote (Some n);
             Some (COAP_ERROR_NOT_FOUND, call_handler (Some h) COAP_REQUEST_SUCCESS (msg_user m) remote (Some m) c) }
         | None \<Rightarrow> Some (COAP_ERROR_NOT_FOUND, c)) }
     | None \<Rightarrow> do {
         (_, c) \<leftarrow> CoAPObsClient_add e c m remote None;
         Some (COAP_ERROR_NOT_FOUND, c) } }"

definition CoAPRequestMessage_ack_send :: "coap_env \<Rightarrow> CoAPIntContext \<Rightarrow> NetworkAddr \<Rightarrow> u16 \<Rightarrow> (int \<times> CoAPIntContext) option" where
  "CoAPRequestMessage_ack_send e c remote i = CoAPMessage_send e c remote (snd (CoAPMessageId_set CoAPMessage_init i))"

text \<open>The bytes \<open>strncpy\<close> writes: the text up to a NUL, padded with NULs; it faults when the source ends before.\<close>

definition strncpy_src :: "bytes option \<Rightarrow> nat \<Rightarrow> bytes option" where
  "strncpy_src v n = (case v of None \<Rightarrow> if n = 0 then Some [] else None
     | Some v \<Rightarrow> let s = takeWhile (\<lambda>x. x \<noteq> 0) (take n v) in
         if length s < n \<and> length s = length v then None else Some (s @ replicate (n - length s) 0))"

fun request_path :: "CoAPMsgOption list \<Rightarrow> bytes \<Rightarrow> nat \<Rightarrow> bytes option" where
  "request_path [] p tmp = Some p"
| "request_path (o' # os) p tmp =
    (if num o' = COAP_OPTION_URI_PATH \<and> COAP_MSG_MAX_PATH_LEN - 1 \<ge> tmp + unat (len o') then do {
       p \<leftarrow> store p tmp slash;
       s \<leftarrow> strncpy_src (val o') (unat (len o'));
       p \<leftarrow> store_n p (tmp + 1) s;
       request_path os p (tmp + 1 + unat (len o')) }
     else request_path os p tmp)"

definition CoAPRequestMessage_handle :: "coap_env \<Rightarrow> CoAPIntContext \<Rightarrow> NetworkAddr \<Rightarrow> CoAPMessage \<Rightarrow> (int \<times> CoAPIntContext) option" where
  "CoAPRequestMessage_handle e c remote m = do {
     pbuf \<leftarrow> request_path (take (optcount m) (options m)) (replicate COAP_MSG_MAX_PATH_LEN 0) 0;
     p \<leftarrow> c_text pbuf;
     res \<leftarrow> CoAPResourceByPath_get (junk e) (resource c) p;
     case res of
       Some r \<Rightarrow> (case callback r of
           Some cb \<Rightarrow>
             if permission r AND push_bit (unat (code (header m)) - 1) 1 > 0 then do {
               (_, c) \<leftarrow> (if type (header m) = COAP_MESSAGE_TYPE_CON then CoAPRequestMessage_ack_send e c remote (msgid (header m)) else Some (0, c));
               Some (COAP_SUCCESS, emit_event (Request cb p remote m) c) }
             else CoAPErrRespMessage_send e c remote m 0x85
         | None \<Rightarrow> CoAPErrRespMessage_send e c remote m 0x85)
     | None \<Rightarrow> CoAPErrRespMessage_send e c remote m 0x84 }"

text \<open>The message structure after \<open>memset\<close>.  The result of the parser is not looked at.\<close>

definition zero_message :: CoAPMessage where
  "zero_message = CoAPMessage_init\<lparr>header := \<lparr>version = 0, type = 0, tokenlen = 0, code = 0, msgid = 0\<rparr>\<rparr>"

definition CoAPMessage_handle :: "coap_env \<Rightarrow> CoAPIntContext \<Rightarrow> NetworkAddr \<Rightarrow> bytes \<Rightarrow> nat \<Rightarrow> CoAPIntContext option" where
  "CoAPMessage_handle e c remote buf datalen = do {
     (ret, m) \<leftarrow> CoAPDeserialize_Message zero_message buf (int datalen);
     _ \<leftarrow> CoAPMessage_dump m;
     if COAPAckMsg (header m) \<or> CoAPResetMsg (header m) then Some (snd (CoAPAckMessage_handle c m))
     else if CoAPRespMsg (header m) then map_option snd (CoAPRespMessage_handle e c remote m)
     else if CoAPPingMsg (header m) then map_option snd (CoAPRestMessage_send e c remote (msgid (header m)))
     else if CoAPReqMsg (header m) then map_option snd (CoAPRequestMessage_handle e c remote m)
     else Some c }"

text \<open>One round of the loop in \<open>CoAPMessage_process\<close>: \<open>Inl\<close> goes on, \<open>Inr\<close> returns.  The datagram is written to the
  zeroed receive buffer.\<close>

definition process_round :: "coap_env \<Rightarrow> CoAPIntContext \<Rightarrow> (CoAPIntContext + int \<times> CoAPIntContext) option" where
  "process_round e c = (case rd e (rn c) of (n, remote, dgram) \<Rightarrow> do {
     buf \<leftarrow> store_n (replicate COAP_MSG_MAX_PDU_LEN 0) 0 dgram;
     let c = c\<lparr>rn := rn c + 1, recvbuf := buf\<rparr>;
     from_addr \<leftarrow> c_text (addr remote);
     if from_addr = ip e then Some (Inl c)
     else if n > 0 then map_option Inl (CoAPMessage_handle e c remote buf (nat (n mod 65536)))
     else Some (Inr (n, c)) })"

partial_function (option) CoAPMessage_process :: "coap_env \<Rightarrow> CoAPIntContext \<Rightarrow> (int \<times> CoAPIntContext) option" where
  "CoAPMessage_process e c = do {
     r \<leftarrow> process_round e c;
     case r of Inl c \<Rightarrow> CoAPMessage_process e c | Inr x \<Rightarrow> Some x }"

section \<open>Retransmission\<close>

definition CoapObsServerAll_delete :: "CoAPIntContext \<Rightarrow> NetworkAddr \<Rightarrow> CoAPIntContext" where
  "CoapObsServerAll_delete c remote = c\<lparr>obsserver := list_filter (\<lambda>n. \<not> (port (os_remote n) = port remote \<and> addr (os_remote n) = addr remote)) (obsserver c)\<rparr>"

definition expired :: "nat \<Rightarrow> CoAPSendNode \<Rightarrow> bool" where
  "expired tick n \<longleftrightarrow> \<not> (n_keep n \<noteq> 0) \<and> \<not> (retrans_count n > 0 \<or> timeout n \<ge> tick)"

text \<open>The node at index \<open>i\<close> leaves the list, with the observers at its address, and its handler is told.\<close>

definition expire_node :: "nat \<Rightarrow> CoAPIntContext \<Rightarrow> CoAPIntContext" where
  "expire_node i c = (let n = nodes (sendlist c) ! i in
     call_handler (n_handler n) COAP_RECV_RESP_TIMEOUT (n_user n) (n_remote n) None
       (CoapObsServerAll_delete (c\<lparr>sendlist := list_remove i (sendlist c)\<rparr>) (n_remote n)))"

function check_timeout_loop :: "nat \<Rightarrow> CoAPIntContext \<Rightarrow> CoAPIntContext" where
  "check_timeout_loop tick c = (case find_index (\<lambda>n. Some (expired tick n)) (nodes (sendlist c)) of
     Some (Some i) \<Rightarrow> check_timeout_loop tick (expire_node i c)
   | _ \<Rightarrow> c)"
  by pat_completeness auto

lemma find_index_bound: "find_index P xs = Some (Some i) \<Longrightarrow> i < length xs \<and> P (xs ! i) = Some True"
  by (induction xs arbitrary: i) (auto simp: bind_eq_Some_conv split: if_splits)

lemma call_handler_fields [simp]:
  "sendlist (call_handler h r u a m c) = sendlist c" "obsserver (call_handler h r u a m c) = obsserver c"
  "obsclient (call_handler h r u a m c) = obsclient c" "resource (call_handler h r u a m c) = resource c"
  "message_id (call_handler h r u a m c) = message_id c"
  by (auto simp: call_handler_def emit_event_def split: option.splits)

termination check_timeout_loop
  by (relation "measure (\<lambda>(tick, c). length (nodes (sendlist c)))")
    (auto simp: expire_node_def Let_def CoapObsServerAll_delete_def list_remove_def dest!: find_index_bound)

declare check_timeout_loop.simps [simp del]

definition Check_timeout :: "coap_env \<Rightarrow> CoAPIntContext \<Rightarrow> CoAPIntContext" where
  "Check_timeout e c = (case HAL_UptimeMs e c of (tick, c) \<Rightarrow> check_timeout_loop tick c)"

text \<open>What happens to one node; \<open>node->timeout_val * 3 / 2\<close> is computed as \<open>int\<close> and stored in 16 bits.\<close>

definition retransmit_due :: "nat \<Rightarrow> CoAPSendNode \<Rightarrow> bool" where
  "retransmit_due tick n \<longleftrightarrow> \<not> timeout n > tick \<and> retrans_count n > 0"

definition retransmit_node :: "nat \<Rightarrow> CoAPSendNode \<Rightarrow> CoAPSendNode" where
  "retransmit_node tick n = (if retransmit_due tick n then
       let n = n\<lparr>timeout_val := of_nat (unat (timeout_val n) * 3 div 2)\<rparr>;
           n = n\<lparr>retrans_count := retrans_count n - 1\<rparr>
       in n\<lparr>timeout := (if retrans_count n = 0 then tick + unat COAP_ACK_TIMEOUT else tick + unat (timeout_val n))\<rparr>
     else n)"

fun retransmit_loop :: "coap_env \<Rightarrow> nat \<Rightarrow> CoAPSendNode list \<Rightarrow> CoAPIntContext \<Rightarrow> CoAPSendNode list \<times> CoAPIntContext" where
  "retransmit_loop e tick [] c = ([], c)"
| "retransmit_loop e tick (n # ns) c =
    (let c = (if retransmit_due tick n \<and> \<not> acked n then snd (CoAPNetwork_write e c (n_remote n) (n_message n)) else c);
         (ns, c) = retransmit_loop e tick ns c
     in (retransmit_node tick n # ns, c))"

definition Retansmit :: "coap_env \<Rightarrow> CoAPIntContext \<Rightarrow> CoAPIntContext" where
  "Retansmit e c = (case HAL_UptimeMs e c of (tick, c) \<Rightarrow>
     case retransmit_loop e tick (nodes (sendlist c)) c of (ns, c) \<Rightarrow> c\<lparr>sendlist := (sendlist c)\<lparr>nodes := ns\<rparr>\<rparr>)"

definition CoAPMessage_cycle :: "coap_env \<Rightarrow> CoAPIntContext \<Rightarrow> (int \<times> CoAPIntContext) option" where
  "CoAPMessage_cycle e c = do {
     (res, c) \<leftarrow> CoAPMessage_process e c;
     let c = Check_timeout e (Retansmit e c);
     Some (res, if res < 0 then emit_event (Slept 20) c else c) }"

section \<open>Observers\<close>

definition CoAPObsServer_add :: "coap_env \<Rightarrow> CoAPIntContext \<Rightarrow> bytes \<Rightarrow> NetworkAddr \<Rightarrow> CoAPMessage \<Rightarrow> u32 \<Rightarrow> (int \<times> CoAPIntContext) option" where
  "CoAPObsServer_add e c p remote request uninit = do {
     res \<leftarrow> CoAPResourceByPath_get (junk e) (resource c) p;
     (ret, obs) \<leftarrow> CoAPUintOption_get request COAP_OPTION_OBSERVE uninit;
     case res of None \<Rightarrow> Some (COAP_ERROR_NOT_FOUND, c)
     | Some r \<Rightarrow>
       if ret = COAP_SUCCESS \<and> obs = 0 then
         (case find_index (\<lambda>n. Some (res_id (p_resource_of_interest n) = res_id r \<and> port (os_remote n) = port remote \<and> addr (os_remote n) = addr remote))
             (nodes (obsserver c)) of
           Some (Some i) \<Rightarrow> do {
             tok \<leftarrow> copy_token request (os_token (nodes (obsserver c) ! i));
             Some (COAP_ERROR_OBJ_ALREADY_EXIST, c\<lparr>obsserver := list_change i
               (\<lambda>n. n\<lparr>os_token := tok, os_tokenlen := tokenlen (header request)\<rparr>) (obsserver c)\<rparr>) }
         | _ \<Rightarrow> do {
             let (ok, c) = coap_malloc e c;
             if \<not> ok then Some (COAP_ERROR_MALLOC, c)
             else do {
               tok \<leftarrow> copy_token request (replicate 8 0);
               (_, acceptype) \<leftarrow> CoAPUintOption_get request COAP_OPTION_ACCEPT 0;
               let node = \<lparr>os_remote = remote, os_token = tok, os_tokenlen = tokenlen (header request),
                 os_ctype = ucast (if acceptype = 0 then COAP_CT_APP_JSON else acceptype), p_resource_of_interest = r,
                 observer_sequence_num = 0, os_msg_type = type (header request)\<rparr>;
               if count (obsserver c) \<ge> maxcount (obsserver c) then Some (COAP_ERROR_DATA_SIZE, c)
               else Some (COAP_SUCCESS, c\<lparr>obsserver := list_add node (obsserver c)\<rparr>) } })
       else Some (COAP_ERROR_NOT_FOUND, c) }"

definition CoapObsServer_delete :: "CoAPIntContext \<Rightarrow> NetworkAddr \<Rightarrow> CoAPResource \<Rightarrow> int \<times> CoAPIntContext" where
  "CoapObsServer_delete c remote r =
    (COAP_SUCCESS, case find_index (\<lambda>n. Some (res_id (p_resource_of_interest n) = res_id r \<and> port (os_remote n) = port remote \<and> addr (os_remote n) = addr remote))
         (nodes (obsserver c)) of
       Some (Some i) \<Rightarrow> c\<lparr>obsserver := list_remove i (obsserver c)\<rparr> | _ \<Rightarrow> c)"

text \<open>A number option whose allocation is the next one of the environment; no allocation is made for 0.\<close>

definition add_uint :: "coap_env \<Rightarrow> u16 \<Rightarrow> u32 \<Rightarrow> CoAPMessage \<Rightarrow> CoAPIntContext \<Rightarrow> CoAPMessage \<times> CoAPIntContext" where
  "add_uint e n d m c = (if d = 0 \<or> optcount m \<ge> 12 then (snd (CoAPUintOption_add True m n d), c)
     else case coap_malloc e c of (ok, c) \<Rightarrow> (snd (CoAPUintOption_add ok m n d), c))"

text \<open>The notification for one observer, and the loop over the observers by index.  \<open>enc\<close> is the encryption callback:
  its result, and the payload it produces.\<close>

definition notify_one :: "coap_env \<Rightarrow> (NetworkAddr \<Rightarrow> CoAPMessage \<Rightarrow> bytes option \<Rightarrow> int \<times> bytes) option \<Rightarrow> CoAPResource
    \<Rightarrow> bytes option \<Rightarrow> u16 \<Rightarrow> nat \<Rightarrow> CoAPIntContext \<Rightarrow> (int \<times> CoAPIntContext) option" where
  "notify_one e enc r pl pn i c = do {
     let n = nodes (obsserver c) ! i;
     let m = snd (CoAPMessageType_set CoAPMessage_init (os_msg_type n));
     let m = snd (CoAPMessageCode_set m 0x45);
     let (mid, c) = CoAPMessageId_gen c;
     let m = snd (CoAPMessageId_set m mid);
     let m = snd (CoAPMessageHandler_set m None);
     let m = snd (CoAPMessageUserData_set m (Suc (res_id r)));
     (_, m) \<leftarrow> CoAPMessageToken_set m (Some (os_token n)) (os_tokenlen n);
     let (m, c) = add_uint e COAP_OPTION_OBSERVE (observer_sequence_num n) m c;
     let c = c\<lparr>obsserver := list_change i (\<lambda>n. n\<lparr>observer_sequence_num := observer_sequence_num n + 1\<rparr>) (obsserver c)\<rparr>;
     let (m, c) = add_uint e COAP_OPTION_CONTENT_FORMAT (ucast (os_ctype n)) m c;
     let (m, c) = add_uint e COAP_OPTION_MAXAGE (maxage r) m c;
     let m = (case enc of
         Some f \<Rightarrow> (case f (os_remote n) m pl of (ret, d) \<Rightarrow>
           if ret = COAP_SUCCESS then snd (CoAPMessagePayload_set m (Some d) (of_nat (length d))) else m)
       | None \<Rightarrow> snd (CoAPMessagePayload_set m pl pn));
     CoAPMessage_send e c (os_remote n) m }"

fun notify_loop :: "coap_env \<Rightarrow> (NetworkAddr \<Rightarrow> CoAPMessage \<Rightarrow> bytes option \<Rightarrow> int \<times> bytes) option \<Rightarrow> CoAPResource
    \<Rightarrow> bytes option \<Rightarrow> u16 \<Rightarrow> nat list \<Rightarrow> int \<Rightarrow> CoAPIntContext \<Rightarrow> (int \<times> CoAPIntContext) option" where
  "notify_loop e enc r pl pn [] ret c = Some (ret, c)"
| "notify_loop e enc r pl pn (i # is) ret c =
    (if res_id (p_resource_of_interest (nodes (obsserver c) ! i)) = res_id r then do {
       (ret, c) \<leftarrow> notify_one e enc r pl pn i c;
       notify_loop e enc r pl pn is ret c }
     else notify_loop e enc r pl pn is ret c)"

definition CoAPObsServer_notify :: "coap_env \<Rightarrow> CoAPIntContext \<Rightarrow> bytes \<Rightarrow> bytes option \<Rightarrow> u16
    \<Rightarrow> (NetworkAddr \<Rightarrow> CoAPMessage \<Rightarrow> bytes option \<Rightarrow> int \<times> bytes) option \<Rightarrow> (int \<times> CoAPIntContext) option" where
  "CoAPObsServer_notify e c p pl pn enc = do {
     res \<leftarrow> CoAPResourceByPath_get (junk e) (resource c) p;
     case res of None \<Rightarrow> Some (COAP_SUCCESS, c)
     | Some r \<Rightarrow> notify_loop e enc r pl pn [0..<length (nodes (obsserver c))] COAP_SUCCESS c }"

section \<open>Context and application interface\<close>

text \<open>Whether the context, the receive buffer, the mutex and the network object are obtained are the first four parameters.
  The failure exit walks the lists of observers and resources; when the buffer or the mutex is missing they are not
  initialised yet, and the walk starts at a null pointer.  Zero limits are replaced by 8 and a zero waiting time by 2000 ms.\<close>

definition CoAPContext_create :: "bool \<Rightarrow> bool \<Rightarrow> bool \<Rightarrow> bool \<Rightarrow> byte \<Rightarrow> byte \<Rightarrow> byte \<Rightarrow> u32 \<Rightarrow> CoAPIntContext option option" where
  "CoAPContext_create got_ctx got_buf got_mutex got_net send_max res_max obs_max wait =
    (if \<not> got_ctx then Some None
     else if \<not> got_buf \<or> \<not> got_mutex then None
     else let obs = (if obs_max = 0 then 8 else obs_max);
              c = \<lparr>message_id = 1, recvbuf = replicate COAP_MSG_MAX_PDU_LEN 0,
       sendlist = \<lparr>nodes = [], count = 0, maxcount = (if send_max \<noteq> 0 then send_max else 8)\<rparr>,
       obsserver = \<lparr>nodes = [], count = 0, maxcount = obs\<rparr>, obsclient = \<lparr>nodes = [], count = 0, maxcount = obs\<rparr>,
       resource = snd (CoAPResource_init (if res_max = 0 then 8 else res_max)),
       waittime = (if wait = 0 then 2000 else wait), server_token = 0x01020304, wn = 0, mn = 0, tn = 0, rn = 0, trace = []\<rparr>
     in if \<not> got_net then Some None else Some (Some c))"

text \<open>The context in the global variable is used when there is one.  Semaphore and thread are left out.\<close>

definition CoAPServer_init :: "CoAPIntContext option \<Rightarrow> bool \<Rightarrow> bool \<Rightarrow> bool \<Rightarrow> bool \<Rightarrow> CoAPIntContext option option" where
  "CoAPServer_init g got_ctx got_buf got_mutex got_net = (case g of Some c \<Rightarrow> Some (Some c)
     | None \<Rightarrow> CoAPContext_create got_ctx got_buf got_mutex got_net 16 255 16 50)"

definition CoAPServerToken_get :: "CoAPIntContext \<Rightarrow> bytes \<times> CoAPIntContext" where
  "CoAPServerToken_get c = (let v = server_token c in
     ([ucast (v AND 0xFF), ucast (drop_bit 8 (v AND 0xFF00)), ucast (drop_bit 16 (v AND 0xFF0000)), ucast (drop_bit 24 (v AND 0xFF000000))],
      c\<lparr>server_token := v + 1\<rparr>))"

text \<open>The segments of a path: \<open>seg\<close> is the text from \<open>pstr\<close> to \<open>ptr\<close>.\<close>

fun uri_segments :: "bytes \<Rightarrow> bytes \<Rightarrow> bytes list" where
  "uri_segments seg [] = []"
| "uri_segments seg (ch # rest) =
    (let done = (if ch = slash \<and> seg \<noteq> [] then [seg] else []);
         seg = (if ch = slash then [] else seg @ [ch])
     in done @ (if rest = [] then (if seg \<noteq> [] then [seg] else []) else uri_segments seg rest))"

fun add_segments :: "coap_env \<Rightarrow> bytes list \<Rightarrow> CoAPMessage \<Rightarrow> CoAPIntContext \<Rightarrow> (CoAPMessage \<times> CoAPIntContext) option" where
  "add_segments e [] m c = Some (m, c)"
| "add_segments e (s # ss) m c = do {
     let (ok, c) = (if optcount m \<ge> 12 then (True, c) else coap_malloc e c);
     (_, m) \<leftarrow> CoAPStrOption_add ok m COAP_OPTION_URI_PATH s (of_nat (length s));
     add_segments e ss m c }"

definition CoAPServerPath_2_option :: "coap_env \<Rightarrow> bytes \<Rightarrow> CoAPMessage \<Rightarrow> CoAPIntContext \<Rightarrow> (int \<times> CoAPMessage \<times> CoAPIntContext) option" where
  "CoAPServerPath_2_option e uri m c =
    (if COAP_MSG_MAX_PATH_LEN \<le> length uri then Some (COAP_ERROR_INVALID_LENGTH, m, c)
     else do { (m, c) \<leftarrow> add_segments e (uri_segments [] uri) m c; Some (COAP_SUCCESS, m, c) })"

definition CoAPServer_register :: "coap_env \<Rightarrow> CoAPIntContext \<Rightarrow> bytes \<Rightarrow> nat option \<Rightarrow> (int \<times> CoAPIntContext) option" where
  "CoAPServer_register e c uri cb = do {
     let (ok, c) = coap_malloc e c;
     let (ok2, c) = coap_malloc e c;
     (rc, rl) \<leftarrow> CoAPResource_register (junk e) ok ok2 (resource c) uri 1 COAP_CT_APP_JSON 60 cb;
     Some (rc, c\<lparr>resource := rl\<rparr>) }"

text \<open>The result is the return value, the message id and the state.\<close>

definition CoAPServerMultiCast_send :: "coap_env \<Rightarrow> CoAPIntContext \<Rightarrow> NetworkAddr \<Rightarrow> bytes \<Rightarrow> bytes \<Rightarrow> u16 \<Rightarrow> nat option
    \<Rightarrow> (int \<times> u16 \<times> CoAPIntContext) option" where
  "CoAPServerMultiCast_send e c remote uri buff n cb = do {
     let m = snd (CoAPMessageType_set CoAPMessage_init COAP_MESSAGE_TYPE_NON);
     let m = snd (CoAPMessageCode_set m 2);
     let (mid, c) = CoAPMessageId_gen c;
     let m = snd (CoAPMessageId_set m mid);
     let (tok, c) = CoAPServerToken_get c;
     (_, m) \<leftarrow> CoAPMessageToken_set m (Some (tok @ replicate 4 0)) 4;
     let m = snd (CoAPMessageHandler_set m cb);
     let m = snd (CoAPMessageKeep_Set m 1);
     (_, m, c) \<leftarrow> CoAPServerPath_2_option e uri m c;
     let (m, c) = add_uint e COAP_OPTION_CONTENT_FORMAT COAP_CT_APP_JSON m c;
     let m = snd (CoAPMessagePayload_set m (Some buff) n);
     (ret, c) \<leftarrow> CoAPMessage_send e c remote m;
     Some (ret, mid, c) }"

definition CoAPServerResp_send :: "coap_env \<Rightarrow> CoAPIntContext \<Rightarrow> NetworkAddr \<Rightarrow> bytes \<Rightarrow> u16 \<Rightarrow> CoAPMessage \<Rightarrow> bytes \<Rightarrow> nat option \<Rightarrow> bool
    \<Rightarrow> u32 \<Rightarrow> (int \<times> u16 \<times> CoAPIntContext) option" where
  "CoAPServerResp_send e c remote buff n request paths cb qos uninit = do {
     let m = snd (CoAPMessageType_set CoAPMessage_init (if \<not> qos then COAP_MESSAGE_TYPE_NON else COAP_MESSAGE_TYPE_CON));
     let m = snd (CoAPMessageCode_set m 0x45);
     let m = snd (CoAPMessageId_set m (msgid (header request)));
     (_, m) \<leftarrow> CoAPMessageToken_set m (Some (token request)) (tokenlen (header request));
     let m = snd (CoAPMessageHandler_set m cb);
     (ret, obs) \<leftarrow> CoAPUintOption_get request COAP_OPTION_OBSERVE 0;
     (m, c) \<leftarrow> (if ret = COAP_SUCCESS \<and> obs = 0 then do {
         (_, c) \<leftarrow> CoAPObsServer_add e c paths remote request uninit;
         Some (add_uint e COAP_OPTION_OBSERVE 0 m c) }
       else Some (m, c));
     let (m, c) = add_uint e COAP_OPTION_CONTENT_FORMAT COAP_CT_APP_JSON m c;
     let m = snd (CoAPMessagePayload_set m (Some buff) n);
     (ret, c) \<leftarrow> CoAPMessage_send e c remote m;
     Some (ret, msgid (header request), c) }"

end
