(* ===== verification/CoAP_Server_Inv.thy ===== *)
theory CoAP_Server_Inv
  imports CoAP_Server
begin

text \<open>
  The invariant of the CoAP server: the counts of the lists are their lengths and stay within the limits, tokens fit
  their arrays, and a message waiting for an answer has at most eight retransmissions left.  Every operation keeps it.
\<close>

section \<open>Counted lists\<close>

definition list_ok :: "'a CoAPList \<Rightarrow> bool" where
  "list_ok l \<longleftrightarrow> unat (count l) = length (nodes l) \<and> count l \<le> maxcount l"

lemma list_ok_add: "list_ok l \<Longrightarrow> \<not> maxcount l \<le> count l \<Longrightarrow> list_ok (list_add x l)"
proof -
  assume l: "list_ok l" "\<not> maxcount l \<le> count l"
  then have lt: "count l < maxcount l" by simp
  then have "unat (count l) < unat (maxcount l)" by (simp add: word_less_nat_alt)
  moreover have "unat (maxcount l) < 256" using unsigned_less [of "maxcount l", where ?'a = nat] by simp
  ultimately have "unat (count l + 1) = unat (count l) + 1" by (simp add: unat_word_ariths)
  with l lt show ?thesis by (simp add: list_ok_def list_add_def word_le_nat_alt word_less_nat_alt)
qed

lemma list_ok_shrink:
  assumes "list_ok l" "k \<le> length (nodes l)" "length xs = length (nodes l) - k"
  shows "list_ok (l\<lparr>nodes := xs, count := count l - of_nat k\<rparr>)"
proof -
  have k: "k \<le> unat (count l)" using assms by (simp add: list_ok_def)
  moreover have "unat (count l) < 256" using unsigned_less [of "count l", where ?'a = nat] by simp
  ultimately have "unat (of_nat k :: byte) = k" by (simp add: unat_of_nat)
  then have "unat (count l - of_nat k) = unat (count l) - k" using k by (simp add: unat_sub word_le_nat_alt)
  with assms show ?thesis by (auto simp: list_ok_def word_le_nat_alt)
qed

lemma list_ok_remove: "list_ok l \<Longrightarrow> i < length (nodes l) \<Longrightarrow> list_ok (list_remove i l)"
  using list_ok_shrink [of l 1 "take i (nodes l) @ drop (Suc i) (nodes l)"] by (simp add: list_remove_def)

lemma list_ok_filter: "list_ok l \<Longrightarrow> list_ok (list_filter P l)"
  using list_ok_shrink [of l "length (filter (\<lambda>x. \<not> P x) (nodes l))" "filter P (nodes l)"] sum_length_filter_compl [of P "nodes l"]
  by (simp add: list_filter_def)

lemma list_ok_change: "list_ok l \<Longrightarrow> list_ok (list_change i f l)"
  by (simp add: list_ok_def list_change_def)

lemma list_ok_nodes: "list_ok l \<Longrightarrow> length xs = length (nodes l) \<Longrightarrow> list_ok (l\<lparr>nodes := xs\<rparr>)"
  by (simp add: list_ok_def)

lemmas list_ok_ops = list_ok_add list_ok_remove list_ok_filter list_ok_change list_ok_nodes

text \<open>Nodes of the lists after an operation.\<close>

lemma set_list_ops:
  "set (nodes (list_add x l)) = insert x (set (nodes l))"
  "set (nodes (list_remove i l)) \<subseteq> set (nodes l)"
  "set (nodes (list_filter P l)) \<subseteq> set (nodes l)"
  "i < length (nodes l) \<Longrightarrow> set (nodes (list_change i f l)) \<subseteq> insert (f (nodes l ! i)) (set (nodes l))"
  by (auto simp: list_add_def list_remove_def list_filter_def list_change_def
      dest: in_set_takeD in_set_dropD set_update_subset_insert [THEN subsetD])

section \<open>The invariant\<close>

definition node_ok :: "CoAPSendNode \<Rightarrow> bool" where
  "node_ok n \<longleftrightarrow> length (n_token n) = 8 \<and> tokenlen (n_header n) \<le> 8 \<and> retrans_count n \<le> 8"

definition observable_ok :: "CoAPObservable \<Rightarrow> bool" where
  "observable_ok n \<longleftrightarrow> length (oc_token n) = 8 \<and> oc_tokenlen n \<le> 8"

definition observer_ok :: "CoapObserver \<Rightarrow> bool" where
  "observer_ok n \<longleftrightarrow> length (os_token n) = 8 \<and> os_tokenlen n \<le> 8"

definition resources_ok :: "resource_list \<Rightarrow> bool" where
  "resources_ok rl \<longleftrightarrow> unat (res_count rl) = length (res_list rl) \<and> res_count rl \<le> res_maxcount rl
     \<and> (\<forall>r \<in> set (res_list rl). length (path r) = 5 \<and> res_id r < res_next rl) \<and> distinct (map res_id (res_list rl))"

definition srv_ok :: "CoAPIntContext \<Rightarrow> bool" where
  "srv_ok c \<longleftrightarrow> list_ok (sendlist c) \<and> list_ok (obsserver c) \<and> list_ok (obsclient c) \<and> resources_ok (resource c)
     \<and> (\<forall>n \<in> set (nodes (sendlist c)). node_ok n) \<and> (\<forall>n \<in> set (nodes (obsclient c)). observable_ok n)
     \<and> (\<forall>n \<in> set (nodes (obsserver c)). observer_ok n) \<and> message_id c \<noteq> 0"

text \<open>Changes of the state the invariant does not see.\<close>

lemma srv_ok_frame [simp]:
  "srv_ok (c\<lparr>wn := a\<rparr>) = srv_ok c" "srv_ok (c\<lparr>mn := a\<rparr>) = srv_ok c" "srv_ok (c\<lparr>tn := a\<rparr>) = srv_ok c" "srv_ok (c\<lparr>rn := a\<rparr>) = srv_ok c"
  "srv_ok (c\<lparr>trace := t\<rparr>) = srv_ok c" "srv_ok (c\<lparr>recvbuf := b\<rparr>) = srv_ok c" "srv_ok (c\<lparr>server_token := k\<rparr>) = srv_ok c"
  by (simp_all add: srv_ok_def)

lemma srv_ok_env [simp]:
  "srv_ok (snd (CoAPNetwork_write e c r bs)) = srv_ok c" "srv_ok (snd (coap_malloc e c)) = srv_ok c"
  "srv_ok (snd (HAL_UptimeMs e c)) = srv_ok c" "srv_ok (emit_event ev c) = srv_ok c" "srv_ok (call_handler h res u a m c) = srv_ok c"
  by (simp_all add: CoAPNetwork_write_def coap_malloc_def HAL_UptimeMs_def emit_event_def call_handler_def split: option.splits)

lemma srv_ok_lists:
  "srv_ok c \<Longrightarrow> list_ok l \<Longrightarrow> \<forall>n \<in> set (nodes l). node_ok n \<Longrightarrow> srv_ok (c\<lparr>sendlist := l\<rparr>)"
  "srv_ok c \<Longrightarrow> list_ok l2 \<Longrightarrow> \<forall>n \<in> set (nodes l2). observable_ok n \<Longrightarrow> srv_ok (c\<lparr>obsclient := l2\<rparr>)"
  "srv_ok c \<Longrightarrow> list_ok l3 \<Longrightarrow> \<forall>n \<in> set (nodes l3). observer_ok n \<Longrightarrow> srv_ok (c\<lparr>obsserver := l3\<rparr>)"
  "srv_ok c \<Longrightarrow> resources_ok rl \<Longrightarrow> srv_ok (c\<lparr>resource := rl\<rparr>)"
  by (simp_all add: srv_ok_def)

lemma srv_okD:
  "srv_ok c \<Longrightarrow> list_ok (sendlist c)" "srv_ok c \<Longrightarrow> list_ok (obsserver c)" "srv_ok c \<Longrightarrow> list_ok (obsclient c)"
  "srv_ok c \<Longrightarrow> resources_ok (resource c)"
  "srv_ok c \<Longrightarrow> n \<in> set (nodes (sendlist c)) \<Longrightarrow> node_ok n" "srv_ok c \<Longrightarrow> m \<in> set (nodes (obsclient c)) \<Longrightarrow> observable_ok m"
  "srv_ok c \<Longrightarrow> k \<in> set (nodes (obsserver c)) \<Longrightarrow> observer_ok k"
  by (simp_all add: srv_ok_def)

text \<open>The rules for one operation on one list; the list is a variable of its own so that they apply after other updates.\<close>

lemma srv_ok_remove:
  "srv_ok c \<Longrightarrow> sendlist c = l \<Longrightarrow> i < length (nodes l) \<Longrightarrow> srv_ok (c\<lparr>sendlist := list_remove i l\<rparr>)"
  "srv_ok c \<Longrightarrow> obsclient c = l2 \<Longrightarrow> i < length (nodes l2) \<Longrightarrow> srv_ok (c\<lparr>obsclient := list_remove i l2\<rparr>)"
  "srv_ok c \<Longrightarrow> obsserver c = l3 \<Longrightarrow> i < length (nodes l3) \<Longrightarrow> srv_ok (c\<lparr>obsserver := list_remove i l3\<rparr>)"
  using set_list_ops(2) [of i l] set_list_ops(2) [of i l2] set_list_ops(2) [of i l3]
  by (auto intro!: srv_ok_lists list_ok_remove simp: srv_okD)

lemma srv_ok_filter:
  "srv_ok c \<Longrightarrow> sendlist c = l \<Longrightarrow> srv_ok (c\<lparr>sendlist := list_filter P l\<rparr>)"
  "srv_ok c \<Longrightarrow> obsserver c = l3 \<Longrightarrow> srv_ok (c\<lparr>obsserver := list_filter Q l3\<rparr>)"
  using set_list_ops(3) [of P l] set_list_ops(3) [of Q l3]
  by (auto intro!: srv_ok_lists list_ok_filter simp: srv_okD)

lemma list_change_all:
  assumes "\<forall>n \<in> set (nodes l). P n" "\<And>n. P n \<Longrightarrow> P (f n)" "i < length (nodes l)"
  shows "\<forall>n \<in> set (nodes (list_change i f l)). P n"
  using set_list_ops(4) [OF assms(3), of f] assms by auto

lemma srv_ok_change:
  "srv_ok c \<Longrightarrow> sendlist c = l \<Longrightarrow> i < length (nodes l) \<Longrightarrow> (\<And>n. node_ok n \<Longrightarrow> node_ok (f n))
    \<Longrightarrow> srv_ok (c\<lparr>sendlist := list_change i f l\<rparr>)"
  "srv_ok c \<Longrightarrow> obsclient c = l2 \<Longrightarrow> i < length (nodes l2) \<Longrightarrow> (\<And>n. observable_ok n \<Longrightarrow> observable_ok (g n))
    \<Longrightarrow> srv_ok (c\<lparr>obsclient := list_change i g l2\<rparr>)"
  "srv_ok c \<Longrightarrow> obsserver c = l3 \<Longrightarrow> i < length (nodes l3) \<Longrightarrow> (\<And>n. observer_ok n \<Longrightarrow> observer_ok (h n))
    \<Longrightarrow> srv_ok (c\<lparr>obsserver := list_change i h l3\<rparr>)"
  using list_change_all [of l node_ok f i] list_change_all [of l2 observable_ok g i] list_change_all [of l3 observer_ok h i]
  by (auto intro!: srv_ok_lists list_ok_change simp: srv_okD)

lemma srv_ok_add:
  "srv_ok c \<Longrightarrow> sendlist c = l \<Longrightarrow> \<not> maxcount l \<le> count l \<Longrightarrow> node_ok x \<Longrightarrow> srv_ok (c\<lparr>sendlist := list_add x l\<rparr>)"
  "srv_ok c \<Longrightarrow> obsclient c = l2 \<Longrightarrow> \<not> maxcount l2 \<le> count l2 \<Longrightarrow> observable_ok y \<Longrightarrow> srv_ok (c\<lparr>obsclient := list_add y l2\<rparr>)"
  "srv_ok c \<Longrightarrow> obsserver c = l3 \<Longrightarrow> \<not> maxcount l3 \<le> count l3 \<Longrightarrow> observer_ok z \<Longrightarrow> srv_ok (c\<lparr>obsserver := list_add z l3\<rparr>)"
  by (auto intro!: srv_ok_lists list_ok_add simp: srv_okD set_list_ops(1))

lemma copy_token_Some: "copy_token m tok = Some t \<Longrightarrow> length tok = 8 \<Longrightarrow> length t = 8 \<and> tokenlen (header m) \<le> 8"
  by (auto simp: copy_token_def load_n_def store_n_def bind_eq_Some_conv word_le_nat_alt split: if_splits)

lemma copy_token_new: "copy_token m (replicate 8 0) = Some t \<Longrightarrow> length t = 8 \<and> tokenlen (header m) \<le> 8"
  using copy_token_Some [of m "replicate 8 0" t] by simp

section \<open>Operations\<close>

named_theorems srv_keeps \<open>operations that keep the invariant of the server\<close>

lemma ObsClient_add_keeps [srv_keeps]: "CoAPObsClient_add e c m remote sn = Some (r, c') \<Longrightarrow> srv_ok c \<Longrightarrow> srv_ok c'"
  by (auto simp: CoAPObsClient_add_def bind_eq_Some_conv coap_malloc_def observable_ok_def Let_def split: if_splits option.splits
      intro!: srv_ok_remove srv_ok_change srv_ok_add dest!: find_index_bound copy_token_Some)

lemma ObsClient_delete_keeps [srv_keeps]: "CoAPObsClient_delete c m = Some (r, c') \<Longrightarrow> srv_ok c \<Longrightarrow> srv_ok c'"
  by (auto simp: CoAPObsClient_delete_def bind_eq_Some_conv split: if_splits option.splits
      intro!: srv_ok_remove dest!: find_index_bound)

lemma no_wrap_16: "(i :: u16) \<noteq> 65535 \<Longrightarrow> i + 1 \<noteq> 0"
proof
  assume "i \<noteq> 65535" "i + 1 = 0"
  then have "i = - 1" by (simp add: add_eq_0_iff2)
  with \<open>i \<noteq> 65535\<close> show False by simp
qed

lemma MessageId_gen_keeps [srv_keeps]: "CoAPMessageId_gen c = (i, c') \<Longrightarrow> srv_ok c \<Longrightarrow> srv_ok c' \<and> i \<noteq> 0 \<and> obsserver c' = obsserver c"
  using no_wrap_16 [of "message_id c"] by (auto simp: CoAPMessageId_gen_def srv_ok_def split: if_splits)

lemma send_node_ok: "copy_token m (replicate 8 0) = Some tok \<Longrightarrow> node_ok (send_node tick mc tok remote m buf)"
  by (auto simp: send_node_def node_ok_def Let_def dest: copy_token_Some)

lemma MessageList_add_keeps [srv_keeps]: "CoAPMessageList_add e c remote m buf = Some (r, c') \<Longrightarrow> srv_ok c \<Longrightarrow> srv_ok c'"
  by (auto simp: CoAPMessageList_add_def bind_eq_Some_conv coap_malloc_def HAL_UptimeMs_def Let_def split: if_split_asm
      intro!: srv_ok_add send_node_ok)

lemma Message_send_keeps [srv_keeps]: "CoAPMessage_send e c remote m = Some (r, c') \<Longrightarrow> srv_ok c \<Longrightarrow> srv_ok c'"
  by (auto simp: CoAPMessage_send_def bind_eq_Some_conv coap_malloc_def CoAPNetwork_write_def Let_def split: if_split_asm
      dest!: MessageList_add_keeps ObsClient_delete_keeps)

lemma cancel_keeps: "srv_ok c \<Longrightarrow> srv_ok (snd (CoAPMessageId_cancel c i))" "srv_ok c \<Longrightarrow> srv_ok (snd (CoAPMessage_cancel c m))"
  by (simp_all add: CoAPMessageId_cancel_def CoAPMessage_cancel_def srv_ok_filter)

lemma AckMessage_handle_keeps: "srv_ok c \<Longrightarrow> srv_ok (snd (CoAPAckMessage_handle c m))"
proof -
  assume c: "srv_ok c"
  have "srv_ok (c\<lparr>sendlist := list_change i (\<lambda>n. n\<lparr>acked := True\<rparr>) (sendlist c)\<rparr>)" if "i < length (nodes (sendlist c))" for i
    using c that by (intro srv_ok_change) (simp_all add: node_ok_def)
  with c show ?thesis
    by (auto simp: CoAPAckMessage_handle_def Let_def split: option.splits dest!: find_index_bound intro!: srv_ok_remove)
qed

lemma small_sends_keep [srv_keeps]:
  "CoAPAckMessage_send e c remote i = Some (r, c') \<Longrightarrow> srv_ok c \<Longrightarrow> srv_ok c'"
  "CoAPRestMessage_send e c remote i = Some (r, c') \<Longrightarrow> srv_ok c \<Longrightarrow> srv_ok c'"
  "CoAPRequestMessage_ack_send e c remote i = Some (r, c') \<Longrightarrow> srv_ok c \<Longrightarrow> srv_ok c'"
  "CoAPErrRespMessage_send e c remote m k = Some (r, c') \<Longrightarrow> srv_ok c \<Longrightarrow> srv_ok c'"
  by (auto simp: CoAPAckMessage_send_def CoAPRestMessage_send_def CoAPRequestMessage_ack_send_def CoAPErrRespMessage_send_def
      bind_eq_Some_conv Let_def dest!: Message_send_keeps)

lemma RespMessage_handle_keeps [srv_keeps]:
  assumes "CoAPRespMessage_handle e c remote m = Some (r, c')" "srv_ok c"
  shows "srv_ok c'"
proof -
  obtain c1 where c1: "srv_ok c1" and rest: "do {
     hit \<leftarrow> find_index (\<lambda>n. token_match (tokenlen (n_header n)) (n_token n) m) (nodes (sendlist c1));
     case hit of
       Some i \<Rightarrow> do {
         let n = nodes (sendlist c1) ! i;
         let c = (if n_keep n = 0 then c1\<lparr>sendlist := list_remove i (sendlist c1)\<rparr> else c1);
         let m = m\<lparr>msg_user := n_user n\<rparr>;
         (case n_handler n of
           Some h \<Rightarrow> do {
             (_, c) \<leftarrow> CoAPObsClient_add e c m remote (Some n);
             Some (COAP_ERROR_NOT_FOUND, call_handler (Some h) COAP_REQUEST_SUCCESS (msg_user m) remote (Some m) c) }
         | None \<Rightarrow> Some (COAP_ERROR_NOT_FOUND, c)) }
     | None \<Rightarrow> do {
         (_, c) \<leftarrow> CoAPObsClient_add e c1 m remote None;
         Some (COAP_ERROR_NOT_FOUND, c) } } = Some (r, c')"
    using assms by (auto simp: CoAPRespMessage_handle_def bind_eq_Some_conv split: if_split_asm dest: small_sends_keep)
  have "srv_ok (if b then c1\<lparr>sendlist := list_remove i (sendlist c1)\<rparr> else c1)" if "i < length (nodes (sendlist c1))" for i b
    using c1 that by (simp add: srv_ok_remove)
  then show ?thesis using rest c1
    by (auto simp: Let_def split: Option.bind_split_asm option.split_asm dest!: find_index_bound ObsClient_add_keeps)
qed

lemma RequestMessage_handle_keeps [srv_keeps]: "CoAPRequestMessage_handle e c remote m = Some (r, c') \<Longrightarrow> srv_ok c \<Longrightarrow> srv_ok c'"
  by (auto simp: CoAPRequestMessage_handle_def split: Option.bind_split_asm if_split_asm option.split_asm dest!: small_sends_keep)

lemma Message_handle_keeps [srv_keeps]: "CoAPMessage_handle e c remote buf n = Some c' \<Longrightarrow> srv_ok c \<Longrightarrow> srv_ok c'"
  by (auto simp: CoAPMessage_handle_def bind_eq_Some_conv AckMessage_handle_keeps split: if_split_asm
      dest!: small_sends_keep RespMessage_handle_keeps RequestMessage_handle_keeps)

lemma process_round_keeps:
  assumes "process_round e c = Some r" "srv_ok c"
  shows "srv_ok (case r of Inl c' \<Rightarrow> c' | Inr (n, c') \<Rightarrow> c')"
  using assms by (auto simp: process_round_def bind_eq_Some_conv Let_def split: prod.splits if_split_asm dest!: Message_handle_keeps)

lemma process_keeps [srv_keeps]:
  assumes "CoAPMessage_process e c = Some (r, c')" "srv_ok c"
  shows "srv_ok c'"
proof -
  have "srv_ok c \<longrightarrow> srv_ok (snd (r, c'))" using assms(1)
  proof (rule CoAPMessage_process.raw_induct [rotated, where P = "\<lambda>e c x. srv_ok c \<longrightarrow> srv_ok (snd x)"])
    fix f :: "coap_env \<Rightarrow> CoAPIntContext \<Rightarrow> (int \<times> CoAPIntContext) option" and e c x
    assume IH: "\<And>e c x. f e c = Some x \<Longrightarrow> srv_ok c \<longrightarrow> srv_ok (snd x)"
      and f: "process_round e c \<bind> (\<lambda>r. case r of Inl c \<Rightarrow> f e c | Inr x \<Rightarrow> Some x) = Some x"
    show "srv_ok c \<longrightarrow> srv_ok (snd x)"
      using f process_round_keeps [of e c] by (auto split: Option.bind_split_asm sum.split_asm dest: IH)
  qed
  with assms(2) show ?thesis by simp
qed

lemma retransmit_loop_frame:
  "srv_ok (snd (retransmit_loop e tick ns c)) = srv_ok c" "sendlist (snd (retransmit_loop e tick ns c)) = sendlist c"
  by (induction ns arbitrary: c) (auto simp: Let_def case_prod_beta CoAPNetwork_write_def)

lemma retransmit_loop_nodes: "fst (retransmit_loop e tick ns c) = map (retransmit_node tick) ns"
  by (induction ns arbitrary: c) (auto simp: Let_def case_prod_beta)

lemma byte_pred: "(b :: byte) \<noteq> 0 \<Longrightarrow> unat (b - 1) = unat b - 1"
  by (simp add: unat_sub word_le_nat_alt unat_gt_0 Suc_le_eq)

lemma retransmit_node_ok: "node_ok n \<Longrightarrow> node_ok (retransmit_node tick n)"
  by (cases "retransmit_due tick n")
    (auto simp: node_ok_def retransmit_node_def Let_def retransmit_due_def word_le_nat_alt byte_pred word_greater_zero_iff)

lemma Retansmit_keeps: "srv_ok c \<Longrightarrow> srv_ok (Retansmit e c)"
  by (auto simp: Retansmit_def HAL_UptimeMs_def case_prod_beta retransmit_loop_frame retransmit_loop_nodes retransmit_node_ok srv_okD
      intro!: srv_ok_lists list_ok_nodes)

lemma expire_node_keeps: "srv_ok c \<Longrightarrow> i < length (nodes (sendlist c)) \<Longrightarrow> srv_ok (expire_node i c)"
  by (simp add: expire_node_def Let_def CoapObsServerAll_delete_def srv_ok_remove srv_ok_filter)

lemma check_timeout_keeps: "srv_ok c \<Longrightarrow> srv_ok (check_timeout_loop tick c)"
proof (induction tick c rule: check_timeout_loop.induct)
  case (1 tick c)
  have "srv_ok (expire_node i c)" if "find_index (\<lambda>n. Some (expired tick n)) (nodes (sendlist c)) = Some (Some i)" for i
    using find_index_bound [OF that] 1(2) by (simp add: expire_node_keeps)
  with 1 show ?case by (subst check_timeout_loop.simps) (auto split: option.split)
qed

lemma cycle_keeps [srv_keeps]: "CoAPMessage_cycle e c = Some (r, c') \<Longrightarrow> srv_ok c \<Longrightarrow> srv_ok c'"
  by (auto simp: CoAPMessage_cycle_def Check_timeout_def HAL_UptimeMs_def bind_eq_Some_conv Retansmit_keeps Let_def
      intro!: check_timeout_keeps dest!: process_keeps)

lemma ObsServer_add_keeps [srv_keeps]: "CoAPObsServer_add e c p remote m u = Some (r, c') \<Longrightarrow> srv_ok c \<Longrightarrow> srv_ok c'"
proof -
  assume a: "CoAPObsServer_add e c p remote m u = Some (r, c')" "srv_ok c"
  have "srv_ok (c\<lparr>obsserver := list_change i (\<lambda>n. n\<lparr>os_token := tok, os_tokenlen := tokenlen (header m)\<rparr>) (obsserver c)\<rparr>)"
    if "i < length (nodes (obsserver c))" "copy_token m (os_token (nodes (obsserver c) ! i)) = Some tok" for i tok
  proof -
    have "observer_ok (nodes (obsserver c) ! i)" using a(2) that(1) srv_okD(7) nth_mem by blast
    with that(2) copy_token_Some have "length tok = 8 \<and> tokenlen (header m) \<le> 8" by (auto simp: observer_ok_def)
    with a(2) that(1) show ?thesis by (intro srv_ok_change) (simp_all add: observer_ok_def)
  qed
  with a show ?thesis
    by (auto simp: CoAPObsServer_add_def coap_malloc_def Let_def observer_ok_def
        split: Option.bind_split_asm option.split_asm if_split_asm dest!: find_index_bound copy_token_new intro!: srv_ok_add)
qed

lemma ObsServer_delete_keeps: "srv_ok c \<Longrightarrow> srv_ok (snd (CoapObsServer_delete c remote r))"
  by (auto simp: CoapObsServer_delete_def split: option.split dest!: find_index_bound intro!: srv_ok_remove)

lemma add_uint_keeps: "add_uint e n d m c = (m', c') \<Longrightarrow> srv_ok c \<Longrightarrow> srv_ok c' \<and> obsserver c' = obsserver c"
  by (auto simp: add_uint_def coap_malloc_def split: if_split_asm)

lemma notify_one_keeps [srv_keeps]:
  "notify_one e enc r pl pn i c = Some (ret, c') \<Longrightarrow> srv_ok c \<Longrightarrow> i < length (nodes (obsserver c)) \<Longrightarrow> srv_ok c'"
proof -
  assume a: "notify_one e enc r pl pn i c = Some (ret, c')" "srv_ok c" "i < length (nodes (obsserver c))"
  obtain mid c1 where c1: "CoAPMessageId_gen c = (mid, c1)" by (cases "CoAPMessageId_gen c")
  have k1: "srv_ok c1" "obsserver c1 = obsserver c" using MessageId_gen_keeps [OF c1 a(2)] by auto
  have ch: "srv_ok (c2\<lparr>obsserver := list_change i (\<lambda>n. n\<lparr>observer_sequence_num := observer_sequence_num n + 1\<rparr>) (obsserver c2)\<rparr>)"
    if "srv_ok c2" "obsserver c2 = obsserver c" for c2
    using that a(3) by (intro srv_ok_change) (simp_all add: observer_ok_def)
  show ?thesis using a(1) k1
    by (auto simp: notify_one_def Let_def c1 split: Option.bind_split_asm prod.split_asm
      dest!: add_uint_keeps Message_send_keeps intro: ch)
qed

lemma send_obsserver: "CoAPMessage_send e c remote m = Some (r, c') \<Longrightarrow> obsserver c' = obsserver c"
proof -
  have a: "obsserver c' = obsserver c" if "CoAPMessageList_add e c remote m buf = Some (r, c')" for c c' buf r
    using that by (auto simp: CoAPMessageList_add_def coap_malloc_def HAL_UptimeMs_def split: Option.bind_split_asm if_split_asm)
  have b: "obsserver c' = obsserver c" if "CoAPObsClient_delete c m = Some (r, c')" for c c' r
    using that by (auto simp: CoAPObsClient_delete_def split: Option.bind_split_asm if_split_asm option.split_asm)
  assume "CoAPMessage_send e c remote m = Some (r, c')"
  then show ?thesis
    by (auto simp: CoAPMessage_send_def coap_malloc_def CoAPNetwork_write_def Let_def split: Option.bind_split_asm if_split_asm dest!: a b)
qed

lemma notify_one_length: "notify_one e enc r pl pn i c = Some (ret, c') \<Longrightarrow> length (nodes (obsserver c')) = length (nodes (obsserver c))"
proof -
  have g: "obsserver c2 = obsserver c1" if "CoAPMessageId_gen c1 = (mid, c2)" for c1 c2 mid
    using that by (auto simp: CoAPMessageId_gen_def split: if_split_asm)
  have u: "obsserver c2 = obsserver c1" if "add_uint e n d m c1 = (m', c2)" for n d m c1 m' c2
    using that by (auto simp: add_uint_def coap_malloc_def split: if_split_asm)
  assume "notify_one e enc r pl pn i c = Some (ret, c')"
  then show ?thesis
    by (auto simp: notify_one_def Let_def list_change_def split: Option.bind_split_asm prod.split_asm dest!: g u send_obsserver)
qed

lemma notify_loop_keeps [srv_keeps]:
  assumes "notify_loop e enc r pl pn is ret c = Some (ret', c')" "srv_ok c" "\<forall>i \<in> set is. i < length (nodes (obsserver c))"
  shows "srv_ok c'"
  using assms
proof (induction "is" arbitrary: ret c)
  case (Cons i "is")
  show ?case
  proof (cases "res_id (p_resource_of_interest (nodes (obsserver c) ! i)) = res_id r")
    case True
    then obtain ret1 c1 where c1: "notify_one e enc r pl pn i c = Some (ret1, c1)" "notify_loop e enc r pl pn is ret1 c1 = Some (ret', c')"
      using Cons.prems(1) by (auto split: Option.bind_split_asm)
    from notify_one_keeps [OF c1(1)] notify_one_length [OF c1(1)] Cons.prems(2,3) Cons.IH [OF c1(2)] show ?thesis by simp
  qed (use Cons in auto)
qed simp

lemma notify_keeps [srv_keeps]: "CoAPObsServer_notify e c p pl pn enc = Some (r, c') \<Longrightarrow> srv_ok c \<Longrightarrow> srv_ok c'"
  by (auto simp: CoAPObsServer_notify_def split: Option.bind_split_asm option.split_asm dest!: notify_loop_keeps)

lemma update_first_length: "length (snd (update_first P f xs)) = length xs"
  by (induction xs) auto

lemma update_first_map: "(\<And>x. g (f x) = g x) \<Longrightarrow> map g (snd (update_first P f xs)) = map g xs"
  by (induction xs) auto

lemma create_resource: "CoAPResource_create j ok ok2 i p t perm ct age cb = Some (Some r) \<Longrightarrow> res_id r = i \<and> length (path r) = 5"
  by (auto simp: CoAPResource_create_def CoAPPathMD5_sum_def store_n_def Let_def split: Option.bind_split_asm if_split_asm)

lemma resources_ok_iff: "resources_ok rl \<longleftrightarrow> unat (res_count rl) = length (res_list rl) \<and> res_count rl \<le> res_maxcount rl
    \<and> (\<forall>x \<in> set (map (\<lambda>r. (res_id r, path r)) (res_list rl)). length (snd x) = 5 \<and> fst x < res_next rl) \<and> distinct (map res_id (res_list rl))"
  by (auto simp: resources_ok_def)

lemma byte_succ: "(a :: byte) < b \<Longrightarrow> unat (a + 1) = unat a + 1"
proof -
  assume "a < b"
  then have "unat a < unat b" by (simp add: word_less_nat_alt)
  moreover have "unat b < 256" using unsigned_less [of b, where ?'a = nat] by simp
  ultimately show ?thesis by (simp add: unat_word_ariths)
qed

lemma resource_register_ok:
  assumes "CoAPResource_register j ok ok2 rl p perm ct age cb = Some (rc, rl')" "resources_ok rl"
  shows "resources_ok rl'"
proof -
  have upd: "resources_ok (rl\<lparr>res_list := snd (update_first P (\<lambda>n. n\<lparr>callback := cb, res_ctype := ct, maxage := age, permission := perm\<rparr>) (res_list rl))\<rparr>)" for P
    using assms(2) by (simp only: resources_ok_iff) (simp add: update_first_length update_first_map del: set_map)
  have new: "resources_ok (rl\<lparr>res_list := res_list rl @ [r], res_count := res_count rl + 1, res_next := Suc (res_next rl)\<rparr>)"
    if "\<not> res_maxcount rl \<le> res_count rl" "CoAPResource_create j ok ok2 (res_next rl) p t perm ct age cb = Some (Some r)" for r t
    using assms(2) that(1) create_resource [OF that(2)] byte_succ [of "res_count rl" "res_maxcount rl"]
    by (auto simp: resources_ok_def word_le_nat_alt word_less_nat_alt less_Suc_eq)
  show ?thesis using assms upd
    by (auto simp: CoAPResource_register_def Let_def case_prod_beta split: Option.bind_split_asm if_split_asm option.split_asm intro: new)
qed

lemma register_keeps [srv_keeps]: "CoAPServer_register e c uri cb = Some (r, c') \<Longrightarrow> srv_ok c \<Longrightarrow> srv_ok c'"
  by (auto simp: CoAPServer_register_def coap_malloc_def split: Option.bind_split_asm intro!: srv_ok_lists dest!: resource_register_ok simp: srv_okD)

lemma add_segments_keeps: "add_segments e ss m c = Some (m', c') \<Longrightarrow> srv_ok c \<Longrightarrow> srv_ok c'"
  by (induction ss arbitrary: m c) (auto simp: coap_malloc_def Let_def split: Option.bind_split_asm prod.split_asm if_split_asm)

lemma MultiCast_send_keeps [srv_keeps]: "CoAPServerMultiCast_send e c remote uri buff n cb = Some (r, i, c') \<Longrightarrow> srv_ok c \<Longrightarrow> srv_ok c'"
  by (auto simp: CoAPServerMultiCast_send_def CoAPServerPath_2_option_def CoAPServerToken_get_def Let_def
      split: Option.bind_split_asm prod.split_asm if_split_asm
      dest!: add_uint_keeps Message_send_keeps MessageId_gen_keeps add_segments_keeps)

lemma Resp_send_keeps [srv_keeps]: "CoAPServerResp_send e c remote buff n req paths cb qos u = Some (r, i, c') \<Longrightarrow> srv_ok c \<Longrightarrow> srv_ok c'"
  by (auto simp: CoAPServerResp_send_def Let_def
      split: Option.bind_split_asm prod.split_asm if_split_asm
      dest!: add_uint_keeps Message_send_keeps ObsServer_add_keeps)

lemma create_ok: "CoAPContext_create a b d n sm rm om w = Some (Some c) \<Longrightarrow> srv_ok c"
  by (auto simp: CoAPContext_create_def srv_ok_def list_ok_def resources_ok_def CoAPResource_init_def Let_def split: if_split_asm)

end
