(* ===== verification/CoAP_Packet_Build.thy ===== *)
theory CoAP_Packet_Build
  imports CoAP_Packet_Props
begin

text \<open>
  Building and reading CoAP messages: what adding options to a message does to the list of options it stands for, the
  way of an option from one device to the other, and the behaviour of the parser on arbitrary bytes.
\<close>

section \<open>Adding options\<close>

definition sent_options :: "CoAPMessage \<Rightarrow> (nat \<times> bytes) list" where
  "sent_options m = absolute 0 (take (optcount m) (options m))"

text \<open>A message under construction: the option numbers seen so far add up to \<open>optdelta\<close>.\<close>

definition builder :: "CoAPMessage \<Rightarrow> bool" where
  "builder m \<longleftrightarrow> sendable m \<and> option_sum (take (optcount m) (options m)) = unat (optdelta m)"

lemma absolute_append: "absolute prev (xs @ ys) = absolute prev xs @ absolute (prev + option_sum xs) ys"
  by (induction xs arbitrary: prev) (simp_all add: option_sum_def add.assoc)

definition append_option :: "CoAPMsgOption \<Rightarrow> u16 \<Rightarrow> CoAPMessage \<Rightarrow> CoAPMessage" where
  "append_option o' n m = m\<lparr>options := (options m)[optcount m := o'], optdelta := ucast n, optcount := optcount m + 1\<rparr>"

lemma append_option_builder:
  assumes b: "builder m" "optcount m < 12" "ucast (optdelta m) \<le> n" "n \<le> 255"
    and o': "num o' = n - ucast (optdelta m)" "option_backed o'"
  shows "builder (append_option o' n m) \<and> sent_options (append_option o' n m) = sent_options m @ [(unat n, option_data o')]
    \<and> optdelta (append_option o' n m) = ucast n \<and> optcount (append_option o' n m) = optcount m + 1 \<and> (\<forall>os. view_with os (append_option o' n m) = view_with os m)"
proof -
  let ?os = "take (optcount m) (options m)"
  have len: "length (options m) = 12" using b by (simp add: builder_def sendable_def)
  have os: "take (optcount m + 1) ((options m)[optcount m := o']) = ?os @ [o']"
    using b(2) len by (simp add: take_Suc_conv_app_nth)
  have uc: "unat (ucast (optdelta m) :: u16) = unat (optdelta m)" "unat (ucast n :: byte) = unat n"
    using b(4) unsigned_less [of "optdelta m", where ?'a = nat]
    by (simp_all add: unsigned_ucast_eq word_le_nat_alt take_bit_nat_eq_self)
  have "unat (num o') = unat n - unat (optdelta m)" using b(3) o'(1) by (simp add: unat_sub uc)
  moreover have "unat (optdelta m) \<le> unat n" using b(3) by (simp add: word_le_nat_alt uc)
  ultimately have "option_sum ?os + unat (num o') = unat n" using b(1) by (simp add: builder_def)
  moreover have "unat n < 65536" using u16_bound .
  ultimately show ?thesis using b o' os
    by (simp add: builder_def sendable_def append_option_def sent_options_def absolute_append option_sum_def uc Suc_leI view_with_def token_data_def payload_data_def)
qed

text \<open>The bytes an unsigned number is stored as.\<close>

definition uint_bytes :: "u32 \<Rightarrow> bytes" where
  "uint_bytes d = (if d = 0 then [] else if d \<le> 255 then [of_nat (unat d)]
     else if d \<le> 65535 then [of_nat (unat d div 256), of_nat (unat d)]
     else [of_nat (unat d div 16777216), of_nat (unat d div 65536), of_nat (unat d div 256), of_nat (unat d)])"

lemma add_str_option:
  assumes "builder m" "optcount m < 12" "ucast (optdelta m) \<le> n" "n \<le> 255" "length data < 65536"
  shows "\<exists>m'. CoAPStrOption_add True m n data (of_nat (length data)) = Some (COAP_SUCCESS, m') \<and> builder m'
    \<and> sent_options m' = sent_options m @ [(unat n, data)] \<and> optdelta m' = ucast n \<and> optcount m' = optcount m + 1 \<and> (\<forall>os. view_with os m' = view_with os m)"
proof -
  let ?o = "(options m ! optcount m)\<lparr>num := n - ucast (optdelta m), len := of_nat (length data), val := Some data\<rparr>"
  have "CoAPStrOption_add True m n data (of_nat (length data)) = Some (COAP_SUCCESS, append_option ?o n m)"
    using assms(2,5) by (simp add: CoAPStrOption_add_def load_n_def u16_nat append_option_def Let_def)
  moreover have "option_backed ?o" "option_data ?o = data"
    using assms(5) by (simp_all add: option_backed_def option_data_def u16_nat)
  ultimately show ?thesis using append_option_builder [OF assms(1-4), of ?o] by simp
qed

lemma u32_bytes:
  fixes d :: u32
  shows "(ucast (d AND 0xFF) :: byte) = of_nat (unat d)"
    and "(ucast (drop_bit 8 (d AND 0xFF00)) :: byte) = of_nat (unat d div 256)"
    and "(ucast (drop_bit 16 (d AND 0xFF0000)) :: byte) = of_nat (unat d div 65536)"
    and "(ucast (drop_bit 24 (d AND 0xFF000000)) :: byte) = of_nat (unat d div 16777216)"
proof -
  have m: "(0xFF :: u32) = push_bit 0 (mask 8)" "(0xFF00 :: u32) = push_bit 8 (mask 8)"
     "(0xFF0000 :: u32) = push_bit 16 (mask 8)" "(0xFF000000 :: u32) = push_bit 24 (mask 8)"
    by (simp_all add: mask_eq_exp_minus_1 push_bit_eq_mult)
  have g: "(ucast (drop_bit k (d AND push_bit k (mask 8))) :: byte) = of_nat (unat d div 2 ^ k)" for k
  proof -
    have "(ucast (drop_bit k (d AND push_bit k (mask 8))) :: byte) = ucast (drop_bit k d)"
      by (rule bit_word_eqI) (auto simp: bit_simps dest: bit_imp_le_length)
    also have "\<dots> = of_nat (unat d div 2 ^ k)"
      using unsigned_less [of d, where ?'a = nat]
      by (simp only: word_unat_eq_iff unsigned_ucast_eq unat_of_nat unsigned_drop_bit_eq) (simp add: drop_bit_eq_div take_bit_eq_mod)
    finally show ?thesis .
  qed
  show "(ucast (d AND 0xFF) :: byte) = of_nat (unat d)"
    using g [of 0] unfolding m(1) [symmetric] by simp
  show "(ucast (drop_bit 8 (d AND 0xFF00)) :: byte) = of_nat (unat d div 256)"
    using g [of 8] unfolding m(2) [symmetric] by simp
  show "(ucast (drop_bit 16 (d AND 0xFF0000)) :: byte) = of_nat (unat d div 65536)"
    using g [of 16] unfolding m(3) [symmetric] by simp
  show "(ucast (drop_bit 24 (d AND 0xFF000000)) :: byte) = of_nat (unat d div 16777216)"
    using g [of 24] unfolding m(4) [symmetric] by simp
qed

lemma add_uint_option:
  assumes "builder m" "optcount m < 12" "ucast (optdelta m) \<le> n" "n \<le> 255"
  shows "\<exists>m'. CoAPUintOption_add True m n d = (COAP_SUCCESS, m') \<and> builder m'
    \<and> sent_options m' = sent_options m @ [(unat n, uint_bytes d)] \<and> optdelta m' = ucast n \<and> optcount m' = optcount m + 1 \<and> (\<forall>os. view_with os m' = view_with os m)"
proof -
  let ?o = "\<lparr>num = n - ucast (optdelta m), len = of_nat (length (uint_bytes d)), val = if d = 0 then None else Some (uint_bytes d)\<rparr>"
  have "CoAPUintOption_add True m n d = (COAP_SUCCESS, append_option ?o n m)"
    unfolding CoAPUintOption_add_def u32_bytes using assms(2) by (simp add: uint_bytes_def append_option_def)
  moreover have "option_backed ?o" "option_data ?o = uint_bytes d"
    by (simp_all add: option_backed_def option_data_def uint_bytes_def)
  ultimately show ?thesis using append_option_builder [OF assms, of ?o] by simp
qed

text \<open>Adding several options, as the senders of the library do; it stops at the first error.\<close>

fun add_all :: "(CoAPMessage \<Rightarrow> u16 \<Rightarrow> 'd \<Rightarrow> (int \<times> CoAPMessage) option) \<Rightarrow> CoAPMessage \<Rightarrow> (u16 \<times> 'd) list \<Rightarrow> (int \<times> CoAPMessage) option" where
  "add_all add m [] = Some (COAP_SUCCESS, m)"
| "add_all add m ((n, d) # opts) = do {
     (rc, m) \<leftarrow> add m n d;
     if rc = COAP_SUCCESS then add_all add m opts else Some (rc, m) }"

text \<open>The contract the two functions that add an option share: within the twelve slots, with numbers that grow and
  fit one byte, an option with the encoded data is appended.\<close>

lemma ucast_small: "n \<le> 255 \<Longrightarrow> ucast (ucast (n :: u16) :: byte) = n"
  by (simp only: word_unat_eq_iff unsigned_ucast_eq word_le_nat_alt) (simp add: unsigned_take_bit_eq take_bit_nat_eq_self)

locale option_adder =
  fixes add :: "CoAPMessage \<Rightarrow> u16 \<Rightarrow> 'd \<Rightarrow> (int \<times> CoAPMessage) option"
    and enc :: "'d \<Rightarrow> bytes"
    and fits :: "'d \<Rightarrow> bool"
  assumes add_appends: "builder m \<Longrightarrow> optcount m < 12 \<Longrightarrow> ucast (optdelta m) \<le> n \<Longrightarrow> n \<le> 255 \<Longrightarrow> fits d
    \<Longrightarrow> \<exists>m'. add m n d = Some (COAP_SUCCESS, m') \<and> builder m' \<and> sent_options m' = sent_options m @ [(unat n, enc d)]
        \<and> optdelta m' = ucast n \<and> optcount m' = optcount m + 1 \<and> (\<forall>os. view_with os m' = view_with os m)"
    and add_full: "12 \<le> optcount m \<Longrightarrow> add m n d = Some (COAP_ERROR_INVALID_PARAM, m)"
begin

lemma add_all_appends:
  assumes "builder m" "optcount m + length opts \<le> 12" "sorted (map fst opts)"
    "\<forall>(n, d) \<in> set opts. ucast (optdelta m) \<le> n \<and> n \<le> 255 \<and> fits d"
  shows "\<exists>m'. add_all add m opts = Some (COAP_SUCCESS, m') \<and> builder m'
    \<and> sent_options m' = sent_options m @ map (\<lambda>(n, d). (unat n, enc d)) opts \<and> optcount m' = optcount m + length opts
    \<and> (\<forall>os. view_with os m' = view_with os m)"
  using assms
proof (induction opts arbitrary: m)
  case (Cons x opts)
  obtain n d where x: "x = (n, d)" by (cases x)
  obtain m1 where m1: "add m n d = Some (COAP_SUCCESS, m1)" "builder m1" "sent_options m1 = sent_options m @ [(unat n, enc d)]"
      "optdelta m1 = ucast n" "optcount m1 = optcount m + 1" "\<forall>os. view_with os m1 = view_with os m"
    using add_appends [of m n d] Cons.prems by (auto simp: x)
  have "ucast (ucast n :: byte) = n"
    using Cons.prems(4) ucast_small by (simp add: x)
  then have "\<forall>(n', d) \<in> set opts. ucast (optdelta m1) \<le> n' \<and> n' \<le> 255 \<and> fits d"
    using Cons.prems(3,4) m1(4) by (auto simp: x)
  with Cons.IH [of m1] Cons.prems m1 show ?case by (auto simp: x)
qed simp

lemma add_all_full:
  assumes "optcount m = 12" "opts \<noteq> []"
  shows "add_all add m opts = Some (COAP_ERROR_INVALID_PARAM, m)"
  using assms by (cases opts) (auto simp: add_full)

end

interpretation str_option: option_adder "\<lambda>m n data. CoAPStrOption_add True m n data (of_nat (length data))" "\<lambda>d. d" "\<lambda>d. length d < 65536"
  by unfold_locales (use add_str_option in \<open>auto simp: CoAPStrOption_add_def\<close>)

interpretation uint_option: option_adder "\<lambda>m n d. Some (CoAPUintOption_add True m n d)" uint_bytes "\<lambda>d. True"
  by unfold_locales (use add_uint_option in \<open>auto simp: CoAPUintOption_add_def\<close>)

section \<open>An option on its way\<close>

lemma find_viewed:
  assumes "map opt_view os = opts" "(n, d) \<in> set opts" "distinct (map fst opts)" "n < 65536"
  shows "\<exists>o'. find (\<lambda>o'. num o' = of_nat n) os = Some o' \<and> o' \<in> set os \<and> option_data o' = d"
  using assms
proof (induction os arbitrary: opts)
  case (Cons o' os)
  have n: "num o' = of_nat n \<longleftrightarrow> unat (num o') = n" using Cons.prems(4) by (auto simp: u16_nat)
  show ?case
  proof (cases "unat (num o') = n")
    case True
    then have "d = option_data o'"
      using Cons.prems(1-3) by (force simp: opt_view_def image_iff)
    with True n show ?thesis by simp
  next
    case False
    with Cons.prems Cons.IH [of "tl opts"] n show ?thesis by (force simp: opt_view_def)
  qed
qed simp

lemma get_viewed:
  assumes "received_view m = (v, t, c, mid, tok, opts, pl)" "\<forall>o' \<in> set (take (optcount m) (options m)). option_backed o'"
    "(n, d) \<in> set opts" "distinct (map fst opts)" "n < 65536" "length d \<le> length out" "length out < 65536"
  shows "CoAPStrOption_get m (of_nat n) out (of_nat (length out)) = Some (COAP_SUCCESS, d @ drop (length d) out, of_nat (length d))"
proof -
  have "map opt_view (take (optcount m) (options m)) = opts" using assms(1) by (simp add: received_view_def view_with_def Let_def)
  from find_viewed [OF this assms(3-5)] obtain o' where
    f: "find_option m (of_nat n) = Some o'" and o': "o' \<in> set (take (optcount m) (options m))" "option_data o' = d"
    by (auto simp: find_option_def)
  have b: "option_backed o'" using o'(1) assms(2) by blast
  from length_option_data [OF b] o'(2) have l: "unat (len o') = length d" by simp
  have "len o' \<le> of_nat (length out)" using l assms(6,7) by (simp add: word_le_nat_alt u16_nat)
  moreover have "len o' = of_nat (length d)" using l [symmetric] by simp
  moreover have "(case val o' of None \<Rightarrow> if len o' = 0 then Some [] else None | Some v \<Rightarrow> load_n v 0 (unat (len o'))) = Some d"
    using b o'(2) by (auto simp: option_backed_def option_data_def load_n_def unat_eq_0 split: option.splits)
  ultimately show ?thesis using f assms(6) by (simp add: CoAPStrOption_get_def store_n_def)
qed

text \<open>C26. Options added with increasing numbers up to 255 arrive: after building, serialising and parsing,
  \<open>CoAPStrOption_get\<close> on the receiver returns for each number the data that was added.\<close>

theorem coap_options_delivered:
  fixes m m0 :: CoAPMessage and opts :: "(u16 \<times> bytes) list"
  defines "w \<equiv> view_with (map (\<lambda>(n, d). (unat n, d)) opts) m"
  assumes "builder m" "optcount m = 0" "optdelta m = 0" "length opts \<le> 12" "sorted (map fst opts)" "distinct (map fst opts)"
    "\<forall>(n, d) \<in> set opts. n \<le> 255 \<and> length d < 65536"
    "length (rfc_message w) \<le> buflen" "buflen < 65536" "buflen \<le> length buf" "blank_message m0" "framed w rest"
    "(n, d) \<in> set opts" "length d \<le> length out" "length out < 65536"
  shows "\<exists>m1 rc buf' m2. add_all (\<lambda>m n data. CoAPStrOption_add True m n data (of_nat (length data))) m opts = Some (COAP_SUCCESS, m1)
    \<and> CoAPSerialize_Message m1 buf buflen = Some (rc, buf')
    \<and> CoAPDeserialize_Message m0 (take (nat rc) buf' @ rest) rc = Some (COAP_SUCCESS, m2)
    \<and> CoAPStrOption_get m2 n out (of_nat (length out)) = Some (COAP_SUCCESS, d @ drop (length d) out, of_nat (length d))"
proof -
  let ?opts = "map (\<lambda>(n, d). (unat n, d)) opts"
  obtain m1 where m1: "add_all (\<lambda>m n data. CoAPStrOption_add True m n data (of_nat (length data))) m opts = Some (COAP_SUCCESS, m1)"
      "builder m1" "sent_options m1 = ?opts" "\<forall>os. view_with os m1 = view_with os m"
    using str_option.add_all_appends [of m opts] assms(2-8) by (auto simp: sent_options_def)
  have w: "sent_view m1 = w" using m1(3,4) by (simp add: sent_view_def sent_options_def w_def)
  have sd: "sendable m1" using m1(2) by (simp add: builder_def)
  obtain m2 where m2: "CoAPDeserialize_Message m0 (rfc_message w @ rest) (int (length (rfc_message w))) = Some (COAP_SUCCESS, m2)"
      "received_view m2 = w" "\<forall>o' \<in> set (take (optcount m2) (options m2)). option_backed o'"
    using parse_message_rfc [OF sent_view_valid [OF sd] _ assms(12), of rest] assms(13) by (auto simp: w)
  have "distinct (map fst ?opts)"
    using assms(7) by (simp add: case_prod_unfold comp_def distinct_map inj_on_def word_unat_eq_iff)
  moreover have "(unat n, d) \<in> set ?opts" using assms(14) by force
  ultimately have "CoAPStrOption_get m2 n out (of_nat (length out)) = Some (COAP_SUCCESS, d @ drop (length d) out, of_nat (length d))"
    using get_viewed [OF _ m2(3), of _ _ _ _ _ ?opts _ "unat n" d out] m2(2) assms(15,16) u16_bound [of n]
    by (auto simp: w_def view_with_def Let_def)
  then show ?thesis
    using m1(1) m2(1) serialize_message(1) [OF sd, of buflen buf] assms(9-11) by (auto simp: w)
qed

section \<open>Parsing arbitrary bytes\<close>

text \<open>An option of a parsed message points into the buffer, and its data ends before position \<open>e\<close>.\<close>

definition option_in :: "bytes \<Rightarrow> nat \<Rightarrow> CoAPMsgOption \<Rightarrow> bool" where
  "option_in buf e o' \<longleftrightarrow> (\<exists>q \<le> length buf. val o' = Some (drop q buf) \<and> q + unat (len o') \<le> e)"

lemma option_in_mono: "option_in buf e o' \<Longrightarrow> e \<le> e' \<Longrightarrow> option_in buf e' o'"
  by (auto simp: option_in_def intro: le_trans)

lemma read_ext_safe:
  assumes "1 \<le> left" "int q + left < int (length buf)"
  shows "\<exists>v w. read_ext pre nib buf q left = Some (v, w)
    \<and> (\<forall>q' l'. w = Some (q', l') \<longrightarrow> 1 \<le> l' \<and> int q' + l' = int q + left \<and> q \<le> q')"
  using assms by (auto simp: read_ext_def COAP_OPT_CHECK_def load_def Let_def)

lemma parse_option_safe:
  assumes "1 \<le> left" "int p + left < int (length buf)"
  shows "\<exists>n opt' pre'. CoAPDeserialize_Option opt buf p left pre = Some (n, opt', pre')
    \<and> (0 \<le> n \<longrightarrow> option_in buf (p + nat n) opt')"
proof -
  obtain b where b: "load buf p = Some b" using assms by (simp add: load_def)
  show ?thesis
  proof (cases "COAP_OPT_CHECK p left 1")
    case None
    then show ?thesis using b by (simp add: CoAPDeserialize_Option_def)
  next
    case (Some x)
    then have x: "x = (p + 1, left - 1)" "1 \<le> left - 1" by (auto simp: COAP_OPT_CHECK_def Let_def split: if_splits)
    obtain v w where r1: "read_ext pre (drop_bit 4 (b AND 0xF0)) buf (p + 1) (left - 1) = Some (v, w)"
      "\<And>q l. w = Some (q, l) \<Longrightarrow> 1 \<le> l \<and> int q + l = int p + left \<and> p + 1 \<le> q"
      using read_ext_safe [of "left - 1" "p + 1" buf pre] x(2) assms(2) by fastforce
    show ?thesis
    proof (cases w)
      case None
      then show ?thesis using b Some x r1(1) by (simp add: CoAPDeserialize_Option_def)
    next
      case (Some y)
      then obtain q l where y: "w = Some (q, l)" by (cases y) auto
      obtain v2 w2 where r2: "read_ext 0 (b AND 0x0F) buf q l = Some (v2, w2)"
        "\<And>q' l'. w2 = Some (q', l') \<Longrightarrow> 1 \<le> l' \<and> int q' + l' = int p + left \<and> p + 1 \<le> q'"
        using read_ext_safe [of l q buf 0] r1(2) [OF y] assms(2) by fastforce
      have "option_in buf (p + nat (int q' - int p + int (unat v2))) (opt\<lparr>num := v, len := v2, val := Some (drop q' buf)\<rparr>)"
        if "w2 = Some (q', l')" for q' l'
      proof -
        have "p + nat (int q' - int p + int (unat v2)) = q' + unat v2" using r2(2) [OF that] by linarith
        then show ?thesis using r2(2) [OF that] assms(2) by (auto simp: option_in_def intro!: exI [of _ q'])
      qed
      then show ?thesis using b \<open>COAP_OPT_CHECK p left 1 = Some x\<close> x r1(1) y r2(1)
        by (cases w2) (auto simp: CoAPDeserialize_Option_def)
    qed
  qed
qed

lemma parse_options_safe:
  assumes "int p + left < int (length buf) \<or> left \<le> 0" "start \<le> p" "optcount msg = index" "index \<le> 12" "length (options msg) = 12"
    "\<forall>o' \<in> set (take index (options msg)). option_in buf p o'"
  shows "\<exists>r os n. deserialize_options_loop msg buf start p left pre index = Some (r, msg\<lparr>options := os, optcount := n\<rparr>)
    \<and> n \<le> 12 \<and> length os = 12 \<and> (0 \<le> r \<longrightarrow> (\<forall>o' \<in> set (take n os). option_in buf (start + nat r) o'))"
  using assms
proof (induction msg buf start p left pre index rule: deserialize_options_loop.induct)
  case (1 msg buf start p left pre index)
  have stop: "\<exists>r os n. Some (int p - int start, msg) = Some (r, msg\<lparr>options := os, optcount := n\<rparr>)
    \<and> n \<le> 12 \<and> length os = 12 \<and> (0 \<le> r \<longrightarrow> (\<forall>o' \<in> set (take n os). option_in buf (start + nat r) o'))"
  proof -
    have "start + nat (int p - int start) = p" using "1.prems"(2) by linarith
    then show ?thesis using "1.prems" by (intro exI [of _ "int p - int start"] exI [of _ "options msg"] exI [of _ index]) simp
  qed
  show ?case
  proof (cases "left \<le> 0")
    case True
    with stop show ?thesis by (subst deserialize_options_loop.simps) simp
  next
    case False
    with "1.prems"(1) obtain b where b: "load buf p = Some b" by (auto simp: load_def)
    show ?thesis
    proof (cases "b = 0xFF \<or> \<not> index < 12")
      case True
      with stop False b show ?thesis by (subst deserialize_options_loop.simps) simp
    next
      case go: False
      obtain n opt pre' where o': "CoAPDeserialize_Option (options msg ! index) buf p left pre = Some (n, opt, pre')"
          "0 \<le> n \<Longrightarrow> option_in buf (p + nat n) opt"
        using parse_option_safe [of left p buf "options msg ! index" pre] "1.prems"(1) False by fastforce
      let ?msg = "msg\<lparr>options := (options msg)[index := opt], optcount := optcount msg + 1\<rparr>"
      show ?thesis
      proof (cases "n < 0")
        case True
        with False b go o'(1) "1.prems"(3-5) show ?thesis
          by (subst deserialize_options_loop.simps) (auto intro!: exI [of _ "(options msg)[index := opt]"] exI [of _ index])
      next
        case n: False
        have "\<forall>o' \<in> set (take (index + 1) ((options msg)[index := opt])). option_in buf (p + nat n) o'"
          using "1.prems"(5,6) go o'(2) n by (auto simp: take_Suc_conv_app_nth intro: option_in_mono)
        then have "\<exists>r os k. deserialize_options_loop ?msg buf start (p + nat n) (left - n) pre' (index + 1) = Some (r, ?msg\<lparr>options := os, optcount := k\<rparr>)
           \<and> k \<le> 12 \<and> length os = 12 \<and> (0 \<le> r \<longrightarrow> (\<forall>o' \<in> set (take k os). option_in buf (start + nat r) o'))"
          using "1.IH" [OF False b go o'(1) refl refl refl n] "1.prems" False go n by auto
        then show ?thesis
          using options_step [of left buf p b index msg pre "nat n" opt pre' start] b o'(1) False go n by auto
      qed
    qed
  qed
qed

lemma parse_message_safe:
  assumes "buflen + 8 \<le> int (length buf)" "blank_message m0"
  shows "\<exists>rc m. CoAPDeserialize_Message m0 buf buflen = Some (rc, m)
    \<and> (rc = COAP_SUCCESS \<longrightarrow> optcount m \<le> 12 \<and> (\<forall>o' \<in> set (take (optcount m) (options m)). option_in buf (nat buflen) o')
        \<and> (payload m = None \<or> (\<exists>q. int q \<le> buflen \<and> buf ! q = 0xFF \<and> payload m = Some (drop (q + 1) buf)
              \<and> payloadlen m = word_of_int (buflen - int q - 1))))"
proof (cases "buflen < 4")
  case True
  then show ?thesis by (simp add: CoAPDeserialize_Message_def)
next
  case False
  note bl = assms(2) [unfolded blank_message_def]
  obtain h where h: "CoAPDeserialize_Header m0 buf 0 = Some (4, m0\<lparr>header := h\<rparr>)"
  proof -
    have "load buf k = Some (buf ! k)" if "k < 4" for k using assms(1) False that by (simp add: load_def)
    then show ?thesis using that by (simp add: CoAPDeserialize_Header_def)
  qed
  let ?m1 = "m0\<lparr>header := h\<rparr>" and ?k = "unat (tokenlen h)"
  obtain t where t: "CoAPDeserialize_Token ?m1 buf 4 = Some (int ?k, ?m1\<lparr>token := t\<rparr>)"
  proof -
    let ?n = "if 8 < ?k then 8 else ?k"
    have "load_n buf 4 ?n = Some (take ?n (drop 4 buf))" using assms(1) False by (simp add: load_n_def)
    moreover have "store_n (token m0) 0 (take ?n (drop 4 buf)) = Some (take ?n (drop 4 buf) @ drop ?n (token m0))"
      using assms(1) False bl by (simp add: store_n_def min_def)
    ultimately show ?thesis using that by (simp add: CoAPDeserialize_Token_def Let_def)
  qed
  let ?m2 = "?m1\<lparr>token := t\<rparr>" and ?rem = "buflen - 4 - int ?k"
  obtain r os n where o': "CoAPDeserialize_Options ?m2 buf (4 + ?k) ?rem = Some (r, ?m2\<lparr>options := os, optcount := n\<rparr>)"
     "n \<le> 12" "0 \<le> r \<Longrightarrow> \<forall>o' \<in> set (take n os). option_in buf (4 + ?k + nat r) o'"
    using parse_options_safe [of "4 + ?k" ?rem buf "4 + ?k" "?m2\<lparr>optcount := 0\<rparr>" 0 0] assms(1) bl by (auto simp: CoAPDeserialize_Options_def)
  let ?m3 = "?m2\<lparr>options := os, optcount := n\<rparr>" and ?q = "4 + ?k + nat r"
  show ?thesis
  proof (cases "int ?k \<le> buflen - 4 \<and> 0 \<le> r \<and> r \<le> ?rem")
    case True
    then have q: "int ?q \<le> buflen" "?q < length buf" "int (nat r) = r" using assms(1) by linarith+
    have "?q \<le> nat buflen" using q(1) by linarith
    then have in_dg: "\<forall>o' \<in> set (take n os). option_in buf (nat buflen) o'"
      using True o'(3) option_in_mono [of buf ?q] by blast
    let ?m4 = "if buf ! ?q = 0xFF then ?m3\<lparr>payloadlen := word_of_int (buflen - int ?q - 1), payload := Some (drop (?q + 1) buf)\<rparr> else ?m3"
    have "\<exists>j. CoAPDeserialize_Payload ?m3 buf ?q (buflen - 4 - int ?k - int (nat r)) = Some (j, ?m4)"
    proof -
      have "buflen - 4 - int ?k - int (nat r) - 1 = buflen - int ?q - 1" by simp
      then show ?thesis using q(2) by (simp only: CoAPDeserialize_Payload_def load_def) simp
    qed
    then obtain j where pd: "CoAPDeserialize_Payload ?m3 buf ?q (buflen - 4 - int ?k - int (nat r)) = Some (j, ?m4)" ..
    have od: "CoAPDeserialize_Options ?m2 buf (4 + ?k) ?rem = Some (int (nat r), ?m3)" using o'(1) q(3) by simp
    have "CoAPDeserialize_Message m0 buf buflen = Some (COAP_SUCCESS, ?m4)"
      by (rule message_steps [OF _ h t _ od _ pd]) (use False True q in linarith)+
    moreover have "payload ?m4 = None \<or> (\<exists>q. int q \<le> buflen \<and> buf ! q = 0xFF \<and> payload ?m4 = Some (drop (q + 1) buf)
              \<and> payloadlen ?m4 = word_of_int (buflen - int q - 1))"
    proof (cases "buf ! ?q = 0xFF")
      case True
      with q(1) show ?thesis by (intro disjI2 exI [of _ ?q] conjI) simp_all
    next
      case False
      with bl show ?thesis by simp
    qed
    ultimately show ?thesis using o'(2) in_dg by auto
  next
    case False
    then have "\<exists>m. CoAPDeserialize_Message m0 buf buflen = Some (COAP_ERROR_INVALID_LENGTH, m)"
      using \<open>\<not> buflen < 4\<close> by (intro message_rejected [OF _ h t o'(1)]) simp_all
    then show ?thesis by auto
  qed
qed

text \<open>C27. The parser reads at most eight bytes past the end of the datagram, for any content and length, and what it
  accepts is inside: at most twelve options, the data of each within the datagram.  The payload starts behind a marker
  that may be the byte after the datagram.\<close>

theorem coap_parser_bounded:
  assumes "buflen + 8 \<le> int (length buf)" "blank_message m0"
  shows "\<exists>rc m. CoAPDeserialize_Message m0 buf buflen = Some (rc, m)
    \<and> (rc = COAP_SUCCESS \<longrightarrow> optcount m \<le> 12 \<and> (\<forall>o' \<in> set (take (optcount m) (options m)). option_in buf (nat buflen) o')
        \<and> (payload m = None \<or> (\<exists>q. int q \<le> buflen \<and> buf ! q = 0xFF \<and> payload m = Some (drop (q + 1) buf)
              \<and> payloadlen m = word_of_int (buflen - int q - 1))))"
  using assms by (rule parse_message_safe)

section \<open>Edges of the codec\<close>

text \<open>A path segment, the content format 0 and a query.\<close>

definition sample_options :: "(u16 \<times> bytes) list" where
  "sample_options = [(11, [0x73, 0x79, 0x73]), (12, []), (15, [0x6B])]"

lemma sample_builder: "builder sample_message" "optcount sample_message = 0" "optdelta sample_message = 0" "blank_message CoAPMessage_init"
  by (simp_all add: builder_def sendable_def sample_message_def CoAPMessage_init_def option_sum_def blank_message_def)

theorem coap_options_delivered_witness:
  "\<exists>m1 rc buf' m2. add_all (\<lambda>m n data. CoAPStrOption_add True m n data (of_nat (length data))) sample_message sample_options = Some (COAP_SUCCESS, m1)
    \<and> CoAPSerialize_Message m1 (replicate 64 0) 64 = Some (rc, buf')
    \<and> CoAPDeserialize_Message CoAPMessage_init (take (nat rc) buf' @ []) rc = Some (COAP_SUCCESS, m2)
    \<and> CoAPStrOption_get m2 11 (replicate 8 0) (of_nat (length (replicate 8 (0::byte))))
      = Some (COAP_SUCCESS, [0x73, 0x79, 0x73] @ drop (length [0x73, 0x79, 0x73::byte]) (replicate 8 0), of_nat (length [0x73, 0x79, 0x73::byte]))"
proof -
  have w: "view_with (map (\<lambda>(n, d). (unat n, d)) sample_options) sample_message
      = (1, 0, 2, 0x1234, [0xA1, 0xB2], [(11, [0x73, 0x79, 0x73]), (12, []), (15, [0x6B])], [0x61, 0x62, 0x63])"
    by (simp add: view_with_def sample_options_def sample_message_def token_data_def payload_data_def CoAPMessage_init_def)
  show ?thesis
    by (rule coap_options_delivered [OF sample_builder(1-3) _ _ _ _ _ _ _ sample_builder(4)])
      (simp_all only: w, simp_all add: sample_options_def framed_def rfc_payload_def rfc_opthead_def rfc_ext_def rfc_head_def)
qed

theorem coap_parser_bounded_witness:
  "\<exists>rc m. CoAPDeserialize_Message CoAPMessage_init (replicate 20 0xD0) 12 = Some (rc, m)
    \<and> (rc = COAP_SUCCESS \<longrightarrow> optcount m \<le> 12 \<and> (\<forall>o' \<in> set (take (optcount m) (options m)). option_in (replicate 20 0xD0) (nat 12) o')
        \<and> (payload m = None \<or> (\<exists>q. int q \<le> 12 \<and> replicate 20 0xD0 ! q = (0xFF :: byte) \<and> payload m = Some (drop (q + 1) (replicate 20 0xD0))
              \<and> payloadlen m = word_of_int (12 - int q - 1))))"
  by (rule coap_parser_bounded) (simp_all add: sample_builder)

text \<open>An option header that fills the rest of the message fails the bounds check.\<close>

lemma empty_option_at_end:
  assumes "load buf p = Some b" "b \<noteq> 0xFF" "index < 12"
  shows "\<exists>m'. deserialize_options_loop msg buf start p 1 pre index = Some (-1, m')"
  using assms by (subst deserialize_options_loop.simps) (simp add: CoAPDeserialize_Option_def COAP_OPT_CHECK_def)

lemma options_done: "left \<le> 0 \<Longrightarrow> deserialize_options_loop msg buf start p left pre index = Some (int p - int start, msg)"
  by (subst deserialize_options_loop.simps) simp

lemma init_slot: "(replicate 12 x)[0 := y] = y # replicate 11 x" "(replicate 11 x)[0 := y] = y # replicate 10 x"
  by (simp_all add: eval_nat_numeral)

text \<open>Two edges of the parser.  The serialiser produces a datagram that ends with an empty option for a number
  option with value 0 and no payload; the parser rejects it.  A datagram without options and payload that is followed in the buffer by a byte 0xFF is
  accepted with a payload of 65535 bytes.\<close>

lemma coap_parser_edges:
  "(\<exists>m buf m'. CoAPUintOption_add True CoAPMessage_init 12 0 = (COAP_SUCCESS, m)
      \<and> CoAPSerialize_Message m (replicate 16 0) 16 = Some (5, buf)
      \<and> CoAPDeserialize_Message CoAPMessage_init buf 5 = Some (COAP_ERROR_INVALID_LENGTH, m'))
   \<and> map_option (\<lambda>(rc, m). (rc, payloadlen m, payload m)) (CoAPDeserialize_Message CoAPMessage_init [0x40, 1, 0, 1, 0xFF, 0] 4)
      = Some (COAP_SUCCESS, 65535, Some [0])"
proof
  obtain m where m: "CoAPUintOption_add True CoAPMessage_init 12 0 = (COAP_SUCCESS, m)" "sendable m"
      "sent_view m = (1, 2, 0, 0, [], [(12, [])], [])"
    by (simp add: CoAPUintOption_add_def CoAPMessage_init_def sendable_def sent_view_def view_with_def token_data_def payload_data_def
        option_data_def option_backed_def option_sum_def init_slot)
  let ?buf = "rfc_head 1 2 0 0 0 @ 0xC0 # replicate 11 0"
  have w: "rfc_message (sent_view m) = rfc_head 1 2 0 0 0 @ [0xC0]"
    by (simp add: m(3) rfc_opthead_def rfc_nib_def rfc_ext_def rfc_payload_def)
  have "CoAPSerialize_Message m (replicate 16 0) 16 = Some (5, ?buf)"
    using serialize_message(1) [OF m(2), of 16 "replicate 16 0"] by (simp add: w)
  moreover
  let ?m1 = "CoAPMessage_init\<lparr>header := \<lparr>version = of_nat 1, type = of_nat 2, tokenlen = of_nat 0, code = 0, msgid = of_nat 0\<rparr>\<rparr>"
  have h: "CoAPDeserialize_Header CoAPMessage_init ?buf 0 = Some (4, ?m1)" by (rule parse_header_rfc) simp_all
  have t: "CoAPDeserialize_Token ?m1 ?buf 4 = Some (int 0, ?m1)"
    by (simp add: CoAPDeserialize_Token_def load_n_def store_n_def rfc_head_def CoAPMessage_init_def)
  have "load ?buf 4 = Some 0xC0" by (simp add: load_def nth_append)
  then obtain m3 where od: "CoAPDeserialize_Options ?m1 ?buf (4 + 0) (5 - 4 - int 0) = Some (-1, m3)"
    using empty_option_at_end [of ?buf 4 "0xC0" 0 "?m1\<lparr>optcount := 0\<rparr>" 4 0] by (auto simp: CoAPDeserialize_Options_def)
  have "\<exists>m'. CoAPDeserialize_Message CoAPMessage_init ?buf 5 = Some (COAP_ERROR_INVALID_LENGTH, m')"
    by (rule message_rejected [OF _ h t od]) simp_all
  ultimately show "\<exists>m buf m'. CoAPUintOption_add True CoAPMessage_init 12 0 = (COAP_SUCCESS, m)
      \<and> CoAPSerialize_Message m (replicate 16 0) 16 = Some (5, buf)
      \<and> CoAPDeserialize_Message CoAPMessage_init buf 5 = Some (COAP_ERROR_INVALID_LENGTH, m')"
    using m(1) by blast
  show "map_option (\<lambda>(rc, m). (rc, payloadlen m, payload m)) (CoAPDeserialize_Message CoAPMessage_init [0x40, 1, 0, 1, 0xFF, 0] 4)
      = Some (COAP_SUCCESS, 65535, Some [0])"
    by (simp add: CoAPDeserialize_Message_def CoAPDeserialize_Header_def CoAPDeserialize_Token_def CoAPDeserialize_Options_def
        CoAPDeserialize_Payload_def options_done load_def load_n_def store_n_def CoAPMessage_init_def)
qed

lemma present_viewed:
  assumes "received_view m = (v, t, c, mid, tok, opts, pl)" "n < 65536"
  shows "CoAPOption_present m (of_nat n) = (if n \<in> fst ` set opts then COAP_SUCCESS else COAP_ERROR_NOT_FOUND)"
proof -
  have o': "opts = map opt_view (take (optcount m) (options m))"
    using assms(1) by (simp add: received_view_def view_with_def Let_def)
  have "find_option m (of_nat n) = None \<longleftrightarrow> (\<forall>x \<in> set (take (optcount m) (options m)). num x \<noteq> of_nat n)"
    by (auto simp: find_option_def find_None_iff)
  moreover have "num x = of_nat n \<longleftrightarrow> unat (num x) = n" for x using assms(2) by (auto simp: u16_nat)
  ultimately show ?thesis by (auto simp: CoAPOption_present_def o' opt_view_def image_image)
qed

text \<open>Option numbers above 255 do not survive: the previous number is kept in one byte, so after option 300 an
  option 301 goes out with the difference 257 and reaches the receiver as option 557.\<close>

lemma coap_large_option_number_lost:
  "\<exists>m buf m'. add_all (\<lambda>m n data. CoAPStrOption_add True m n data (of_nat (length data))) CoAPMessage_init [(300, [1]), (301, [2])]
      = Some (COAP_SUCCESS, m)
    \<and> CoAPSerialize_Message m (replicate 16 0) 16 = Some (11, buf)
    \<and> CoAPDeserialize_Message CoAPMessage_init buf 11 = Some (COAP_SUCCESS, m')
    \<and> CoAPOption_present m' 301 = COAP_ERROR_NOT_FOUND \<and> CoAPOption_present m' 557 = COAP_SUCCESS"
proof -
  let ?opts = "[(300, [1]), (557, [2])] :: (nat \<times> bytes) list"
  obtain m where m: "add_all (\<lambda>m n data. CoAPStrOption_add True m n data (of_nat (length data))) CoAPMessage_init [(300, [1]), (301, [2])]
      = Some (COAP_SUCCESS, m)" "sendable m" "sent_view m = (1, 2, 0, 0, [], ?opts, [])"
    by (simp add: CoAPStrOption_add_def CoAPMessage_init_def sendable_def sent_view_def view_with_def token_data_def payload_data_def
        option_data_def option_backed_def option_sum_def init_slot load_n_def)
  let ?w = "sent_view m"
  have l: "length (rfc_message ?w) = 11"
    by (simp add: m(3) rfc_opthead_def rfc_ext_def rfc_payload_def)
  have s: "CoAPSerialize_Message m (replicate 16 0) 16 = Some (11, rfc_message ?w @ replicate 5 0)"
    using serialize_message(1) [OF m(2), of 16 "replicate 16 0"] by (simp add: l)
  have "framed ?w (replicate 5 0)" by (auto simp: m(3) framed_def intro!: exI [of _ "0 :: byte"] exI [of _ "replicate 4 0"] simp flip: replicate_Suc)
  from parse_message_rfc [OF sent_view_valid [OF m(2)] this sample_builder(4)]
  obtain m' where m': "CoAPDeserialize_Message CoAPMessage_init (rfc_message ?w @ replicate 5 0) 11 = Some (COAP_SUCCESS, m')"
      "received_view m' = ?w"
    by (auto simp: l)
  show ?thesis using m(1) s m'(1) present_viewed [OF m'(2) [unfolded m(3)], of 301] present_viewed [OF m'(2) [unfolded m(3)], of 557] by auto
qed

end
