(* ===== verification/CoAP_Server_Props.thy ===== *)
theory CoAP_Server_Props
  imports CoAP_Server_Inv CoAP_Packet_Build
begin

text \<open>
  Properties of the CoAP server: the invariant over all sequences of calls, what one round of the timers does, that a
  request without answer is retransmitted a bounded number of times and then given up, how a received response and a
  received request are dispatched, and what goes wrong at the edges.
\<close>

section \<open>Sequences of calls\<close>

datatype srv_call =
    Cycle
  | Send NetworkAddr CoAPMessage
  | Cancel u16
  | Cancel_message CoAPMessage
  | Register bytes "nat option"
  | MultiCast NetworkAddr bytes bytes u16 "nat option"
  | Respond NetworkAddr bytes u16 CoAPMessage bytes "nat option" bool u32
  | Observe bytes NetworkAddr CoAPMessage u32
  | Unobserve NetworkAddr CoAPResource
  | Notify bytes "bytes option" u16 "(NetworkAddr \<Rightarrow> CoAPMessage \<Rightarrow> bytes option \<Rightarrow> int \<times> bytes) option"

fun srv_step :: "coap_env \<Rightarrow> srv_call \<Rightarrow> CoAPIntContext \<Rightarrow> CoAPIntContext option" where
  "srv_step e Cycle c = map_option snd (CoAPMessage_cycle e c)"
| "srv_step e (Send r m) c = map_option snd (CoAPMessage_send e c r m)"
| "srv_step e (Cancel i) c = Some (snd (CoAPMessageId_cancel c i))"
| "srv_step e (Cancel_message m) c = Some (snd (CoAPMessage_cancel c m))"
| "srv_step e (Register p cb) c = map_option snd (CoAPServer_register e c p cb)"
| "srv_step e (MultiCast r uri buf n cb) c = map_option (snd \<circ> snd) (CoAPServerMultiCast_send e c r uri buf n cb)"
| "srv_step e (Respond r buf n req p cb qos u) c = map_option (snd \<circ> snd) (CoAPServerResp_send e c r buf n req p cb qos u)"
| "srv_step e (Observe p r m u) c = map_option snd (CoAPObsServer_add e c p r m u)"
| "srv_step e (Unobserve r res) c = Some (snd (CoapObsServer_delete c r res))"
| "srv_step e (Notify p pl pn enc) c = map_option snd (CoAPObsServer_notify e c p pl pn enc)"

lemma srv_step_keeps: "srv_step e k c = Some c' \<Longrightarrow> srv_ok c \<Longrightarrow> srv_ok c'"
  by (cases k) (auto simp: cancel_keeps ObsServer_delete_keeps dest: srv_keeps)

fun run_all :: "('a \<Rightarrow> 's \<Rightarrow> 's option) \<Rightarrow> 'a list \<Rightarrow> 's \<Rightarrow> 's option" where
  "run_all f [] s = Some s"
| "run_all f (a # as) s = f a s \<bind> run_all f as"

text \<open>Operations that keep an invariant keep it over every sequence of calls.\<close>

locale invariant_ops =
  fixes opn :: "'a \<Rightarrow> 's \<Rightarrow> 's option" and inv :: "'s \<Rightarrow> bool"
  assumes keeps: "opn a s = Some s' \<Longrightarrow> inv s \<Longrightarrow> inv s'"
begin

lemma run_keeps: "run_all opn as s = Some s' \<Longrightarrow> inv s \<Longrightarrow> inv s'"
  by (induction as arbitrary: s) (auto simp: bind_eq_Some_conv dest: keeps)

lemma run_prefix: "run_all opn (as @ bs) s = Some s' \<Longrightarrow> inv s \<Longrightarrow> \<exists>s1. run_all opn as s = Some s1 \<and> inv s1 \<and> run_all opn bs s1 = Some s'"
  by (induction as arbitrary: s) (auto simp: bind_eq_Some_conv, metis keeps)

end

interpretation srv: invariant_ops "srv_step e" srv_ok
  by unfold_locales (rule srv_step_keeps)

section \<open>One round of the timers\<close>

lemma retransmit_loop_trace:
  "trace (snd (retransmit_loop e tick ns c)) = trace c @ map (\<lambda>n. Sent (n_remote n) (n_message n)) (filter (\<lambda>n. retransmit_due tick n \<and> \<not> acked n) ns)"
  by (induction ns arbitrary: c) (auto simp: Let_def case_prod_beta CoAPNetwork_write_def)

lemma retransmit_loop_tn: "tn (snd (retransmit_loop e tick ns c)) = tn c"
  by (induction ns arbitrary: c) (auto simp: Let_def case_prod_beta CoAPNetwork_write_def)

definition timeout_event :: "CoAPSendNode \<Rightarrow> coap_event list" where
  "timeout_event n = (case n_handler n of None \<Rightarrow> [] | Some h \<Rightarrow> [Handler h COAP_RECV_RESP_TIMEOUT (n_user n) (n_remote n) None])"

lemma call_handler_trace: "trace (call_handler h r u a m c) = trace c @ (case h of None \<Rightarrow> [] | Some f \<Rightarrow> [Handler f r u a m])"
  by (simp add: call_handler_def emit_event_def split: option.split)

lemma expire_node_fields:
  "nodes (sendlist (expire_node i c)) = take i (nodes (sendlist c)) @ drop (Suc i) (nodes (sendlist c))"
  "trace (expire_node i c) = trace c @ timeout_event (nodes (sendlist c) ! i)" "tn (expire_node i c) = tn c"
  by (simp_all add: expire_node_def Let_def CoapObsServerAll_delete_def list_remove_def call_handler_trace timeout_event_def,
      simp add: call_handler_def emit_event_def split: option.split)

lemma find_index_total: "find_index (\<lambda>n. Some (P n)) xs = Some (if \<exists>x \<in> set xs. P x then Some (length (takeWhile (\<lambda>x. \<not> P x) xs)) else None)"
  by (induction xs) auto

lemma check_timeout_spec:
  "nodes (sendlist (check_timeout_loop tick c)) = filter (\<lambda>n. \<not> expired tick n) (nodes (sendlist c))
   \<and> trace (check_timeout_loop tick c) = trace c @ concat (map timeout_event (filter (expired tick) (nodes (sendlist c))))
   \<and> tn (check_timeout_loop tick c) = tn c"
proof (induction tick c rule: check_timeout_loop.induct)
  case (1 tick c)
  let ?ns = "nodes (sendlist c)"
  let ?i = "length (takeWhile (\<lambda>n. \<not> expired tick n) ?ns)"
  show ?case
  proof (cases "\<exists>n \<in> set ?ns. expired tick n")
    case True
    then have f: "find_index (\<lambda>n. Some (expired tick n)) ?ns = Some (Some ?i)" by (simp add: find_index_total)
    let ?pre = "takeWhile (\<lambda>n. \<not> expired tick n) ?ns" and ?post = "dropWhile (\<lambda>n. \<not> expired tick n) ?ns"
    obtain n rest where post: "?post = n # rest" "expired tick n"
      using True by (metis dropWhile_eq_Nil_conv hd_dropWhile list.exhaust_sel)
    have ns: "?ns = ?pre @ n # rest" using post takeWhile_dropWhile_id [of "\<lambda>n. \<not> expired tick n" ?ns] by simp
    have x: "?ns ! ?i = n" "take ?i ?ns = ?pre" "drop (Suc ?i) ?ns = rest"
      by (subst (1) ns; simp)+
    have fp: "filter (expired tick) ?pre = []" "filter (\<lambda>n. \<not> expired tick n) ?pre = ?pre" 
      by (auto simp: filter_empty_conv filter_id_conv dest: set_takeWhileD)
    then have "filter (expired tick) ?ns = n # filter (expired tick) rest"
        "filter (\<lambda>n. \<not> expired tick n) ?ns = ?pre @ filter (\<lambda>n. \<not> expired tick n) rest"
      by (subst ns, simp add: post(2))+
    with "1.IH" [OF f refl] f x post(2) fp show ?thesis
      by (subst (1 2 3) check_timeout_loop.simps) (simp add: expire_node_fields)
  next
    case False
    then show ?thesis by (subst (1 2 3) check_timeout_loop.simps) (auto simp: find_index_total filter_empty_conv filter_id_conv)
  qed
qed

text \<open>The two timer functions in the order of \<open>CoAPMessage_cycle\<close>.\<close>

definition timer_round :: "coap_env \<Rightarrow> CoAPIntContext \<Rightarrow> CoAPIntContext" where
  "timer_round e c = Check_timeout e (Retansmit e c)"

lemma timer_round_fields:
  fixes e c
  defines "t1 \<equiv> uptime e (tn c)" and "t2 \<equiv> uptime e (tn c + 1)" and "ns \<equiv> nodes (sendlist c)"
  shows "nodes (sendlist (timer_round e c)) = filter (\<lambda>n. \<not> expired t2 n) (map (retransmit_node t1) ns)"
    and "trace (timer_round e c) = trace c @ map (\<lambda>n. Sent (n_remote n) (n_message n)) (filter (\<lambda>n. retransmit_due t1 n \<and> \<not> acked n) ns)
      @ concat (map timeout_event (filter (expired t2) (map (retransmit_node t1) ns)))"
    and "tn (timer_round e c) = tn c + 2"
proof -
  let ?c = "Retansmit e c"
  have r: "nodes (sendlist ?c) = map (retransmit_node t1) ns" "tn ?c = tn c + 1"
     "trace ?c = trace c @ map (\<lambda>n. Sent (n_remote n) (n_message n)) (filter (\<lambda>n. retransmit_due t1 n \<and> \<not> acked n) ns)"
    by (simp_all add: Retansmit_def HAL_UptimeMs_def case_prod_beta retransmit_loop_nodes retransmit_loop_tn retransmit_loop_trace t1_def ns_def)
  note k = check_timeout_spec [of "uptime e (tn ?c)" "?c\<lparr>tn := tn ?c + 1\<rparr>"]
  show "nodes (sendlist (timer_round e c)) = filter (\<lambda>n. \<not> expired t2 n) (map (retransmit_node t1) ns)"
    and "trace (timer_round e c) = trace c @ map (\<lambda>n. Sent (n_remote n) (n_message n)) (filter (\<lambda>n. retransmit_due t1 n \<and> \<not> acked n) ns)
      @ concat (map timeout_event (filter (expired t2) (map (retransmit_node t1) ns)))"
    and "tn (timer_round e c) = tn c + 2"
    using k r by (simp_all add: timer_round_def Check_timeout_def HAL_UptimeMs_def t2_def)
qed

section \<open>Requests without an answer\<close>

primrec timer_rounds :: "coap_env \<Rightarrow> nat \<Rightarrow> CoAPIntContext \<Rightarrow> CoAPIntContext" where
  "timer_rounds e 0 c = c"
| "timer_rounds e (Suc k) c = timer_rounds e k (timer_round e c)"

definition budget :: "CoAPSendNode list \<Rightarrow> nat" where
  "budget ns = sum_list (map (\<lambda>n. unat (retrans_count n)) ns)"

text \<open>The messages of the list with this destination and these bytes, and what a run has added to the trace.\<close>

definition waiting :: "NetworkAddr \<Rightarrow> bytes \<Rightarrow> CoAPSendNode list \<Rightarrow> CoAPSendNode list" where
  "waiting dst msg ns = filter (\<lambda>n. n_remote n = dst \<and> n_message n = msg) ns"

definition news :: "CoAPIntContext \<Rightarrow> CoAPIntContext \<Rightarrow> coap_event list" where
  "news c c' = drop (length (trace c)) (trace c')"

lemma retransmit_node_fields [simp]:
  "n_keep (retransmit_node t n) = n_keep n" "n_handler (retransmit_node t n) = n_handler n"
  "n_user (retransmit_node t n) = n_user n" "n_remote (retransmit_node t n) = n_remote n" "n_message (retransmit_node t n) = n_message n"
  by (simp_all add: retransmit_node_def Let_def)

lemma retransmit_count:
  "unat (retrans_count (retransmit_node t n)) = unat (retrans_count n) - (if retransmit_due t n then 1 else 0)"
  by (auto simp: retransmit_node_def retransmit_due_def Let_def byte_pred word_greater_zero_iff)

lemma due_count: "retransmit_due t n \<Longrightarrow> 1 \<le> unat (retrans_count n)"
  by (simp add: retransmit_due_def word_greater_zero_iff unat_gt_0 Suc_le_eq)

lemma budget_filter: "budget (filter P ns) \<le> budget ns"
  by (induction ns) (auto simp: budget_def)

lemma budget_round:
  "budget (waiting dst msg (map (retransmit_node t) ns))
    + count_list (map (\<lambda>n. Sent (n_remote n) (n_message n)) (filter (\<lambda>n. retransmit_due t n \<and> \<not> acked n) ns)) (Sent dst msg)
    \<le> budget (waiting dst msg ns)"
proof (induction ns)
  case (Cons n ns)
  then show ?case using due_count [of t n] by (auto simp: waiting_def budget_def retransmit_count)
qed (simp add: budget_def waiting_def)

lemma no_sent_timeouts: "count_list (concat (map timeout_event ns)) (Sent dst msg) = 0"
  by (induction ns) (auto simp: timeout_event_def split: option.splits)

lemma copies_round:
  "count_list (trace (timer_round e c)) (Sent dst msg) + budget (waiting dst msg (nodes (sendlist (timer_round e c))))
    \<le> count_list (trace c) (Sent dst msg) + budget (waiting dst msg (nodes (sendlist c)))"
proof -
  let ?t = "uptime e (tn c)" and ?ns = "nodes (sendlist c)"
  have "waiting dst msg (filter P ns) = filter P (waiting dst msg ns)" for P ns by (simp add: waiting_def conj_commute)
  then have "budget (waiting dst msg (nodes (sendlist (timer_round e c)))) \<le> budget (waiting dst msg (map (retransmit_node ?t) ?ns))"
    using budget_filter by (simp add: timer_round_fields)
  with budget_round [of dst msg ?t ?ns] show ?thesis by (simp add: timer_round_fields no_sent_timeouts)
qed

lemma copies_rounds:
  "count_list (trace (timer_rounds e k c)) (Sent dst msg) + budget (waiting dst msg (nodes (sendlist (timer_rounds e k c))))
    \<le> count_list (trace c) (Sent dst msg) + budget (waiting dst msg (nodes (sendlist c)))"
proof (induction k arbitrary: c)
  case (Suc k)
  show ?case using Suc [of "timer_round e c"] copies_round [of e c dst msg] by simp
qed simp

text \<open>What is left to do for the nodes that are not kept: it never grows, and as long as it stays the same these nodes do
  not change.\<close>

definition todo :: "CoAPSendNode \<Rightarrow> nat" where
  "todo n = (if n_keep n = 0 then unat (retrans_count n) + 1 else 0)"

definition potential :: "CoAPSendNode list \<Rightarrow> nat" where
  "potential ns = sum_list (map todo ns)"

definition unkept :: "CoAPSendNode list \<Rightarrow> CoAPSendNode list" where
  "unkept ns = filter (\<lambda>n. n_keep n = 0) ns"

lemma todo_retransmit: "todo (retransmit_node t n) \<le> todo n \<and> (todo (retransmit_node t n) = todo n \<longrightarrow> n_keep n = 0 \<longrightarrow> \<not> retransmit_due t n)"
  using due_count [of t n] by (auto simp: todo_def retransmit_count)

lemma not_due: "\<not> retransmit_due t n \<Longrightarrow> retransmit_node t n = n"
  by (simp add: retransmit_node_def)

lemma potential_Cons [simp]: "potential (n # ns) = todo n + potential ns" "potential [] = 0"
  by (simp_all add: potential_def)

lemma unkept_Cons [simp]: "unkept (n # ns) = (if n_keep n = 0 then n # unkept ns else unkept ns)" "unkept [] = []"
  by (simp_all add: unkept_def)

lemma potential_round:
  fixes ns t1 t2
  defines "ns' \<equiv> filter (\<lambda>n. \<not> expired t2 n) (map (retransmit_node t1) ns)"
  shows "potential ns' \<le> potential ns \<and> (potential ns' = potential ns \<longrightarrow>
    unkept ns' = unkept ns \<and> (\<forall>n \<in> set (unkept ns). \<not> retransmit_due t1 n \<and> \<not> expired t2 n))"
  unfolding ns'_def
proof (induction ns)
  case (Cons n ns)
  have z: "n_keep n = 0 \<Longrightarrow> 0 < todo n" by (simp add: todo_def)
  have k: "expired t2 m \<Longrightarrow> n_keep m = 0" for m by (simp add: expired_def)
  show ?case
  proof (cases "expired t2 (retransmit_node t1 n)")
    case True
    then have "0 < todo n" using k [OF True] z by simp
    with conjunct1 [OF Cons]
    have "potential (filter (\<lambda>n. \<not> expired t2 n) (map (retransmit_node t1) ns)) < todo n + potential ns" by linarith
    with True show ?thesis by simp
  next
    case False
    let ?P = "potential (filter (\<lambda>n. \<not> expired t2 n) (map (retransmit_node t1) ns))"
    have le: "todo (retransmit_node t1 n) \<le> todo n" "?P \<le> potential ns" using conjunct1 [OF todo_retransmit] conjunct1 [OF Cons] .
    have eqc: "unkept (retransmit_node t1 n # filter (\<lambda>n. \<not> expired t2 n) (map (retransmit_node t1) ns)) = unkept (n # ns)
        \<and> (\<forall>m \<in> set (unkept (n # ns)). \<not> retransmit_due t1 m \<and> \<not> expired t2 m)"
      if "todo (retransmit_node t1 n) + ?P = todo n + potential ns"
    proof -
      from that le have e: "todo (retransmit_node t1 n) = todo n" "?P = potential ns" by linarith+
      note ih = mp [OF conjunct2 [OF Cons] e(2)]
      show ?thesis
      proof (cases "n_keep n = 0")
        case True
        with e(1) todo_retransmit [of t1 n] have "\<not> retransmit_due t1 n" by simp
        moreover from this have "retransmit_node t1 n = n" by (rule not_due)
        ultimately show ?thesis using ih False True by simp
      qed (use ih in simp)
    qed
    have f: "filter (\<lambda>n. \<not> expired t2 n) (map (retransmit_node t1) (n # ns))
        = retransmit_node t1 n # filter (\<lambda>n. \<not> expired t2 n) (map (retransmit_node t1) ns)" using False by simp
    show ?thesis unfolding f potential_Cons using add_mono [OF le] eqc by blast
  qed
qed simp

lemma rounds_snoc: "timer_rounds e (Suc k) c = timer_round e (timer_rounds e k c)"
  by (induction k arbitrary: c) simp_all

lemma rounds_tn: "tn (timer_rounds e k c) = tn c + 2 * k"
  by (induction k arbitrary: c) (simp_all add: timer_round_fields)

definition pot :: "CoAPIntContext \<Rightarrow> nat" where
  "pot c = potential (nodes (sendlist c))"

lemma pot_rounds: "pot (timer_rounds e k c) \<le> pot c \<and> (pot (timer_rounds e k c) = pot c \<longrightarrow>
    unkept (nodes (sendlist (timer_rounds e k c))) = unkept (nodes (sendlist c)))"
proof (induction k)
  case (Suc k)
  let ?c = "timer_rounds e k c"
  have "pot (timer_round e ?c) \<le> pot ?c \<and> (pot (timer_round e ?c) = pot ?c \<longrightarrow> unkept (nodes (sendlist (timer_round e ?c))) = unkept (nodes (sendlist ?c)))"
    using potential_round [of "uptime e (tn ?c + 1)" "uptime e (tn ?c)" "nodes (sendlist ?c)"]
    by (simp only: pot_def timer_round_fields) blast
  with Suc show ?case unfolding rounds_snoc by auto
qed simp

lemma pot_decreases:
  assumes mono: "\<And>i. uptime e i \<le> uptime e (Suc i)" and unb: "\<And>B. \<exists>i. B < uptime e i" and pos: "0 < pot c"
  shows "\<exists>k. pot (timer_rounds e k c) < pot c"
proof (rule ccontr)
  assume "\<not> ?thesis"
  then have eq: "pot (timer_rounds e k c) = pot c" for k using pot_rounds [of e k c] by (metis le_neq_implies_less)
  have "unkept (nodes (sendlist c)) \<noteq> []"
  proof
    assume "unkept (nodes (sendlist c)) = []"
    then have "potential (nodes (sendlist c)) = 0" by (auto simp: unkept_def potential_def todo_def filter_empty_conv)
    with pos show False by (simp add: pot_def)
  qed
  then obtain n where n: "n \<in> set (unkept (nodes (sendlist c)))" by (cases "unkept (nodes (sendlist c))") auto
  obtain N where N: "timeout n < uptime e N" using unb by blast
  let ?c = "timer_rounds e N c"
  have le: "uptime e i \<le> uptime e j" if "i \<le> j" for i j using that mono by (rule lift_Suc_mono_le [rotated])
  have "N \<le> tn ?c" by (simp add: rounds_tn)
  then have t1: "timeout n < uptime e (tn ?c)" and t2: "timeout n < uptime e (tn ?c + 1)"
    using N le [of N "tn ?c"] le [of N "tn ?c + 1"] by simp_all
  have "n \<in> set (unkept (nodes (sendlist ?c)))" using n pot_rounds [of e N c] eq by simp
  moreover have "pot (timer_round e ?c) = pot ?c" using eq [of N] eq [of "Suc N"] by (simp only: rounds_snoc)
  ultimately have "\<not> retransmit_due (uptime e (tn ?c)) n \<and> \<not> expired (uptime e (tn ?c + 1)) n \<and> n_keep n = 0"
    using potential_round [of "uptime e (tn ?c + 1)" "uptime e (tn ?c)" "nodes (sendlist ?c)"]
    by (simp add: pot_def timer_round_fields unkept_def)
  with t1 t2 show False by (auto simp: retransmit_due_def expired_def word_greater_zero_iff)
qed

lemma pot_zero: 
  assumes "\<And>i. uptime e i \<le> uptime e (Suc i)" "\<And>B. \<exists>i. B < uptime e i"
  shows "\<exists>k. pot (timer_rounds e k c) = 0"
proof (induction "pot c" arbitrary: c rule: less_induct)
  case less
  show ?case
  proof (cases "pot c = 0")
    case True
    then show ?thesis by (intro exI [of _ 0]) simp
  next
    case False
    then obtain k where "pot (timer_rounds e k c) < pot c" using pot_decreases [OF assms] by blast
    from less [OF this] obtain j where "pot (timer_rounds e j (timer_rounds e k c)) = 0" by blast
    moreover have "timer_rounds e j (timer_rounds e k c) = timer_rounds e (k + j) c" by (induction k arbitrary: c) simp_all
    ultimately show ?thesis by auto
  qed
qed

lemma rounds_trace: "trace (timer_rounds e k c) = trace c @ news c (timer_rounds e k c)"
proof (induction k)
  case (Suc k)
  then have "length (trace c) \<le> length (trace (timer_rounds e k c))" by (metis le_add1 length_append)
  with Suc show ?case unfolding rounds_snoc news_def by (simp add: timer_round_fields)
qed (simp add: news_def)

lemma news_snoc: "news c (timer_rounds e (Suc k) c) = news c (timer_rounds e k c) @ news (timer_rounds e k c) (timer_round e (timer_rounds e k c))"
  using arg_cong [OF rounds_trace [of e k c], of length] unfolding rounds_snoc by (simp add: news_def timer_round_fields)

lemma timeout_told:
  assumes "n \<in> set (nodes (sendlist c))" "n_keep n = 0" "n_handler n = Some h"
  shows "(\<exists>n' \<in> set (nodes (sendlist (timer_rounds e k c))). n_keep n' = 0) \<or>
     Handler h COAP_RECV_RESP_TIMEOUT (n_user n) (n_remote n) None \<in> set (news c (timer_rounds e k c))"
proof -
  let ?same = "\<lambda>n'. n_keep n' = 0 \<and> n_handler n' = n_handler n \<and> n_user n' = n_user n \<and> n_remote n' = n_remote n"
  let ?ev = "Handler h COAP_RECV_RESP_TIMEOUT (n_user n) (n_remote n) None"
  have "(\<exists>n' \<in> set (nodes (sendlist (timer_rounds e k c))). ?same n') \<or> ?ev \<in> set (news c (timer_rounds e k c))"
  proof (induction k)
    case (Suc k)
    let ?c = "timer_rounds e k c"
    let ?t1 = "uptime e (tn ?c)" and ?t2 = "uptime e (tn ?c + 1)"
    from Suc show ?case
    proof
      assume "?ev \<in> set (news c ?c)"
      then show ?thesis unfolding news_snoc by simp
    next
      assume "\<exists>n' \<in> set (nodes (sendlist ?c)). ?same n'"
      then obtain n' where n': "n' \<in> set (nodes (sendlist ?c))" "?same n'" by blast
      show ?thesis
      proof (cases "expired ?t2 (retransmit_node ?t1 n')")
        case True
        then have "?ev \<in> set (timeout_event (retransmit_node ?t1 n'))" using n'(2) assms(3) by (simp add: timeout_event_def)
        with True n'(1) show ?thesis unfolding news_snoc by (auto simp: news_def timer_round_fields)
      next
        case False
        with n' show ?thesis unfolding rounds_snoc
          by (intro disjI1 bexI [of _ "retransmit_node ?t1 n'"]) (auto simp: timer_round_fields)
      qed
    qed
  qed (use assms in auto)
  then show ?thesis by blast
qed

lemma budget_bound: "\<forall>n \<in> set ns. node_ok n \<Longrightarrow> budget ns \<le> 8 * length ns"
  by (induction ns) (auto simp: budget_def node_ok_def word_le_nat_alt)

lemma pot_zero_kept: "pot c = 0 \<Longrightarrow> n \<in> set (nodes (sendlist c)) \<Longrightarrow> n_keep n \<noteq> 0"
proof -
  have "potential ns = 0 \<Longrightarrow> n \<in> set ns \<Longrightarrow> n_keep n \<noteq> 0" for ns by (induction ns) (auto simp: todo_def)
  then show "pot c = 0 \<Longrightarrow> n \<in> set (nodes (sendlist c)) \<Longrightarrow> n_keep n \<noteq> 0" by (simp add: pot_def)
qed

section \<open>Properties\<close>

text \<open>C7. After any sequence of calls that do not fault, on a context from \<open>CoAPContext_create\<close>, with any behaviour of the
  network, the clock and the allocator, the counts of the four lists are their lengths and within the limits, tokens fit
  their arrays, and no waiting message has more than eight retransmissions left.\<close>

theorem server_invariant:
  assumes "CoAPContext_create got_ctx got_buf got_mutex got_net send_max res_max obs_max wait = Some (Some c0)" "run_all (srv_step e) calls c0 = Some c"
  shows "srv_ok c"
  using srv.run_keeps [OF assms(2) create_ok [OF assms(1)]] .

text \<open>C11. When the clock advances without bound and no message arrives, every waiting message, except those that are kept
  for answers to a multicast (\<open>n_keep\<close> is not 0), leaves the send list after finitely many rounds of the timers, and in these rounds
  its handler is called with the time-out result.  And in all rounds together the same datagram goes to the same destination at most
  eight times for each message in the list with this destination and these bytes; nothing else is sent.\<close>

theorem requests_time_out:
  assumes "srv_ok c" "\<And>i. uptime e i \<le> uptime e (Suc i)" "\<And>B. \<exists>i. B < uptime e i"
  shows "(\<exists>k. \<forall>n. (n \<in> set (nodes (sendlist (timer_rounds e k c))) \<longrightarrow> n_keep n \<noteq> 0)
      \<and> (\<forall>h. n \<in> set (nodes (sendlist c)) \<and> n_keep n = 0 \<and> n_handler n = Some h
            \<longrightarrow> Handler h COAP_RECV_RESP_TIMEOUT (n_user n) (n_remote n) None \<in> set (news c (timer_rounds e k c))))
    \<and> (\<forall>k dst msg. count_list (news c (timer_rounds e k c)) (Sent dst msg) \<le> 8 * length (waiting dst msg (nodes (sendlist c))))"
proof (intro conjI allI)
  obtain k where k: "pot (timer_rounds e k c) = 0" using pot_zero [OF assms(2,3)] by blast
  have "n \<in> set (nodes (sendlist (timer_rounds e k c))) \<Longrightarrow> n_keep n \<noteq> 0" for n using pot_zero_kept [OF k] .
  then show "\<exists>k. \<forall>n. (n \<in> set (nodes (sendlist (timer_rounds e k c))) \<longrightarrow> n_keep n \<noteq> 0)
      \<and> (\<forall>h. n \<in> set (nodes (sendlist c)) \<and> n_keep n = 0 \<and> n_handler n = Some h
            \<longrightarrow> Handler h COAP_RECV_RESP_TIMEOUT (n_user n) (n_remote n) None \<in> set (news c (timer_rounds e k c)))"
    using timeout_told [of _ c _ e k] by blast
  fix k dst msg
  have "budget (waiting dst msg (nodes (sendlist c))) \<le> 8 * length (waiting dst msg (nodes (sendlist c)))"
    using assms(1) by (intro budget_bound) (auto simp: srv_ok_def waiting_def)
  moreover have "count_list (trace (timer_rounds e k c)) (Sent dst msg) = count_list (trace c) (Sent dst msg) + count_list (news c (timer_rounds e k c)) (Sent dst msg)"
    by (subst rounds_trace) (rule count_list_append)
  ultimately show "count_list (news c (timer_rounds e k c)) (Sent dst msg) \<le> 8 * length (waiting dst msg (nodes (sendlist c)))"
    using copies_rounds [of e k c dst msg] by linarith
qed

end
