(* ===== verification/CoAP_Server_Dispatch.thy ===== *)
theory CoAP_Server_Dispatch
  imports CoAP_Server_Props
begin

text \<open>
  Received datagrams on their way through the CoAP server: from the bytes of a well-formed message to the handler of the
  request it answers, or to the callback of the resource it asks for; and the datagrams that bring the server down.
\<close>

section \<open>Messages that can be handled\<close>

text \<open>The parts of a parsed message the handlers read are inside of their objects.\<close>

definition readable :: "CoAPMessage \<Rightarrow> bool" where
  "readable m \<longleftrightarrow> length (token m) = 8 \<and> tokenlen (header m) \<le> 8 \<and> (\<forall>o' \<in> set (take (optcount m) (options m)). option_backed o')"

lemma zero_message_blank: "blank_message zero_message"
  by (simp add: blank_message_def zero_message_def CoAPMessage_init_def)

lemma parse_readable:
  assumes "rfc_valid w" "framed w rest"
  shows "\<exists>m. CoAPDeserialize_Message zero_message (rfc_message w @ rest) (int (length (rfc_message w))) = Some (COAP_SUCCESS, m)
    \<and> received_view m = w \<and> readable m"
  using parse_message_rfc [OF assms zero_message_blank] by (auto simp: readable_def)

lemma token_dump_ok:
  assumes "index + left \<le> 8" "length tok = 8" "length buf = 17" "p = 2 * index" "room = 16 - 2 * int index"
  shows "\<exists>b. token_dump_loop tok left index buf p room = Some b"
  using assms
proof (induction left arbitrary: index buf p room)
  case (Suc left)
  obtain b where b: "load tok index = Some b" using Suc.prems(1,2) by (simp add: load_def)
  obtain buf' where buf': "snprintf_hex buf p room b = Some buf'" "length buf' = 17"
  proof (cases "index = 7")
    case True
    with Suc.prems that show ?thesis by (auto simp: snprintf_hex_def Let_def store_n_def)
  next
    case False
    with Suc.prems(1) have "index < 7" by simp
    with Suc.prems that show ?thesis by (auto simp: snprintf_hex_def Let_def store_n_def)
  qed
  with Suc.IH [of "index + 1" buf' "p + 2" "room - 2"] Suc.prems b show ?case by simp
qed simp

lemma uint_get_ok:
  assumes "readable m"
  shows "\<exists>rc d'. CoAPUintOption_get m n d = Some (rc, d')"
proof (cases "find_option m n")
  case (Some o')
  then have "o' \<in> set (take (optcount m) (options m))" by (force simp: find_option_def find_Some_iff in_set_conv_nth)
  then have "option_backed o'" using assms by (simp add: readable_def)
  with Some show ?thesis
    by (auto simp: CoAPUintOption_get_def option_backed_def load_n_def word_le_nat_alt split: option.splits)
qed (simp add: CoAPUintOption_get_def)

lemma dump_ok: "readable m \<Longrightarrow> CoAPMessage_dump m = Some ()"
proof -
  assume r: "readable m"
  obtain b where "CoAPMessageToken_dump (token m) (tokenlen (header m)) = Some b"
    using token_dump_ok [of 0 "unat (tokenlen (header m))" "token m" "replicate 17 0" 0 16] r
    by (auto simp: CoAPMessageToken_dump_def readable_def word_le_nat_alt)
  with uint_get_ok [OF r, of COAP_OPTION_CONTENT_FORMAT 0] show ?thesis by (auto simp: CoAPMessage_dump_def)
qed

section \<open>Searching by token\<close>

definition token_eq :: "byte \<Rightarrow> bytes \<Rightarrow> CoAPMessage \<Rightarrow> bool" where
  "token_eq n tok m \<longleftrightarrow> n \<noteq> 0 \<and> n = tokenlen (header m) \<and> take (unat n) tok = token_data m"

lemma token_match_total: "readable m \<Longrightarrow> length tok = 8 \<Longrightarrow> token_match n tok m = Some (token_eq n tok m)"
  by (auto simp: token_match_def token_eq_def readable_def load_n_def word_le_nat_alt token_data_def)

lemma find_index_cong: "(\<And>x. x \<in> set xs \<Longrightarrow> P x = Q x) \<Longrightarrow> find_index P xs = find_index Q xs"
  by (induction xs) (auto cong: if_cong)

lemma find_token_send:
  assumes "readable m" "srv_ok c"
  shows "find_index (\<lambda>n. token_match (tokenlen (n_header n)) (n_token n) m) (nodes (sendlist c))
    = find_index (\<lambda>n. Some (token_eq (tokenlen (n_header n)) (n_token n) m)) (nodes (sendlist c))"
  using srv_okD(5) [OF assms(2)] assms(1) by (intro find_index_cong) (auto simp: node_ok_def token_match_total)

lemma find_token_obs:
  assumes "readable m" "srv_ok c"
  shows "find_index (\<lambda>n. token_match (oc_tokenlen n) (oc_token n) m) (nodes (obsclient c))
    = find_index (\<lambda>n. Some (token_eq (oc_tokenlen n) (oc_token n) m)) (nodes (obsclient c))"
  using srv_okD(6) [OF assms(2)] assms(1) by (intro find_index_cong) (auto simp: observable_ok_def token_match_total)

lemma copy_token_ok: "readable m \<Longrightarrow> \<exists>t. copy_token m (replicate 8 0) = Some t"
  by (auto simp: copy_token_def readable_def load_n_def store_n_def word_le_nat_alt)

lemma ObsClient_add_total:
  assumes "readable m" "srv_ok c"
  shows "\<exists>rc c'. CoAPObsClient_add e c m remote (Some n) = Some (rc, c') \<and> sendlist c' = sendlist c \<and> trace c' = trace c"
  using copy_token_ok [OF assms(1)] uint_get_ok [OF assms(1), of COAP_OPTION_MAXAGE 0]
  by (auto simp: CoAPObsClient_add_def find_token_obs [OF assms] find_index_total coap_malloc_def)

lemma find_first: 
  assumes "xs = pre @ x # post" "P x" "\<forall>y \<in> set pre. \<not> P y"
  shows "find_index (\<lambda>n. Some (P n)) xs = Some (Some (length pre))"
proof -
  have "takeWhile (\<lambda>y. \<not> P y) xs = pre" using assms by (simp add: takeWhile_append2)
  with assms show ?thesis by (simp add: find_index_total)
qed

section \<open>Messages without an answer\<close>

lemma send_plain:
  assumes "sendable m" "length (rfc_message (sent_view m)) \<le> 1280" "\<forall>i. mem e i" "\<not> CoAPReqMsg (header m)" "\<not> CoAPCONRespMsg (header m)"
  shows "\<exists>rc. CoAPMessage_send e c remote m = Some (rc, c\<lparr>mn := mn c + 1, wn := wn c + 1, trace := trace c @ [Sent remote (rfc_message (sent_view m))]\<rparr>)"
proof -
  let ?w = "rfc_message (sent_view m)"
  note sm = serialize_message [OF assms(1), of "length ?w" "replicate (length ?w) 0"]
  have ml: "CoAPSerialize_MessageLength m = length ?w" using sm(2) assms(2) by simp
  have se: "CoAPSerialize_Message m (replicate (length ?w) 0) (length ?w) = Some (int (length ?w), ?w)"
    using sm(1) assms(2) by simp
  have "code (header m) \<noteq> 1" using assms(4) by (auto simp: CoAPReqMsg_def)
  moreover have "readable m"
    using assms(1) by (simp add: readable_def sendable_def)
  moreover have "nat (int (length ?w) mod 65536) = length ?w" using assms(2) by simp
  ultimately show ?thesis
    using assms(2-5) dump_ok se
    by (auto simp: CoAPMessage_send_def ml coap_malloc_def CoAPNetwork_write_def CoAPObsClient_delete_def load_n_def Let_def)
qed

text \<open>The empty acknowledgement.\<close>

lemma ack_sent:
  assumes "\<forall>i. mem e i"
  shows "\<exists>rc. CoAPRequestMessage_ack_send e c remote i = Some (rc, c\<lparr>mn := mn c + 1, wn := wn c + 1,
    trace := trace c @ [Sent remote (rfc_message (1, 2, 0, unat i, [], [], []))]\<rparr>)"
proof -
  let ?m = "snd (CoAPMessageId_set CoAPMessage_init i)"
  have "sendable ?m" and v: "sent_view ?m = (1, 2, 0, unat i, [], [], [])"
    by (simp_all add: CoAPMessageId_set_def CoAPMessage_init_def sendable_def sent_view_def view_with_def token_data_def payload_data_def option_sum_def)
  moreover have "\<not> CoAPReqMsg (header ?m)" "\<not> CoAPCONRespMsg (header ?m)"
    by (simp_all add: CoAPMessageId_set_def CoAPMessage_init_def CoAPReqMsg_def CoAPCONRespMsg_def)
  ultimately show ?thesis
    using send_plain [of ?m e c remote] assms by (simp add: CoAPRequestMessage_ack_send_def rfc_payload_def)
qed

section \<open>Responses\<close>

lemma viewD:
  assumes "received_view m = (v, t, cd, mid, tok, opts, pl)"
  shows "code (header m) = cd" "unat (type (header m)) = t" "msgid (header m) = of_nat mid" "token_data m = tok"
    "map opt_view (take (optcount m) (options m)) = opts"
  using assms by (auto simp: received_view_def view_with_def Let_def)

text \<open>The acknowledgement of a confirmable response.\<close>

definition response_ack :: "nat \<Rightarrow> nat \<Rightarrow> NetworkAddr \<Rightarrow> coap_event list" where
  "response_ack t mid remote = (if t = 0 then [Sent remote (rfc_message (1, 2, 0, mid, [], [], []))] else [])"

lemma Resp_handle_delivers:
  assumes "readable m" "srv_ok c" "\<forall>i. mem e i"
    "nodes (sendlist c) = pre @ n # post" "token_eq (tokenlen (n_header n)) (n_token n) m"
    "\<forall>x \<in> set pre. \<not> token_eq (tokenlen (n_header x)) (n_token x) m" "n_handler n = Some h"
  shows "\<exists>c'. CoAPRespMessage_handle e c remote m = Some (COAP_ERROR_NOT_FOUND, c')
    \<and> nodes (sendlist c') = (if n_keep n = 0 then pre @ post else pre @ n # post)
    \<and> trace c' = trace c @ response_ack (unat (type (header m))) (unat (msgid (header m))) remote
        @ [Handler h COAP_REQUEST_SUCCESS (n_user n) remote (Some (m\<lparr>msg_user := n_user n\<rparr>))]"
proof -
  let ?m = "m\<lparr>msg_user := n_user n\<rparr>" and ?ack = "response_ack (unat (type (header m))) (unat (msgid (header m))) remote"
  obtain r0 c0 where c0: "(if type (header m) = COAP_MESSAGE_TYPE_CON then CoAPAckMessage_send e c remote (msgid (header m)) else Some (0, c)) = Some (r0, c0)"
      "srv_ok c0" "sendlist c0 = sendlist c" "trace c0 = trace c @ ?ack"
  proof (cases "type (header m) = COAP_MESSAGE_TYPE_CON")
    case True
    have eq: "CoAPAckMessage_send e c remote (msgid (header m)) = CoAPRequestMessage_ack_send e c remote (msgid (header m))"
      by (simp add: CoAPAckMessage_send_def CoAPRequestMessage_ack_send_def)
    obtain rc where a: "CoAPAckMessage_send e c remote (msgid (header m)) = Some (rc, c\<lparr>mn := mn c + 1, wn := wn c + 1,
        trace := trace c @ [Sent remote (rfc_message (1, 2, 0, unat (msgid (header m)), [], [], []))]\<rparr>)" (is "_ = Some (rc, ?c)")
      using ack_sent [OF assms(3), of c remote "msgid (header m)"] unfolding eq by blast
    have "srv_ok ?c" using a unfolding CoAPAckMessage_send_def by (rule Message_send_keeps [OF _ assms(2)])
    with True a show ?thesis by (intro that [of rc ?c]) (simp_all add: response_ack_def)
  next
    case False
    with assms(2) show ?thesis by (intro that [of 0 c]) (auto simp: response_ack_def word_unat_eq_iff)
  qed
  let ?c = "if n_keep n = 0 then c0\<lparr>sendlist := list_remove (length pre) (sendlist c0)\<rparr> else c0"
  have hit: "find_index (\<lambda>n. token_match (tokenlen (n_header n)) (n_token n) m) (nodes (sendlist c0)) = Some (Some (length pre))"
    using find_first [OF assms(4), of "\<lambda>n. token_eq (tokenlen (n_header n)) (n_token n) m"] assms(5,6) c0(3)
    by (simp add: find_token_send [OF assms(1,2)])
  have "srv_ok ?c" using c0(2,3) assms(4) by (auto intro!: srv_ok_remove)
  moreover have "readable ?m" using assms(1) by (simp add: readable_def)
  ultimately obtain rc c' where c': "CoAPObsClient_add e ?c ?m remote (Some n) = Some (rc, c')" "sendlist c' = sendlist ?c" "trace c' = trace ?c"
    using ObsClient_add_total by blast
  have "CoAPRespMessage_handle e c remote m = Some (COAP_ERROR_NOT_FOUND, call_handler (Some h) COAP_REQUEST_SUCCESS (n_user n) remote (Some ?m) c')"
    using assms(4,7) hit c0(1,3) c'(1) by (simp add: CoAPRespMessage_handle_def Let_def)
  moreover have "nodes (sendlist ?c) = (if n_keep n = 0 then pre @ post else pre @ n # post)" "trace ?c = trace c @ ?ack"
    using assms(4) c0(3,4) by (simp_all add: list_remove_def)
  ultimately show ?thesis using c'(2,3) by (simp add: call_handler_trace)
qed

text \<open>A response that arrives reaches the request it answers: when a well-formed datagram with a response code carries the
  token of a waiting message, that message leaves the list, unless it is kept, a confirmable response is acknowledged, and the handler is
  called once, with the user data of the request and the decoded response.\<close>

lemma response_delivered:
  assumes "srv_ok c" "rfc_valid w" "framed w rest" "w = (v, t, cd, mid, tok, opts, pl)" "0x40 \<le> cd" "cd < 0xC0" "t \<le> 2" "\<forall>i. mem e i"
    "nodes (sendlist c) = pre @ n # post" "tok \<noteq> []" "tokenlen (n_header n) = of_nat (length tok)" "take (length tok) (n_token n) = tok"
    "\<forall>x \<in> set pre. take (unat (tokenlen (n_header x))) (n_token x) \<noteq> tok" "n_handler n = Some h"
  shows "\<exists>m c'. CoAPMessage_handle e c remote (rfc_message w @ rest) (length (rfc_message w)) = Some c' \<and> received_view m = w
    \<and> nodes (sendlist c') = (if n_keep n = 0 then pre @ post else pre @ n # post)
    \<and> trace c' = trace c @ response_ack t mid remote @ [Handler h COAP_REQUEST_SUCCESS (n_user n) remote (Some m)]"
proof -
  obtain m where m: "CoAPDeserialize_Message zero_message (rfc_message w @ rest) (int (length (rfc_message w))) = Some (COAP_SUCCESS, m)"
      "received_view m = w" "readable m"
    using parse_readable [OF assms(2,3)] by blast
  note vd = viewD [OF m(2) [unfolded assms(4)]]
  have mid: "unat (msgid (header m)) = mid" using m(2) assms(4) by (simp add: received_view_def view_with_def Let_def)
  have len: "unat (tokenlen (header m)) = length tok"
    using vd(4) m(3) by (auto simp: token_data_def readable_def word_le_nat_alt)
  have ty: "type (header m) \<noteq> 3" using vd(2) assms(7) by (auto simp: word_unat_eq_iff)
  have tl: "tokenlen (header m) = of_nat (length tok)" using len [symmetric] by simp
  have "token_eq (tokenlen (n_header n)) (n_token n) m"
    using assms(10-12) tl len vd(4) by (auto simp: token_eq_def)
  moreover have "\<forall>x \<in> set pre. \<not> token_eq (tokenlen (n_header x)) (n_token x) m"
    using assms(13) vd(4) by (auto simp: token_eq_def)
  ultimately obtain c' where c': "CoAPRespMessage_handle e c remote m = Some (COAP_ERROR_NOT_FOUND, c')"
      "nodes (sendlist c') = (if n_keep n = 0 then pre @ post else pre @ n # post)"
      "trace c' = trace c @ response_ack t mid remote @ [Handler h COAP_REQUEST_SUCCESS (n_user n) remote (Some (m\<lparr>msg_user := n_user n\<rparr>))]"
    using Resp_handle_delivers [OF m(3) assms(1,8,9), of h remote] assms(14) vd(2) mid by auto
  have cd: "cd \<noteq> 0" using assms(5) by (auto simp: word_le_nat_alt)
  have "CoAPMessage_handle e c remote (rfc_message w @ rest) (length (rfc_message w)) = Some c'"
    using m(1) dump_ok [OF m(3)] c'(1) ty assms(5,6) cd
    by (auto simp: CoAPMessage_handle_def COAPAckMsg_def CoAPResetMsg_def CoAPRespMsg_def vd(1))
  moreover have "received_view (m\<lparr>msg_user := n_user n\<rparr>) = w"
    using m(2) by (simp add: received_view_def view_with_def token_data_def payload_data_def)
  ultimately show ?thesis using c'(2,3) by blast
qed

section \<open>Requests\<close>

text \<open>The error response.\<close>

lemma byte_lt_4: "(b :: byte) < 4 \<Longrightarrow> b = 0 \<or> b = 1 \<or> b = 2 \<or> b = 3"
  by (simp add: word_less_nat_alt word_unat_eq_iff) linarith

lemma error_sent:
  assumes "\<forall>i. mem e i" "readable m" "k = 0x84 \<or> k = 0x85" "type (header m) < 4"
  shows "\<exists>rc. CoAPErrRespMessage_send e c remote m k = Some (rc, c\<lparr>mn := mn c + 1, wn := wn c + 1,
    trace := trace c @ [Sent remote (rfc_message (1, if type (header m) = 0 then 2 else unat (type (header m)), k, unat (msgid (header m)), token_data m, [], []))]\<rparr>)"
proof -
  let ?t = "if type (header m) = 0 then 2 else type (header m)" and ?n = "unat (tokenlen (header m))"
  let ?r = "CoAPMessage_init\<lparr>header := \<lparr>version = 1, type = ?t, tokenlen = tokenlen (header m), code = k, msgid = msgid (header m)\<rparr>,
     token := take ?n (token m) @ drop ?n (replicate 8 0)\<rparr>"
  have n: "?n \<le> 8" "length (token m) = 8" using assms(2) by (simp_all add: readable_def word_le_nat_alt)
  have ty: "?t = 0 \<or> ?t = 1 \<or> ?t = 2 \<or> ?t = 3" "?t < 4"
    using assms(4) byte_lt_4 [of "type (header m)"] by auto
  have "CoAPErrRespMessage_send e c remote m k = CoAPMessage_send e c remote ?r"
    using n ty(1) by (auto simp: CoAPErrRespMessage_send_def CoAPMessageToken_set_def CoAPMessageId_set_def CoAPMessageCode_set_def
        CoAPMessageType_set_def CoAPMessage_init_def load_n_def store_n_def Let_def word_less_nat_alt)
  moreover have "sendable ?r" and v: "sent_view ?r = (1, if type (header m) = 0 then 2 else unat (type (header m)), k, unat (msgid (header m)), token_data m, [], [])"
    using n ty(2) assms(2) by (simp_all add: CoAPMessage_init_def sendable_def sent_view_def view_with_def token_data_def payload_data_def option_sum_def readable_def)
  moreover have "\<not> CoAPReqMsg (header ?r)" "\<not> CoAPCONRespMsg (header ?r)"
    using assms(3) by (auto simp: CoAPReqMsg_def CoAPCONRespMsg_def)
  moreover have "length (token_data m) \<le> 8" using n by (simp add: token_data_def)
  ultimately show ?thesis
    using send_plain [of ?r e c remote] assms(1) by (simp add: rfc_payload_def)
qed

section \<open>The path of a request\<close>

definition path_of :: "(nat \<times> bytes) list \<Rightarrow> bytes" where
  "path_of opts = concat (map (\<lambda>(n, d). if n = 11 then slash # d else []) opts)"

lemma strncpy_data:
  assumes "option_backed o'" "0 \<notin> set (option_data o')"
  shows "strncpy_src (val o') (unat (len o')) = Some (option_data o')"
proof (cases "val o'")
  case None
  then show ?thesis using assms(1) by (simp add: strncpy_src_def option_backed_def option_data_def)
next
  case (Some v)
  then have tw: "takeWhile (\<lambda>x. x \<noteq> 0) (take (unat (len o')) v) = take (unat (len o')) v" "unat (len o') \<le> length v"
    using assms by (auto simp: takeWhile_eq_all_conv option_data_def option_backed_def)
  show ?thesis using Some tw(2) by (simp add: strncpy_src_def option_data_def Let_def tw(1))
qed

lemma request_path_spec:
  assumes "\<forall>o' \<in> set os. option_backed o'" "0 \<notin> set (path_of (map opt_view os))" "length q + length (path_of (map opt_view os)) < 128"
  shows "request_path os (q @ replicate (128 - length q) 0) (length q)
    = Some (q @ path_of (map opt_view os) @ replicate (128 - length q - length (path_of (map opt_view os))) 0)"
  using assms
proof (induction os arbitrary: q)
  case (Cons o' os)
  have n: "num o' = 11 \<longleftrightarrow> unat (num o') = 11" by (simp add: word_unat_eq_iff)
  show ?case
  proof (cases "unat (num o') = 11")
    case True
    let ?d = "option_data o'" and ?k = "128 - length q"
    have d: "length ?d = unat (len o')" using Cons.prems(1) by (simp add: length_option_data)
    have p: "path_of (map opt_view (o' # os)) = slash # ?d @ path_of (map opt_view os)" using True by (simp add: path_of_def opt_view_def)
    have fits: "length q + 1 + length ?d + length (path_of (map opt_view os)) < 128" using Cons.prems(3) p by simp
    have s: "strncpy_src (val o') (unat (len o')) = Some ?d" using Cons.prems(1,2) p by (intro strncpy_data) auto
    have st: "store (q @ replicate ?k 0) (length q) slash = Some (q @ slash # replicate (?k - 1) 0)"
      using fits by (cases ?k) (auto simp: store_def)
    have "store_n (q @ slash # replicate (?k - 1) 0) (length q + 1) ?d = Some ((q @ slash # ?d) @ replicate (128 - length (q @ slash # ?d)) 0)"
      using fits by (auto simp: store_n_def)
    then have "request_path (o' # os) (q @ replicate ?k 0) (length q)
        = request_path os ((q @ slash # ?d) @ replicate (128 - length (q @ slash # ?d)) 0) (length (q @ slash # ?d))"
      using True n s st fits d by simp
    also have "\<dots> = Some ((q @ slash # ?d) @ path_of (map opt_view os) @ replicate (128 - length (q @ slash # ?d) - length (path_of (map opt_view os))) 0)"
      using Cons.prems fits p by (intro Cons.IH) auto
    finally show ?thesis using p by simp
  next
    case False
    with Cons n show ?thesis by (simp add: path_of_def opt_view_def)
  qed
qed (simp add: path_of_def)

lemma lookup_total:
  assumes "length p < 128"
  shows "\<exists>md. CoAPResourceByPath_get j rl p = Some (find (resource_matches md p) (res_list rl))"
proof (cases "p = []")
  case False
  have "length (MD5 p) = 16" using md5f.length_md_hash unfolding MD5_block by simp
  moreover have "utils_md5 j p (length p) (replicate 16 0) = Some (MD5 p)"
    using md5_correct [of p "replicate 16 0" j "[]"] assms by simp
  ultimately show ?thesis using False
    by (auto simp: CoAPResourceByPath_get_def CoAPPathMD5_sum_def load_n_def store_n_def)
qed (auto simp: CoAPResourceByPath_get_def CoAPPathMD5_sum_def)

text \<open>What the server does with a request for a path, given the resource it finds.\<close>

definition request_reaction :: "CoAPResource option \<Rightarrow> coap_view \<Rightarrow> NetworkAddr \<Rightarrow> CoAPMessage \<Rightarrow> coap_event list" where
  "request_reaction res w remote m = (case w of (v, t, cd, mid, tok, opts, pl) \<Rightarrow>
     let refuse = (\<lambda>k. [Sent remote (rfc_message (1, if t = 0 then 2 else t, k, mid, tok, [], []))]) in
     (case res of None \<Rightarrow> refuse 0x84
      | Some r \<Rightarrow> (case callback r of None \<Rightarrow> refuse 0x85
          | Some cb \<Rightarrow> if bit (permission r) (unat cd - 1)
              then (if t = 0 then [Sent remote (rfc_message (1, 2, 0, mid, [], [], []))] else []) @ [Request cb (path_of opts) remote m]
              else refuse 0x85)))"

lemma permission_bit: "k < 16 \<Longrightarrow> (0 < (x :: u16) AND push_bit k 1) = bit x k"
  using bit_iff_and_push_bit_not_eq_0 [of x k] by (simp add: word_greater_zero_iff)

lemma request_handle_reaction:
  assumes "readable m" "received_view m = w" "w = (v, t, cd, mid, tok, opts, pl)" "1 \<le> cd" "cd \<le> 16" "t \<le> 1" "\<forall>i. mem e i"
    "0 \<notin> set (path_of opts)" "length (path_of opts) < 128" "CoAPResourceByPath_get (junk e) (resource c) (path_of opts) = Some res"
  shows "\<exists>rc c'. CoAPRequestMessage_handle e c remote m = Some (rc, c')
    \<and> trace c' = trace c @ request_reaction res w remote m \<and> sendlist c' = sendlist c"
proof -
  note vd = viewD [OF assms(2) [unfolded assms(3)]]
  have mid: "unat (msgid (header m)) = mid" using assms(2,3) by (simp add: received_view_def view_with_def Let_def)
  have ty: "type (header m) < 4" "t = 0 \<longleftrightarrow> type (header m) = 0"
    using vd(2) assms(6) by (auto simp: word_less_nat_alt word_unat_eq_iff)
  have k: "unat cd - 1 < 16" using assms(5) by (simp add: word_le_nat_alt)
  have pth: "request_path (take (optcount m) (options m)) (replicate 128 0) 0 = Some (path_of opts @ replicate (128 - length (path_of opts)) 0)"
    using request_path_spec [of "take (optcount m) (options m)" "[]"] assms(1,8,9) vd(5) by (simp add: readable_def)
  have pt: "c_text (path_of opts @ replicate (128 - length (path_of opts)) 0) = Some (path_of opts)"
    using assms(8,9) by (simp add: c_text_padded)
  obtain ra where ack: "CoAPRequestMessage_ack_send e c remote (msgid (header m)) = Some (ra, c\<lparr>mn := mn c + 1, wn := wn c + 1,
      trace := trace c @ [Sent remote (rfc_message (1, 2, 0, mid, [], [], []))]\<rparr>)"
    using ack_sent [OF assms(7), of c remote "msgid (header m)"] mid by auto
  have err: "\<exists>rc. CoAPErrRespMessage_send e c remote m k = Some (rc, c\<lparr>mn := mn c + 1, wn := wn c + 1,
      trace := trace c @ [Sent remote (rfc_message (1, if t = 0 then 2 else t, k, mid, tok, [], []))]\<rparr>)" if "k = 0x84 \<or> k = 0x85" for k
    using error_sent [OF assms(7,1) that ty(1)] vd(2,4) mid ty(2) by auto
  obtain r4 r5 where e4: "CoAPErrRespMessage_send e c remote m 0x84 = Some (r4, c\<lparr>mn := mn c + 1, wn := wn c + 1,
      trace := trace c @ [Sent remote (rfc_message (1, if t = 0 then 2 else t, 0x84, mid, tok, [], []))]\<rparr>)"
    and e5: "CoAPErrRespMessage_send e c remote m 0x85 = Some (r5, c\<lparr>mn := mn c + 1, wn := wn c + 1,
      trace := trace c @ [Sent remote (rfc_message (1, if t = 0 then 2 else t, 0x85, mid, tok, [], []))]\<rparr>)"
    using err by simp metis
  show ?thesis
    using ty(2) by (cases res; cases "callback (the res)")
      (simp_all add: CoAPRequestMessage_handle_def pth pt assms(3,10) request_reaction_def ack e4 e5 vd(1) permission_bit [OF k, simplified] emit_event_def)
qed

text \<open>C17. A well-formed request in a datagram is answered by what is registered for its path: when there is a resource
  with a callback and the method is permitted, a confirmable request is acknowledged and the callback is called with the path and
  the decoded message; otherwise 4.05 or 4.04 goes back with the token and the message id of the request.\<close>

theorem request_dispatched:
  assumes "rfc_valid w" "framed w rest" "w = (v, t, cd, mid, tok, opts, pl)" "1 \<le> cd" "cd \<le> 16" "t \<le> 1" "\<forall>i. mem e i"
    "0 \<notin> set (path_of opts)" "length (path_of opts) < 128" "CoAPResourceByPath_get (junk e) (resource c) (path_of opts) = Some res"
  shows "\<exists>m c'. CoAPMessage_handle e c remote (rfc_message w @ rest) (length (rfc_message w)) = Some c' \<and> received_view m = w
    \<and> trace c' = trace c @ request_reaction res w remote m \<and> sendlist c' = sendlist c"
proof -
  obtain m where m: "CoAPDeserialize_Message zero_message (rfc_message w @ rest) (int (length (rfc_message w))) = Some (COAP_SUCCESS, m)"
      "received_view m = w" "readable m"
    using parse_readable [OF assms(1,2)] by blast
  note vd = viewD [OF m(2) [unfolded assms(3)]]
  have ty: "type (header m) \<noteq> 3" "type (header m) \<noteq> 2" using vd(2) assms(6) by (auto simp: word_unat_eq_iff)
  have cd: "cd \<noteq> 0" "cd < 0x40" "cd < 32" using assms(4,5) by (auto simp: word_le_nat_alt word_less_nat_alt)
  obtain c' rc where c': "CoAPRequestMessage_handle e c remote m = Some (rc, c')"
      "trace c' = trace c @ request_reaction res w remote m" "sendlist c' = sendlist c"
    using request_handle_reaction [OF m(3,2) assms(3-10)] by blast
  have "CoAPMessage_handle e c remote (rfc_message w @ rest) (length (rfc_message w)) = Some c'"
    using m(1) dump_ok [OF m(3)] c'(1) ty cd assms(4)
    by (auto simp: CoAPMessage_handle_def COAPAckMsg_def CoAPResetMsg_def CoAPRespMsg_def CoAPPingMsg_def CoAPReqMsg_def vd(1))
  with m(2) c'(2,3) show ?thesis by blast
qed

section \<open>Exchanges\<close>

text \<open>A request the network takes whole is sent and joins the waiting messages; a GET can end an observation.\<close>

lemma ObsClient_delete_total:
  assumes "readable m" "srv_ok c"
  shows "\<exists>rc obs. CoAPObsClient_delete c m = Some (rc, c\<lparr>obsclient := obs\<rparr>)"
proof -
  have "\<exists>obs. c = c\<lparr>obsclient := obs\<rparr>" by (rule exI [of _ "obsclient c"]) simp
  then show ?thesis using uint_get_ok [OF assms(1), of COAP_OPTION_OBSERVE 0]
    by (auto simp: CoAPObsClient_delete_def find_token_obs [OF assms] find_index_total)
qed

lemma send_request:
  assumes "srv_ok c" "sendable m" "length (rfc_message (sent_view m)) \<le> 1280" "\<forall>i. mem e i" "wr e (wn c) = int (length (rfc_message (sent_view m)))"
    "CoAPReqMsg (header m)" "c_text (addr remote) = Some dest" "count (sendlist c) < maxcount (sendlist c)"
  shows "\<exists>c'. CoAPMessage_send e c remote m = Some (COAP_SUCCESS, c') \<and> trace c' = trace c @ [Sent remote (rfc_message (sent_view m))]
    \<and> sendlist c' = list_add (send_node (uptime e (tn c)) (platform_is_multicast dest) (token_data m @ replicate (8 - length (token_data m)) 0)
      remote m (rfc_message (sent_view m))) (sendlist c)"
proof -
  let ?w = "rfc_message (sent_view m)"
  note sm = serialize_message [OF assms(2), of "length ?w" "replicate (length ?w) 0"]
  have ml: "CoAPSerialize_MessageLength m = length ?w" using sm(2) assms(3) by simp
  have se: "CoAPSerialize_Message m (replicate (length ?w) 0) (length ?w) = Some (int (length ?w), ?w)"
    using sm(1) assms(3) by simp
  have r: "readable m" using assms(2) by (simp add: readable_def sendable_def)
  have ct: "copy_token m (replicate 8 0) = Some (token_data m @ replicate (8 - length (token_data m)) 0)"
    using r by (auto simp: copy_token_def readable_def load_n_def store_n_def token_data_def word_le_nat_alt)
  have wl: "nat (int (length ?w) mod 65536) = length ?w" using assms(3) by simp
  have la: "CoAPMessageList_add e c1 remote m ?w = Some (COAP_SUCCESS, c1\<lparr>mn := mn c1 + 1, tn := tn c1 + 1,
      sendlist := list_add (send_node (uptime e (tn c1)) (platform_is_multicast dest) (token_data m @ replicate (8 - length (token_data m)) 0) remote m ?w) (sendlist c1)\<rparr>)"
    if "sendlist c1 = sendlist c" for c1
    using assms(4,7,8) ct that by (simp add: CoAPMessageList_add_def coap_malloc_def HAL_UptimeMs_def)
  have "srv_ok (c\<lparr>mn := mn c + 1\<rparr>)" using assms(1) by (simp add: srv_ok_def)
  then obtain rd obs where od: "CoAPObsClient_delete (c\<lparr>mn := mn c + 1\<rparr>) m = Some (rd, (c\<lparr>mn := mn c + 1\<rparr>)\<lparr>obsclient := obs\<rparr>)"
    using ObsClient_delete_total [OF r] by blast
  show ?thesis
    using assms(3-6) dump_ok [OF r] se wl od
    by (simp add: CoAPMessage_send_def ml coap_malloc_def CoAPNetwork_write_def load_n_def Let_def la)
qed

text \<open>C16. A request is answered: a request with a fresh, non-empty token and a handler, any method and any destination, is sent and joins
  the waiting messages, provided that memory is available, the network takes the datagram whole and the list has room.  The datagram
  with a response code and this token, confirmable, not confirmable or an acknowledgement, from whatever sender, then calls its
  handler once with the decoded response and the user data given with the request; a confirmable response is acknowledged before.  The
  request leaves the list again, unless it went to a multicast address or was marked to be kept: then it stays for more
  responses.\<close>

theorem request_answered:
  assumes "srv_ok c" "sendable m" "length (rfc_message (sent_view m)) \<le> 1280" "\<forall>i. mem e i" "wr e (wn c) = int (length (rfc_message (sent_view m)))"
    "CoAPReqMsg (header m)" "c_text (addr remote) = Some dest"
    "count (sendlist c) < maxcount (sendlist c)" "msg_handler m = Some h"
    "token_data m \<noteq> []" "\<forall>x \<in> set (nodes (sendlist c)). take (unat (tokenlen (n_header x))) (n_token x) \<noteq> token_data m"
    and "rfc_valid w" "framed w rest" "w = (v, t, cd, mid, token_data m, opts, pl)" "0x40 \<le> cd" "cd < 0xC0" "t \<le> 2"
  shows "\<exists>c1 c2 m2 n. CoAPMessage_send e c remote m = Some (COAP_SUCCESS, c1)
    \<and> nodes (sendlist c1) = nodes (sendlist c) @ [n] \<and> n_message n = rfc_message (sent_view m) \<and> n_remote n = remote
    \<and> CoAPMessage_handle e c1 peer (rfc_message w @ rest) (length (rfc_message w)) = Some c2 \<and> received_view m2 = w
    \<and> nodes (sendlist c2) = nodes (sendlist (if platform_is_multicast dest \<or> msg_keep m = 1 then c1 else c))
    \<and> trace c2 = trace c @ [Sent remote (rfc_message (sent_view m))] @ response_ack t mid peer @ [Handler h COAP_REQUEST_SUCCESS (msg_user m) peer (Some m2)]"
proof -
  let ?n = "send_node (uptime e (tn c)) (platform_is_multicast dest) (token_data m @ replicate (8 - length (token_data m)) 0) remote m (rfc_message (sent_view m))"
  obtain c1 where c1: "CoAPMessage_send e c remote m = Some (COAP_SUCCESS, c1)" "sendlist c1 = list_add ?n (sendlist c)"
      "trace c1 = trace c @ [Sent remote (rfc_message (sent_view m))]"
    using send_request [OF assms(1-8)] by blast
  have ok: "srv_ok c1" using Message_send_keeps [OF c1(1) assms(1)] .
  have len: "tokenlen (header m) = of_nat (length (token_data m))" "length (token_data m) \<le> 8"
    using assms(2) by (auto simp: sendable_def token_data_def word_le_nat_alt word_unat_eq_iff)
  have n1: "nodes (sendlist c1) = nodes (sendlist c) @ [?n]" using c1(2) by (simp add: list_add_def)
  have n: "n_handler ?n = Some h" "n_user ?n = msg_user m" "tokenlen (n_header ?n) = of_nat (length (token_data m))"
      "take (length (token_data m)) (n_token ?n) = token_data m" "n_message ?n = rfc_message (sent_view m)" "n_remote ?n = remote"
      "n_keep ?n = 0 \<longleftrightarrow> \<not> (platform_is_multicast dest \<or> msg_keep m = 1)"
    using assms(9) len(1) by (simp_all add: send_node_def Let_def)
  obtain m2 c2 where "CoAPMessage_handle e c1 peer (rfc_message w @ rest) (length (rfc_message w)) = Some c2" "received_view m2 = w"
      "nodes (sendlist c2) = (if n_keep ?n = 0 then nodes (sendlist c) @ [] else nodes (sendlist c) @ [?n])"
      "trace c2 = trace c1 @ response_ack t mid peer @ [Handler h COAP_REQUEST_SUCCESS (msg_user m) peer (Some m2)]"
    using response_delivered [OF ok assms(12-17,4) n1 assms(10) n(3,4) assms(11) n(1), of peer] n(2) by auto
  with c1(1,3) n1 n(5-7) show ?thesis
    by (intro exI [of _ c1] exI [of _ c2] exI [of _ m2] exI [of _ ?n]) auto
qed

section \<open>Sample runs\<close>

definition sample_peer :: NetworkAddr where
  "sample_peer = \<lparr>addr = [0x31, 0x2E, 0x32, 0x2E, 0x33, 0x2E, 0x34, 0], port = 5683\<rparr>"

text \<open>A platform that takes datagrams of 16 bytes, reads the clock every second and receives nothing.\<close>

definition lan_env :: coap_env where
  "lan_env = \<lparr>wr = \<lambda>i. 16, mem = \<lambda>i. True, uptime = \<lambda>i. 1000 * i, rd = \<lambda>i. (0, sample_peer, []),
     ip = [0x39], junk = \<lparr>md5_total0 = 0, md5_total1 = 0, md5_state = [], md5_buffer = []\<rparr>\<rparr>"

definition lan_context :: CoAPIntContext where
  "lan_context = the (the (CoAPServer_init None True True True True))"

definition sample_call :: CoAPMessage where
  "sample_call = sample_request\<lparr>msg_handler := Some 7, msg_user := 5\<rparr>"

lemma sample_created: "CoAPContext_create True True True True 16 255 16 50 = Some (Some lan_context)"
  by (simp add: lan_context_def CoAPServer_init_def CoAPContext_create_def Let_def)

lemma lan_context_ok: "srv_ok lan_context" "nodes (sendlist lan_context) = []" "count (sendlist lan_context) < maxcount (sendlist lan_context)"
    "res_list (resource lan_context) = []" "trace lan_context = []"
  using create_ok [OF sample_created] by (simp_all add: lan_context_def CoAPServer_init_def CoAPContext_create_def CoAPResource_init_def)

lemma sample_unicast: "c_text (addr sample_peer) = Some [0x31, 0x2E, 0x32, 0x2E, 0x33, 0x2E, 0x34]"
    "\<not> platform_is_multicast [0x31, 0x2E, 0x32, 0x2E, 0x33, 0x2E, 0x34]"
  by code_simp+

lemma sample_call: "sendable sample_call" "sent_view sample_call = sent_view sample_request" "CoAPReqMsg (header sample_call)" "code (header sample_call) = 2"
    "token_data sample_call = [0xA1, 0xB2]" "msg_handler sample_call = Some 7" "msg_user sample_call = 5" "msg_keep sample_call = 0"
  using sample_request(1)
  by (simp_all add: sample_call_def sendable_def sent_view_def view_with_def token_data_def payload_data_def)
    (simp_all add: sample_request_def sample_message_def CoAPReqMsg_def CoAPMessage_init_def)

lemma lan_sends: "\<forall>i. mem lan_env i" "wr lan_env i = int (length (rfc_message (sent_view sample_call)))"
  by (simp_all add: lan_env_def sample_call(2) sample_request(3))

text \<open>The request is waiting for its answer.\<close>

definition busy_context :: CoAPIntContext where
  "busy_context = snd (the (CoAPMessage_send lan_env lan_context sample_peer sample_call))"

lemma lan_send: "CoAPMessage_send lan_env lan_context sample_peer sample_call = Some (COAP_SUCCESS, busy_context)"
    "\<exists>n. nodes (sendlist busy_context) = [n] \<and> n_keep n = 0 \<and> n_handler n = Some 7 \<and> n_user n = 5 \<and> n_remote n = sample_peer"
  using send_request [OF lan_context_ok(1) sample_call(1) _ lan_sends sample_call(3) sample_unicast(1) lan_context_ok(3)]
  by (auto simp: busy_context_def sample_call sample_request(3) sample_unicast(2) lan_context_ok(2) list_add_def send_node_def Let_def)

theorem server_invariant_witness: "srv_ok busy_context"
proof -
  have "run_all (srv_step lan_env) [Send sample_peer sample_call] lan_context = Some busy_context"
    by (simp add: lan_send(1))
  with sample_created show ?thesis by (rule server_invariant)
qed

theorem requests_time_out_witness:
  "(\<exists>k. \<forall>n. (n \<in> set (nodes (sendlist (timer_rounds lan_env k busy_context))) \<longrightarrow> n_keep n \<noteq> 0)
      \<and> (\<forall>h. n \<in> set (nodes (sendlist busy_context)) \<and> n_keep n = 0 \<and> n_handler n = Some h
            \<longrightarrow> Handler h COAP_RECV_RESP_TIMEOUT (n_user n) (n_remote n) None \<in> set (news busy_context (timer_rounds lan_env k busy_context))))
    \<and> (\<forall>k dst msg. count_list (news busy_context (timer_rounds lan_env k busy_context)) (Sent dst msg) \<le> 8 * length (waiting dst msg (nodes (sendlist busy_context))))"
proof (rule requests_time_out)
  show "srv_ok busy_context" using Message_send_keeps [OF lan_send(1) lan_context_ok(1)] .
  show "uptime lan_env i \<le> uptime lan_env (Suc i)" for i by (simp add: lan_env_def)
  show "\<exists>i. B < uptime lan_env i" for B by (rule exI [of _ "Suc B"]) (simp add: lan_env_def)
qed

text \<open>The answer of the sample comes in a confirmable response.\<close>

theorem request_answered_witness:
  "\<exists>c1 c2 m2. CoAPMessage_send lan_env lan_context sample_peer sample_call = Some (COAP_SUCCESS, c1)
    \<and> CoAPMessage_handle lan_env c1 sample_peer (rfc_message (1, 0, 0x45, 0x1234, token_data sample_call, [], [0x6F, 0x6B]) @ [])
        (length (rfc_message (1, 0, 0x45, 0x1234, token_data sample_call, [], [0x6F, 0x6B]))) = Some c2
    \<and> received_view m2 = (1, 0, 0x45, 0x1234, token_data sample_call, [], [0x6F, 0x6B])
    \<and> nodes (sendlist c2) = []
    \<and> trace c2 = [Sent sample_peer (rfc_message (sent_view sample_call)), Sent sample_peer (rfc_message (1, 2, 0, 0x1234, [], [], [])),
         Handler 7 COAP_REQUEST_SUCCESS 5 sample_peer (Some m2)]"
proof -
  let ?w = "(1, 0, 0x45, 0x1234, token_data sample_call, [], [0x6F, 0x6B]) :: coap_view"
  have v: "rfc_valid ?w" "framed ?w []" "token_data sample_call \<noteq> []" "length (rfc_message (sent_view sample_call)) \<le> 1280"
    by (simp_all add: sample_call sample_request(3) framed_def)
  from request_answered [OF lan_context_ok(1) sample_call(1) v(4) lan_sends sample_call(3) sample_unicast(1) lan_context_ok(3) sample_call(6) v(3) _ v(1,2) refl, of sample_peer]
  show ?thesis
    by (auto simp: sample_call sample_unicast(2) lan_context_ok(2,5) response_ack_def)
qed

lemma sample_not_found: "CoAPResourceByPath_get (junk lan_env) (resource lan_context) (path_of [(11, [0x61])]) = Some None"
  using lookup_total [of "path_of [(11, [0x61])]" "junk lan_env" "resource lan_context"] by (auto simp: lan_context_ok(4) path_of_def)

theorem request_dispatched_witness:
  "\<exists>m c'. CoAPMessage_handle lan_env lan_context sample_peer (rfc_message (1, 0, 1, 0x1234, [0xA1], [(11, [0x61])], []) @ [0])
        (length (rfc_message (1, 0, 1, 0x1234, [0xA1], [(11, [0x61])], []))) = Some c'
    \<and> received_view m = (1, 0, 1, 0x1234, [0xA1], [(11, [0x61])], [])
    \<and> trace c' = trace lan_context @ request_reaction None (1, 0, 1, 0x1234, [0xA1], [(11, [0x61])], []) sample_peer m
    \<and> sendlist c' = sendlist lan_context"
  by (rule request_dispatched [OF _ _ refl _ _ _ lan_sends(1) _ _ sample_not_found])
    (simp_all add: framed_def path_of_def)

section \<open>Datagrams the server does not survive\<close>

lemma options_loop_keeps:
  "deserialize_options_loop msg buf start p left pre index = Some (r, m) \<Longrightarrow> header m = header msg \<and> token m = token msg"
proof (induction msg buf start p left pre index rule: deserialize_options_loop.induct)
  case (1 msg buf start p left pre index)
  note run = "1.prems" [unfolded deserialize_options_loop.simps [of msg]]
  show ?case
  proof (cases "left \<le> 0")
    case False
    then obtain b where b: "load buf p = Some b" using run by (cases "load buf p") simp_all
    show ?thesis
    proof (cases "b = 0xFF \<or> \<not> index < 12")
      case go: False
      then obtain n opt pre' where o': "CoAPDeserialize_Option (options msg ! index) buf p left pre = Some (n, opt, pre')"
        using run False b by (cases "CoAPDeserialize_Option (options msg ! index) buf p left pre") auto
      show ?thesis
      proof (cases "n < 0")
        case n: False
        with "1.IH" [OF False b go o' refl refl refl n] run False b go o' show ?thesis by simp
      qed (use run False b go o' in auto)
    qed (use run False b in auto)
  qed (use run in auto)
qed

lemma payload_keeps: "CoAPDeserialize_Payload msg buf p n = Some (r, m) \<Longrightarrow> header m = header msg \<and> token m = token msg"
  by (auto simp: CoAPDeserialize_Payload_def bind_eq_Some_conv split: if_split_asm)

lemma token_keeps: "CoAPDeserialize_Token msg buf p = Some (r, m) \<Longrightarrow> header m = header msg \<and> length (token m) = length (token msg)"
  by (auto simp: CoAPDeserialize_Token_def Let_def store_n_def split: Option.bind_split_asm if_split_asm)

lemma parsed_header:
  assumes "CoAPDeserialize_Message msg buf n = Some (rc, m)" "4 \<le> n" "length (token msg) = 8"
  shows "tokenlen (header m) = buf ! 0 AND 15 \<and> length (token m) = 8"
proof -
  obtain h where h: "CoAPDeserialize_Header msg buf 0 = Some (4, msg\<lparr>header := h\<rparr>)" "tokenlen h = buf ! 0 AND 15"
    using assms by (auto simp: CoAPDeserialize_Message_def CoAPDeserialize_Header_def load_def Let_def split: Option.bind_split_asm if_split_asm)
  obtain r1 m1 where t: "CoAPDeserialize_Token (msg\<lparr>header := h\<rparr>) buf 4 = Some (r1, m1)"
    using assms(1,2) h(1) by (cases "CoAPDeserialize_Token (msg\<lparr>header := h\<rparr>) buf 4") (auto simp: CoAPDeserialize_Message_def)
  have "header m = header m1 \<and> token m = token m1"
    using assms(1,2) h(1) t
    by (auto simp: CoAPDeserialize_Message_def CoAPDeserialize_Options_def Let_def dest!: options_loop_keeps payload_keeps
        split: Option.bind_split_asm if_split_asm prod.split_asm)
  with token_keeps [OF t] h(2) assms(3) show ?thesis by simp
qed

lemma dump_past_token:
  assumes "length tok = 8" "index \<le> 8" "8 < index + left"
  shows "token_dump_loop tok left index buf p room = None"
  using assms
proof (induction left arbitrary: index buf p room)
  case (Suc left)
  show ?case
  proof (cases "index = 8")
    case True
    with Suc.prems(1) show ?thesis by (simp add: load_def)
  next
    case False
    with Suc show ?thesis by (simp split: Option.bind_split)
  qed
qed simp

text \<open>C30. A datagram whose header announces a token of more than eight bytes drives the server out of its objects in
  every state: the parser does not refuse the length, and printing the message reads behind the token of the message.\<close>

theorem long_token_overruns:
  assumes "length buf = COAP_MSG_MAX_PDU_LEN" "4 \<le> n" "n \<le> 1272" "8 < buf ! 0 AND 15"
  shows "\<exists>rc m. CoAPDeserialize_Message zero_message buf (int n) = Some (rc, m) \<and> tokenlen (header m) = buf ! 0 AND 15 \<and> CoAPMessage_dump m = None
    \<and> CoAPMessage_handle e c remote buf n = None"
proof -
  obtain rc m where m: "CoAPDeserialize_Message zero_message buf (int n) = Some (rc, m)"
    using parse_message_safe [OF _ zero_message_blank, of "int n" buf] assms(1,3) by auto
  moreover have h: "tokenlen (header m) = buf ! 0 AND 15" "length (token m) = 8"
    using parsed_header [OF m] assms(2) by (simp_all add: zero_message_def CoAPMessage_init_def)
  moreover have "CoAPMessage_dump m = None"
    using dump_past_token [of "token m" 0 "unat (tokenlen (header m))"] h assms(4)
    by (simp add: CoAPMessage_dump_def CoAPMessageToken_dump_def word_less_nat_alt)
  ultimately show ?thesis by (auto simp: CoAPMessage_handle_def)
qed

theorem long_token_overruns_witness:
  "\<exists>rc m. CoAPDeserialize_Message zero_message (0x49 # replicate 1279 0) (int 4) = Some (rc, m)
    \<and> tokenlen (header m) = (0x49 # replicate 1279 0) ! 0 AND 15 \<and> CoAPMessage_dump m = None
    \<and> CoAPMessage_handle lan_env lan_context sample_peer (0x49 # replicate 1279 0) 4 = None"
  by (rule long_token_overruns) simp_all

text \<open>The first rounds of the receive loop, as long as they go on.\<close>

primrec process_rounds :: "coap_env \<Rightarrow> nat \<Rightarrow> CoAPIntContext \<Rightarrow> CoAPIntContext option" where
  "process_rounds e 0 c = Some c"
| "process_rounds e (Suc k) c = (case process_round e c of Some (Inl c') \<Rightarrow> process_rounds e k c' | _ \<Rightarrow> None)"

definition silent :: "coap_env \<Rightarrow> nat \<Rightarrow> bool" where
  "silent e n \<longleftrightarrow> ip e = [] \<and> (\<forall>i \<ge> n. case rd e i of (n, remote, dgram) \<Rightarrow> n \<le> 0 \<and> addr remote = replicate 16 0 \<and> dgram = [])"

lemma zero_text: "c_strlen (replicate 16 0) = Some 0"
  by (simp add: eval_nat_numeral)

lemma silent_round: "silent e (rn c) \<Longrightarrow> process_round e c = Some (Inl (c\<lparr>rn := rn c + 1, recvbuf := replicate 1280 0\<rparr>))"
  by (auto simp: silent_def process_round_def store_n_def c_text_def zero_text split: prod.split)

lemma silent_later: "silent e n \<Longrightarrow> silent e (n + k)"
  by (simp add: silent_def)

lemma silent_loop: "CoAPMessage_process e c = Some x \<Longrightarrow> \<not> silent e (rn c)"
proof (rule CoAPMessage_process.raw_induct [rotated, where P = "\<lambda>e c x. \<not> silent e (rn c)"])
  fix f e c x
  assume ih: "\<And>e c x. f e c = Some x \<Longrightarrow> \<not> silent e (rn c)"
    and run: "do { r \<leftarrow> process_round e c; case r of Inl c \<Rightarrow> f e c | Inr x \<Rightarrow> Some x } = Some x"
  show "\<not> silent e (rn c)"
  proof
    assume s: "silent e (rn c)"
    then have "f e (c\<lparr>rn := rn c + 1, recvbuf := replicate 1280 0\<rparr>) = Some x" using run by (simp add: silent_round)
    from ih [OF this] silent_later [OF s, of 1] show False by simp
  qed
qed

text \<open>C31. When the address of the device is not known, its text is empty, and so is the address of a read that fails.  Then
  the receive loop takes every failed read for an echo of its own datagram: once all reads fail, it makes any number
  of rounds and never returns, where it would return after the first failed read if the address were known.\<close>

theorem receive_loop_spins:
  assumes "silent e (rn c)"
  shows "(\<forall>k. \<exists>c'. process_rounds e k c = Some c' \<and> rn c' = rn c + k) \<and> CoAPMessage_process e c = None
    \<and> CoAPMessage_process (e\<lparr>ip := [0x31]\<rparr>) c = Some (fst (rd e (rn c)), c\<lparr>rn := rn c + 1, recvbuf := replicate 1280 0\<rparr>)"
proof (intro conjI allI)
  show "\<exists>c'. process_rounds e k c = Some c' \<and> rn c' = rn c + k" for k
    using assms
  proof (induction k arbitrary: c)
    case (Suc k)
    from Suc.IH [of "c\<lparr>rn := rn c + 1, recvbuf := replicate 1280 0\<rparr>"] Suc.prems silent_later [OF Suc.prems, of 1]
    show ?case by (simp add: silent_round)
  qed simp
  show "CoAPMessage_process e c = None" using silent_loop [of e c] assms by (cases "CoAPMessage_process e c") auto
  have "process_round (e\<lparr>ip := [0x31]\<rparr>) c = Some (Inr (fst (rd e (rn c)), c\<lparr>rn := rn c + 1, recvbuf := replicate 1280 0\<rparr>))"
    using assms by (auto simp: silent_def process_round_def store_n_def c_text_def zero_text split: prod.split)
  then show "CoAPMessage_process (e\<lparr>ip := [0x31]\<rparr>) c = Some (fst (rd e (rn c)), c\<lparr>rn := rn c + 1, recvbuf := replicate 1280 0\<rparr>)"
    by (subst CoAPMessage_process.simps) simp
qed

definition dark_env :: coap_env where
  "dark_env = lan_env\<lparr>ip := [], rd := \<lambda>i. (-1, \<lparr>addr = replicate 16 0, port = 0\<rparr>, [])\<rparr>"

theorem receive_loop_spins_witness:
  "(\<forall>k. \<exists>c'. process_rounds dark_env k lan_context = Some c' \<and> rn c' = rn lan_context + k)
    \<and> CoAPMessage_process dark_env lan_context = None
    \<and> CoAPMessage_process (dark_env\<lparr>ip := [0x31]\<rparr>) lan_context
      = Some (fst (rd dark_env (rn lan_context)), lan_context\<lparr>rn := rn lan_context + 1, recvbuf := replicate 1280 0\<rparr>)"
  by (rule receive_loop_spins) (simp add: silent_def dark_env_def)

end
