(* ===== verification/Dev_Sign.thy ===== *)
theory Dev_Sign
  imports Infra_SHA256
begin

text \<open>
  The device signature, \<open>src/eng/dev_sign/dev_sign_mqtt.c\<close>: from the identity of a device to the host name, client
  id, user name and password of its MQTT connection.  Character arrays are byte lists of their declared size; reading
  or writing outside of them is \<open>None\<close>.  The password is the HMAC of \<open>Infra_SHA256\<close> in hexadecimal digits.
\<close>

section \<open>Data\<close>

abbreviation (input) STATE_SUCCESS :: int where "STATE_SUCCESS \<equiv> 0"
abbreviation (input) STATE_USER_INPUT_INVALID :: int where "STATE_USER_INPUT_INVALID \<equiv> -0x113"
abbreviation (input) STATE_USER_INPUT_MQTT_DOMAIN :: int where "STATE_USER_INPUT_MQTT_DOMAIN \<equiv> -0x108"
abbreviation (input) STATE_MQTT_SIGN_HOSTNAME_BUF_SHORT :: int where "STATE_MQTT_SIGN_HOSTNAME_BUF_SHORT \<equiv> -0x307"
abbreviation (input) STATE_MQTT_SIGN_USERNAME_BUF_SHORT :: int where "STATE_MQTT_SIGN_USERNAME_BUF_SHORT \<equiv> -0x308"
abbreviation (input) STATE_MQTT_SIGN_CLIENTID_BUF_SHORT :: int where "STATE_MQTT_SIGN_CLIENTID_BUF_SHORT \<equiv> -0x309"
abbreviation (input) STATE_MQTT_SIGN_SOURCE_BUF_SHORT :: int where "STATE_MQTT_SIGN_SOURCE_BUF_SHORT \<equiv> -0x30A"
abbreviation (input) DEV_SIGN_SOURCE_MAXLEN :: nat where "DEV_SIGN_SOURCE_MAXLEN \<equiv> 200"
abbreviation (input) DEV_SIGN_HOSTNAME_MAXLEN :: nat where "DEV_SIGN_HOSTNAME_MAXLEN \<equiv> 64"
abbreviation (input) DEV_SIGN_CLIENT_ID_MAXLEN :: nat where "DEV_SIGN_CLIENT_ID_MAXLEN \<equiv> 200"
abbreviation (input) DEV_SIGN_USERNAME_MAXLEN :: nat where "DEV_SIGN_USERNAME_MAXLEN \<equiv> 64"
abbreviation (input) DEV_SIGN_PASSWORD_MAXLEN :: nat where "DEV_SIGN_PASSWORD_MAXLEN \<equiv> 65"
abbreviation (input) IOTX_PRODUCT_KEY_LEN :: nat where "IOTX_PRODUCT_KEY_LEN \<equiv> 20"
abbreviation (input) IOTX_DEVICE_NAME_LEN :: nat where "IOTX_DEVICE_NAME_LEN \<equiv> 32"
abbreviation (input) IOTX_MQTT_DOMAIN_NUMBER :: nat where "IOTX_MQTT_DOMAIN_NUMBER \<equiv> 6"
abbreviation (input) IOTX_CLOUD_REGION_CUSTOM :: nat where "IOTX_CLOUD_REGION_CUSTOM \<equiv> 5"

record iotx_dev_meta_info_t =
  product_key :: bytes
  product_secret :: bytes
  device_name :: bytes
  device_secret :: bytes

record iotx_sign_mqtt_t =
  hostname :: bytes
  port :: u16
  clientid :: bytes
  username :: bytes
  password :: bytes

definition TIMESTAMP_VALUE :: bytes where
  "TIMESTAMP_VALUE = c_lit ''2524608000000''"

text \<open>The table of key and value pairs; the entry of the security mode is rewritten by every call.\<close>

definition clientid_kv :: "bool \<Rightarrow> (bytes \<times> bytes) list" where
  "clientid_kv itls = [(c_lit ''timestamp'', TIMESTAMP_VALUE), (c_lit ''_v'', c_lit ''sdk-c-3.1.0''),
     (c_lit ''securemode'', if itls then c_lit ''8'' else c_lit ''2''), (c_lit ''signmethod'', c_lit ''hmacsha256''),
     (c_lit ''lan'', c_lit ''C''), (c_lit ''_ss'', c_lit ''1''), (c_lit ''gw'', c_lit ''0''), (c_lit ''ext'', c_lit ''0'')]"

text \<open>The host names of the regions; the last one is set by the application.\<close>

definition g_infra_mqtt_domain :: "bytes option \<Rightarrow> bytes option list" where
  "g_infra_mqtt_domain custom = [Some (c_lit ''iot-as-mqtt.cn-shanghai.aliyuncs.com''), Some (c_lit ''iot-as-mqtt.ap-southeast-1.aliyuncs.com''),
     Some (c_lit ''iot-as-mqtt.ap-northeast-1.aliyuncs.com''), Some (c_lit ''iot-as-mqtt.us-west-1.aliyuncs.com''),
     Some (c_lit ''iot-as-mqtt.eu-central-1.aliyuncs.com''), custom]"

section \<open>The client id\<close>

fun clientid_kv_loop :: "(bytes \<times> bytes) list \<Rightarrow> bytes \<Rightarrow> (bool \<times> bytes) option" where
  "clientid_kv_loop [] cs = Some (True, cs)"
| "clientid_kv_loop ((k, v) # kvs) cs = do {
     n \<leftarrow> c_strlen cs;
     if n + length k + length v + 2 \<ge> DEV_SIGN_CLIENT_ID_MAXLEN then Some (False, cs)
     else do {
       cs \<leftarrow> append_text cs k;
       cs \<leftarrow> append_text cs (c_lit ''='');
       cs \<leftarrow> append_text cs v;
       cs \<leftarrow> append_text cs (c_lit '','');
       clientid_kv_loop kvs cs } }"

definition add_custom_kv :: "bytes option \<Rightarrow> bytes \<Rightarrow> (bool \<times> bytes) option" where
  "add_custom_kv custom_kv cs = (case custom_kv of None \<Rightarrow> Some (True, cs)
     | Some obj \<Rightarrow> do {
         n \<leftarrow> c_strlen cs;
         kv \<leftarrow> c_text obj;
         if n + length kv + 1 \<ge> DEV_SIGN_CLIENT_ID_MAXLEN then Some (False, cs)
         else do {
           cs \<leftarrow> append_text cs kv;
           cs \<leftarrow> append_text cs (c_lit '','');
           Some (True, cs) } })"

definition sign_get_clientid :: "bytes option \<Rightarrow> bytes option \<Rightarrow> bytes option \<Rightarrow> byte \<Rightarrow> (int \<times> bytes option) option" where
  "sign_get_clientid clientid_string device_id custom_kv enable_itls = (case (clientid_string, device_id) of
     (Some cs, Some obj) \<Rightarrow> do {
       cs \<leftarrow> store_n cs 0 (replicate DEV_SIGN_CLIENT_ID_MAXLEN 0);
       did \<leftarrow> c_text obj;
       if length did + 1 \<ge> DEV_SIGN_CLIENT_ID_MAXLEN then Some (STATE_MQTT_SIGN_CLIENTID_BUF_SHORT, Some cs)
       else do {
         cs \<leftarrow> store_n cs 0 did;
         cs \<leftarrow> append_text cs (c_lit ''|'');
         (ok, cs) \<leftarrow> clientid_kv_loop (clientid_kv (enable_itls > 0)) cs;
         if \<not> ok then Some (STATE_MQTT_SIGN_CLIENTID_BUF_SHORT, Some cs)
         else do {
           (ok, cs) \<leftarrow> add_custom_kv custom_kv cs;
           if \<not> ok then Some (STATE_MQTT_SIGN_CLIENTID_BUF_SHORT, Some cs)
           else do {
             n \<leftarrow> c_strlen cs;
             cs \<leftarrow> (if n = 0 then None else store_n cs (n - 1) (c_lit ''|''));
             Some (STATE_SUCCESS, Some cs) } } } }
   | _ \<Rightarrow> Some (STATE_USER_INPUT_INVALID, clientid_string))"

section \<open>The signature\<close>

definition sign_hex2str :: "bytes \<Rightarrow> u16 \<Rightarrow> bytes \<Rightarrow> bytes option" where
  "sign_hex2str input input_len outp = hex_encode_loop hex_upper input (unat input_len) 0 (outp, 0)"

definition setup_signsource :: "bytes \<Rightarrow> bytes \<Rightarrow> bytes \<Rightarrow> bytes option" where
  "setup_signsource did dn pk = do {
     src \<leftarrow> store_n (replicate DEV_SIGN_SOURCE_MAXLEN 0) 0 (c_lit ''clientId'');
     src \<leftarrow> append_text src did;
     src \<leftarrow> append_text src (c_lit ''deviceName'');
     src \<leftarrow> append_text src dn;
     src \<leftarrow> append_text src (c_lit ''productKey'');
     src \<leftarrow> append_text src pk;
     src \<leftarrow> append_text src (c_lit ''timestamp'');
     append_text src TIMESTAMP_VALUE }"

text \<open>The length is kept in 16 bits; 50 stands for the literal parts.\<close>

definition iotx_generate_sign_string ::
    "iot_sha256_context \<Rightarrow> bytes \<Rightarrow> bytes \<Rightarrow> bytes \<Rightarrow> bytes \<Rightarrow> bytes \<Rightarrow> (int \<times> bytes) option" where
  "iotx_generate_sign_string junk device_id dev_name prod_key dev_secret sign_string = do {
     did \<leftarrow> c_text device_id;
     dn \<leftarrow> c_text dev_name;
     pk \<leftarrow> c_text prod_key;
     let signsource_len = (50 + length did + length dn + length pk + length TIMESTAMP_VALUE) mod 65536;
     if signsource_len \<ge> DEV_SIGN_SOURCE_MAXLEN then Some (STATE_MQTT_SIGN_SOURCE_BUF_SHORT, sign_string)
     else do {
       src \<leftarrow> setup_signsource did dn pk;
       n \<leftarrow> c_strlen src;
       kn \<leftarrow> c_strlen dev_secret;
       sign_hex \<leftarrow> utils_hmac_sha256 junk (Some src) n (Some dev_secret) kn (Some (replicate 32 0));
       digest \<leftarrow> sign_hex;
       outp \<leftarrow> sign_hex2str digest 32 sign_string;
       Some (STATE_SUCCESS, outp) } }"

definition sign_zero :: iotx_sign_mqtt_t where
  "sign_zero = \<lparr>hostname = replicate DEV_SIGN_HOSTNAME_MAXLEN 0, port = 0, clientid = replicate DEV_SIGN_CLIENT_ID_MAXLEN 0,
     username = replicate DEV_SIGN_USERNAME_MAXLEN 0, password = replicate DEV_SIGN_PASSWORD_MAXLEN 0\<rparr>"

definition setup_hostname :: "bytes option \<Rightarrow> nat \<Rightarrow> bytes \<Rightarrow> iotx_sign_mqtt_t \<Rightarrow> (int \<times> iotx_sign_mqtt_t) option" where
  "setup_hostname custom region pk signout =
    (if region = IOTX_CLOUD_REGION_CUSTOM then
       (case g_infra_mqtt_domain custom ! region of
          None \<Rightarrow> Some (STATE_USER_INPUT_MQTT_DOMAIN, signout)
        | Some domain \<Rightarrow>
            if (length domain + 1) mod 65536 \<ge> DEV_SIGN_HOSTNAME_MAXLEN then Some (STATE_MQTT_SIGN_HOSTNAME_BUF_SHORT, signout)
            else do {
              h \<leftarrow> store_n (replicate DEV_SIGN_HOSTNAME_MAXLEN 0) 0 domain;
              Some (STATE_SUCCESS, signout\<lparr>hostname := h\<rparr>) })
     else do {
       domain \<leftarrow> g_infra_mqtt_domain custom ! region;
       if (length pk + length domain + 2) mod 65536 \<ge> DEV_SIGN_HOSTNAME_MAXLEN then Some (STATE_MQTT_SIGN_HOSTNAME_BUF_SHORT, signout)
       else do {
         h \<leftarrow> store_n (replicate DEV_SIGN_HOSTNAME_MAXLEN 0) 0 pk;
         h \<leftarrow> append_text h (c_lit ''.'');
         h \<leftarrow> append_text h domain;
         Some (STATE_SUCCESS, signout\<lparr>hostname := h\<rparr>) } })"

definition setup_username :: "bytes \<Rightarrow> bytes \<Rightarrow> iotx_sign_mqtt_t \<Rightarrow> (int \<times> iotx_sign_mqtt_t) option" where
  "setup_username dn pk signout =
    (if (length dn + length pk + 2) mod 65536 \<ge> DEV_SIGN_USERNAME_MAXLEN then Some (STATE_MQTT_SIGN_USERNAME_BUF_SHORT, signout)
     else do {
       u \<leftarrow> store_n (replicate DEV_SIGN_USERNAME_MAXLEN 0) 0 dn;
       u \<leftarrow> append_text u (c_lit ''&'');
       u \<leftarrow> append_text u pk;
       Some (STATE_SUCCESS, signout\<lparr>username := u\<rparr>) })"

definition setup_device_id :: "bytes \<Rightarrow> bytes \<Rightarrow> bytes option" where
  "setup_device_id pk dn = do {
     d \<leftarrow> store_n (replicate (IOTX_PRODUCT_KEY_LEN + IOTX_DEVICE_NAME_LEN + 1) 0) 0 pk;
     d \<leftarrow> append_text d (c_lit ''.'');
     append_text d dn }"

definition IOT_Sign_MQTT :: "iot_sha256_context \<Rightarrow> bytes option \<Rightarrow> nat \<Rightarrow> iotx_dev_meta_info_t option \<Rightarrow> iotx_sign_mqtt_t
    \<Rightarrow> (int \<times> iotx_sign_mqtt_t) option" where
  "IOT_Sign_MQTT junk custom region meta signout = (case meta of
     None \<Rightarrow> Some (STATE_USER_INPUT_INVALID, signout)
   | Some meta \<Rightarrow>
     if region \<ge> IOTX_MQTT_DOMAIN_NUMBER then Some (STATE_USER_INPUT_INVALID, signout)
     else do {
       let signout = sign_zero;
       pk \<leftarrow> c_text (product_key meta);
       dn \<leftarrow> c_text (device_name meta);
       device_id \<leftarrow> setup_device_id pk dn;
       (rc, cs) \<leftarrow> sign_get_clientid (Some (clientid signout)) (Some device_id) None 0;
       cs \<leftarrow> cs;
       let signout = signout\<lparr>clientid := cs\<rparr>;
       if rc < STATE_SUCCESS then Some (STATE_MQTT_SIGN_CLIENTID_BUF_SHORT, signout)
       else do {
         pw \<leftarrow> store_n (password signout) 0 (replicate DEV_SIGN_PASSWORD_MAXLEN 0);
         (res, pw) \<leftarrow> iotx_generate_sign_string junk device_id (device_name meta) (product_key meta) (device_secret meta) pw;
         let signout = signout\<lparr>password := pw\<rparr>;
         if res < STATE_SUCCESS then Some (res, signout)
         else do {
           (res, signout) \<leftarrow> setup_hostname custom region pk signout;
           if res < STATE_SUCCESS then Some (res, signout)
           else do {
             (res, signout) \<leftarrow> setup_username dn pk signout;
             if res < STATE_SUCCESS then Some (res, signout)
             else Some (STATE_SUCCESS, signout\<lparr>port := 443\<rparr>) } } } })"

section \<open>What the parameters are\<close>

definition kv_text :: "(bytes \<times> bytes) list \<Rightarrow> bytes" where
  "kv_text kvs = concat (map (\<lambda>(k, v). k @ c_lit ''='' @ v @ c_lit '','') kvs)"

text \<open>The device id, and the pairs between bars, separated by commas.\<close>

definition client_id_text :: "bytes \<Rightarrow> bool \<Rightarrow> bytes option \<Rightarrow> bytes" where
  "client_id_text did itls custom = did @ c_lit ''|''
     @ butlast (kv_text (clientid_kv itls) @ (case custom of None \<Rightarrow> [] | Some kv \<Rightarrow> kv @ c_lit '','')) @ c_lit ''|''"

definition device_id_text :: "bytes \<Rightarrow> bytes \<Rightarrow> bytes" where
  "device_id_text pk dn = pk @ c_lit ''.'' @ dn"

definition sign_source :: "bytes \<Rightarrow> bytes \<Rightarrow> bytes" where
  "sign_source pk dn = c_lit ''clientId'' @ device_id_text pk dn @ c_lit ''deviceName'' @ dn @ c_lit ''productKey'' @ pk
     @ c_lit ''timestamp'' @ TIMESTAMP_VALUE"

text \<open>The connection parameters of a device in a region of the cloud.\<close>

definition signed_params :: "nat \<Rightarrow> bytes \<Rightarrow> bytes \<Rightarrow> bytes \<Rightarrow> iotx_sign_mqtt_t" where
  "signed_params region pk dn ds = \<lparr>hostname = padded 64 (pk @ c_lit ''.'' @ the (g_infra_mqtt_domain None ! region)), port = 443,
     clientid = padded 200 (client_id_text (device_id_text pk dn) False None), username = padded 64 (dn @ c_lit ''&'' @ pk),
     password = padded 65 (hex_text hex_upper (hmac SHA256 ds (sign_source pk dn)))\<rparr>"

section \<open>Texts\<close>

named_theorems lits \<open>lengths and characters of the literals\<close>

lemma lit_facts [lits]:
  "length (c_lit s) = length s" "0 \<notin> set (c_lit ''|'')" "0 \<notin> set (c_lit ''='')" "0 \<notin> set (c_lit '','')" "0 \<notin> set (c_lit ''.'')"
  "0 \<notin> set (c_lit ''&'')" "0 \<notin> set (c_lit ''clientId'')" "0 \<notin> set (c_lit ''deviceName'')" "0 \<notin> set (c_lit ''productKey'')"
  "0 \<notin> set (c_lit ''timestamp'')" "0 \<notin> set TIMESTAMP_VALUE" "length TIMESTAMP_VALUE = 13"
  by (simp_all add: c_lit_def TIMESTAMP_VALUE_def)

definition plain_kvs :: "(bytes \<times> bytes) list \<Rightarrow> bool" where
  "plain_kvs kvs \<longleftrightarrow> (\<forall>(k, v) \<in> set kvs. 0 \<notin> set k \<and> 0 \<notin> set v)"

lemma kv_facts [lits]: "plain_kvs (clientid_kv itls)" "length (kv_text (clientid_kv itls)) = 97"
  by (simp_all add: plain_kvs_def clientid_kv_def kv_text_def c_lit_def TIMESTAMP_VALUE_def)

lemma kv_text_plain: "plain_kvs kvs \<Longrightarrow> 0 \<notin> set (kv_text kvs)"
  by (auto simp: plain_kvs_def kv_text_def lits)

lemma kv_loop_spec:
  assumes "0 \<notin> set s" "length s < 200" "plain_kvs kvs"
  shows "if length s + length (kv_text kvs) < 200 then clientid_kv_loop kvs (padded 200 s) = Some (True, padded 200 (s @ kv_text kvs))
    else \<exists>cs. clientid_kv_loop kvs (padded 200 s) = Some (False, cs)"
  using assms
proof (induction kvs arbitrary: s)
  case (Cons kv kvs)
  obtain k v where kv: "kv = (k, v)" by force
  let ?t = "k @ c_lit ''='' @ v @ c_lit '',''"
  have z: "0 \<notin> set k" "0 \<notin> set v" "plain_kvs kvs" using Cons.prems(3) kv by (auto simp: plain_kvs_def)
  have kt: "kv_text (kv # kvs) = ?t @ kv_text kvs" by (simp add: kv_text_def kv)
  show ?case
  proof (cases "length s + length k + length v + 2 < 200")
    case True
    then have "clientid_kv_loop (kv # kvs) (padded 200 s) = clientid_kv_loop kvs (padded 200 (s @ ?t))"
      using Cons.prems(1) z by (simp add: kv c_strlen_padded append_padded lits)
    then show ?thesis using Cons.IH [of "s @ ?t"] Cons.prems(1) z True by (simp add: kt lits)
  next
    case False
    then show ?thesis using Cons.prems(1,2) by (simp add: kv kt [unfolded kv] c_strlen_padded lits)
  qed
qed (simp add: kv_text_def)

lemma custom_kv_spec:
  assumes "0 \<notin> set s" "length s < 200" "case obj of None \<Rightarrow> custom = None | Some m \<Rightarrow> (\<exists>kv. c_text m = Some kv \<and> custom = Some kv)"
  defines "t \<equiv> (case custom of None \<Rightarrow> [] | Some kv \<Rightarrow> kv @ c_lit '','')"
  shows "if length s + length t < 200 then add_custom_kv obj (padded 200 s) = Some (True, padded 200 (s @ t))
    else \<exists>cs. add_custom_kv obj (padded 200 s) = Some (False, cs)"
proof (cases obj)
  case (Some m)
  then obtain kv where kv: "c_text m = Some kv" "custom = Some kv" using assms(3) by auto
  with c_text_Some [OF kv(1)] Some assms(1,2) show ?thesis
    by (auto simp: add_custom_kv_def t_def c_strlen_padded append_padded lits)
qed (use assms in \<open>simp add: add_custom_kv_def\<close>)

lemma store_last: "u \<noteq> [] \<Longrightarrow> length u \<le> n \<Longrightarrow> store_n (padded n u) (length u - 1) (c_lit ''|'') = Some (padded n (butlast u @ c_lit ''|''))"
  by (cases u rule: rev_cases) (auto simp: store_n_def padded_def lits)

text \<open>The client id is built when it fits; otherwise the call is refused.\<close>

lemma client_id_built:
  assumes "length cs = 200" "c_text did_obj = Some did" "case obj of None \<Rightarrow> custom = None | Some m \<Rightarrow> (\<exists>kv. c_text m = Some kv \<and> custom = Some kv)"
  shows "if length (client_id_text did (itls > 0) custom) < 200
    then sign_get_clientid (Some cs) (Some did_obj) obj itls = Some (STATE_SUCCESS, Some (padded 200 (client_id_text did (itls > 0) custom)))
    else \<exists>cs'. sign_get_clientid (Some cs) (Some did_obj) obj itls = Some (STATE_MQTT_SIGN_CLIENTID_BUF_SHORT, cs')"
proof -
  let ?kv = "kv_text (clientid_kv (itls > 0))" and ?c = "case custom of None \<Rightarrow> [] | Some kv \<Rightarrow> kv @ c_lit '',''"
  let ?s = "did @ c_lit ''|''"
  have d: "0 \<notin> set did" using c_text_Some [OF assms(2)] by simp
  have n: "length (client_id_text did (itls > 0) custom) = length ?s + length ?kv + length ?c"
    by (simp add: client_id_text_def lits)
  have z: "0 \<notin> set ?c" using assms(3) by (auto simp: lits dest!: c_text_Some split: option.splits)
  have cs: "store_n cs 0 (replicate 200 0) = Some (padded 200 [])" using assms(1) by (simp add: store_n_def padded_def)
  show ?thesis
  proof (cases "length did + 1 < 200")
    case True
    then have start: "store_n (padded 200 []) 0 did = Some (padded 200 did)" "append_text (padded 200 did) (c_lit ''|'') = Some (padded 200 ?s)"
      using store_padded [of "[]" did 200] append_padded [OF d] by (simp_all add: lits)
    have kv: "if length ?s + length ?kv < 200 then clientid_kv_loop (clientid_kv (itls > 0)) (padded 200 ?s) = Some (True, padded 200 (?s @ ?kv))
        else \<exists>cs. clientid_kv_loop (clientid_kv (itls > 0)) (padded 200 ?s) = Some (False, cs)"
      using True d by (intro kv_loop_spec) (simp_all add: lits)
    show ?thesis
    proof (cases "length ?s + length ?kv < 200")
      case kvs: True
      have cu: "if length (?s @ ?kv) + length ?c < 200 then add_custom_kv obj (padded 200 (?s @ ?kv)) = Some (True, padded 200 ((?s @ ?kv) @ ?c))
          else \<exists>cs. add_custom_kv obj (padded 200 (?s @ ?kv)) = Some (False, cs)"
        using kvs d kv_text_plain [OF kv_facts(1)] assms(3) by (intro custom_kv_spec) (simp_all add: lits)
      show ?thesis
      proof (cases "length ?s + length ?kv + length ?c < 200")
        case all: True
        let ?u = "?s @ ?kv @ ?c"
        have "c_strlen (padded 200 ?u) = Some (length ?u)"
          using all d z kv_text_plain [OF kv_facts(1)] by (intro c_strlen_padded) (simp_all add: lits)
        moreover have u: "?u \<noteq> []" "?kv @ ?c \<noteq> []" using kv_facts(2) [of "itls > 0"] by (auto simp: c_lit_def)
        moreover have "store_n (padded 200 ?u) (length ?u - 1) (c_lit ''|'') = Some (padded 200 (client_id_text did (itls > 0) custom))"
        proof -
          have "butlast ((did @ c_lit ''|'') @ ?kv @ ?c) = (did @ c_lit ''|'') @ butlast (?kv @ ?c)"
            using u(2) by (simp only: butlast_append [of "did @ c_lit ''|''"] if_False)
          then have "client_id_text did (itls > 0) custom = butlast ?u @ c_lit ''|''" by (simp only: client_id_text_def append_assoc)
          moreover have "length ?u \<le> 200" using all by simp
          ultimately show ?thesis using store_last [OF u(1)] by simp
        qed
        ultimately show ?thesis using True start cs kv kvs cu all assms(2) n by (simp add: sign_get_clientid_def lits)
      qed (use True start cs kv kvs cu assms(2) n in \<open>auto simp: sign_get_clientid_def lits\<close>)
    qed (use True start cs kv assms(2) n in \<open>auto simp: sign_get_clientid_def lits\<close>)
  qed (use cs assms(2) n in \<open>auto simp: sign_get_clientid_def lits\<close>)
qed

lemma lit_domain:
  assumes "region < 5"
  shows "\<exists>d. g_infra_mqtt_domain custom ! region = Some d \<and> the (g_infra_mqtt_domain None ! region) = d \<and> length d \<le> 39 \<and> 0 \<notin> set d"
proof -
  have "region = 0 \<or> region = 1 \<or> region = 2 \<or> region = 3 \<or> region = 4" using assms by arith
  then show ?thesis by (elim disjE) (simp_all add: g_infra_mqtt_domain_def c_lit_def)
qed

lemma device_id_built:
  assumes "0 \<notin> set pk" "0 \<notin> set dn" "length pk \<le> 20" "length dn \<le> 32"
  shows "setup_device_id pk dn = Some (padded 53 (device_id_text pk dn))"
proof -
  have "store_n (padded 53 []) 0 pk = Some (padded 53 pk)" using store_padded [of "[]" pk 53] assms(3) by simp
  then show ?thesis using assms by (simp add: setup_device_id_def padded_def [of _ "[]"] append_padded lits device_id_text_def)
qed

lemma source_built:
  assumes "0 \<notin> set pk" "0 \<notin> set dn" "length pk + length dn < 52"
  shows "setup_signsource (device_id_text pk dn) dn pk = Some (padded 200 (sign_source pk dn))"
    and "c_strlen (padded 200 (sign_source pk dn)) = Some (length (sign_source pk dn))"
proof -
  have "store_n (replicate 200 0) 0 (c_lit ''clientId'') = Some (padded 200 (c_lit ''clientId''))"
    using store_padded [of "[]" "c_lit ''clientId''" 200] by (simp add: padded_def lits)
  then show "setup_signsource (device_id_text pk dn) dn pk = Some (padded 200 (sign_source pk dn))"
    using assms by (simp add: setup_signsource_def append_padded lits device_id_text_def sign_source_def)
  show "c_strlen (padded 200 (sign_source pk dn)) = Some (length (sign_source pk dn))"
    using assms by (intro c_strlen_padded) (simp_all add: lits device_id_text_def sign_source_def)
qed

lemma length_sha256_hmac: "length (hmac SHA256 k m) = 32"
  using sha256f.length_md_hash unfolding hmac_def SHA256_block by simp

lemma password_signed:
  assumes "c_text pk_obj = Some pk" "c_text dn_obj = Some dn" "c_text ds_obj = Some ds" "length pk + length dn < 52" "length ds \<le> 64"
  shows "iotx_generate_sign_string junk (padded 53 (device_id_text pk dn)) dn_obj pk_obj ds_obj (replicate 65 0)
    = Some (STATE_SUCCESS, padded 65 (hex_text hex_upper (hmac SHA256 ds (sign_source pk dn))))"
proof -
  let ?src = "sign_source pk dn" and ?h = "hmac SHA256 ds (sign_source pk dn)"
  note t = c_text_Some [OF assms(1)] c_text_Some [OF assms(2)] c_text_Some [OF assms(3)]
  have did: "c_text (padded 53 (device_id_text pk dn)) = Some (device_id_text pk dn)"
    using t assms(4) by (intro text_padded) (simp_all add: device_id_text_def lits)
  have n: "length (device_id_text pk dn) = length pk + 1 + length dn" by (simp add: device_id_text_def lits)
  obtain ds' where ds: "ds_obj = ds @ ds'" using t(3) append_take_drop_id [of "length ds" ds_obj] by metis
  have "length ?src < 2 ^ 32" using assms(4) by (simp add: sign_source_def n lits)
  then have h: "utils_hmac_sha256 junk (Some (padded 200 ?src)) (length ?src) (Some ds_obj) (length ds) (Some (replicate 32 0)) = Some (Some ?h)"
    unfolding padded_def ds using assms(5) by (intro hmac_sha256_value) simp_all
  have x: "sign_hex2str ?h 32 (replicate 65 0) = Some (padded 65 (hex_text hex_upper ?h))"
    by (simp add: sign_hex2str_def hex_encode_loop_spec length_sha256_hmac emit_def store_n_def padded_def)
  note src = source_built [of pk dn]
  show ?thesis
    using t assms src h x by (simp add: iotx_generate_sign_string_def did n lits)
qed

lemma names_built:
  assumes "0 \<notin> set pk" "0 \<notin> set dn" "length pk \<le> 20" "length dn \<le> 32" "region < 5"
  shows "setup_hostname custom region pk s
      = Some (STATE_SUCCESS, s\<lparr>hostname := padded 64 (pk @ c_lit ''.'' @ the (g_infra_mqtt_domain None ! region))\<rparr>)"
    and "setup_username dn pk s = Some (STATE_SUCCESS, s\<lparr>username := padded 64 (dn @ c_lit ''&'' @ pk)\<rparr>)"
proof -
  obtain d where d: "g_infra_mqtt_domain custom ! region = Some d" "the (g_infra_mqtt_domain None ! region) = d" "length d \<le> 39" "0 \<notin> set d"
    using lit_domain [OF assms(5)] by blast
  have z: "store_n (replicate 64 0) 0 pk = Some (padded 64 pk)" "store_n (replicate 64 0) 0 dn = Some (padded 64 dn)"
    using store_padded [of "[]" pk 64] store_padded [of "[]" dn 64] assms(3,4) by (simp_all add: padded_def)
  show "setup_hostname custom region pk s
      = Some (STATE_SUCCESS, s\<lparr>hostname := padded 64 (pk @ c_lit ''.'' @ the (g_infra_mqtt_domain None ! region))\<rparr>)"
    using assms d z by (simp add: setup_hostname_def append_padded lits)
  show "setup_username dn pk s = Some (STATE_SUCCESS, s\<lparr>username := padded 64 (dn @ c_lit ''&'' @ pk)\<rparr>)"
    using assms z by (simp add: setup_username_def append_padded lits)
qed

lemma mqtt_signed:
  assumes "c_text (product_key meta) = Some pk" "c_text (device_name meta) = Some dn" "c_text (device_secret meta) = Some ds"
    "length pk \<le> 20" "length dn \<le> 32" "length ds \<le> 64" "region < 5"
  shows "IOT_Sign_MQTT junk custom region (Some meta) s0
    = (if length pk = 20 \<and> length dn = 32 then None else Some (STATE_SUCCESS, signed_params region pk dn ds))"
proof -
  let ?id = "device_id_text pk dn"
  note t = c_text_Some [OF assms(1)] c_text_Some [OF assms(2)] c_text_Some [OF assms(3)]
  have did: "setup_device_id pk dn = Some (padded 53 ?id)" using t assms(4,5) by (intro device_id_built) simp_all
  have n: "length ?id = length pk + 1 + length dn" "0 \<notin> set ?id" using t by (simp_all add: device_id_text_def lits)
  have cs: "store_n (replicate 200 0) 0 (replicate 200 0) = Some (padded 200 [])" by (simp add: store_n_def padded_def)
  show ?thesis
  proof (cases "length pk = 20 \<and> length dn = 32")
    case True
    then have "c_text (padded 53 ?id) = None" using n by (simp add: padded_def c_text_def c_strlen_full)
    then show ?thesis using True t did cs assms(1,2,7) by (simp add: IOT_Sign_MQTT_def sign_get_clientid_def sign_zero_def)
  next
    case False
    then have sh: "length pk + length dn < 52" using assms(4,5) by linarith
    have "length (client_id_text ?id False None) < 200" using sh n(1) by (simp add: client_id_text_def lits)
    moreover have "c_text (padded 53 ?id) = Some ?id" using sh n by (intro text_padded) simp_all
    ultimately have cid: "sign_get_clientid (Some (replicate 200 0)) (Some (padded 53 ?id)) None 0 = Some (STATE_SUCCESS, Some (padded 200 (client_id_text ?id False None)))"
      using client_id_built [of "replicate 200 0" "padded 53 ?id" ?id None None 0] by simp
    have "store_n (replicate 65 0) 0 (replicate 65 0) = Some (replicate 65 (0 :: byte))" by (simp add: store_n_def)
    with password_signed [OF assms(1-3) sh assms(6)] cid did False t assms(1,2,7) names_built [of pk dn region] assms(4,5)
    show ?thesis by (simp add: IOT_Sign_MQTT_def sign_zero_def signed_params_def)
  qed
qed

text \<open>C21. For every identity within the documented limits and every region of the cloud the call computes the
  connection parameters: the host name, the client id with its fixed pairs, the user name, and as password the HMAC-SHA-256 of
  the identity under the device secret.  The one exception is a product key and a device name of full length: the
  device id then fills its array without a terminator, and the call reads behind it.\<close>

theorem device_signature:
  assumes "c_text (product_key meta) = Some pk" "c_text (device_name meta) = Some dn" "c_text (device_secret meta) = Some ds"
    "length pk \<le> 20" "length dn \<le> 32" "length ds \<le> 64" "region < 5"
  shows "IOT_Sign_MQTT junk custom region (Some meta) s0
    = (if length pk = 20 \<and> length dn = 32 then None else Some (STATE_SUCCESS, signed_params region pk dn ds))"
  using assms by (rule mqtt_signed)

definition sample_meta :: iotx_dev_meta_info_t where
  "sample_meta = \<lparr>product_key = padded 21 (c_lit ''a1X2bEnP82z''), product_secret = replicate 65 0, device_name = padded 33 (c_lit ''test_06''),
     device_secret = padded 65 (c_lit ''xGxVHX7zFlSTV7k'')\<rparr>"

theorem device_signature_witness:
  "IOT_Sign_MQTT undefined None 0 (Some sample_meta) sign_zero
    = (if length (c_lit ''a1X2bEnP82z'') = 20 \<and> length (c_lit ''test_06'') = 32 then None
       else Some (STATE_SUCCESS, signed_params 0 (c_lit ''a1X2bEnP82z'') (c_lit ''test_06'') (c_lit ''xGxVHX7zFlSTV7k'')))"
  by (rule device_signature) (simp_all add: sample_meta_def text_padded c_lit_def)

end
