(* ===== verification/Infra_Compat.thy ===== *)
theory Infra_Compat
  imports MQTT_Client_Api Dev_Sign
begin

text \<open>
  The state the parts of the SDK share, \<open>src/eng/infra/infra_compat.c\<close>: the options of \<open>IOT_Ioctl\<close>, the table of event
  handlers and the events of changing states.  The record \<open>sdk\<close> contains the MQTT client; product key and
  device name, which the client also sets, are its fields \<open>ctx_product_key\<close> and \<open>ctx_device_name\<close>, as texts.
\<close>

section \<open>State\<close>

record sdk_impl_ctx_t =
  domain_type :: int
  dynamic_register :: int
  cloud_custom_domain :: bytes
  mqtt_port_num :: u16
  http_custom_domain :: bytes
  mqtt_customzie_info :: bytes
  ctx_product_secret :: bytes
  ctx_device_secret :: bytes

record iotx_conn_info_t =
  ci_port :: u16
  ci_init :: byte
  ci_host_name :: "bytes option"
  ci_client_id :: "bytes option"
  ci_username :: "bytes option"
  ci_password :: "bytes option"
  ci_pub_key :: "bytes option"

text \<open>Calls of handlers of the application, in their order; a handler is a number.\<close>

datatype sdk_event = Se_monitor nat int | Se_state nat int bytes | Se_device_secret nat bytes | Se_connected nat

text \<open>\<open>live\<close> says whether the client structure is allocated; the pointers to the custom domains in the tables of domains are set
  or null.\<close>

record sdk =
  mqc :: mc
  live :: bool
  g_mqtt_client :: bool
  g_sdk_impl_ctx :: sdk_impl_ctx_t
  mqtt_domain_set :: bool
  http_domain_set :: bool
  g_iotx_conn_info :: iotx_conn_info_t
  g_event_monitor :: "nat option"
  g_impl_event_map :: "nat option list"
  g_default_sign :: iotx_sign_mqtt_t
  iotx_ca_crt_itls :: bytes
  g_report_id :: u32
  info_report_func :: bool
  sdk_events :: "sdk_event list"

text \<open>The rest of the program and the platform, as far as this layer calls them: the options of the device model, dynamic registration (its
  result and the secret it stores), the firmware version with its result, the root certificate, and the content of an uninitialised hash context.\<close>

record sdk_env =
  se_hal :: hal
  se_dm_set_opt :: "int \<Rightarrow> int"
  se_dm_subscribe :: "bytes \<Rightarrow> int"
  se_dynreg :: "int \<Rightarrow> iotx_dev_meta_info_t \<Rightarrow> int \<times> bytes"
  se_firmware :: "int \<times> bytes"
  se_ca_crt :: bytes
  se_junk :: iot_sha256_context

abbreviation (input) SUCCESS_RETURN :: int where "SUCCESS_RETURN \<equiv> 0"
abbreviation (input) FAIL_RETURN :: int where "FAIL_RETURN \<equiv> -1"
abbreviation (input) NULL_VALUE_ERROR :: int where "NULL_VALUE_ERROR \<equiv> -2"
abbreviation (input) IOTX_DEVICE_SECRET_LEN :: nat where "IOTX_DEVICE_SECRET_LEN \<equiv> 64"
abbreviation (input) IOTX_PRODUCT_SECRET_LEN :: nat where "IOTX_PRODUCT_SECRET_LEN \<equiv> 64"
abbreviation (input) IOTX_DOMAIN_MAX_LEN :: nat where "IOTX_DOMAIN_MAX_LEN \<equiv> 64"
abbreviation (input) IOTX_CUSTOMIZE_INFO_LEN :: nat where "IOTX_CUSTOMIZE_INFO_LEN \<equiv> 80"
abbreviation (input) IOTX_HTTP_REGION_CUSTOM :: int where "IOTX_HTTP_REGION_CUSTOM \<equiv> 5"
abbreviation (input) IOTX_EVENT_NUMBER :: nat where "IOTX_EVENT_NUMBER \<equiv> 32"
abbreviation (input) ITE_MQTT_CONNECT_SUCC :: int where "ITE_MQTT_CONNECT_SUCC \<equiv> 18"
abbreviation (input) ITE_DYNREG_DEVICE_SECRET :: int where "ITE_DYNREG_DEVICE_SECRET \<equiv> 20"
abbreviation (input) ITE_STATE_EVERYTHING :: int where "ITE_STATE_EVERYTHING \<equiv> 22"
abbreviation (input) ITE_STATE_USER_INPUT :: int where "ITE_STATE_USER_INPUT \<equiv> 23"
abbreviation (input) ITE_STATE_MQTT_COMM :: int where "ITE_STATE_MQTT_COMM \<equiv> 25"
abbreviation (input) IOTX_STATE_EVENT_MESSAGE_MAXLEN :: nat where "IOTX_STATE_EVENT_MESSAGE_MAXLEN \<equiv> 64"

section \<open>Options\<close>

datatype iotx_ioctl_option_t =
    IOTX_IOCTL_SET_REGION | IOTX_IOCTL_GET_REGION | IOTX_IOCTL_SET_MQTT_DOMAIN | IOTX_IOCTL_SET_HTTP_DOMAIN
  | IOTX_IOCTL_SET_DYNAMIC_REGISTER | IOTX_IOCTL_GET_DYNAMIC_REGISTER | IOTX_IOCTL_RECV_PROP_REPLY | IOTX_IOCTL_RECV_EVENT_REPLY
  | IOTX_IOCTL_SEND_PROP_SET_REPLY | IOTX_IOCTL_SET_SUBDEV_SIGN | IOTX_IOCTL_GET_SUBDEV_LOGIN | IOTX_IOCTL_SET_OTA_DEV_ID
  | IOTX_IOCTL_FOTA_TIMEOUT_MS | IOTX_IOCTL_SET_CUSTOMIZE_INFO | IOTX_IOCTL_SET_MQTT_PORT | IOTX_IOCTL_SET_AWSS_ENABLE_INTERVAL
  | IOTX_IOCTL_SET_AWSS_CHANNEL_SCAN_INTERVAL | IOTX_IOCTL_SET_PROXY_REGISTER | IOTX_IOCTL_QUERY_DEVID | IOTX_IOCTL_SUB_USER_TOPIC
  | IOTX_IOCTL_SET_PRODUCT_KEY | IOTX_IOCTL_GET_PRODUCT_KEY | IOTX_IOCTL_SET_PRODUCT_SECRET | IOTX_IOCTL_GET_PRODUCT_SECRET
  | IOTX_IOCTL_SET_DEVICE_NAME | IOTX_IOCTL_GET_DEVICE_NAME | IOTX_IOCTL_SET_DEVICE_SECRET | IOTX_IOCTL_GET_DEVICE_SECRET

text \<open>What the pointer \<open>data\<close> points to: a number, a character array, or a topic with a handler.\<close>

datatype ioctl_data = D_null | D_int int | D_u16 u16 | D_chars bytes | D_topic bytes

text \<open>The object as a terminated text, and its start overwritten with a text.\<close>

definition data_text :: "ioctl_data \<Rightarrow> bytes option" where
  "data_text d = (case d of D_chars obj \<Rightarrow> c_text obj | _ \<Rightarrow> None)"

definition data_put :: "ioctl_data \<Rightarrow> bytes \<Rightarrow> ioctl_data option" where
  "data_put d t = (case d of D_chars obj \<Rightarrow> map_option D_chars (store_n obj 0 t) | _ \<Rightarrow> None)"

definition data_int :: "ioctl_data \<Rightarrow> int option" where
  "data_int d = (case d of D_int i \<Rightarrow> Some i | _ \<Rightarrow> None)"

definition upd_ctx :: "(sdk_impl_ctx_t \<Rightarrow> sdk_impl_ctx_t) \<Rightarrow> sdk \<Rightarrow> sdk" where
  "upd_ctx f s = s\<lparr>g_sdk_impl_ctx := f (g_sdk_impl_ctx s)\<rparr>"

text \<open>\<open>memset (buf, 0, strlen (data) + 1); memcpy (buf, data, strlen (data))\<close>\<close>

definition copy_text :: "bytes \<Rightarrow> bytes \<Rightarrow> bytes option" where
  "copy_text buf t = do {
     buf \<leftarrow> store_n buf 0 (replicate (length t + 1) 0);
     store_n buf 0 t }"

text \<open>A secret: the buffer of 65 bytes is cleared first.\<close>

definition copy_secret :: "bytes \<Rightarrow> bytes \<Rightarrow> bytes option" where
  "copy_secret buf t = do {
     buf \<leftarrow> store_n buf 0 (replicate (IOTX_DEVICE_SECRET_LEN + 1) 0);
     store_n buf 0 t }"

definition IOT_Ioctl :: "sdk_env \<Rightarrow> iotx_ioctl_option_t \<Rightarrow> ioctl_data \<Rightarrow> sdk \<Rightarrow> (int \<times> ioctl_data \<times> sdk) option" where
  "IOT_Ioctl e option d s = (if d = D_null then Some (FAIL_RETURN, d, s) else case option of
  IOTX_IOCTL_SET_REGION \<Rightarrow> do {
       i \<leftarrow> data_int d;
       Some (SUCCESS_RETURN, d, upd_ctx (domain_type_update (\<lambda>_. i)) s) }
   | IOTX_IOCTL_GET_REGION \<Rightarrow> do {
       i \<leftarrow> data_int d;
       Some (SUCCESS_RETURN, D_int (domain_type (g_sdk_impl_ctx s)), s) }
   | IOTX_IOCTL_SET_MQTT_DOMAIN \<Rightarrow> do {
       let s = upd_ctx (domain_type_update (\<lambda>_. int IOTX_CLOUD_REGION_CUSTOM)) s;
       t \<leftarrow> data_text d;
       if length t > IOTX_DOMAIN_MAX_LEN then Some (FAIL_RETURN, d, s)
       else do {
         buf \<leftarrow> copy_text (cloud_custom_domain (g_sdk_impl_ctx s)) t;
         Some (SUCCESS_RETURN, d, (upd_ctx (cloud_custom_domain_update (\<lambda>_. buf)) s)\<lparr>mqtt_domain_set := True\<rparr>) } }
   | IOTX_IOCTL_SET_HTTP_DOMAIN \<Rightarrow> do {
       let s = upd_ctx (domain_type_update (\<lambda>_. IOTX_HTTP_REGION_CUSTOM)) s;
       t \<leftarrow> data_text d;
       if length t > IOTX_DOMAIN_MAX_LEN then Some (FAIL_RETURN, d, s)
       else do {
         buf \<leftarrow> copy_text (http_custom_domain (g_sdk_impl_ctx s)) t;
         Some (SUCCESS_RETURN, d, (upd_ctx (http_custom_domain_update (\<lambda>_. buf)) s)\<lparr>http_domain_set := True\<rparr>) } }
   | IOTX_IOCTL_SET_DYNAMIC_REGISTER \<Rightarrow> do {
       i \<leftarrow> data_int d;
       Some (SUCCESS_RETURN, d, upd_ctx (dynamic_register_update (\<lambda>_. i)) s) }
   | IOTX_IOCTL_GET_DYNAMIC_REGISTER \<Rightarrow> do {
       i \<leftarrow> data_int d;
       Some (SUCCESS_RETURN, D_int (dynamic_register (g_sdk_impl_ctx s)), s) }
   | IOTX_IOCTL_SET_PRODUCT_KEY \<Rightarrow> do {
       t \<leftarrow> data_text d;
       if length t \<le> IOTX_PRODUCT_KEY_LEN then Some (SUCCESS_RETURN, d, s\<lparr>mqc := ioctl_set_product_key t (mqc s)\<rparr>)
       else Some (FAIL_RETURN, d, s) }
   | IOTX_IOCTL_GET_PRODUCT_KEY \<Rightarrow> do {
       d \<leftarrow> data_put d (ctx_product_key (mqc s));
       Some (SUCCESS_RETURN, d, s) }
   | IOTX_IOCTL_SET_PRODUCT_SECRET \<Rightarrow> do {
       t \<leftarrow> data_text d;
       if length t \<le> IOTX_PRODUCT_SECRET_LEN then do {
         buf \<leftarrow> copy_secret (ctx_product_secret (g_sdk_impl_ctx s)) t;
         Some (SUCCESS_RETURN, d, upd_ctx (ctx_product_secret_update (\<lambda>_. buf)) s) }
       else Some (FAIL_RETURN, d, s) }
   | IOTX_IOCTL_GET_PRODUCT_SECRET \<Rightarrow> do {
       t \<leftarrow> c_text (ctx_product_secret (g_sdk_impl_ctx s));
       d \<leftarrow> data_put d t;
       Some (SUCCESS_RETURN, d, s) }
   | IOTX_IOCTL_SET_DEVICE_NAME \<Rightarrow> do {
       t \<leftarrow> data_text d;
       if length t \<le> IOTX_DEVICE_NAME_LEN then Some (SUCCESS_RETURN, d, s\<lparr>mqc := ioctl_set_device_name t (mqc s)\<rparr>)
       else Some (FAIL_RETURN, d, s) }
   | IOTX_IOCTL_GET_DEVICE_NAME \<Rightarrow> do {
       d \<leftarrow> data_put d (ctx_device_name (mqc s));
       Some (SUCCESS_RETURN, d, s) }
   | IOTX_IOCTL_SET_DEVICE_SECRET \<Rightarrow> do {
       t \<leftarrow> data_text d;
       if length t \<le> IOTX_DEVICE_SECRET_LEN then do {
         buf \<leftarrow> copy_secret (ctx_device_secret (g_sdk_impl_ctx s)) t;
         Some (SUCCESS_RETURN, d, upd_ctx (ctx_device_secret_update (\<lambda>_. buf)) s) }
       else Some (FAIL_RETURN, d, s) }
   | IOTX_IOCTL_GET_DEVICE_SECRET \<Rightarrow> do {
       t \<leftarrow> c_text (ctx_device_secret (g_sdk_impl_ctx s));
       d \<leftarrow> data_put d t;
       Some (SUCCESS_RETURN, d, s) }
   | IOTX_IOCTL_SET_SUBDEV_SIGN \<Rightarrow> Some (SUCCESS_RETURN, d, s)
   | IOTX_IOCTL_GET_SUBDEV_LOGIN \<Rightarrow> Some (SUCCESS_RETURN, d, s)
   | IOTX_IOCTL_FOTA_TIMEOUT_MS \<Rightarrow> do {
       i \<leftarrow> data_int d;
       Some (se_dm_set_opt e i, d, s) }
   | IOTX_IOCTL_SET_CUSTOMIZE_INFO \<Rightarrow> do {
       t \<leftarrow> data_text d;
       if length t > IOTX_CUSTOMIZE_INFO_LEN then Some (FAIL_RETURN, d, s)
       else do {
         buf \<leftarrow> copy_text (mqtt_customzie_info (g_sdk_impl_ctx s)) t;
         Some (SUCCESS_RETURN, d, upd_ctx (mqtt_customzie_info_update (\<lambda>_. buf)) s) } }
   | IOTX_IOCTL_SET_MQTT_PORT \<Rightarrow> (case d of
       D_u16 p \<Rightarrow> Some (SUCCESS_RETURN, d, upd_ctx (mqtt_port_num_update (\<lambda>_. p)) s) | _ \<Rightarrow> None)
   | IOTX_IOCTL_SUB_USER_TOPIC \<Rightarrow> (case d of
       D_topic t \<Rightarrow> Some (se_dm_subscribe e t, d, s) | _ \<Rightarrow> None)
   | IOTX_IOCTL_RECV_PROP_REPLY \<Rightarrow> Some (FAIL_RETURN, d, s)
   | IOTX_IOCTL_RECV_EVENT_REPLY \<Rightarrow> Some (FAIL_RETURN, d, s)
   | IOTX_IOCTL_SEND_PROP_SET_REPLY \<Rightarrow> Some (FAIL_RETURN, d, s)
   | IOTX_IOCTL_SET_OTA_DEV_ID \<Rightarrow> Some (FAIL_RETURN, d, s)
   | IOTX_IOCTL_SET_AWSS_ENABLE_INTERVAL \<Rightarrow> Some (FAIL_RETURN, d, s)
   | IOTX_IOCTL_SET_AWSS_CHANNEL_SCAN_INTERVAL \<Rightarrow> Some (FAIL_RETURN, d, s)
   | IOTX_IOCTL_SET_PROXY_REGISTER \<Rightarrow> Some (FAIL_RETURN, d, s)
   | IOTX_IOCTL_QUERY_DEVID \<Rightarrow> Some (FAIL_RETURN, d, s))"

text \<open>The arguments are texts, or null; \<open>info\<close> says whether the pointer for the result is given.\<close>

definition IOT_SetupConnInfo :: "bytes option \<Rightarrow> bytes option \<Rightarrow> bytes option \<Rightarrow> bool \<Rightarrow> sdk \<Rightarrow> int \<times> sdk" where
  "IOT_SetupConnInfo pk dn ds info s = (case (pk, dn, ds) of
     (Some pk, Some dn, Some ds) \<Rightarrow>
       if length pk > IOTX_PRODUCT_KEY_LEN \<or> length dn > IOTX_DEVICE_NAME_LEN \<or> length ds > IOTX_DEVICE_SECRET_LEN then (NULL_VALUE_ERROR, s)
       else (SUCCESS_RETURN, if info then s\<lparr>g_iotx_conn_info := \<lparr>ci_port = 0, ci_init = 0, ci_host_name = Some [], ci_client_id = Some [],
                 ci_username = Some [], ci_password = Some [], ci_pub_key = Some []\<rparr>\<rparr> else s)
   | _ \<Rightarrow> (NULL_VALUE_ERROR, s))"

section \<open>Events\<close>

definition iotx_event_regist_cb :: "nat option \<Rightarrow> sdk \<Rightarrow> int \<times> sdk" where
  "iotx_event_regist_cb cb s = (0, s\<lparr>g_event_monitor := cb\<rparr>)"

definition iotx_event_post :: "int \<Rightarrow> sdk \<Rightarrow> int \<times> sdk" where
  "iotx_event_post event s = (case g_event_monitor s of None \<Rightarrow> (-1, s)
     | Some cb \<Rightarrow> (0, s\<lparr>sdk_events := sdk_events s @ [Se_monitor cb event]\<rparr>))"

definition iotx_event_callback :: "int \<Rightarrow> sdk \<Rightarrow> nat option" where
  "iotx_event_callback evt s = (if evt < 0 \<or> evt \<ge> int (length (g_impl_event_map s)) then None else g_impl_event_map s ! nat evt)"

text \<open>The function that the macro \<open>DEFINE_EVENT_CALLBACK\<close> generates for an event.\<close>

definition iotx_register_for :: "int \<Rightarrow> nat option \<Rightarrow> sdk \<Rightarrow> int \<times> sdk" where
  "iotx_register_for evt cb s =
    (if evt < 0 \<or> evt \<ge> int (length (g_impl_event_map s)) then (-1, s)
     else (0, s\<lparr>g_impl_event_map := (g_impl_event_map s)[nat evt := cb]\<rparr>))"

definition iotx_register_for_ITE_STATE_EVERYTHING :: "nat option \<Rightarrow> sdk \<Rightarrow> int \<times> sdk" where
  "iotx_register_for_ITE_STATE_EVERYTHING cb s =
    (0, s\<lparr>g_impl_event_map := fold (\<lambda>idx m. m[idx := cb]) [22..<32] (g_impl_event_map s)\<rparr>)"

text \<open>The message is the formatted text; a conversion of an invalid pointer, which only matters when the message is
  formatted, is \<open>None\<close>.\<close>

definition iotx_state_event :: "int \<Rightarrow> int \<Rightarrow> bytes option \<Rightarrow> sdk \<Rightarrow> (int \<times> sdk) option" where
  "iotx_state_event event code message s = (case iotx_event_callback event s of
     None \<Rightarrow> Some (-1, s)
   | Some cb \<Rightarrow> do {
       m \<leftarrow> message;
       let m = take (IOTX_STATE_EVENT_MESSAGE_MAXLEN - 1) m;
       let calls = Se_state cb code m # (case iotx_event_callback ITE_STATE_EVERYTHING s of
             Some cb' \<Rightarrow> if cb' \<noteq> cb then [Se_state cb' code m] else [] | None \<Rightarrow> []);
       Some (0, s\<lparr>sdk_events := sdk_events s @ calls\<rparr>) })"

end
