(* ===== verification/MQTT_Api.thy ===== *)
theory MQTT_Api
  imports Infra_Compat
begin

text \<open>
  The interface of the MQTT client, \<open>src/eng/mqtt/mqtt_api.c\<close>, and the reports of \<open>src/eng/infra/infra_report.c\<close>: the one client
  of the program, its construction from the identity of the device, the signature and the parameters of the application, and the
  functions \<open>IOT_MQTT_*\<close> on it.  A handle is given (the client) or null; the use of a handle whose client is not allocated is
  \<open>None\<close>.  Character arrays that are read through pointers are passed as texts.
\<close>

abbreviation (input) STATE_USER_INPUT_PK :: int where "STATE_USER_INPUT_PK \<equiv> -0x103"
abbreviation (input) STATE_USER_INPUT_PS :: int where "STATE_USER_INPUT_PS \<equiv> -0x104"
abbreviation (input) STATE_USER_INPUT_DN :: int where "STATE_USER_INPUT_DN \<equiv> -0x105"
abbreviation (input) STATE_USER_INPUT_DS :: int where "STATE_USER_INPUT_DS \<equiv> -0x106"
abbreviation (input) STATE_MQTT_WRAPPER_INIT_FAIL :: int where "STATE_MQTT_WRAPPER_INIT_FAIL \<equiv> -0x30B"
abbreviation (input) STATE_MQTT_ASYNC_STACK_NOT_SUPPORT :: int where "STATE_MQTT_ASYNC_STACK_NOT_SUPPORT \<equiv> -0x325"
abbreviation (input) STATE_MQTT_CONN_USER_INFO :: int where "STATE_MQTT_CONN_USER_INFO \<equiv> -0x327"
abbreviation (input) STATE_MQTT_SUB_INFO :: int where "STATE_MQTT_SUB_INFO \<equiv> -0x328"
abbreviation (input) STATE_MQTT_PUB_INFO :: int where "STATE_MQTT_PUB_INFO \<equiv> -0x329"
abbreviation (input) MQTT_CONNECT_BLOCK :: int where "MQTT_CONNECT_BLOCK \<equiv> -44"
abbreviation (input) CONFIG_MQTT_MESSAGE_MAXLEN :: nat where "CONFIG_MQTT_MESSAGE_MAXLEN \<equiv> 3072"
abbreviation (input) SUBSCRIBE_SYNC_TIMEOUT_MAX :: int where "SUBSCRIBE_SYNC_TIMEOUT_MAX \<equiv> 10000"
abbreviation (input) IOTX_URI_MAX_LEN :: nat where "IOTX_URI_MAX_LEN \<equiv> 135"
abbreviation (input) FIRMWARE_VERSION_MSG_LEN :: nat where "FIRMWARE_VERSION_MSG_LEN \<equiv> 64"

section \<open>Operations on the client\<close>

text \<open>\<open>handle ? handle : g_mqtt_client\<close>: whether there is a client.\<close>

definition the_client :: "bool \<Rightarrow> sdk \<Rightarrow> bool option" where
  "the_client hnd s = (if hnd \<or> g_mqtt_client s then (if live s then Some True else None) else Some False)"

definition on_client :: "(mc \<Rightarrow> 'a mc_result) \<Rightarrow> sdk \<Rightarrow> ('a \<times> sdk) option" where
  "on_client f s = map_option (\<lambda>(r, m). (r, s\<lparr>mqc := m\<rparr>)) (f (mqc s))"

definition state_event :: "int \<Rightarrow> int \<Rightarrow> bytes option \<Rightarrow> sdk \<Rightarrow> sdk option" where
  "state_event event code message s = map_option snd (iotx_state_event event code message s)"

definition IOT_MQTT_Yield :: "sdk_env \<Rightarrow> bool \<Rightarrow> int \<Rightarrow> sdk \<Rightarrow> (int \<times> sdk) option" where
  "IOT_MQTT_Yield e hnd timeout_ms s = do {
     pClient \<leftarrow> the_client hnd s;
     if \<not> pClient then Some (STATE_USER_INPUT_INVALID, s) else on_client (wrapper_mqtt_yield (se_hal e) timeout_ms) s }"

definition IOT_MQTT_CheckStateNormal :: "bool \<Rightarrow> sdk \<Rightarrow> (int \<times> sdk) option" where
  "IOT_MQTT_CheckStateNormal hnd s = do {
     pClient \<leftarrow> the_client hnd s;
     if \<not> pClient then Some (STATE_USER_INPUT_INVALID, s)
     else on_client (\<lambda>m. let (c, m) = wrapper_mqtt_check_state m in Some (if c then 1 else 0, m)) s }"

text \<open>A QoS outside of the enumeration is replaced by 0.\<close>

definition IOT_MQTT_Subscribe :: "sdk_env \<Rightarrow> bool \<Rightarrow> bytes option \<Rightarrow> int \<Rightarrow> nat option \<Rightarrow> nat \<Rightarrow> sdk \<Rightarrow> (int \<times> sdk) option" where
  "IOT_MQTT_Subscribe e hnd filt qos topic_handle_func pctx s = do {
     client \<leftarrow> the_client hnd s;
     if filt = None \<or> filt = Some [] \<or> topic_handle_func = None then Some (STATE_USER_INPUT_INVALID, s)
     else do {
       let qos = (if qos > 3 then 0 else qos);
       s \<leftarrow> state_event ITE_STATE_MQTT_COMM STATE_MQTT_SUB_INFO (Some (c_lit ''sub - '' @ [39] @ the filt @ [39])) s;
       if \<not> client then Some (STATE_USER_INPUT_INVALID, s)
       else on_client (wrapper_mqtt_subscribe (se_hal e) filt qos topic_handle_func pctx) s } }"

definition IOT_MQTT_Subscribe_Sync :: "sdk_env \<Rightarrow> bool \<Rightarrow> bytes option \<Rightarrow> int \<Rightarrow> nat option \<Rightarrow> nat \<Rightarrow> int \<Rightarrow> sdk \<Rightarrow> (int \<times> sdk) option" where
  "IOT_MQTT_Subscribe_Sync e hnd filt qos topic_handle_func pctx timeout_ms s = do {
     client \<leftarrow> the_client hnd s;
     let timeout_ms = (if timeout_ms > SUBSCRIBE_SYNC_TIMEOUT_MAX then SUBSCRIBE_SYNC_TIMEOUT_MAX else timeout_ms);
     if filt = None \<or> filt = Some [] \<or> topic_handle_func = None then Some (STATE_USER_INPUT_INVALID, s)
     else do {
       let qos = (if qos > 3 then 0 else qos);
       s \<leftarrow> state_event ITE_STATE_MQTT_COMM STATE_MQTT_SUB_INFO (Some (c_lit ''subs - '' @ [39] @ the filt @ [39])) s;
       if \<not> client then Some (STATE_USER_INPUT_INVALID, s)
       else on_client (wrapper_mqtt_subscribe_sync (se_hal e) filt qos topic_handle_func pctx timeout_ms) s } }"

definition IOT_MQTT_Unsubscribe :: "sdk_env \<Rightarrow> bool \<Rightarrow> bytes option \<Rightarrow> sdk \<Rightarrow> (int \<times> sdk) option" where
  "IOT_MQTT_Unsubscribe e hnd filt s = do {
     client \<leftarrow> the_client hnd s;
     if \<not> client \<or> filt = None \<or> filt = Some [] then Some (STATE_USER_INPUT_INVALID, s)
     else do {
       s \<leftarrow> state_event ITE_STATE_MQTT_COMM STATE_MQTT_SUB_INFO (Some (c_lit ''unsub - '' @ [39] @ the filt @ [39])) s;
       on_client (wrapper_mqtt_unsubscribe (se_hal e) filt) s } }"

text \<open>The message of the caller, whose packet id is set, is returned with the result.\<close>

definition IOT_MQTT_Publish :: "sdk_env \<Rightarrow> bool \<Rightarrow> bytes option \<Rightarrow> iotx_mqtt_topic_info_t option \<Rightarrow> sdk
    \<Rightarrow> ((int \<times> iotx_mqtt_topic_info_t option) \<times> sdk) option" where
  "IOT_MQTT_Publish e hnd topic_name topic_msg s = do {
     client \<leftarrow> the_client hnd s;
     if \<not> client \<or> topic_name = None \<or> topic_name = Some [] then Some ((STATE_USER_INPUT_INVALID, topic_msg), s)
     else do {
       ((rc, topic_msg), s) \<leftarrow> (case topic_msg of None \<Rightarrow> Some ((STATE_USER_INPUT_INVALID, None), s)
         | Some m \<Rightarrow> map_option (\<lambda>((rc, m), s). ((rc, Some m), s)) (on_client (wrapper_mqtt_publish (se_hal e) topic_name m) s));
       s \<leftarrow> state_event ITE_STATE_MQTT_COMM STATE_MQTT_PUB_INFO
              (Some (c_lit ''pub - '' @ [39] @ the topic_name @ [39] @ c_lit '': '' @ fmt_int rc)) s;
       Some ((rc, topic_msg), s) } }"

definition IOT_MQTT_Publish_Simple :: "sdk_env \<Rightarrow> bool \<Rightarrow> bytes option \<Rightarrow> int \<Rightarrow> bytes option \<Rightarrow> int \<Rightarrow> sdk \<Rightarrow> (int \<times> sdk) option" where
  "IOT_MQTT_Publish_Simple e hnd topic_name qos data n s = do {
     client \<leftarrow> the_client hnd s;
     if \<not> client \<or> topic_name = None \<or> topic_name = Some [] then Some (STATE_USER_INPUT_INVALID, s)
     else do {
       let mqtt_msg = \<lparr>ti_packet_id = 0, ti_qos = word_of_int qos, ti_dup = 0, ti_retain = 0, ti_topic_len = 0,
             ti_payload_len = word_of_int n, ti_ptopic = None, ti_payload = data\<rparr>;
       ((rc, mqtt_msg), s) \<leftarrow> on_client (wrapper_mqtt_publish (se_hal e) topic_name mqtt_msg) s;
       s \<leftarrow> state_event ITE_STATE_MQTT_COMM STATE_MQTT_PUB_INFO
              (Some (c_lit ''pub - '' @ [39] @ the topic_name @ [39] @ c_lit '': '' @ fmt_int rc)) s;
       Some (rc, s) } }"

definition IOT_MQTT_Nwk_Event_Handler :: "bool \<Rightarrow> int \<Rightarrow> sdk \<Rightarrow> int \<times> sdk" where
  "IOT_MQTT_Nwk_Event_Handler hnd event s = (STATE_MQTT_ASYNC_STACK_NOT_SUPPORT, s)"

text \<open>\<open>phandler\<close> points to a handle, or is null; the handle it points to is cleared.\<close>

definition IOT_MQTT_Destroy :: "sdk_env \<Rightarrow> bool option \<Rightarrow> sdk \<Rightarrow> ((int \<times> bool option) \<times> sdk) option" where
  "IOT_MQTT_Destroy e phandler s =
    (let client = (case phandler of Some x \<Rightarrow> x | None \<Rightarrow> g_mqtt_client s);
         phandler = map_option (\<lambda>_. False) phandler
     in if \<not> client then Some ((STATE_USER_INPUT_INVALID, phandler), s)
        else if \<not> live s then None
        else do {
          (rc, s) \<leftarrow> on_client (wrapper_mqtt_release (se_hal e)) s;
          Some ((STATE_SUCCESS, phandler), s\<lparr>live := False, g_mqtt_client := False\<rparr>) })"

section \<open>Reports\<close>

definition iotx_report_id :: "sdk \<Rightarrow> u32 \<times> sdk" where
  "iotx_report_id s = (g_report_id s, s\<lparr>g_report_id := g_report_id s + 1\<rparr>)"

definition iotx_set_report_func :: "sdk \<Rightarrow> sdk" where
  "iotx_set_report_func s = s\<lparr>info_report_func := True\<rparr>"

text \<open>\<open>HAL_Snprintf\<close> into a buffer of \<open>n\<close> bytes: the length of the whole text is returned and the text is cut.\<close>

definition snprintf_text :: "nat \<Rightarrow> bytes \<Rightarrow> int \<times> bytes" where
  "snprintf_text n t = (int (length t), take (n - 1) t)"

definition get_text :: "sdk_env \<Rightarrow> iotx_ioctl_option_t \<Rightarrow> nat \<Rightarrow> sdk \<Rightarrow> bytes option" where
  "get_text e option n s = do {
     (_, d, _) \<leftarrow> IOT_Ioctl e option (D_chars (replicate n 0)) s;
     data_text d }"

definition quoted :: "string \<Rightarrow> bytes" where
  "quoted t = c_lit ''\"'' @ c_lit t @ c_lit ''\"''"

text \<open>The format \<open>DEVICE_INFO_UPDATE_FMT\<close> with its arguments.\<close>

definition devinfo_text :: "u32 \<Rightarrow> bytes" where
  "devinfo_text i = c_lit ''{'' @ quoted ''id'' @ c_lit '':\"'' @ fmt_int (sint i) @ c_lit ''\",'' @ quoted ''version'' @ c_lit '':'' @ quoted ''1.0'' @ c_lit '',''
     @ quoted ''params'' @ c_lit '':[{'' @ quoted ''attrKey'' @ c_lit '':'' @ quoted ''SYS_LP_SDK_VERSION'' @ c_lit '','' @ quoted ''attrValue'' @ c_lit '':''
     @ quoted ''3.1.0'' @ c_lit '','' @ quoted ''domain'' @ c_lit '':'' @ quoted ''SYSTEM'' @ c_lit ''},{'' @ quoted ''attrKey'' @ c_lit '':'' @ quoted ''SYS_SDK_LANGUAGE''
     @ c_lit '','' @ quoted ''attrValue'' @ c_lit '':'' @ quoted ''C'' @ c_lit '','' @ quoted ''domain'' @ c_lit '':'' @ quoted ''SYSTEM'' @ c_lit ''}],''
     @ quoted ''method'' @ c_lit '':'' @ quoted ''thing.deviceinfo.update'' @ c_lit ''}''"

text \<open>The size of the message buffer: the length of the format with its two conversions, 10, the version and a terminator.\<close>

definition devinfo_len :: nat where
  "devinfo_len = length (devinfo_text 0) - 1 - 5 + 4 + 10 + 5 + 1"

definition iotx_report_devinfo :: "sdk_env \<Rightarrow> bool \<Rightarrow> sdk \<Rightarrow> (int \<times> sdk) option" where
  "iotx_report_devinfo e pclient s = (if \<not> info_report_func s then Some (-1, s) else do {
     pk \<leftarrow> get_text e IOTX_IOCTL_GET_PRODUCT_KEY 21 s;
     dn \<leftarrow> get_text e IOTX_IOCTL_GET_DEVICE_NAME 33 s;
     let (ret, topic_name) = snprintf_text IOTX_URI_MAX_LEN (c_lit ''/sys/'' @ pk @ c_lit ''/'' @ dn @ c_lit ''/thing/deviceinfo/update'');
     if ret \<le> 0 then Some (FAIL_RETURN, s)
     else do {
       let (p, m) = HAL_Malloc (se_hal e) devinfo_len (mqc s);
       let s = s\<lparr>mqc := m\<rparr>;
       if \<not> p then Some (FAIL_RETURN, s)
       else do {
         let (i, s) = iotx_report_id s;
         let (ret, m) = snprintf_text devinfo_len (devinfo_text i);
         if ret \<le> 0 then Some (FAIL_RETURN, s)
         else do {
           (ret, s) \<leftarrow> IOT_MQTT_Publish_Simple e pclient (Some topic_name) 1 (Some m) (int (length m)) s;
           Some (if ret < 0 then FAIL_RETURN else SUCCESS_RETURN, s) } } } })"

definition firmware_text :: "u32 \<Rightarrow> bytes \<Rightarrow> bytes" where
  "firmware_text i version = c_lit ''{\"id\":\"'' @ fmt_int (sint i) @ c_lit ''\",\"params\":{\"version\":\"'' @ version @ c_lit ''\"}}''"

definition iotx_report_firmware_version :: "sdk_env \<Rightarrow> bool \<Rightarrow> sdk \<Rightarrow> (int \<times> sdk) option" where
  "iotx_report_firmware_version e pclient s = (if \<not> info_report_func s then Some (-1, s) else do {
     pk \<leftarrow> get_text e IOTX_IOCTL_GET_PRODUCT_KEY 21 s;
     dn \<leftarrow> get_text e IOTX_IOCTL_GET_DEVICE_NAME 33 s;
     let (ret, version) = se_firmware e;
     if ret \<le> 0 then Some (FAIL_RETURN, s)
     else do {
       let (ret, topic_name) = snprintf_text IOTX_URI_MAX_LEN (c_lit ''/ota/device/inform/'' @ pk @ c_lit ''/'' @ dn);
       if ret \<le> 0 then Some (FAIL_RETURN, s)
       else do {
         let (i, s) = iotx_report_id s;
         let (ret, m) = snprintf_text FIRMWARE_VERSION_MSG_LEN (firmware_text i version);
         if ret \<le> 0 then Some (FAIL_RETURN, s)
         else do {
           (ret, s) \<leftarrow> IOT_MQTT_Publish_Simple e pclient (Some topic_name) 1 (Some m) (int (length m)) s;
           Some (if ret < 0 then ret else SUCCESS_RETURN, s) } } } })"

definition iotx_report_mid :: "bool \<Rightarrow> sdk \<Rightarrow> int \<times> sdk" where
  "iotx_report_mid pclient s = (SUCCESS_RETURN, s)"

definition iotx_mqtt_report_funcs :: "sdk_env \<Rightarrow> bool \<Rightarrow> sdk \<Rightarrow> sdk option" where
  "iotx_mqtt_report_funcs e pclient s = map_option snd (iotx_report_firmware_version e pclient (iotx_set_report_func s))"

section \<open>Construction\<close>

text \<open>The parameters of the application: those of the client, and text to be added to the client id.\<close>

record api_param_t = iotx_mqtt_param_t +
  p_customize_info :: "bytes option"

text \<open>The buffer of 65 bytes for the secret; when the secret is already known it stays local.\<close>

definition iotx_dynamic_register :: "sdk_env \<Rightarrow> int \<Rightarrow> iotx_dev_meta_info_t \<Rightarrow> sdk \<Rightarrow> (int \<times> iotx_dev_meta_info_t \<times> sdk) option" where
  "iotx_dynamic_register e region meta_info s = do {
     dn \<leftarrow> c_text (device_name meta_info);
     kv_key \<leftarrow> append_text (padded (IOTX_DEVICE_NAME_LEN + 12) (c_lit ''DYNAMIC_REG_'')) dn;
     device_secret \<leftarrow> get_text e IOTX_IOCTL_GET_DEVICE_SECRET (IOTX_DEVICE_SECRET_LEN + 1) s;
     if device_secret = [] then do {
       let (res, secret) = se_dynreg e region meta_info;
       let meta_info = meta_info\<lparr>device_secret := secret\<rparr>;
       if res < STATE_SUCCESS then Some (res, meta_info, s)
       else do {
         (_, _, s) \<leftarrow> IOT_Ioctl e IOTX_IOCTL_SET_DEVICE_SECRET (D_chars secret) s;
         t \<leftarrow> (case iotx_event_callback ITE_DYNREG_DEVICE_SECRET s of None \<Rightarrow> Some None | Some cb \<Rightarrow> map_option (\<lambda>t. Some (Se_device_secret cb t)) (c_text secret));
         let s = (case t of None \<Rightarrow> s | Some ev \<Rightarrow> s\<lparr>sdk_events := sdk_events s @ [ev]\<rparr>);
         Some (STATE_SUCCESS, meta_info, s) } }
     else Some (STATE_SUCCESS, meta_info, s) }"

definition meta_zero :: iotx_dev_meta_info_t where
  "meta_zero = \<lparr>product_key = replicate 21 0, product_secret = replicate 65 0, device_name = replicate 33 0, device_secret = replicate 65 0\<rparr>"

definition get_chars :: "sdk_env \<Rightarrow> iotx_ioctl_option_t \<Rightarrow> bytes \<Rightarrow> sdk \<Rightarrow> bytes option" where
  "get_chars e option buf s = (case IOT_Ioctl e option (D_chars buf) s of Some (_, D_chars b, _) \<Rightarrow> Some b | _ \<Rightarrow> None)"

text \<open>The identity of the device: the result is the identity, or null after a state event.\<close>

definition construct_secret :: "sdk_env \<Rightarrow> int \<Rightarrow> int \<Rightarrow> iotx_dev_meta_info_t \<Rightarrow> sdk \<Rightarrow> (iotx_dev_meta_info_t option \<times> sdk) option" where
  "construct_secret e region dynamic meta s =
    (if dynamic \<noteq> 0 then do {
       ps \<leftarrow> get_chars e IOTX_IOCTL_GET_PRODUCT_SECRET (product_secret meta) s;
       let meta = meta\<lparr>product_secret := ps\<rparr>;
       first \<leftarrow> load ps 0;
       bad \<leftarrow> (if first = 0 then Some True else map_option (\<lambda>c. c \<noteq> 0) (load ps IOTX_PRODUCT_SECRET_LEN));
       if bad then do {
         s \<leftarrow> state_event ITE_STATE_USER_INPUT STATE_USER_INPUT_PS (Some (c_lit ''invalid product secret'')) s;
         Some (None, s) }
       else do {
         (ret, meta, s) \<leftarrow> iotx_dynamic_register e region meta s;
         if ret < STATE_SUCCESS then do {
           s \<leftarrow> state_event ITE_STATE_MQTT_COMM ret (Some (c_lit ''dynamic register fail'')) s;
           Some (None, s) }
         else Some (Some meta, s) } }
     else do {
       ds \<leftarrow> get_chars e IOTX_IOCTL_GET_DEVICE_SECRET (device_secret meta) s;
       first \<leftarrow> load ds 0;
       bad \<leftarrow> (if first = 0 then Some True else map_option (\<lambda>c. c \<noteq> 0) (load ds IOTX_DEVICE_SECRET_LEN));
       if bad then do {
         s \<leftarrow> state_event ITE_STATE_USER_INPUT STATE_USER_INPUT_DS (Some (c_lit ''invalid device secret'')) s;
         Some (None, s) }
       else Some (Some (meta\<lparr>device_secret := ds\<rparr>), s) })"

definition construct_meta :: "sdk_env \<Rightarrow> int \<Rightarrow> int \<Rightarrow> sdk \<Rightarrow> (iotx_dev_meta_info_t option \<times> sdk) option" where
  "construct_meta e region dynamic s = do {
     pk \<leftarrow> get_chars e IOTX_IOCTL_GET_PRODUCT_KEY (product_key meta_zero) s;
     dn \<leftarrow> get_chars e IOTX_IOCTL_GET_DEVICE_NAME (device_name meta_zero) s;
     c \<leftarrow> load pk IOTX_PRODUCT_KEY_LEN;
     if c \<noteq> 0 then do {
       s \<leftarrow> state_event ITE_STATE_USER_INPUT STATE_USER_INPUT_PK (Some (c_lit ''invalid product key'')) s;
       Some (None, s) }
     else do {
       c \<leftarrow> load dn IOTX_DEVICE_NAME_LEN;
       if c \<noteq> 0 then do {
         s \<leftarrow> state_event ITE_STATE_USER_INPUT STATE_USER_INPUT_DN (Some (c_lit ''invalid device name'')) s;
         Some (None, s) }
       else construct_secret e region dynamic (meta_zero\<lparr>product_key := pk, device_name := dn\<rparr>) s } }"

text \<open>The custom entry of the table of domains.\<close>

definition custom_domain :: "sdk \<Rightarrow> bytes option option" where
  "custom_domain s = (if mqtt_domain_set s then map_option Some (c_text (cloud_custom_domain (g_sdk_impl_ctx s))) else Some None)"

text \<open>The signature, and the client id with the text of the application.\<close>

definition construct_sign :: "sdk_env \<Rightarrow> int \<Rightarrow> iotx_dev_meta_info_t \<Rightarrow> bytes option \<Rightarrow> bool \<Rightarrow> sdk \<Rightarrow> (int \<times> sdk) option" where
  "construct_sign e region meta customize_info enable_itls s = do {
     custom \<leftarrow> custom_domain s;
     (ret, sg) \<leftarrow> IOT_Sign_MQTT (se_junk e) custom (nat (to_u32 region)) (Some meta) (g_default_sign s);
     let s = s\<lparr>g_default_sign := sg\<rparr>;
     if ret < STATE_SUCCESS then Some (ret, s)
     else do {
       pk \<leftarrow> c_text (product_key meta);
       dn \<leftarrow> c_text (device_name meta);
       device_id \<leftarrow> setup_device_id pk dn;
       (ret, cs) \<leftarrow> sign_get_clientid (Some (clientid sg)) (Some device_id) (map_option (\<lambda>t. t @ [0]) customize_info) (if enable_itls then 1 else 0);
       cs \<leftarrow> cs;
       Some (ret, s\<lparr>g_default_sign := sg\<lparr>clientid := cs\<rparr>\<rparr>) } }"

definition wants_itls :: "bytes option \<Rightarrow> bool" where
  "wants_itls customize_info = (case customize_info of None \<Rightarrow> False | Some t \<Rightarrow> strstr t (c_lit ''authtype=id2''))"

definition itls_key :: "sdk_env \<Rightarrow> sdk \<Rightarrow> bytes option" where
  "itls_key e s = do {
     b \<leftarrow> get_chars e IOTX_IOCTL_GET_PRODUCT_KEY (replicate 86 0) s;
     n \<leftarrow> c_strlen b;
     t \<leftarrow> get_chars e IOTX_IOCTL_GET_PRODUCT_SECRET (drop (n + 1) b) s;
     Some (take (n + 1) b @ t) }"

definition default_params :: "bytes \<Rightarrow> iotx_mqtt_param_t" where
  "default_params key = \<lparr>p_port = 0, p_host = None, p_client_id = None, p_username = None, p_password = None, p_pub_key = Some key,
     p_clean_session = 0, p_request_timeout_ms = CONFIG_MQTT_REQUEST_TIMEOUT, p_keepalive_interval_ms = of_nat (CONFIG_MQTT_KEEPALIVE_INTERVAL * 1000),
     p_write_buf_size = CONFIG_MQTT_MESSAGE_MAXLEN, p_read_buf_size = CONFIG_MQTT_MESSAGE_MAXLEN, p_handle_event = \<lparr>h_fp = None, pcontext = 0\<rparr>\<rparr>"

definition given :: "bytes option \<Rightarrow> bytes \<Rightarrow> bytes option" where
  "given t dflt = (if t \<noteq> None \<and> t \<noteq> Some [] then t else Some dflt)"

text \<open>Each parameter of the application is used when it is given and in its range.\<close>

definition construct_params :: "bytes \<Rightarrow> bytes \<Rightarrow> u16 \<Rightarrow> bytes \<Rightarrow> bytes \<Rightarrow> bytes \<Rightarrow> api_param_t option \<Rightarrow> iotx_mqtt_param_t" where
  "construct_params key host prt cid user pw pInitParams = (let d = default_params key in case pInitParams of
     None \<Rightarrow> d\<lparr>p_port := prt, p_host := Some host, p_client_id := Some cid, p_username := Some user, p_password := Some pw\<rparr>
   | Some p \<Rightarrow> d\<lparr>p_host := given (p_host p) host, p_port := (if p_port p \<noteq> 0 then p_port p else prt),
       p_client_id := given (p_client_id p) cid, p_username := given (p_username p) user, p_password := given (p_password p) pw,
       p_request_timeout_ms := (if p_request_timeout_ms p < CONFIG_MQTT_REQ_TIMEOUT_MIN \<or> p_request_timeout_ms p > CONFIG_MQTT_REQ_TIMEOUT_MAX
          then p_request_timeout_ms d else p_request_timeout_ms p),
       p_clean_session := (if p_clean_session p = 0 \<or> p_clean_session p = 1 then p_clean_session p else p_clean_session d),
       p_keepalive_interval_ms := (if p_keepalive_interval_ms p < of_nat (CONFIG_MQTT_KEEPALIVE_INTERVAL_MIN * 1000)
             \<or> p_keepalive_interval_ms p > of_nat (CONFIG_MQTT_KEEPALIVE_INTERVAL_MAX * 1000)
          then p_keepalive_interval_ms d else p_keepalive_interval_ms p),
       p_read_buf_size := (if p_read_buf_size p = 0 then p_read_buf_size d else p_read_buf_size p),
       p_write_buf_size := (if p_write_buf_size p = 0 then p_write_buf_size d else p_write_buf_size p),
       p_handle_event := \<lparr>h_fp = (if h_fp (p_handle_event p) \<noteq> None then h_fp (p_handle_event p) else None),
          pcontext = (if pcontext (p_handle_event p) \<noteq> 0 then pcontext (p_handle_event p) else 0)\<rparr>\<rparr>)"

text \<open>The five state events with the parameters; the third one is the client id behind its first comma.\<close>

definition after_comma :: "bytes \<Rightarrow> bytes option" where
  "after_comma t = (case dropWhile (\<lambda>c. c \<noteq> 44) t of [] \<Rightarrow> None | _ # r \<Rightarrow> Some r)"

definition report_params :: "iotx_mqtt_param_t \<Rightarrow> sdk \<Rightarrow> sdk option" where
  "report_params p s = do {
     s \<leftarrow> state_event ITE_STATE_MQTT_COMM STATE_MQTT_CONN_USER_INFO (p_host p) s;
     s \<leftarrow> state_event ITE_STATE_MQTT_COMM STATE_MQTT_CONN_USER_INFO (Some (fmt_int (uint (p_port p)))) s;
     s \<leftarrow> state_event ITE_STATE_MQTT_COMM STATE_MQTT_CONN_USER_INFO (p_client_id p \<bind> after_comma) s;
     s \<leftarrow> state_event ITE_STATE_MQTT_COMM STATE_MQTT_CONN_USER_INFO (p_username p) s;
     state_event ITE_STATE_MQTT_COMM STATE_MQTT_CONN_USER_INFO (p_password p) s }"

definition sdk_uptime :: "sdk_env \<Rightarrow> sdk \<Rightarrow> u32 \<times> sdk" where
  "sdk_uptime e s = (let (t, m) = HAL_UptimeMs (se_hal e) (mqc s) in (t, s\<lparr>mqc := m\<rparr>))"

text \<open>From the parameters to the connected client; the result says whether a client is returned.\<close>

definition construct_client :: "sdk_env \<Rightarrow> iotx_mqtt_param_t \<Rightarrow> sdk \<Rightarrow> (bool \<times> sdk) option" where
  "construct_client e params s = do {
     let (pclient, m) = wrapper_mqtt_init (se_hal e) params (mqc s);
     let s = s\<lparr>mqc := m, live := pclient\<rparr>;
     if \<not> pclient then do {
       s \<leftarrow> state_event ITE_STATE_MQTT_COMM STATE_MQTT_WRAPPER_INIT_FAIL (Some (c_lit ''mqtt wrapper init fail'')) s;
       Some (False, s) }
     else do {
       s \<leftarrow> report_params params s;
       let (time_now, s) = sdk_uptime e s;
       (ret, s) \<leftarrow> on_client (wrapper_mqtt_connect (se_hal e)) s;
       if ret < STATE_SUCCESS \<and> ret \<noteq> MQTT_CONNECT_BLOCK then do {
         s \<leftarrow> state_event ITE_STATE_MQTT_COMM ret (Some (c_lit ''mqtt connect failed - ret = '' @ fmt_int ret)) s;
         (_, s) \<leftarrow> on_client (wrapper_mqtt_release (se_hal e)) s;
         Some (False, s\<lparr>live := False\<rparr>) }
       else do {
         let (now, s) = sdk_uptime e s;
         s \<leftarrow> state_event ITE_STATE_MQTT_COMM STATE_SUCCESS (Some (c_lit ''mqtt connected in '' @ fmt_int (sint (now - time_now)) @ c_lit '' ms'')) s;
         s \<leftarrow> iotx_mqtt_report_funcs e True s;
         let s = s\<lparr>g_mqtt_client := True\<rparr>;
         Some (True, case iotx_event_callback ITE_MQTT_CONNECT_SUCC s of None \<Rightarrow> s | Some cb \<Rightarrow> s\<lparr>sdk_events := sdk_events s @ [Se_connected cb]\<rparr>) } } }"

definition IOT_MQTT_Construct :: "sdk_env \<Rightarrow> api_param_t option \<Rightarrow> sdk \<Rightarrow> (bool \<times> sdk) option" where
  "IOT_MQTT_Construct e pInitParams s =
    (if g_mqtt_client s then Some (True, s)
     else do {
       let region = domain_type (g_sdk_impl_ctx s);
       let dynamic = dynamic_register (g_sdk_impl_ctx s);
       (meta, s) \<leftarrow> construct_meta e region dynamic s;
       case meta of None \<Rightarrow> Some (False, s)
       | Some meta \<Rightarrow> do {
           let customize_info = pInitParams \<bind> p_customize_info;
           let enable_itls = wants_itls customize_info;
           (ret, s) \<leftarrow> construct_sign e region meta customize_info enable_itls s;
           if ret < STATE_SUCCESS then do {
             s \<leftarrow> state_event ITE_STATE_MQTT_COMM ret (Some (c_lit ''mqtt sign fail'')) s;
             Some (False, s) }
           else do {
             itls \<leftarrow> (if enable_itls then itls_key e s else Some (iotx_ca_crt_itls s));
             key \<leftarrow> (if enable_itls then c_text itls else Some (se_ca_crt e));
             let s = s\<lparr>iotx_ca_crt_itls := itls\<rparr>;
             host \<leftarrow> c_text (hostname (g_default_sign s));
             cid \<leftarrow> c_text (clientid (g_default_sign s));
             user \<leftarrow> c_text (username (g_default_sign s));
             pw \<leftarrow> c_text (password (g_default_sign s));
             construct_client e (construct_params key host (iotx_sign_mqtt_t.port (g_default_sign s)) cid user pw pInitParams) s } } })"

end
