(* ===== verification/MQTT_Api_Props.thy ===== *)
theory MQTT_Api_Props
  imports MQTT_Api
begin

text \<open>
  Properties of the interface of the MQTT client: its invariant over all call sequences, what construction signs and
  hands to the client, the options, and the reports.
\<close>

section \<open>Texts in buffers\<close>

lemma store_length: "store_n b p t = Some b' \<Longrightarrow> length b' = length b"
  by (auto simp: store_n_def split: if_split_asm)

lemma copied_text:
  assumes "0 \<notin> set t" "length t < length buf"
  shows "\<exists>buf'. copy_text buf t = Some buf' \<and> length buf' = length buf \<and> c_text buf' = Some t"
proof -
  let ?b = "t @ 0 # drop (length t + 1) buf"
  have r: "replicate (length t + 1) (0 :: byte) = replicate (length t) 0 @ [0]" by (simp add: replicate_append_same)
  have "copy_text buf t = Some ?b" using assms(2) unfolding copy_text_def store_n_def r by simp
  moreover have "c_text ?b = Some t" using assms(1) by (simp add: c_text_def)
  ultimately show ?thesis using assms(2) by simp
qed

lemma copied_secret:
  assumes "0 \<notin> set t" "length t \<le> 64" "length buf = 65"
  shows "copy_secret buf t = Some (padded 65 t)" "c_text (padded 65 t) = Some t" "length (padded 65 t) = 65"
  using assms text_padded [of t 65] store_padded [of "[]" t 65] by (simp_all add: copy_secret_def store_n_def padded_def)

section \<open>The invariant\<close>

definition ctx_bufs :: "sdk_impl_ctx_t \<Rightarrow> bool" where
  "ctx_bufs c \<longleftrightarrow> length (cloud_custom_domain c) = 65 \<and> length (http_custom_domain c) = 65 \<and> length (mqtt_customzie_info c) = 81
     \<and> length (ctx_product_secret c) = 65 \<and> length (ctx_device_secret c) = 65
     \<and> c_text (ctx_product_secret c) \<noteq> None \<and> c_text (ctx_device_secret c) \<noteq> None"

text \<open>A client that the interface knows is allocated; an allocated client is in a state of the client's invariant, and
  otherwise no lock is left over from an earlier one.\<close>

definition sdk_ok :: "sdk \<Rightarrow> bool" where
  "sdk_ok s \<longleftrightarrow> (g_mqtt_client s \<longrightarrow> live s) \<and> (if live s then api_ok (mqc s) else env_ok (mqc s)) \<and> ctx_bufs (g_sdk_impl_ctx s)
     \<and> length (g_impl_event_map s) = IOTX_EVENT_NUMBER \<and> (mqtt_domain_set s \<longrightarrow> c_text (cloud_custom_domain (g_sdk_impl_ctx s)) \<noteq> None)"

lemma sdk_ok_frame:
  "mqc s' = mqc s \<Longrightarrow> live s' = live s \<Longrightarrow> g_mqtt_client s' = g_mqtt_client s \<Longrightarrow> g_sdk_impl_ctx s' = g_sdk_impl_ctx s
    \<Longrightarrow> mqtt_domain_set s' = mqtt_domain_set s \<Longrightarrow> length (g_impl_event_map s') = length (g_impl_event_map s) \<Longrightarrow> sdk_ok s' = sdk_ok s"
  by (simp add: sdk_ok_def)

lemma event_frame:
  assumes "state_event ev code m s = Some s'"
  obtains es where "s' = s\<lparr>sdk_events := es\<rparr>"
proof (cases "iotx_event_callback ev s")
  case None
  then have "s' = s" using assms by (simp add: state_event_def iotx_state_event_def)
  then have "s' = s\<lparr>sdk_events := sdk_events s\<rparr>" by simp
  with that show ?thesis by blast
next
  case (Some cb)
  then obtain t where t: "m = Some t" using assms by (cases m) (simp_all add: state_event_def iotx_state_event_def)
  obtain es where "s' = s\<lparr>sdk_events := es\<rparr>" using assms unfolding state_event_def iotx_state_event_def Some t Let_def by auto
  with that show ?thesis by blast
qed

lemma event_ok: "state_event ev code m s = Some s' \<Longrightarrow> sdk_ok s' = sdk_ok s \<and> live s' = live s \<and> g_mqtt_client s' = g_mqtt_client s \<and> mqc s' = mqc s"
  by (erule event_frame) (simp add: sdk_ok_def)

lemma ctx_texts_ok: "api_ok m \<Longrightarrow> api_ok (ioctl_set_product_key t m)" "api_ok m \<Longrightarrow> api_ok (ioctl_set_device_name t m)"
  "env_ok m \<Longrightarrow> env_ok (ioctl_set_product_key t m)" "env_ok m \<Longrightarrow> env_ok (ioctl_set_device_name t m)"
  by (simp_all add: ioctl_set_product_key_def ioctl_set_device_name_def api_ok_def ok_def alive_def env_ok_def)

lemma data_text_plain: "data_text d = Some t \<Longrightarrow> 0 \<notin> set t"
  by (auto simp: data_text_def split: ioctl_data.splits dest: c_text_Some)

text \<open>The stores of the setters succeed and keep the buffers.\<close>

lemma domain_copied:
  assumes "data_text d = Some t" "\<not> 64 < length t" "length buf = 65" "copy_text buf t = Some buf'"
  shows "length buf' = 65 \<and> c_text buf' = Some t"
  using copied_text [of t buf] data_text_plain [OF assms(1)] assms(2-4) by auto

lemma info_copied:
  assumes "data_text d = Some t" "\<not> 80 < length t" "length buf = 81" "copy_text buf t = Some buf'"
  shows "length buf' = 81 \<and> c_text buf' = Some t"
  using copied_text [of t buf] data_text_plain [OF assms(1)] assms(2-4) by auto

lemma secret_copied:
  assumes "data_text d = Some t" "length t \<le> 64" "length buf = 65" "copy_secret buf t = Some buf'"
  shows "length buf' = 65 \<and> c_text buf' = Some t"
  using copied_secret [of t buf] data_text_plain [OF assms(1)] assms(2-4) by auto

lemmas setters = domain_copied info_copied secret_copied

lemma sdk_ok_ctx:
  assumes "sdk_ok s" "mqc s' = mqc s" "live s' = live s" "g_mqtt_client s' = g_mqtt_client s" "g_impl_event_map s' = g_impl_event_map s"
    "ctx_bufs (g_sdk_impl_ctx s')" "mqtt_domain_set s' \<longrightarrow> c_text (cloud_custom_domain (g_sdk_impl_ctx s')) \<noteq> None"
  shows "sdk_ok s' \<and> live s' = live s \<and> g_mqtt_client s' = g_mqtt_client s"
  using assms by (simp add: sdk_ok_def)

lemma upd_ctx_simps [simp]:
  "g_sdk_impl_ctx (upd_ctx f s) = f (g_sdk_impl_ctx s)" "mqc (upd_ctx f s) = mqc s" "live (upd_ctx f s) = live s" "g_mqtt_client (upd_ctx f s) = g_mqtt_client s"
  "g_impl_event_map (upd_ctx f s) = g_impl_event_map s" "mqtt_domain_set (upd_ctx f s) = mqtt_domain_set s"
  by (simp_all add: upd_ctx_def)

lemma sdk_ok_mqc:
  assumes "sdk_ok s" "s' = s\<lparr>mqc := m\<rparr>" "m = ioctl_set_product_key t (mqc s) \<or> m = ioctl_set_device_name t (mqc s)"
  shows "sdk_ok s' \<and> live s' = live s \<and> g_mqtt_client s' = g_mqtt_client s"
  using assms by (auto simp: sdk_ok_def ctx_texts_ok)

text \<open>The setters of texts: a test of the length, a copy, an update of the state.\<close>

lemma set_if:
  assumes "(data_text d \<bind> (\<lambda>t. if P t then cp t \<bind> (\<lambda>buf. Some (r, d, g buf)) else Some (r', d, s0))) = Some (rc, d', s')"
    "\<And>t buf. data_text d = Some t \<Longrightarrow> P t \<Longrightarrow> cp t = Some buf \<Longrightarrow> K (g buf)" "K s0"
  shows "K s'"
  using assms by (auto simp: bind_eq_Some_conv split: if_split_asm)

lemma set_unless:
  assumes "(data_text d \<bind> (\<lambda>t. if P t then Some (r', d, s0) else cp t \<bind> (\<lambda>buf. Some (r, d, g buf)))) = Some (rc, d', s')"
    "\<And>t buf. data_text d = Some t \<Longrightarrow> \<not> P t \<Longrightarrow> cp t = Some buf \<Longrightarrow> K (g buf)" "K s0"
  shows "K s'"
  using assms by (auto simp: bind_eq_Some_conv split: if_split_asm)

lemma ioctl_ok:
  assumes a: "IOT_Ioctl e opt d s = Some (rc, d', s')" and s: "sdk_ok s"
  shows "sdk_ok s' \<and> live s' = live s \<and> g_mqtt_client s' = g_mqtt_client s"
proof (cases "d = D_null")
  case False
  from s have c: "ctx_bufs (g_sdk_impl_ctx s)" "mqtt_domain_set s \<longrightarrow> c_text (cloud_custom_domain (g_sdk_impl_ctx s)) \<noteq> None" by (simp_all add: sdk_ok_def)
  note run = a [unfolded IOT_Ioctl_def if_not_P [OF False]]
  let ?s = "upd_ctx (domain_type_update (\<lambda>_. int 5)) s" and ?h = "upd_ctx (domain_type_update (\<lambda>_. 5)) s" and ?ok = "\<lambda>s'. sdk_ok s' \<and> live s' = live s \<and> g_mqtt_client s' = g_mqtt_client s"
  have region: "?ok ?s" "?ok ?h" using c by (rule_tac sdk_ok_ctx [OF s]; simp add: ctx_bufs_def)+
  show ?thesis
  proof (cases opt)
    case IOTX_IOCTL_SET_REGION
    with run obtain i where "s' = upd_ctx (domain_type_update (\<lambda>_. i)) s" by (auto simp: bind_eq_Some_conv)
    then show ?thesis using c by (intro sdk_ok_ctx [OF s]) (simp_all add: ctx_bufs_def)
  next
    case IOTX_IOCTL_SET_DYNAMIC_REGISTER
    with run obtain i where "s' = upd_ctx (dynamic_register_update (\<lambda>_. i)) s" by (auto simp: bind_eq_Some_conv)
    then show ?thesis using c by (intro sdk_ok_ctx [OF s]) (simp_all add: ctx_bufs_def)
  next
    case IOTX_IOCTL_SET_MQTT_PORT
    with run obtain i where "s' = upd_ctx (mqtt_port_num_update (\<lambda>_. i)) s" by (auto split: ioctl_data.split_asm)
    then show ?thesis using c by (intro sdk_ok_ctx [OF s]) (simp_all add: ctx_bufs_def)
  next
    case IOTX_IOCTL_SET_PRODUCT_KEY
    with run obtain t where "s' = s\<lparr>mqc := ioctl_set_product_key t (mqc s)\<rparr> \<or> s' = s" by (auto simp: bind_eq_Some_conv split: if_split_asm)
    then show ?thesis using s sdk_ok_mqc [OF s] by blast
  next
    case IOTX_IOCTL_SET_DEVICE_NAME
    with run obtain t where "s' = s\<lparr>mqc := ioctl_set_device_name t (mqc s)\<rparr> \<or> s' = s" by (auto simp: bind_eq_Some_conv split: if_split_asm)
    then show ?thesis using s sdk_ok_mqc [OF s] by blast
  next
    case IOTX_IOCTL_SET_PRODUCT_SECRET
    show ?thesis
    proof (rule set_if [OF run [unfolded IOTX_IOCTL_SET_PRODUCT_SECRET iotx_ioctl_option_t.case Let_def]])
      fix t buf assume t: "data_text d = Some t" "length t \<le> 64" "copy_secret (ctx_product_secret (g_sdk_impl_ctx s)) t = Some buf"
      from secret_copied [OF t(1,2) _ t(3)] c show "?ok (upd_ctx (ctx_product_secret_update (\<lambda>_. buf)) s)" by (intro sdk_ok_ctx [OF s]) (simp_all add: ctx_bufs_def)
    qed (use s in simp)
  next
    case IOTX_IOCTL_SET_DEVICE_SECRET
    show ?thesis
    proof (rule set_if [OF run [unfolded IOTX_IOCTL_SET_DEVICE_SECRET iotx_ioctl_option_t.case Let_def]])
      fix t buf assume t: "data_text d = Some t" "length t \<le> 64" "copy_secret (ctx_device_secret (g_sdk_impl_ctx s)) t = Some buf"
      from secret_copied [OF t(1,2) _ t(3)] c show "?ok (upd_ctx (ctx_device_secret_update (\<lambda>_. buf)) s)" by (intro sdk_ok_ctx [OF s]) (simp_all add: ctx_bufs_def)
    qed (use s in simp)
  next
    case IOTX_IOCTL_SET_CUSTOMIZE_INFO
    show ?thesis
    proof (rule set_unless [OF run [unfolded IOTX_IOCTL_SET_CUSTOMIZE_INFO iotx_ioctl_option_t.case Let_def]])
      fix t buf assume t: "data_text d = Some t" "\<not> 80 < length t" "copy_text (mqtt_customzie_info (g_sdk_impl_ctx s)) t = Some buf"
      from info_copied [OF t(1,2) _ t(3)] c show "?ok (upd_ctx (mqtt_customzie_info_update (\<lambda>_. buf)) s)" by (intro sdk_ok_ctx [OF s]) (simp_all add: ctx_bufs_def)
    qed (use s in simp)
  next
    case IOTX_IOCTL_SET_MQTT_DOMAIN
    show ?thesis
    proof (rule set_unless [OF run [unfolded IOTX_IOCTL_SET_MQTT_DOMAIN iotx_ioctl_option_t.case Let_def]])
      fix t buf assume t: "data_text d = Some t" "\<not> 64 < length t" "copy_text (cloud_custom_domain (g_sdk_impl_ctx ?s)) t = Some buf"
      from domain_copied [OF t(1,2) _ t(3)] c show "?ok ((upd_ctx (cloud_custom_domain_update (\<lambda>_. buf)) ?s)\<lparr>mqtt_domain_set := True\<rparr>)" by (intro sdk_ok_ctx [OF s]) (simp_all add: ctx_bufs_def)
    qed (use region in simp)
  next
    case IOTX_IOCTL_SET_HTTP_DOMAIN
    show ?thesis
    proof (rule set_unless [OF run [unfolded IOTX_IOCTL_SET_HTTP_DOMAIN iotx_ioctl_option_t.case Let_def]])
      fix t buf assume t: "data_text d = Some t" "\<not> 64 < length t" "copy_text (http_custom_domain (g_sdk_impl_ctx ?h)) t = Some buf"
      from domain_copied [OF t(1,2) _ t(3)] c show "?ok ((upd_ctx (http_custom_domain_update (\<lambda>_. buf)) ?h)\<lparr>http_domain_set := True\<rparr>)" by (intro sdk_ok_ctx [OF s]) (simp_all add: ctx_bufs_def)
    qed (use region in simp)
  qed (use run s in \<open>auto simp: bind_eq_Some_conv split: ioctl_data.split_asm\<close>)
qed (use a s in \<open>simp add: IOT_Ioctl_def\<close>)

section \<open>Calls\<close>

text \<open>An operation on the client keeps the invariant, and what the interface knows of the client.\<close>

definition sdk_same :: "sdk \<Rightarrow> sdk \<Rightarrow> bool" where
  "sdk_same s s' \<longleftrightarrow> sdk_ok s' \<and> live s' = live s \<and> g_mqtt_client s' = g_mqtt_client s"

lemma same_refl: "sdk_ok s \<Longrightarrow> sdk_same s s"
  by (simp add: sdk_same_def)

lemma same_trans: "sdk_same s s1 \<Longrightarrow> sdk_same s1 s2 \<Longrightarrow> sdk_same s s2"
  by (simp add: sdk_same_def)

lemma same_event: "state_event ev code m s1 = Some s2 \<Longrightarrow> sdk_same s s1 \<Longrightarrow> sdk_same s s2"
  using event_ok [of ev code m s1 s2] by (simp add: sdk_same_def)

lemma same_client:
  assumes "on_client f s1 = Some (r, s2)" "live s1" "sdk_same s s1" "\<And>m m'. api_ok m \<Longrightarrow> f m = Some (r, m') \<Longrightarrow> api_ok m'"
  shows "sdk_same s s2"
  using assms by (auto simp: on_client_def sdk_same_def sdk_ok_def)

text \<open>An operation of the client as an operation of the interface.\<close>

locale client_lift = client_call f for f :: "mc \<Rightarrow> 'a mc_result"
begin

lemma lifted: "on_client f s1 = Some (r, s2) \<Longrightarrow> live s1 \<Longrightarrow> sdk_same s s1 \<Longrightarrow> sdk_same s s2"
  by (erule same_client) (auto intro: returns_ok)

lemma after_event: "sdk_ok s \<Longrightarrow> live s \<Longrightarrow> state_event ev code m s = Some s1 \<Longrightarrow> on_client f s1 = Some (r, s2) \<Longrightarrow> sdk_same s s2"
  using same_event [of ev code m s s1 s] lifted [of s1 r s2 s] same_refl [of s] by (auto simp: sdk_same_def)

end

interpretation yielding: client_lift "wrapper_mqtt_yield h ms" for h ms by unfold_locales (rule mqtt_yield_ok)
interpretation subscribing: client_lift "wrapper_mqtt_subscribe h t q fp c" for h t q fp c by unfold_locales (rule mqtt_subscribe_ok)
interpretation subscribing_sync: client_lift "wrapper_mqtt_subscribe_sync h t q fp c ms" for h t q fp c ms by unfold_locales (rule subscribe_sync_ok)
interpretation unsubscribing: client_lift "wrapper_mqtt_unsubscribe h t" for h t by unfold_locales (rule mqtt_unsubscribe_ok)
interpretation publishing: client_lift "wrapper_mqtt_publish h t m" for h t m by unfold_locales (rule mqtt_publish_ok)
interpretation connecting: client_lift "wrapper_mqtt_connect h" for h by unfold_locales (rule mqtt_connect_api_ok)

lemma the_client_live: "the_client hnd s = Some c \<Longrightarrow> c \<Longrightarrow> live s"
  by (auto simp: the_client_def split: if_split_asm)

locale sdk_call =
  fixes op :: "sdk \<Rightarrow> ('a \<times> sdk) option"
  assumes keeps_sdk: "sdk_ok s \<Longrightarrow> op s = Some (r, s') \<Longrightarrow> sdk_same s s'"
begin

lemma sdk_returns_ok: "sdk_ok s \<Longrightarrow> op s = Some (r, s') \<Longrightarrow> sdk_ok s'"
  using keeps_sdk [of s r s'] by (simp add: sdk_same_def)

end

lemma bind_SomeE: "m \<bind> f = Some y \<Longrightarrow> (\<And>x. m = Some x \<Longrightarrow> f x = Some y \<Longrightarrow> P) \<Longrightarrow> P"
  by (cases m) simp_all

interpretation yield_call: sdk_call "IOT_MQTT_Yield e hnd ms" for e hnd ms
proof
  fix s r s' assume s: "sdk_ok s" and a: "IOT_MQTT_Yield e hnd ms s = Some (r, s')"
  then obtain c where "the_client hnd s = Some c" by (auto simp: IOT_MQTT_Yield_def bind_eq_Some_conv)
  with a s the_client_live [OF this] yielding.lifted [OF _ _ same_refl [OF s]] show "sdk_same s s'"
    by (cases c) (auto simp: IOT_MQTT_Yield_def same_refl)
qed

interpretation check_call: sdk_call "IOT_MQTT_CheckStateNormal hnd" for hnd
proof
  fix s r s' assume s: "sdk_ok s" and a: "IOT_MQTT_CheckStateNormal hnd s = Some (r, s')"
  then obtain c where c: "the_client hnd s = Some c" by (auto simp: IOT_MQTT_CheckStateNormal_def bind_eq_Some_conv)
  show "sdk_same s s'"
  proof (cases c)
    case True
    then have "api_ok (mqc s)" using s the_client_live [OF c] by (simp add: sdk_ok_def)
    from api_check_state [OF this] have "s' = s" using a c True by (simp add: IOT_MQTT_CheckStateNormal_def on_client_def)
    with same_refl [OF s] show ?thesis by simp
  qed (use a c s in \<open>simp add: IOT_MQTT_CheckStateNormal_def same_refl\<close>)
qed

interpretation subscribe_call: sdk_call "IOT_MQTT_Subscribe e hnd t q fp c" for e hnd t q fp c
proof
  fix s r s' assume s: "sdk_ok s" and a: "IOT_MQTT_Subscribe e hnd t q fp c s = Some (r, s')"
  then obtain cl where cl: "the_client hnd s = Some cl" by (auto simp: IOT_MQTT_Subscribe_def bind_eq_Some_conv)
  show "sdk_same s s'"
  proof (cases "t = None \<or> t = Some [] \<or> fp = None")
    case True
    with a cl s show ?thesis by (auto simp: IOT_MQTT_Subscribe_def same_refl)
  next
    case False
    with a cl s show ?thesis
      by (cases cl) (auto simp: IOT_MQTT_Subscribe_def bind_eq_Some_conv same_refl the_client_live intro: subscribing.after_event same_event)
  qed
qed

interpretation subscribe_sync_call: sdk_call "IOT_MQTT_Subscribe_Sync e hnd t q fp c ms" for e hnd t q fp c ms
proof
  fix s r s' assume s: "sdk_ok s" and a: "IOT_MQTT_Subscribe_Sync e hnd t q fp c ms s = Some (r, s')"
  then obtain cl where cl: "the_client hnd s = Some cl" by (auto simp: IOT_MQTT_Subscribe_Sync_def bind_eq_Some_conv)
  show "sdk_same s s'"
  proof (cases "t = None \<or> t = Some [] \<or> fp = None")
    case True
    with a cl s show ?thesis by (auto simp: IOT_MQTT_Subscribe_Sync_def same_refl)
  next
    case False
    with a cl s show ?thesis
      by (cases cl) (auto simp: IOT_MQTT_Subscribe_Sync_def bind_eq_Some_conv same_refl the_client_live intro: subscribing_sync.after_event same_event)
  qed
qed

interpretation unsubscribe_call: sdk_call "IOT_MQTT_Unsubscribe e hnd t" for e hnd t
proof
  fix s r s' assume s: "sdk_ok s" and a: "IOT_MQTT_Unsubscribe e hnd t s = Some (r, s')"
  then obtain cl where "the_client hnd s = Some cl" by (auto simp: IOT_MQTT_Unsubscribe_def bind_eq_Some_conv)
  note cl = this
  show "sdk_same s s'"
  proof (cases "\<not> cl \<or> t = None \<or> t = Some []")
    case True
    with a cl s show ?thesis by (auto simp: IOT_MQTT_Unsubscribe_def same_refl)
  next
    case False
    then obtain u where "cl" "t = Some u" "u \<noteq> []" by auto
    with a cl s show ?thesis
      by (auto simp: IOT_MQTT_Unsubscribe_def bind_eq_Some_conv the_client_live intro: unsubscribing.after_event)
  qed
qed

interpretation publish_call: sdk_call "IOT_MQTT_Publish e hnd t m" for e hnd t m
proof
  fix s r s' assume s: "sdk_ok s" and a: "IOT_MQTT_Publish e hnd t m s = Some (r, s')"
  then obtain cl where cl: "the_client hnd s = Some cl" by (auto simp: IOT_MQTT_Publish_def bind_eq_Some_conv)
  show "sdk_same s s'"
  proof (cases "\<not> cl \<or> t = None \<or> t = Some []")
    case True
    with a cl s show ?thesis by (auto simp: IOT_MQTT_Publish_def same_refl)
  next
    case False
    then obtain u where u: "cl" "t = Some u" "u \<noteq> []" by auto
    then have l: "live s" using the_client_live [OF cl] by blast
    show ?thesis
    proof (cases m)
      case None
      with a cl u s show ?thesis by (auto simp: IOT_MQTT_Publish_def bind_eq_Some_conv same_refl intro: same_event)
    next
      case (Some m')
      with a cl u obtain rc s1 ev code x where "on_client (wrapper_mqtt_publish (se_hal e) t m') s = Some (rc, s1)" "state_event ev code x s1 = Some s'"
        by (auto simp: IOT_MQTT_Publish_def bind_eq_Some_conv)
      with publishing.lifted [OF _ l same_refl [OF s]] show ?thesis by (blast intro: same_event)
    qed
  qed
qed

interpretation publish_simple_call: sdk_call "IOT_MQTT_Publish_Simple e hnd t q d n" for e hnd t q d n
proof
  fix s r s' assume s: "sdk_ok s" and a: "IOT_MQTT_Publish_Simple e hnd t q d n s = Some (r, s')"
  then obtain cl where cl: "the_client hnd s = Some cl" by (auto simp: IOT_MQTT_Publish_Simple_def bind_eq_Some_conv)
  show "sdk_same s s'"
  proof (cases "\<not> cl \<or> t = None \<or> t = Some []")
    case True
    with a cl s show ?thesis by (auto simp: IOT_MQTT_Publish_Simple_def same_refl)
  next
    case False
    then obtain u where u: "cl" "t = Some u" "u \<noteq> []" by auto
    then have l: "live s" using the_client_live [OF cl] by blast
    from a cl u obtain m rc s1 ev code x where "on_client (wrapper_mqtt_publish (se_hal e) t m) s = Some (rc, s1)" "state_event ev code x s1 = Some s'"
      by (auto simp: IOT_MQTT_Publish_Simple_def bind_eq_Some_conv)
    with publishing.lifted [OF _ l same_refl [OF s]] show ?thesis by (blast intro: same_event)
  qed
qed

interpretation ioctl_call: sdk_call "\<lambda>s. map_option (\<lambda>(rc, d, s). ((rc, d), s)) (IOT_Ioctl e opt d s)" for e opt d
  by unfold_locales (use ioctl_ok in \<open>fastforce simp: sdk_same_def\<close>)

section \<open>Construction and release\<close>

lemma same_set: "sdk_same s s1 \<Longrightarrow> mqc s2 = mqc s1 \<Longrightarrow> live s2 = live s1 \<Longrightarrow> g_mqtt_client s2 = g_mqtt_client s1 \<Longrightarrow> g_sdk_impl_ctx s2 = g_sdk_impl_ctx s1
    \<Longrightarrow> mqtt_domain_set s2 = mqtt_domain_set s1 \<Longrightarrow> g_impl_event_map s2 = g_impl_event_map s1 \<Longrightarrow> sdk_same s s2"
  by (auto simp: sdk_same_def sdk_ok_def)

lemma init_env:
  assumes "env_ok s" "wrapper_mqtt_init h p s = (False, s')"
  shows "env_ok s'"
proof -
  have z: "env_ok (client_zero t) = env_ok t" for t by (simp add: env_ok_def client_zero_def)
  have x: "env_ok t \<Longrightarrow> env_ok (snd (mc_init_exit rc st t))" for rc st t
    by (simp add: mc_init_exit_def Let_def env_ok_def iotx_mc_set_client_state_def HAL_MutexLock_def HAL_MutexUnlock_def HAL_MutexDestroy_def)
  have c: "env_ok t \<Longrightarrow> env_ok (snd (HAL_MutexCreate h t))" for t by (simp add: HAL_MutexCreate_def ticked_def env_ok_def Let_def)
  have q: "env_ok t \<Longrightarrow> env_ok (snd (mc_init_params p t))" for t
    by (cases "p_host p") (simp_all add: mc_init_params_def iotx_mc_set_connect_params_def iotx_net_init_def env_ok_def Let_def)
  have u: "env_ok (t\<lparr>lock_generic := b\<rparr>) = env_ok t" "env_ok (t\<lparr>lock_list_pub := b\<rparr>) = env_ok t" "env_ok (t\<lparr>lock_yield := b\<rparr>) = env_ok t"
    "env_ok (t\<lparr>lock_write_buf := b\<rparr>) = env_ok t" "env_ok (t\<lparr>lock_read_buf := b\<rparr>) = env_ok t" for t b by (simp_all add: env_ok_def)
  have i: "env_ok t \<Longrightarrow> env_ok (snd (iotx_mc_init h p t))" for t
    by (simp add: iotx_mc_init_def Let_def split_beta x c q u)
  have m: "env_ok (snd (HAL_Malloc h n t)) = env_ok t" for n t by (simp add: HAL_Malloc_def ticked_def env_ok_def)
  have n: "env_ok (snd (iotx_mc_init h p (client_zero (snd (HAL_Malloc h n s)))))" for n by (rule i) (simp add: z m assms(1))
  show ?thesis using assms by (auto simp: wrapper_mqtt_init_def Let_def split_beta m z n split: if_split_asm)
qed

lemma same_report_id: "sdk_same s s1 \<Longrightarrow> iotx_report_id s1 = (i, s2) \<Longrightarrow> sdk_same s s2"
  by (erule same_set) (auto simp: iotx_report_id_def)

lemma firmware_ok:
  assumes s: "sdk_ok s" and a: "iotx_report_firmware_version e hnd s = Some (r, s')"
  shows "sdk_same s s'"
proof (cases "info_report_func s")
  case True
  obtain ret v where v: "se_firmware e = (ret, v)" by (cases "se_firmware e")
  from a True obtain pk dn where pk: "get_text e IOTX_IOCTL_GET_PRODUCT_KEY 21 s = Some pk" "get_text e IOTX_IOCTL_GET_DEVICE_NAME 33 s = Some dn"
    by (auto simp: iotx_report_firmware_version_def bind_eq_Some_conv)
  note a = a [unfolded iotx_report_firmware_version_def pk v]
  let ?s1 = "s\<lparr>g_report_id := g_report_id s + 1\<rparr>"
  have i: "iotx_report_id s = (g_report_id s, ?s1)" by (simp add: iotx_report_id_def)
  have s1: "sdk_same s ?s1" by (rule same_set [OF same_refl [OF s]]) simp_all
  show ?thesis
  proof (cases "s' = s \<or> s' = ?s1")
    case True
    with s1 same_refl [OF s] show ?thesis by blast
  next
    case False
    with a True obtain t m n r' where "IOT_MQTT_Publish_Simple e hnd t 1 m n ?s1 = Some (r', s')"
      by (auto simp: i snprintf_text_def Let_def bind_eq_Some_conv split: if_split_asm)
    then show ?thesis using publish_simple_call.keeps_sdk s1 by (blast intro: same_trans sdk_same_def [THEN iffD1, THEN conjunct1])
  qed
qed (use a same_refl [OF s] in \<open>simp add: iotx_report_firmware_version_def\<close>)

lemma report_funcs_ok:
  assumes s: "sdk_ok s" and a: "iotx_mqtt_report_funcs e hnd s = Some s'"
  shows "sdk_same s s'"
proof -
  have "sdk_same s (iotx_set_report_func s)" by (rule same_set [OF same_refl [OF s]]) (simp_all add: iotx_set_report_func_def)
  with a firmware_ok [of "iotx_set_report_func s"] show ?thesis
    by (auto simp: iotx_mqtt_report_funcs_def sdk_same_def)
qed

lemma report_params_ok: "sdk_ok s \<Longrightarrow> report_params p s = Some s' \<Longrightarrow> sdk_same s s'"
  by (auto simp: report_params_def bind_eq_Some_conv dest!: event_ok simp: sdk_same_def)

lemma tick_api: "api_ok (m\<lparr>tick := k\<rparr>) = api_ok m" "env_ok (m\<lparr>tick := k\<rparr>) = env_ok m"
  by (simp_all add: api_ok_def ok_def alive_def env_ok_def)

lemma uptime_ok: "sdk_same s s1 \<Longrightarrow> sdk_uptime e s1 = (now, s2) \<Longrightarrow> sdk_same s s2"
  by (auto simp: sdk_uptime_def sdk_same_def sdk_ok_def MQTT_Client_State.HAL_UptimeMs_def ticked_def tick_api)

text \<open>Outside of a call the interface knows exactly the allocated client.\<close>

definition sdk_idle :: "sdk \<Rightarrow> bool" where
  "sdk_idle s \<longleftrightarrow> sdk_ok s \<and> live s = g_mqtt_client s"

lemma idle_same: "sdk_idle s \<Longrightarrow> sdk_same s s' \<Longrightarrow> sdk_idle s'"
  by (auto simp: sdk_idle_def sdk_same_def)

lemma same_told: "sdk_same s (case t of None \<Rightarrow> s1 | Some ev \<Rightarrow> s1\<lparr>sdk_events := sdk_events s1 @ [ev]\<rparr>) = sdk_same s s1"
  by (cases t) (simp_all add: sdk_same_def sdk_ok_def)

lemma dynamic_register_ok:
  assumes s: "sdk_ok s" and a: "iotx_dynamic_register e region meta s = Some (r, m, s')"
  shows "sdk_same s s'"
proof -
  obtain res sec where d: "se_dynreg e region meta = (res, sec)" by (cases "se_dynreg e region meta")
  have i: "sdk_same s s1" if "IOT_Ioctl e IOTX_IOCTL_SET_DEVICE_SECRET (D_chars sec) s = Some (rc, x, s1)" for rc x s1
    using ioctl_ok [OF that s] by (simp add: sdk_same_def)
  show ?thesis using a same_refl [OF s]
    by (auto simp: iotx_dynamic_register_def d Let_def same_told i elim!: bind_SomeE split: if_split_asm)
qed

lemma construct_meta_ok:
  assumes s: "sdk_ok s" and a: "construct_meta e region dyn s = Some (m, s')"
  shows "sdk_same s s'"
proof -
  have "sdk_same s s'" if "construct_secret e region dyn meta s = Some (m, s')" for meta
    using that same_refl [OF s] dynamic_register_ok [OF s]
    by (auto simp: construct_secret_def bind_eq_Some_conv Let_def intro: same_event split: if_split_asm)
  with a same_refl [OF s] show ?thesis
    by (auto simp: construct_meta_def bind_eq_Some_conv intro: same_event split: if_split_asm)
qed

lemma construct_sign_frame:
  assumes "construct_sign e region meta info itls s = Some (r, s')"
  shows "\<exists>sg. s' = s\<lparr>g_default_sign := sg\<rparr>"
  using assms by (auto simp: construct_sign_def bind_eq_Some_conv Let_def split: if_split_asm)

lemma construct_sign_ok:
  assumes "sdk_ok s" "construct_sign e region meta info itls s = Some (r, s')"
  shows "sdk_same s s'"
  using construct_sign_frame [OF assms(2)] by (elim exE) (rule same_set [OF same_refl [OF assms(1)]], simp_all)

lemma init_sdk:
  assumes s: "sdk_ok s" "\<not> live s" "\<not> g_mqtt_client s" and i: "wrapper_mqtt_init h p (mqc s) = (r, m)"
  shows "sdk_ok (s\<lparr>mqc := m, live := r\<rparr>)"
proof -
  have e: "env_ok (mqc s)" using s by (simp add: sdk_ok_def)
  have "if r then api_ok m else env_ok m" using init_ok [OF e] init_env [OF e] i by (cases r) auto
  with s show ?thesis by (simp add: sdk_ok_def)
qed

lemma release_idle:
  assumes s: "sdk_ok s" "live s" and a: "on_client (wrapper_mqtt_release h) s = Some (r, s1)"
  shows "sdk_idle (s1\<lparr>live := False, g_mqtt_client := False\<rparr>)"
proof -
  from a obtain m where m: "wrapper_mqtt_release h (mqc s) = Some (r, m)" "s1 = s\<lparr>mqc := m\<rparr>" by (auto simp: on_client_def)
  have "env_ok m" using s release_ok [OF _ m(1)] by (simp add: sdk_ok_def)
  with s m(2) show ?thesis by (simp add: sdk_idle_def sdk_ok_def)
qed

text \<open>Construction of the client itself, from an idle state without one: a client is returned exactly when it is left allocated.\<close>

lemma connected_idle: "sdk_ok s1 \<Longrightarrow> live s1 \<Longrightarrow> s2 = s1\<lparr>g_mqtt_client := True\<rparr> \<Longrightarrow>
    s' = (case cb of None \<Rightarrow> s2 | Some c \<Rightarrow> s2\<lparr>sdk_events := sdk_events s2 @ [Se_connected c]\<rparr>) \<Longrightarrow> sdk_idle s' \<and> g_mqtt_client s'"
  by (cases cb) (simp_all add: sdk_idle_def sdk_ok_def)

lemma construct_client_ok:
  assumes s: "sdk_idle s" "\<not> g_mqtt_client s" and a: "construct_client e p s = Some (r, s')"
  shows "sdk_idle s' \<and> r = g_mqtt_client s'"
proof -
  obtain made m where i: "wrapper_mqtt_init (se_hal e) p (mqc s) = (made, m)" by (cases "wrapper_mqtt_init (se_hal e) p (mqc s)")
  let ?s = "s\<lparr>mqc := m, live := made\<rparr>"
  have ok: "sdk_ok ?s" using s by (intro init_sdk [OF _ _ _ i]) (simp_all add: sdk_idle_def)
  note run = a [unfolded construct_client_def i Let_def prod.case]
  show ?thesis
  proof (cases made)
    case False
    with run have "\<not> r" "\<exists>ev code x. state_event ev code x ?s = Some s'" by (auto elim!: bind_SomeE)
    then have "\<not> r" "sdk_same ?s s'" using same_event [OF _ same_refl [OF ok]] by auto
    with s False show ?thesis by (simp add: sdk_same_def sdk_idle_def)
  next
    case True
    obtain s1 where s1: "report_params p ?s = Some s1" using run True by (auto elim!: bind_SomeE)
    obtain t0 s2 where s2: "sdk_uptime e s1 = (t0, s2)" by (cases "sdk_uptime e s1")
    have k2: "sdk_same ?s s2" by (rule uptime_ok [OF report_params_ok [OF ok s1] s2])
    then have l2: "sdk_ok s2" "live s2" "\<not> g_mqtt_client s2" using True s by (simp_all add: sdk_same_def)
    obtain ret s3 where s3: "on_client (wrapper_mqtt_connect (se_hal e)) s2 = Some (ret, s3)"
      using run True s1 s2 by (auto elim!: bind_SomeE)
    from connecting.lifted [OF s3 l2(2) k2] have k3: "sdk_same ?s s3" .
    show ?thesis
    proof (cases "ret < STATE_SUCCESS \<and> ret \<noteq> MQTT_CONNECT_BLOCK")
      case bad: True
      obtain s4 x s5 where s4: "state_event ITE_STATE_MQTT_COMM ret (Some (c_lit ''mqtt connect failed - ret = '' @ fmt_int ret)) s3 = Some s4" "on_client (wrapper_mqtt_release (se_hal e)) s4 = Some (x, s5)"
        "\<not> r" "s' = s5\<lparr>live := False\<rparr>" using run True s1 s2 s3 bad by (auto elim!: bind_SomeE)
      then have k4: "sdk_same ?s s4" using same_event k3 by blast
      then have l4: "sdk_ok s4" "live s4" "\<not> g_mqtt_client s4" using True s by (simp_all add: sdk_same_def)
      then have "\<not> g_mqtt_client s5" using s4(2) by (auto simp: on_client_def)
      then have "s5\<lparr>live := False, g_mqtt_client := False\<rparr> = s'" using s4(4) by simp
      with release_idle [OF l4(1,2) s4(2)] s4(3) show ?thesis by (auto simp: sdk_idle_def)
    next
      case False
      obtain t1 s4 where s4: "sdk_uptime e s3 = (t1, s4)" by (cases "sdk_uptime e s3")
      have k4: "sdk_same ?s s4" by (rule uptime_ok [OF k3 s4])
      obtain s5 s6 where s5: "state_event ITE_STATE_MQTT_COMM STATE_SUCCESS (Some (c_lit ''mqtt connected in '' @ fmt_int (sint (t1 - t0)) @ c_lit '' ms'')) s4 = Some s5" "iotx_mqtt_report_funcs e True s5 = Some s6" and r: "r"
        and s': "s' = (case iotx_event_callback ITE_MQTT_CONNECT_SUCC (s6\<lparr>g_mqtt_client := True\<rparr>) of None \<Rightarrow> s6\<lparr>g_mqtt_client := True\<rparr>
             | Some c \<Rightarrow> (s6\<lparr>g_mqtt_client := True\<rparr>)\<lparr>sdk_events := sdk_events (s6\<lparr>g_mqtt_client := True\<rparr>) @ [Se_connected c]\<rparr>)"
        using run True s1 s2 s3 s4 False by (auto elim!: bind_SomeE)
      have k5: "sdk_same ?s s5" using s5(1) same_event k4 by blast
      then have "sdk_same s5 s6" using report_funcs_ok [OF _ s5(2)] by (simp add: sdk_same_def)
      then have "sdk_ok s6" "live s6" using k5 True by (simp_all add: sdk_same_def)
      from connected_idle [OF this refl s'] r show ?thesis by simp
    qed
  qed
qed

lemma construct_ok:
  assumes s: "sdk_idle s" and a: "IOT_MQTT_Construct e p s = Some (r, s')"
  shows "sdk_idle s' \<and> r = g_mqtt_client s'"
proof (cases "g_mqtt_client s")
  case False
  obtain m s1 where m: "construct_meta e (domain_type (g_sdk_impl_ctx s)) (dynamic_register (g_sdk_impl_ctx s)) s = Some (m, s1)"
    using a False by (auto simp: IOT_MQTT_Construct_def Let_def elim!: bind_SomeE)
  note run = a [unfolded IOT_MQTT_Construct_def if_not_P [OF False] Let_def m bind.bind_lunit prod.case]
  have ok: "sdk_ok s" using s by (simp add: sdk_idle_def)
  have k1: "sdk_same s s1" by (rule construct_meta_ok [OF ok m])
  show ?thesis
  proof (cases m)
    case None
    with run k1 idle_same [OF s k1] False show ?thesis by (auto simp: sdk_same_def)
  next
    case (Some meta)
    let ?info = "p \<bind> p_customize_info"
    obtain ret s2 where g: "construct_sign e (domain_type (g_sdk_impl_ctx s)) meta ?info (wants_itls ?info) s1 = Some (ret, s2)"
      using run Some by (auto elim!: bind_SomeE)
    have "sdk_same s1 s2" using construct_sign_ok [OF _ g] k1 by (simp add: sdk_same_def)
    with k1 have k2: "sdk_same s s2" by (rule same_trans)
    show ?thesis
    proof (cases "ret < STATE_SUCCESS")
      case True
      then have "\<not> r \<and> sdk_same s s'" using run Some g k2 by (auto elim!: bind_SomeE intro: same_event)
      with idle_same [OF s] False show ?thesis by (auto simp: sdk_same_def)
    next
      case ret: False
      then obtain itls ps where c: "construct_client e ps (s2\<lparr>iotx_ca_crt_itls := itls\<rparr>) = Some (r, s')"
        using run Some g by (auto elim!: bind_SomeE)
      have "sdk_same s (s2\<lparr>iotx_ca_crt_itls := itls\<rparr>)" by (rule same_set [OF k2]) simp_all
      with idle_same [OF s this] False construct_client_ok [OF _ _ c] show ?thesis by (simp add: sdk_same_def)
    qed
  qed
qed (use s a in \<open>simp add: IOT_MQTT_Construct_def\<close>)

lemma destroy_ok:
  assumes s: "sdk_idle s" and a: "IOT_MQTT_Destroy e ph s = Some (r, s')"
  shows "sdk_idle s'"
  using a s release_idle [of s "se_hal e"]
  by (auto simp: IOT_MQTT_Destroy_def Let_def sdk_idle_def split: if_split_asm elim!: bind_SomeE)

lemma devinfo_ok:
  assumes s: "sdk_ok s" and a: "iotx_report_devinfo e hnd s = Some (r, s')"
  shows "sdk_same s s'"
proof (cases "info_report_func s")
  case True
  from a True obtain pk dn where pk: "get_text e IOTX_IOCTL_GET_PRODUCT_KEY 21 s = Some pk" "get_text e IOTX_IOCTL_GET_DEVICE_NAME 33 s = Some dn"
    by (auto simp: iotx_report_devinfo_def bind_eq_Some_conv)
  obtain got m where g: "HAL_Malloc (se_hal e) devinfo_len (mqc s) = (got, m)" by (cases "HAL_Malloc (se_hal e) devinfo_len (mqc s)")
  let ?s1 = "s\<lparr>mqc := m\<rparr>" and ?s2 = "s\<lparr>mqc := m, g_report_id := g_report_id s + 1\<rparr>"
  have i: "iotx_report_id ?s1 = (g_report_id s, ?s2)" by (simp add: iotx_report_id_def)
  have s1: "sdk_same s ?s1" using s g by (auto simp: HAL_Malloc_def ticked_def sdk_same_def sdk_ok_def tick_api)
  have s2: "sdk_same s ?s2" by (rule same_set [OF s1]) simp_all
  note a = a [unfolded iotx_report_devinfo_def pk]
  show ?thesis
  proof (cases "s' = s \<or> s' = ?s1 \<or> s' = ?s2")
    case True
    with s1 s2 same_refl [OF s] show ?thesis by blast
  next
    case False
    with a True i g obtain t x n r' where "IOT_MQTT_Publish_Simple e hnd t 1 x n ?s2 = Some (r', s')"
      by (auto simp: snprintf_text_def Let_def bind_eq_Some_conv split: if_split_asm)
    then show ?thesis using publish_simple_call.keeps_sdk s2 by (blast intro: same_trans sdk_same_def [THEN iffD1, THEN conjunct1])
  qed
qed (use a same_refl [OF s] in \<open>simp add: iotx_report_devinfo_def\<close>)

end
