(* ===== verification/MQTT_Client_Wire.thy ===== *)
theory MQTT_Client_Wire
  imports MQTT_Client_Api MQTT_Codec_Props
begin

text \<open>
  What the client puts on the wire when it connects: the bytes written before anything else are CONNECT packets with the
  credentials it was initialised with.  The ghost field \<open>sent\<close> collects the bytes of all writes; every operation appends to it.
\<close>

section \<open>Transmission\<close>

text \<open>The server a client is bound to, and what is observed of the wire.\<close>

abbreviation endpoint :: "mc \<Rightarrow> bytes option \<times> u16 \<times> bytes option" where
  "endpoint s \<equiv> (pHostAddress (ipstack s), utils_network_t.port (ipstack s), ca_crt (ipstack s))"

abbreviation wire :: "mc \<Rightarrow> bytes \<times> bytes option \<times> u16 \<times> bytes option" where
  "wire s \<equiv> (sent s, endpoint s)"

lemma send_loop_sent:
  "send_loop h t bs n s = Some y \<Longrightarrow> n \<le> fst y \<and> sent (snd y) = sent s @ take (fst y - n) (drop n bs)"
proof (erule send_loop.raw_induct [rotated, where P = "\<lambda>h t bs n s y. n \<le> fst y \<and> sent (snd y) = sent s @ take (fst y - n) (drop n bs)"])
  fix send h t bs n s y
  assume IH: "\<And>h t bs n s y. send h t bs n s = Some y \<Longrightarrow> n \<le> fst y \<and> sent (snd y) = sent s @ take (fst y - n) (drop n bs)"
    and eq: "(if n < length bs then let (expired, s) = time_is_expired h t s in
       if expired then Some (n, s)
       else let (left_t, s) = time_left_1 h t s; (rc, s) = utils_net_write h (drop n bs) left_t s
            in if rc < 0 then Some (n, s) else send h t bs (n + nat rc) s
     else Some (n, s)) = Some y"
  define s1 where "s1 = snd (time_left_1 h t (snd (time_is_expired h t s)))"
  define l where "l = fst (time_left_1 h t (snd (time_is_expired h t s)))"
  define rc where "rc = fst (utils_net_write h (drop n bs) l s1)"
  define s2 where "s2 = snd (utils_net_write h (drop n bs) l s1)"
  have s2: "sent s2 = sent s @ take (nat rc) (drop n bs)" by (simp add: s2_def s1_def rc_def prim_simps)
  consider "y = (n, s)" | "y = (n, snd (time_is_expired h t s))" | "rc < 0" "y = (n, s2)" | "0 \<le> rc" "send h t bs (n + nat rc) s2 = Some y"
    using eq by (fastforce simp: split_beta Let_def s2_def s1_def l_def rc_def split: if_splits)
  then show "n \<le> fst y \<and> sent (snd y) = sent s @ take (fst y - n) (drop n bs)"
  proof cases
    case 4
    from IH [OF 4(2)] have y: "n + nat rc \<le> fst y" "sent (snd y) = sent s2 @ take (fst y - (n + nat rc)) (drop (n + nat rc) bs)" by simp_all
    have "take (fst y - n) (drop n bs) = take (nat rc) (drop n bs) @ take (fst y - (n + nat rc)) (drop (n + nat rc) bs)"
      using y(1) take_add [of "nat rc" "fst y - (n + nat rc)" "drop n bs"] by (simp add: add.commute)
    with y s2 show ?thesis by simp
  qed (use s2 in \<open>simp_all add: prim_simps\<close>)
qed

lemma send_packet_sent:
  assumes "iotx_mc_send_packet h buf len t s = Some (r, s')"
  shows "\<exists>k m. s' = s\<lparr>tick := k, sent := sent s @ take m (take len buf)\<rparr> \<and> (r = STATE_SUCCESS \<longrightarrow> m = len)"
proof -
  obtain m where m: "send_loop h t (take len buf) 0 s = Some (m, s')" "r = (if m = len then STATE_SUCCESS else STATE_SYS_DEPEND_NWK_CLOSE)"
    using assms by (auto simp: iotx_mc_send_packet_def load_n_def split: Option.bind_splits if_splits)
  from send_loop_sent [OF m(1)] send_loop_effect [OF m(1)] m(2) show ?thesis by (auto simp: sent_only_def)
qed

lemma wp_wire:
  "(\<And>r k m. r = STATE_SUCCESS \<or> r = STATE_SYS_DEPEND_NWK_CLOSE \<Longrightarrow> (r = STATE_SUCCESS \<Longrightarrow> m = len)
      \<Longrightarrow> wp Q (f (r, s\<lparr>tick := k, sent := sent s @ take m (take len buf)\<rparr>))) \<Longrightarrow>
   wp Q (iotx_mc_send_packet h buf len t s \<bind> f)"
proof (rule wp_call [where R = "\<lambda>r s'. (r = STATE_SUCCESS \<or> r = STATE_SYS_DEPEND_NWK_CLOSE)
    \<and> (\<exists>k m. s' = s\<lparr>tick := k, sent := sent s @ take m (take len buf)\<rparr> \<and> (r = STATE_SUCCESS \<longrightarrow> m = len))"])
  show "wp (\<lambda>r s'. (r = STATE_SUCCESS \<or> r = STATE_SYS_DEPEND_NWK_CLOSE)
    \<and> (\<exists>k m. s' = s\<lparr>tick := k, sent := sent s @ take m (take len buf)\<rparr> \<and> (r = STATE_SUCCESS \<longrightarrow> m = len))) (iotx_mc_send_packet h buf len t s)"
    using send_packet_effect [of s h buf len t] send_packet_sent [of h buf len t s] by (auto simp: wp_def)
qed auto

section \<open>The CONNECT packet\<close>

text \<open>A CONNECT packet of MQTT 3.1.1 without a will.\<close>

definition connect_packet :: "bytes \<Rightarrow> bytes \<Rightarrow> bytes \<Rightarrow> byte \<Rightarrow> u16 \<Rightarrow> bytes" where
  "connect_packet cid user pw clean ka = mqtt_frame 0x10 (utf_bytes str_MQTT @ [4, if clean \<noteq> 0 then 0xC2 else 0xC0]
     @ int16_bytes (uint ka) @ utf_bytes cid @ utf_bytes user @ utf_bytes pw)"

definition has_credentials :: "bytes \<Rightarrow> bytes \<Rightarrow> bytes \<Rightarrow> byte \<Rightarrow> MQTTPacket_connectData \<Rightarrow> bool" where
  "has_credentials cid user pw clean d \<longleftrightarrow> (\<exists>ka. d = MQTTPacket_connectData_initializer\<lparr>keepAliveInterval := ka, clientID := cstring_of (Some cid),
     username := cstring_of (Some user), password := cstring_of (Some pw), cleansession := clean\<rparr>)
     \<and> length cid + length user + length pw < 268435000"

lemma credentials_keep: "has_credentials cid user pw clean d \<Longrightarrow> has_credentials cid user pw clean (d\<lparr>keepAliveInterval := k\<rparr>)"
  by (auto simp: has_credentials_def MQTTPacket_connectData_initializer_def)

lemma credentials_packet:
  assumes "has_credentials cid user pw clean d"
  shows "connect_ok d" "mqtt_frame 0x10 (connect_body d) = connect_packet cid user pw clean (keepAliveInterval d)"
    "length (connect_body d) = length cid + length user + length pw + 16"
proof -
  from assms obtain ka where d: "d = MQTTPacket_connectData_initializer\<lparr>keepAliveInterval := ka, clientID := cstring_of (Some cid),
     username := cstring_of (Some user), password := cstring_of (Some pw), cleansession := clean\<rparr>" and l: "length cid + length user + length pw < 268435000"
    by (auto simp: has_credentials_def)
  have f: "MQTT_connect_flags d = (if clean \<noteq> 0 then 0xC2 else 0xC0)"
    by (simp add: d MQTT_connect_flags_def MQTTPacket_connectData_initializer_def cstring_of_def string_given_def)
  have b: "connect_body d = utf_bytes str_MQTT @ [4, if clean \<noteq> 0 then 0xC2 else 0xC0] @ int16_bytes (uint ka) @ utf_bytes cid @ utf_bytes user @ utf_bytes pw"
    unfolding connect_body_def f by (simp add: d connect_proto_def MQTTPacket_connectData_initializer_def cstring_of_def string_given_def mqtt_text_def)
  have n: "length (connect_body d) < 268435456" using l unfolding b by (simp add: str_MQTT_def)
  show "length (connect_body d) = length cid + length user + length pw + 16" unfolding b by (simp add: str_MQTT_def)
  show "connect_ok d" using n
    by (simp add: connect_ok_def d MQTTPacket_connectData_initializer_def MQTTPacket_willOptions_initializer_def cstring_of_def mqtt_string_ok_def MQTTString_initializer_def)
  show "mqtt_frame 0x10 (connect_body d) = connect_packet cid user pw clean (keepAliveInterval d)" unfolding b by (simp add: connect_packet_def d)
qed

lemma s32_below: "to_s32 (int n) \<le> int n"
proof -
  have "to_s32 (int n) = (int n + 2147483648) mod 4294967296 - 2147483648" by (simp add: to_s32_def)
  with zmod_le_nonneg_dividend [of "int n + 2147483648" 4294967296] show ?thesis by linarith
qed

lemma whole_part: "\<exists>m. xs = take m xs"
  by (rule exI [of _ "length xs"]) simp

text \<open>One attempt writes the packet, or a part of it.\<close>

lemma MQTTConnect_sent:
  assumes "has_credentials cid user pw clean (connect_data s)"
  defines "out \<equiv> connect_packet cid user pw clean (keepAliveInterval (connect_data s))"
  shows "wp (\<lambda>r s'. connect_data s' = connect_data s \<and> endpoint s' = endpoint s \<and> r \<noteq> -44 \<and> (\<exists>m. sent s' = sent s @ take m out) \<and> (STATE_SUCCESS \<le> r \<longrightarrow> sent s' = sent s @ out)) (MQTTConnect h s)"
proof -
  note c = credentials_packet [OF assms(1), folded out_def]
  have ser: "MQTTSerialize_connect (replicate n 0) (to_s32 (int n)) (connect_data s) =
      (if to_s32 (int n) < MQTTPacket_len (int (length (connect_body (connect_data s)))) then Some (-2, replicate n 0)
       else Some (int (length out), out @ drop (length out) (replicate n 0)))" for n
    using connect_framed [OF c(1), of "to_s32 (int n)" "replicate n 0"] s32_below [of n] c(2) by simp
  show ?thesis unfolding MQTTConnect_def Let_def
    by (auto simp: prim_simps send_exit_def Let_def split_beta ser intro!: wp_if wp_wire intro: exI [of _ 0] whole_part)
qed

section \<open>Waiting for the answer\<close>

definition quiet :: "mc \<Rightarrow> mc \<Rightarrow> bool" where
  "quiet s s' \<longleftrightarrow> wire s' = wire s \<and> connect_data s' = connect_data s"

lemma quiet_trans: "quiet s s' \<Longrightarrow> quiet s' s'' \<Longrightarrow> quiet s s''"
  by (simp add: quiet_def)

lemma read_packet_quiet: "wp (\<lambda>r s'. quiet s s') (iotx_mc_read_packet h t p s)"
  unfolding iotx_mc_read_packet_def Let_def bind_if iotx_mc_decode_packet_def
  by (intro wp_if wp_SomeI wp_binds; auto simp: prim_simps quiet_def)

lemma wait_loop_quiet: "wp (\<lambda>r s'. quiet s s') (wait_connack_loop h t n p s)"
proof (induction "10 - n" arbitrary: n p s rule: less_induct)
  case less
  have IH: "wp (\<lambda>r s'. quiet s s') (wait_connack_loop h t (Suc n) q s')" if "quiet s s'" "Suc n \<le> 10" for q s'
    by (rule wp_mono [OF less.hyps [of "Suc n" s' q]]) (use that in \<open>auto intro: quiet_trans\<close>)
  have ack: "wp (\<lambda>r s'. quiet s s') (iotx_mc_handle_recv_CONNACK (HAL_MutexLock Lock_read_buf s')
        \<bind> (\<lambda>rc. Some (rc, HAL_MutexUnlock Lock_read_buf (snd (reset_recv_buffer (HAL_MutexLock Lock_read_buf s'))))))"
    if "quiet s s'" for s'
    using that by (intro wp_opt) (auto simp: prim_simps quiet_def)
  have exit: "quiet s (recv_reset_locked s')" if "quiet s s'" for s' using that by (simp add: prim_simps quiet_def)
  show ?case unfolding wait_connack_loop.simps [of h t n p s] Let_def
    by (rule wp_call [OF read_packet_quiet]) (auto simp: not_less intro!: wp_if exit IH ack)
qed

lemma wait_CONNACK_quiet: "wp (\<lambda>r s'. quiet s s') (iotx_mc_wait_CONNACK h s)"
  unfolding iotx_mc_wait_CONNACK_def Let_def
  by (rule wp_prims(4), rule wp_mono [OF wait_loop_quiet]) (simp add: quiet_def)

section \<open>Connecting\<close>

text \<open>Attempts before the one that succeeds: each has written a CONNECT packet with these credentials, or a part of one.\<close>

definition attempts :: "bytes \<Rightarrow> bytes \<Rightarrow> bytes \<Rightarrow> byte \<Rightarrow> bytes list \<Rightarrow> bool" where
  "attempts cid user pw clean xs \<longleftrightarrow> (\<forall>x \<in> set xs. \<exists>m ka. x = take m (connect_packet cid user pw clean ka))"

definition greets :: "bytes \<Rightarrow> bytes \<Rightarrow> bytes \<Rightarrow> byte \<Rightarrow> bytes \<Rightarrow> bytes \<Rightarrow> bool" where
  "greets cid user pw clean old new \<longleftrightarrow> (\<exists>xs. attempts cid user pw clean xs \<and> new = old @ concat xs)"

definition connected_with :: "bytes \<Rightarrow> bytes \<Rightarrow> bytes \<Rightarrow> byte \<Rightarrow> bytes \<Rightarrow> bytes \<Rightarrow> bool" where
  "connected_with cid user pw clean old new \<longleftrightarrow>
     (\<exists>xs ka rest. attempts cid user pw clean xs \<and> new = old @ concat xs @ connect_packet cid user pw clean ka @ rest)"

lemma greets_refl: "greets cid user pw clean old old"
  by (auto simp: greets_def attempts_def intro: exI [of _ "[]"])

lemma greets_part: "greets cid user pw clean old (old @ take m (connect_packet cid user pw clean ka))"
  unfolding greets_def attempts_def by (rule exI [of _ "[take m (connect_packet cid user pw clean ka)]"]) auto

lemma greets_trans: "greets cid user pw clean a b \<Longrightarrow> greets cid user pw clean b c \<Longrightarrow> greets cid user pw clean a c"
proof (unfold greets_def, elim exE conjE)
  fix xs ys assume "attempts cid user pw clean xs" "b = a @ concat xs" "attempts cid user pw clean ys" "c = b @ concat ys"
  then show "\<exists>xs. attempts cid user pw clean xs \<and> c = a @ concat xs"
    by (intro exI [of _ "xs @ ys"]) (auto simp: attempts_def)
qed

lemma connected_trans: "greets cid user pw clean a b \<Longrightarrow> connected_with cid user pw clean b c \<Longrightarrow> connected_with cid user pw clean a c"
proof (unfold greets_def connected_with_def, elim exE conjE)
  fix xs ys ka rest assume "attempts cid user pw clean xs" "b = a @ concat xs" "attempts cid user pw clean ys"
    "c = b @ concat ys @ connect_packet cid user pw clean ka @ rest"
  then show "\<exists>xs ka rest. attempts cid user pw clean xs \<and> c = a @ concat xs @ connect_packet cid user pw clean ka @ rest"
    by (intro exI [of _ "xs @ ys"] exI [of _ ka]) (auto simp: attempts_def)
qed

lemma connected_more: "connected_with cid user pw clean a b \<Longrightarrow> connected_with cid user pw clean a (b @ behind)"
proof (unfold connected_with_def, elim exE conjE)
  fix xs ka rest assume "attempts cid user pw clean xs" "b = a @ concat xs @ connect_packet cid user pw clean ka @ rest"
  then have "attempts cid user pw clean xs \<and> b @ behind = a @ concat xs @ connect_packet cid user pw clean ka @ (rest @ behind)" by simp
  then show "\<exists>xs ka rest. attempts cid user pw clean xs \<and> b @ behind = a @ concat xs @ connect_packet cid user pw clean ka @ rest" by blast
qed

lemma connected_now: "connected_with cid user pw clean old (old @ connect_packet cid user pw clean ka)"
  unfolding connected_with_def attempts_def by (rule exI [of _ "[]"]) auto

lemma connect_loop_wire:
  "has_credentials cid user pw clean (connect_data s) \<Longrightarrow> n < 9 \<Longrightarrow>
   wp (\<lambda>r s'. endpoint s' = endpoint s \<and> greets cid user pw clean (sent s) (sent s') \<and> (case r of Inl rc \<Rightarrow> rc < 0 \<and> rc \<noteq> -44
       | Inr k \<Rightarrow> k \<noteq> 9 \<longrightarrow> connected_with cid user pw clean (sent s) (sent s'))) (mqtt_connect_loop h ka n s)"
proof (induction "9 - n" arbitrary: n s rule: less_induct)
  case less
  let ?Q = "\<lambda>r (s' :: mc). endpoint s' = endpoint s \<and> greets cid user pw clean (sent s) (sent s') \<and> (case r of Inl rc \<Rightarrow> rc < 0 \<and> rc \<noteq> -44
       | Inr k \<Rightarrow> k \<noteq> 9 \<longrightarrow> connected_with cid user pw clean (sent s) (sent s'))"
  have IH: "wp ?Q (mqtt_connect_loop h ka (Suc n) s')"
    if "n < 8" "has_credentials cid user pw clean (connect_data s')" "greets cid user pw clean (sent s) (sent s')" "endpoint s' = endpoint s" for s'
    by (rule wp_mono [OF less.hyps [of "Suc n" s']])
      (use that in \<open>auto split: sum.splits intro: greets_trans connected_trans\<close>)
  show ?case unfolding mqtt_connect_loop.simps [of h ka n s] Let_def
  proof (rule wp_call [OF MQTTConnect_sent [OF less.prems(1)]], unfold prod.case, intro wp_if)
    fix r and s' :: mc
    let ?out = "connect_packet cid user pw clean (keepAliveInterval (connect_data s))"
    let ?s = "s'\<lparr>connect_data := (connect_data s')\<lparr>keepAliveInterval := ka\<rparr>\<rparr>"
    assume a: "connect_data s' = connect_data s \<and> endpoint s' = endpoint s \<and> r \<noteq> -44 \<and> (\<exists>m. sent s' = sent s @ take m ?out) \<and> (STATE_SUCCESS \<le> r \<longrightarrow> sent s' = sent s @ ?out)"
    have g: "greets cid user pw clean (sent s) (sent s')" using a greets_part by metis
    have d: "has_credentials cid user pw clean (connect_data ?s)" using a less.prems(1) by (simp add: credentials_keep)
    show "wp ?Q (Some (Inl r, snd (iotx_net_disconnect ?s)))" if "r < STATE_SUCCESS" using a g that by (simp add: prim_simps)
    assume "\<not> r < STATE_SUCCESS"
    with a have c: "connected_with cid user pw clean (sent s) (sent s')" using connected_now by fastforce
    show "wp ?Q (iotx_mc_wait_CONNACK h ?s \<bind> (\<lambda>(rc, s).
       if rc \<le> STATE_MQTT_CONNACK_VERSION_UNACCEPT \<and> rc \<ge> STATE_MQTT_CONNACK_NOT_AUTHORIZED then Some (Inl rc, snd (iotx_net_disconnect s))
       else if STATE_SUCCESS \<noteq> rc then
         if n + 1 < RETRY_TIME_LIMIT then mqtt_connect_loop h ka (n + 1) (snd (iotx_net_connect h (snd (iotx_net_disconnect (HAL_SleepMs 2000 s)))))
         else Some (Inr (n + 1), snd (iotx_net_connect h (snd (iotx_net_disconnect (HAL_SleepMs 2000 s)))))
       else Some (Inr n, s)))"
    proof (rule wp_call [OF wait_CONNACK_quiet], unfold prod.case, intro wp_if)
      fix rc s2 assume q: "quiet ?s s2"
      then have e: "sent s2 = sent s'" "connect_data s2 = connect_data ?s" "endpoint s2 = endpoint s'" by (simp_all add: quiet_def)
      show "wp ?Q (mqtt_connect_loop h ka (n + 1) (snd (iotx_net_connect h (snd (iotx_net_disconnect (HAL_SleepMs 2000 s2))))))"
        if "n + 1 < RETRY_TIME_LIMIT"
        unfolding Suc_eq_plus1 [symmetric] by (rule IH) (use that a d e g in \<open>simp_all add: prim_simps\<close>)
    qed (use less.prems(2) a g c in \<open>auto simp: prim_simps quiet_def\<close>)
  qed
qed

lemma mqtt_connect_unfold:
  "mqtt_connect h s = mqtt_connect_loop h (keepAliveInterval (connect_data s)) 1 (s\<lparr>connect_data := (connect_data s)\<lparr>keepAliveInterval :=
        (if keepAliveInterval (connect_data s) * 2 > 1200 then 1200 else keepAliveInterval (connect_data s) * 2)\<rparr>\<rparr>) \<bind>
     (\<lambda>(r, s). case r of Inl rc \<Rightarrow> Some (rc, s)
      | Inr try_count \<Rightarrow>
          if try_count = RETRY_TIME_LIMIT then Some (STATE_MQTT_CONN_RETRY_EXCEED_MAX, s)
          else case time_countdown h (of_nat (unat (keepAliveInterval (connect_data s)) * 1000))
                 (iotx_mc_set_client_state IOTX_MC_STATE_CONNECTED (s\<lparr>keepalive_probes := 0\<rparr>))
            of (t, s) \<Rightarrow> Some (STATE_SUCCESS, s\<lparr>next_ping_time := t\<rparr>))"
  unfolding mqtt_connect_def Let_def by (simp add: client_state_effects cong: if_cong sum.case_cong)

lemma mqtt_connect_wire:
  assumes d: "has_credentials cid user pw clean (connect_data s)"
  shows "wp (\<lambda>r s'. endpoint s' = endpoint s \<and> r \<noteq> -44 \<and> (STATE_SUCCESS \<le> r \<longrightarrow> connected_with cid user pw clean (sent s) (sent s'))) (mqtt_connect h s)"
proof -
  let ?k = "keepAliveInterval (connect_data s)"
  let ?s = "s\<lparr>connect_data := (connect_data s)\<lparr>keepAliveInterval := (if ?k * 2 > 1200 then 1200 else ?k * 2)\<rparr>\<rparr>"
  have s: "has_credentials cid user pw clean (connect_data ?s)" using credentials_keep [OF d] by simp
  have e: "sent ?s = sent s" "endpoint ?s = endpoint s" by simp_all
  show ?thesis unfolding mqtt_connect_unfold
    by (rule wp_call [OF connect_loop_wire [OF s, unfolded e]]) (auto split: sum.splits simp: prim_simps split_beta)
qed

lemma nwk_loop_quiet: "quiet s (snd (nwk_connect_loop h c s))"
proof (induction "4 - c" arbitrary: c s rule: less_induct)
  case less
  let ?s = "HAL_SleepMs 1000 (snd (iotx_net_disconnect (snd (iotx_net_connect h s))))"
  have "quiet ?s (snd (nwk_connect_loop h (Suc c) ?s))" if "c < 3" by (rule less) (use that in simp)
  then have IH: "quiet s (snd (nwk_connect_loop h (Suc c) ?s))" if "c < 3" using that by (simp add: quiet_def prim_simps)
  show ?case unfolding nwk_connect_loop.simps [of h c s] using IH by (simp add: split_beta Let_def) (simp add: quiet_def prim_simps)
qed

lemma nwk_connect_quiet: "quiet s (snd (mqtt_nwk_connect h s))"
  using nwk_loop_quiet by (simp add: mqtt_nwk_connect_def)

lemma nwk_connect_rc: "fst (nwk_connect_loop h c s) = STATE_SUCCESS \<or> fst (nwk_connect_loop h c s) < 0 \<and> fst (nwk_connect_loop h c s) \<noteq> -44"
proof (induction "4 - c" arbitrary: c s rule: less_induct)
  case less
  show ?case unfolding nwk_connect_loop.simps [of h c s] by (auto simp: split_beta Let_def less [simplified])
qed

section \<open>Everything else is written behind\<close>

definition grows :: "mc \<Rightarrow> mc \<Rightarrow> bool" where
  "grows s s' \<longleftrightarrow> endpoint s' = endpoint s \<and> (\<exists>bs. sent s' = sent s @ bs)"

lemma grows_trans: "grows s s' \<Longrightarrow> grows s' s'' \<Longrightarrow> grows s s''"
  by (auto simp: grows_def)

lemma grows_same: "wire s' = wire s \<Longrightarrow> grows s s'"
  by (simp add: grows_def)

lemma wp_grow: "wp (\<lambda>r s'. grows s s') m \<Longrightarrow> grows s0 s \<Longrightarrow> wp (\<lambda>r s'. grows s0 s') m"
  by (erule wp_mono) (rule grows_trans)

lemma MQTTPuback_grows: "wp (\<lambda>r s'. grows s s') (MQTTPuback h i ty s)"
  unfolding MQTTPuback_def Let_def
  by (auto simp: prim_simps send_exit_def grows_def Let_def split_beta intro!: wp_if wp_wire wp_codec)

lemma MQTTRePublish_grows: "wp (\<lambda>r s'. grows s s') (MQTTRePublish h b n s)"
  unfolding MQTTRePublish_def Let_def
  by (auto simp: prim_simps grows_def Let_def split_beta intro!: wp_if wp_wire wp_codec)

lemma push_grows: "wp (\<lambda>r s'. quiet s s') (iotx_mc_push_pubInfo_to h n i s)"
  unfolding iotx_mc_push_pubInfo_to_def Let_def
  by (auto simp: prim_simps split_beta quiet_def intro!: wp_codec)

lemma MQTTPublish_grows: "wp (\<lambda>r s'. grows s s') (MQTTPublish h t m s)"
  unfolding MQTTPublish_def Let_def bind_if
  by (auto simp: prim_simps send_exit_def grows_def quiet_def Let_def split_beta intro!: wp_if wp_wire wp_codec wp_call [OF push_grows])

lemma pub_info_loop_grows: "wp (\<lambda>r s'. grows s s') (pub_info_loop h ns s)"
proof (induction ns arbitrary: s)
  case (Cons n ns)
  have IH: "wp (\<lambda>r s'. grows s s') (pub_info_loop h ns s')" if "grows s s'" for s'
    by (rule wp_grow [OF Cons.IH that])
  show ?case
    by (auto simp: prim_simps split_beta Let_def simp del: wp_Some intro!: wp_if wp_SomeI wp_call [OF MQTTRePublish_grows] wp_call [OF IH] IH)
      (auto simp: grows_def)
qed (simp add: grows_same)

lemma MQTTPubInfoProc_grows: "wp (\<lambda>r s'. grows s s') (MQTTPubInfoProc h s)"
  unfolding MQTTPubInfoProc_def Let_def
  by (auto simp: prim_simps split_beta Let_def grows_def intro!: wp_call [OF pub_info_loop_grows])

lemma recv_PUBACK_grows: "wp (\<lambda>r s'. grows s s') (iotx_mc_handle_recv_PUBACK h s)"
  unfolding iotx_mc_handle_recv_PUBACK_def Let_def
  by (rule wp_opt, rule wp_opt) (auto simp: prim_simps grows_same split_beta intro!: wp_if)

lemma recv_SUBACK_grows: "wp (\<lambda>r s'. grows s s') (iotx_mc_handle_recv_SUBACK h s)"
  unfolding iotx_mc_handle_recv_SUBACK_def Let_def
  by (rule wp_opt, rule wp_opt) (auto simp: prim_simps grows_same split_beta intro!: wp_if)

lemma recv_UNSUBACK_grows: "wp (\<lambda>r s'. grows s s') (iotx_mc_handle_recv_UNSUBACK s)"
  unfolding iotx_mc_handle_recv_UNSUBACK_def Let_def
  by (rule wp_opt, rule wp_opt) (auto simp: prim_simps grows_same split_beta intro!: wp_if)

lemma identity_sent: "iotx_mc_parse_identity_response h m s = Some s' \<Longrightarrow> wire s' = wire s"
  by (drule parse_identity_effect, unfold ident_only_def, erule ssubst, simp)

lemma deliver_loop_sent: "wp (\<lambda>r s'. wire s' = wire s) (deliver_loop t n m ns fl s)"
proof (induction ns arbitrary: fl s)
  case (Cons nd ns)
  have IH: "wp (\<lambda>r s'. wire s' = wire s) (deliver_loop t n m ns fl s')" if "wire s' = wire s" for fl s'
    using Cons.IH [of s' fl] that by simp
  show ?case unfolding deliver_loop.simps Let_def
    by (rule wp_opt, rule wp_if) (auto simp: prim_simps intro!: IH [unfolded prod.inject])
qed simp

lemma deliver_message_sent: "iotx_mc_deliver_message h t m s = Some s' \<Longrightarrow> wire s' = wire s"
  using deliver_loop_sent unfolding iotx_mc_deliver_message_def Let_def wp_def
  by (fastforce simp: prim_simps dest!: identity_sent split: Option.bind_splits if_splits)

lemma recv_PUBLISH_grows: "wp (\<lambda>r s'. grows s s') (iotx_mc_handle_recv_PUBLISH h s)"
  unfolding iotx_mc_handle_recv_PUBLISH_def Let_def
  by (rule wp_opt, rule wp_opt)
    (auto dest!: deliver_message_sent simp: grows_same intro!: wp_if wp_opt wp_grow [OF MQTTPuback_grows])

lemma cycle_dispatch_grows: "wp (\<lambda>r s'. grows s s') (cycle_dispatch h p s)"
  unfolding cycle_dispatch_def
  by (auto simp: grows_same intro!: wp_if recv_PUBACK_grows recv_SUBACK_grows recv_PUBLISH_grows recv_UNSUBACK_grows)

lemma cycle_grows: "wp (\<lambda>r s'. grows s s') (iotx_mc_cycle h t s)"
  unfolding iotx_mc_cycle_def Let_def
  by (auto simp: prim_simps grows_def quiet_def split_beta intro!: wp_if wp_call [OF read_packet_quiet] wp_call [OF cycle_dispatch_grows])

lemma cycle_turn_grows: "wp (\<lambda>r s'. grows s s') (cycle_turn h t s)"
proof -
  have l: "grows s s'" if "grows (HAL_MutexLock Lock_yield s) s'" for s' using that by (simp add: grows_def prim_simps)
  have u: "grows s (HAL_MutexUnlock Lock_yield s')" if "grows s s'" for s' using that by (simp add: grows_def prim_simps)
  show ?thesis unfolding cycle_turn_def bind_if
    by (rule wp_call [OF cycle_grows]) (auto intro!: wp_if wp_call [OF MQTTPubInfoProc_grows] u dest!: l intro: grows_trans)
qed

lemma mqtt_cycle_loop_grows: "wp (\<lambda>r s'. grows s s') (mqtt_cycle_loop h t s)"
proof -
  have "grows s (snd y)" if "mqtt_cycle_loop h t s = Some y" for y
    using that
  proof (rule mqtt_cycle_loop.raw_induct [rotated, where P = "\<lambda>h t s y. grows s (snd y)"])
    fix loop h t s y
    assume IH: "\<And>h t s y. loop h t s = Some y \<Longrightarrow> grows s (snd y)"
      and eq: "(let s = HAL_MutexLock Lock_yield s in iotx_mc_cycle h t s \<bind> (\<lambda>(rc, s).
          (if rc = STATE_SUCCESS then MQTTPubInfoProc h s else Some (rc, s)) \<bind> (\<lambda>(rc', s).
            let s = HAL_MutexUnlock Lock_yield s; (left_t, s) = time_left h t s;
                s = HAL_SleepMs (if left_t < 10 then left_t else 10) s; (expired, s) = time_is_expired h t s
            in if \<not> expired then loop h t s else Some ((), s)))) = Some y"
    obtain s1 k where t: "cycle_turn h t s = Some ((), s1)"
      and y: "y = ((), s1\<lparr>tick := k\<rparr>) \<or> loop h t (s1\<lparr>tick := k\<rparr>) = Some y"
      using eq by (auto simp: Let_def split_beta cycle_turn_def prim_simps split: Option.bind_splits if_splits)
    have "grows s s1" using t cycle_turn_grows [of s h t] by (simp add: wp_def)
    then have s1: "grows s (s1\<lparr>tick := k\<rparr>)" by (simp add: grows_def)
    with y IH [of h t "s1\<lparr>tick := k\<rparr>" y] show "grows s (snd y)" by (auto intro: grows_trans)
  qed
  then show ?thesis by (auto simp: wp_def)
qed

lemma mqtt_cycle_grows: "wp (\<lambda>r s'. grows s s') (mqtt_cycle h s)"
  unfolding mqtt_cycle_def Let_def
  by (rule wp_prims(4), rule wp_grow [OF mqtt_cycle_loop_grows]) (simp add: grows_same)

lemma connect_cycle_grows: "wp (\<lambda>r s'. grows s s') (connect_cycle_loop h n pk dn s)"
proof (induction "9 - n" arbitrary: n pk dn s rule: less_induct)
  case less
  have IH: "wp (\<lambda>r s'. grows s s') (connect_cycle_loop h (Suc n) pk dn s')" if "n < 8" "grows s s'" for pk dn s'
    by (rule wp_grow [OF less.hyps that(2)]) (use that(1) in simp)
  have l: "grows s s'" if "grows (HAL_MutexUnlock Lock_yield ((HAL_MutexLock Lock_yield s)\<lparr>cycle_timeout_ms := 500\<rparr>)) s'" for s'
    using that by (simp add: grows_def prim_simps)
  show ?case unfolding connect_cycle_loop.simps [of h n pk dn s] Let_def
    by (rule wp_call [OF mqtt_cycle_grows]) (auto intro!: wp_if IH dest: l)
qed

lemma wrapper_connect_wire:
  assumes d: "has_credentials cid user pw clean (connect_data s)"
  shows "wp (\<lambda>r s'. endpoint s' = endpoint s \<and> (STATE_SUCCESS \<le> r \<or> r = -44 \<longrightarrow> connected_with cid user pw clean (sent s) (sent s'))) (wrapper_mqtt_connect h s)"
proof -
  let ?n = "snd (mqtt_nwk_connect h s)" and ?r = "fst (mqtt_nwk_connect h s)"
  have q: "sent ?n = sent s" "endpoint ?n = endpoint s" "connect_data ?n = connect_data s" using nwk_connect_quiet [of s h] by (simp_all add: quiet_def)
  have r: "?r \<noteq> STATE_SUCCESS \<Longrightarrow> ?r < 0 \<and> ?r \<noteq> -44" using nwk_connect_rc [of h 1 s] by (auto simp: mqtt_nwk_connect_def)
  have c: "wp (\<lambda>r s'. endpoint s' = endpoint s \<and> r \<noteq> -44 \<and> (STATE_SUCCESS \<le> r \<longrightarrow> connected_with cid user pw clean (sent s) (sent s'))) (mqtt_connect h ?n)"
    using mqtt_connect_wire [of cid user pw clean ?n h] d unfolding q by simp
  show ?thesis unfolding wrapper_mqtt_connect_def Let_def split_beta
  proof (rule wp_if)
    assume "?r \<noteq> STATE_SUCCESS"
    with r q show "wp (\<lambda>r s'. endpoint s' = endpoint s \<and> (STATE_SUCCESS \<le> r \<or> r = -44 \<longrightarrow> connected_with cid user pw clean (sent s) (sent s'))) (Some (?r, ?n))"
      unfolding wp_Some by auto
  next
    show "wp (\<lambda>r s'. endpoint s' = endpoint s \<and> (STATE_SUCCESS \<le> r \<or> r = -44 \<longrightarrow> connected_with cid user pw clean (sent s) (sent s')))
       (mqtt_connect h ?n \<bind> (\<lambda>p. connect_cycle_loop h 0 [] [] (snd p) \<bind> (\<lambda>q. Some (fst p, snd q))))"
      by (rule wp_call [OF c], unfold fst_conv snd_conv, rule wp_call [OF connect_cycle_grows]) (auto simp: grows_def connected_more)
  qed
qed

lemma wrapper_publish_grows: "wp (\<lambda>r s'. grows s s') (wrapper_mqtt_publish h t m s)"
proof -
  have e: "grows s0 (if c then iotx_mc_set_client_state st s' else s') = grows s0 s'" for c st s0 s'
    by (simp add: grows_def prim_simps)
  have p: "wp (\<lambda>r s'. grows s s') (MQTTPublish h n m s')" if "wire s' = wire s" for n m s'
    by (rule wp_grow [OF MQTTPublish_grows]) (simp add: grows_same that)
  have i: "wire (snd (snd (if c then (case iotx_mc_get_next_packetid s' of (i, s) \<Rightarrow> (i, g i, s)) else (0, m, s')))) = wire s'"
    for c g m and s' :: mc
    by (simp add: get_next_packetid_effect split_beta Let_def)
  show ?thesis unfolding wrapper_mqtt_publish_def Let_def
    by (auto simp: client_state_effects split_beta grows_same e i [unfolded prod.inject] split del: if_split split: option.split
        intro!: wp_check_topic wp_if wp_call [OF p])
qed

end
