(* ===== verification/MQTT_Api_Wire.thy ===== *)
theory MQTT_Api_Wire
  imports MQTT_Api_Props MQTT_Client_Wire
begin

text \<open>
  What a construction puts on the wire: the interface hands the parameters to the client, whose first packets are CONNECT
  packets with the client id, the user name and the password among these parameters, and every later byte is written behind them.
\<close>

section \<open>The client that is made\<close>

lemma init_credentials:
  assumes "wrapper_mqtt_init h P m = (True, m')"
    and "p_client_id P = Some cid" "p_username P = Some user" "p_password P = Some pw" "length cid + length user + length pw < 268435000"
  shows "has_credentials cid user pw (p_clean_session P) (connect_data m')" "sent m' = sent m" "endpoint m' = (p_host P, p_port P, p_pub_key P)"
proof -
  from init_success(1) [OF assms(1)] obtain host where host: "p_host P = Some host" by blast
  note i = init_success(2) [OF assms(1)]
  show "has_credentials cid user pw (p_clean_session P) (connect_data m')" unfolding i
    by (simp add: client_state_effects mc_init_params_def iotx_mc_set_connect_params_def iotx_net_init_def host Let_def has_credentials_def assms)
      (simp add: MQTTPacket_connectData_initializer_def)
  show "sent m' = sent m" unfolding i
    by (simp add: client_state_effects mc_init_params_def iotx_mc_set_connect_params_def iotx_net_init_def host Let_def init_state_def client_zero_def)
  show "endpoint m' = (p_host P, p_port P, p_pub_key P)" unfolding i
    by (simp add: client_state_effects mc_init_params_def iotx_mc_set_connect_params_def iotx_net_init_def host Let_def)
qed

section \<open>The steps of the interface\<close>

lemma event_mqc: "state_event ev code x s = Some s' \<Longrightarrow> mqc s' = mqc s"
  by (auto simp: state_event_def iotx_state_event_def Let_def split: option.splits if_splits Option.bind_splits)

lemma report_params_mqc: "report_params p s = Some s' \<Longrightarrow> mqc s' = mqc s"
  by (auto simp: report_params_def bind_eq_Some_conv dest!: event_mqc)

lemma uptime_mqc: "sdk_uptime e s = (now, s') \<Longrightarrow> \<exists>k. mqc s' = (mqc s)\<lparr>tick := k\<rparr>"
  by (auto simp: sdk_uptime_def HAL_UptimeMs_eq)

lemma on_client_wp: "on_client f s = Some (r, s') \<Longrightarrow> wp Q (f (mqc s)) \<Longrightarrow> Q r (mqc s')"
  by (auto simp: on_client_def wp_def)

lemma publish_simple_grows:
  assumes "IOT_MQTT_Publish_Simple e hnd t q d n s = Some (r, s')"
  shows "grows (mqc s) (mqc s')"
proof -
  obtain cl where cl: "the_client hnd s = Some cl" using assms by (auto simp: IOT_MQTT_Publish_Simple_def bind_eq_Some_conv)
  show ?thesis
  proof (cases "\<not> cl \<or> t = None \<or> t = Some []")
    case True
    with assms cl show ?thesis by (auto simp: IOT_MQTT_Publish_Simple_def grows_same)
  next
    case False
    then obtain u where u: "cl" "t = Some u" "u \<noteq> []" by auto
    from assms cl u obtain m rc s1 ev code x where o1: "on_client (wrapper_mqtt_publish (se_hal e) t m) s = Some (rc, s1)" "state_event ev code x s1 = Some s'"
      by (auto simp: IOT_MQTT_Publish_Simple_def bind_eq_Some_conv)
    from on_client_wp [OF o1(1) wrapper_publish_grows] event_mqc [OF o1(2)] show ?thesis by simp
  qed
qed

lemma report_funcs_grows:
  assumes "iotx_mqtt_report_funcs e hnd s = Some s'"
  shows "grows (mqc s) (mqc s')"
proof -
  obtain ret v where v: "se_firmware e = (ret, v)" by (cases "se_firmware e")
  let ?s = "iotx_set_report_func s"
  from assms obtain r where a: "iotx_report_firmware_version e hnd ?s = Some (r, s')" by (auto simp: iotx_mqtt_report_funcs_def)
  have f: "info_report_func ?s" by (simp add: iotx_set_report_func_def)
  from a f obtain pk dn where pk: "get_text e IOTX_IOCTL_GET_PRODUCT_KEY 21 ?s = Some pk" "get_text e IOTX_IOCTL_GET_DEVICE_NAME 33 ?s = Some dn"
    by (auto simp: iotx_report_firmware_version_def bind_eq_Some_conv)
  note a = a [unfolded iotx_report_firmware_version_def pk v]
  let ?s1 = "?s\<lparr>g_report_id := g_report_id ?s + 1\<rparr>"
  have i: "iotx_report_id ?s = (g_report_id ?s, ?s1)" by (simp add: iotx_report_id_def)
  have m: "mqc ?s = mqc s" "mqc ?s1 = mqc s" by (simp_all add: iotx_set_report_func_def)
  show ?thesis
  proof (cases "s' = ?s \<or> s' = ?s1")
    case True
    with m show ?thesis by (auto simp: grows_same)
  next
    case False
    with a f i obtain t x n r' where "IOT_MQTT_Publish_Simple e hnd t 1 x n ?s1 = Some (r', s')"
      by (auto simp: snprintf_text_def Let_def bind_eq_Some_conv split: if_split_asm)
    from publish_simple_grows [OF this] show ?thesis unfolding m .
  qed
qed

text \<open>A construction that returns a client has written the CONNECT packets first.\<close>

lemma construct_connects:
  assumes a: "construct_client e P s = Some (True, s')"
    and P: "p_client_id P = Some cid" "p_username P = Some user" "p_password P = Some pw" "length cid + length user + length pw < 268435000"
  shows "connected_with cid user pw (p_clean_session P) (sent (mqc s)) (sent (mqc s')) \<and> endpoint (mqc s') = (p_host P, p_port P, p_pub_key P)"
proof -
  obtain made m where i: "wrapper_mqtt_init (se_hal e) P (mqc s) = (made, m)" by (cases "wrapper_mqtt_init (se_hal e) P (mqc s)")
  let ?s = "s\<lparr>mqc := m, live := made\<rparr>"
  note run = a [unfolded construct_client_def i Let_def prod.case]
  have made by (rule ccontr) (use run in \<open>auto elim!: bind_SomeE\<close>)
  with i have i: "wrapper_mqtt_init (se_hal e) P (mqc s) = (True, m)" and made: made by simp_all
  note c = init_credentials [OF i P]
  obtain s1 where s1: "report_params P ?s = Some s1" using run made by (auto elim!: bind_SomeE)
  obtain t0 s2 where s2: "sdk_uptime e s1 = (t0, s2)" by (cases "sdk_uptime e s1")
  obtain k where m2: "mqc s2 = m\<lparr>tick := k\<rparr>" using uptime_mqc [OF s2] report_params_mqc [OF s1] by auto
  obtain ret s3 where s3: "on_client (wrapper_mqtt_connect (se_hal e)) s2 = Some (ret, s3)" using run made s1 s2 by (auto elim!: bind_SomeE)
  have "has_credentials cid user pw (p_clean_session P) (connect_data (mqc s2))" using c(1) m2 by simp
  from on_client_wp [OF s3 wrapper_connect_wire [OF this]]
  have w: "endpoint (mqc s3) = (p_host P, p_port P, p_pub_key P)"
    "STATE_SUCCESS \<le> ret \<or> ret = -44 \<Longrightarrow> connected_with cid user pw (p_clean_session P) (sent (mqc s)) (sent (mqc s3))"
    using c(2,3) m2 by simp_all
  have ok: "\<not> (ret < STATE_SUCCESS \<and> ret \<noteq> MQTT_CONNECT_BLOCK)"
    by (rule notI) (use run made s1 s2 s3 in \<open>auto elim!: bind_SomeE\<close>)
  obtain t1 s4 where s4: "sdk_uptime e s3 = (t1, s4)" by (cases "sdk_uptime e s3")
  obtain s5 s6 where s5: "state_event ITE_STATE_MQTT_COMM STATE_SUCCESS (Some (c_lit ''mqtt connected in '' @ fmt_int (sint (t1 - t0)) @ c_lit '' ms'')) s4 = Some s5"
      "iotx_mqtt_report_funcs e True s5 = Some s6"
    and s': "s' = (case iotx_event_callback ITE_MQTT_CONNECT_SUCC (s6\<lparr>g_mqtt_client := True\<rparr>) of None \<Rightarrow> s6\<lparr>g_mqtt_client := True\<rparr>
         | Some c \<Rightarrow> (s6\<lparr>g_mqtt_client := True\<rparr>)\<lparr>sdk_events := sdk_events (s6\<lparr>g_mqtt_client := True\<rparr>) @ [Se_connected c]\<rparr>)"
    using run made s1 s2 s3 s4 ok by (auto elim!: bind_SomeE)
  have m6: "mqc s' = mqc s6" unfolding s' by (simp split: option.split)
  obtain k' where "mqc s5 = (mqc s3)\<lparr>tick := k'\<rparr>" using uptime_mqc [OF s4] event_mqc [OF s5(1)] by auto
  with report_funcs_grows [OF s5(2)] have g: "grows (mqc s3) (mqc s')" unfolding m6 by (simp add: grows_def)
  have "STATE_SUCCESS \<le> ret \<or> ret = -44" using ok by auto
  from w(2) [OF this] w(1) g show ?thesis by (auto simp: grows_def connected_more)
qed

end
