(* ===== verification/MQTT_Client_Sample.thy ===== *)
theory MQTT_Client_Sample
  imports MQTT_Client_Wire
begin

text \<open>
  A run of the client: on a platform where the server accepts the first CONNECT packet, the connection is made.
\<close>

definition cloud_hal :: hal where
  "cloud_hal = \<lparr>hal_uptime = (\<lambda>k. if k < 35 then 0 else 100000),
     hal_ssl_read = (\<lambda>k _ _. if k = 18 then (1, [0x20]) else if k = 21 then (1, [2]) else if k = 25 then (2, [0, 0]) else (0, [])),
     hal_ssl_write = (\<lambda>_ bs _. int (length bs)), hal_ssl_establish = (\<lambda>_. 1), hal_malloc = (\<lambda>_ _. True), hal_mutex = (\<lambda>_. True),
     hal_identity_cb = False, hal_junk16 = (\<lambda>_. 0), hal_sizeof_client = 400\<rparr>"

lemma cloud_fields [simp]: "hal_malloc cloud_hal k n" "hal_mutex cloud_hal k" "hal_ssl_establish cloud_hal k = 1" "hal_ssl_write cloud_hal k bs t = int (length bs)"
  "\<not> hal_identity_cb cloud_hal"
  by (simp_all add: cloud_hal_def)

lemma cloud_uptime: "tick s < 35 \<Longrightarrow> HAL_UptimeMs cloud_hal s = (0, s\<lparr>tick := Suc (tick s)\<rparr>)"
  by (simp add: HAL_UptimeMs_eq cloud_hal_def)

lemma cloud_early:
  "tick s < 35 \<Longrightarrow> time_countdown cloud_hal ms s = (\<lparr>time = ms\<rparr>, s\<lparr>tick := Suc (tick s)\<rparr>)"
  "tick s < 35 \<Longrightarrow> time_is_expired cloud_hal \<lparr>time = 5000\<rparr> s = (False, s\<lparr>tick := Suc (tick s)\<rparr>)"
  "tick s < 34 \<Longrightarrow> time_left_1 cloud_hal \<lparr>time = 5000\<rparr> s = (5000, s\<lparr>tick := tick s + 2\<rparr>)"
  "tick s < 34 \<Longrightarrow> time_left_1 cloud_hal \<lparr>time = 500\<rparr> s = (500, s\<lparr>tick := tick s + 2\<rparr>)"
  "tick s < 34 \<Longrightarrow> time_left cloud_hal \<lparr>time = 500\<rparr> s = (500, s\<lparr>tick := tick s + 2\<rparr>)"
  by (simp_all add: time_countdown_def time_is_expired_def time_left_1_def time_left_def cloud_uptime iotx_time_left_def
      utils_time_is_expired_def UINT32_MAX_def utils_time_countdown_ms_def iotx_time_init_def)

lemma cloud_late: "tick s = 35 \<Longrightarrow> time_is_expired cloud_hal \<lparr>time = 500\<rparr> s = (True, s\<lparr>tick := 36\<rparr>)"
  by (simp add: time_is_expired_def HAL_UptimeMs_eq cloud_hal_def utils_time_is_expired_def UINT32_MAX_def)

lemma cloud_send:
  assumes "0 < len" "len \<le> length buf" "tick s < 25"
  shows "iotx_mc_send_packet cloud_hal buf len \<lparr>time = 5000\<rparr> s = Some (STATE_SUCCESS, s\<lparr>tick := tick s + 4, sent := sent s @ take len buf\<rparr>)"
proof -
  have "send_loop cloud_hal \<lparr>time = 5000\<rparr> (take len buf) len s' = Some (len, s')" for s'
    by (subst send_loop.simps) (simp add: assms(2))
  then have "send_loop cloud_hal \<lparr>time = 5000\<rparr> (take len buf) 0 s = Some (len, s\<lparr>tick := tick s + 4, sent := sent s @ take len buf\<rparr>)"
    using assms by (subst send_loop.simps) (simp add: cloud_early utils_net_write_def ticked_def)
  then show ?thesis using assms(2) by (simp add: iotx_mc_send_packet_def load_n_def)
qed

text \<open>What holds of a client whose connection data are these and whose buffers are large enough.\<close>

lemma cloud_CONNECT:
  assumes d: "has_credentials cid user pw clean (connect_data s)" and l: "length cid + length user + length pw < 3000"
    and s: "tick s = 8" "held s = []" "\<not> lock_bad s" "request_timeout_ms s = 5000" "buf_size_send_max s = 3072"
  shows "\<exists>out. MQTTConnect cloud_hal s = Some (STATE_SUCCESS, s\<lparr>tick := 14, sent := sent s @ out, buf_send := None, buf_size_send := 0\<rparr>)"
proof -
  note c = credentials_packet [OF d]
  let ?b = "connect_body (connect_data s)" and ?out = "mqtt_frame 0x10 (connect_body (connect_data s))"
  define n where "n = min (nat (to_u32 (64 + get_connect_length (connect_data s)))) 3072"
  have b: "length ?b < 3016" using l c(3) by simp
  have g: "get_connect_length (connect_data s) = MQTTPacket_len (int (length ?b))"
    by (simp add: get_connect_length_def connect_length [OF c(1)])
  have p: "MQTTPacket_len (int (length ?b)) \<le> int (length ?b) + 4" "0 < MQTTPacket_len (int (length ?b))" using b by (simp_all add: MQTTPacket_len_def Let_def)
  have n: "MQTTPacket_len (int (length ?b)) \<le> int n" "n \<le> 3072" unfolding n_def g using p b by (simp_all add: to_u32_def)
  have z: "to_s32 (int n) = int n" using n(2) by (simp add: to_s32_def)
  have o: "0 < length ?out" "length ?out \<le> n"
    using n(1) MQTTPacket_len_covers [of "length ?b"] b by (simp_all add: length_mqtt_frame)
  have ser: "MQTTSerialize_connect (replicate n 0) (int n) (connect_data s) = Some (int (length ?out), ?out @ drop (length ?out) (replicate n 0))"
    using connect_framed [OF c(1), of "int n" "replicate n 0"] n(1) by simp
  have m: "send_buf_len (get_connect_length (connect_data s)) (s\<lparr>held := [Lock_write_buf], lock_bad := False\<rparr>) = n"
    by (simp add: send_buf_len_def s n_def)
  have sb: "below 3 s" using s by (simp add: below_def)
  show ?thesis unfolding MQTTConnect_def Let_def
    by (rule exI [of _ ?out]) (use o in \<open>simp add: prim_simps send_exit_def split_beta Let_def s sb m z ser cloud_early cloud_send below_def\<close>)
qed

lemma cloud_answer: "hal_ssl_read cloud_hal 18 n t = (1, [0x20])" "hal_ssl_read cloud_hal 21 n t = (1, [2])" "hal_ssl_read cloud_hal 25 n t = (2, [0, 0])"
  "replicate 8 (0 :: byte) = [0, 0, 0, 0, 0, 0, 0, 0]" "replicate 12 (0 :: byte) = [0, 0, 0, 0, 0, 0, 0, 0, 0, 0, 0, 0]"
  by (simp_all add: cloud_hal_def numeral_eq_Suc)

lemma cloud_length: "MQTTPacket_encode [32, 0, 0, 0, 0, 0, 0, 0] (Suc 0) 2 = Some (1, [32, 2, 0, 0, 0, 0, 0, 0])"
  by (simp add: MQTTPacket_encode_def MQTTPacket_encode_loop.simps Let_def byte_of_def c_mod_def c_div_def store_def)

lemma cloud_read:
  assumes s: "tick s = 15" "held s = []" "\<not> lock_bad s" "buf_read s = None" "buf_size_read_max s = 3072"
  shows "iotx_mc_read_packet cloud_hal \<lparr>time = 5000\<rparr> 0 s = Some ((STATE_SUCCESS, CONNACK), s\<lparr>tick := 26, buf_read := Some [0x20, 2, 0, 0, 0, 0, 0, 0, 0, 0, 0, 0], buf_size_read := 12\<rparr>)"
  unfolding iotx_mc_read_packet_def Let_def
  by (simp add: prim_simps s alloc_recv_buffer_def HAL_Malloc_def ticked_def cloud_early iotx_mc_decode_packet_def cloud_answer cloud_length
    decode_packet_loop.simps utils_net_read_def to_u32_def load_n_def store_n_def load_def store_def below_def MQTT_HEADER_GET_TYPE_def)

lemma cloud_wait:
  assumes s: "tick s = 14" "held s = []" "\<not> lock_bad s" "buf_read s = None" "buf_size_read_max s = 3072" "request_timeout_ms s = 5000"
  shows "iotx_mc_wait_CONNACK cloud_hal s = Some (STATE_SUCCESS, s\<lparr>tick := 26, buf_read := None, buf_size_read := 0\<rparr>)"
proof -
  let ?b = "[0x20, 2, 0, 0, 0, 0, 0, 0, 0, 0, 0, 0] :: bytes"
  have c: "iotx_mc_handle_recv_CONNACK t = Some STATE_SUCCESS" if "buf_read t = Some ?b" "buf_size_read t = 12" for t
    by (simp add: iotx_mc_handle_recv_CONNACK_def that MQTTDeserialize_connack_def to_s32_def readChar_def load_def
      MQTT_HEADER_GET_TYPE_def MQTTPacket_decodeBuf_def MQTTPacket_decode_def MQTTPacket_decode_loop.simps bufchar.simps Let_def)
  show ?thesis
    by (simp add: iotx_mc_wait_CONNACK_def cloud_early s wait_connack_loop.simps [of _ _ 0] cloud_read c prim_simps below_def)
qed

lemma cloud_mqtt_connect:
  assumes d: "has_credentials cid user pw clean (connect_data s)" and l: "length cid + length user + length pw < 3000"
    and s: "tick s = 8" "held s = []" "\<not> lock_bad s" "request_timeout_ms s = 5000" "buf_size_send_max s = 3072" "buf_read s = None" "buf_size_read_max s = 3072"
  shows "\<exists>out d t. mqtt_connect cloud_hal s = Some (STATE_SUCCESS, s\<lparr>tick := 27, sent := sent s @ out, buf_send := None, buf_size_send := 0,
     buf_read := None, buf_size_read := 0, connect_data := d, keepalive_probes := 0, client_state := IOTX_MC_STATE_CONNECTED, lock_bad := False, next_ping_time := t\<rparr>)"
proof -
  let ?k = "keepAliveInterval (connect_data s)"
  let ?d = "(connect_data s)\<lparr>keepAliveInterval := (if ?k * 2 > 1200 then 1200 else ?k * 2)\<rparr>"
  let ?s = "s\<lparr>connect_data := ?d\<rparr>"
  have "has_credentials cid user pw clean (connect_data ?s)" using credentials_keep [OF d] by simp
  then obtain out where c: "MQTTConnect cloud_hal ?s = Some (STATE_SUCCESS, ?s\<lparr>tick := 14, sent := sent ?s @ out, buf_send := None, buf_size_send := 0\<rparr>)"
    using cloud_CONNECT [of cid user pw clean ?s] l s by auto
  have w: "iotx_mc_wait_CONNACK cloud_hal (?s\<lparr>tick := 14, sent := sent s @ out, buf_send := None, buf_size_send := 0, connect_data := x\<rparr>)
      = Some (STATE_SUCCESS, s\<lparr>tick := 26, sent := sent s @ out, buf_send := None, buf_size_send := 0, connect_data := x, buf_read := None, buf_size_read := 0\<rparr>)" for x
    using s by (subst cloud_wait) simp_all
  have loop: "mqtt_connect_loop cloud_hal ?k 1 ?s = Some (Inr 1, s\<lparr>tick := 26, sent := sent s @ out, buf_send := None, buf_size_send := 0,
      connect_data := ?d\<lparr>keepAliveInterval := ?k\<rparr>, buf_read := None, buf_size_read := 0\<rparr>)"
    by (subst mqtt_connect_loop.simps, unfold c) (simp add: w [of "connect_data s", simplified])
  show ?thesis unfolding mqtt_connect_unfold loop
    by (rule exI [of _ out], rule exI [of _ "?d\<lparr>keepAliveInterval := ?k\<rparr>"],
        rule exI [of _ "\<lparr>time = ucast ?k * 1000\<rparr>"]) (simp add: client_state_effects s cloud_early below_def)
qed

lemma cloud_cycle:
  assumes s: "tick s = 27" "held s = []" "\<not> lock_bad s" "buf_read s = None" "buf_size_read_max s = 3072" "list_pub_wait_ack s = []"
    "keepalive_probes s = 0" "client_state s = IOTX_MC_STATE_CONNECTED" "cycle_timeout_ms s = 500"
  shows "mqtt_cycle cloud_hal s = Some ((), s\<lparr>tick := 36, buf_read := None, buf_size_read := 0\<rparr>)"
proof -
  have r: "iotx_mc_read_packet cloud_hal \<lparr>time = 500\<rparr> 0 t = Some ((STATE_SUCCESS, 0), t\<lparr>tick := 32, buf_read := Some (replicate 8 0), buf_size_read := 8\<rparr>)"
    if "tick t = 28" "held t = [Lock_yield]" "\<not> lock_bad t" "buf_read t = None" "buf_size_read_max t = 3072" for t
    unfolding iotx_mc_read_packet_def Let_def
    by (simp add: prim_simps that alloc_recv_buffer_def HAL_Malloc_def ticked_def cloud_early utils_net_read_def to_u32_def load_n_def store_n_def below_def)
      (simp add: cloud_hal_def lock_effects that)
  show ?thesis unfolding mqtt_cycle_def Let_def
    by (simp add: cloud_early s mqtt_cycle_loop.simps [of cloud_hal] iotx_mc_cycle_def client_state_effects r recv_reset_effect lock_effects below_def
      MQTTPubInfoProc_def snd_hal cloud_late)
qed

lemma cloud_connects:
  assumes d: "has_credentials cid user pw clean (connect_data s)" and l: "length cid + length user + length pw < 3000"
    and s: "tick s = 7" "held s = []" "\<not> lock_bad s" "request_timeout_ms s = 5000" "buf_size_send_max s = 3072" "buf_read s = None" "buf_size_read_max s = 3072"
      "list_pub_wait_ack s = []" "ctx_product_key s \<noteq> []" "ctx_device_name s \<noteq> []"
  shows "\<exists>s'. wrapper_mqtt_connect cloud_hal s = Some (STATE_SUCCESS, s') \<and> ctx_product_key s' = ctx_product_key s \<and> ctx_device_name s' = ctx_device_name s"
proof -
  let ?s = "s\<lparr>tick := 8, ipstack := (ipstack s)\<lparr>handle := 1\<rparr>\<rparr>"
  have n: "mqtt_nwk_connect cloud_hal s = (STATE_SUCCESS, ?s)"
    by (simp add: mqtt_nwk_connect_def nwk_connect_loop.simps [of _ "Suc 0"] iotx_net_connect_def ticked_def s)
  obtain out x t where c: "mqtt_connect cloud_hal ?s = Some (STATE_SUCCESS, ?s\<lparr>tick := 27, sent := sent ?s @ out, buf_send := None, buf_size_send := 0,
     buf_read := None, buf_size_read := 0, connect_data := x, keepalive_probes := 0, client_state := IOTX_MC_STATE_CONNECTED, lock_bad := False, next_ping_time := t\<rparr>)"
    using cloud_mqtt_connect [of cid user pw clean ?s] d l s by auto
  show ?thesis using s
    by (simp add: wrapper_mqtt_connect_def n c [unfolded One_nat_def] connect_cycle_loop.simps [of _ 0] lock_effects below_def cloud_cycle)
qed

end
