(* ===== verification/MQTT_Api_Machine.thy ===== *)
theory MQTT_Api_Machine
  imports MQTT_Api_Wire MQTT_Client_Props MQTT_Client_Sample
begin

text \<open>
  The interface as a state machine, in which a program calls the interface in any order, and what it promises: the invariant of
  every reachable state, what a construction signs and hands to the client, the options, and the reports.
\<close>

section \<open>The machine\<close>

datatype sdk_request =
    Do_construct "api_param_t option"
  | Do_destroy "bool option"
  | Do_yield bool int
  | Do_check bool
  | Do_subscribe bool "bytes option" int "nat option" nat
  | Do_subscribe_sync bool "bytes option" int "nat option" nat int
  | Do_unsubscribe bool "bytes option"
  | Do_publish bool "bytes option" "iotx_mqtt_topic_info_t option"
  | Do_publish_simple bool "bytes option" int "bytes option" int
  | Do_ioctl iotx_ioctl_option_t ioctl_data
  | Do_setup_conn_info "bytes option" "bytes option" "bytes option" bool
  | Do_monitor "nat option"
  | Do_post int
  | Do_register int "nat option"
  | Do_register_everything "nat option"
  | Do_report_devinfo bool
  | Do_report_firmware bool

fun sdk_run :: "sdk_env \<Rightarrow> sdk_request \<Rightarrow> sdk \<Rightarrow> sdk option" where
  "sdk_run e (Do_construct p) s = map_option snd (IOT_MQTT_Construct e p s)"
| "sdk_run e (Do_destroy ph) s = map_option snd (IOT_MQTT_Destroy e ph s)"
| "sdk_run e (Do_yield hnd ms) s = map_option snd (IOT_MQTT_Yield e hnd ms s)"
| "sdk_run e (Do_check hnd) s = map_option snd (IOT_MQTT_CheckStateNormal hnd s)"
| "sdk_run e (Do_subscribe hnd t q fp c) s = map_option snd (IOT_MQTT_Subscribe e hnd t q fp c s)"
| "sdk_run e (Do_subscribe_sync hnd t q fp c ms) s = map_option snd (IOT_MQTT_Subscribe_Sync e hnd t q fp c ms s)"
| "sdk_run e (Do_unsubscribe hnd t) s = map_option snd (IOT_MQTT_Unsubscribe e hnd t s)"
| "sdk_run e (Do_publish hnd t m) s = map_option snd (IOT_MQTT_Publish e hnd t m s)"
| "sdk_run e (Do_publish_simple hnd t q d n) s = map_option snd (IOT_MQTT_Publish_Simple e hnd t q d n s)"
| "sdk_run e (Do_ioctl opt d) s = map_option (\<lambda>(_, _, s). s) (IOT_Ioctl e opt d s)"
| "sdk_run e (Do_setup_conn_info pk dn ds i) s = Some (snd (IOT_SetupConnInfo pk dn ds i s))"
| "sdk_run e (Do_monitor cb) s = Some (snd (iotx_event_regist_cb cb s))"
| "sdk_run e (Do_post ev) s = Some (snd (iotx_event_post ev s))"
| "sdk_run e (Do_register ev cb) s = Some (snd (iotx_register_for ev cb s))"
| "sdk_run e (Do_register_everything cb) s = Some (snd (iotx_register_for_ITE_STATE_EVERYTHING cb s))"
| "sdk_run e (Do_report_devinfo hnd) s = map_option snd (iotx_report_devinfo e hnd s)"
| "sdk_run e (Do_report_firmware hnd) s = map_option snd (iotx_report_firmware_version e hnd s)"

text \<open>The state at the start of the program: every static variable is zero.\<close>

definition sdk_zero :: "mc \<Rightarrow> sdk" where
  "sdk_zero m = \<lparr>mqc = m, live = False, g_mqtt_client = False,
     g_sdk_impl_ctx = \<lparr>domain_type = 0, dynamic_register = 0, cloud_custom_domain = replicate 65 0, mqtt_port_num = 0, http_custom_domain = replicate 65 0,
       mqtt_customzie_info = replicate 81 0, ctx_product_secret = replicate 65 0, ctx_device_secret = replicate 65 0\<rparr>,
     mqtt_domain_set = False, http_domain_set = False,
     g_iotx_conn_info = \<lparr>ci_port = 0, ci_init = 0, ci_host_name = None, ci_client_id = None, ci_username = None, ci_password = None, ci_pub_key = None\<rparr>,
     g_event_monitor = None, g_impl_event_map = replicate IOTX_EVENT_NUMBER None, g_default_sign = sign_zero, iotx_ca_crt_itls = replicate 86 0,
     g_report_id = 0, info_report_func = False, sdk_events = []\<rparr>"

inductive sdk_reachable :: "sdk_env \<Rightarrow> sdk \<Rightarrow> bool" for e where
  boot: "env_ok m \<Longrightarrow> sdk_reachable e (sdk_zero m)"
| request: "sdk_reachable e s \<Longrightarrow> sdk_run e c s = Some s' \<Longrightarrow> sdk_reachable e s'"

lemma zero_idle: "env_ok m \<Longrightarrow> sdk_idle (sdk_zero m)"
  using text_padded [of "[]" 65] by (simp add: sdk_idle_def sdk_ok_def sdk_zero_def ctx_bufs_def padded_def)

lemma fold_update_length: "length (fold (\<lambda>i m. m[i := x]) is m) = length m"
  by (induction "is" arbitrary: m) simp_all

lemma events_ok:
  assumes "sdk_ok s"
  shows "sdk_same s (snd (iotx_event_regist_cb cb s))" "sdk_same s (snd (iotx_event_post ev s))" "sdk_same s (snd (iotx_register_for ev cb s))"
    "sdk_same s (snd (iotx_register_for_ITE_STATE_EVERYTHING cb s))" "sdk_same s (snd (IOT_SetupConnInfo pk dn ds i s))"
  using assms
  by (auto simp: iotx_event_regist_cb_def iotx_event_post_def iotx_register_for_def iotx_register_for_ITE_STATE_EVERYTHING_def
      IOT_SetupConnInfo_def sdk_same_def sdk_ok_def fold_update_length simp del: upt_rec_numeral split: option.split)

lemma run_idle:
  assumes s: "sdk_idle s" and a: "sdk_run e c s = Some s'"
  shows "sdk_idle s'"
proof -
  have ok: "sdk_ok s" using s by (simp add: sdk_idle_def)
  note same = yield_call.keeps_sdk check_call.keeps_sdk subscribe_call.keeps_sdk subscribe_sync_call.keeps_sdk unsubscribe_call.keeps_sdk
    publish_call.keeps_sdk publish_simple_call.keeps_sdk firmware_ok devinfo_ok
  show ?thesis
  proof (cases c)
    case (Do_construct p)
    with a construct_ok [OF s] show ?thesis by auto
  next
    case (Do_destroy p)
    with a destroy_ok [OF s] show ?thesis by auto
  next
    case (Do_ioctl opt d)
    with a ioctl_ok [OF _ ok] s show ?thesis by (auto simp: sdk_idle_def)
  qed (use a same [OF ok] events_ok [OF ok] idle_same [OF s] in auto)
qed

lemma reachable_idle: "sdk_reachable e s \<Longrightarrow> sdk_idle s"
  by (induction rule: sdk_reachable.induct) (auto intro: zero_idle run_idle)

section \<open>The identity\<close>

text \<open>The identity a construction reads: product key, device name and secrets, as texts.\<close>

definition identity :: "sdk \<Rightarrow> bytes \<Rightarrow> bytes \<Rightarrow> bytes \<Rightarrow> bytes \<Rightarrow> bool" where
  "identity s pk dn ps ds \<longleftrightarrow> ctx_product_key (mqc s) = pk \<and> ctx_device_name (mqc s) = dn
     \<and> c_text (ctx_product_secret (g_sdk_impl_ctx s)) = Some ps \<and> c_text (ctx_device_secret (g_sdk_impl_ctx s)) = Some ds
     \<and> 0 \<notin> set pk \<and> 0 \<notin> set dn \<and> length pk \<le> 20 \<and> length dn \<le> 32"

lemma put_zero: "length t \<le> n \<Longrightarrow> data_put (D_chars (replicate n 0)) t = Some (D_chars (padded n t))"
  by (simp add: data_put_def store_n_def padded_def)

lemma put_empty: "data_put (D_chars b) [] = Some (D_chars b)"
  by (simp add: data_put_def store_n_def)

lemma load_padded: "length t \<le> k \<Longrightarrow> k < n \<Longrightarrow> load (padded n t) k = Some 0"
  by (simp add: load_def padded_def nth_append diff_less_mono)

lemma load_first: "t \<noteq> [] \<Longrightarrow> load (padded n t) 0 = Some (t ! 0)"
  by (simp add: load_def padded_def nth_append)

lemma getters:
  assumes "sdk_ok s" "identity s pk dn ps ds"
  shows "get_chars e IOTX_IOCTL_GET_PRODUCT_KEY (replicate 21 0) s = Some (padded 21 pk)"
    "get_chars e IOTX_IOCTL_GET_DEVICE_NAME (replicate 33 0) s = Some (padded 33 dn)"
    "get_chars e IOTX_IOCTL_GET_PRODUCT_SECRET (replicate 65 0) s = Some (padded 65 ps)"
    "get_chars e IOTX_IOCTL_GET_DEVICE_SECRET (replicate 65 0) s = Some (padded 65 ds)"
proof -
  from assms(2) have pk: "ctx_product_key (mqc s) = pk" "ctx_device_name (mqc s) = dn" "length pk \<le> 21" "length dn \<le> 33"
    and ps: "c_text (ctx_product_secret (g_sdk_impl_ctx s)) = Some ps" "c_text (ctx_device_secret (g_sdk_impl_ctx s)) = Some ds" by (simp_all add: identity_def)
  have len: "length ps \<le> 65" "length ds \<le> 65" using c_text_Some [OF ps(1)] c_text_Some [OF ps(2)] assms(1) by (simp_all add: sdk_ok_def ctx_bufs_def)
  note run = get_chars_def IOT_Ioctl_def put_zero pk ps len
  show "get_chars e IOTX_IOCTL_GET_PRODUCT_KEY (replicate 21 0) s = Some (padded 21 pk)" by (simp add: run)
  show "get_chars e IOTX_IOCTL_GET_DEVICE_NAME (replicate 33 0) s = Some (padded 33 dn)" by (simp add: run)
  show "get_chars e IOTX_IOCTL_GET_PRODUCT_SECRET (replicate 65 0) s = Some (padded 65 ps)" by (simp add: run)
  show "get_chars e IOTX_IOCTL_GET_DEVICE_SECRET (replicate 65 0) s = Some (padded 65 ds)" by (simp add: run)
qed

definition direct_meta :: "bytes \<Rightarrow> bytes \<Rightarrow> bytes \<Rightarrow> iotx_dev_meta_info_t" where
  "direct_meta pk dn ds = meta_zero\<lparr>product_key := padded 21 pk, device_name := padded 33 dn, device_secret := padded 65 ds\<rparr>"

lemma first_char: "0 \<notin> set (t :: bytes) \<Longrightarrow> t \<noteq> [] \<Longrightarrow> t ! 0 \<noteq> 0"
  by (cases t) auto

lemma secret_text: "sdk_ok s \<Longrightarrow> identity s pk dn ps ds \<Longrightarrow> 0 \<notin> set ps \<and> length ps \<le> 64 \<and> 0 \<notin> set ds \<and> length ds \<le> 64"
  using c_text_Some [of "ctx_product_secret (g_sdk_impl_ctx s)" ps] c_text_Some [of "ctx_device_secret (g_sdk_impl_ctx s)" ds]
  by (simp add: identity_def sdk_ok_def ctx_bufs_def)

lemma meta_direct:
  assumes "sdk_ok s" "identity s pk dn ps ds" "ds \<noteq> []"
  shows "construct_meta e region 0 s = Some (Some (direct_meta pk dn ds), s)"
proof -
  from assms(2) have n: "length pk \<le> 20" "length dn \<le> 32" by (simp_all add: identity_def)
  note sec = secret_text [OF assms(1,2)]
  have z: "product_key meta_zero = replicate 21 0" "device_name meta_zero = replicate 33 0" "device_secret meta_zero = replicate 65 0"
    by (simp_all add: meta_zero_def)
  show ?thesis using getters [OF assms(1,2)] n sec first_char [of ds] assms(3)
    by (simp add: construct_meta_def construct_secret_def z load_padded load_first direct_meta_def)
qed

text \<open>With dynamic registration a secret that is already known does not reach the identity that is signed.\<close>

lemma meta_known:
  assumes "sdk_ok s" "identity s pk dn ps ds" "ps \<noteq> []" "ds \<noteq> []" "dynamic \<noteq> 0"
  shows "construct_meta e region dynamic s = Some (Some ((direct_meta pk dn [])\<lparr>product_secret := padded 65 ps\<rparr>), s)"
proof -
  from assms(2) have n: "length pk \<le> 20" "length dn \<le> 32" "0 \<notin> set dn" by (simp_all add: identity_def)
  note sec = secret_text [OF assms(1,2)]
  have z: "product_key meta_zero = replicate 21 0" "device_name meta_zero = replicate 33 0" "product_secret meta_zero = replicate 65 0"
    "device_secret meta_zero = padded 65 []"
    by (simp_all add: meta_zero_def padded_def)
  have k: "append_text (padded 44 (c_lit ''DYNAMIC_REG_'')) dn = Some (padded 44 (c_lit ''DYNAMIC_REG_'' @ dn))"
    using n by (intro append_padded) (simp_all add: c_lit_def)
  have d: "c_text (padded 33 dn) = Some dn" using n by (intro text_padded) simp_all
  have g: "get_text e IOTX_IOCTL_GET_DEVICE_SECRET 65 s = Some ds"
  proof -
    have t: "c_text (ctx_device_secret (g_sdk_impl_ctx s)) = Some ds" using assms(2) by (simp add: identity_def)
    have "c_text (padded 65 ds) = Some ds" using sec by (intro text_padded) simp_all
    then show ?thesis using sec t by (simp add: get_text_def IOT_Ioctl_def put_zero data_text_def)
  qed
  have r: "iotx_dynamic_register e region m s = Some (STATE_SUCCESS, m, s)" if "device_name m = padded 33 dn" for m
    using that k d g assms(4) by (simp add: iotx_dynamic_register_def)
  show ?thesis using getters [OF assms(1,2)] n sec first_char [of ps] assms(3,5)
    by (simp add: construct_meta_def construct_secret_def z load_padded load_first direct_meta_def r)
qed

section \<open>The signature\<close>

lemma hex_text_plain: "0 \<notin> set (hex_text hex_upper bs)"
proof -
  have h: "0 \<notin> set hex_upper" "length hex_upper = 16" by (simp_all add: hex_upper_def)
  have "hex_upper ! i \<noteq> 0" if "i < 16" for i using h nth_mem [of i hex_upper] that by metis
  moreover have "unat (a :: byte) div 16 < 16" for a using unat_byte_bound [of a] by simp
  ultimately have "\<forall>a. hex_upper ! (unat (a :: byte) div 16) \<noteq> 0 \<and> hex_upper ! (unat a mod 16) \<noteq> 0" by simp
  then show ?thesis by (auto simp: hex_text_def dest: sym)
qed

lemma client_id_plain: "0 \<notin> set did \<Longrightarrow> (case info of None \<Rightarrow> True | Some t \<Rightarrow> 0 \<notin> set t) \<Longrightarrow> 0 \<notin> set (client_id_text did itls info)"
  using kv_text_plain [OF kv_facts(1)] by (auto simp: client_id_text_def lits dest!: in_set_butlastD split: option.splits)

text \<open>The region as an index of the table, and a custom domain that is a text.\<close>

lemma region_index: "0 \<le> region \<Longrightarrow> region < 5 \<Longrightarrow> nat (to_u32 region) = nat region"
  by (simp add: to_u32_def)

lemma custom_some: "sdk_ok s \<Longrightarrow> \<exists>c. custom_domain s = Some c"
  by (auto simp: sdk_ok_def custom_domain_def)

definition signed_for :: "int \<Rightarrow> bytes \<Rightarrow> bytes \<Rightarrow> bytes \<Rightarrow> bytes option \<Rightarrow> iotx_sign_mqtt_t" where
  "signed_for region pk dn key info = (signed_params (nat region) pk dn key)\<lparr>clientid := padded 200 (client_id_text (device_id_text pk dn) False info)\<rparr>"

lemma sign_built:
  assumes s: "sdk_ok s" and region: "0 \<le> region" "region < 5"
    and pk: "0 \<notin> set pk" "0 \<notin> set dn" "0 \<notin> set key" "length pk \<le> 20" "length dn \<le> 32" "length pk + length dn < 52" "length key \<le> 64"
    and info: "case info of None \<Rightarrow> True | Some t \<Rightarrow> 0 \<notin> set t"
    and fits: "length (client_id_text (device_id_text pk dn) False info) < 200"
    and meta: "product_key meta = padded 21 pk" "device_name meta = padded 33 dn" "device_secret meta = padded 65 key"
  shows "construct_sign e region meta info False s = Some (STATE_SUCCESS, s\<lparr>g_default_sign := signed_for region pk dn key info\<rparr>)"
proof -
  let ?id = "device_id_text pk dn"
  obtain c where c: "custom_domain s = Some c" using custom_some [OF s] by blast
  have t: "c_text (product_key meta) = Some pk" "c_text (device_name meta) = Some dn" "c_text (device_secret meta) = Some key"
    using pk by (simp_all add: meta text_padded)
  have "nat region < 5" using region by simp
  from mqtt_signed [OF t pk(4,5,7) this] pk(6)
  have sign: "IOT_Sign_MQTT j c (nat region) (Some meta) s0 = Some (STATE_SUCCESS, signed_params (nat region) pk dn key)" for j s0 by auto
  have did: "setup_device_id pk dn = Some (padded 53 ?id)" using pk by (intro device_id_built) simp_all
  have idt: "c_text (padded 53 ?id) = Some ?id" using pk by (intro text_padded) (simp_all add: device_id_text_def lits)
  have cl: "length (clientid (signed_params (nat region) pk dn key)) = 200"
    using pk by (simp add: signed_params_def padded_def client_id_text_def device_id_text_def lits)
  have "case map_option (\<lambda>t. t @ [0]) info of None \<Rightarrow> info = None | Some m \<Rightarrow> (\<exists>kv. c_text m = Some kv \<and> info = Some kv)"
    using info c_text_padded [of _ 1] by (cases info) auto
  from client_id_built [OF cl idt this, of 0] fits
  have cid: "sign_get_clientid (Some (clientid (signed_params (nat region) pk dn key))) (Some (padded 53 ?id)) (map_option (\<lambda>t. t @ [0]) info) 0
      = Some (STATE_SUCCESS, Some (padded 200 (client_id_text ?id False info)))" by simp
  show ?thesis using t by (simp add: construct_sign_def c region_index [OF region] sign did cid signed_for_def)
qed

text \<open>What the client is constructed with.\<close>

definition device_params :: "sdk_env \<Rightarrow> int \<Rightarrow> bytes \<Rightarrow> bytes \<Rightarrow> bytes \<Rightarrow> api_param_t option \<Rightarrow> iotx_mqtt_param_t" where
  "device_params e region pk dn key p = construct_params (se_ca_crt e) (pk @ c_lit ''.'' @ the (g_infra_mqtt_domain None ! nat region)) 443
     (client_id_text (device_id_text pk dn) False (p \<bind> p_customize_info)) (dn @ c_lit ''&'' @ pk)
     (hex_text hex_upper (hmac SHA256 key (sign_source pk dn))) p"

text \<open>The conditions under which the texts of an identity and of the application fit.\<close>

definition identity_fits :: "int \<Rightarrow> bytes \<Rightarrow> bytes \<Rightarrow> bytes option \<Rightarrow> bool" where
  "identity_fits region pk dn info \<longleftrightarrow> 0 \<le> region \<and> region < 5 \<and> length pk + length dn < 52 \<and> \<not> wants_itls info
     \<and> (case info of None \<Rightarrow> True | Some t \<Rightarrow> 0 \<notin> set t) \<and> length (client_id_text (device_id_text pk dn) False info) < 200"

lemma same_itls: "s\<lparr>g_default_sign := x, iotx_ca_crt_itls := iotx_ca_crt_itls s\<rparr> = s\<lparr>g_default_sign := x\<rparr>"
  by simp

lemma constructed:
  assumes s: "sdk_idle s" "\<not> g_mqtt_client s" and i: "identity s pk dn ps ds"
    and f: "identity_fits (domain_type (g_sdk_impl_ctx s)) pk dn (p \<bind> p_customize_info)"
    and m: "construct_meta e (domain_type (g_sdk_impl_ctx s)) (dynamic_register (g_sdk_impl_ctx s)) s = Some (Some meta, s)"
    and meta: "product_key meta = padded 21 pk" "device_name meta = padded 33 dn" "device_secret meta = padded 65 key"
    and key: "0 \<notin> set key" "length key \<le> 64"
  shows "IOT_MQTT_Construct e p s = construct_client e (device_params e (domain_type (g_sdk_impl_ctx s)) pk dn key p)
    (s\<lparr>g_default_sign := signed_for (domain_type (g_sdk_impl_ctx s)) pk dn key (p \<bind> p_customize_info)\<rparr>)"
proof -
  let ?region = "domain_type (g_sdk_impl_ctx s)" and ?info = "p \<bind> p_customize_info"
  have pk: "0 \<notin> set pk" "0 \<notin> set dn" "length pk \<le> 20" "length dn \<le> 32" using i by (simp_all add: identity_def)
  have f': "0 \<le> ?region" "?region < 5" "length pk + length dn < 52" "\<not> wants_itls ?info" "case ?info of None \<Rightarrow> True | Some t \<Rightarrow> 0 \<notin> set t"
    "length (client_id_text (device_id_text pk dn) False ?info) < 200" using f by (simp_all add: identity_fits_def)
  have ok: "sdk_ok s" using s by (simp add: sdk_idle_def)
  note sign = sign_built [OF ok f'(1,2) pk(1,2) key(1) pk(3,4) f'(3) key(2) f'(5,6) meta]
  obtain d where d: "the (g_infra_mqtt_domain None ! nat ?region) = d" "length d \<le> 39" "0 \<notin> set d"
    using lit_domain [of "nat ?region" None] f'(1,2) by auto
  have t: "c_text (hostname (signed_for ?region pk dn key ?info)) = Some (pk @ c_lit ''.'' @ d)"
    "c_text (clientid (signed_for ?region pk dn key ?info)) = Some (client_id_text (device_id_text pk dn) False ?info)"
    "c_text (username (signed_for ?region pk dn key ?info)) = Some (dn @ c_lit ''&'' @ pk)"
    "c_text (password (signed_for ?region pk dn key ?info)) = Some (hex_text hex_upper (hmac SHA256 key (sign_source pk dn)))"
    "iotx_sign_mqtt_t.port (signed_for ?region pk dn key ?info) = 443"
    using pk d f'(3,6) client_id_plain [OF _ f'(5), of "device_id_text pk dn" False]
    by (simp_all add: signed_for_def signed_params_def text_padded lits length_sha256_hmac hex_text_plain device_id_text_def)
  show ?thesis using s(2) f'(4)
    by (simp add: IOT_MQTT_Construct_def Let_def m sign t device_params_def d)
qed

section \<open>The options of texts\<close>

lemma store_secret: "0 \<notin> set t \<Longrightarrow> length t \<le> 64 \<Longrightarrow> length buf = 65 \<Longrightarrow> copy_secret buf t = Some (padded 65 t)"
  by (rule copied_secret)

lemma setters_work:
  assumes s: "sdk_ok s" and t: "c_text obj = Some t"
  shows "IOT_Ioctl e IOTX_IOCTL_SET_PRODUCT_KEY (D_chars obj) s
      = (if length t \<le> 20 then Some (SUCCESS_RETURN, D_chars obj, s\<lparr>mqc := ioctl_set_product_key t (mqc s)\<rparr>) else Some (FAIL_RETURN, D_chars obj, s))"
    and "IOT_Ioctl e IOTX_IOCTL_SET_DEVICE_NAME (D_chars obj) s
      = (if length t \<le> 32 then Some (SUCCESS_RETURN, D_chars obj, s\<lparr>mqc := ioctl_set_device_name t (mqc s)\<rparr>) else Some (FAIL_RETURN, D_chars obj, s))"
    and "IOT_Ioctl e IOTX_IOCTL_SET_PRODUCT_SECRET (D_chars obj) s
      = (if length t \<le> 64 then Some (SUCCESS_RETURN, D_chars obj, upd_ctx (ctx_product_secret_update (\<lambda>_. padded 65 t)) s) else Some (FAIL_RETURN, D_chars obj, s))"
    and "IOT_Ioctl e IOTX_IOCTL_SET_DEVICE_SECRET (D_chars obj) s
      = (if length t \<le> 64 then Some (SUCCESS_RETURN, D_chars obj, upd_ctx (ctx_device_secret_update (\<lambda>_. padded 65 t)) s) else Some (FAIL_RETURN, D_chars obj, s))"
proof -
  have d: "data_text (D_chars obj) = Some t" using t by (simp add: data_text_def)
  have l: "length (ctx_product_secret (g_sdk_impl_ctx s)) = 65" "length (ctx_device_secret (g_sdk_impl_ctx s)) = 65"
    using s by (simp_all add: sdk_ok_def ctx_bufs_def)
  have z: "0 \<notin> set t" using c_text_Some [OF t] by simp
  show "IOT_Ioctl e IOTX_IOCTL_SET_PRODUCT_KEY (D_chars obj) s
      = (if length t \<le> 20 then Some (SUCCESS_RETURN, D_chars obj, s\<lparr>mqc := ioctl_set_product_key t (mqc s)\<rparr>) else Some (FAIL_RETURN, D_chars obj, s))"
    by (simp add: IOT_Ioctl_def d)
  show "IOT_Ioctl e IOTX_IOCTL_SET_DEVICE_NAME (D_chars obj) s
      = (if length t \<le> 32 then Some (SUCCESS_RETURN, D_chars obj, s\<lparr>mqc := ioctl_set_device_name t (mqc s)\<rparr>) else Some (FAIL_RETURN, D_chars obj, s))"
    by (simp add: IOT_Ioctl_def d)
  show "IOT_Ioctl e IOTX_IOCTL_SET_PRODUCT_SECRET (D_chars obj) s
      = (if length t \<le> 64 then Some (SUCCESS_RETURN, D_chars obj, upd_ctx (ctx_product_secret_update (\<lambda>_. padded 65 t)) s) else Some (FAIL_RETURN, D_chars obj, s))"
    using store_secret [OF z _ l(1)] by (simp add: IOT_Ioctl_def d)
  show "IOT_Ioctl e IOTX_IOCTL_SET_DEVICE_SECRET (D_chars obj) s
      = (if length t \<le> 64 then Some (SUCCESS_RETURN, D_chars obj, upd_ctx (ctx_device_secret_update (\<lambda>_. padded 65 t)) s) else Some (FAIL_RETURN, D_chars obj, s))"
    using store_secret [OF z _ l(2)] by (simp add: IOT_Ioctl_def d)
qed

lemma getters_work:
  "IOT_Ioctl e IOTX_IOCTL_GET_PRODUCT_KEY (D_chars (replicate 21 0)) (s\<lparr>mqc := ioctl_set_product_key t m\<rparr>)
    = (if length t \<le> 20 then Some (SUCCESS_RETURN, D_chars (padded 21 t), s\<lparr>mqc := ioctl_set_product_key t m\<rparr>)
       else IOT_Ioctl e IOTX_IOCTL_GET_PRODUCT_KEY (D_chars (replicate 21 0)) (s\<lparr>mqc := m\<rparr>))"
  "IOT_Ioctl e IOTX_IOCTL_GET_DEVICE_NAME (D_chars (replicate 33 0)) (s\<lparr>mqc := ioctl_set_device_name t m\<rparr>)
    = (if length t \<le> 32 then Some (SUCCESS_RETURN, D_chars (padded 33 t), s\<lparr>mqc := ioctl_set_device_name t m\<rparr>)
       else IOT_Ioctl e IOTX_IOCTL_GET_DEVICE_NAME (D_chars (replicate 33 0)) (s\<lparr>mqc := m\<rparr>))"
  "0 \<notin> set t \<Longrightarrow> length t \<le> 64 \<Longrightarrow> IOT_Ioctl e IOTX_IOCTL_GET_PRODUCT_SECRET (D_chars (replicate 65 0)) (upd_ctx (ctx_product_secret_update (\<lambda>_. padded 65 t)) s)
    = Some (SUCCESS_RETURN, D_chars (padded 65 t), upd_ctx (ctx_product_secret_update (\<lambda>_. padded 65 t)) s)"
  "0 \<notin> set t \<Longrightarrow> length t \<le> 64 \<Longrightarrow> IOT_Ioctl e IOTX_IOCTL_GET_DEVICE_SECRET (D_chars (replicate 65 0)) (upd_ctx (ctx_device_secret_update (\<lambda>_. padded 65 t)) s)
    = Some (SUCCESS_RETURN, D_chars (padded 65 t), upd_ctx (ctx_device_secret_update (\<lambda>_. padded 65 t)) s)"
  by (simp_all add: IOT_Ioctl_def put_zero text_padded ioctl_set_product_key_def ioctl_set_device_name_def)

text \<open>In every reachable state, a text within its limit that is set as product key, device name, product secret or device
  secret is what the corresponding option reads back into a cleared array of that size; a longer one is refused and changes
  nothing.\<close>

lemma ioctl_roundtrip:
  assumes "sdk_reachable e s" "c_text obj = Some t"
    "(set_opt, get_opt, n) \<in> {(IOTX_IOCTL_SET_PRODUCT_KEY, IOTX_IOCTL_GET_PRODUCT_KEY, 20), (IOTX_IOCTL_SET_DEVICE_NAME, IOTX_IOCTL_GET_DEVICE_NAME, 32),
      (IOTX_IOCTL_SET_PRODUCT_SECRET, IOTX_IOCTL_GET_PRODUCT_SECRET, 64), (IOTX_IOCTL_SET_DEVICE_SECRET, IOTX_IOCTL_GET_DEVICE_SECRET, 64)}"
  shows "if length t \<le> n
    then \<exists>s'. IOT_Ioctl e set_opt (D_chars obj) s = Some (SUCCESS_RETURN, D_chars obj, s')
      \<and> IOT_Ioctl e get_opt (D_chars (replicate (n + 1) 0)) s' = Some (SUCCESS_RETURN, D_chars (padded (n + 1) t), s')
    else IOT_Ioctl e set_opt (D_chars obj) s = Some (FAIL_RETURN, D_chars obj, s)"
proof -
  have "sdk_ok s" using reachable_idle [OF assms(1)] by (simp add: sdk_idle_def)
  note set = setters_work [OF this assms(2), of e]
  have z: "0 \<notin> set t" using c_text_Some [OF assms(2)] by simp
  note get = getters_work(1,2) [of e] getters_work(3,4) [OF z, of e]
  from assms(3) show ?thesis by (elim insertE emptyE) (simp_all add: set get)
qed

section \<open>Samples\<close>

definition sample_sdk_env :: sdk_env where
  "sample_sdk_env = \<lparr>se_hal = sample_hal, se_dm_set_opt = (\<lambda>_. 0), se_dm_subscribe = (\<lambda>_. 0), se_dynreg = (\<lambda>_ _. (-1, [])),
     se_firmware = (1, c_lit ''1''), se_ca_crt = c_lit ''ca'', se_junk = undefined\<rparr>"

abbreviation (input) sample_pk :: bytes where "sample_pk \<equiv> c_lit ''a1X2bEnP82z''"
abbreviation (input) sample_dn :: bytes where "sample_dn \<equiv> c_lit ''test_06''"
abbreviation (input) sample_ds :: bytes where "sample_ds \<equiv> c_lit ''xGxVHX7zFlSTV7k''"

text \<open>The program sets the identity of the device, and in a second run also asks for dynamic registration.\<close>

fun sdk_steps :: "sdk_env \<Rightarrow> (iotx_ioctl_option_t \<times> ioctl_data) list \<Rightarrow> sdk \<Rightarrow> sdk option" where
  "sdk_steps e [] s = Some s"
| "sdk_steps e ((opt, d) # rest) s = do {
     (_, _, s) \<leftarrow> IOT_Ioctl e opt d s;
     sdk_steps e rest s }"

lemma steps_reachable: "sdk_reachable e s \<Longrightarrow> sdk_steps e os s = Some s' \<Longrightarrow> sdk_reachable e s'"
proof (induction os arbitrary: s)
  case (Cons op os)
  obtain opt d where op: "op = (opt, d)" by (cases op)
  from Cons.prems(2) obtain rc d' s1 where s1: "IOT_Ioctl e opt d s = Some (rc, d', s1)" "sdk_steps e os s1 = Some s'"
    by (auto simp: op bind_eq_Some_conv)
  have "sdk_reachable e s1" by (rule sdk_reachable.request [OF Cons.prems(1), of "Do_ioctl opt d"]) (simp add: s1(1))
  from Cons.IH [OF this s1(2)] show ?case .
qed simp

definition sample_steps :: "(iotx_ioctl_option_t \<times> ioctl_data) list" where
  "sample_steps = [(IOTX_IOCTL_SET_PRODUCT_KEY, D_chars (padded 21 sample_pk)), (IOTX_IOCTL_SET_DEVICE_NAME, D_chars (padded 33 sample_dn)),
     (IOTX_IOCTL_SET_DEVICE_SECRET, D_chars (padded 65 sample_ds))]"

definition sample_sdk :: sdk where
  "sample_sdk = upd_ctx (ctx_device_secret_update (\<lambda>_. padded 65 sample_ds))
     (sdk_zero (ioctl_set_device_name sample_dn (ioctl_set_product_key sample_pk sample_env)))"

definition sample_dynamic :: sdk where
  "sample_dynamic = upd_ctx (ctx_product_secret_update (\<lambda>_. padded 65 sample_ds)) (upd_ctx (dynamic_register_update (\<lambda>_. 1)) sample_sdk)"

lemma sample_texts: "c_text (padded 21 sample_pk) = Some sample_pk" "c_text (padded 33 sample_dn) = Some sample_dn" "c_text (padded 65 sample_ds) = Some sample_ds"
  by (simp_all add: text_padded c_lit_def)

lemma sample_sdk_reachable: "sdk_reachable e sample_sdk"
proof (rule steps_reachable [OF sdk_reachable.boot [OF sample_env_ok], of _ sample_steps])
  have l: "length sample_pk = 11" "length sample_dn = 7" "length sample_ds = 15" by (simp_all add: c_lit_def)
  have c: "copy_secret (replicate 65 0) sample_ds = Some (padded 65 sample_ds)" by (intro store_secret) (simp_all add: c_lit_def)
  show "sdk_steps e sample_steps (sdk_zero sample_env) = Some sample_sdk"
    by (simp add: sample_steps_def IOT_Ioctl_def data_text_def sample_texts sample_sdk_def sdk_zero_def upd_ctx_def c l)
qed

lemma sample_dynamic_reachable: "sdk_reachable e sample_dynamic"
proof (rule steps_reachable [OF sample_sdk_reachable, of _ "[(IOTX_IOCTL_SET_DYNAMIC_REGISTER, D_int 1), (IOTX_IOCTL_SET_PRODUCT_SECRET, D_chars (padded 65 sample_ds))]"])
  have c: "copy_secret (replicate 65 0) sample_ds = Some (padded 65 sample_ds)" by (intro store_secret) (simp_all add: c_lit_def)
  have l: "length sample_ds = 15" by (simp add: c_lit_def)
  show "sdk_steps e [(IOTX_IOCTL_SET_DYNAMIC_REGISTER, D_int 1), (IOTX_IOCTL_SET_PRODUCT_SECRET, D_chars (padded 65 sample_ds))] sample_sdk = Some sample_dynamic"
    by (simp add: IOT_Ioctl_def data_text_def data_int_def sample_texts sample_sdk_def sample_dynamic_def sdk_zero_def upd_ctx_def c l)
qed

section \<open>The properties\<close>

lemma some_text: "c_text b \<noteq> None \<Longrightarrow> length b = Suc n \<Longrightarrow> \<exists>t. c_text b = Some t \<and> length t \<le> n"
  using c_text_Some [of b] by fastforce

text \<open>C8. In every state a program can bring the interface to, by any sequence of its calls on any platform: the interface has a client
  exactly when the structure of one is allocated, so a handle it returned stays valid until the client is destroyed and none is lost;
  no lock is held and none was taken out of order; the buffers of an allocated client are free and at most ten messages wait in it;
  the table of handlers keeps its 32 entries; and the stored secrets, and the custom domain once it is set, are terminated texts within
  their limits.\<close>

theorem sdk_invariant:
  assumes "sdk_reachable e s"
  shows "live s = g_mqtt_client s \<and> held (mqc s) = [] \<and> \<not> lock_bad (mqc s)
    \<and> (live s \<longrightarrow> buf_send (mqc s) = None \<and> buf_read (mqc s) = None \<and> length (list_pub_wait_ack (mqc s)) \<le> 10)
    \<and> length (g_impl_event_map s) = 32
    \<and> (\<exists>ps. c_text (ctx_product_secret (g_sdk_impl_ctx s)) = Some ps \<and> length ps \<le> 64)
    \<and> (\<exists>ds. c_text (ctx_device_secret (g_sdk_impl_ctx s)) = Some ds \<and> length ds \<le> 64)
    \<and> (mqtt_domain_set s \<longrightarrow> (\<exists>d. c_text (cloud_custom_domain (g_sdk_impl_ctx s)) = Some d \<and> length d \<le> 64))"
proof -
  from reachable_idle [OF assms] have s: "sdk_ok s" "live s = g_mqtt_client s" by (simp_all add: sdk_idle_def)
  then have m: "held (mqc s) = [] \<and> \<not> lock_bad (mqc s)" by (auto simp: sdk_ok_def api_ok_def ok_def env_ok_def split: if_split_asm)
  have a: "live s \<longrightarrow> buf_send (mqc s) = None \<and> buf_read (mqc s) = None \<and> length (list_pub_wait_ack (mqc s)) \<le> 10"
  proof
    assume "live s"
    then have "api_ok (mqc s)" using s(1) by (simp add: sdk_ok_def)
    then show "buf_send (mqc s) = None \<and> buf_read (mqc s) = None \<and> length (list_pub_wait_ack (mqc s)) \<le> 10" by (simp add: api_ok_def ok_def)
  qed
  from s(1) have b: "length (g_impl_event_map s) = 32" "ctx_bufs (g_sdk_impl_ctx s)" "mqtt_domain_set s \<longrightarrow> c_text (cloud_custom_domain (g_sdk_impl_ctx s)) \<noteq> None"
    by (simp_all add: sdk_ok_def)
  then show ?thesis using s(2) m a by (intro conjI impI some_text) (simp_all add: ctx_bufs_def)
qed

theorem sdk_invariant_witness: "length (g_impl_event_map sample_sdk) = 32"
  using sdk_invariant [OF sample_sdk_reachable] by simp

text \<open>C15. A construction is all or nothing: when it returns a client the interface has that client and its structure is allocated;
  when it fails, at any of its steps, no structure is left allocated, no lock is held and the next construction starts afresh; and a
  second construction returns the existing client without changing anything.\<close>

theorem construct_all_or_nothing:
  assumes "sdk_reachable e s" "IOT_MQTT_Construct e p s = Some (r, s')"
  shows "r = g_mqtt_client s' \<and> live s' = r \<and> held (mqc s') = [] \<and> \<not> lock_bad (mqc s') \<and> (g_mqtt_client s \<longrightarrow> r \<and> s' = s)"
proof -
  have "sdk_idle s' \<and> r = g_mqtt_client s'" by (rule construct_ok [OF reachable_idle [OF assms(1)] assms(2)])
  moreover have "held (mqc s') = [] \<and> \<not> lock_bad (mqc s')" if "sdk_ok s'"
    using that by (auto simp: sdk_ok_def api_ok_def ok_def env_ok_def split: if_split_asm)
  ultimately show ?thesis using assms(2) by (auto simp: sdk_idle_def IOT_MQTT_Construct_def)
qed

lemma zero_construct: "IOT_MQTT_Construct e None (sdk_zero sample_env) = Some (False, sdk_zero sample_env)"
proof -
  have i: "identity (sdk_zero sample_env) [] [] [] []"
    using text_padded [of "[]" 65] by (simp add: identity_def sdk_zero_def sample_env_def client_zero_def padded_def)
  have ok: "sdk_ok (sdk_zero sample_env)" using zero_idle [OF sample_env_ok] by (simp add: sdk_idle_def)
  have none: "iotx_event_callback ev (sdk_zero sample_env) = None" for ev
    by (simp add: iotx_event_callback_def sdk_zero_def nat_less_iff)
  have ev: "state_event ev code m (sdk_zero sample_env) = Some (sdk_zero sample_env)" for ev code m
    by (simp add: state_event_def iotx_state_event_def none)
  have z: "product_key meta_zero = replicate 21 0" "device_name meta_zero = replicate 33 0" "device_secret meta_zero = replicate 65 0"
    by (simp_all add: meta_zero_def)
  have l: "domain_type (g_sdk_impl_ctx (sdk_zero sample_env)) = 0" "dynamic_register (g_sdk_impl_ctx (sdk_zero sample_env)) = 0" "\<not> g_mqtt_client (sdk_zero sample_env)"
    by (simp_all add: sdk_zero_def)
  show ?thesis using getters [OF ok i, of e]
    by (simp add: IOT_MQTT_Construct_def l construct_meta_def construct_secret_def z load_padded ev)
qed

theorem construct_all_or_nothing_witness: "\<not> live (sdk_zero sample_env)"
  using construct_all_or_nothing [OF sdk_reachable.boot [OF sample_env_ok] zero_construct] by simp

text \<open>A text of the application when it gives one that is not empty, else the default.\<close>

definition chosen :: "(api_param_t \<Rightarrow> bytes option) \<Rightarrow> api_param_t option \<Rightarrow> bytes \<Rightarrow> bytes" where
  "chosen f p dflt = (case p \<bind> f of Some (c # cs) \<Rightarrow> c # cs | _ \<Rightarrow> dflt)"

lemma device_texts:
  "p_host (device_params e region pk dn ds p) = Some (chosen p_host p (pk @ c_lit ''.'' @ the (g_infra_mqtt_domain None ! nat region)))"
  "p_client_id (device_params e region pk dn ds p) = Some (chosen p_client_id p (client_id_text (device_id_text pk dn) False (p \<bind> p_customize_info)))"
  "p_username (device_params e region pk dn ds p) = Some (chosen p_username p (dn @ c_lit ''&'' @ pk))"
  "p_password (device_params e region pk dn ds p) = Some (chosen p_password p (hex_text hex_upper (hmac SHA256 ds (sign_source pk dn))))"
  "p_pub_key (device_params e region pk dn ds p) = Some (se_ca_crt e)"
  by (auto simp: device_params_def construct_params_def default_params_def chosen_def given_def Let_def split: option.splits list.splits)

text \<open>C9. In every reachable state without a client, when the identity of the device is set and fits, the region is one of the cloud and
  no registration is asked for: a construction makes the client with the parameters of this identity, and when it returns a client, the
  bytes it has written begin with CONNECT packets of MQTT 3.1.1 with exactly these credentials, those of failed attempts, whole or broken
  off, and then a complete one: the client id with the text of
  the application, device name and product key as user name, and as password the HMAC-SHA-256 of the identity under the device secret, each
  replaced by the application's own text when it gives one; everything else is written behind them.  The client
  is bound to the host of the product in this region, or the application's own, and to the certificate of the cloud.  The three texts together
  are shorter than 268435000 bytes, which is a condition on the application's own texts only.\<close>

theorem construct_signs:
  assumes "sdk_reachable e s" "\<not> g_mqtt_client s" "dynamic_register (g_sdk_impl_ctx s) = 0" "identity s pk dn ps ds" "ds \<noteq> []"
    "identity_fits (domain_type (g_sdk_impl_ctx s)) pk dn (p \<bind> p_customize_info)"
  shows "IOT_MQTT_Construct e p s = construct_client e (device_params e (domain_type (g_sdk_impl_ctx s)) pk dn ds p)
      (s\<lparr>g_default_sign := signed_for (domain_type (g_sdk_impl_ctx s)) pk dn ds (p \<bind> p_customize_info)\<rparr>)
    \<and> (\<forall>cid user pw s'. cid = chosen p_client_id p (client_id_text (device_id_text pk dn) False (p \<bind> p_customize_info))
        \<and> user = chosen p_username p (dn @ c_lit ''&'' @ pk)
        \<and> pw = chosen p_password p (hex_text hex_upper (hmac SHA256 ds (sign_source pk dn)))
        \<and> length cid + length user + length pw < 268435000 \<and> IOT_MQTT_Construct e p s = Some (True, s') \<longrightarrow>
        connected_with cid user pw (p_clean_session (device_params e (domain_type (g_sdk_impl_ctx s)) pk dn ds p)) (sent (mqc s)) (sent (mqc s'))
        \<and> pHostAddress (ipstack (mqc s')) = Some (chosen p_host p (pk @ c_lit ''.'' @ the (g_infra_mqtt_domain None ! nat (domain_type (g_sdk_impl_ctx s)))))
        \<and> ca_crt (ipstack (mqc s')) = Some (se_ca_crt e))"
proof -
  have s: "sdk_idle s" "sdk_ok s" using reachable_idle [OF assms(1)] by (simp_all add: sdk_idle_def)
  note sec = secret_text [OF s(2) assms(4)]
  let ?P = "device_params e (domain_type (g_sdk_impl_ctx s)) pk dn ds p"
  have "IOT_MQTT_Construct e p s = construct_client e ?P (s\<lparr>g_default_sign := signed_for (domain_type (g_sdk_impl_ctx s)) pk dn ds (p \<bind> p_customize_info)\<rparr>)"
    using sec by (intro constructed [OF s(1) assms(2,4,6), where meta = "direct_meta pk dn ds"])
      (simp_all add: assms(3) meta_direct [OF s(2) assms(4,5)] direct_meta_def)
  then show ?thesis
  proof (rule conjI, intro allI impI, elim conjE)
    let ?s = "s\<lparr>g_default_sign := signed_for (domain_type (g_sdk_impl_ctx s)) pk dn ds (p \<bind> p_customize_info)\<rparr>"
    fix cid user pw s' assume t: "IOT_MQTT_Construct e p s = construct_client e ?P ?s" "IOT_MQTT_Construct e p s = Some (True, s')"
      "cid = chosen p_client_id p (client_id_text (device_id_text pk dn) False (p \<bind> p_customize_info))"
      "user = chosen p_username p (dn @ c_lit ''&'' @ pk)" "pw = chosen p_password p (hex_text hex_upper (hmac SHA256 ds (sign_source pk dn)))"
      "length cid + length user + length pw < 268435000"
    have "construct_client e ?P ?s = Some (True, s')" using t(1,2) by simp
    from construct_connects [OF this device_texts(2,3,4)] t(6)
    show "connected_with cid user pw (p_clean_session ?P) (sent (mqc s)) (sent (mqc s'))
        \<and> pHostAddress (ipstack (mqc s')) = Some (chosen p_host p (pk @ c_lit ''.'' @ the (g_infra_mqtt_domain None ! nat (domain_type (g_sdk_impl_ctx s)))))
        \<and> ca_crt (ipstack (mqc s')) = Some (se_ca_crt e)"
      unfolding t(3,4,5) by (simp add: device_texts)
  qed
qed

lemma sample_identity: "identity sample_sdk sample_pk sample_dn [] sample_ds" "identity sample_dynamic sample_pk sample_dn sample_ds sample_ds"
proof -
  have z: "c_text (replicate 65 0) = Some []" using text_padded [of "[]" 65] by (simp add: padded_def)
  have l: "length sample_pk = 11" "length sample_dn = 7" "0 \<notin> set sample_pk" "0 \<notin> set sample_dn" by (simp_all add: c_lit_def)
  show "identity sample_sdk sample_pk sample_dn [] sample_ds" "identity sample_dynamic sample_pk sample_dn sample_ds sample_ds"
    by (simp_all add: identity_def sample_sdk_def sample_dynamic_def sdk_zero_def sample_texts z l ioctl_set_product_key_def ioctl_set_device_name_def)
qed

lemma sample_fields: "\<not> g_mqtt_client sample_sdk" "dynamic_register (g_sdk_impl_ctx sample_sdk) = 0" "domain_type (g_sdk_impl_ctx sample_sdk) = 0"
  "\<not> g_mqtt_client sample_dynamic" "dynamic_register (g_sdk_impl_ctx sample_dynamic) = 1" "domain_type (g_sdk_impl_ctx sample_dynamic) = 0"
  "\<not> mqtt_domain_set sample_sdk"
  by (simp_all add: sample_sdk_def sample_dynamic_def sdk_zero_def)

lemma sample_fits: "identity_fits 0 sample_pk sample_dn None"
  by (simp add: identity_fits_def wants_itls_def client_id_text_def device_id_text_def lits)

text \<open>A platform on which the server accepts the sample device.\<close>

definition cloud_sdk_env :: sdk_env where
  "cloud_sdk_env = sample_sdk_env\<lparr>se_hal := cloud_hal, se_firmware := (0, [])\<rparr>"

lemma sample_mqc: "tick (mqc sample_sdk) = 0" "held (mqc sample_sdk) = []" "\<not> lock_bad (mqc sample_sdk)"
  "ctx_product_key (mqc sample_sdk) = sample_pk" "ctx_device_name (mqc sample_sdk) = sample_dn" "sent (mqc sample_sdk) = []"
  by (simp_all add: sample_sdk_def sdk_zero_def upd_ctx_def ioctl_set_product_key_def ioctl_set_device_name_def sample_env_def client_zero_def c_lit_def)

lemma sample_unheard: "iotx_event_callback ev (sample_sdk\<lparr>g_default_sign := sg, mqc := m, live := b\<rparr>) = None"
  by (auto simp: sample_sdk_def sdk_zero_def upd_ctx_def iotx_event_callback_def nat_less_iff not_less not_le intro: nth_replicate)

lemma event_unheard: "(\<And>ev. iotx_event_callback ev s = None) \<Longrightarrow> state_event ev code x s = Some s"
  by (simp add: state_event_def iotx_state_event_def Let_def)

lemma cloud_constructed:
  assumes P: "p_host P = Some host" "p_client_id P = Some cid" "p_username P = Some user" "p_password P = Some pw" "length cid + length user + length pw < 3000"
    "p_request_timeout_ms P = 5000" "p_write_buf_size P = 3072" "p_read_buf_size P = 3072"
  shows "\<exists>s'. construct_client cloud_sdk_env P (sample_sdk\<lparr>g_default_sign := sg\<rparr>) = Some (True, s')"
proof -
  let ?m = "mqc sample_sdk"
  have "\<exists>m'. wrapper_mqtt_init cloud_hal P ?m = (True, m')"
    by (simp add: wrapper_mqtt_init_def iotx_mc_init_def prim_simps HAL_Malloc_def ticked_def split_beta Let_def init_params_rc P init_exit_rc init_exit_success)
  then obtain m where i: "wrapper_mqtt_init cloud_hal P ?m = (True, m)" by blast
  have f: "tick m = 6" "held m = []" "\<not> lock_bad m" "request_timeout_ms m = 5000" "buf_size_send_max m = 3072" "buf_read m = None" "buf_size_read_max m = 3072"
    "list_pub_wait_ack m = []" "ctx_product_key m = sample_pk" "ctx_device_name m = sample_dn"
    unfolding init_success(2) [OF i]
    by (simp_all add: client_state_effects mc_init_params_def iotx_mc_set_connect_params_def iotx_net_init_def P Let_def init_state_def client_zero_def sample_mqc below_def)
  let ?s = "sample_sdk\<lparr>g_default_sign := sg\<rparr>"
  have ev: "state_event ev code x (?s\<lparr>mqc := m', live := True\<rparr>) = Some (?s\<lparr>mqc := m', live := True\<rparr>)" for ev code x m'
    by (rule event_unheard) (rule sample_unheard)
  have "?s\<lparr>live := True, mqc := m'\<rparr> = ?s\<lparr>mqc := m', live := True\<rparr>" for m' by (rule sdk.equality) simp_all
  with ev have ev': "state_event ev code x (?s\<lparr>live := True, mqc := m'\<rparr>) = Some (?s\<lparr>live := True, mqc := m'\<rparr>)" for ev code x m' by metis
  note c = init_credentials [OF i P(2-4)]
  have "has_credentials cid user pw (p_clean_session P) (connect_data (m\<lparr>tick := 7\<rparr>))" using c(1) P(5) by simp
  then obtain m' where m': "wrapper_mqtt_connect cloud_hal (m\<lparr>tick := 7\<rparr>) = Some (STATE_SUCCESS, m')" "ctx_product_key m' = sample_pk" "ctx_device_name m' = sample_dn"
    using cloud_connects [of cid user pw "p_clean_session P" "m\<lparr>tick := 7\<rparr>"] P(5) f by (auto simp: c_lit_def)
  have l: "length sample_pk = 11" "length sample_dn = 7" by (simp_all add: c_lit_def)
  have g: "get_text cloud_sdk_env IOTX_IOCTL_GET_PRODUCT_KEY 21 s = Some sample_pk" "get_text cloud_sdk_env IOTX_IOCTL_GET_DEVICE_NAME 33 s = Some sample_dn"
    if "ctx_product_key (mqc s) = sample_pk" "ctx_device_name (mqc s) = sample_dn" for s
    using that l by (simp_all add: get_text_def IOT_Ioctl_def put_zero data_text_def sample_texts)
  have u: "sdk_uptime cloud_sdk_env s = (of_nat (hal_uptime cloud_hal (tick (mqc s))), s\<lparr>mqc := (mqc s)\<lparr>tick := Suc (tick (mqc s))\<rparr>\<rparr>)" for s
    by (simp add: sdk_uptime_def HAL_UptimeMs_eq cloud_sdk_env_def)
  have e: "se_hal cloud_sdk_env = cloud_hal" "se_firmware cloud_sdk_env = (0, [])" by (simp_all add: cloud_sdk_env_def)
  have r: "iotx_mqtt_report_funcs cloud_sdk_env True s = Some (s\<lparr>info_report_func := True\<rparr>)"
    if "ctx_product_key (mqc s) = sample_pk" "ctx_device_name (mqc s) = sample_dn" for s
    using that by (simp add: iotx_mqtt_report_funcs_def iotx_report_firmware_version_def iotx_set_report_func_def g e)
  show ?thesis
    by (simp add: construct_client_def e i report_params_def ev ev' u f m' on_client_def r Let_def split: option.split)
qed

theorem construct_signs_witness:
  "\<exists>s'. IOT_MQTT_Construct cloud_sdk_env None sample_sdk = Some (True, s')
     \<and> connected_with (client_id_text (device_id_text sample_pk sample_dn) False None) (sample_dn @ c_lit ''&'' @ sample_pk)
         (hex_text hex_upper (hmac SHA256 sample_ds (sign_source sample_pk sample_dn))) 0 [] (sent (mqc s'))
     \<and> pHostAddress (ipstack (mqc s')) = Some (sample_pk @ c_lit ''.'' @ the (g_infra_mqtt_domain None ! 0))"
proof -
  let ?P = "device_params cloud_sdk_env 0 sample_pk sample_dn sample_ds None"
  let ?cid = "client_id_text (device_id_text sample_pk sample_dn) False None" and ?user = "sample_dn @ c_lit ''&'' @ sample_pk"
    and ?pw = "hex_text hex_upper (hmac SHA256 sample_ds (sign_source sample_pk sample_dn))"
  have n: "sample_ds \<noteq> []" by (simp add: c_lit_def)
  have c: "chosen f None d = d" for f d by (simp add: chosen_def)
  have l: "length ?cid + length ?user + length ?pw < 3000"
    using sample_fits by (simp add: identity_fits_def length_sha256_hmac c_lit_def)
  have q: "p_request_timeout_ms ?P = 5000" "p_write_buf_size ?P = 3072" "p_read_buf_size ?P = 3072" "p_clean_session ?P = 0"
    by (simp_all add: device_params_def construct_params_def default_params_def Let_def)
  have l': "length ?cid + length ?user + length ?pw < 268435000" using l by linarith
  obtain s' where s': "construct_client cloud_sdk_env ?P (sample_sdk\<lparr>g_default_sign := signed_for 0 sample_pk sample_dn sample_ds None\<rparr>) = Some (True, s')"
    using cloud_constructed [OF device_texts(1-4) [of cloud_sdk_env 0 sample_pk sample_dn sample_ds None, unfolded c]] l q by auto
  have f: "identity_fits (domain_type (g_sdk_impl_ctx sample_sdk)) sample_pk sample_dn (None \<bind> p_customize_info)" using sample_fits by (simp add: sample_fields)
  note t = construct_signs [OF sample_sdk_reachable sample_fields(1,2) sample_identity(1) n f, of cloud_sdk_env, unfolded sample_fields(3) c bind.bind_lzero]
  have s'': "IOT_MQTT_Construct cloud_sdk_env None sample_sdk = Some (True, s')" using conjunct1 [OF t] s' by simp
  have "connected_with ?cid ?user ?pw (p_clean_session ?P) (sent (mqc sample_sdk)) (sent (mqc s'))
      \<and> pHostAddress (ipstack (mqc s')) = Some (sample_pk @ c_lit ''.'' @ the (g_infra_mqtt_domain None ! nat 0))
      \<and> ca_crt (ipstack (mqc s')) = Some (se_ca_crt cloud_sdk_env)"
    using conjunct2 [OF t] l' s'' by blast
  then show ?thesis using s'' unfolding q sample_mqc nat_zero_as_int [symmetric] by auto
qed

text \<open>C33. With dynamic registration switched on and a device secret that is already known, the construction does not sign with this
  secret: it stays in a local array of \<open>_iotx_dynamic_register\<close>, and the password is the HMAC under the empty key.\<close>

theorem known_secret_ignored:
  assumes "sdk_reachable e s" "\<not> g_mqtt_client s" "dynamic_register (g_sdk_impl_ctx s) \<noteq> 0" "identity s pk dn ps ds" "ps \<noteq> []" "ds \<noteq> []"
    "identity_fits (domain_type (g_sdk_impl_ctx s)) pk dn (p \<bind> p_customize_info)"
  shows "IOT_MQTT_Construct e p s = construct_client e (device_params e (domain_type (g_sdk_impl_ctx s)) pk dn [] p)
      (s\<lparr>g_default_sign := signed_for (domain_type (g_sdk_impl_ctx s)) pk dn [] (p \<bind> p_customize_info)\<rparr>)"
proof -
  have s: "sdk_idle s" "sdk_ok s" using reachable_idle [OF assms(1)] by (simp_all add: sdk_idle_def)
  show ?thesis
    by (intro constructed [OF s(1) assms(2,4,7), where meta = "(direct_meta pk dn [])\<lparr>product_secret := padded 65 ps\<rparr>"])
      (simp_all add: meta_known [OF s(2) assms(4,5,6,3)] direct_meta_def)
qed

theorem known_secret_ignored_witness:
  "IOT_MQTT_Construct sample_sdk_env None sample_dynamic = construct_client sample_sdk_env (device_params sample_sdk_env 0 sample_pk sample_dn [] None)
      (sample_dynamic\<lparr>g_default_sign := signed_for 0 sample_pk sample_dn [] None\<rparr>)"
proof -
  have n: "sample_ds \<noteq> []" by (simp add: c_lit_def)
  have "dynamic_register (g_sdk_impl_ctx sample_dynamic) \<noteq> 0" by (simp add: sample_fields)
  from known_secret_ignored [OF sample_dynamic_reachable sample_fields(4) this sample_identity(2) n n, of None sample_sdk_env] sample_fits
  show ?thesis by (simp add: sample_fields)
qed

section \<open>Custom domains\<close>

text \<open>Without a custom domain the custom region cannot be signed for.\<close>

lemma custom_missing:
  assumes "c_text (product_key meta) = Some pk" "c_text (device_name meta) = Some dn" "c_text (device_secret meta) = Some ds"
    "length pk \<le> 20" "length dn \<le> 32" "length pk + length dn < 52" "length ds \<le> 64"
  shows "\<exists>sg. IOT_Sign_MQTT junk None 5 (Some meta) s0 = Some (STATE_USER_INPUT_MQTT_DOMAIN, sg)"
proof -
  let ?id = "device_id_text pk dn"
  note t = c_text_Some [OF assms(1)] c_text_Some [OF assms(2)]
  have did: "setup_device_id pk dn = Some (padded 53 ?id)" using t assms(4,5) by (intro device_id_built) simp_all
  have idt: "c_text (padded 53 ?id) = Some ?id" using t assms(6) by (intro text_padded) (simp_all add: device_id_text_def lits)
  have "length (client_id_text ?id False None) < 200" using assms(6) by (simp add: client_id_text_def device_id_text_def lits)
  with client_id_built [OF _ idt, of "replicate 200 0" None None 0]
  have cid: "sign_get_clientid (Some (replicate 200 0)) (Some (padded 53 ?id)) None 0 = Some (STATE_SUCCESS, Some (padded 200 (client_id_text ?id False None)))" by simp
  have z: "store_n (replicate 65 0) 0 (replicate 65 0) = Some (replicate 65 (0 :: byte))" by (simp add: store_n_def)
  have h: "setup_hostname None 5 pk sg = Some (STATE_USER_INPUT_MQTT_DOMAIN, sg)" for sg
    by (simp add: setup_hostname_def g_infra_mqtt_domain_def)
  show ?thesis using password_signed [OF assms(1,2,3,6,7)] z h did cid assms(1,2)
    by (simp add: IOT_Sign_MQTT_def sign_zero_def)
qed

lemma event_told: "\<exists>s'. state_event ev code (Some m) s = Some s'"
  by (auto simp: state_event_def iotx_state_event_def Let_def split: option.split)

text \<open>The options of the two domains leave the region custom, whether they succeed or not.\<close>

lemma domain_option:
  assumes s: "sdk_ok s" and t: "c_text obj = Some t" and opt: "opt = IOTX_IOCTL_SET_HTTP_DOMAIN \<or> opt = IOTX_IOCTL_SET_MQTT_DOMAIN \<and> length t > 64"
  obtains s1 where "IOT_Ioctl e opt (D_chars obj) s = Some (if length t > 64 then FAIL_RETURN else SUCCESS_RETURN, D_chars obj, s1)"
    and "domain_type (g_sdk_impl_ctx s1) = 5" "mqtt_domain_set s1 = mqtt_domain_set s" "mqc s1 = mqc s"
    "dynamic_register (g_sdk_impl_ctx s1) = dynamic_register (g_sdk_impl_ctx s)"
    "ctx_product_secret (g_sdk_impl_ctx s1) = ctx_product_secret (g_sdk_impl_ctx s)" "ctx_device_secret (g_sdk_impl_ctx s1) = ctx_device_secret (g_sdk_impl_ctx s)"
proof -
  have d: "data_text (D_chars obj) = Some t" using t by (simp add: data_text_def)
  show ?thesis
  proof (cases "length t > 64")
    case True
    show ?thesis by (rule that [of "upd_ctx (domain_type_update (\<lambda>_. 5)) s"]) (use opt True in \<open>auto simp: IOT_Ioctl_def d\<close>)
  next
    case False
    have "length (http_custom_domain (g_sdk_impl_ctx s)) = 65" using s by (simp add: sdk_ok_def ctx_bufs_def)
    with False c_text_Some [OF t] obtain buf where buf: "copy_text (http_custom_domain (g_sdk_impl_ctx s)) t = Some buf"
      using copied_text [of t "http_custom_domain (g_sdk_impl_ctx s)"] by auto
    show ?thesis
      by (rule that [of "(upd_ctx (http_custom_domain_update (\<lambda>_. buf)) (upd_ctx (domain_type_update (\<lambda>_. 5)) s))\<lparr>http_domain_set := True\<rparr>"])
        (use opt False buf in \<open>auto simp: IOT_Ioctl_def d\<close>)
  qed
qed

text \<open>C34. Setting a domain for HTTP, successfully or not, and setting an overlong domain for MQTT, which is refused, both leave the region of
  the device custom: with no custom domain for MQTT the next construction fails, although the identity is complete.\<close>

theorem http_domain_breaks_mqtt:
  assumes "sdk_reachable e s" "\<not> g_mqtt_client s" "\<not> mqtt_domain_set s" "dynamic_register (g_sdk_impl_ctx s) = 0" "identity s pk dn ps ds" "ds \<noteq> []"
    "length pk + length dn < 52" "c_text obj = Some t" "opt = IOTX_IOCTL_SET_HTTP_DOMAIN \<or> opt = IOTX_IOCTL_SET_MQTT_DOMAIN \<and> length t > 64"
  shows "\<exists>s1 s2. IOT_Ioctl e opt (D_chars obj) s = Some (if length t > 64 then FAIL_RETURN else SUCCESS_RETURN, D_chars obj, s1)
    \<and> IOT_MQTT_Construct e p s1 = Some (False, s2)"
proof -
  have s: "sdk_ok s" "live s = g_mqtt_client s" using reachable_idle [OF assms(1)] by (simp_all add: sdk_idle_def)
  from domain_option [OF s(1) assms(8,9), of e] obtain s1
    where run: "IOT_Ioctl e opt (D_chars obj) s = Some (if length t > 64 then FAIL_RETURN else SUCCESS_RETURN, D_chars obj, s1)"
      and s1: "domain_type (g_sdk_impl_ctx s1) = 5" "mqtt_domain_set s1 = mqtt_domain_set s" "mqc s1 = mqc s"
        "dynamic_register (g_sdk_impl_ctx s1) = dynamic_register (g_sdk_impl_ctx s)"
        "ctx_product_secret (g_sdk_impl_ctx s1) = ctx_product_secret (g_sdk_impl_ctx s)" "ctx_device_secret (g_sdk_impl_ctx s1) = ctx_device_secret (g_sdk_impl_ctx s)"
    by blast
  have ok: "sdk_ok s1" "\<not> g_mqtt_client s1" using ioctl_ok [OF run s(1)] assms(2) by simp_all
  have i: "identity s1 pk dn ps ds" using assms(5) by (simp add: identity_def s1)
  have m: "construct_meta e 5 0 s1 = Some (Some (direct_meta pk dn ds), s1)" by (rule meta_direct [OF ok(1) i assms(6)])
  note sec = secret_text [OF ok(1) i]
  have pk: "0 \<notin> set pk" "0 \<notin> set dn" "length pk \<le> 20" "length dn \<le> 32" using i by (simp_all add: identity_def)
  have t: "c_text (product_key (direct_meta pk dn ds)) = Some pk" "c_text (device_name (direct_meta pk dn ds)) = Some dn"
    "c_text (device_secret (direct_meta pk dn ds)) = Some ds"
    using pk sec by (simp_all add: direct_meta_def text_padded)
  obtain sg where "IOT_Sign_MQTT (se_junk e) None 5 (Some (direct_meta pk dn ds)) (g_default_sign s1) = Some (STATE_USER_INPUT_MQTT_DOMAIN, sg)"
    using custom_missing [OF t pk(3,4) assms(7)] sec by blast
  moreover have "nat (to_u32 5) = 5" by (simp add: to_u32_def)
  moreover have "custom_domain s1 = Some None" using assms(3) by (simp add: custom_domain_def s1)
  ultimately have sign: "construct_sign e 5 (direct_meta pk dn ds) info itls s1 = Some (STATE_USER_INPUT_MQTT_DOMAIN, s1\<lparr>g_default_sign := sg\<rparr>)" for info itls
    by (simp add: construct_sign_def)
  obtain s2 where "state_event ITE_STATE_MQTT_COMM STATE_USER_INPUT_MQTT_DOMAIN (Some (c_lit ''mqtt sign fail'')) (s1\<lparr>g_default_sign := sg\<rparr>) = Some s2"
    using event_told by blast
  then have "IOT_MQTT_Construct e p s1 = Some (False, s2)" using ok(2) s1 m assms(4)
    by (simp add: IOT_MQTT_Construct_def sign Let_def)
  with run show ?thesis by blast
qed

theorem http_domain_breaks_mqtt_witness:
  "\<exists>s1 s2. IOT_Ioctl sample_sdk_env IOTX_IOCTL_SET_HTTP_DOMAIN (D_chars (c_lit ''h'' @ [0])) sample_sdk = Some (SUCCESS_RETURN, D_chars (c_lit ''h'' @ [0]), s1)
    \<and> IOT_MQTT_Construct sample_sdk_env None s1 = Some (False, s2)"
proof -
  have n: "sample_ds \<noteq> []" "length sample_pk + length sample_dn < 52" "c_text (c_lit ''h'' @ [0]) = Some (c_lit ''h'')" by (simp_all add: c_lit_def c_text_def)
  from http_domain_breaks_mqtt [OF sample_sdk_reachable sample_fields(1,7,2) sample_identity(1) n, of IOTX_IOCTL_SET_HTTP_DOMAIN sample_sdk_env None]
  show ?thesis by (simp add: c_lit_def)
qed

end
