(* ===== verification/Infra_List.thy ===== *)
theory Infra_List
  imports Prelude
begin

text \<open>
  The linked lists of \<open>src/eng/infra/infra_list.h\<close> at the level of pointers.  An address is a number and 0 the null
  pointer; a heap is a partial map from addresses to list nodes, and following a pointer outside of its domain is
  \<open>None\<close>.  \<open>dlist h q xs\<close> says that the nodes \<open>xs\<close> form the circular list with head \<open>q\<close>; every operation of the
  header refines the operation on \<open>xs\<close> and keeps all other nodes.  \<open>container_of\<close> is the identity: a structure is
  identified with the list node in it.
\<close>

type_synonym addr = nat

section \<open>Doubly linked lists\<close>

record dlist_t =
  prev :: addr
  "next" :: addr

type_synonym dheap = "addr \<rightharpoonup> dlist_t"

definition get_next :: "dheap \<Rightarrow> addr \<Rightarrow> addr option" where
  "get_next h a = map_option next (h a)"

definition get_prev :: "dheap \<Rightarrow> addr \<Rightarrow> addr option" where
  "get_prev h a = map_option prev (h a)"

definition set_next :: "addr \<Rightarrow> addr \<Rightarrow> dheap \<Rightarrow> dheap option" where
  "set_next a v h = (case h a of None \<Rightarrow> None | Some n \<Rightarrow> Some (h(a \<mapsto> n\<lparr>next := v\<rparr>)))"

definition set_prev :: "addr \<Rightarrow> addr \<Rightarrow> dheap \<Rightarrow> dheap option" where
  "set_prev a v h = (case h a of None \<Rightarrow> None | Some n \<Rightarrow> Some (h(a \<mapsto> n\<lparr>prev := v\<rparr>)))"

definition dlist_add_between :: "addr \<Rightarrow> addr \<Rightarrow> addr \<Rightarrow> dheap \<Rightarrow> dheap option" where
  "dlist_add_between node pv nx h = do {
     h \<leftarrow> set_next node nx h;
     h \<leftarrow> set_prev node pv h;
     h \<leftarrow> set_next pv node h;
     set_prev nx node h }"

definition dlist_add :: "addr \<Rightarrow> addr \<Rightarrow> dheap \<Rightarrow> dheap option" where
  "dlist_add node queue h = get_next h queue \<bind> (\<lambda>nx. dlist_add_between node queue nx h)"

definition dlist_add_tail :: "addr \<Rightarrow> addr \<Rightarrow> dheap \<Rightarrow> dheap option" where
  "dlist_add_tail node queue h = get_prev h queue \<bind> (\<lambda>pv. dlist_add_between node pv queue h)"

definition dlist_del :: "addr \<Rightarrow> dheap \<Rightarrow> dheap option" where
  "dlist_del node h = do {
     pv \<leftarrow> get_prev h node;
     nx \<leftarrow> get_next h node;
     h \<leftarrow> set_next pv nx h;
     set_prev nx pv h }"

definition dlist_init :: "addr \<Rightarrow> dheap \<Rightarrow> dheap option" where
  "dlist_init node h = set_prev node node h \<bind> set_next node node"

definition INIT_AOS_DLIST_HEAD :: "addr \<Rightarrow> dheap \<Rightarrow> dheap option" where
  "INIT_AOS_DLIST_HEAD l h = set_next l l h \<bind> set_prev l l"

definition dlist_empty :: "dheap \<Rightarrow> addr \<Rightarrow> bool option" where
  "dlist_empty h head = map_option (\<lambda>n. n = head) (get_next h head)"

definition dlist_first_entry :: "dheap \<Rightarrow> addr \<Rightarrow> addr option" where
  "dlist_first_entry h head = get_next h head"

definition list_del_init :: "addr \<Rightarrow> dheap \<Rightarrow> dheap option" where
  "list_del_init entry h = dlist_del entry h \<bind> INIT_AOS_DLIST_HEAD entry"

definition list_is_last :: "dheap \<Rightarrow> addr \<Rightarrow> addr \<Rightarrow> bool option" where
  "list_is_last h l head = map_option (\<lambda>n. n = head) (get_next h l)"

partial_function (option) entry_number_loop :: "dheap \<Rightarrow> addr \<Rightarrow> addr \<Rightarrow> int \<Rightarrow> int option" where
  "entry_number_loop h queue cur n = do {
     nx \<leftarrow> get_next h cur;
     if nx \<noteq> queue then entry_number_loop h queue nx (n + 1) else Some n }"

definition dlist_entry_number :: "dheap \<Rightarrow> addr \<Rightarrow> int option" where
  "dlist_entry_number h queue = entry_number_loop h queue queue 0"

text \<open>The iteration macros with a loop body on a state that holds the heap.  The body returns \<open>Some r\<close> to leave the
  function.  The safe variant fetches the successor before the body runs, the other one after it.\<close>

partial_function (option) for_each_loop ::
    "('s \<Rightarrow> dheap) \<Rightarrow> (addr \<Rightarrow> 's \<Rightarrow> ('r option \<times> 's) option) \<Rightarrow> addr \<Rightarrow> addr \<Rightarrow> 's \<Rightarrow> ('r option \<times> 's) option" where
  "for_each_loop hp body head pos s =
    (if pos = head then Some (None, s)
     else do {
       (r, s) \<leftarrow> body pos s;
       case r of Some _ \<Rightarrow> Some (r, s)
       | None \<Rightarrow> do {
           n \<leftarrow> get_next (hp s) pos;
           for_each_loop hp body head n s } })"

definition list_for_each_entry ::
    "('s \<Rightarrow> dheap) \<Rightarrow> (addr \<Rightarrow> 's \<Rightarrow> ('r option \<times> 's) option) \<Rightarrow> addr \<Rightarrow> 's \<Rightarrow> ('r option \<times> 's) option" where
  "list_for_each_entry hp body head s = get_next (hp s) head \<bind> (\<lambda>pos. for_each_loop hp body head pos s)"

partial_function (option) for_each_safe_loop ::
    "('s \<Rightarrow> dheap) \<Rightarrow> (addr \<Rightarrow> 's \<Rightarrow> ('r option \<times> 's) option) \<Rightarrow> addr \<Rightarrow> addr \<Rightarrow> addr \<Rightarrow> 's \<Rightarrow> ('r option \<times> 's) option" where
  "for_each_safe_loop hp body head pos n s =
    (if pos = head then Some (None, s)
     else do {
       (r, s) \<leftarrow> body pos s;
       case r of Some _ \<Rightarrow> Some (r, s)
       | None \<Rightarrow> do {
           n' \<leftarrow> get_next (hp s) n;
           for_each_safe_loop hp body head n n' s } })"

definition list_for_each_entry_safe ::
    "('s \<Rightarrow> dheap) \<Rightarrow> (addr \<Rightarrow> 's \<Rightarrow> ('r option \<times> 's) option) \<Rightarrow> addr \<Rightarrow> 's \<Rightarrow> ('r option \<times> 's) option" where
  "list_for_each_entry_safe hp body head s = do {
     pos \<leftarrow> get_next (hp s) head;
     n \<leftarrow> get_next (hp s) pos;
     for_each_safe_loop hp body head pos n s }"

section \<open>Singly linked lists\<close>

type_synonym sheap = "addr \<rightharpoonup> addr"

definition slist_set :: "addr \<Rightarrow> addr \<Rightarrow> sheap \<Rightarrow> sheap option" where
  "slist_set a v h = (if h a = None then None else Some (h(a \<mapsto> v)))"

definition slist_add :: "addr \<Rightarrow> addr \<Rightarrow> sheap \<Rightarrow> sheap option" where
  "slist_add node head h = do {
     nx \<leftarrow> h head;
     h \<leftarrow> slist_set node nx h;
     slist_set head node h }"

partial_function (option) slist_add_tail :: "addr \<Rightarrow> addr \<Rightarrow> sheap \<Rightarrow> sheap option" where
  "slist_add_tail node head h = do {
     nx \<leftarrow> h head;
     if nx \<noteq> 0 then slist_add_tail node nx h else slist_add node head h }"

partial_function (option) slist_del :: "addr \<Rightarrow> addr \<Rightarrow> sheap \<Rightarrow> sheap option" where
  "slist_del node head h = do {
     nx \<leftarrow> h head;
     if nx = 0 then Some h
     else if nx = node then do { v \<leftarrow> h node; slist_set head v h }
     else slist_del node nx h }"

definition slist_empty :: "sheap \<Rightarrow> addr \<Rightarrow> bool option" where
  "slist_empty h head = map_option (\<lambda>n. n = 0) (h head)"

definition slist_init :: "addr \<Rightarrow> sheap \<Rightarrow> sheap option" where
  "slist_init head h = slist_set head 0 h"

partial_function (option) slist_number_loop :: "sheap \<Rightarrow> addr \<Rightarrow> int \<Rightarrow> int option" where
  "slist_number_loop h cur n = do {
     nx \<leftarrow> h cur;
     if nx \<noteq> 0 then slist_number_loop h nx (n + 1) else Some n }"

definition slist_entry_number :: "sheap \<Rightarrow> addr \<Rightarrow> int option" where
  "slist_entry_number h queue = slist_number_loop h queue 0"

section \<open>Lists in the heap\<close>

text \<open>A chain of links in both directions from \<open>a\<close> over the nodes \<open>xs\<close> to \<open>b\<close>.\<close>

fun chain :: "dheap \<Rightarrow> addr \<Rightarrow> addr list \<Rightarrow> addr \<Rightarrow> bool" where
  "chain h a [] b \<longleftrightarrow> get_next h a = Some b \<and> get_prev h b = Some a"
| "chain h a (x # xs) b \<longleftrightarrow> get_next h a = Some x \<and> get_prev h x = Some a \<and> chain h x xs b"

definition dlist :: "dheap \<Rightarrow> addr \<Rightarrow> addr list \<Rightarrow> bool" where
  "dlist h q xs \<longleftrightarrow> distinct (q # xs) \<and> chain h q xs q"

named_theorems heap_simps \<open>writing list nodes, and reading after it\<close>

definition upd_next :: "addr \<Rightarrow> addr \<Rightarrow> dheap \<Rightarrow> dheap" where
  "upd_next a v h = h(a := map_option (\<lambda>n. n\<lparr>next := v\<rparr>) (h a))"

definition upd_prev :: "addr \<Rightarrow> addr \<Rightarrow> dheap \<Rightarrow> dheap" where
  "upd_prev a v h = h(a := map_option (\<lambda>n. n\<lparr>prev := v\<rparr>) (h a))"

lemma set_upd [heap_simps]:
  "a \<in> dom h \<Longrightarrow> set_next a v h = Some (upd_next a v h)" "a \<in> dom h \<Longrightarrow> set_prev a v h = Some (upd_prev a v h)"
  by (auto simp: set_next_def set_prev_def upd_next_def upd_prev_def)

lemma dom_upd [heap_simps]: "dom (upd_next a v h) = dom h" "dom (upd_prev a v h) = dom h"
  by (auto simp: upd_next_def upd_prev_def)

lemma get_upd [heap_simps]:
  "get_next (upd_next a v h) b = (if b = a \<and> a \<in> dom h then Some v else get_next h b)" "get_prev (upd_next a v h) b = get_prev h b"
  "get_prev (upd_prev a v h) b = (if b = a \<and> a \<in> dom h then Some v else get_prev h b)" "get_next (upd_prev a v h) b = get_next h b"
  by (cases "h a"; auto simp: upd_next_def upd_prev_def get_next_def get_prev_def)+

lemma upd_other [heap_simps]: "b \<noteq> a \<Longrightarrow> upd_next a v h b = h b" "b \<noteq> a \<Longrightarrow> upd_prev a v h b = h b"
  by (simp_all add: upd_next_def upd_prev_def)

lemma get_dom: "get_next h a = Some b \<Longrightarrow> a \<in> dom h" "get_prev h a = Some b \<Longrightarrow> a \<in> dom h"
  by (auto simp: get_next_def get_prev_def)

lemma chain_append: "chain h a (xs @ y # ys) b \<longleftrightarrow> chain h a xs y \<and> chain h y ys b"
  by (induction xs arbitrary: a) auto

lemma chain_dom: "chain h a xs b \<Longrightarrow> insert a (insert b (set xs)) \<subseteq> dom h"
  by (induction xs arbitrary: a) (auto dest: get_dom)

lemma chain_cong:
  "chain h a xs b \<Longrightarrow> (\<And>x. x \<in> insert a (set xs) \<Longrightarrow> get_next h' x = get_next h x)
    \<Longrightarrow> (\<And>x. x \<in> insert b (set xs) \<Longrightarrow> get_prev h' x = get_prev h x) \<Longrightarrow> chain h' a xs b"
  by (induction xs arbitrary: a) auto

lemma chain_last: "chain h a xs b \<Longrightarrow> get_next h (last (a # xs)) = Some b \<and> get_prev h b = Some (last (a # xs))"
  by (induction xs arbitrary: a) (auto split: if_split_asm)

lemma chain_first: "chain h a xs b \<Longrightarrow> get_next h a = Some (hd (xs @ [b])) \<and> get_prev h (hd (xs @ [b])) = Some a"
  by (cases xs) auto

text \<open>Turning the end of a chain to another node.\<close>

lemma chain_retarget:
  assumes "chain h a xs b" "distinct (a # xs)"
    "\<And>x. x \<in> set (butlast (a # xs)) \<Longrightarrow> get_next h' x = get_next h x" "\<And>x. x \<in> set xs \<Longrightarrow> get_prev h' x = get_prev h x"
    "get_next h' (last (a # xs)) = Some c" "get_prev h' c = Some (last (a # xs))"
  shows "chain h' a xs c"
  using assms by (induction xs arbitrary: a) (auto split: if_split_asm)

lemma butlast_not_last: "distinct (a # xs) \<Longrightarrow> x \<in> set (butlast (a # xs)) \<Longrightarrow> x \<noteq> last (a # xs)"
  by (metis append_butlast_last_id distinct_append distinct_singleton list.distinct(1) list.set_intros(1) disjoint_iff)

section \<open>Insertion and removal\<close>

lemma add_between_refines:
  assumes "dlist h q (xs @ ys)" "node \<in> dom h" "node \<notin> set (q # xs @ ys)" "pv = last (q # xs)" "nx = hd (ys @ [q])"
  shows "\<exists>h'. dlist_add_between node pv nx h = Some h' \<and> dlist h' q (xs @ node # ys) \<and> dom h' = dom h
    \<and> (\<forall>b. b \<notin> set (node # q # xs @ ys) \<longrightarrow> h' b = h b)"
proof -
  let ?h = "upd_prev nx node (upd_next pv node (upd_prev node pv (upd_next node nx h)))"
  have d: "distinct (q # xs @ ys)" "chain h q (xs @ ys) q" using assms(1) by (simp_all add: dlist_def)
  note sub = chain_dom [OF d(2)]
  have pv: "pv \<in> set (q # xs)" using assms(4) last_in_set by blast
  have nx: "nx \<in> set (ys @ [q])" using assms(5) by (cases ys) simp_all
  have doms: "pv \<in> dom h" "nx \<in> dom h" using sub pv nx by auto
  then have run: "dlist_add_between node pv nx h = Some ?h" using assms(2) by (simp add: dlist_add_between_def heap_simps)
  have pn: "pv \<noteq> node" "nx \<noteq> node" using assms(3) pv nx by auto
  have left: "chain h q xs (hd (ys @ [q]))" using d(2) by (cases ys) (simp_all add: chain_append)
  have "chain ?h q xs node"
  proof (rule chain_retarget [OF left])
    show "distinct (q # xs)" using d(1) by simp
    fix x assume "x \<in> set (butlast (q # xs))"
    then have "x \<in> set (q # xs)" by (rule in_set_butlastD)
    moreover have "distinct (q # xs)" using d(1) by simp
    then have "x \<noteq> pv" unfolding assms(4) using \<open>x \<in> set (butlast (q # xs))\<close> by (rule butlast_not_last)
    ultimately have "x \<noteq> pv" "x \<in> set (q # xs)" by simp_all
    then show "get_next ?h x = get_next h x" using assms(3) by (auto simp: heap_simps)
  next
    fix x assume "x \<in> set xs"
    then show "get_prev ?h x = get_prev h x" using assms(3) nx d(1) by (auto simp: heap_simps)
  qed (use assms(2,4) doms pn in \<open>simp_all add: heap_simps\<close>)
  moreover have "chain ?h node ys q"
  proof (cases ys)
    case Nil
    then show ?thesis using assms(2,5) doms pn by (simp add: heap_simps)
  next
    case (Cons y ys')
    then have r: "chain h y ys' q" "nx = y" using d(2) assms(5) by (simp_all add: chain_append)
    have "chain ?h y ys' q"
      using r(1) by (rule chain_cong) (use Cons r(2) assms(3) pv d(1) in \<open>auto simp: heap_simps\<close>)
    then show ?thesis using Cons r(2) assms(2) doms pn by (simp add: heap_simps)
  qed
  ultimately have "dlist ?h q (xs @ node # ys)" using d(1) assms(3) by (auto simp: dlist_def chain_append)
  moreover have "dom ?h = dom h" by (simp add: heap_simps)
  moreover have "?h b = h b" if "b \<notin> set (node # q # xs @ ys)" for b
  proof -
    have "b \<noteq> pv" "b \<noteq> nx" "b \<noteq> node" using that pv nx by auto
    then show ?thesis by (simp add: heap_simps)
  qed
  ultimately show ?thesis using run by blast
qed

lemma del_refines:
  assumes "dlist h q (xs @ x # ys)"
  shows "\<exists>h'. dlist_del x h = Some h' \<and> dlist h' q (xs @ ys) \<and> dom h' = dom h \<and> (\<forall>b. b \<notin> set (q # xs @ ys) \<longrightarrow> h' b = h b)"
proof -
  let ?pv = "last (q # xs)" and ?nx = "hd (ys @ [q])"
  let ?h = "upd_prev ?nx ?pv (upd_next ?pv ?nx h)"
  have d: "distinct (q # xs @ x # ys)" "chain h q xs x" "chain h x ys q" using assms by (simp_all add: dlist_def chain_append)
  have l: "get_prev h x = Some ?pv" "get_next h x = Some ?nx" using chain_last [OF d(2)] chain_first [OF d(3)] by simp_all
  have pv: "?pv \<in> set (q # xs)" using last_in_set by blast
  have nx: "?nx \<in> set (ys @ [q])" by (cases ys) simp_all
  have doms: "?pv \<in> dom h" "?nx \<in> dom h" using chain_dom [OF d(2)] chain_dom [OF d(3)] pv nx by auto
  have run: "dlist_del x h = Some ?h" using doms l by (simp add: dlist_del_def heap_simps)
  have left: "chain ?h q xs ?nx"
  proof (rule chain_retarget [OF d(2)])
    show "distinct (q # xs)" using d(1) by simp
    fix z assume "z \<in> set (butlast (q # xs))"
    then show "get_next ?h z = get_next h z" using butlast_not_last [of q xs z] d(1) by (auto simp: heap_simps)
  next
    fix z assume "z \<in> set xs"
    then show "get_prev ?h z = get_prev h z" using nx d(1) by (auto simp: heap_simps)
  qed (use doms in \<open>simp_all add: heap_simps\<close>)
  have "chain ?h q (xs @ ys) q"
  proof (cases ys)
    case Nil
    then show ?thesis using left by simp
  next
    case (Cons y ys')
    have y: "chain h y ys' q" "?nx = y" "?pv \<notin> set ys" "y \<notin> insert q (set ys')" using d(1,3) Cons pv by auto
    have "chain ?h y ys' q" using y(1)
    proof (rule chain_cong)
      fix z assume "z \<in> insert y (set ys')"
      then have "z \<noteq> ?pv" using y(3) Cons by auto
      then show "get_next ?h z = get_next h z" by (simp only: heap_simps) simp
    next
      fix z assume "z \<in> insert q (set ys')"
      then have "z \<noteq> ?nx" using y(2,4) by auto
      then show "get_prev ?h z = get_prev h z" by (simp only: heap_simps) simp
    qed
    then show ?thesis using Cons left by (simp add: chain_append)
  qed
  then have "dlist ?h q (xs @ ys)" using d(1) by (auto simp: dlist_def)
  moreover have "?h b = h b" if "b \<notin> set (q # xs @ ys)" for b
  proof -
    have "b \<noteq> ?pv" "b \<noteq> ?nx" using that pv nx by auto
    then show ?thesis by (simp add: heap_simps)
  qed
  moreover have "dom ?h = dom h" by (simp add: heap_simps)
  ultimately show ?thesis using run by blast
qed

lemma dlistD:
  assumes "dlist h q xs"
  shows "distinct (q # xs)" "get_next h q = Some (hd (xs @ [q]))" "get_prev h q = Some (last (q # xs))" "insert q (set xs) \<subseteq> dom h"
  using assms chain_first [of h q xs q] chain_last [of h q xs q] chain_dom [of h q xs q] by (auto simp: dlist_def)

lemma dlist_next: "dlist h q (xs @ x # ys) \<Longrightarrow> get_next h x = Some (hd (ys @ [q]))"
  by (simp add: dlist_def chain_append chain_first)

lemma dlist_frame: "dlist h q xs \<Longrightarrow> (\<And>b. b \<in> set (q # xs) \<Longrightarrow> h' b = h b) \<Longrightarrow> dlist h' q xs"
  unfolding dlist_def by (auto intro!: chain_cong [of h] simp: get_next_def get_prev_def)

lemma init_refines: "q \<in> dom h \<Longrightarrow> \<exists>h'. INIT_AOS_DLIST_HEAD q h = Some h' \<and> dlist h' q [] \<and> dom h' = dom h \<and> (\<forall>b. b \<noteq> q \<longrightarrow> h' b = h b)"
  by (simp add: INIT_AOS_DLIST_HEAD_def dlist_def heap_simps)

lemma add_tail_refines:
  assumes "dlist h q xs" "node \<in> dom h" "node \<notin> set (q # xs)"
  shows "\<exists>h'. dlist_add_tail node q h = Some h' \<and> dlist h' q (xs @ [node]) \<and> dom h' = dom h \<and> (\<forall>b. b \<notin> set (node # q # xs) \<longrightarrow> h' b = h b)"
  using add_between_refines [of h q xs "[]" node "last (q # xs)" q] assms dlistD(3) [OF assms(1)]
  by (simp add: dlist_add_tail_def del: last.simps)

lemma add_refines:
  assumes "dlist h q xs" "node \<in> dom h" "node \<notin> set (q # xs)"
  shows "\<exists>h'. dlist_add node q h = Some h' \<and> dlist h' q (node # xs) \<and> dom h' = dom h \<and> (\<forall>b. b \<notin> set (node # q # xs) \<longrightarrow> h' b = h b)"
  using add_between_refines [of h q "[]" xs node q "hd (xs @ [q])"] assms dlistD(2) [OF assms(1)]
  by (simp add: dlist_add_def)

lemma del_init_refines:
  assumes "dlist h q (xs @ x # ys)"
  shows "\<exists>h'. list_del_init x h = Some h' \<and> dlist h' q (xs @ ys) \<and> dlist h' x [] \<and> dom h' = dom h"
proof -
  obtain h1 where h1: "dlist_del x h = Some h1" "dlist h1 q (xs @ ys)" "dom h1 = dom h" using del_refines [OF assms] by blast
  have x: "x \<in> dom h1" "x \<notin> set (q # xs @ ys)" using dlistD(1,4) [OF assms] h1(3) by auto
  obtain h2 where h2: "INIT_AOS_DLIST_HEAD x h1 = Some h2" "dlist h2 x []" "dom h2 = dom h1" "\<forall>b. b \<noteq> x \<longrightarrow> h2 b = h1 b"
    using init_refines [OF x(1)] by blast
  have "dlist h2 q (xs @ ys)" using h1(2) by (rule dlist_frame) (use h2(4) x(2) in auto)
  with h1 h2 show ?thesis by (simp add: list_del_init_def)
qed

lemma empty_refines: "dlist h q xs \<Longrightarrow> dlist_empty h q = Some (xs = [])"
  using dlistD(1,2) [of h q xs] by (cases xs) (auto simp: dlist_empty_def)

lemma number_loop: "dlist h q (xs @ ys) \<Longrightarrow> entry_number_loop h q (last (q # xs)) n = Some (n + int (length ys))"
proof (induction ys arbitrary: xs n)
  case Nil
  then show ?case using chain_last [of h q xs q] by (subst entry_number_loop.simps) (simp add: dlist_def del: last.simps)
next
  case (Cons y ys)
  have "chain h q xs y" "y \<noteq> q" using Cons.prems by (auto simp: dlist_def chain_append)
  then have "get_next h (last (q # xs)) = Some y" using chain_last by blast
  then have "entry_number_loop h q (last (q # xs)) n = entry_number_loop h q (last (q # xs @ [y])) (n + 1)"
    using \<open>y \<noteq> q\<close> by (subst entry_number_loop.simps) simp
  also have "\<dots> = Some (n + 1 + int (length ys))" using Cons.IH [of "xs @ [y]" "n + 1"] Cons.prems by simp
  finally show ?case by simp
qed

lemma number_refines: "dlist h q xs \<Longrightarrow> dlist_entry_number h q = Some (int (length xs))"
  using number_loop [of h q "[]" xs 0] by (simp add: dlist_entry_number_def)

section \<open>Iteration\<close>

text \<open>A walk over a list: \<open>I ys s\<close> holds when the nodes \<open>ys\<close> are still to be visited, \<open>Q r s\<close> when the body has left
  the loop with \<open>r\<close>.  The body may unlink and free the node it is called with.\<close>

locale list_walk =
  fixes hp :: "'s \<Rightarrow> dheap" and body :: "addr \<Rightarrow> 's \<Rightarrow> ('r option \<times> 's) option" and head :: addr
    and I :: "addr list \<Rightarrow> 's \<Rightarrow> bool" and Q :: "'r \<Rightarrow> 's \<Rightarrow> bool"
  assumes linked: "I ys s \<Longrightarrow> \<exists>xs. dlist (hp s) head (xs @ ys)"
    and step: "I (y # ys) s \<Longrightarrow> \<exists>r s'. body y s = Some (r, s') \<and> (case r of None \<Rightarrow> I ys s' | Some v \<Rightarrow> Q v s')"
begin

lemma walk_from:
  "I ys s \<Longrightarrow> \<exists>r s'. for_each_safe_loop hp body head (hd (ys @ [head])) (hd (tl (ys @ [head]) @ zs)) s = Some (r, s')
     \<and> (case r of None \<Rightarrow> I [] s' | Some v \<Rightarrow> Q v s')"
proof (induction ys arbitrary: s zs)
  case Nil
  then show ?case by (subst for_each_safe_loop.simps) simp
next
  case (Cons y ys)
  obtain xs where "dlist (hp s) head (xs @ y # ys)" using linked [OF Cons.prems] by blast
  then have "y \<noteq> head" using dlistD(1) by fastforce
  obtain r s' where b: "body y s = Some (r, s')" "case r of None \<Rightarrow> I ys s' | Some v \<Rightarrow> Q v s'" using step [OF Cons.prems] by blast
  show ?case
  proof (cases r)
    case None
    then have inv: "I ys s'" using b(2) by simp
    then obtain xs' where l: "dlist (hp s') head (xs' @ ys)" using linked by blast
    have "\<exists>ws. get_next (hp s') (hd (ys @ [head])) = Some (hd (tl (ys @ [head]) @ ws))"
    proof (cases ys)
      case Nil
      then have "get_next (hp s') (hd (ys @ [head])) = Some (hd (tl (ys @ [head]) @ [hd ((xs' @ ys) @ [head])]))"
        using dlistD(2) [OF l] by simp
      then show ?thesis by blast
    next
      case (Cons z zs')
      then have "get_next (hp s') (hd (ys @ [head])) = Some (hd (tl (ys @ [head]) @ []))" using dlist_next l by simp
      then show ?thesis by blast
    qed
    then obtain ws where "get_next (hp s') (hd (ys @ [head])) = Some (hd (tl (ys @ [head]) @ ws))" by blast
    moreover have "hd (tl ((y # ys) @ [head]) @ zs) = hd (ys @ [head])" by (cases ys) simp_all
    ultimately show ?thesis
      using Cons.IH [OF inv, of ws] b(1) None \<open>y \<noteq> head\<close> by (subst for_each_safe_loop.simps) simp
  next
    case (Some v)
    with b \<open>y \<noteq> head\<close> show ?thesis by (subst for_each_safe_loop.simps) simp
  qed
qed

lemma walk:
  assumes "I xs s" "dlist (hp s) head xs"
  shows "\<exists>r s'. list_for_each_entry_safe hp body head s = Some (r, s') \<and> (case r of None \<Rightarrow> I [] s' | Some v \<Rightarrow> Q v s')"
proof -
  have first: "get_next (hp s) head = Some (hd (xs @ [head]))" using dlistD(2) [OF assms(2)] .
  obtain zs where "get_next (hp s) (hd (xs @ [head])) = Some (hd (tl (xs @ [head]) @ zs))"
  proof (cases xs)
    case Nil
    with first that [of "[head]"] show ?thesis by simp
  next
    case (Cons x xs')
    with dlist_next [of "hp s" head "[]" x xs'] assms(2) that [of "[]"] show ?thesis by simp
  qed
  with walk_from [OF assms(1), of zs] first show ?thesis by (simp add: list_for_each_entry_safe_def)
qed

lemma walk_all:
  assumes "\<And>v s. \<not> Q v s" "I xs s" "dlist (hp s) head xs"
  shows "\<exists>s'. list_for_each_entry_safe hp body head s = Some (None, s') \<and> I [] s'"
proof -
  obtain r s' where "list_for_each_entry_safe hp body head s = Some (r, s')" "case r of None \<Rightarrow> I [] s' | Some v \<Rightarrow> Q v s'" using walk [OF assms(2,3)] by blast
  then show ?thesis using assms(1) by (cases r) simp_all
qed

end

text \<open>The macro without a fetched successor also needs that the body leaves the node in its place.\<close>

locale list_scan = list_walk +
  assumes stays: "I (y # ys) s \<Longrightarrow> body y s = Some (None, s') \<Longrightarrow> get_next (hp s') y = Some (hd (ys @ [head]))"
begin

lemma scan_from:
  "I ys s \<Longrightarrow> \<exists>r s'. for_each_loop hp body head (hd (ys @ [head])) s = Some (r, s') \<and> (case r of None \<Rightarrow> I [] s' | Some v \<Rightarrow> Q v s')"
proof (induction ys arbitrary: s)
  case Nil
  then show ?case by (subst for_each_loop.simps) simp
next
  case (Cons y ys)
  obtain xs where "dlist (hp s) head (xs @ y # ys)" using linked [OF Cons.prems] by blast
  then have "y \<noteq> head" using dlistD(1) by fastforce
  obtain r s' where b: "body y s = Some (r, s')" "case r of None \<Rightarrow> I ys s' | Some v \<Rightarrow> Q v s'" using step [OF Cons.prems] by blast
  show ?case
  proof (cases r)
    case None
    with Cons.IH [of s'] b stays [OF Cons.prems, of s'] \<open>y \<noteq> head\<close> show ?thesis by (subst for_each_loop.simps) simp
  next
    case (Some v)
    with b \<open>y \<noteq> head\<close> show ?thesis by (subst for_each_loop.simps) simp
  qed
qed

lemma scan:
  assumes "I xs s" "dlist (hp s) head xs"
  shows "\<exists>r s'. list_for_each_entry hp body head s = Some (r, s') \<and> (case r of None \<Rightarrow> I [] s' | Some v \<Rightarrow> Q v s')"
  using scan_from [OF assms(1)] dlistD(2) [OF assms(2)] by (simp add: list_for_each_entry_def)

end

section \<open>Singly linked lists in the heap\<close>

fun spath :: "sheap \<Rightarrow> addr \<Rightarrow> addr list \<Rightarrow> bool" where
  "spath h a [] \<longleftrightarrow> h a = Some 0"
| "spath h a (x # xs) \<longleftrightarrow> h a = Some x \<and> x \<noteq> 0 \<and> spath h x xs"

definition slist :: "sheap \<Rightarrow> addr \<Rightarrow> addr list \<Rightarrow> bool" where
  "slist h q xs \<longleftrightarrow> distinct (q # xs) \<and> spath h q xs"

lemma spath_upd: "a \<notin> set (q # xs) \<Longrightarrow> spath (h(a := v)) q xs = spath h q xs"
  by (induction xs arbitrary: q) auto

lemma spath_dom: "spath h q xs \<Longrightarrow> x \<in> set (q # xs) \<Longrightarrow> x \<in> dom h"
  by (induction xs arbitrary: q) auto

lemma slist_add_refines:
  assumes "slist h q xs" "node \<in> dom h" "node \<notin> set (q # xs)" "node \<noteq> 0"
  shows "\<exists>h'. slist_add node q h = Some h' \<and> slist h' q (node # xs)"
proof -
  obtain nx where q: "h q = Some nx" using spath_dom [of h q xs q] assms(1) by (auto simp: slist_def)
  let ?h = "h(node \<mapsto> nx, q \<mapsto> node)"
  have "spath ?h node xs"
    using assms q by (cases xs) (auto simp: slist_def spath_upd)
  with q assms show ?thesis by (auto simp: slist_add_def slist_set_def slist_def)
qed

lemma slist_add_tail_refines:
  "slist h q xs \<Longrightarrow> node \<in> dom h \<Longrightarrow> node \<notin> set (q # xs) \<Longrightarrow> node \<noteq> 0
    \<Longrightarrow> \<exists>h'. slist_add_tail node q h = Some h' \<and> slist h' q (xs @ [node]) \<and> (\<forall>a. a \<notin> set (node # q # xs) \<longrightarrow> h' a = h a)"
proof (induction xs arbitrary: q)
  case Nil
  then show ?case by (subst slist_add_tail.simps) (auto simp: slist_def slist_add_def slist_set_def)
next
  case (Cons x xs)
  then have "slist h x xs" "h q = Some x" "x \<noteq> 0" by (auto simp: slist_def)
  then obtain h' where h': "slist_add_tail node x h = Some h'" "slist h' x (xs @ [node])" "\<forall>a. a \<notin> set (node # x # xs) \<longrightarrow> h' a = h a"
    using Cons.IH [of x] Cons.prems by auto
  moreover have "h' q = Some x" using h'(3) Cons.prems \<open>h q = Some x\<close> by (auto simp: slist_def)
  ultimately show ?case using Cons.prems \<open>h q = Some x\<close> \<open>x \<noteq> 0\<close> by (subst slist_add_tail.simps) (auto simp: slist_def)
qed

lemma slist_del_refines:
  "slist h q xs \<Longrightarrow> node \<noteq> q \<Longrightarrow> \<exists>h'. slist_del node q h = Some h' \<and> slist h' q (remove1 node xs) \<and> (\<forall>a. a \<notin> set (q # xs) \<longrightarrow> h' a = h a)"
proof (induction xs arbitrary: q)
  case Nil
  then show ?case by (subst slist_del.simps) (auto simp: slist_def)
next
  case (Cons x xs)
  then have x: "slist h x xs" "h q = Some x" "x \<noteq> 0" "q \<noteq> x" "q \<notin> set xs" by (auto simp: slist_def)
  show ?case
  proof (cases "x = node")
    case True
    obtain v where v: "h node = Some v" using spath_dom [of h x xs x] x(1) True by (auto simp: slist_def)
    have "spath (h(q \<mapsto> v)) q xs" using x v True by (cases xs) (auto simp: slist_def spath_upd)
    then show ?thesis using True x v by (subst slist_del.simps) (auto simp: slist_def slist_set_def)
  next
    case False
    then obtain h' where h': "slist_del node x h = Some h'" "slist h' x (remove1 node xs)" "\<forall>a. a \<notin> set (x # xs) \<longrightarrow> h' a = h a"
      using Cons.IH [OF x(1)] by auto
    moreover have "h' q = Some x" using h'(3) x by auto
    ultimately show ?thesis using False x by (subst slist_del.simps) (auto simp: slist_def dest: notin_set_remove1)
  qed
qed

lemma slist_number: "spath h q xs \<Longrightarrow> slist_number_loop h q n = Some (n + int (length xs))"
  by (induction xs arbitrary: q n; subst slist_number_loop.simps) auto

lemma slist_empty_refines: "slist h q xs \<Longrightarrow> slist_empty h q = Some (xs = [])"
  by (cases xs) (auto simp: slist_def slist_empty_def)

section \<open>The operations on lists\<close>

text \<open>C25. The operations on doubly linked lists do what they are named after: on the circular list of the nodes
  \<open>xs\<close> with head \<open>q\<close>, adding a node outside of it puts it first or last, deleting a node
  removes it, the length and the test for emptiness are those of \<open>xs\<close>; no pointer is followed outside of the heap, and
  nodes that are neither in the list nor added stay as they are.\<close>

theorem dlist_operations_refine:
  assumes "dlist h q xs" "node \<in> dom h" "node \<notin> set (q # xs)"
  shows "(\<exists>h'. dlist_add node q h = Some h' \<and> dlist h' q (node # xs) \<and> dom h' = dom h \<and> (\<forall>b. b \<notin> set (node # q # xs) \<longrightarrow> h' b = h b))
    \<and> (\<exists>h'. dlist_add_tail node q h = Some h' \<and> dlist h' q (xs @ [node]) \<and> dom h' = dom h \<and> (\<forall>b. b \<notin> set (node # q # xs) \<longrightarrow> h' b = h b))
    \<and> (\<forall>x \<in> set xs. \<exists>h'. dlist_del x h = Some h' \<and> dlist h' q (remove1 x xs) \<and> dom h' = dom h \<and> (\<forall>b. b \<notin> set (q # remove1 x xs) \<longrightarrow> h' b = h b))
    \<and> dlist_empty h q = Some (xs = []) \<and> dlist_entry_number h q = Some (int (length xs))"
proof (intro conjI ballI)
  fix x assume "x \<in> set xs"
  then obtain ys zs where x: "xs = ys @ x # zs" "x \<notin> set ys" by (meson split_list_first)
  then have r: "remove1 x xs = ys @ zs" by (simp add: remove1_append)
  show "\<exists>h'. dlist_del x h = Some h' \<and> dlist h' q (remove1 x xs) \<and> dom h' = dom h \<and> (\<forall>b. b \<notin> set (q # remove1 x xs) \<longrightarrow> h' b = h b)"
    unfolding r using del_refines [of h q ys x zs] assms(1) x(1) by simp
qed (use add_refines [OF assms] add_tail_refines [OF assms] empty_refines number_refines assms(1) in simp_all)

theorem dlist_operations_refine_witness:
  "\<exists>h'. dlist_add_tail 3 1 [1 \<mapsto> \<lparr>prev = 2, next = 2\<rparr>, 2 \<mapsto> \<lparr>prev = 1, next = 1\<rparr>, 3 \<mapsto> \<lparr>prev = 0, next = 0\<rparr>] = Some h' \<and> dlist h' 1 [2, 3]"
  using dlist_operations_refine [of "[1 \<mapsto> \<lparr>prev = 2, next = 2\<rparr>, 2 \<mapsto> \<lparr>prev = 1, next = 1\<rparr>, 3 \<mapsto> \<lparr>prev = 0, next = 0\<rparr>]" 1 "[2]" 3]
  by (auto simp: dlist_def get_next_def get_prev_def)

end
