(* ===== verification/DM_Ipc.thy ===== *)
theory DM_Ipc
  imports Infra_List Infra_String
begin

text \<open>
  The message queue of the device model, \<open>src/eng/dev_model/dm_ipc.c\<close>, and the functions of \<open>dm_message.c\<close> that put
  messages for the application into it.  Memory is explicit: list nodes are in the heap \<open>links\<close> of
  \<open>Infra_List\<close>, the other fields of the structures in maps over the same addresses, and using or freeing what is not
  allocated is \<open>None\<close>.  Addresses are not reused.  The record is extended by the message cache.
\<close>

section \<open>State\<close>

record dm_ipc_msg_t =
  im_type :: nat
  im_data :: addr

record dm =
  links :: dheap
  ipc_nodes :: "addr \<rightharpoonup> addr"
  ipc_msgs :: "addr \<rightharpoonup> dm_ipc_msg_t"
  texts :: "addr \<rightharpoonup> bytes"
  brk :: addr
  ipc_mutex :: bool
  ipc_max_size :: int
  ipc_size :: int
  ipc_locked :: int
  dm_mallocs :: nat
  dm_clock :: nat

text \<open>The platform: whether an allocation or a mutex is granted, the clock, and what an allocated block contains.\<close>

record dm_env =
  dm_malloc_ok :: "nat \<Rightarrow> bool"
  dm_mutex_ok :: bool
  dm_uptime :: "nat \<Rightarrow> nat"
  dm_junk :: byte

abbreviation (input) null :: addr where "null \<equiv> 0"
abbreviation (input) dmc_head :: addr where "dmc_head \<equiv> 1"
abbreviation (input) ipc_head :: addr where "ipc_head \<equiv> 2"
abbreviation (input) SUCCESS_RETURN :: int where "SUCCESS_RETURN \<equiv> 0"
abbreviation (input) STATE_USER_INPUT_INVALID :: int where "STATE_USER_INPUT_INVALID \<equiv> -0x113"
abbreviation (input) STATE_SYS_DEPEND_MALLOC :: int where "STATE_SYS_DEPEND_MALLOC \<equiv> -0x201"
abbreviation (input) STATE_SYS_DEPEND_MUTEX_CREATE :: int where "STATE_SYS_DEPEND_MUTEX_CREATE \<equiv> -0x205"
abbreviation (input) STATE_DEV_MODEL_MSGQ_FULL :: int where "STATE_DEV_MODEL_MSGQ_FULL \<equiv> -0x92D"
abbreviation (input) STATE_DEV_MODEL_MSGQ_EMPTY :: int where "STATE_DEV_MODEL_MSGQ_EMPTY \<equiv> -0x92E"

section \<open>Memory\<close>

definition DM_malloc :: "dm_env \<Rightarrow> 'a dm_scheme \<Rightarrow> addr \<times> 'a dm_scheme" where
  "DM_malloc e s = (if dm_malloc_ok e (dm_mallocs s) then (brk s, s\<lparr>brk := brk s + 1, dm_mallocs := dm_mallocs s + 1\<rparr>)
     else (null, s\<lparr>dm_mallocs := dm_mallocs s + 1\<rparr>))"

definition free_text :: "addr \<Rightarrow> 'a dm_scheme \<Rightarrow> 'a dm_scheme option" where
  "free_text a s = (if texts s a = None then None else Some (s\<lparr>texts := (texts s)(a := None)\<rparr>))"

definition free_ipc_msg :: "addr \<Rightarrow> 'a dm_scheme \<Rightarrow> 'a dm_scheme option" where
  "free_ipc_msg a s = (if ipc_msgs s a = None then None else Some (s\<lparr>ipc_msgs := (ipc_msgs s)(a := None)\<rparr>))"

definition free_ipc_node :: "addr \<Rightarrow> 'a dm_scheme \<Rightarrow> 'a dm_scheme option" where
  "free_ipc_node a s = (if ipc_nodes s a = None then None
     else Some (s\<lparr>ipc_nodes := (ipc_nodes s)(a := None), links := (links s)(a := None)\<rparr>))"

definition on_links :: "(dheap \<Rightarrow> dheap option) \<Rightarrow> 'a dm_scheme \<Rightarrow> 'a dm_scheme option" where
  "on_links f s = map_option (\<lambda>h. s\<lparr>links := h\<rparr>) (f (links s))"

section \<open>The queue\<close>

definition dm_ipc_lock :: "'a dm_scheme \<Rightarrow> 'a dm_scheme" where
  "dm_ipc_lock s = (if ipc_mutex s then s\<lparr>ipc_locked := ipc_locked s + 1\<rparr> else s)"

definition dm_ipc_unlock :: "'a dm_scheme \<Rightarrow> 'a dm_scheme" where
  "dm_ipc_unlock s = (if ipc_mutex s then s\<lparr>ipc_locked := ipc_locked s - 1\<rparr> else s)"

definition dm_ipc_init :: "dm_env \<Rightarrow> int \<Rightarrow> 'a dm_scheme \<Rightarrow> (int \<times> 'a dm_scheme) option" where
  "dm_ipc_init e limit s = do {
     let s = s\<lparr>ipc_mutex := False, ipc_max_size := 0, ipc_size := 0, links := (links s)(ipc_head \<mapsto> \<lparr>prev = null, next = null\<rparr>)\<rparr>;
     if \<not> dm_mutex_ok e then Some (STATE_SYS_DEPEND_MUTEX_CREATE, s)
     else do {
       let s = s\<lparr>ipc_mutex := True, ipc_max_size := limit\<rparr>;
       s \<leftarrow> on_links (INIT_AOS_DLIST_HEAD ipc_head) s;
       Some (SUCCESS_RETURN, s) } }"

text \<open>The body of the loop in \<open>dm_ipc_deinit\<close>.\<close>

definition ipc_deinit_body :: "addr \<Rightarrow> 'a dm_scheme \<Rightarrow> (unit option \<times> 'a dm_scheme) option" where
  "ipc_deinit_body node s = do {
     m \<leftarrow> ipc_nodes s node;
     msg \<leftarrow> ipc_msgs s m;
     s \<leftarrow> (if im_data msg \<noteq> null then free_text (im_data msg) s else Some s);
     s \<leftarrow> free_ipc_msg m s;
     s \<leftarrow> on_links (dlist_del node) s;
     s \<leftarrow> free_ipc_node node s;
     Some (None, s) }"

definition dm_ipc_deinit :: "'a dm_scheme \<Rightarrow> 'a dm_scheme option" where
  "dm_ipc_deinit s = map_option snd (list_for_each_entry_safe links ipc_deinit_body ipc_head s)"

definition dm_ipc_msg_insert :: "dm_env \<Rightarrow> addr \<Rightarrow> 'a dm_scheme \<Rightarrow> (int \<times> 'a dm_scheme) option" where
  "dm_ipc_msg_insert e data s =
    (if data = null then Some (STATE_USER_INPUT_INVALID, s)
     else do {
       let s = dm_ipc_lock s;
       if ipc_size s \<ge> ipc_max_size s then Some (STATE_DEV_MODEL_MSGQ_FULL, dm_ipc_unlock s)
       else do {
         let (node, s) = DM_malloc e s;
         if node = null then Some (STATE_SYS_DEPEND_MALLOC, dm_ipc_unlock s)
         else do {
           let s = s\<lparr>links := (links s)(node \<mapsto> \<lparr>prev = null, next = null\<rparr>), ipc_nodes := (ipc_nodes s)(node \<mapsto> null)\<rparr>;
           let s = s\<lparr>ipc_nodes := (ipc_nodes s)(node \<mapsto> data)\<rparr>;
           s \<leftarrow> on_links (INIT_AOS_DLIST_HEAD node) s;
           let s = s\<lparr>ipc_size := ipc_size s + 1\<rparr>;
           s \<leftarrow> on_links (dlist_add_tail node ipc_head) s;
           Some (SUCCESS_RETURN, dm_ipc_unlock s) } } })"

text \<open>\<open>out\<close> is the object the pointer \<open>data\<close> points to.\<close>

definition dm_ipc_msg_next :: "addr option \<Rightarrow> 'a dm_scheme \<Rightarrow> (int \<times> addr option \<times> 'a dm_scheme) option" where
  "dm_ipc_msg_next outp s =
    (if outp \<noteq> Some null then Some (STATE_USER_INPUT_INVALID, outp, s)
     else do {
       let s = dm_ipc_lock s;
       e \<leftarrow> dlist_empty (links s) ipc_head;
       if e then Some (STATE_DEV_MODEL_MSGQ_EMPTY, outp, dm_ipc_unlock s)
       else do {
         node \<leftarrow> dlist_first_entry (links s) ipc_head;
         s \<leftarrow> on_links (dlist_del node) s;
         let s = s\<lparr>ipc_size := ipc_size s - 1\<rparr>;
         d \<leftarrow> ipc_nodes s node;
         s \<leftarrow> free_ipc_node node s;
         Some (SUCCESS_RETURN, Some d, dm_ipc_unlock s) } })"

section \<open>Messages for the application\<close>

definition dm_msg_send_to_user :: "dm_env \<Rightarrow> nat \<Rightarrow> addr \<Rightarrow> 'a dm_scheme \<Rightarrow> (int \<times> 'a dm_scheme) option" where
  "dm_msg_send_to_user e t message s = do {
     let (m, s) = DM_malloc e s;
     if m = null then Some (STATE_SYS_DEPEND_MALLOC, s)
     else do {
       let s = s\<lparr>ipc_msgs := (ipc_msgs s)(m \<mapsto> \<lparr>im_type = t, im_data = message\<rparr>)\<rparr>;
       (res, s) \<leftarrow> dm_ipc_msg_insert e m s;
       if res \<noteq> SUCCESS_RETURN then do { s \<leftarrow> free_ipc_msg m s; Some (res, s) }
       else Some (SUCCESS_RETURN, s) } }"

text \<open>The text of the format \<open>DM_MSG_SEND_MSG_TIMEOUT_FMT\<close>.\<close>

definition timeout_text :: "int \<Rightarrow> int \<Rightarrow> bytes" where
  "timeout_text i devid = c_lit ''{\"id\":'' @ fmt_int i @ c_lit '',\"code\":'' @ fmt_int 100000 @ c_lit '',\"devid\":'' @ fmt_int devid @ c_lit ''}''"

definition dm_msg_send_msg_timeout_to_user :: "dm_env \<Rightarrow> int \<Rightarrow> int \<Rightarrow> nat \<Rightarrow> 'a dm_scheme \<Rightarrow> (int \<times> 'a dm_scheme) option" where
  "dm_msg_send_msg_timeout_to_user e i devid t s = do {
     let message_len = 30 + 10 * 3 + 1;
     let (message, s) = DM_malloc e s;
     if message = null then Some (STATE_SYS_DEPEND_MALLOC, s)
     else do {
       let s = s\<lparr>texts := (texts s)(message \<mapsto> padded message_len (take (message_len - 1) (timeout_text i devid)) @ [dm_junk e])\<rparr>;
       (res, s) \<leftarrow> dm_msg_send_to_user e t message s;
       if res \<noteq> SUCCESS_RETURN then do { s \<leftarrow> free_text message s; Some (res, s) }
       else Some (res, s) } }"

section \<open>The queue in memory\<close>

definition dm_mem_ok :: "'a dm_scheme \<Rightarrow> bool" where
  "dm_mem_ok s \<longleftrightarrow> 3 \<le> brk s \<and> (\<forall>a. a \<in> dom (links s) \<union> dom (ipc_nodes s) \<union> dom (ipc_msgs s) \<union> dom (texts s) \<longrightarrow> a < brk s)"

text \<open>The nodes \<open>xs\<close> hold the pointers \<open>ds\<close>.\<close>

definition ipc_rep :: "'a dm_scheme \<Rightarrow> addr list \<Rightarrow> addr list \<Rightarrow> bool" where
  "ipc_rep s xs ds \<longleftrightarrow> dlist (links s) ipc_head xs \<and> map (ipc_nodes s) xs = map Some ds \<and> ipc_size s = int (length xs) \<and> (\<forall>x \<in> set xs. 3 \<le> x)"

definition ipc_frame :: "'a dm_scheme \<Rightarrow> 'a dm_scheme \<Rightarrow> bool" where
  "ipc_frame s s' \<longleftrightarrow> ipc_mutex s' = ipc_mutex s \<and> ipc_max_size s' = ipc_max_size s \<and> ipc_locked s' = ipc_locked s \<and> dm_clock s' = dm_clock s
     \<and> dm.more s' = dm.more s"

definition ipc_quiet :: "'a dm_scheme \<Rightarrow> 'a dm_scheme \<Rightarrow> bool" where
  "ipc_quiet s s' \<longleftrightarrow> links s' = links s \<and> ipc_nodes s' = ipc_nodes s \<and> ipc_msgs s' = ipc_msgs s \<and> texts s' = texts s \<and> brk s' = brk s
     \<and> ipc_size s' = ipc_size s"

lemma ipc_rep_length: "ipc_rep s xs ds \<Longrightarrow> length ds = length xs"
  unfolding ipc_rep_def by (metis length_map)

lemma quiet_keeps: "ipc_quiet s s' \<Longrightarrow> dm_mem_ok s' = dm_mem_ok s" "ipc_quiet s s' \<Longrightarrow> ipc_rep s' xs ds = ipc_rep s xs ds"
  by (simp_all add: ipc_quiet_def dm_mem_ok_def ipc_rep_def)

lemma lock_fields [simp]:
  "links (dm_ipc_lock s) = links s" "ipc_nodes (dm_ipc_lock s) = ipc_nodes s" "ipc_msgs (dm_ipc_lock s) = ipc_msgs s" "texts (dm_ipc_lock s) = texts s"
  "brk (dm_ipc_lock s) = brk s" "ipc_mutex (dm_ipc_lock s) = ipc_mutex s" "ipc_max_size (dm_ipc_lock s) = ipc_max_size s" "ipc_size (dm_ipc_lock s) = ipc_size s"
  "dm_mallocs (dm_ipc_lock s) = dm_mallocs s" "dm_clock (dm_ipc_lock s) = dm_clock s" "dm.more (dm_ipc_lock s) = dm.more s"
  "ipc_locked (dm_ipc_lock s) = (if ipc_mutex s then ipc_locked s + 1 else ipc_locked s)"
  "links (dm_ipc_unlock s) = links s" "ipc_nodes (dm_ipc_unlock s) = ipc_nodes s" "ipc_msgs (dm_ipc_unlock s) = ipc_msgs s" "texts (dm_ipc_unlock s) = texts s"
  "brk (dm_ipc_unlock s) = brk s" "ipc_mutex (dm_ipc_unlock s) = ipc_mutex s" "ipc_max_size (dm_ipc_unlock s) = ipc_max_size s" "ipc_size (dm_ipc_unlock s) = ipc_size s"
  "dm_mallocs (dm_ipc_unlock s) = dm_mallocs s" "dm_clock (dm_ipc_unlock s) = dm_clock s" "dm.more (dm_ipc_unlock s) = dm.more s"
  "ipc_locked (dm_ipc_unlock s) = (if ipc_mutex s then ipc_locked s - 1 else ipc_locked s)"
  by (simp_all add: dm_ipc_lock_def dm_ipc_unlock_def)

lemma map_upd_other: "a \<notin> set xs \<Longrightarrow> map (m(a := v)) xs = map m xs"
  by (induction xs) auto

lemma ipc_insert_spec:
  assumes "dm_mem_ok s" "ipc_rep s xs ds" "d \<noteq> null"
  shows "\<exists>rc s'. dm_ipc_msg_insert e d s = Some (rc, s') \<and> ipc_frame s s' \<and>
    (if ipc_size s < ipc_max_size s \<and> dm_malloc_ok e (dm_mallocs s)
     then rc = SUCCESS_RETURN \<and> ipc_rep s' (xs @ [brk s]) (ds @ [d]) \<and> dm_mem_ok s' \<and> ipc_msgs s' = ipc_msgs s \<and> texts s' = texts s \<and> brk s' = brk s + 1
       \<and> (\<forall>a. a \<notin> set (brk s # ipc_head # xs) \<longrightarrow> links s' a = links s a)
     else rc \<noteq> SUCCESS_RETURN \<and> ipc_quiet s s')"
proof (cases "ipc_size s < ipc_max_size s \<and> dm_malloc_ok e (dm_mallocs s)")
  case True
  let ?n = "brk s"
  have l: "dlist (links s) ipc_head xs" "\<forall>x \<in> set xs. 3 \<le> x" using assms(2) by (simp_all add: ipc_rep_def)
  have below: "\<forall>a \<in> dom (links s). a < ?n" "3 \<le> ?n" using assms(1) by (simp_all add: dm_mem_ok_def)
  have n: "?n \<notin> set (ipc_head # xs)" "3 \<le> ?n" using dlistD(4) [OF l(1)] below by auto
  let ?h0 = "(links s)(?n \<mapsto> \<lparr>prev = null, next = null\<rparr>)"
  have "?n \<in> dom ?h0" by simp
  from init_refines [OF this] obtain h1 where h1: "INIT_AOS_DLIST_HEAD ?n ?h0 = Some h1" "dom h1 = dom ?h0" "\<forall>b. b \<noteq> ?n \<longrightarrow> h1 b = ?h0 b" by blast
  have "dlist h1 ipc_head xs" using l(1)
  proof (rule dlist_frame)
    fix b assume "b \<in> set (ipc_head # xs)"
    then have "b \<noteq> ?n" using n(1) by blast
    then show "h1 b = links s b" using h1(3) by simp
  qed
  then obtain h2 where h2: "dlist_add_tail ?n ipc_head h1 = Some h2" "dlist h2 ipc_head (xs @ [?n])" "dom h2 = dom h1"
      "\<forall>b. b \<notin> set (?n # ipc_head # xs) \<longrightarrow> h2 b = h1 b"
    using add_tail_refines [of h1 ipc_head xs ?n] n h1(2) by auto
  obtain s' where s': "dm_ipc_msg_insert e d s = Some (SUCCESS_RETURN, s')" "ipc_frame s s'" "links s' = h2" "ipc_nodes s' = (ipc_nodes s)(?n \<mapsto> d)"
      "ipc_size s' = ipc_size s + 1" "ipc_msgs s' = ipc_msgs s" "texts s' = texts s" "brk s' = brk s + 1"
    using True assms(3) n h1(1) h2(1)
    by (simp add: dm_ipc_msg_insert_def DM_malloc_def on_links_def ipc_frame_def Let_def)
  have "ipc_rep s' (xs @ [?n]) (ds @ [d])" using assms(2) s' h2(2) n by (simp add: ipc_rep_def map_upd_other)
  moreover have "dm_mem_ok s'" using assms(1) s' h2(3) h1(2) by (auto simp: dm_mem_ok_def less_Suc_eq)
  moreover have "\<forall>a. a \<notin> set (?n # ipc_head # xs) \<longrightarrow> links s' a = links s a" using s'(3) h2(4) h1(3) by auto
  ultimately show ?thesis using True s' by auto
next
  case False
  then show ?thesis using assms(3)
    by (auto simp: dm_ipc_msg_insert_def DM_malloc_def ipc_frame_def ipc_quiet_def Let_def)
qed

lemma ipc_next_spec:
  assumes "dm_mem_ok s" "ipc_rep s xs ds"
  shows "\<exists>s'. dm_ipc_msg_next (Some null) s = Some (case ds of [] \<Rightarrow> (STATE_DEV_MODEL_MSGQ_EMPTY, Some null, s') | d # _ \<Rightarrow> (SUCCESS_RETURN, Some d, s'))
    \<and> ipc_frame s s' \<and> dm_mem_ok s' \<and> ipc_rep s' (tl xs) (tl ds) \<and> ipc_msgs s' = ipc_msgs s \<and> texts s' = texts s
    \<and> (\<forall>a. a \<notin> set (ipc_head # xs) \<longrightarrow> links s' a = links s a)"
proof (cases xs)
  case Nil
  then have "ds = []" using ipc_rep_length [OF assms(2)] by simp
  moreover have "dlist_empty (links s) ipc_head = Some True" using empty_refines [of "links s" ipc_head xs] assms(2) Nil by (simp add: ipc_rep_def)
  ultimately show ?thesis using assms Nil
    by (simp add: dm_ipc_msg_next_def ipc_frame_def dm_mem_ok_def ipc_rep_def)
next
  case (Cons x xs')
  then obtain d ds' where ds: "ds = d # ds'" "ipc_nodes s x = Some d" "map (ipc_nodes s) xs' = map Some ds'"
    using assms(2) by (auto simp: ipc_rep_def Cons_eq_map_conv)
  have l: "dlist (links s) ipc_head (x # xs')" "\<forall>y \<in> set xs. 3 \<le> y" "ipc_size s = int (length xs)" using assms(2) Cons by (simp_all add: ipc_rep_def)
  obtain h where h: "dlist_del x (links s) = Some h" "dlist h ipc_head xs'" "dom h = dom (links s)" "\<forall>b. b \<notin> set (ipc_head # xs') \<longrightarrow> h b = links s b"
    using del_refines [of "links s" ipc_head "[]" x xs'] l(1) by auto
  have x: "x \<notin> set (ipc_head # xs')" using dlistD(1) [OF l(1)] by auto
  have "dlist_empty (links s) ipc_head = Some False" "dlist_first_entry (links s) ipc_head = Some x"
    using empty_refines [OF l(1)] dlistD(2) [OF l(1)] by (simp_all add: dlist_first_entry_def)
  then obtain s' where s': "dm_ipc_msg_next (Some null) s = Some (SUCCESS_RETURN, Some d, s')" "ipc_frame s s'" "links s' = h(x := None)"
      "ipc_nodes s' = (ipc_nodes s)(x := None)" "ipc_size s' = ipc_size s - 1" "ipc_msgs s' = ipc_msgs s" "texts s' = texts s" "brk s' = brk s"
    using h(1) ds(2) by (simp add: dm_ipc_msg_next_def on_links_def free_ipc_node_def ipc_frame_def Let_def)
  have "dlist (h(x := None)) ipc_head xs'" using h(2) by (rule dlist_frame) (use x in auto)
  then have "ipc_rep s' xs' ds'" using s' ds(3) l(2,3) Cons x by (auto simp: ipc_rep_def map_upd_other)
  moreover have "dm_mem_ok s'" using assms(1) s' h(3) by (auto simp: dm_mem_ok_def)
  moreover have "\<forall>a. a \<notin> set (ipc_head # xs) \<longrightarrow> links s' a = links s a" using s'(3) h(4) Cons by auto
  ultimately show ?thesis using s' ds(1) Cons by auto
qed

section \<open>First in, first out\<close>

datatype 'd queue_op = Put 'd | Get

text \<open>Running a sequence of operations: the items that were accepted and the items that were delivered.\<close>

fun run_queue :: "('d \<Rightarrow> 's \<Rightarrow> (bool \<times> 's) option) \<Rightarrow> ('s \<Rightarrow> ('d option \<times> 's) option) \<Rightarrow> 'd queue_op list \<Rightarrow> 's
    \<Rightarrow> ('d list \<times> 'd list \<times> 's) option" where
  "run_queue put get [] s = Some ([], [], s)"
| "run_queue put get (Put d # ops) s = do {
     (ok, s) \<leftarrow> put d s;
     (acc, del, s) \<leftarrow> run_queue put get ops s;
     Some (if ok then d # acc else acc, del, s) }"
| "run_queue put get (Get # ops) s = do {
     (r, s) \<leftarrow> get s;
     (acc, del, s) \<leftarrow> run_queue put get ops s;
     Some (acc, case r of None \<Rightarrow> del | Some d \<Rightarrow> d # del, s) }"

fun items :: "'d queue_op list \<Rightarrow> 'd set" where
  "items [] = {}" | "items (Put d # ops) = insert d (items ops)" | "items (Get # ops) = items ops"

locale fifo =
  fixes put :: "'d \<Rightarrow> 's \<Rightarrow> (bool \<times> 's) option" and get :: "'s \<Rightarrow> ('d option \<times> 's) option"
    and rep :: "'s \<Rightarrow> 'd list \<Rightarrow> bool" and item :: "'d \<Rightarrow> bool"
  assumes put_ok: "rep s q \<Longrightarrow> item d \<Longrightarrow> \<exists>ok s'. put d s = Some (ok, s') \<and> rep s' (if ok then q @ [d] else q)"
    and get_ok: "rep s q \<Longrightarrow> \<exists>s'. get s = Some (case q of [] \<Rightarrow> None | d # _ \<Rightarrow> Some d, s') \<and> rep s' (tl q)"
begin

lemma fifo_run:
  "rep s q \<Longrightarrow> (\<forall>d \<in> items ops. item d) \<Longrightarrow> \<exists>acc del s' q'. run_queue put get ops s = Some (acc, del, s') \<and> rep s' q' \<and> del @ q' = q @ acc"
proof (induction ops arbitrary: s q)
  case (Cons op ops)
  show ?case
  proof (cases op)
    case (Put d)
    then obtain ok s1 where s1: "put d s = Some (ok, s1)" "rep s1 (if ok then q @ [d] else q)" using put_ok [OF Cons.prems(1), of d] Cons.prems(2) by auto
    from Cons.IH [OF s1(2)] Cons.prems(2) Put obtain acc del s' q' where
      "run_queue put get ops s1 = Some (acc, del, s')" "rep s' q'" "del @ q' = (if ok then q @ [d] else q) @ acc" by auto
    with s1 Put show ?thesis by (cases ok) (simp_all, blast+)
  next
    case Get
    obtain s1 where s1: "get s = Some (case q of [] \<Rightarrow> None | d # _ \<Rightarrow> Some d, s1)" "rep s1 (tl q)" using get_ok [OF Cons.prems(1)] by blast
    from Cons.IH [OF s1(2)] Cons.prems(2) Get obtain acc del s' q' where
      "run_queue put get ops s1 = Some (acc, del, s')" "rep s' q'" "del @ q' = tl q @ acc" by auto
    with s1 Get show ?thesis by (cases q) (simp_all, blast+)
  qed
qed simp

end

definition ipc_put :: "dm_env \<Rightarrow> addr \<Rightarrow> 'a dm_scheme \<Rightarrow> (bool \<times> 'a dm_scheme) option" where
  "ipc_put e d s = map_option (\<lambda>(rc, s). (rc = SUCCESS_RETURN, s)) (dm_ipc_msg_insert e d s)"

definition ipc_get :: "'a dm_scheme \<Rightarrow> (addr option \<times> 'a dm_scheme) option" where
  "ipc_get s = map_option (\<lambda>(rc, outp, s). (if rc = SUCCESS_RETURN then outp else None, s)) (dm_ipc_msg_next (Some null) s)"

definition ipc_holds :: "'a dm_scheme \<Rightarrow> addr list \<Rightarrow> bool" where
  "ipc_holds s ds \<longleftrightarrow> dm_mem_ok s \<and> (\<exists>xs. ipc_rep s xs ds)"

interpretation ipc: fifo "ipc_put e" ipc_get ipc_holds "\<lambda>d. d \<noteq> null"
proof
  fix s :: "'a dm_scheme" and q d
  assume "ipc_holds s q" "d \<noteq> null"
  then obtain xs where xs: "dm_mem_ok s" "ipc_rep s xs q" by (auto simp: ipc_holds_def)
  from ipc_insert_spec [OF xs \<open>d \<noteq> null\<close>, of e] show "\<exists>ok s'. ipc_put e d s = Some (ok, s') \<and> ipc_holds s' (if ok then q @ [d] else q)"
    using xs by (auto simp: ipc_put_def ipc_holds_def quiet_keeps split: if_split_asm)
next
  fix s :: "'a dm_scheme" and q
  assume "ipc_holds s q"
  then obtain xs where xs: "dm_mem_ok s" "ipc_rep s xs q" by (auto simp: ipc_holds_def)
  from ipc_next_spec [OF xs] obtain s' where
    s': "dm_ipc_msg_next (Some null) s = Some (case q of [] \<Rightarrow> (STATE_DEV_MODEL_MSGQ_EMPTY, Some null, s') | d # _ \<Rightarrow> (SUCCESS_RETURN, Some d, s'))"
      "dm_mem_ok s'" "ipc_rep s' (tl xs) (tl q)" by blast
  then have "ipc_get s = Some (case q of [] \<Rightarrow> None | d # _ \<Rightarrow> Some d, s')" by (cases q) (simp_all add: ipc_get_def)
  moreover have "ipc_holds s' (tl q)" using s'(2,3) by (auto simp: ipc_holds_def)
  ultimately show "\<exists>s'. ipc_get s = Some (case q of [] \<Rightarrow> None | d # _ \<Rightarrow> Some d, s') \<and> ipc_holds s' (tl q)" by blast
qed

lemma ipc_init_holds:
  assumes "dm_mem_ok s" "dm_mutex_ok e"
  shows "\<exists>s'. dm_ipc_init e n s = Some (SUCCESS_RETURN, s') \<and> ipc_holds s' [] \<and> ipc_max_size s' = n \<and> ipc_mutex s'"
proof -
  let ?h = "(links s)(ipc_head \<mapsto> \<lparr>prev = null, next = null\<rparr>)"
  have "ipc_head \<in> dom ?h" by simp
  then obtain h where h: "INIT_AOS_DLIST_HEAD ipc_head ?h = Some h" "dlist h ipc_head []" "dom h = dom ?h" using init_refines by metis
  let ?s = "s\<lparr>ipc_mutex := True, ipc_max_size := n, ipc_size := 0, links := h\<rparr>"
  have "dm_ipc_init e n s = Some (SUCCESS_RETURN, ?s)" using assms(2) h(1) by (simp add: dm_ipc_init_def on_links_def Let_def)
  moreover have "dm_mem_ok ?s" using assms(1) h(3) by (auto simp: dm_mem_ok_def)
  moreover have "ipc_rep ?s [] []" using h(2) by (simp add: ipc_rep_def)
  ultimately show ?thesis unfolding ipc_holds_def by fastforce
qed

text \<open>C13. The message queue is a queue, at the level of its memory: from an initialised queue every sequence of insertions
  and removals runs without following a dangling pointer, and what was taken out, followed by what is still in it,
  is what was accepted, in the order of insertion.\<close>

theorem ipc_is_fifo:
  assumes "dm_mem_ok s" "dm_mutex_ok e" "dm_ipc_init e n s = Some (rc, s0)" "null \<notin> items ops"
  shows "\<exists>acc del s' q. run_queue (ipc_put e) ipc_get ops s0 = Some (acc, del, s') \<and> ipc_holds s' q \<and> del @ q = acc"
proof -
  have "ipc_holds s0 []" using ipc_init_holds [OF assms(1,2), of n] assms(3) by auto
  moreover have "\<forall>d \<in> items ops. d \<noteq> null" using assms(4) by (metis)
  ultimately have "\<exists>acc del s' q'. run_queue (ipc_put e) ipc_get ops s0 = Some (acc, del, s') \<and> ipc_holds s' q' \<and> del @ q' = [] @ acc"
    by (rule ipc.fifo_run)
  then show ?thesis by simp
qed

definition empty_dm :: dm where
  "empty_dm = \<lparr>links = Map.empty, ipc_nodes = Map.empty, ipc_msgs = Map.empty, texts = Map.empty, brk = 3, ipc_mutex = False,
     ipc_max_size = 0, ipc_size = 0, ipc_locked = 0, dm_mallocs = 0, dm_clock = 0\<rparr>"

definition sample_dm_env :: dm_env where
  "sample_dm_env = \<lparr>dm_malloc_ok = \<lambda>i. i \<noteq> 1, dm_mutex_ok = True, dm_uptime = \<lambda>i. 1000 * i, dm_junk = 7\<rparr>"

theorem ipc_is_fifo_witness:
  "\<exists>acc del s' q. run_queue (ipc_put sample_dm_env) ipc_get [Put 9, Put 8, Get, Put 7, Get] (snd (the (dm_ipc_init sample_dm_env 50 empty_dm))) = Some (acc, del, s')
    \<and> ipc_holds s' q \<and> del @ q = acc"
proof (rule ipc_is_fifo)
  show m: "dm_mem_ok empty_dm" "dm_mutex_ok sample_dm_env" by (simp_all add: dm_mem_ok_def empty_dm_def sample_dm_env_def)
  show "dm_ipc_init sample_dm_env 50 empty_dm = Some (SUCCESS_RETURN, snd (the (dm_ipc_init sample_dm_env 50 empty_dm)))"
    using ipc_init_holds [OF m, of 50] by auto
qed simp

end
