(* ===== verification/DM_Message_Cache.thy ===== *)
theory DM_Message_Cache
  imports DM_Ipc "HOL-Library.Sublist"
begin

text \<open>
  The cache of requests that wait for an answer of the cloud, \<open>src/eng/dev_model/dm_message_cache.c\<close>, at the level of its
  linked list, together with the message queue of \<open>DM_Ipc\<close> into which it puts a message for every request that times out.
\<close>

section \<open>State\<close>

record dm_msg_cache_node_t =
  msgid :: int
  devid :: int
  response_type :: nat
  cdata :: addr
  ctime :: nat

record dmc = dm +
  cells :: "addr \<rightharpoonup> dm_msg_cache_node_t"
  dmc_mutex :: bool
  dmc_list_size :: int
  dmc_locked :: int

abbreviation (input) CONFIG_MSGCACHE_QUEUE_MAXLEN :: int where "CONFIG_MSGCACHE_QUEUE_MAXLEN \<equiv> 50"
abbreviation (input) DM_MSG_CACHE_TIMEOUT_MS_DEFAULT :: nat where "DM_MSG_CACHE_TIMEOUT_MS_DEFAULT \<equiv> 10000"
abbreviation (input) STATE_DEV_MODEL_CTX_LIST_FULL :: int where "STATE_DEV_MODEL_CTX_LIST_FULL \<equiv> -0x932"
abbreviation (input) STATE_DEV_MODEL_CTX_LIST_EMPTY :: int where "STATE_DEV_MODEL_CTX_LIST_EMPTY \<equiv> -0x933"

definition dm_HAL_UptimeMs :: "dm_env \<Rightarrow> 'a dm_scheme \<Rightarrow> nat \<times> 'a dm_scheme" where
  "dm_HAL_UptimeMs e s = (dm_uptime e (dm_clock s), s\<lparr>dm_clock := dm_clock s + 1\<rparr>)"

definition free_cell :: "addr \<Rightarrow> dmc \<Rightarrow> dmc option" where
  "free_cell a s = (if cells s a = None then None else Some (s\<lparr>cells := (cells s)(a := None), links := (links s)(a := None)\<rparr>))"

definition free_data :: "addr \<Rightarrow> dmc \<Rightarrow> dmc option" where
  "free_data a s = (if a \<noteq> null then free_text a s else Some s)"

definition dm_msg_cache_mutex_lock :: "dmc \<Rightarrow> dmc" where
  "dm_msg_cache_mutex_lock s = (if dmc_mutex s then s\<lparr>dmc_locked := dmc_locked s + 1\<rparr> else s)"

definition dm_msg_cache_mutex_unlock :: "dmc \<Rightarrow> dmc" where
  "dm_msg_cache_mutex_unlock s = (if dmc_mutex s then s\<lparr>dmc_locked := dmc_locked s - 1\<rparr> else s)"

section \<open>Operations\<close>

definition dm_msg_cache_init :: "dm_env \<Rightarrow> dmc \<Rightarrow> (int \<times> dmc) option" where
  "dm_msg_cache_init e s = do {
     let s = s\<lparr>dmc_mutex := False, dmc_list_size := 0, links := (links s)(dmc_head \<mapsto> \<lparr>prev = null, next = null\<rparr>)\<rparr>;
     if \<not> dm_mutex_ok e then Some (STATE_SYS_DEPEND_MUTEX_CREATE, s)
     else do {
       let s = s\<lparr>dmc_mutex := True\<rparr>;
       s \<leftarrow> on_links (INIT_AOS_DLIST_HEAD dmc_head) s;
       Some (SUCCESS_RETURN, s) } }"

text \<open>The loop of \<open>dm_msg_cache_deinit\<close> gives the mutex back in every round.\<close>

definition cache_deinit_body :: "addr \<Rightarrow> dmc \<Rightarrow> (unit option \<times> dmc) option" where
  "cache_deinit_body node s = do {
     s \<leftarrow> on_links (dlist_del node) s;
     c \<leftarrow> cells s node;
     s \<leftarrow> free_data (cdata c) s;
     s \<leftarrow> free_cell node s;
     Some (None, dm_msg_cache_mutex_unlock s) }"

definition dm_msg_cache_deinit :: "dmc \<Rightarrow> (int \<times> dmc) option" where
  "dm_msg_cache_deinit s = do {
     let s = dm_msg_cache_mutex_lock s;
     (_, s) \<leftarrow> list_for_each_entry_safe links cache_deinit_body dmc_head s;
     Some (SUCCESS_RETURN, dm_msg_cache_mutex_unlock s) }"

definition dm_msg_cache_insert :: "dm_env \<Rightarrow> int \<Rightarrow> int \<Rightarrow> nat \<Rightarrow> addr \<Rightarrow> dmc \<Rightarrow> (int \<times> dmc) option" where
  "dm_msg_cache_insert e i dev t data s =
    (if dmc_list_size s \<ge> CONFIG_MSGCACHE_QUEUE_MAXLEN then Some (STATE_DEV_MODEL_CTX_LIST_FULL, s)
     else do {
       let (node, s) = DM_malloc e s;
       if node = null then Some (STATE_SYS_DEPEND_MALLOC, s)
       else do {
         let (now, s) = dm_HAL_UptimeMs e s;
         let s = s\<lparr>links := (links s)(node \<mapsto> \<lparr>prev = null, next = null\<rparr>),
                   cells := (cells s)(node \<mapsto> \<lparr>msgid = i, devid = dev, response_type = t, cdata = data, ctime = now\<rparr>)\<rparr>;
         s \<leftarrow> on_links (INIT_AOS_DLIST_HEAD node) s;
         let s = dm_msg_cache_mutex_lock s;
         s \<leftarrow> on_links (dlist_add_tail node dmc_head) s;
         let s = s\<lparr>dmc_list_size := dmc_list_size s + 1\<rparr>;
         Some (SUCCESS_RETURN, dm_msg_cache_mutex_unlock s) } })"

definition cache_search_body :: "int \<Rightarrow> addr \<Rightarrow> dmc \<Rightarrow> (addr option \<times> dmc) option" where
  "cache_search_body i node s = do {
     c \<leftarrow> cells s node;
     Some (if msgid c = i then Some node else None, s) }"

definition dm_msg_cache_search :: "int \<Rightarrow> addr option \<Rightarrow> dmc \<Rightarrow> (int \<times> addr option \<times> dmc) option" where
  "dm_msg_cache_search i outp s =
    (if i < 0 \<or> outp \<noteq> Some null then Some (STATE_USER_INPUT_INVALID, outp, s)
     else do {
       let s = dm_msg_cache_mutex_lock s;
       (r, s) \<leftarrow> list_for_each_entry links (cache_search_body i) dmc_head s;
       let s = dm_msg_cache_mutex_unlock s;
       Some (case r of Some node \<Rightarrow> (SUCCESS_RETURN, Some node, s) | None \<Rightarrow> (STATE_DEV_MODEL_CTX_LIST_EMPTY, outp, s)) })"

definition cache_remove_body :: "int \<Rightarrow> addr \<Rightarrow> dmc \<Rightarrow> (unit option \<times> dmc) option" where
  "cache_remove_body i node s = do {
     c \<leftarrow> cells s node;
     if msgid c = i then do {
       s \<leftarrow> on_links (dlist_del node) s;
       s \<leftarrow> free_data (cdata c) s;
       let s = s\<lparr>dmc_list_size := dmc_list_size s - 1\<rparr>;
       s \<leftarrow> free_cell node s;
       Some (Some (), s) }
     else Some (None, s) }"

definition dm_msg_cache_remove :: "int \<Rightarrow> dmc \<Rightarrow> (int \<times> dmc) option" where
  "dm_msg_cache_remove i s = do {
     let s = dm_msg_cache_mutex_lock s;
     (r, s) \<leftarrow> list_for_each_entry_safe links (cache_remove_body i) dmc_head s;
     let s = dm_msg_cache_mutex_unlock s;
     Some (case r of Some _ \<Rightarrow> (SUCCESS_RETURN, s) | None \<Rightarrow> (STATE_DEV_MODEL_CTX_LIST_EMPTY, s)) }"

definition cache_tick_body :: "dm_env \<Rightarrow> nat \<Rightarrow> addr \<Rightarrow> dmc \<Rightarrow> (unit option \<times> dmc) option" where
  "cache_tick_body e now node s = do {
     c \<leftarrow> cells s node;
     let c = (if now < ctime c then c\<lparr>ctime := now\<rparr> else c);
     let s = s\<lparr>cells := (cells s)(node \<mapsto> c)\<rparr>;
     if now - ctime c \<ge> DM_MSG_CACHE_TIMEOUT_MS_DEFAULT then do {
       (_, s) \<leftarrow> dm_msg_send_msg_timeout_to_user e (msgid c) (devid c) (response_type c) s;
       s \<leftarrow> on_links (dlist_del node) s;
       s \<leftarrow> free_data (cdata c) s;
       s \<leftarrow> free_cell node s;
       Some (None, s) }
     else Some (None, s) }"

definition dm_msg_cache_tick :: "dm_env \<Rightarrow> dmc \<Rightarrow> dmc option" where
  "dm_msg_cache_tick e s = do {
     let (now, s) = dm_HAL_UptimeMs e s;
     let s = dm_msg_cache_mutex_lock s;
     (_, s) \<leftarrow> list_for_each_entry_safe links (cache_tick_body e now) dmc_head s;
     Some (dm_msg_cache_mutex_unlock s) }"

section \<open>The cache in memory\<close>

text \<open>The nodes \<open>xs\<close> hold the requests \<open>cs\<close>; the cache owns the data of its requests.\<close>

definition cache_rep :: "dmc \<Rightarrow> addr list \<Rightarrow> dm_msg_cache_node_t list \<Rightarrow> bool" where
  "cache_rep s xs cs \<longleftrightarrow> dlist (links s) dmc_head xs \<and> map (cells s) xs = map Some cs \<and> (\<forall>x \<in> set xs. 3 \<le> x)"

definition owned :: "dm_msg_cache_node_t list \<Rightarrow> addr list" where
  "owned cs = filter (\<lambda>a. a \<noteq> null) (map cdata cs)"

text \<open>What the application sees of a message in the queue: its type and its text.\<close>

definition message :: "'a dm_scheme \<Rightarrow> addr \<Rightarrow> (nat \<times> bytes option) option" where
  "message s d = map_option (\<lambda>m. (im_type m, texts s (im_data m))) (ipc_msgs s d)"

definition cache_ok :: "dmc \<Rightarrow> addr list \<Rightarrow> dm_msg_cache_node_t list \<Rightarrow> addr list \<Rightarrow> addr list \<Rightarrow> bool" where
  "cache_ok s xs cs ys ds \<longleftrightarrow> dm_mem_ok s \<and> (\<forall>a \<in> dom (cells s). a < brk s) \<and> cache_rep s xs cs \<and> ipc_rep s ys ds \<and> set xs \<inter> set ys = {}
     \<and> distinct (owned cs) \<and> set (owned cs) \<subseteq> dom (texts s)
     \<and> (\<forall>d \<in> set ds. \<exists>m. ipc_msgs s d = Some m \<and> im_data m < brk s \<and> im_data m \<notin> set (owned cs))"

lemma owned_simps [simp]:
  "owned [] = []" "owned (c # cs) = (if cdata c = null then owned cs else cdata c # owned cs)" "owned (bs @ cs) = owned bs @ owned cs"
  by (simp_all add: owned_def)

lemma more_fields:
  fixes s s' :: dmc
  assumes "dm.more s' = dm.more s"
  shows "cells s' = cells s" "dmc_mutex s' = dmc_mutex s" "dmc_list_size s' = dmc_list_size s" "dmc_locked s' = dmc_locked s"
  using assms by (cases s; cases s'; simp add: dmc.defs)+

lemma cache_mutex_fields [simp]:
  "links (dm_msg_cache_mutex_lock s) = links s" "cache_ok (dm_msg_cache_mutex_lock s) = cache_ok s" "message (dm_msg_cache_mutex_lock s) = message s"
  "cells (dm_msg_cache_mutex_lock s) = cells s" "texts (dm_msg_cache_mutex_lock s) = texts s" "dmc_list_size (dm_msg_cache_mutex_lock s) = dmc_list_size s"
  "ipc_max_size (dm_msg_cache_mutex_lock s) = ipc_max_size s" "brk (dm_msg_cache_mutex_lock s) = brk s"
  "links (dm_msg_cache_mutex_unlock s) = links s" "cache_ok (dm_msg_cache_mutex_unlock s) = cache_ok s" "message (dm_msg_cache_mutex_unlock s) = message s"
  "cells (dm_msg_cache_mutex_unlock s) = cells s" "texts (dm_msg_cache_mutex_unlock s) = texts s" "dmc_list_size (dm_msg_cache_mutex_unlock s) = dmc_list_size s"
  "ipc_max_size (dm_msg_cache_mutex_unlock s) = ipc_max_size s" "brk (dm_msg_cache_mutex_unlock s) = brk s"
  by (simp_all add: dm_msg_cache_mutex_lock_def dm_msg_cache_mutex_unlock_def fun_eq_iff cache_ok_def dm_mem_ok_def cache_rep_def ipc_rep_def message_def)

lemma cache_rep_length: "cache_rep s xs cs \<Longrightarrow> length cs = length xs"
  unfolding cache_rep_def by (metis length_map)

lemma cache_okD:
  assumes "cache_ok s xs cs ys ds"
  shows "dlist (links s) dmc_head xs" "dlist (links s) ipc_head ys" "map (cells s) xs = map Some cs" "length cs = length xs"
    "ipc_head \<notin> set xs" "dmc_head \<notin> set ys" "null \<notin> set xs" "set xs \<inter> set ys = {}" "brk s \<notin> set xs" "brk s \<notin> set ys" "3 \<le> brk s"
proof -
  show "dlist (links s) dmc_head xs" "map (cells s) xs = map Some cs" "set xs \<inter> set ys = {}" "3 \<le> brk s" "ipc_head \<notin> set xs" "null \<notin> set xs"
    using assms by (auto simp: cache_ok_def cache_rep_def dm_mem_ok_def)
  show l: "dlist (links s) ipc_head ys" and "dmc_head \<notin> set ys" using assms by (auto simp: cache_ok_def ipc_rep_def)
  show "length cs = length xs" using assms cache_rep_length by (auto simp: cache_ok_def)
  have b: "brk s \<notin> dom (links s)" using assms by (auto simp: cache_ok_def dm_mem_ok_def)
  with l show "brk s \<notin> set ys" using dlistD(4) by blast
  from b \<open>dlist (links s) dmc_head xs\<close> show "brk s \<notin> set xs" using dlistD(4) by blast
qed

text \<open>Taking a request out of the cache and freeing its memory.\<close>

definition dropped :: "addr \<Rightarrow> dm_msg_cache_node_t \<Rightarrow> dheap \<Rightarrow> dmc \<Rightarrow> dmc" where
  "dropped y c h s = s\<lparr>links := h(y := None), texts := (if cdata c = null then texts s else (texts s)(cdata c := None)), cells := (cells s)(y := None)\<rparr>"

lemma drop_entry:
  assumes ok: "cache_ok s (ks @ y # rs) (bs @ c # cs) ys ds" and len: "length bs = length ks"
  shows "\<exists>h. dlist_del y (links s) = Some h \<and> cells s y = Some c \<and> (cdata c \<noteq> null \<longrightarrow> texts s (cdata c) \<noteq> None)
    \<and> cache_ok (dropped y c h s) (ks @ rs) (bs @ cs) ys ds \<and> map (message (dropped y c h s)) ds = map (message s) ds"
proof -
  note d = cache_okD [OF ok]
  obtain h where h: "dlist_del y (links s) = Some h" "dlist h dmc_head (ks @ rs)" "dom h = dom (links s)" "\<forall>b. b \<notin> set (dmc_head # ks @ rs) \<longrightarrow> h b = links s b"
    using del_refines [OF d(1)] by blast
  have y: "y \<notin> set (dmc_head # ks @ rs)" "y \<notin> set ys" "y \<noteq> ipc_head" using dlistD(1) [OF d(1)] d(5,8) by auto
  let ?s = "dropped y c h s"
  have maps: "map (cells s) ks = map Some bs" "cells s y = Some c" "map (cells s) rs = map Some cs" using d(3) len by simp_all
  have "dlist (h(y := None)) dmc_head (ks @ rs)" using h(2) by (rule dlist_frame) (use y in auto)
  then have rep: "cache_rep ?s (ks @ rs) (bs @ cs)"
    using y maps ok by (auto simp: cache_rep_def cache_ok_def dropped_def map_upd_other)
  have apart: "b \<notin> set (dmc_head # ks @ rs) \<and> b \<noteq> y" if "b \<in> set (ipc_head # ys)" for b using that y d(5,6,8) by auto
  have "dlist (h(y := None)) ipc_head ys" using d(2) by (rule dlist_frame) (use h(4) apart in simp)
  then have irep: "ipc_rep ?s ys ds" using ok by (simp add: cache_ok_def ipc_rep_def dropped_def)
  have "dm_mem_ok ?s" using ok h(3) by (auto simp: cache_ok_def dm_mem_ok_def dropped_def split: if_split_asm)
  then have "cache_ok ?s (ks @ rs) (bs @ cs) ys ds"
    using ok rep irep unfolding cache_ok_def by (auto simp: dropped_def)
  moreover have "map (message ?s) ds = map (message s) ds"
    using ok by (fastforce simp: cache_ok_def message_def dropped_def)
  ultimately show ?thesis using h(1) maps(2) ok by (auto simp: cache_ok_def)
qed

text \<open>What a request that times out leaves in the queue, and the result of reporting it.\<close>

definition timeout_bytes :: "dm_env \<Rightarrow> int \<Rightarrow> int \<Rightarrow> bytes" where
  "timeout_bytes e i dev = padded 61 (take 60 (timeout_text i dev)) @ [dm_junk e]"

lemma send_to_user_spec:
  assumes "dm_mem_ok s" "ipc_rep s ys ds"
  shows "\<exists>rc s'. dm_msg_send_to_user e t a s = Some (rc, s') \<and> ipc_frame s s' \<and> dm_mem_ok s' \<and> texts s' = texts s \<and> brk s \<le> brk s'
    \<and> (if rc = SUCCESS_RETURN
       then ipc_rep s' (ys @ [brk s + 1]) (ds @ [brk s]) \<and> ipc_msgs s' = (ipc_msgs s)(brk s \<mapsto> \<lparr>im_type = t, im_data = a\<rparr>)
         \<and> (\<forall>b. b \<notin> set ((brk s + 1) # ipc_head # ys) \<longrightarrow> links s' b = links s b)
       else ipc_rep s' ys ds \<and> ipc_msgs s' = ipc_msgs s \<and> links s' = links s)
    \<and> (ipc_size s < ipc_max_size s \<and> (\<forall>i. dm_malloc_ok e i) \<longrightarrow> rc = SUCCESS_RETURN)"
proof (cases "dm_malloc_ok e (dm_mallocs s)")
  case True
  let ?s = "s\<lparr>brk := brk s + 1, dm_mallocs := dm_mallocs s + 1, ipc_msgs := (ipc_msgs s)(brk s \<mapsto> \<lparr>im_type = t, im_data = a\<rparr>)\<rparr>"
  have n: "brk s \<noteq> null" "ipc_msgs s (brk s) = None" using assms(1) by (auto simp: dm_mem_ok_def)
  have ok: "dm_mem_ok ?s" "ipc_rep ?s ys ds" using assms by (auto simp: dm_mem_ok_def ipc_rep_def)
  obtain rc s1 where s1: "dm_ipc_msg_insert e (brk s) ?s = Some (rc, s1)" "ipc_frame ?s s1"
      "if ipc_size ?s < ipc_max_size ?s \<and> dm_malloc_ok e (dm_mallocs ?s)
       then rc = SUCCESS_RETURN \<and> ipc_rep s1 (ys @ [brk ?s]) (ds @ [brk s]) \<and> dm_mem_ok s1 \<and> ipc_msgs s1 = ipc_msgs ?s \<and> texts s1 = texts ?s \<and> brk s1 = brk ?s + 1
         \<and> (\<forall>b. b \<notin> set (brk ?s # ipc_head # ys) \<longrightarrow> links s1 b = links ?s b)
       else rc \<noteq> SUCCESS_RETURN \<and> ipc_quiet ?s s1"
    using ipc_insert_spec [OF ok n(1), of e] by blast
  have eq: "dm_msg_send_to_user e t a s = (if rc \<noteq> SUCCESS_RETURN then free_ipc_msg (brk s) s1 \<bind> (\<lambda>s. Some (rc, s)) else Some (SUCCESS_RETURN, s1))"
    using True n s1(1) by (simp add: dm_msg_send_to_user_def DM_malloc_def)
  show ?thesis
  proof (cases "ipc_size s < ipc_max_size s \<and> dm_malloc_ok e (dm_mallocs s + 1)")
    case True
    with s1(2,3) eq show ?thesis by (simp add: ipc_frame_def)
  next
    case False
    then have q: "rc \<noteq> SUCCESS_RETURN" "ipc_quiet ?s s1" using s1(3) by auto
    let ?t = "s1\<lparr>ipc_msgs := (ipc_msgs s1)(brk s := None)\<rparr>"
    have "dm_msg_send_to_user e t a s = Some (rc, ?t)" using eq q by (simp add: free_ipc_msg_def ipc_quiet_def)
    moreover have "dm_mem_ok ?t" using assms(1) q(2) by (auto simp: ipc_quiet_def dm_mem_ok_def)
    moreover have "ipc_rep ?t ys ds" "ipc_msgs ?t = ipc_msgs s" "texts ?t = texts s" "links ?t = links s" "brk s \<le> brk ?t"
      using assms(2) q(2) n(2) by (simp_all add: ipc_quiet_def ipc_rep_def fun_upd_idem)
    moreover have "ipc_frame s ?t" using s1(2) by (simp add: ipc_frame_def)
    ultimately show ?thesis using q(1) False by auto
  qed
next
  case False
  let ?t = "s\<lparr>dm_mallocs := dm_mallocs s + 1\<rparr>"
  have "dm_msg_send_to_user e t a s = Some (STATE_SYS_DEPEND_MALLOC, ?t)" using False by (simp add: dm_msg_send_to_user_def DM_malloc_def)
  with False assms show ?thesis by (auto simp: ipc_frame_def dm_mem_ok_def ipc_rep_def)
qed

lemma send_timeout_spec:
  assumes "dm_mem_ok s" "ipc_rep s ys ds"
  shows "\<exists>rc s'. dm_msg_send_msg_timeout_to_user e i dev t s = Some (rc, s') \<and> ipc_frame s s' \<and> dm_mem_ok s' \<and> brk s \<le> brk s'
    \<and> (if rc = SUCCESS_RETURN
       then ipc_rep s' (ys @ [brk s + 2]) (ds @ [brk s + 1]) \<and> ipc_msgs s' = (ipc_msgs s)(brk s + 1 \<mapsto> \<lparr>im_type = t, im_data = brk s\<rparr>)
         \<and> texts s' = (texts s)(brk s \<mapsto> timeout_bytes e i dev)
         \<and> (\<forall>b. b \<notin> set ((brk s + 2) # ipc_head # ys) \<longrightarrow> links s' b = links s b)
       else ipc_rep s' ys ds \<and> ipc_msgs s' = ipc_msgs s \<and> texts s' = texts s \<and> links s' = links s)
    \<and> (ipc_size s < ipc_max_size s \<and> (\<forall>i. dm_malloc_ok e i) \<longrightarrow> rc = SUCCESS_RETURN)"
proof (cases "dm_malloc_ok e (dm_mallocs s)")
  case True
  let ?s = "s\<lparr>brk := brk s + 1, dm_mallocs := dm_mallocs s + 1, texts := (texts s)(brk s \<mapsto> timeout_bytes e i dev)\<rparr>"
  have n: "brk s \<noteq> null" "texts s (brk s) = None" using assms(1) by (auto simp: dm_mem_ok_def)
  have ok: "dm_mem_ok ?s" "ipc_rep ?s ys ds" using assms by (auto simp: dm_mem_ok_def ipc_rep_def)
  obtain rc s1 where s1: "dm_msg_send_to_user e t (brk s) ?s = Some (rc, s1)" "ipc_frame ?s s1" "dm_mem_ok s1" "texts s1 = texts ?s" "brk ?s \<le> brk s1"
      "if rc = SUCCESS_RETURN
       then ipc_rep s1 (ys @ [brk ?s + 1]) (ds @ [brk ?s]) \<and> ipc_msgs s1 = (ipc_msgs ?s)(brk ?s \<mapsto> \<lparr>im_type = t, im_data = brk s\<rparr>)
         \<and> (\<forall>b. b \<notin> set ((brk ?s + 1) # ipc_head # ys) \<longrightarrow> links s1 b = links ?s b)
       else ipc_rep s1 ys ds \<and> ipc_msgs s1 = ipc_msgs ?s \<and> links s1 = links ?s"
      "ipc_size ?s < ipc_max_size ?s \<and> (\<forall>i. dm_malloc_ok e i) \<longrightarrow> rc = SUCCESS_RETURN"
    using send_to_user_spec [OF ok, of e t "brk s"] by blast
  have eq: "dm_msg_send_msg_timeout_to_user e i dev t s = (if rc \<noteq> SUCCESS_RETURN then free_text (brk s) s1 \<bind> (\<lambda>s. Some (rc, s)) else Some (rc, s1))"
    using True n(1) s1(1) by (simp add: dm_msg_send_msg_timeout_to_user_def DM_malloc_def timeout_bytes_def)
  show ?thesis
  proof (cases "rc = SUCCESS_RETURN")
    case True
    with s1 eq show ?thesis by (simp add: ipc_frame_def)
  next
    case False
    let ?t = "s1\<lparr>texts := (texts s1)(brk s := None)\<rparr>"
    have "dm_msg_send_msg_timeout_to_user e i dev t s = Some (rc, ?t)" using eq False s1(4) by (simp add: free_text_def)
    moreover have "dm_mem_ok ?t" using s1(3) by (auto simp: dm_mem_ok_def)
    moreover have "ipc_rep ?t ys ds" "ipc_msgs ?t = ipc_msgs s" "texts ?t = texts s" "links ?t = links s" "brk s \<le> brk ?t" "ipc_frame s ?t"
      using s1 False n(2) by (auto simp: ipc_rep_def ipc_frame_def fun_upd_idem)
    ultimately show ?thesis using False s1(7) by auto
  qed
next
  case False
  let ?t = "s\<lparr>dm_mallocs := dm_mallocs s + 1\<rparr>"
  have "dm_msg_send_msg_timeout_to_user e i dev t s = Some (STATE_SYS_DEPEND_MALLOC, ?t)" using False by (simp add: dm_msg_send_msg_timeout_to_user_def DM_malloc_def)
  with False assms show ?thesis by (auto simp: ipc_frame_def dm_mem_ok_def ipc_rep_def)
qed

section \<open>The loops\<close>

text \<open>The clock never runs before a time stamp: \<open>dm_msg_cache_tick\<close> moves such a stamp to the present.\<close>

definition adjust :: "nat \<Rightarrow> dm_msg_cache_node_t \<Rightarrow> dm_msg_cache_node_t" where
  "adjust now c = (if now < ctime c then c\<lparr>ctime := now\<rparr> else c)"

definition req_expired :: "nat \<Rightarrow> dm_msg_cache_node_t \<Rightarrow> bool" where
  "req_expired now c \<longleftrightarrow> ctime c + DM_MSG_CACHE_TIMEOUT_MS_DEFAULT \<le> now"

definition kept :: "nat \<Rightarrow> dm_msg_cache_node_t list \<Rightarrow> dm_msg_cache_node_t list" where
  "kept now cs = map (adjust now) (filter (\<lambda>c. \<not> req_expired now c) cs)"

definition reports :: "dm_env \<Rightarrow> nat \<Rightarrow> dm_msg_cache_node_t list \<Rightarrow> (nat \<times> bytes option) list" where
  "reports e now cs = map (\<lambda>c. (response_type c, Some (timeout_bytes e (msgid c) (devid c)))) (filter (req_expired now) cs)"

lemma adjust_fields [simp]: "msgid (adjust now c) = msgid c" "devid (adjust now c) = devid c" "response_type (adjust now c) = response_type c"
  "cdata (adjust now c) = cdata c"
  by (simp_all add: adjust_def)

lemma owned_adjust: "owned (map (adjust now) cs) = owned cs"
  by (simp add: owned_def comp_def)

lemma req_expired_adjust: "(DM_MSG_CACHE_TIMEOUT_MS_DEFAULT \<le> now - ctime (adjust now c)) = req_expired now c"
  by (auto simp: adjust_def req_expired_def)

lemma keep_entry:
  assumes ok: "cache_ok s (ks @ y # rs) (bs @ c # cs) ys ds" and len: "length bs = length ks" and c: "cdata c' = cdata c"
  shows "cache_ok (s\<lparr>cells := (cells s)(y \<mapsto> c')\<rparr>) (ks @ y # rs) (bs @ c' # cs) ys ds"
proof -
  have "y \<notin> set (ks @ rs)" "cells s y = Some c" using dlistD(1) [OF cache_okD(1) [OF ok]] cache_okD(3) [OF ok] len by auto
  then show ?thesis using ok c len by (auto simp: cache_ok_def cache_rep_def dm_mem_ok_def ipc_rep_def map_upd_other)
qed

text \<open>Allocation keeps the cache and extends the queue.\<close>

lemma cache_ok_grow:
  assumes "cache_ok s xs cs ys ds" "cache_rep s' xs cs" "ipc_rep s' ys' ds'" "dm_mem_ok s'" "brk s \<le> brk s'" "cells s' = cells s"
    "set xs \<inter> set ys' = {}" "dom (texts s) \<subseteq> dom (texts s')"
    "\<And>d. d \<in> set ds' \<Longrightarrow> d \<in> set ds \<and> ipc_msgs s' d = ipc_msgs s d \<or> (\<exists>m. ipc_msgs s' d = Some m \<and> im_data m < brk s' \<and> im_data m \<notin> set (owned cs))"
  shows "cache_ok s' xs cs ys' ds'"
proof -
  have "\<exists>m. ipc_msgs s' d = Some m \<and> im_data m < brk s' \<and> im_data m \<notin> set (owned cs)" if "d \<in> set ds'" for d
    using assms(9) [OF that] assms(1,5) unfolding cache_ok_def by (metis less_le_trans)
  moreover have "\<forall>a \<in> dom (cells s'). a < brk s'" using assms(1,5,6) unfolding cache_ok_def by (metis less_le_trans)
  moreover have "set (owned cs) \<subseteq> dom (texts s')" using assms(1,8) unfolding cache_ok_def by blast
  ultimately show ?thesis using assms(1-4,7) unfolding cache_ok_def by blast
qed

lemma report_entry:
  assumes ok: "cache_ok s xs cs ys ds"
  shows "\<exists>rc s' ys' ds'. dm_msg_send_msg_timeout_to_user e i dev t s = Some (rc, s') \<and> cache_ok s' xs cs ys' ds'
    \<and> map (message s') ds' = map (message s) ds @ (if rc = SUCCESS_RETURN then [Some (t, Some (timeout_bytes e i dev))] else [])
    \<and> (ipc_size s < ipc_max_size s \<and> (\<forall>i. dm_malloc_ok e i) \<longrightarrow> rc = SUCCESS_RETURN) \<and> ipc_frame s s'
    \<and> brk s \<le> brk s' \<and> cells s' = cells s \<and> (\<forall>a < brk s. texts s' a = texts s a)"
proof -
  note d = cache_okD [OF ok]
  have m: "dm_mem_ok s" "ipc_rep s ys ds" using ok by (simp_all add: cache_ok_def)
  obtain rc s' where s': "dm_msg_send_msg_timeout_to_user e i dev t s = Some (rc, s')" "ipc_frame s s'" "dm_mem_ok s'" "brk s \<le> brk s'"
     "if rc = SUCCESS_RETURN
       then ipc_rep s' (ys @ [brk s + 2]) (ds @ [brk s + 1]) \<and> ipc_msgs s' = (ipc_msgs s)(brk s + 1 \<mapsto> \<lparr>im_type = t, im_data = brk s\<rparr>)
         \<and> texts s' = (texts s)(brk s \<mapsto> timeout_bytes e i dev)
         \<and> (\<forall>b. b \<notin> set ((brk s + 2) # ipc_head # ys) \<longrightarrow> links s' b = links s b)
       else ipc_rep s' ys ds \<and> ipc_msgs s' = ipc_msgs s \<and> texts s' = texts s \<and> links s' = links s"
     "ipc_size s < ipc_max_size s \<and> (\<forall>i. dm_malloc_ok e i) \<longrightarrow> rc = SUCCESS_RETURN"
    using send_timeout_spec [OF m, of e i dev t] by blast
  have cells: "cells s' = cells s" using s'(2) by (intro more_fields) (simp add: ipc_frame_def)
  show ?thesis
  proof (cases "rc = SUCCESS_RETURN")
    case False
    then have q: "ipc_rep s' ys ds" "ipc_msgs s' = ipc_msgs s" "texts s' = texts s" "links s' = links s" using s'(5) by auto
    have "cache_rep s' xs cs" using ok cells q by (simp add: cache_ok_def cache_rep_def)
    then have "cache_ok s' xs cs ys ds" using ok q s'(3,4) d(8) by (intro cache_ok_grow [of s xs cs ys ds s']) (auto simp: cells)
    moreover have "map (message s') ds = map (message s) ds" using q by (simp add: message_def)
    ultimately show ?thesis using s'(1,2,4,6) False q(3) cells
      by (intro exI [where x = rc] exI [where x = s'] exI [where x = ys] exI [where x = ds]) simp
  next
    case True
    then have q: "ipc_rep s' (ys @ [brk s + 2]) (ds @ [brk s + 1])" "ipc_msgs s' = (ipc_msgs s)(brk s + 1 \<mapsto> \<lparr>im_type = t, im_data = brk s\<rparr>)"
        "texts s' = (texts s)(brk s \<mapsto> timeout_bytes e i dev)" "\<forall>b. b \<notin> set ((brk s + 2) # ipc_head # ys) \<longrightarrow> links s' b = links s b" using s'(5) by auto
    have lt: "\<forall>x \<in> set xs. x < brk s" using dlistD(4) [OF d(1)] m(1) unfolding dm_mem_ok_def by blast
    have "dlist (links s') dmc_head xs" using d(1)
    proof (rule dlist_frame)
      fix b assume "b \<in> set (dmc_head # xs)"
      then have "b \<notin> set ((brk s + 2) # ipc_head # ys)" using d(5,6,8,11) lt by auto
      with q(4) show "links s' b = links s b" by blast
    qed
    then have rep: "cache_rep s' xs cs" using ok cells by (simp add: cache_ok_def cache_rep_def)
    have below: "a \<in> dom (texts s) \<Longrightarrow> a < brk s" "a \<in> dom (ipc_msgs s) \<Longrightarrow> a < brk s" "a \<in> dom (ipc_msgs s') \<Longrightarrow> a < brk s'" for a
      using m(1) s'(3) unfolding dm_mem_ok_def by blast+
    have "set (owned cs) \<subseteq> dom (texts s)" "set ds \<subseteq> dom (ipc_msgs s)" using ok by (auto simp: cache_ok_def)
    then have new: "brk s \<notin> set (owned cs)" "brk s + 1 \<notin> set ds" "brk s < brk s'"
      using below(1) [of "brk s"] below(2) [of "brk s + 1"] below(3) [of "brk s + 1"] q(2) by auto
    have "set xs \<inter> set (ys @ [brk s + 2]) = {}" using d(8) lt by auto
    with ok rep q(1) s'(3,4) cells have "cache_ok s' xs cs (ys @ [brk s + 2]) (ds @ [brk s + 1])"
    proof (rule cache_ok_grow)
      fix a assume "a \<in> set (ds @ [brk s + 1])"
      then show "a \<in> set ds \<and> ipc_msgs s' a = ipc_msgs s a \<or> (\<exists>m. ipc_msgs s' a = Some m \<and> im_data m < brk s' \<and> im_data m \<notin> set (owned cs))"
        using new q(2) by auto
    qed (use q(3) in auto)
    moreover have "map (message s') (ds @ [brk s + 1]) = map (message s) ds @ [Some (t, Some (timeout_bytes e i dev))]"
      using ok q(2,3) new(2) by (fastforce simp: cache_ok_def message_def)
    ultimately show ?thesis using s'(1,2,4) True q(3) cells
      by (intro exI [where x = rc] exI [where x = s'] exI [where x = "ys @ [brk s + 2]"] exI [where x = "ds @ [brk s + 1]"]) simp
  qed
qed

text \<open>The tick: \<open>bs\<close> are the requests already visited, \<open>fr\<close> the cells outside of the list.  The memory of the expired requests
  among the visited ones is free.\<close>

definition freed :: "nat \<Rightarrow> dm_msg_cache_node_t list \<Rightarrow> dmc \<Rightarrow> bool" where
  "freed now cs s \<longleftrightarrow> (\<forall>c \<in> set cs. req_expired now c \<and> cdata c \<noteq> null \<longrightarrow> cdata c < brk s \<and> texts s (cdata c) = None)"

definition tick_inv :: "dm_env \<Rightarrow> nat \<Rightarrow> dm_msg_cache_node_t list \<Rightarrow> (nat \<times> bytes option) list \<Rightarrow> int \<Rightarrow> int \<Rightarrow> addr set \<Rightarrow> addr list \<Rightarrow> dmc \<Rightarrow> bool" where
  "tick_inv e now cs0 vs n z fr rs s \<longleftrightarrow> (\<exists>ks bs cs ys ds ws. cache_ok s (ks @ rs) (kept now bs @ cs) ys ds \<and> length (kept now bs) = length ks \<and> cs0 = bs @ cs
     \<and> map (message s) ds = map Some (vs @ ws) \<and> subseq ws (reports e now bs)
     \<and> ((\<forall>i. dm_malloc_ok e i) \<and> int (length vs + length (reports e now cs0)) \<le> n \<longrightarrow> ws = reports e now bs)
     \<and> ipc_max_size s = n \<and> dmc_list_size s = z \<and> dom (cells s) - set (ks @ rs) = fr \<and> freed now bs s)"

lemma tick_invI:
  assumes "cache_ok s (ks @ rs) (kept now bs @ cs) ys ds" "length (kept now bs) = length ks" "map (message s) ds = map Some (vs @ ws)" "subseq ws (reports e now bs)"
    "(\<forall>i. dm_malloc_ok e i) \<and> int (length vs + length (reports e now (bs @ cs))) \<le> n \<longrightarrow> ws = reports e now bs" "ipc_max_size s = n" "dmc_list_size s = z"
    "dom (cells s) - set (ks @ rs) = fr" "freed now bs s"
  shows "tick_inv e now (bs @ cs) vs n z fr rs s"
  unfolding tick_inv_def using assms by blast

lemma visited [simp]:
  "kept now [] = []" "reports e now [] = []"
  "kept now (bs @ [c]) = kept now bs @ (if req_expired now c then [] else [adjust now c])"
  "reports e now (bs @ cs) = reports e now bs @ reports e now cs"
  "reports e now (c # cs) = (if req_expired now c then (response_type c, Some (timeout_bytes e (msgid c) (devid c))) # reports e now cs else reports e now cs)"
  by (simp_all add: kept_def reports_def)

lemma tick_step:
  assumes "tick_inv e now cs0 vs n z fr (y # rs) s"
  shows "\<exists>s'. cache_tick_body e now y s = Some (None, s') \<and> tick_inv e now cs0 vs n z fr rs s'"
proof -
  obtain ks bs cs ys ds ws where inv: "cache_ok s (ks @ y # rs) (kept now bs @ cs) ys ds" "length (kept now bs) = length ks" "cs0 = bs @ cs"
      "map (message s) ds = map Some (vs @ ws)" "subseq ws (reports e now bs)"
      "(\<forall>i. dm_malloc_ok e i) \<and> int (length vs + length (reports e now cs0)) \<le> n \<longrightarrow> ws = reports e now bs" "ipc_max_size s = n" "dmc_list_size s = z"
      "dom (cells s) - set (ks @ y # rs) = fr" "freed now bs s"
    using assms unfolding tick_inv_def by blast
  obtain c cs' where cs: "cs = c # cs'" using cache_okD(4) [OF inv(1)] inv(2) by (cases cs) auto
  let ?c = "adjust now c"
  let ?s = "s\<lparr>cells := (cells s)(y \<mapsto> ?c)\<rparr>"
  have cell: "cells s y = Some c" using cache_okD(3) [OF inv(1)] inv(2) cs by simp
  have ok: "cache_ok ?s (ks @ y # rs) (kept now bs @ ?c # cs') ys ds" using inv(1,2) unfolding cs by (rule keep_entry) simp
  have "message ?s = message s" by (simp add: fun_eq_iff message_def)
  then have msgs: "map (message ?s) ds = map Some (vs @ ws)" using inv(4) by simp
  have body: "cache_tick_body e now y s = (if req_expired now c then do {
       (_, s) \<leftarrow> dm_msg_send_msg_timeout_to_user e (msgid c) (devid c) (response_type c) ?s;
       s \<leftarrow> on_links (dlist_del y) s; s \<leftarrow> free_data (cdata c) s; s \<leftarrow> free_cell y s; Some (None, s) } else Some (None, ?s))"
    using cell req_expired_adjust [of now c] by (simp add: cache_tick_body_def adjust_def [symmetric])
  show ?thesis
  proof (cases "req_expired now c")
    case False
    have "freed now (bs @ [c]) ?s" using inv(10) False by (simp add: freed_def)
    moreover have "dom (cells ?s) - set ((ks @ [y]) @ rs) = fr" using inv(9) by auto
    ultimately have "tick_inv e now ((bs @ [c]) @ cs') vs n z fr rs ?s"
      by (intro tick_invI [of _ "ks @ [y]" rs now "bs @ [c]" cs' ys ds vs ws]) (use False ok msgs inv(1-8) cs in simp_all)
    with False body inv(3) cs show ?thesis by simp
  next
    case True
    obtain rc s2 ys2 ds2 where s2: "dm_msg_send_msg_timeout_to_user e (msgid c) (devid c) (response_type c) ?s = Some (rc, s2)"
        "cache_ok s2 (ks @ y # rs) (kept now bs @ ?c # cs') ys2 ds2"
        "map (message s2) ds2 = map (message ?s) ds @ (if rc = SUCCESS_RETURN then [Some (response_type c, Some (timeout_bytes e (msgid c) (devid c)))] else [])"
        "ipc_size ?s < ipc_max_size ?s \<and> (\<forall>i. dm_malloc_ok e i) \<longrightarrow> rc = SUCCESS_RETURN" "ipc_frame ?s s2"
        "brk ?s \<le> brk s2" "cells s2 = cells ?s" "\<forall>a < brk ?s. texts s2 a = texts ?s a"
      using report_entry [OF ok, of e "msgid c" "devid c" "response_type c"] by blast
    obtain h where h: "dlist_del y (links s2) = Some h" "cells s2 y = Some ?c" "cdata c \<noteq> null \<longrightarrow> texts s2 (cdata c) \<noteq> None"
        "cache_ok (dropped y ?c h s2) (ks @ rs) (kept now bs @ cs') ys2 ds2" "map (message (dropped y ?c h s2)) ds2 = map (message s2) ds2"
      using drop_entry [OF s2(2) inv(2)] by auto
    have "cache_tick_body e now y s = Some (None, dropped y ?c h s2)"
      using True body s2(1) h(1,2,3) by (auto simp: on_links_def free_data_def free_text_def free_cell_def dropped_def)
    moreover have "tick_inv e now ((bs @ [c]) @ cs') vs n z fr rs (dropped y ?c h s2)"
    proof (rule tick_invI)
      let ?ws = "ws @ (if rc = SUCCESS_RETURN then [(response_type c, Some (timeout_bytes e (msgid c) (devid c)))] else [])"
      show "cache_ok (dropped y ?c h s2) (ks @ rs) (kept now (bs @ [c]) @ cs') ys2 ds2" "length (kept now (bs @ [c])) = length ks" using True h(4) inv(2) by simp_all
      show "map (message (dropped y ?c h s2)) ds2 = map Some (vs @ ?ws)" using h(5) s2(3) msgs by simp
      show "subseq ?ws (reports e now (bs @ [c]))" using inv(5) True by (simp add: subseq_rev_drop_many reports_def)
      show "ipc_max_size (dropped y ?c h s2) = n" "dmc_list_size (dropped y ?c h s2) = z"
        using s2(5) inv(7,8) more_fields [of s2 ?s] by (simp_all add: dropped_def ipc_frame_def)
      have "y \<notin> set (ks @ rs)" using dlistD(1) [OF cache_okD(1) [OF inv(1)]] by auto
      then show "dom (cells (dropped y ?c h s2)) - set (ks @ rs) = fr" using inv(9) s2(7) by (auto simp: dropped_def)
      have "cdata c \<noteq> null \<longrightarrow> cdata c < brk s" using inv(1) unfolding cs cache_ok_def dm_mem_ok_def by auto
      then show "freed now (bs @ [c]) (dropped y ?c h s2)" using inv(10) s2(6,8) by (auto simp: freed_def dropped_def)
      have "length ds = length (vs @ ws)" using inv(4) by (metis length_map)
      then show "(\<forall>i. dm_malloc_ok e i) \<and> int (length vs + length (reports e now ((bs @ [c]) @ cs'))) \<le> n \<longrightarrow> ?ws = reports e now (bs @ [c])"
        using True s2(4) inv(3,6,7) cs ok ipc_rep_length [of ?s ys ds] by (auto simp: cache_ok_def ipc_rep_def reports_def)
    qed
    ultimately show ?thesis using inv(3) cs by simp
  qed
qed

interpretation tick: list_walk links "cache_tick_body e now" dmc_head "tick_inv e now cs0 vs n z fr" "\<lambda>_ _. False"
proof
  fix rs s assume "tick_inv e now cs0 vs n z fr rs s"
  then show "\<exists>xs. dlist (links s) dmc_head (xs @ rs)" unfolding tick_inv_def using cache_okD(1) by blast
next
  fix y rs s assume "tick_inv e now cs0 vs n z fr (y # rs) s"
  from tick_step [OF this] show "\<exists>r s'. cache_tick_body e now y s = Some (r, s') \<and> (case r of None \<Rightarrow> tick_inv e now cs0 vs n z fr rs s' | Some v \<Rightarrow> False)"
    by fastforce
qed

lemma chain_unique: "chain h q xs p \<Longrightarrow> chain h q ys p \<Longrightarrow> p \<notin> set xs \<Longrightarrow> p \<notin> set ys \<Longrightarrow> xs = ys"
proof (induction xs arbitrary: q ys)
  case Nil
  then show ?case by (cases ys) auto
next
  case (Cons x xs)
  then show ?case by (cases ys) auto
qed

lemma dlist_unique: "dlist h q xs \<Longrightarrow> dlist h q ys \<Longrightarrow> xs = ys"
  using chain_unique [of h q xs q ys] by (simp add: dlist_def)

text \<open>The loops that look for a request: nothing has changed while the requests \<open>bs\<close> before it are not the one.\<close>

definition scan_inv :: "dmc \<Rightarrow> dm_msg_cache_node_t list \<Rightarrow> addr list \<Rightarrow> addr list \<Rightarrow> int \<Rightarrow> addr list \<Rightarrow> dmc \<Rightarrow> bool" where
  "scan_inv s0 cs0 ys ds i rs s \<longleftrightarrow> s = s0 \<and> (\<exists>ks bs cs. cache_ok s (ks @ rs) (bs @ cs) ys ds \<and> length bs = length ks \<and> cs0 = bs @ cs \<and> (\<forall>c \<in> set bs. msgid c \<noteq> i))"

lemma scan_cases:
  assumes "scan_inv s0 cs0 ys ds i (y # rs) s"
  obtains ks bs c cs where "s = s0" "cache_ok s (ks @ y # rs) (bs @ c # cs) ys ds" "length bs = length ks" "cs0 = bs @ c # cs" "\<forall>c \<in> set bs. msgid c \<noteq> i"
    "cells s y = Some c" "msgid c \<noteq> i \<Longrightarrow> scan_inv s0 cs0 ys ds i rs s"
proof -
  obtain ks bs cs where inv: "s = s0" "cache_ok s (ks @ y # rs) (bs @ cs) ys ds" "length bs = length ks" "cs0 = bs @ cs" "\<forall>c \<in> set bs. msgid c \<noteq> i"
    using assms by (auto simp: scan_inv_def)
  obtain c cs' where cs: "cs = c # cs'" using cache_okD(4) [OF inv(2)] inv(3) by (cases cs) auto
  have "scan_inv s0 cs0 ys ds i rs s" if "msgid c \<noteq> i"
    unfolding scan_inv_def by (intro conjI exI [where x = "ks @ [y]"] exI [where x = "bs @ [c]"] exI [where x = cs']) (use inv cs that in simp_all)
  with that [of ks bs c cs'] inv cs cache_okD(3) [OF inv(2)] show ?thesis by simp
qed

lemma scan_linked: "scan_inv s0 cs0 ys ds i rs s \<Longrightarrow> \<exists>xs. dlist (links s) dmc_head (xs @ rs)"
  unfolding scan_inv_def using cache_okD(1) by blast

lemma first_request: "\<forall>c \<in> set bs. msgid c \<noteq> i \<Longrightarrow> msgid c = i \<Longrightarrow> find (\<lambda>c. msgid c = i) (bs @ c # cs) = Some c"
  by (induction bs) auto

interpretation search: list_scan links "cache_search_body i" dmc_head "scan_inv s0 cs0 ys ds i"
  "\<lambda>node s. s = s0 \<and> (\<exists>c. find (\<lambda>c. msgid c = i) cs0 = Some c \<and> cells s0 node = Some c)"
proof
  fix rs s assume "scan_inv s0 cs0 ys ds i rs s"
  then show "\<exists>xs. dlist (links s) dmc_head (xs @ rs)" by (rule scan_linked)
next
  fix y rs s assume "scan_inv s0 cs0 ys ds i (y # rs) s"
  then show "\<exists>r s'. cache_search_body i y s = Some (r, s') \<and> (case r of None \<Rightarrow> scan_inv s0 cs0 ys ds i rs s'
      | Some node \<Rightarrow> s' = s0 \<and> (\<exists>c. find (\<lambda>c. msgid c = i) cs0 = Some c \<and> cells s0 node = Some c))"
    by (cases rule: scan_cases) (auto simp: cache_search_body_def first_request)
next
  fix y rs s s' assume inv: "scan_inv s0 cs0 ys ds i (y # rs) s" and b: "cache_search_body i y s = Some (None, s')"
  from inv show "get_next (links s') y = Some (hd (rs @ [dmc_head]))"
  proof (cases rule: scan_cases)
    case (1 ks bs c cs)
    then have "s' = s" using b by (simp add: cache_search_body_def)
    with dlist_next [OF cache_okD(1) [OF 1(2)]] show ?thesis by simp
  qed
qed

definition removed :: "dmc \<Rightarrow> dm_msg_cache_node_t list \<Rightarrow> addr list \<Rightarrow> addr list \<Rightarrow> int \<Rightarrow> dmc \<Rightarrow> bool" where
  "removed s0 cs0 ys ds i s \<longleftrightarrow> (\<exists>ks y rs bs c cs. cache_ok s0 (ks @ y # rs) (bs @ c # cs) ys ds \<and> length bs = length ks \<and> cs0 = bs @ c # cs
       \<and> msgid c = i \<and> i \<notin> msgid ` set bs \<and> cache_ok s (ks @ rs) (bs @ cs) ys ds
       \<and> cells s = (cells s0)(y := None) \<and> dom (links s) = dom (links s0) - {y}
       \<and> texts s = (if cdata c = null then texts s0 else (texts s0)(cdata c := None)))
     \<and> map (message s) ds = map (message s0) ds \<and> dmc_list_size s = dmc_list_size s0 - 1"

lemma remove_step:
  assumes "scan_inv s0 cs0 ys ds i (y # rs) s"
  shows "\<exists>r s'. cache_remove_body i y s = Some (r, s') \<and> (case r of None \<Rightarrow> scan_inv s0 cs0 ys ds i rs s' | Some _ \<Rightarrow> removed s0 cs0 ys ds i s')"
  using assms
proof (cases rule: scan_cases)
  case (1 ks bs c cs)
  show ?thesis
  proof (cases "msgid c = i")
    case True
    obtain h where h: "dlist_del y (links s) = Some h" "cdata c \<noteq> null \<longrightarrow> texts s (cdata c) \<noteq> None"
        "cache_ok (dropped y c h s) (ks @ rs) (bs @ cs) ys ds" "map (message (dropped y c h s)) ds = map (message s) ds"
      using drop_entry [OF 1(2,3)] by auto
    let ?s = "(dropped y c h s)\<lparr>dmc_list_size := dmc_list_size s - 1\<rparr>"
    have "cache_remove_body i y s = Some (Some (), ?s)"
      using True 1(6) h(1,2) by (auto simp: cache_remove_body_def on_links_def free_data_def free_text_def free_cell_def dropped_def)
    moreover have "message ?s = message (dropped y c h s)" by (simp add: fun_eq_iff message_def)
    moreover have "cache_ok ?s (ks @ rs) (bs @ cs) ys ds" using h(3) by (simp add: cache_ok_def cache_rep_def ipc_rep_def dm_mem_ok_def)
    moreover have "dom (links s) = dom h" using del_refines [OF cache_okD(1) [OF 1(2)]] h(1) by auto
    ultimately have "removed s0 cs0 ys ds i ?s" unfolding removed_def using h(4) 1 True
      by (intro conjI exI [where x = ks] exI [where x = y] exI [where x = rs] exI [where x = bs] exI [where x = c] exI [where x = cs]) (auto simp: dropped_def)
    with \<open>cache_remove_body i y s = Some (Some (), ?s)\<close> show ?thesis by auto
  qed (use 1 in \<open>simp add: cache_remove_body_def\<close>)
qed

interpretation remove: list_walk links "cache_remove_body i" dmc_head "scan_inv s0 cs0 ys ds i" "\<lambda>_. removed s0 cs0 ys ds i"
  by unfold_locales (erule scan_linked, erule remove_step)

text \<open>Deinitialisation: \<open>fr\<close> are the cells that are not of the list, and the mutex is given back in every round.\<close>

definition deinit_inv :: "addr list \<Rightarrow> addr list \<Rightarrow> (nat \<times> bytes option) option list \<Rightarrow> addr set \<Rightarrow> bool \<Rightarrow> int \<Rightarrow> addr list \<Rightarrow> dmc \<Rightarrow> bool" where
  "deinit_inv ys ds vs fr b n rs s \<longleftrightarrow> (\<exists>cs. cache_ok s rs cs ys ds) \<and> map (message s) ds = vs \<and> dom (cells s) - set rs = fr
     \<and> dmc_mutex s = b \<and> dmc_locked s = (if b then n + int (length rs) else n)"

interpretation deinit: list_walk links cache_deinit_body dmc_head "deinit_inv ys ds vs fr b n" "\<lambda>_ _. False"
proof
  fix rs s assume "deinit_inv ys ds vs fr b n rs s"
  then show "\<exists>xs. dlist (links s) dmc_head (xs @ rs)" unfolding deinit_inv_def using cache_okD(1) by (metis append_Nil)
next
  fix y rs s assume inv: "deinit_inv ys ds vs fr b n (y # rs) s"
  then obtain cs0 where c0: "cache_ok s (y # rs) cs0 ys ds" by (auto simp: deinit_inv_def)
  then obtain c cs where ok: "cache_ok s ([] @ y # rs) ([] @ c # cs) ys ds" using cache_okD(4) [OF c0] by (cases cs0) auto
  obtain h where h: "dlist_del y (links s) = Some h" "cells s y = Some c" "cdata c \<noteq> null \<longrightarrow> texts s (cdata c) \<noteq> None"
      "cache_ok (dropped y c h s) rs cs ys ds" "map (message (dropped y c h s)) ds = map (message s) ds"
    using drop_entry [OF ok] by auto
  let ?s = "dm_msg_cache_mutex_unlock (dropped y c h s)"
  have run: "cache_deinit_body y s = Some (None, ?s)"
    using h(1,2,3) by (auto simp: cache_deinit_body_def on_links_def free_data_def free_text_def free_cell_def dropped_def intro!: arg_cong [where f = dm_msg_cache_mutex_unlock])
  have "y \<notin> set rs" using dlistD(1) [OF cache_okD(1) [OF ok]] by simp
  then have "dom (cells ?s) - set rs = fr" using inv by (auto simp: deinit_inv_def dropped_def)
  moreover have "dmc_mutex ?s = b" "dmc_locked ?s = (if b then n + int (length rs) else n)"
    using inv by (simp_all add: deinit_inv_def dropped_def dm_msg_cache_mutex_unlock_def)
  moreover have "cache_ok ?s rs cs ys ds" "map (message ?s) ds = vs" using inv h(4,5) by (simp_all add: deinit_inv_def)
  ultimately have "deinit_inv ys ds vs fr b n rs ?s" unfolding deinit_inv_def by blast
  with run show "\<exists>r s'. cache_deinit_body y s = Some (r, s') \<and> (case r of None \<Rightarrow> deinit_inv ys ds vs fr b n rs s' | Some v \<Rightarrow> False)" by simp
qed

section \<open>The operations\<close>

lemma unlock_lock [simp]: "dm_msg_cache_mutex_unlock (dm_msg_cache_mutex_lock s) = s"
  by (simp add: dm_msg_cache_mutex_lock_def dm_msg_cache_mutex_unlock_def)

lemma cache_ok_clock [simp]: "cache_ok (s\<lparr>dm_clock := k\<rparr>) = cache_ok s" "message (s\<lparr>dm_clock := k\<rparr>) = message s"
  by (simp_all add: fun_eq_iff cache_ok_def dm_mem_ok_def cache_rep_def ipc_rep_def message_def)

lemma cache_insert_spec:
  assumes ok: "cache_ok s xs cs ys ds"
    and data: "data = null \<or> texts s data \<noteq> None \<and> data \<notin> set (owned cs) \<and> (\<forall>d \<in> set ds. \<forall>m. ipc_msgs s d = Some m \<longrightarrow> im_data m \<noteq> data)"
    and room: "dmc_list_size s < CONFIG_MSGCACHE_QUEUE_MAXLEN" "dm_malloc_ok e (dm_mallocs s)"
  shows "\<exists>s'. dm_msg_cache_insert e i dev t data s = Some (SUCCESS_RETURN, s')
    \<and> cache_ok s' (xs @ [brk s]) (cs @ [\<lparr>msgid = i, devid = dev, response_type = t, cdata = data, ctime = dm_uptime e (dm_clock s)\<rparr>]) ys ds
    \<and> map (message s') ds = map (message s) ds \<and> dmc_list_size s' = dmc_list_size s + 1 \<and> dm_clock s' = dm_clock s + 1
    \<and> texts s' = texts s \<and> dom (cells s') = insert (brk s) (dom (cells s))"
proof -
  note d = cache_okD [OF ok]
  let ?n = "brk s" and ?c = "\<lparr>msgid = i, devid = dev, response_type = t, cdata = data, ctime = dm_uptime e (dm_clock s)\<rparr>"
  let ?h0 = "(links s)(?n \<mapsto> \<lparr>prev = null, next = null\<rparr>)"
  have "?n \<in> dom ?h0" by simp
  from init_refines [OF this] obtain h1 where h1: "INIT_AOS_DLIST_HEAD ?n ?h0 = Some h1" "dom h1 = dom ?h0" "\<forall>b. b \<noteq> ?n \<longrightarrow> h1 b = ?h0 b" by blast
  have n: "?n \<noteq> null" "?n \<noteq> dmc_head" "?n \<noteq> ipc_head" using d(11) by auto
  have apart: "b \<noteq> ?n" if "b \<in> set (dmc_head # xs) \<union> set (ipc_head # ys)" for b using that d(9,10) n by auto
  have "dlist h1 dmc_head xs" using d(1) by (rule dlist_frame) (use h1(3) apart in auto)
  then obtain h2 where h2: "dlist_add_tail ?n dmc_head h1 = Some h2" "dlist h2 dmc_head (xs @ [?n])" "dom h2 = dom h1"
      "\<forall>b. b \<notin> set (?n # dmc_head # xs) \<longrightarrow> h2 b = h1 b"
    using add_tail_refines [of h1 dmc_head xs ?n] d(9) n h1(2) by auto
  let ?s = "s\<lparr>brk := ?n + 1, dm_mallocs := dm_mallocs s + 1, dm_clock := dm_clock s + 1, links := h2, cells := (cells s)(?n \<mapsto> ?c), dmc_list_size := dmc_list_size s + 1\<rparr>"
  have run: "dm_msg_cache_insert e i dev t data s = Some (SUCCESS_RETURN, ?s)"
    using room n h1(1) h2(1)
    by (simp add: dm_msg_cache_insert_def DM_malloc_def dm_HAL_UptimeMs_def on_links_def Let_def dm_msg_cache_mutex_lock_def dm_msg_cache_mutex_unlock_def)
  have "cache_rep ?s (xs @ [?n]) (cs @ [?c])" using ok h2(2) d(9,11) by (simp add: cache_ok_def cache_rep_def map_upd_other)
  moreover have "dlist h2 ipc_head ys" using d(2)
  proof (rule dlist_frame)
    fix b assume b: "b \<in> set (ipc_head # ys)"
    then have "b \<notin> set (?n # dmc_head # xs)" using apart [of b] d(5,6,8) by auto
    then show "h2 b = links s b" using h2(4) h1(3) by simp
  qed
  then have "ipc_rep ?s ys ds" using ok by (simp add: cache_ok_def ipc_rep_def)
  moreover have "dm_mem_ok ?s" using ok h1(2) h2(3) by (auto simp: cache_ok_def dm_mem_ok_def less_Suc_eq)
  moreover have "\<forall>a \<in> dom (cells ?s). a < brk ?s" using ok by (auto simp: cache_ok_def less_Suc_eq)
  moreover have "set (xs @ [?n]) \<inter> set ys = {}" using d(8,10) by auto
  moreover have "distinct (owned (cs @ [?c]))" "set (owned (cs @ [?c])) \<subseteq> dom (texts ?s)" using ok data by (auto simp: cache_ok_def)
  moreover have "\<forall>d \<in> set ds. \<exists>m. ipc_msgs ?s d = Some m \<and> im_data m < brk ?s \<and> im_data m \<notin> set (owned (cs @ [?c]))"
    using ok data by (fastforce simp: cache_ok_def)
  ultimately have "cache_ok ?s (xs @ [?n]) (cs @ [?c]) ys ds" unfolding cache_ok_def by blast
  moreover have "message ?s = message s" by (simp add: fun_eq_iff message_def)
  ultimately show ?thesis using run by (intro exI [where x = ?s]) simp
qed

lemma scan_start: "cache_ok s xs cs ys ds \<Longrightarrow> scan_inv s cs ys ds i xs s"
  unfolding scan_inv_def by (intro conjI exI [where x = "[]"] exI [where x = cs]) simp_all

lemma scan_end: "scan_inv s0 cs ys ds i [] s \<Longrightarrow> s = s0 \<and> i \<notin> msgid ` set cs"
  unfolding scan_inv_def using cache_okD(4) by fastforce

lemma search_spec:
  assumes "cache_ok s xs cs ys ds" "0 \<le> i"
  shows "case find (\<lambda>c. msgid c = i) cs of
      None \<Rightarrow> dm_msg_cache_search i (Some null) s = Some (STATE_DEV_MODEL_CTX_LIST_EMPTY, Some null, s)
    | Some c \<Rightarrow> \<exists>node. dm_msg_cache_search i (Some null) s = Some (SUCCESS_RETURN, Some node, s) \<and> cells s node = Some c"
proof -
  let ?s = "dm_msg_cache_mutex_lock s"
  have ok: "cache_ok ?s xs cs ys ds" using assms(1) by simp
  obtain r s' where r: "list_for_each_entry links (cache_search_body i) dmc_head ?s = Some (r, s')"
      "case r of None \<Rightarrow> scan_inv ?s cs ys ds i [] s' | Some node \<Rightarrow> s' = ?s \<and> (\<exists>c. find (\<lambda>c. msgid c = i) cs = Some c \<and> cells ?s node = Some c)"
    using search.scan [OF scan_start [OF ok] cache_okD(1) [OF ok]] by blast
  show ?thesis
  proof (cases r)
    case None
    then have "s' = ?s" "i \<notin> msgid ` set cs" using r(2) scan_end by auto
    moreover from this have "find (\<lambda>c. msgid c = i) cs = None" by (auto simp: find_None_iff)
    ultimately show ?thesis using r(1) None assms(2) by (simp add: dm_msg_cache_search_def)
  next
    case (Some node)
    with r assms(2) show ?thesis by (auto simp: dm_msg_cache_search_def)
  qed
qed

lemma remove_spec:
  assumes ok: "cache_ok s xs cs ys ds"
  shows "if i \<in> msgid ` set cs
    then \<exists>s' ks y rs bs c cs'. dm_msg_cache_remove i s = Some (SUCCESS_RETURN, s') \<and> xs = ks @ y # rs \<and> cs = bs @ c # cs' \<and> length bs = length ks
      \<and> msgid c = i \<and> i \<notin> msgid ` set bs \<and> cache_ok s' (ks @ rs) (bs @ cs') ys ds
      \<and> cells s' = (cells s)(y := None) \<and> dom (links s') = dom (links s) - {y}
      \<and> texts s' = (if cdata c = null then texts s else (texts s)(cdata c := None))
      \<and> map (message s') ds = map (message s) ds \<and> dmc_list_size s' = dmc_list_size s - 1
    else dm_msg_cache_remove i s = Some (STATE_DEV_MODEL_CTX_LIST_EMPTY, s)"
proof -
  let ?s = "dm_msg_cache_mutex_lock s"
  have ok': "cache_ok ?s xs cs ys ds" using ok by simp
  obtain r s' where r: "list_for_each_entry_safe links (cache_remove_body i) dmc_head ?s = Some (r, s')"
      "case r of None \<Rightarrow> scan_inv ?s cs ys ds i [] s' | Some _ \<Rightarrow> removed ?s cs ys ds i s'"
    using remove.walk [OF scan_start [OF ok'] cache_okD(1) [OF ok']] by blast
  show ?thesis
  proof (cases r)
    case None
    then have "s' = ?s" "i \<notin> msgid ` set cs" using r(2) scan_end by auto
    then show ?thesis using r(1) None by (simp add: dm_msg_cache_remove_def)
  next
    case (Some u)
    have run: "dm_msg_cache_remove i s = Some (SUCCESS_RETURN, dm_msg_cache_mutex_unlock s')" using r(1) Some by (simp add: dm_msg_cache_remove_def)
    obtain ks y rs bs c cs' where rm: "cache_ok ?s (ks @ y # rs) (bs @ c # cs') ys ds" "length bs = length ks" "cs = bs @ c # cs'"
        "msgid c = i" "i \<notin> msgid ` set bs" "cache_ok s' (ks @ rs) (bs @ cs') ys ds" "cells s' = (cells ?s)(y := None)"
        "dom (links s') = dom (links ?s) - {y}" "texts s' = (if cdata c = null then texts ?s else (texts ?s)(cdata c := None))"
        "map (message s') ds = map (message ?s) ds" "dmc_list_size s' = dmc_list_size ?s - 1"
      using r(2) Some unfolding removed_def by auto
    have "xs = ks @ y # rs" using dlist_unique [OF cache_okD(1) [OF ok'] cache_okD(1) [OF rm(1)]] .
    moreover note rm [simplified cache_mutex_fields]
    moreover have "cache_ok (dm_msg_cache_mutex_unlock s') (ks @ rs) (bs @ cs') ys ds" using rm(6) by simp
    ultimately have res: "dm_msg_cache_remove i s = Some (SUCCESS_RETURN, dm_msg_cache_mutex_unlock s') \<and> xs = ks @ y # rs \<and> cs = bs @ c # cs' \<and> length bs = length ks
      \<and> msgid c = i \<and> i \<notin> msgid ` set bs \<and> cache_ok (dm_msg_cache_mutex_unlock s') (ks @ rs) (bs @ cs') ys ds
      \<and> cells (dm_msg_cache_mutex_unlock s') = (cells s)(y := None) \<and> dom (links (dm_msg_cache_mutex_unlock s')) = dom (links s) - {y}
      \<and> texts (dm_msg_cache_mutex_unlock s') = (if cdata c = null then texts s else (texts s)(cdata c := None))
      \<and> map (message (dm_msg_cache_mutex_unlock s')) ds = map (message s) ds \<and> dmc_list_size (dm_msg_cache_mutex_unlock s') = dmc_list_size s - 1"
      using run by simp
    have i: "i \<in> msgid ` set cs" using rm(3,4) by auto
    show ?thesis unfolding if_P [OF i] by ((rule exI)+, rule res)
  qed
qed

lemma tick_spec:
  assumes ok: "cache_ok s xs cs ys ds" and vs: "map (message s) ds = map Some vs" and now_def: "now = dm_uptime e (dm_clock s)"
  shows "\<exists>s' xs' ys' ds' ws. dm_msg_cache_tick e s = Some s' \<and> cache_ok s' xs' (kept now cs) ys' ds'
    \<and> map (message s') ds' = map Some (vs @ ws) \<and> subseq ws (reports e now cs)
    \<and> ((\<forall>i. dm_malloc_ok e i) \<and> int (length vs + length (reports e now cs)) \<le> ipc_max_size s \<longrightarrow> ws = reports e now cs)
    \<and> dmc_list_size s' = dmc_list_size s \<and> dom (cells s') - set xs' = dom (cells s) - set xs \<and> freed now cs s'"
proof -
  let ?s = "dm_msg_cache_mutex_lock (s\<lparr>dm_clock := dm_clock s + 1\<rparr>)"
  let ?fr = "dom (cells s) - set xs"
  have "tick_inv e now ([] @ cs) vs (ipc_max_size s) (dmc_list_size s) ?fr xs ?s"
    by (rule tick_invI [of _ "[]" _ _ _ _ ys ds vs "[]"]) (use ok vs in \<open>simp_all add: freed_def\<close>)
  then have inv: "tick_inv e now cs vs (ipc_max_size s) (dmc_list_size s) ?fr xs ?s" by simp
  have "dlist (links ?s) dmc_head xs" using cache_okD(1) [OF ok] by simp
  from tick.walk_all [OF _ inv this] obtain s' where s': "list_for_each_entry_safe links (cache_tick_body e now) dmc_head ?s = Some (None, s')"
      "tick_inv e now cs vs (ipc_max_size s) (dmc_list_size s) ?fr [] s'" by blast
  have run: "dm_msg_cache_tick e s = Some (dm_msg_cache_mutex_unlock s')"
    using s'(1) by (simp add: dm_msg_cache_tick_def dm_HAL_UptimeMs_def now_def)
  obtain ks bs cs' ys' ds' ws where e: "cache_ok s' (ks @ []) (kept now bs @ cs') ys' ds'" "length (kept now bs) = length ks" "cs = bs @ cs'"
     "map (message s') ds' = map Some (vs @ ws)" "subseq ws (reports e now bs)" "dmc_list_size s' = dmc_list_size s"
     "(\<forall>i. dm_malloc_ok e i) \<and> int (length vs + length (reports e now cs)) \<le> ipc_max_size s \<longrightarrow> ws = reports e now bs"
     "dom (cells s') - set (ks @ []) = ?fr" "freed now bs s'"
    using s'(2) unfolding tick_inv_def by blast
  have "cs' = []" using cache_okD(4) [OF e(1)] e(2) by simp
  moreover have "freed now bs (dm_msg_cache_mutex_unlock s')" using e(9) by (simp add: freed_def dm_msg_cache_mutex_unlock_def)
  ultimately show ?thesis
    by (intro exI [where x = "dm_msg_cache_mutex_unlock s'"] exI [where x = ks] exI [where x = ys'] exI [where x = ds'] exI [where x = ws]) (use e run in simp)
qed

definition cache_deinited :: "dmc \<Rightarrow> addr list \<Rightarrow> addr list \<Rightarrow> addr list \<Rightarrow> dmc \<Rightarrow> bool" where
  "cache_deinited s xs ys ds s' \<longleftrightarrow> cache_ok s' [] [] ys ds \<and> map (message s') ds = map (message s) ds \<and> dom (cells s') = dom (cells s) - set xs
     \<and> dmc_locked s' = (if dmc_mutex s then dmc_locked s - int (length xs) else dmc_locked s)"

lemma deinit_spec:
  assumes ok: "cache_ok s xs cs ys ds"
  shows "\<exists>s'. dm_msg_cache_deinit s = Some (SUCCESS_RETURN, s') \<and> cache_deinited s xs ys ds s'"
proof -
  let ?s = "dm_msg_cache_mutex_lock s"
  let ?n = "if dmc_mutex s then dmc_locked s + 1 - int (length xs) else dmc_locked s"
  have inv: "deinit_inv ys ds (map (message s) ds) (dom (cells s) - set xs) (dmc_mutex s) ?n xs ?s"
    using ok by (auto simp: deinit_inv_def dm_msg_cache_mutex_lock_def intro!: exI [where x = cs])
      (simp_all add: cache_ok_def cache_rep_def ipc_rep_def dm_mem_ok_def message_def)
  have "dlist (links ?s) dmc_head xs" using cache_okD(1) [OF ok] by simp
  from deinit.walk_all [OF _ inv this] obtain s' where s': "list_for_each_entry_safe links cache_deinit_body dmc_head ?s = Some (None, s')"
      "deinit_inv ys ds (map (message s) ds) (dom (cells s) - set xs) (dmc_mutex s) ?n [] s'" by blast
  obtain cs' where cs': "cache_ok s' [] cs' ys ds" using s'(2) by (auto simp: deinit_inv_def)
  then have "cs' = []" using cache_okD(4) [OF cs'] by simp
  then have "cache_deinited s xs ys ds (dm_msg_cache_mutex_unlock s')"
    using cs' s'(2) by (simp add: cache_deinited_def deinit_inv_def) (simp add: dm_msg_cache_mutex_unlock_def)
  with s'(1) show ?thesis by (simp add: dm_msg_cache_deinit_def)
qed

lemma cache_init_ok:
  assumes "dm_mem_ok s" "\<forall>a \<in> dom (cells s). a < brk s" "ipc_rep s ys ds" "\<forall>d \<in> set ds. \<exists>m. ipc_msgs s d = Some m \<and> im_data m < brk s" "dm_mutex_ok e"
  shows "\<exists>s'. dm_msg_cache_init e s = Some (SUCCESS_RETURN, s') \<and> cache_ok s' [] [] ys ds \<and> dmc_list_size s' = 0 \<and> dmc_mutex s'
    \<and> map (message s') ds = map (message s) ds"
proof -
  let ?h = "(links s)(dmc_head \<mapsto> \<lparr>prev = null, next = null\<rparr>)"
  have "dmc_head \<in> dom ?h" by simp
  from init_refines [OF this] obtain h where h: "INIT_AOS_DLIST_HEAD dmc_head ?h = Some h" "dlist h dmc_head []" "dom h = dom ?h" "\<forall>b. b \<noteq> dmc_head \<longrightarrow> h b = ?h b"
    by blast
  let ?s = "s\<lparr>dmc_mutex := True, dmc_list_size := 0, links := h\<rparr>"
  have run: "dm_msg_cache_init e s = Some (SUCCESS_RETURN, ?s)" using assms(5) h(1) by (simp add: dm_msg_cache_init_def on_links_def)
  have i: "dlist (links s) ipc_head ys" "\<forall>y \<in> set ys. 3 \<le> y" using assms(3) by (simp_all add: ipc_rep_def)
  have "dlist h ipc_head ys" using i(1)
  proof (rule dlist_frame)
    fix b assume "b \<in> set (ipc_head # ys)"
    then have "b \<noteq> dmc_head" using i(2) by auto
    then show "h b = links s b" using h(4) by simp
  qed
  then have "ipc_rep ?s ys ds" using assms(3) by (simp add: ipc_rep_def)
  moreover have "dm_mem_ok ?s" using assms(1) h(3) by (auto simp: dm_mem_ok_def)
  moreover have "cache_rep ?s [] []" using h(2) by (simp add: cache_rep_def)
  ultimately have "cache_ok ?s [] [] ys ds" using assms(2,4) by (simp add: cache_ok_def)
  moreover have "message ?s = message s" by (simp add: fun_eq_iff message_def)
  ultimately show ?thesis using run by simp
qed

section \<open>Sequences of operations\<close>

datatype cache_op = CacheInsert int int nat addr | CacheSearch int | CacheRemove int | CacheTick

fun is_insert :: "cache_op \<Rightarrow> bool" where
  "is_insert (CacheInsert i dev t data) \<longleftrightarrow> True"
| "is_insert _ \<longleftrightarrow> False"

fun run_cache_op :: "dm_env \<Rightarrow> cache_op \<Rightarrow> dmc \<Rightarrow> (int \<times> dmc) option" where
  "run_cache_op e (CacheInsert i dev t data) s = dm_msg_cache_insert e i dev t data s"
| "run_cache_op e (CacheSearch i) s = map_option (\<lambda>(rc, _, s). (rc, s)) (dm_msg_cache_search i (Some null) s)"
| "run_cache_op e (CacheRemove i) s = dm_msg_cache_remove i s"
| "run_cache_op e CacheTick s = map_option (\<lambda>s. (SUCCESS_RETURN, s)) (dm_msg_cache_tick e s)"

fun run_cache :: "dm_env \<Rightarrow> cache_op list \<Rightarrow> dmc \<Rightarrow> (int list \<times> dmc) option" where
  "run_cache e [] s = Some ([], s)"
| "run_cache e (op # ops) s = do {
     (rc, s) \<leftarrow> run_cache_op e op s;
     (rcs, s) \<leftarrow> run_cache e ops s;
     Some (rc # rcs, s) }"

lemma run_cache_append:
  "run_cache e (as @ bs) s = do { (r1, s) \<leftarrow> run_cache e as s; (r2, s) \<leftarrow> run_cache e bs s; Some (r1 @ r2, s) }"
proof (induction as arbitrary: s)
  case Nil
  then show ?case by (cases "run_cache e bs s") auto
next
  case (Cons a as)
  show ?case
  proof (cases "run_cache_op e a s")
    case (Some r)
    then show ?thesis
      by (cases r; cases "run_cache e as (snd r)"; cases "run_cache e bs (snd (the (run_cache e as (snd r))))") (auto simp: Cons.IH)
  qed simp
qed

lemma messages_exist: "cache_ok s xs cs ys ds \<Longrightarrow> \<exists>vs. map (message s) ds = map Some vs"
  by (rule exI [where x = "map (\<lambda>d. the (message s d)) ds"]) (force simp: cache_ok_def message_def)

text \<open>No room is left according to the counter, although the list is empty.\<close>

definition cache_stuck :: "dmc \<Rightarrow> bool" where
  "cache_stuck s \<longleftrightarrow> CONFIG_MSGCACHE_QUEUE_MAXLEN \<le> dmc_list_size s \<and> (\<exists>ys ds. cache_ok s [] [] ys ds)"

lemma tick_empties:
  assumes ok: "cache_ok s xs cs ys ds" and "\<forall>c \<in> set cs. req_expired (dm_uptime e (dm_clock s)) c" "CONFIG_MSGCACHE_QUEUE_MAXLEN \<le> dmc_list_size s"
  shows "\<exists>s'. dm_msg_cache_tick e s = Some s' \<and> cache_stuck s'"
proof -
  obtain vs where vs: "map (message s) ds = map Some vs" using messages_exist [OF ok] by blast
  have "kept (dm_uptime e (dm_clock s)) cs = []" using assms(2) by (simp add: kept_def)
  then obtain s' xs' ys' ds' where s': "dm_msg_cache_tick e s = Some s'" "cache_ok s' xs' [] ys' ds'" "dmc_list_size s' = dmc_list_size s"
    using tick_spec [OF ok vs refl, of e] by auto
  then have "xs' = []" using cache_okD(4) by fastforce
  with s' assms(3) show ?thesis by (auto simp: cache_stuck_def)
qed

lemma stuck_step:
  assumes "cache_stuck s"
  shows "\<exists>rc s'. run_cache_op e op s = Some (rc, s') \<and> cache_stuck s' \<and> (is_insert op \<longrightarrow> rc = STATE_DEV_MODEL_CTX_LIST_FULL)"
proof -
  obtain ys ds where ok: "cache_ok s [] [] ys ds" and z: "CONFIG_MSGCACHE_QUEUE_MAXLEN \<le> dmc_list_size s" using assms by (auto simp: cache_stuck_def)
  show ?thesis
  proof (cases op)
    case (CacheInsert i dev t data)
    with assms z show ?thesis by (simp add: dm_msg_cache_insert_def)
  next
    case (CacheSearch i)
    with assms search_spec [OF ok, of i] show ?thesis by (cases "0 \<le> i") (simp_all add: dm_msg_cache_search_def)
  next
    case (CacheRemove i)
    with assms remove_spec [OF ok, of i] show ?thesis by simp
  next
    case CacheTick
    with tick_empties [OF ok _ z, of e] show ?thesis by auto
  qed
qed

lemma stuck_run:
  "cache_stuck s \<Longrightarrow> \<exists>rcs s'. run_cache e ops s = Some (rcs, s') \<and> cache_stuck s' \<and> list_all2 (\<lambda>op rc. is_insert op \<longrightarrow> rc = STATE_DEV_MODEL_CTX_LIST_FULL) ops rcs"
proof (induction ops arbitrary: s)
  case (Cons op ops)
  obtain rc s1 where 1: "run_cache_op e op s = Some (rc, s1)" "cache_stuck s1" "is_insert op \<longrightarrow> rc = STATE_DEV_MODEL_CTX_LIST_FULL"
    using stuck_step [OF Cons.prems] by blast
  obtain rcs s2 where "run_cache e ops s1 = Some (rcs, s2)" "cache_stuck s2" "list_all2 (\<lambda>op rc. is_insert op \<longrightarrow> rc = STATE_DEV_MODEL_CTX_LIST_FULL) ops rcs"
    using Cons.IH [OF 1(2)] by blast
  with 1 show ?case by simp
qed simp

lemma fill_cache:
  assumes "cache_ok s xs cs ys ds" "\<forall>i. dm_malloc_ok e i" "dmc_list_size s + int (length reqs) \<le> CONFIG_MSGCACHE_QUEUE_MAXLEN" "\<forall>c \<in> set cs. req_expired now c"
    "\<forall>k < length reqs. dm_uptime e (dm_clock s + k) + DM_MSG_CACHE_TIMEOUT_MS_DEFAULT \<le> now"
  shows "\<exists>s' xs' cs'. run_cache e (map (\<lambda>(i, dev, t). CacheInsert i dev t null) reqs) s = Some (replicate (length reqs) SUCCESS_RETURN, s')
    \<and> cache_ok s' xs' cs' ys ds \<and> (\<forall>c \<in> set cs'. req_expired now c) \<and> dmc_list_size s' = dmc_list_size s + int (length reqs) \<and> dm_clock s' = dm_clock s + length reqs"
  using assms
proof (induction reqs arbitrary: s xs cs)
  case Nil
  then show ?case by auto
next
  case (Cons req reqs)
  obtain i dev t where req: "req = (i, dev, t)" by (cases req)
  let ?c = "\<lparr>msgid = i, devid = dev, response_type = t, cdata = null, ctime = dm_uptime e (dm_clock s)\<rparr>"
  obtain s1 where s1: "dm_msg_cache_insert e i dev t null s = Some (SUCCESS_RETURN, s1)" "cache_ok s1 (xs @ [brk s]) (cs @ [?c]) ys ds"
      "dmc_list_size s1 = dmc_list_size s + 1" "dm_clock s1 = dm_clock s + 1"
    using cache_insert_spec [OF Cons.prems(1), of null e i dev t] Cons.prems(2,3) by auto
  have "req_expired now ?c" using Cons.prems(5) by (force simp: req_expired_def)
  moreover have "\<forall>k < length reqs. dm_uptime e (dm_clock s1 + k) + DM_MSG_CACHE_TIMEOUT_MS_DEFAULT \<le> now"
  proof (intro allI impI)
    fix k assume "k < length reqs"
    then show "dm_uptime e (dm_clock s1 + k) + DM_MSG_CACHE_TIMEOUT_MS_DEFAULT \<le> now" using Cons.prems(5) [rule_format, of "Suc k"] s1(4) by simp
  qed
  ultimately obtain s' xs' cs' where "run_cache e (map (\<lambda>(i, dev, t). CacheInsert i dev t null) reqs) s1 = Some (replicate (length reqs) SUCCESS_RETURN, s')"
      "cache_ok s' xs' cs' ys ds" "\<forall>c \<in> set cs'. req_expired now c" "dmc_list_size s' = dmc_list_size s1 + int (length reqs)" "dm_clock s' = dm_clock s1 + length reqs"
    using Cons.IH [OF s1(2) Cons.prems(2)] Cons.prems(3,4) s1(3) by auto
  with s1 req show ?case by auto
qed

section \<open>Properties\<close>


definition sample_dmc :: dmc where
  "sample_dmc = \<lparr>links = [1 \<mapsto> \<lparr>prev = 3, next = 3\<rparr>, 2 \<mapsto> \<lparr>prev = 2, next = 2\<rparr>, 3 \<mapsto> \<lparr>prev = 1, next = 1\<rparr>], ipc_nodes = Map.empty, ipc_msgs = Map.empty,
     texts = [4 \<mapsto> [65, 0]], brk = 5, ipc_mutex = True, ipc_max_size = 50, ipc_size = 0, ipc_locked = 0, dm_mallocs = 2, dm_clock = 1,
     cells = [3 \<mapsto> \<lparr>msgid = 12, devid = 0, response_type = 7, cdata = 4, ctime = 0\<rparr>], dmc_mutex = True, dmc_list_size = 1, dmc_locked = 0\<rparr>"

definition roomy_dm_env :: dm_env where
  "roomy_dm_env = \<lparr>dm_malloc_ok = \<lambda>i. True, dm_mutex_ok = True, dm_uptime = \<lambda>i. 20000 * i, dm_junk = 7\<rparr>"

lemma sample_dmc_ok: "cache_ok sample_dmc [3] [\<lparr>msgid = 12, devid = 0, response_type = 7, cdata = 4, ctime = 0\<rparr>] [] []"
  by (auto simp: cache_ok_def cache_rep_def ipc_rep_def dm_mem_ok_def sample_dmc_def dlist_def get_next_def get_prev_def)


text \<open>C12. The tick of the cache: with \<open>now\<close> the present time, exactly the requests that have waited for ten
  seconds are taken out and freed, in one pass over the list that removes nodes while it walks; the others stay in order, a time stamp from the future becomes the
  present.  The queue of the device model is extended at its end by the time-out messages of the
  expired requests, in their order; a message is left out only when memory or the queue is exhausted.  The nodes of the
  expired requests and their data are released, and no other node of the cache.  The counter of the cache is not
  changed.\<close>

theorem cache_tick_reports:
  assumes "cache_ok s xs cs ys ds" "map (message s) ds = map Some vs" "now = dm_uptime e (dm_clock s)"
  shows "\<exists>s' xs' ys' ds' ws. dm_msg_cache_tick e s = Some s'
    \<and> cache_ok s' xs' (map (adjust now) (filter (\<lambda>c. \<not> req_expired now c) cs)) ys' ds'
    \<and> map (message s') ds' = map Some (vs @ ws)
    \<and> subseq ws (map (\<lambda>c. (response_type c, Some (timeout_bytes e (msgid c) (devid c)))) (filter (req_expired now) cs))
    \<and> ((\<forall>i. dm_malloc_ok e i) \<and> int (length vs + length (filter (req_expired now) cs)) \<le> ipc_max_size s
        \<longrightarrow> ws = map (\<lambda>c. (response_type c, Some (timeout_bytes e (msgid c) (devid c)))) (filter (req_expired now) cs))
    \<and> dom (cells s') - set xs' = dom (cells s) - set xs
    \<and> (\<forall>c \<in> set cs. req_expired now c \<and> cdata c \<noteq> null \<longrightarrow> texts s' (cdata c) = None)
    \<and> dmc_list_size s' = dmc_list_size s"
proof -
  obtain s' xs' ys' ds' ws where t: "dm_msg_cache_tick e s = Some s'" "cache_ok s' xs' (kept now cs) ys' ds'" "map (message s') ds' = map Some (vs @ ws)"
      "subseq ws (reports e now cs)" "(\<forall>i. dm_malloc_ok e i) \<and> int (length vs + length (reports e now cs)) \<le> ipc_max_size s \<longrightarrow> ws = reports e now cs"
      "dmc_list_size s' = dmc_list_size s" "dom (cells s') - set xs' = dom (cells s) - set xs" "freed now cs s'"
    using tick_spec [OF assms] by blast
  then show ?thesis
    by (intro exI [where x = s'] exI [where x = xs'] exI [where x = ys'] exI [where x = ds'] exI [where x = ws]) (simp add: kept_def reports_def freed_def)
qed

theorem cache_tick_reports_witness:
  "\<exists>s' xs' ys' z. dm_msg_cache_tick roomy_dm_env sample_dmc = Some s' \<and> cache_ok s' xs' [] ys' [z]
    \<and> message s' z = Some (7, Some (timeout_bytes roomy_dm_env 12 0)) \<and> texts s' 4 = None \<and> dmc_list_size s' = 1"
proof -
  let ?c = "\<lparr>msgid = 12, devid = 0, response_type = 7, cdata = 4, ctime = 0\<rparr>"
  have f: "req_expired 20000 ?c" "20000 = dm_uptime roomy_dm_env (dm_clock sample_dmc)" "\<forall>i. dm_malloc_ok roomy_dm_env i"
    "ipc_max_size sample_dmc = 50" "dmc_list_size sample_dmc = 1" by (simp_all add: req_expired_def roomy_dm_env_def sample_dmc_def)
  from cache_tick_reports [OF sample_dmc_ok _ f(2), of "[]"] f(1,3-5) show ?thesis by auto
qed

text \<open>C32. Every request that times out costs a place of the cache for good: once fifty requests have been
  inserted into an initialised cache and a tick has timed all of them out, the list is empty, but whatever is done from
  then on, every insertion is refused with \<open>STATE_DEV_MODEL_CTX_LIST_FULL\<close>.\<close>

theorem cache_capacity_lost:
  assumes "cache_ok s [] [] ys ds" "dmc_list_size s = 0" "\<forall>i. dm_malloc_ok e i" "length reqs = 50"
    "\<forall>k < 50. dm_uptime e (dm_clock s + k) + DM_MSG_CACHE_TIMEOUT_MS_DEFAULT \<le> dm_uptime e (dm_clock s + 50)"
  shows "\<exists>s' ys' ds'. run_cache e (map (\<lambda>(i, dev, t). CacheInsert i dev t null) reqs @ [CacheTick]) s = Some (replicate 51 SUCCESS_RETURN, s')
    \<and> cache_ok s' [] [] ys' ds'
    \<and> (\<forall>ops. \<exists>rcs s''. run_cache e ops s' = Some (rcs, s'') \<and> list_all2 (\<lambda>op rc. is_insert op \<longrightarrow> rc = STATE_DEV_MODEL_CTX_LIST_FULL) ops rcs)"
proof -
  let ?now = "dm_uptime e (dm_clock s + 50)"
  obtain s1 xs cs where s1: "run_cache e (map (\<lambda>(i, dev, t). CacheInsert i dev t null) reqs) s = Some (replicate 50 SUCCESS_RETURN, s1)"
      "cache_ok s1 xs cs ys ds" "\<forall>c \<in> set cs. req_expired ?now c" "dmc_list_size s1 = 50" "dm_clock s1 = dm_clock s + 50"
    using fill_cache [OF assms(1,3), of reqs ?now] assms(2,4,5) by auto
  obtain s2 where s2: "dm_msg_cache_tick e s1 = Some s2" "cache_stuck s2" using tick_empties [OF s1(2), of e] s1(3,4,5) by auto
  have "replicate 50 SUCCESS_RETURN @ [SUCCESS_RETURN] = replicate 51 SUCCESS_RETURN" by (simp add: replicate_append_same numeral_eq_Suc)
  then have "run_cache e (map (\<lambda>(i, dev, t). CacheInsert i dev t null) reqs @ [CacheTick]) s = Some (replicate 51 SUCCESS_RETURN, s2)"
    using s1(1) s2(1) by (simp add: run_cache_append)
  moreover have "\<forall>ops. \<exists>rcs s''. run_cache e ops s2 = Some (rcs, s'') \<and> list_all2 (\<lambda>op rc. is_insert op \<longrightarrow> rc = STATE_DEV_MODEL_CTX_LIST_FULL) ops rcs"
    using stuck_run [OF s2(2)] by blast
  moreover obtain ys' ds' where "cache_ok s2 [] [] ys' ds'" using s2(2) by (auto simp: cache_stuck_def)
  ultimately show ?thesis by blast
qed

definition fresh_dmc :: dmc where
  "fresh_dmc = sample_dmc\<lparr>links := [1 \<mapsto> \<lparr>prev = 1, next = 1\<rparr>, 2 \<mapsto> \<lparr>prev = 2, next = 2\<rparr>], cells := Map.empty, dmc_list_size := 0\<rparr>"

lemma fresh_dmc_ok: "cache_ok fresh_dmc [] [] [] []"
  by (auto simp: cache_ok_def cache_rep_def ipc_rep_def dm_mem_ok_def fresh_dmc_def sample_dmc_def dlist_def get_next_def get_prev_def)

theorem cache_capacity_lost_witness:
  "\<exists>s' ys' ds'. run_cache roomy_dm_env (map (\<lambda>(i, dev, t). CacheInsert i dev t null) (replicate 50 (5, 0, 7)) @ [CacheTick]) fresh_dmc = Some (replicate 51 SUCCESS_RETURN, s')
    \<and> cache_ok s' [] [] ys' ds'
    \<and> (\<forall>ops. \<exists>rcs s''. run_cache roomy_dm_env ops s' = Some (rcs, s'') \<and> list_all2 (\<lambda>op rc. is_insert op \<longrightarrow> rc = STATE_DEV_MODEL_CTX_LIST_FULL) ops rcs)"
  by (rule cache_capacity_lost [OF fresh_dmc_ok]) (auto simp: fresh_dmc_def sample_dmc_def roomy_dm_env_def)

text \<open>Deinitialising the cache frees every request with its data and leaves the list empty and the message queue as it was; but the mutex, taken once,
  is given back once for every request and once more at the end.\<close>

lemma cache_deinit_unbalanced:
  assumes "cache_ok s xs cs ys ds"
  shows "\<exists>s'. dm_msg_cache_deinit s = Some (SUCCESS_RETURN, s') \<and> cache_ok s' [] [] ys ds \<and> map (message s') ds = map (message s) ds
    \<and> dom (cells s') = dom (cells s) - set xs \<and> dmc_locked s' = (if dmc_mutex s then dmc_locked s - int (length xs) else dmc_locked s)"
  using deinit_spec [OF assms] by (simp add: cache_deinited_def)

end
