(* ===== verification/Infra_JSON.thy ===== *)
theory Infra_JSON
  imports Prelude
begin

text \<open>
  The JSON scanner of \<open>src/eng/infra/infra_json_parser.c\<close>: lookup of a value by its name in a text that is not copied.
  A pointer into the text is a position of the object that holds it, and every read of a character is a \<open>load\<close>; \<open>None\<close> is a
  read behind the object.
\<close>

section \<open>Data\<close>

datatype JSONTYPE = JNONE | JSTRING | JOBJECT | JARRAY | JNUMBER | JBOOLEAN

datatype json_parse_code = JSON_PARSE_OK | JSON_PARSE_FINISH

record JSON_NV =
  nv_pN :: bytes
  nv_pV :: "nat option"
  nv_vLen :: nat
  nv_vType :: JSONTYPE

text \<open>What \<open>json_get_next_object\<close> stores through its pointers, with its result.\<close>

record json_item =
  it_pos :: "nat option"
  it_key :: nat
  it_klen :: nat
  it_val :: "nat option"
  it_vlen :: nat
  it_vtype :: JSONTYPE

abbreviation (input) QUOTE :: byte where "QUOTE \<equiv> 34"
abbreviation (input) COLON :: byte where "COLON \<equiv> 58"

section \<open>The scanner\<close>

text \<open>\<open>strchr\<close>: the first occurrence of a character other than NUL, or null.\<close>

function strchr :: "bytes \<Rightarrow> nat \<Rightarrow> byte \<Rightarrow> nat option option" where
  "strchr m p c = (if p \<ge> length m then None
     else if m ! p = c then Some (Some p) else if m ! p = 0 then Some None else strchr m (p + 1) c)"
  by pat_completeness auto
termination by (relation "measure (\<lambda>(m, p, _). length m - p)") auto

declare strchr.simps [simp del]

definition open_mark :: "JSONTYPE \<Rightarrow> byte" where
  "open_mark t = (case t of JSTRING \<Rightarrow> QUOTE | JOBJECT \<Rightarrow> 123 | JARRAY \<Rightarrow> 91 | _ \<Rightarrow> 48)"

definition close_mark :: "JSONTYPE \<Rightarrow> byte" where
  "close_mark t = (case t of JSTRING \<Rightarrow> QUOTE | JOBJECT \<Rightarrow> 125 | JARRAY \<Rightarrow> 93 | _ \<Rightarrow> 32)"

function json_get_object :: "JSONTYPE \<Rightarrow> bytes \<Rightarrow> nat \<Rightarrow> nat \<Rightarrow> nat option option" where
  "json_get_object type m str str_end =
    (if str \<ge> length m then None
     else if m ! str = 0 \<or> str \<ge> str_end then Some None
     else if m ! str = 32 then json_get_object type m (str + 1) str_end
     else Some (if m ! str = (if type = JOBJECT then 123 else 91) then Some str else None))"
  by pat_completeness auto
termination by (relation "measure (\<lambda>(_, m, p, _). length m - p)") auto

declare json_get_object.simps [simp del]

text \<open>The first loop: the start of the value and its type, with the position from which its end is sought.\<close>

definition value_start :: "byte \<Rightarrow> JSONTYPE" where
  "value_start c = (if c = QUOTE then JSTRING else if c = 123 then JOBJECT else if c = 91 then JARRAY
     else if c = 45 \<or> 48 \<le> c \<and> c \<le> 57 then JNUMBER
     else if c = 116 \<or> c = 84 \<or> c = 102 \<or> c = 70 then JBOOLEAN else JNONE)"

function value_find :: "bytes \<Rightarrow> nat \<Rightarrow> nat \<Rightarrow> (JSONTYPE \<times> nat option \<times> nat) option" where
  "value_find m p e = (if p \<ge> length m then None
     else if m ! p = 0 \<or> p \<ge> e then Some (JNONE, None, p)
     else case value_start (m ! p) of
         JSTRING \<Rightarrow> Some (JSTRING, Some (p + 1), p + 1)
       | JOBJECT \<Rightarrow> Some (JOBJECT, Some p, p + 1)
       | JARRAY \<Rightarrow> Some (JARRAY, Some p, p + 1)
       | JNUMBER \<Rightarrow> Some (JNUMBER, Some p, p + 1)
       | JBOOLEAN \<Rightarrow> Some (JBOOLEAN, Some p, p)
       | JNONE \<Rightarrow> value_find m (p + 1) e)"
  by pat_completeness auto
termination by (relation "measure (\<lambda>(m, p, _). length m - p)") auto

declare value_find.simps [simp del]

definition number_char :: "byte \<Rightarrow> bool" where
  "number_char c \<longleftrightarrow> 48 \<le> c \<and> c \<le> 57 \<or> c = 46 \<or> c = 43 \<or> c = 45 \<or> c = 101 \<or> c = 69"

text \<open>The test for a truth value: \<open>strlen\<close> and \<open>strncmp\<close> on the rest of the text.\<close>

definition boolean_len :: "bytes \<Rightarrow> nat \<Rightarrow> nat option option" where
  "boolean_len m v = do {
     t \<leftarrow> c_text (drop v m);
     let has = (\<lambda>w. take (length w) t = c_lit w);
     Some (if has ''true'' \<or> has ''TRUE'' then Some 4 else if has ''false'' \<or> has ''FALSE'' then Some 5 else None) }"

text \<open>The second loop: the length of the value that starts at \<open>v\<close>; \<open>md\<close> is the depth of brackets, \<open>sd\<close> says whether the scan is
  inside a string.  A value without an end has length 0.\<close>

function value_len :: "bytes \<Rightarrow> JSONTYPE \<Rightarrow> nat \<Rightarrow> nat \<Rightarrow> nat \<Rightarrow> nat \<Rightarrow> bool \<Rightarrow> nat option" where
  "value_len m t v e p md sd = (if p \<ge> length m then None
     else if m ! p = 0 \<or> p \<ge> e then Some 0
     else let c = m ! p in case t of
         JBOOLEAN \<Rightarrow> do {
           r \<leftarrow> boolean_len m v;
           case r of Some n \<Rightarrow> Some n | None \<Rightarrow> value_len m t v e (p + 1) md sd }
       | JNUMBER \<Rightarrow> if \<not> number_char c then Some (p - v) else value_len m t v e (p + 1) md sd
       | JSTRING \<Rightarrow> if c = QUOTE then Some (p - v) else value_len m t v e (p + 1) md sd
       | JNONE \<Rightarrow> Some 0
       | _ \<Rightarrow>
           if c = close_mark t then
             if \<not> sd then if md = 0 then Some (p - v + 1) else value_len m t v e (p + 1) (md - 1) sd
             else value_len m t v e (p + 1) md sd
           else if c = open_mark t then value_len m t v e (p + 1) (if \<not> sd then md + 1 else md) sd
           else if c = QUOTE then value_len m t v e (p + 1) md (\<not> sd)
           else value_len m t v e (p + 1) md sd)"
  by pat_completeness auto
termination by (relation "measure (\<lambda>(m, _, _, _, p, _). length m - p)") auto

declare value_len.simps [simp del]

text \<open>Both loops together, from a position that can be null.\<close>

definition json_value :: "bytes \<Rightarrow> nat option \<Rightarrow> nat \<Rightarrow> (JSONTYPE \<times> nat option \<times> nat) option" where
  "json_value m pos e = (case pos of None \<Rightarrow> Some (JNONE, None, 0)
     | Some p \<Rightarrow> do {
         (t, v, p) \<leftarrow> value_find m p e;
         n \<leftarrow> (case v of None \<Rightarrow> Some 0 | Some v \<Rightarrow> value_len m t v e p 0 False);
         Some (t, v, n) })"

text \<open>The last part: positions and lengths are returned, and the position behind the value; \<open>None\<close> stands for the exit
  at which the outputs become null.  The macro for arrays passes null for the key, and this exit stores through it.\<close>

definition json_item_of :: "nat \<Rightarrow> nat \<Rightarrow> nat \<Rightarrow> JSONTYPE \<times> nat option \<times> nat \<Rightarrow> json_item option" where
  "json_item_of e k kn r = (case r of (t, v, n) \<Rightarrow>
     if (case v of Some v \<Rightarrow> v + n > e | None \<Rightarrow> False) then None
     else Some \<lparr>it_pos = map_option (\<lambda>v. if t = JSTRING then v + n + 1 else v + n) v, it_key = k, it_klen = kn,
                it_val = v, it_vlen = n, it_vtype = t\<rparr>)"

definition json_get_next_object :: "JSONTYPE \<Rightarrow> bytes \<Rightarrow> nat \<Rightarrow> nat \<Rightarrow> json_item option option" where
  "json_get_next_object type m str str_end = (if type = JOBJECT then do {
       q \<leftarrow> strchr m str QUOTE;
       case q of None \<Rightarrow> Some None
       | Some q \<Rightarrow> do {
           let name = q + 1;
           r \<leftarrow> strchr m name QUOTE;
           case r of None \<Rightarrow> Some None
           | Some r \<Rightarrow> do {
               let name_len = r - name;
               pos \<leftarrow> strchr m r COLON;
               v \<leftarrow> json_value m pos str_end;
               if name + name_len > str_end then Some None else Some (json_item_of str_end name name_len v) } } }
     else do {
       v \<leftarrow> json_value m (Some str) str_end;
       it \<leftarrow> json_item_of str_end 0 0 v;
       Some (Some it) })"

text \<open>The loop of \<open>json_object_for_each_kv\<close> with the body of \<open>json_parse_name_value\<close>; \<open>found\<close> is its result.\<close>

partial_function (option) kv_loop ::
  "(nat \<Rightarrow> nat \<Rightarrow> nat \<Rightarrow> nat \<Rightarrow> JSONTYPE \<Rightarrow> 's \<Rightarrow> (json_parse_code \<times> 's) option) \<Rightarrow> bytes \<Rightarrow> nat \<Rightarrow> nat option \<Rightarrow> bool \<Rightarrow> 's \<Rightarrow> (bool \<times> 's) option" where
  "kv_loop cb m e pos found s = (case pos of None \<Rightarrow> Some (found, s)
     | Some p \<Rightarrow> do {
         c \<leftarrow> load m p;
         if c = 0 then Some (found, s)
         else do {
           it \<leftarrow> json_get_next_object JOBJECT m p e;
           case it of None \<Rightarrow> Some (found, s)
           | Some it \<Rightarrow> (case it_val it of None \<Rightarrow> Some (found, s)
               | Some v \<Rightarrow> if it_klen it \<noteq> 0 \<and> it_vlen it \<noteq> 0 then do {
                     (code, s) \<leftarrow> cb (it_key it) (it_klen it) v (it_vlen it) (it_vtype it) s;
                     if code = JSON_PARSE_FINISH then Some (True, s) else kv_loop cb m e (it_pos it) True s }
                   else kv_loop cb m e (it_pos it) found s) } })"

definition json_parse_name_value ::
  "bytes \<Rightarrow> nat \<Rightarrow> nat \<Rightarrow> (nat \<Rightarrow> nat \<Rightarrow> nat \<Rightarrow> nat \<Rightarrow> JSONTYPE \<Rightarrow> 's \<Rightarrow> (json_parse_code \<times> 's) option) \<Rightarrow> 's \<Rightarrow> (bool \<times> 's) option" where
  "json_parse_name_value m str n cb s = (if n = 0 then Some (False, s)
     else do {
       pos \<leftarrow> json_get_object JOBJECT m str (str + n);
       kv_loop cb m (str + n) pos False s })"

definition json_get_value_by_name_cb :: "bytes \<Rightarrow> nat \<Rightarrow> nat \<Rightarrow> nat \<Rightarrow> nat \<Rightarrow> JSONTYPE \<Rightarrow> JSON_NV \<Rightarrow> (json_parse_code \<times> JSON_NV) option" where
  "json_get_value_by_name_cb m key klen v n t nv = do {
     name \<leftarrow> load_n m key klen;
     if name = nv_pN nv then Some (JSON_PARSE_FINISH, nv\<lparr>nv_pV := Some v, nv_vLen := n, nv_vType := t\<rparr>)
     else Some (JSON_PARSE_OK, nv) }"

text \<open>The result is the position of the value, or null, and what is stored as length and type: nothing when the text
  has no entry at all.  The name is the text of \<open>p_cName\<close> up to the given length.\<close>

definition json_get_value_by_name_len :: "bytes \<Rightarrow> nat \<Rightarrow> nat \<Rightarrow> bytes \<Rightarrow> (nat option \<times> (nat \<times> JSONTYPE) option) option" where
  "json_get_value_by_name_len m str n name = do {
     (found, nv) \<leftarrow> json_parse_name_value m str n (json_get_value_by_name_cb m) \<lparr>nv_pN = name, nv_pV = None, nv_vLen = 0, nv_vType = JSTRING\<rparr>;
     Some (nv_pV nv, if found then Some (nv_vLen nv, nv_vType nv) else None) }"

definition json_get_value_by_name :: "bytes \<Rightarrow> nat \<Rightarrow> nat \<Rightarrow> bytes \<Rightarrow> (nat option \<times> (nat \<times> JSONTYPE) option) option" where
  "json_get_value_by_name m str n name = json_get_value_by_name_len m str n name"

text \<open>\<open>LITE_json_value_of\<close>: the names of a path are separated by dots; the value is copied into a fresh object, which is
  \<open>None\<close> when there is no memory.\<close>

fun split_path :: "bytes \<Rightarrow> bytes list" where
  "split_path [] = [[]]"
| "split_path (c # cs) = (if c = 46 then [] # split_path cs
     else case split_path cs of p # ps \<Rightarrow> (c # p) # ps | [] \<Rightarrow> [[c]])"

fun value_of_path :: "bytes \<Rightarrow> nat \<Rightarrow> nat \<Rightarrow> bytes list \<Rightarrow> (nat \<times> nat) option option" where
  "value_of_path m str n [] = Some (Some (str, n))"
| "value_of_path m str n (name # names) = do {
     (v, r) \<leftarrow> json_get_value_by_name_len m str n name;
     case v of None \<Rightarrow> Some None
     | Some v \<Rightarrow> (case r of None \<Rightarrow> None | Some (vn, _) \<Rightarrow> value_of_path m v vn names) }"

definition LITE_json_value_of :: "bool \<Rightarrow> bytes \<Rightarrow> bytes \<Rightarrow> bytes option option" where
  "LITE_json_value_of got_memory key m = do {
     n \<leftarrow> c_strlen m;
     r \<leftarrow> value_of_path m 0 n (split_path key);
     case r of None \<Rightarrow> Some None
     | Some (v, vn) \<Rightarrow> if \<not> got_memory then Some None
         else do {
           t \<leftarrow> c_text (drop v m);
           Some (Some (take vn t @ [0])) } }"

section \<open>JSON texts\<close>

text \<open>JSON values with their layout, and their texts.  Between two symbols stands a gap, a text of white space: before the first
  entry of an object or array, and at the places \<open>g 0\<close>, \<open>g 1\<close>, \<dots> of an entry.  The content of a string is any text without
  quotes, so it holds every escape sequence except the escaped quote.\<close>

datatype json = Jnull | Jstr bytes | Jnum bytes | Jbool bool | Jobj bytes members | Jarr bytes elements
  and members = MNil | MCons "nat \<Rightarrow> bytes" bytes json members
  and elements = ENil | ECons "nat \<Rightarrow> bytes" json elements

primrec json_text :: "json \<Rightarrow> bytes" and members_text :: "members \<Rightarrow> bytes" and elements_text :: "elements \<Rightarrow> bytes" where
  "json_text Jnull = c_lit ''null''"
| "json_text (Jstr s) = QUOTE # s @ [QUOTE]"
| "json_text (Jnum s) = s"
| "json_text (Jbool b) = (if b then c_lit ''true'' else c_lit ''false'')"
| "json_text (Jobj g ms) = 123 # g @ tl (members_text ms) @ [125]"
| "json_text (Jarr g es) = 91 # g @ tl (elements_text es) @ [93]"
| "members_text MNil = []"
| "members_text (MCons g k v ms) = 44 # g 0 @ QUOTE # k @ QUOTE # g 1 @ COLON # g 2 @ json_text v @ g 3 @ members_text ms"
| "elements_text ENil = []"
| "elements_text (ECons g v es) = 44 # g 0 @ json_text v @ g 1 @ elements_text es"

definition plain_text :: "bytes \<Rightarrow> bool" where
  "plain_text s \<longleftrightarrow> 0 \<notin> set s \<and> QUOTE \<notin> set s"

definition gap :: "bytes \<Rightarrow> bool" where
  "gap g \<longleftrightarrow> set g \<subseteq> {32, 9, 10, 13}"

primrec json_ok :: "json \<Rightarrow> bool" and members_ok :: "members \<Rightarrow> bool" and elements_ok :: "elements \<Rightarrow> bool" where
  "json_ok Jnull = True"
| "json_ok (Jstr s) = plain_text s"
| "json_ok (Jnum s) = (s \<noteq> [] \<and> value_start (hd s) = JNUMBER \<and> (\<forall>c \<in> set s. number_char c))"
| "json_ok (Jbool b) = True"
| "json_ok (Jobj g ms) = (gap g \<and> members_ok ms)"
| "json_ok (Jarr g es) = (gap g \<and> elements_ok es)"
| "members_ok MNil = True"
| "members_ok (MCons g k v ms) = ((\<forall>i. gap (g i)) \<and> plain_text k \<and> json_ok v \<and> members_ok ms)"
| "elements_ok ENil = True"
| "elements_ok (ECons g v es) = ((\<forall>i. gap (g i)) \<and> json_ok v \<and> elements_ok es)"

text \<open>What a lookup returns of a value: its type, and its text, of a string without the quotes.\<close>

definition value_type :: "json \<Rightarrow> JSONTYPE" where
  "value_type v = (case v of Jnull \<Rightarrow> JNONE | Jstr _ \<Rightarrow> JSTRING | Jnum _ \<Rightarrow> JNUMBER | Jbool _ \<Rightarrow> JBOOLEAN
     | Jobj _ _ \<Rightarrow> JOBJECT | Jarr _ _ \<Rightarrow> JARRAY)"

definition value_content :: "json \<Rightarrow> bytes" where
  "value_content v = (case v of Jstr s \<Rightarrow> s | _ \<Rightarrow> json_text v)"

text \<open>The first member with a name, and the condition that no member has the value null.\<close>

fun member_of :: "members \<Rightarrow> bytes \<Rightarrow> json option" where
  "member_of MNil name = None"
| "member_of (MCons g k v ms) name = (if k = name then Some v else member_of ms name)"

fun no_null :: "members \<Rightarrow> bool" where
  "no_null MNil \<longleftrightarrow> True"
| "no_null (MCons g k v ms) \<longleftrightarrow> v \<noteq> Jnull \<and> no_null ms"

text \<open>What the scanner finds of them: it passes over members with an empty name or with an empty string as value.  The two
  agree unless the member asked for is one of these.\<close>

fun shown_member :: "members \<Rightarrow> bytes \<Rightarrow> json option" where
  "shown_member MNil name = None"
| "shown_member (MCons g k v ms) name = (if k = name \<and> k \<noteq> [] \<and> value_content v \<noteq> [] then Some v else shown_member ms name)"

lemma content_empty: "json_ok v \<Longrightarrow> value_content v = [] \<longleftrightarrow> v = Jstr []"
  by (cases v) (auto simp: value_content_def c_lit_def)

lemma shown_is_first:
  "members_ok ms \<Longrightarrow> name \<noteq> [] \<Longrightarrow> member_of ms name \<noteq> Some (Jstr []) \<Longrightarrow> shown_member ms name = member_of ms name"
  by (induction ms name rule: member_of.induct) (auto simp: content_empty split: if_split_asm)

section \<open>Characters\<close>

lemma strchr_found: "c \<notin> set t \<Longrightarrow> 0 \<notin> set t \<Longrightarrow> strchr (xs @ t @ c # ys) (length xs) c = Some (Some (length xs + length t))"
proof (induction t arbitrary: xs)
  case Nil
  then show ?case by (subst strchr.simps) simp
next
  case (Cons a t)
  then show ?case using Cons.IH [of "xs @ [a]"] by (subst strchr.simps) (auto simp: nth_append)
qed

lemma number_char_value: "number_char c \<Longrightarrow> c \<noteq> 0"
  by (auto simp: number_char_def)

lemma value_find_skip: "p < length m \<Longrightarrow> m ! p \<noteq> 0 \<Longrightarrow> p < e \<Longrightarrow> value_start (m ! p) = JNONE \<Longrightarrow> value_find m p e = value_find m (p + 1) e"
  by (subst value_find.simps) simp

lemma len_string:
  "plain_text s \<Longrightarrow> length xs + length s < e \<Longrightarrow> value_len (xs @ s @ QUOTE # ys) JSTRING v e (length xs) md sd = Some (length xs + length s - v)"
proof (induction s arbitrary: xs)
  case Nil
  then show ?case by (subst value_len.simps) simp
next
  case (Cons a s)
  then show ?case using Cons.IH [of "xs @ [a]"] by (subst value_len.simps) (auto simp: plain_text_def nth_append)
qed

lemma len_number:
  "\<forall>c \<in> set s. number_char c \<Longrightarrow> \<not> number_char c \<Longrightarrow> c \<noteq> 0 \<Longrightarrow> length xs + length s < e
    \<Longrightarrow> value_len (xs @ s @ c # ys) JNUMBER v e (length xs) md sd = Some (length xs + length s - v)"
proof (induction s arbitrary: xs)
  case Nil
  then show ?case by (subst value_len.simps) simp
next
  case (Cons a s)
  then have "a \<noteq> 0" using number_char_value by simp
  with Cons show ?case using Cons.IH [of "xs @ [a]"] by (subst value_len.simps) (auto simp: nth_append)
qed

section \<open>Nested values\<close>

text \<open>A text that the scan for a closing bracket passes without a change of its depth.\<close>

definition neutral :: "JSONTYPE \<Rightarrow> bytes \<Rightarrow> bool" where
  "neutral t w \<longleftrightarrow> (\<forall>xs ys v e md. length xs + length w \<le> e \<longrightarrow>
     value_len (xs @ w @ ys) t v e (length xs) md False = value_len (xs @ w @ ys) t v e (length xs + length w) md False)"

lemma marks: "open_mark JOBJECT = 123" "close_mark JOBJECT = 125" "open_mark JARRAY = 91" "close_mark JARRAY = 93"
  by (simp_all add: open_mark_def close_mark_def)

lemma len_step:
  assumes "t = JOBJECT \<or> t = JARRAY" "length xs < e" "c \<noteq> 0"
  shows "value_len (xs @ c # ys) t v e (length xs) md sd =
    (if c = close_mark t then
       if \<not> sd then if md = 0 then Some (length xs - v + 1) else value_len (xs @ c # ys) t v e (Suc (length xs)) (md - 1) sd
       else value_len (xs @ c # ys) t v e (Suc (length xs)) md sd
     else if c = open_mark t then value_len (xs @ c # ys) t v e (Suc (length xs)) (if \<not> sd then md + 1 else md) sd
     else if c = QUOTE then value_len (xs @ c # ys) t v e (Suc (length xs)) md (\<not> sd)
     else value_len (xs @ c # ys) t v e (Suc (length xs)) md sd)"
  using assms by (subst value_len.simps) (auto simp: Let_def)

lemma neutral_Nil: "neutral t []"
  by (simp add: neutral_def)

lemma neutral_append: "neutral t a \<Longrightarrow> neutral t b \<Longrightarrow> neutral t (a @ b)"
  unfolding neutral_def
proof (intro allI impI)
  fix xs ys :: bytes and v e md
  assume a: "\<forall>xs ys v e md. length xs + length a \<le> e \<longrightarrow>
       value_len (xs @ a @ ys) t v e (length xs) md False = value_len (xs @ a @ ys) t v e (length xs + length a) md False"
    and b: "\<forall>xs ys v e md. length xs + length b \<le> e \<longrightarrow>
       value_len (xs @ b @ ys) t v e (length xs) md False = value_len (xs @ b @ ys) t v e (length xs + length b) md False"
    and n: "length xs + length (a @ b) \<le> e"
  have "value_len (xs @ a @ b @ ys) t v e (length xs) md False = value_len (xs @ a @ b @ ys) t v e (length xs + length a) md False"
    using a [rule_format, of xs e "b @ ys"] n by simp
  also have "\<dots> = value_len (xs @ a @ b @ ys) t v e (length xs + length a + length b) md False"
    using b [rule_format, of "xs @ a" e ys] n by simp
  finally show "value_len (xs @ (a @ b) @ ys) t v e (length xs) md False
      = value_len (xs @ (a @ b) @ ys) t v e (length xs + length (a @ b)) md False" by (simp add: add.assoc)
qed

lemma neutral_char:
  assumes "t = JOBJECT \<or> t = JARRAY" "c \<noteq> 0" "c \<noteq> QUOTE" "c \<noteq> close_mark t" "c \<noteq> open_mark t"
  shows "neutral t [c]"
  using assms by (simp add: neutral_def len_step)

lemma in_string:
  assumes "t = JOBJECT \<or> t = JARRAY"
  shows "plain_text s \<Longrightarrow> length xs + length s \<le> e \<Longrightarrow>
    value_len (xs @ s @ ys) t v e (length xs) md True = value_len (xs @ s @ ys) t v e (length xs + length s) md True"
proof (induction s arbitrary: xs)
  case (Cons a s)
  then have a: "a \<noteq> 0" "a \<noteq> QUOTE" "plain_text s" by (auto simp: plain_text_def)
  have "value_len (xs @ (a # s) @ ys) t v e (length xs) md True = value_len ((xs @ [a]) @ s @ ys) t v e (length (xs @ [a])) md True"
    using a Cons.prems(2) assms len_step [of t xs e a "s @ ys" v md True] by simp
  with Cons.IH [OF a(3), of "xs @ [a]"] Cons.prems(2) show ?case by simp
qed simp

lemma neutral_string:
  assumes t: "t = JOBJECT \<or> t = JARRAY" and s: "plain_text s"
  shows "neutral t (QUOTE # s @ [QUOTE])"
  unfolding neutral_def
proof (intro allI impI)
  fix xs ys :: bytes and v e md assume n: "length xs + length (QUOTE # s @ [QUOTE]) \<le> e"
  let ?m = "xs @ (QUOTE # s @ [QUOTE]) @ ys"
  have q: "QUOTE \<noteq> close_mark t" "QUOTE \<noteq> open_mark t" using t by (auto simp: open_mark_def close_mark_def)
  have "value_len ?m t v e (length xs) md False = value_len ?m t v e (Suc (length xs)) md True"
    using n q len_step [OF t, of xs e QUOTE "s @ QUOTE # ys" v md False] by simp
  also have "\<dots> = value_len ?m t v e (Suc (length xs) + length s) md True"
    using n in_string [OF t s, of "xs @ [QUOTE]" e "QUOTE # ys" v md] by simp
  also have "\<dots> = value_len ?m t v e (length xs + length (QUOTE # s @ [QUOTE])) md False"
    using n q len_step [OF t, of "xs @ QUOTE # s" e QUOTE ys v md True] by simp
  finally show "value_len ?m t v e (length xs) md False = value_len ?m t v e (length xs + length (QUOTE # s @ [QUOTE])) md False" .
qed

lemma neutral_bracket:
  assumes t: "t = JOBJECT \<or> t = JARRAY" and w: "neutral t w"
  shows "neutral t (open_mark t # w @ [close_mark t])"
  unfolding neutral_def
proof (intro allI impI)
  fix xs ys :: bytes and v e md assume n: "length xs + length (open_mark t # w @ [close_mark t]) \<le> e"
  let ?m = "xs @ (open_mark t # w @ [close_mark t]) @ ys"
  have q: "open_mark t \<noteq> close_mark t" "open_mark t \<noteq> 0" "close_mark t \<noteq> 0" using t by (auto simp: open_mark_def close_mark_def)
  have "value_len ?m t v e (length xs) md False = value_len ?m t v e (Suc (length xs)) (md + 1) False"
    using n q len_step [OF t, of xs e "open_mark t" "w @ close_mark t # ys" v md False] by simp
  also have "\<dots> = value_len ?m t v e (Suc (length xs) + length w) (md + 1) False"
    using n w [unfolded neutral_def, rule_format, of "xs @ [open_mark t]" e "close_mark t # ys" v "md + 1"] by simp
  also have "\<dots> = value_len ?m t v e (length xs + length (open_mark t # w @ [close_mark t])) md False"
    using n q len_step [OF t, of "xs @ open_mark t # w" e "close_mark t" ys v "md + 1" False] by simp
  finally show "value_len ?m t v e (length xs) md False = value_len ?m t v e (length xs + length (open_mark t # w @ [close_mark t])) md False" .
qed

lemma gap_simps [simp]: "gap []" "gap (c # g) \<longleftrightarrow> (c = 32 \<or> c = 9 \<or> c = 10 \<or> c = 13) \<and> gap g" "gap (g @ g') \<longleftrightarrow> gap g \<and> gap g'"
  by (auto simp: gap_def)

lemma gap_chars: "gap g \<Longrightarrow> 0 \<notin> set g \<and> QUOTE \<notin> set g \<and> COLON \<notin> set g"
  by (auto simp: gap_def)

lemma neutral_gap:
  assumes "t = JOBJECT \<or> t = JARRAY"
  shows "gap g \<Longrightarrow> neutral t g"
proof (induction g)
  case (Cons c g)
  then have "neutral t [c]" using assms by (intro neutral_char) (auto simp: open_mark_def close_mark_def)
  with Cons neutral_append [of t "[c]" g] show ?case by simp
qed (simp add: neutral_Nil)

lemma neutral_word:
  assumes "t = JOBJECT \<or> t = JARRAY"
  shows "set w \<subseteq> {116, 114, 117, 101, 102, 97, 108, 115, 110} \<Longrightarrow> neutral t w"
proof (induction w)
  case (Cons c w)
  then have "neutral t [c]" using assms by (intro neutral_char) (auto simp: open_mark_def close_mark_def)
  with Cons neutral_append [of t "[c]" w] show ?case by simp
qed (simp add: neutral_Nil)

lemma json_neutral:
  assumes t: "t = JOBJECT \<or> t = JARRAY"
  shows "json_ok v \<Longrightarrow> neutral t (json_text v)"
    and "members_ok ms \<Longrightarrow> neutral t (members_text ms) \<and> neutral t (tl (members_text ms))"
    and "elements_ok es \<Longrightarrow> neutral t (elements_text es) \<and> neutral t (tl (elements_text es))"
proof (induction v and ms and es)
  case (Jnum s)
  have "neutral t s" if "\<forall>c \<in> set s. number_char c" for s
    using that
  proof (induction s)
    case (Cons a s)
    then have "neutral t [a]" using t by (intro neutral_char) (auto simp: number_char_def open_mark_def close_mark_def)
    with Cons neutral_append [of t "[a]" s] show ?case by simp
  qed (simp add: neutral_Nil)
  with Jnum show ?case by simp
next
  case Jnull
  show ?case using neutral_word [OF t, of "c_lit ''null''"] by (simp add: c_lit_def)
next
  case (Jbool b)
  show ?case using neutral_word [OF t, of "json_text (Jbool b)"] by (cases b) (simp_all add: c_lit_def)
next
  case (Jobj g ms)
  then have w: "neutral t (g @ tl (members_text ms))" by (simp add: neutral_append neutral_gap [OF t])
  show ?case
  proof (cases "t = JOBJECT")
    case True
    with neutral_bracket [OF t w] show ?thesis by (simp add: marks)
  next
    case False
    then have "neutral t [123]" "neutral t [125]" using t by (auto intro!: neutral_char simp: marks)
    with neutral_append [OF _ neutral_append [OF w], of "[123]" "[125]"] show ?thesis by simp
  qed
next
  case (Jarr g es)
  then have w: "neutral t (g @ tl (elements_text es))" by (simp add: neutral_append neutral_gap [OF t])
  show ?case
  proof (cases "t = JARRAY")
    case True
    with neutral_bracket [OF t w] show ?thesis by (simp add: marks)
  next
    case False
    then have "neutral t [91]" "neutral t [93]" using t by (auto intro!: neutral_char simp: marks)
    with neutral_append [OF _ neutral_append [OF w], of "[91]" "[93]"] show ?thesis by simp
  qed
next
  case (MCons g k v ms)
  have c: "neutral t [44]" "neutral t [COLON]" using t by (auto intro!: neutral_char simp: marks open_mark_def close_mark_def)
  have g: "neutral t (g i)" for i using MCons.prems neutral_gap [OF t] by simp
  have k: "neutral t (QUOTE # k @ [QUOTE])" using neutral_string [OF t] MCons.prems by simp
  have v: "neutral t (json_text v)" "neutral t (members_text ms)" using MCons by simp_all
  have "neutral t (g 0 @ (QUOTE # k @ [QUOTE]) @ g 1 @ [COLON] @ g 2 @ json_text v @ g 3 @ members_text ms)"
    by (intro neutral_append g k c v)
  with neutral_append [OF c(1) this] show ?case by simp
next
  case (ECons g v es)
  have c: "neutral t [44]" using t by (auto intro!: neutral_char simp: marks open_mark_def close_mark_def)
  have g: "neutral t (g i)" for i using ECons.prems neutral_gap [OF t] by simp
  have "neutral t (g 0 @ json_text v @ g 1 @ elements_text es)" using ECons by (intro neutral_append g) simp_all
  with neutral_append [OF c this] show ?case by simp
qed (simp_all add: neutral_Nil neutral_string [OF t])

text \<open>The length of a bracketed value.\<close>

lemma len_bracket:
  assumes t: "t = JOBJECT \<or> t = JARRAY" and w: "neutral t w" and n: "length xs + length w < e"
  shows "value_len (xs @ w @ close_mark t # ys) t v e (length xs) 0 False = Some (length xs + length w - v + 1)"
proof -
  have "close_mark t \<noteq> 0" using t by (auto simp: close_mark_def)
  then show ?thesis
    using n w [unfolded neutral_def, rule_format, of xs e "close_mark t # ys" v 0] len_step [OF t, of "xs @ w" e "close_mark t" ys v 0 False] by simp
qed

section \<open>Values and members\<close>

definition value_offset :: "json \<Rightarrow> nat" where
  "value_offset v = (case v of Jstr _ \<Rightarrow> 1 | _ \<Rightarrow> 0)"

lemma c_text_takeWhile: "0 \<in> set z \<Longrightarrow> c_text z = Some (takeWhile (\<lambda>c. c \<noteq> 0) z)"
proof -
  assume "0 \<in> set z"
  then obtain a b where z: "z = a @ 0 # b" "0 \<notin> set a" by (meson split_list_first)
  then have "takeWhile (\<lambda>c. c \<noteq> 0) z = a" by (simp add: takeWhile_append)
  with z show ?thesis by (simp add: c_text_def)
qed

lemma boolean_found:
  assumes "0 \<in> set ys"
  shows "boolean_len (xs @ json_text (Jbool b) @ ys) (length xs) = Some (Some (length (json_text (Jbool b))))"
proof -
  have t: "c_text (json_text (Jbool b) @ ys) = Some (json_text (Jbool b) @ takeWhile (\<lambda>c. c \<noteq> 0) ys)"
    using assms by (subst c_text_takeWhile) (auto simp: c_lit_def)
  show ?thesis using t by (cases b) (simp_all add: boolean_len_def c_lit_def)
qed

lemma value_first: "json_ok v \<Longrightarrow> json_text v \<noteq> [] \<and> value_start (hd (json_text v)) = value_type v \<and> hd (json_text v) \<noteq> 0"
proof (cases v)
  case (Jnum s)
  moreover assume "json_ok v"
  moreover have "value_start 0 \<noteq> JNUMBER" by (simp add: value_start_def)
  ultimately show ?thesis by (auto simp: value_type_def)
qed (simp_all add: value_type_def value_start_def c_lit_def)

lemma found_value:
  assumes v: "json_ok v" "v \<noteq> Jnull" and ys: "ys \<noteq> []" "\<not> number_char (hd ys)" "hd ys \<noteq> 0" "0 \<in> set ys"
    and e: "length xs + length (json_text v) < e"
  shows "\<exists>p. value_find (xs @ json_text v @ ys) (length xs) e = Some (value_type v, Some (length xs + value_offset v), p)
    \<and> value_len (xs @ json_text v @ ys) (value_type v) (length xs + value_offset v) e p 0 False = Some (length (value_content v))"
proof -
  let ?m = "xs @ json_text v @ ys"
  from value_first [OF v(1)] obtain c w where c: "json_text v = c # w" "value_start c = value_type v" "c \<noteq> 0" by (cases "json_text v") auto
  have start: "value_find ?m (length xs) e = (case value_type v of JSTRING \<Rightarrow> Some (JSTRING, Some (length xs + 1), length xs + 1)
       | JOBJECT \<Rightarrow> Some (JOBJECT, Some (length xs), length xs + 1) | JARRAY \<Rightarrow> Some (JARRAY, Some (length xs), length xs + 1)
       | JNUMBER \<Rightarrow> Some (JNUMBER, Some (length xs), length xs + 1) | JBOOLEAN \<Rightarrow> Some (JBOOLEAN, Some (length xs), length xs)
       | JNONE \<Rightarrow> value_find ?m (length xs + 1) e)"
    using c e by (subst value_find.simps) simp
  show ?thesis
  proof (cases v)
    case (Jstr s)
    then have "value_len ((xs @ [QUOTE]) @ s @ QUOTE # ys) JSTRING (length xs + 1) e (length (xs @ [QUOTE])) 0 False = Some (length (xs @ [QUOTE]) + length s - (length xs + 1))"
      using v e by (intro len_string) simp_all
    with start Jstr show ?thesis by (simp add: value_type_def value_offset_def value_content_def)
  next
    case (Jnum s)
    obtain y z where y: "ys = y # z" using ys(1) by (cases ys) auto
    have "value_len ((xs @ [c]) @ w @ y # z) JNUMBER (length xs) e (length (xs @ [c])) 0 False = Some (length (xs @ [c]) + length w - length xs)"
      using v c e Jnum ys y by (intro len_number) auto
    with start Jnum y c show ?thesis by (simp add: value_type_def value_offset_def value_content_def)
  next
    case (Jbool b)
    have "value_len ?m JBOOLEAN (length xs) e (length xs) 0 False = Some (length (json_text v))"
      using boolean_found [OF ys(4), of xs b] Jbool e c by (subst value_len.simps) (simp add: Let_def)
    with start Jbool show ?thesis by (simp add: value_type_def value_offset_def value_content_def)
  next
    case (Jobj g ms)
    have "value_len ((xs @ [123]) @ (g @ tl (members_text ms)) @ close_mark JOBJECT # ys) JOBJECT (length xs) e (length (xs @ [123])) 0 False
        = Some (length (xs @ [123]) + length (g @ tl (members_text ms)) - length xs + 1)"
      using v e Jobj json_neutral(2) [of JOBJECT ms] neutral_gap [of JOBJECT g] by (intro len_bracket neutral_append) simp_all
    with start Jobj show ?thesis by (simp add: value_type_def value_offset_def value_content_def marks)
  next
    case (Jarr g es)
    have "value_len ((xs @ [91]) @ (g @ tl (elements_text es)) @ close_mark JARRAY # ys) JARRAY (length xs) e (length (xs @ [91])) 0 False
        = Some (length (xs @ [91]) + length (g @ tl (elements_text es)) - length xs + 1)"
      using v e Jarr json_neutral(3) [of JARRAY es] neutral_gap [of JARRAY g] by (intro len_bracket neutral_append) simp_all
    with start Jarr show ?thesis by (simp add: value_type_def value_offset_def value_content_def marks)
  qed (use v in simp)
qed

lemma find_gap:
  "gap g \<Longrightarrow> length xs + length g \<le> e \<Longrightarrow> value_find (xs @ g @ ys) (length xs) e = value_find (xs @ g @ ys) (length xs + length g) e"
proof (induction g arbitrary: xs)
  case (Cons c g)
  have "value_find (xs @ (c # g) @ ys) (length xs) e = value_find (xs @ (c # g) @ ys) (length xs + 1) e"
    using Cons.prems by (intro value_find_skip) (auto simp: value_start_def)
  with Cons.IH [of "xs @ [c]"] Cons.prems show ?case by simp
qed simp

lemma colon_value:
  assumes "json_ok v" "v \<noteq> Jnull" "gap g" "ys \<noteq> []" "\<not> number_char (hd ys)" "hd ys \<noteq> 0" "0 \<in> set ys"
    "length xs + 1 + length g + length (json_text v) < e"
  shows "json_value (xs @ COLON # g @ json_text v @ ys) (Some (length xs)) e
    = Some (value_type v, Some (length xs + 1 + length g + value_offset v), length (value_content v))"
proof -
  have "value_find (xs @ COLON # g @ json_text v @ ys) (length xs) e = value_find (xs @ COLON # g @ json_text v @ ys) (length xs + 1) e"
    using assms(8) by (intro value_find_skip) (simp_all add: value_start_def)
  moreover have "value_find (xs @ COLON # g @ json_text v @ ys) (length xs + 1) e = value_find (xs @ COLON # g @ json_text v @ ys) (length xs + 1 + length g) e"
    using find_gap [of g "xs @ [COLON]" e "json_text v @ ys"] assms(3,8) by simp
  ultimately show ?thesis using found_value [of v ys "xs @ COLON # g" e] assms by (auto simp: json_value_def)
qed

text \<open>One member is read, and the position moves behind it.\<close>

lemma next_member:
  assumes v: "json_ok v" "v \<noteq> Jnull" "plain_text k" "\<forall>i :: nat. gap (g i)" and w: "0 \<notin> set w" "QUOTE \<notin> set w"
    and ys: "ys \<noteq> []" "\<not> number_char (hd ys)" "hd ys \<noteq> 0" "0 \<in> set ys"
    and m: "m = xs @ w @ QUOTE # k @ QUOTE # g 1 @ COLON # g 2 @ json_text v @ ys" and e: "length m - length ys < e"
  shows "json_get_next_object JOBJECT m (length xs) e = Some (Some \<lparr>it_pos = Some (length m - length ys), it_key = length xs + length w + 1, it_klen = length k,
    it_val = Some (length m - length ys - length (json_text v) + value_offset v), it_vlen = length (value_content v), it_vtype = value_type v\<rparr>)"
proof -
  let ?u = "xs @ w @ QUOTE # k" and ?t = "json_text v @ ys"
  have q: "strchr m (length xs) QUOTE = Some (Some (length xs + length w))"
    using strchr_found [of QUOTE w xs "k @ QUOTE # g 1 @ COLON # g 2 @ ?t"] w m by simp
  have r: "strchr m (length xs + length w + 1) QUOTE = Some (Some (length ?u))"
    using strchr_found [of QUOTE k "xs @ w @ [QUOTE]" "g 1 @ COLON # g 2 @ ?t"] v(3) m by (simp add: plain_text_def)
  have d: "strchr m (length ?u) COLON = Some (Some (length ?u + 1 + length (g 1)))"
    using strchr_found [of COLON "QUOTE # g 1" ?u "g 2 @ ?t"] gap_chars [of "g 1"] v(4) m by simp
  define a where "a = length ?u + 1 + length (g 1) + 1 + length (g 2)"
  have n: "length m - length ys = a + length (json_text v)" using m by (simp add: a_def)
  have "json_value ((?u @ QUOTE # g 1) @ COLON # g 2 @ ?t) (Some (length (?u @ QUOTE # g 1))) e
      = Some (value_type v, Some (length (?u @ QUOTE # g 1) + 1 + length (g 2) + value_offset v), length (value_content v))"
    using v ys e n by (intro colon_value) (simp_all add: a_def)
  then have j: "json_value m (Some (length ?u + 1 + length (g 1))) e = Some (value_type v, Some (a + value_offset v), length (value_content v))"
    using m by (simp add: a_def add.assoc)
  have o: "value_offset v + length (value_content v) \<le> length (json_text v)
      \<and> (if value_type v = JSTRING then value_offset v + length (value_content v) + 1 else value_offset v + length (value_content v)) = length (json_text v)"
    by (cases v) (simp_all add: value_offset_def value_content_def value_type_def)
  have u: "length ?u = length xs + length w + 1 + length k" by simp
  have k: "length ?u \<le> e" using n e by (simp add: a_def)
  have i: "json_item_of e (length xs + length w + 1) (length k) (value_type v, Some (a + value_offset v), length (value_content v))
    = Some \<lparr>it_pos = Some (a + length (json_text v)), it_key = length xs + length w + 1, it_klen = length k,
        it_val = Some (a + value_offset v), it_vlen = length (value_content v), it_vtype = value_type v\<rparr>"
    using o e n by (simp add: json_item_of_def split: if_split_asm)
  have "\<not> e < length xs + length w + 1 + length k" using k u by simp
  with q r d j i show ?thesis unfolding n u by (simp add: json_get_next_object_def Let_def)
qed

section \<open>The lookup\<close>

text \<open>With a NUL at \<open>i\<close> a search ends there at the latest.\<close>

lemma strchr_ends:
  "p \<le> i \<Longrightarrow> i < length m \<Longrightarrow> m ! i = 0 \<Longrightarrow> c \<noteq> 0 \<Longrightarrow>
    \<exists>r. strchr m p c = Some r \<and> (case r of None \<Rightarrow> True | Some q \<Rightarrow> p \<le> q \<and> q < i \<and> m ! q = c \<and> (\<forall>j. p \<le> j \<and> j < q \<longrightarrow> m ! j \<noteq> c))"
proof (induction m p c rule: strchr.induct)
  case (1 m p c)
  show ?case
  proof (cases "m ! p = c \<or> m ! p = 0")
    case True
    moreover have "p < i" if "m ! p \<noteq> 0" using that 1(2,4) by (metis le_neq_implies_less)
    ultimately show ?thesis using 1 by (subst strchr.simps) auto
  next
    case False
    then have p: "p < i" using 1 by (metis le_neq_implies_less)
    with 1 False obtain r where r: "strchr m (p + 1) c = Some r"
      "case r of None \<Rightarrow> True | Some q \<Rightarrow> p + 1 \<le> q \<and> q < i \<and> m ! q = c \<and> (\<forall>j. p + 1 \<le> j \<and> j < q \<longrightarrow> m ! j \<noteq> c)" by auto
    have "\<forall>j. p \<le> j \<and> j < q \<longrightarrow> m ! j \<noteq> c" if "\<forall>j. p + 1 \<le> j \<and> j < q \<longrightarrow> m ! j \<noteq> c" for q
      using that False by (metis Suc_eq_plus1 Suc_leI le_neq_implies_less)
    with r False p 1(3) show ?thesis by (subst strchr.simps) (auto split: option.splits)
  qed
qed

lemma value_behind: "p < length m \<Longrightarrow> e \<le> p \<Longrightarrow> json_value m (Some p) e = Some (JNONE, None, 0)"
  by (simp add: json_value_def value_find.simps [of m p])

text \<open>No name starts before the end of the text: the search ends.\<close>

lemma no_member:
  assumes "QUOTE \<notin> set w" "e \<le> length xs + length w" "0 \<in> set ys" "m = xs @ w @ ys"
  shows "json_get_next_object JOBJECT m (length xs) e = Some None"
proof -
  from assms(3) obtain k where k: "k < length ys" "ys ! k = 0" by (metis in_set_conv_nth)
  let ?i = "length xs + length w + k"
  have i: "?i < length m" "m ! ?i = 0" using k assms(4) by (simp_all add: nth_append)
  have w: "m ! j \<noteq> QUOTE" if "length xs \<le> j" "j < length xs + length w" for j
  proof -
    have "j - length xs < length w" using that by linarith
    moreover from this have "m ! j = w ! (j - length xs)" using that assms(4) by (simp add: nth_append)
    ultimately show ?thesis using assms(1) by (metis nth_mem)
  qed
  obtain r where r: "strchr m (length xs) QUOTE = Some r"
      "case r of None \<Rightarrow> True | Some q \<Rightarrow> length xs \<le> q \<and> q < ?i \<and> m ! q = QUOTE \<and> (\<forall>j. length xs \<le> j \<and> j < q \<longrightarrow> m ! j \<noteq> QUOTE)"
    using strchr_ends [of "length xs" ?i m QUOTE] i by auto
  show ?thesis
  proof (cases r)
    case None
    with r(1) show ?thesis by (simp add: json_get_next_object_def)
  next
    case (Some q)
    with r w have q: "q < ?i" "length xs + length w \<le> q" by (auto simp: not_less [symmetric])
    then obtain s where s: "strchr m (q + 1) QUOTE = Some s" "case s of None \<Rightarrow> True | Some q' \<Rightarrow> q + 1 \<le> q' \<and> q' < ?i"
      using strchr_ends [of "q + 1" ?i m QUOTE] i by (auto split: option.splits)
    show ?thesis
    proof (cases s)
      case None
      with r(1) s(1) Some show ?thesis by (simp add: json_get_next_object_def)
    next
      case s': (Some q')
      then have q': "q + 1 \<le> q'" "q' < ?i" using s(2) by simp_all
      then obtain d where d: "strchr m q' COLON = Some d" "case d of None \<Rightarrow> True | Some p \<Rightarrow> q' \<le> p \<and> p < ?i"
        using strchr_ends [of q' ?i m COLON] i by (auto split: option.splits)
      have "json_value m d e = Some (JNONE, None, 0)"
        using d(2) q q' i(1) assms(2) by (cases d) (auto simp: json_value_def [of _ None] intro!: value_behind)
      with r(1) s(1) d(1) Some s' q q' assms(2) show ?thesis by (simp add: json_get_next_object_def Let_def)
    qed
  qed
qed

text \<open>What a lookup leaves: nothing, or the first member with the name, at its place in the text.\<close>

definition lookup_result :: "bytes \<Rightarrow> nat \<Rightarrow> json option \<Rightarrow> JSON_NV \<Rightarrow> bool \<times> JSON_NV \<Rightarrow> bool" where
  "lookup_result m e found nv r \<longleftrightarrow> (case found of None \<Rightarrow> snd r = nv
     | Some v \<Rightarrow> fst r \<and> (\<exists>a b. m = a @ value_content v @ b \<and> length a + length (value_content v) < e \<and> 0 \<in> set b
         \<and> snd r = nv\<lparr>nv_pV := Some (length a), nv_vLen := length (value_content v), nv_vType := value_type v\<rparr>))"

lemma loop_ends:
  assumes "json_get_next_object JOBJECT m p e = Some None" "load m p \<noteq> None"
  shows "kv_loop cb m e (Some p) found s = Some (found, s)"
  using assms by (subst kv_loop.simps) auto

lemma rest_first:
  assumes "gap g" "0 \<in> set suf"
  shows "\<exists>c z. g @ members_text ms @ 125 # suf = c # z \<and> \<not> number_char c \<and> c \<noteq> 0"
  using assms by (cases g; cases ms) (auto simp: number_char_def)

lemma loop_members:
  "members_ok ms \<Longrightarrow> no_null ms \<Longrightarrow> w \<noteq> [] \<Longrightarrow> 0 \<notin> set w \<Longrightarrow> QUOTE \<notin> set w \<Longrightarrow> 0 \<in> set suf
   \<Longrightarrow> m = xs @ w @ tl (members_text ms) @ 125 # suf \<Longrightarrow> e = length m - length suf \<Longrightarrow>
   \<exists>r. kv_loop (json_get_value_by_name_cb m) m e (Some (length xs)) found nv = Some r \<and> lookup_result m e (shown_member ms (nv_pN nv)) nv r"
proof (induction ms "nv_pN nv" arbitrary: xs w found rule: shown_member.induct)
  case 1
  then have m: "m = xs @ (w @ [125]) @ suf" "e = length xs + length (w @ [125])" by simp_all
  have "json_get_next_object JOBJECT m (length xs) e = Some None"
    using 1 m by (intro no_member [of "w @ [125]" e xs suf m]) auto
  moreover have "load m (length xs) \<noteq> None" using m by (simp add: load_def)
  ultimately have "kv_loop (json_get_value_by_name_cb m) m e (Some (length xs)) found nv = Some (found, nv)" by (rule loop_ends)
  then show ?case by (simp add: lookup_result_def)
next
  case (2 g k v ms)
  let ?cb = "json_get_value_by_name_cb m" and ?ys = "g 3 @ members_text ms @ 125 # suf" and ?w = "w @ g 0"
  have ok: "json_ok v" "v \<noteq> Jnull" "plain_text k" "\<forall>i. gap (g i)" "members_ok ms" "no_null ms" using 2(2,3) by simp_all
  have w: "0 \<notin> set ?w" "QUOTE \<notin> set ?w" "?w \<noteq> []" using 2(4-6) gap_chars [of "g 0"] ok(4) by simp_all
  have m: "m = xs @ ?w @ QUOTE # k @ QUOTE # g 1 @ COLON # g 2 @ json_text v @ ?ys" using 2(8) by simp
  let ?it = "\<lparr>it_pos = Some (length m - length ?ys), it_key = length xs + length ?w + 1, it_klen = length k,
    it_val = Some (length m - length ?ys - length (json_text v) + value_offset v), it_vlen = length (value_content v), it_vtype = value_type v\<rparr>"
  have ys: "?ys \<noteq> []" "\<not> number_char (hd ?ys)" "hd ?ys \<noteq> 0" "0 \<in> set ?ys"
    using rest_first [of "g 3" suf ms] ok(4) 2(7) by auto
  have e: "length m - length ?ys < e" using 2(8,9) by simp
  have it: "json_get_next_object JOBJECT m (length xs) e = Some (Some ?it)" by (rule next_member [OF ok(1-4) w(1,2) ys m e])
  obtain c where ld: "load m (length xs) = Some c" "c \<noteq> 0" using m 2(4,5) by (cases w) (auto simp: load_def)
  have name: "load_n m (length xs + length ?w + 1) (length k) = Some k" using m by (simp add: load_n_def)
  define q where "q = length m - length ?ys - length (json_text v) + value_offset v"
  have place: "\<exists>a b. m = a @ value_content v @ b \<and> length a + length (value_content v) < e \<and> 0 \<in> set b \<and> length a = q"
  proof -
    obtain u u' where u: "json_text v = u @ value_content v @ u'" "length u = value_offset v" "length u + length (value_content v) \<le> length (json_text v)"
    proof (cases v)
      case (Jstr s)
      show thesis by (rule that [of "[QUOTE]" "[QUOTE]"]) (simp_all add: Jstr value_content_def value_offset_def)
    qed (rule that [of "[]" "[]"]; simp add: value_content_def value_offset_def)+
    let ?a = "xs @ ?w @ QUOTE # k @ QUOTE # g 1 @ COLON # g 2 @ u"
    have "m = ?a @ value_content v @ u' @ ?ys" using m u(1) by simp
    moreover have a: "length ?a = q" using u(2) m by (simp add: q_def)
    moreover have "q + length (value_content v) < e" using e m u(2,3) by (simp add: q_def)
    moreover have "0 \<in> set (u' @ ?ys)" using ys(4) by simp
    ultimately show ?thesis by metis
  qed
  have name': "load_n m (Suc (length xs + (length w + length (g 0)))) (length k) = Some k" using name by simp
  show ?case
  proof (cases "k = nv_pN nv \<and> k \<noteq> [] \<and> value_content v \<noteq> []")
    case True
    then have kn: "nv_pN nv = k" "k \<noteq> []" "value_content v \<noteq> []" by auto
    have run: "kv_loop ?cb m e (Some (length xs)) found nv
        = Some (True, nv\<lparr>nv_pV := Some q, nv_vLen := length (value_content v), nv_vType := value_type v\<rparr>)"
      by (subst kv_loop.simps) (simp add: ld it json_get_value_by_name_cb_def name' kn q_def)
    from place obtain a b where ab: "m = a @ value_content v @ b" "length a + length (value_content v) < e" "0 \<in> set b"
      and a: "q = length a" by metis
    have "lookup_result m e (Some v) nv (True, nv\<lparr>nv_pV := Some (length a), nv_vLen := length (value_content v), nv_vType := value_type v\<rparr>)"
      unfolding lookup_result_def option.case fst_conv snd_conv using ab by blast
    with run kn show ?thesis unfolding a by simp
  next
    case False
    then have "\<exists>f. kv_loop ?cb m e (Some (length xs)) found nv = kv_loop ?cb m e (Some (length m - length ?ys)) f nv"
      by (subst kv_loop.simps) (auto simp: ld it json_get_value_by_name_cb_def name')
    then obtain f where run: "kv_loop ?cb m e (Some (length xs)) found nv = kv_loop ?cb m e (Some (length m - length ?ys)) f nv" by blast
    let ?xs = "xs @ ?w @ QUOTE # k @ QUOTE # g 1 @ COLON # g 2 @ json_text v"
    have p: "length m - length ?ys = length ?xs" using m by simp
    have g3: "0 \<notin> set (g 3)" "QUOTE \<notin> set (g 3)" using gap_chars ok(4) by auto
    have "\<exists>r. kv_loop ?cb m e (Some (length ?xs)) f nv = Some r \<and> lookup_result m e (shown_member ms (nv_pN nv)) nv r"
    proof (cases ms)
      case MNil
      then have "m = ?xs @ (g 3 @ [125]) @ suf" "e = length ?xs + length (g 3 @ [125 :: byte])" using m 2(9) by simp_all
      then have "json_get_next_object JOBJECT m (length ?xs) e = Some None" using 2(7) g3 by (intro no_member [of "g 3 @ [125]" e ?xs suf m]) auto
      moreover have "load m (length ?xs) \<noteq> None" using m by (simp add: load_def)
      ultimately have "kv_loop ?cb m e (Some (length ?xs)) f nv = Some (f, nv)" by (rule loop_ends)
      then show ?thesis using MNil by (simp add: lookup_result_def)
    next
      case (MCons g' k' v' ms')
      then have "m = ?xs @ (g 3 @ [44]) @ tl (members_text ms) @ 125 # suf" using m by simp
      from 2(1) [OF False ok(5,6) _ _ _ 2(7) this 2(9)] g3 show ?thesis by simp
    qed
    with run p False show ?thesis by auto
  qed
qed

text \<open>An object in a text is searched from its first bracket on.\<close>

lemma object_found: "m = xs @ 123 # ys \<Longrightarrow> length xs < e \<Longrightarrow> json_get_object JOBJECT m (length xs) e = Some (Some (length xs))"
  by (subst json_get_object.simps) simp

lemma value_lookup:
  assumes "members_ok ms" "gap g" "no_null ms" "0 \<in> set suf" "m = xs @ json_text (Jobj g ms) @ suf" "n = length (json_text (Jobj g ms))"
  shows "\<exists>r. json_get_value_by_name_len m (length xs) n name = Some r
    \<and> (case shown_member ms name of None \<Rightarrow> fst r = None
       | Some v \<Rightarrow> (\<exists>a b. m = a @ value_content v @ b \<and> 0 \<in> set b \<and> r = (Some (length a), Some (length (value_content v), value_type v))))"
proof -
  let ?nv = "\<lparr>nv_pN = name, nv_pV = None, nv_vLen = 0, nv_vType = JSTRING\<rparr>"
  have m: "m = xs @ (123 # g) @ tl (members_text ms) @ 125 # suf" using assms(5) by simp
  have e: "length xs + n = length m - length suf" using assms(5,6) by simp
  have "length xs < length xs + n" using assms(6) by simp
  then have o: "json_get_object JOBJECT m (length xs) (length xs + n) = Some (Some (length xs))" using m by (intro object_found) simp_all
  obtain r where r: "kv_loop (json_get_value_by_name_cb m) m (length xs + n) (Some (length xs)) False ?nv = Some r"
    "lookup_result m (length xs + n) (shown_member ms name) ?nv r"
    using loop_members [OF assms(1,3) _ _ _ assms(4) m e, of False ?nv] gap_chars [OF assms(2)] by auto
  have run: "json_get_value_by_name_len m (length xs) n name
      = Some (nv_pV (snd r), if fst r then Some (nv_vLen (snd r), nv_vType (snd r)) else None)"
    using o r(1) assms(6) by (simp add: json_get_value_by_name_len_def json_parse_name_value_def split_beta)
  show ?thesis
  proof (cases "shown_member ms name")
    case None
    then have "snd r = ?nv" using r(2) by (simp add: lookup_result_def)
    with run None show ?thesis by simp
  next
    case (Some v)
    then obtain a b where "fst r" "m = a @ value_content v @ b" "0 \<in> set b"
      "snd r = ?nv\<lparr>nv_pV := Some (length a), nv_vLen := length (value_content v), nv_vType := value_type v\<rparr>"
      using r(2) by (auto simp: lookup_result_def)
    with run Some show ?thesis by (intro exI conjI) (simp, auto)
  qed
qed

section \<open>Arbitrary texts\<close>

lemma boolean_total: "v \<le> e \<Longrightarrow> e < length m \<Longrightarrow> m ! e = 0 \<Longrightarrow> \<exists>r. boolean_len m v = Some r"
proof -
  assume a: "v \<le> e" "e < length m" "m ! e = 0"
  then have "drop v m ! (e - v) = 0" "e - v < length (drop v m)" by simp_all
  then have "0 \<in> set (drop v m)" by (metis nth_mem)
  then show ?thesis by (simp add: boolean_len_def c_text_takeWhile Let_def)
qed

lemma value_find_total:
  "p \<le> e \<Longrightarrow> e < length m \<Longrightarrow> m ! e = 0 \<Longrightarrow> \<exists>t v q. value_find m p e = Some (t, v, q)
     \<and> (case v of None \<Rightarrow> True | Some v \<Rightarrow> p \<le> v \<and> v \<le> e \<and> q \<le> e \<and> t \<noteq> JNONE)"
proof (induction m p e rule: value_find.induct)
  case (1 m p e)
  show ?case
  proof (cases "m ! p = 0 \<or> p \<ge> e")
    case True
    with 1 show ?thesis by (subst value_find.simps) auto
  next
    case False
    then have "Suc p \<le> e" using 1 by simp
    then show ?thesis
    proof (cases "value_start (m ! p)")
      case JNONE
      with 1 False obtain t v q where "value_find m (p + 1) e = Some (t, v, q)"
        "case v of None \<Rightarrow> True | Some v \<Rightarrow> p + 1 \<le> v \<and> v \<le> e \<and> q \<le> e \<and> t \<noteq> JNONE" by auto
      with 1 False JNONE show ?thesis by (subst value_find.simps) (auto split: option.splits)
    qed (use 1 False in \<open>subst value_find.simps, simp\<close>)+
  qed
qed

lemma value_len_total:
  "k = e - p \<Longrightarrow> p \<le> e \<Longrightarrow> v \<le> e \<Longrightarrow> e < length m \<Longrightarrow> m ! e = 0 \<Longrightarrow> \<exists>n. value_len m t v e p md sd = Some n"
proof (induction k arbitrary: p md sd)
  case 0
  then show ?case by (subst value_len.simps) auto
next
  case (Suc k)
  show ?case
  proof (cases "m ! p = 0")
    case False
    have "\<exists>n. value_len m t v e (p + 1) md sd = Some n" for md sd using Suc.prems by (intro Suc.IH) simp_all
    moreover obtain r where "boolean_len m v = Some r" using boolean_total Suc.prems by blast
    ultimately show ?thesis using False Suc.prems
      by (subst value_len.simps) (cases t; cases r; simp add: Let_def)
  qed (use Suc.prems in \<open>subst value_len.simps, simp\<close>)
qed

lemma json_value_total:
  assumes "p \<le> e" "e < length m" "m ! e = 0"
  shows "\<exists>t v n. json_value m (Some p) e = Some (t, v, n) \<and> (case v of None \<Rightarrow> True | Some v \<Rightarrow> p \<le> v)"
proof -
  obtain t v q where f: "value_find m p e = Some (t, v, q)" "case v of None \<Rightarrow> True | Some v \<Rightarrow> p \<le> v \<and> v \<le> e \<and> q \<le> e \<and> t \<noteq> JNONE"
    using value_find_total [OF assms] by blast
  show ?thesis
  proof (cases v)
    case (Some v')
    then obtain n where "value_len m t v' e q 0 False = Some n" using value_len_total [of "e - q" e q v' m t 0 False] f(2) assms by auto
    with f Some show ?thesis by (simp add: json_value_def)
  qed (use f in \<open>simp add: json_value_def\<close>)
qed

text \<open>An entry that is returned lies in the text, and the search goes on behind it.\<close>

definition item_ok :: "nat \<Rightarrow> nat \<Rightarrow> json_item \<Rightarrow> bool" where
  "item_ok p e it \<longleftrightarrow> it_key it + it_klen it \<le> e \<and> (case it_val it of None \<Rightarrow> True
     | Some v \<Rightarrow> p \<le> v \<and> v + it_vlen it \<le> e \<and> (\<exists>q. it_pos it = Some q \<and> p < q \<and> q \<le> e + 1))"

lemma next_total:
  assumes "p < e" "e < length m" "m ! e = 0"
  shows "\<exists>it. json_get_next_object JOBJECT m p e = Some it \<and> (case it of None \<Rightarrow> True | Some it \<Rightarrow> item_ok p e it)"
proof -
  obtain q where q: "strchr m p QUOTE = Some q" "case q of None \<Rightarrow> True | Some q \<Rightarrow> p \<le> q \<and> q < e"
    using strchr_ends [of p e m QUOTE] assms by (auto split: option.splits)
  show ?thesis
  proof (cases q)
    case (Some q')
    then have q': "p \<le> q'" "q' + 1 \<le> e" using q(2) by simp_all
    then obtain r where r: "strchr m (q' + 1) QUOTE = Some r" "case r of None \<Rightarrow> True | Some r \<Rightarrow> q' + 1 \<le> r \<and> r < e"
      using strchr_ends [of "q' + 1" e m QUOTE] assms by (auto split: option.splits)
    show ?thesis
    proof (cases r)
      case r': (Some r')
      then have rr: "q' + 1 \<le> r'" "r' < e" using r(2) by simp_all
      then obtain d where d: "strchr m r' COLON = Some d" "case d of None \<Rightarrow> True | Some d \<Rightarrow> r' \<le> d \<and> d < e"
        using strchr_ends [of r' e m COLON] assms by (auto split: option.splits)
      obtain t v n where j: "json_value m d e = Some (t, v, n)" "case v of None \<Rightarrow> True | Some v \<Rightarrow> p < v"
      proof (cases d)
        case None
        with that [of JNONE None 0] show thesis by (simp add: json_value_def)
      next
        case (Some d')
        with d(2) have "p < d'" "d' \<le> e" using q' rr by simp_all
        with json_value_total [of d' e m] assms Some that show thesis by (force split: option.splits)
      qed
      have "item_ok p e it" if "json_item_of e (q' + 1) (r' - (q' + 1)) (t, v, n) = Some it" for it
        using that j(2) rr by (cases v) (auto simp: json_item_of_def item_ok_def split: if_split_asm)
      then show ?thesis using q(1) r(1) d(1) j(1) Some r' by (auto simp: json_get_next_object_def Let_def split: option.split)
    qed (use q r Some in \<open>simp add: json_get_next_object_def\<close>)
  qed (use q in \<open>simp add: json_get_next_object_def\<close>)
qed

text \<open>The search for a name in a text that is followed by two NULs.\<close>

definition nv_ok :: "nat \<Rightarrow> bool \<times> JSON_NV \<Rightarrow> bool" where
  "nv_ok e r \<longleftrightarrow> (case nv_pV (snd r) of None \<Rightarrow> True | Some v \<Rightarrow> fst r \<and> v + nv_vLen (snd r) \<le> e)"

lemma loop_total:
  "k = e + 1 - p \<Longrightarrow> p \<le> e + 1 \<Longrightarrow> e + 1 < length m \<Longrightarrow> m ! e = 0 \<Longrightarrow> m ! (e + 1) = 0 \<Longrightarrow> nv_pV nv = None \<Longrightarrow>
    \<exists>r. kv_loop (json_get_value_by_name_cb m) m e (Some p) found nv = Some r \<and> nv_ok e r"
proof (induction k arbitrary: p found rule: less_induct)
  case (less k)
  show ?case
  proof (cases "m ! p = 0")
    case True
    with less.prems show ?thesis by (subst kv_loop.simps) (simp add: load_def nv_ok_def)
  next
    case False
    then have p: "p < e" using less.prems by (metis Suc_eq_plus1 le_SucE le_neq_implies_less)
    obtain it where it: "json_get_next_object JOBJECT m p e = Some it" "case it of None \<Rightarrow> True | Some it \<Rightarrow> item_ok p e it"
      using next_total [of p e m] p less.prems by auto
    have l: "load m p = Some (m ! p)" using p less.prems by (simp add: load_def)
    have stop: "nv_ok e (found, nv)" using less.prems by (simp add: nv_ok_def)
    show ?thesis
    proof (cases it)
      case None
      with it l False stop show ?thesis by (subst kv_loop.simps) simp
    next
      case (Some i)
      show ?thesis
      proof (cases "it_val i")
        case None
        with it l False stop Some show ?thesis by (subst kv_loop.simps) simp
      next
        case v: (Some v)
        then obtain q where q: "it_pos i = Some q" "p < q" "q \<le> e + 1" "v + it_vlen i \<le> e" "it_key i + it_klen i \<le> e"
          using it(2) Some by (auto simp: item_ok_def)
        have ih: "\<exists>r. kv_loop (json_get_value_by_name_cb m) m e (it_pos i) f nv = Some r \<and> nv_ok e r" for f
          unfolding q(1) using less.prems q by (intro less.IH [of "e + 1 - q"]) simp_all
        have name: "load_n m (it_key i) (it_klen i) = Some (take (it_klen i) (drop (it_key i) m))" using q(5) less.prems by (simp add: load_n_def)
        show ?thesis
        proof (cases "it_klen i \<noteq> 0 \<and> it_vlen i \<noteq> 0 \<and> take (it_klen i) (drop (it_key i) m) = nv_pN nv")
          case True
          with it(1) l False Some v name have "kv_loop (json_get_value_by_name_cb m) m e (Some p) found nv
              = Some (True, nv\<lparr>nv_pV := Some v, nv_vLen := it_vlen i, nv_vType := it_vtype i\<rparr>)"
            by (subst kv_loop.simps) (auto simp: json_get_value_by_name_cb_def)
          with q(4) show ?thesis by (simp add: nv_ok_def)
        next
          case skip: False
          with it(1) l False Some v name have "\<exists>f. kv_loop (json_get_value_by_name_cb m) m e (Some p) found nv
              = kv_loop (json_get_value_by_name_cb m) m e (it_pos i) f nv"
            by (subst kv_loop.simps) (auto simp: json_get_value_by_name_cb_def)
          with ih show ?thesis by metis
        qed
      qed
    qed
  qed
qed

lemma object_total:
  "k = e - p \<Longrightarrow> p \<le> e \<Longrightarrow> e < length m \<Longrightarrow> m ! e = 0 \<Longrightarrow> \<exists>r. json_get_object JOBJECT m p e = Some r \<and> (case r of None \<Rightarrow> True | Some q \<Rightarrow> q < e)"
proof (induction k arbitrary: p)
  case 0
  then show ?case by (subst json_get_object.simps) auto
next
  case (Suc k)
  then have p: "p < e" by simp
  show ?case
  proof (cases "m ! p = 32")
    case True
    with Suc.IH [of "p + 1"] Suc.prems p show ?thesis by (subst json_get_object.simps) auto
  qed (use p Suc.prems in \<open>subst json_get_object.simps, auto\<close>)
qed

text \<open>C29. On every text of any content, well formed or not, that is followed by two NULs the lookup of a name ends, reads only
  bytes of the object that holds the text, and what it returns is null or a value that lies inside the text, with its length.\<close>

theorem json_lookup_safe:
  assumes "str + n + 1 < length m" "m ! (str + n) = 0" "m ! (str + n + 1) = 0"
  shows "\<exists>v r. json_get_value_by_name_len m str n name = Some (v, r)
    \<and> (v \<noteq> None \<longrightarrow> (\<exists>a len t. v = Some a \<and> r = Some (len, t) \<and> a + len \<le> str + n))"
proof -
  let ?nv = "\<lparr>nv_pN = name, nv_pV = None, nv_vLen = 0, nv_vType = JSTRING\<rparr>"
  obtain o' where o': "json_get_object JOBJECT m str (str + n) = Some o'" "case o' of None \<Rightarrow> True | Some q \<Rightarrow> q < str + n"
    using object_total [of "str + n - str" "str + n" str m] assms by auto
  have "\<exists>r. json_parse_name_value m str n (json_get_value_by_name_cb m) ?nv = Some r \<and> nv_ok (str + n) r"
  proof (cases "n = 0")
    case True
    then show ?thesis by (simp add: json_parse_name_value_def nv_ok_def)
  next
    case False
    show ?thesis
    proof (cases o')
      case None
      with o' False show ?thesis by (simp add: json_parse_name_value_def kv_loop.simps nv_ok_def)
    next
      case (Some q)
      with o' False loop_total [of "str + n + 1 - q" "str + n" q m ?nv False] assms show ?thesis
        by (simp add: json_parse_name_value_def)
    qed
  qed
  then show ?thesis by (auto simp: json_get_value_by_name_len_def nv_ok_def split: option.splits)
qed

theorem json_lookup_safe_witness:
  "\<exists>v r. json_get_value_by_name_len (c_lit ''{\"a\":[1,'' @ [0, 0]) 0 8 (c_lit ''a'') = Some (v, r)"
  using json_lookup_safe [of 0 8 "c_lit ''{\"a\":[1,'' @ [0, 0]" "c_lit ''a''"] by (auto simp: c_lit_def)

text \<open>C18. On the text of a JSON object, however deeply nested and with white space between any two symbols, the lookup of a name
  returns the first member with this name: its type, the length of its value and the place of exactly this value, without the
  quotes of a string; and null when no member has the name.  The conditions are the texts that the scanner reads as JSON does:
  strings contain no escaped quote, no member of the object itself has the value null (inside of nested values it may
  occur), the name is not empty, and the first member with the name does not have the empty string as value.\<close>

theorem json_lookup_correct:
  assumes "members_ok ms" "gap g" "no_null ms" "name \<noteq> []" "member_of ms name \<noteq> Some (Jstr [])" "0 \<in> set suf"
  shows "\<exists>v r. json_get_value_by_name (xs @ json_text (Jobj g ms) @ suf) (length xs) (length (json_text (Jobj g ms))) name = Some (v, r)
    \<and> (case member_of ms name of None \<Rightarrow> v = None
       | Some x \<Rightarrow> \<exists>a. v = Some a \<and> r = Some (length (value_content x), value_type x)
           \<and> load_n (xs @ json_text (Jobj g ms) @ suf) a (length (value_content x)) = Some (value_content x))"
proof -
  let ?m = "xs @ json_text (Jobj g ms) @ suf"
  note first = shown_is_first [OF assms(1,4,5)]
  obtain r where r: "json_get_value_by_name_len ?m (length xs) (length (json_text (Jobj g ms))) name = Some r"
    "case member_of ms name of None \<Rightarrow> fst r = None
       | Some v \<Rightarrow> (\<exists>a b. ?m = a @ value_content v @ b \<and> 0 \<in> set b \<and> r = (Some (length a), Some (length (value_content v), value_type v)))"
    using value_lookup [OF assms(1-3,6) refl refl, of xs name] unfolding first by blast
  obtain v l where vl: "r = (v, l)" by (cases r)
  show ?thesis
  proof (cases "member_of ms name")
    case None
    with r vl show ?thesis by (simp add: json_get_value_by_name_def)
  next
    case (Some x)
    then obtain a b where ab: "?m = a @ value_content x @ b" "r = (Some (length a), Some (length (value_content x), value_type x))"
      using r(2) by auto
    have "load_n ?m (length a) (length (value_content x)) = Some (value_content x)" unfolding ab(1) by (simp add: load_n_def)
    with r(1) Some ab(2) show ?thesis by (simp add: json_get_value_by_name_def)
  qed
qed

definition sample_members :: members where
  "sample_members = MCons (\<lambda>i. []) (c_lit ''a'') (Jobj [] (MCons (\<lambda>i. []) (c_lit ''c'') (Jarr [] (ECons (\<lambda>i. []) Jnull ENil)) (MCons (\<lambda>i. []) (c_lit ''b'') (Jstr (c_lit ''}'')) MNil)))
     (MCons (\<lambda>i. [32]) (c_lit ''b'') (Jnum (c_lit ''-1.5'')) MNil)"

theorem json_lookup_correct_witness:
  "\<exists>a r. json_get_value_by_name (json_text (Jobj [] sample_members) @ [0]) 0 (length (json_text (Jobj [] sample_members))) (c_lit ''b'') = Some (Some a, r)
    \<and> load_n (json_text (Jobj [] sample_members) @ [0]) a (length (c_lit ''-1.5'')) = Some (c_lit ''-1.5'')"
  using json_lookup_correct [of sample_members "[]" "c_lit ''b''" "[0]" "[]"]
  by (auto simp: sample_members_def c_lit_def plain_text_def value_start_def number_char_def value_content_def)

section \<open>Paths\<close>

text \<open>The value at a path of names.\<close>

fun value_at :: "json \<Rightarrow> bytes list \<Rightarrow> json option" where
  "value_at v [] = Some v"
| "value_at (Jobj g ms) (n # ns) = (case member_of ms n of None \<Rightarrow> None | Some v \<Rightarrow> value_at v ns)"
| "value_at v (n # ns) = None"

text \<open>The conditions of \<open>json_lookup_correct\<close> at every object that the path visits.\<close>

fun path_clear :: "json \<Rightarrow> bytes list \<Rightarrow> bool" where
  "path_clear v [] = True"
| "path_clear (Jobj g ms) (n # ns) = (no_null ms \<and> n \<noteq> [] \<and> member_of ms n \<noteq> Some (Jstr [])
     \<and> (case member_of ms n of None \<Rightarrow> True | Some v \<Rightarrow> path_clear v ns))"
| "path_clear v (n # ns) = True"

lemma member_ok: "members_ok ms \<Longrightarrow> no_null ms \<Longrightarrow> member_of ms name = Some v \<Longrightarrow> json_ok v \<and> v \<noteq> Jnull"
  by (induction ms name rule: member_of.induct) (auto split: if_split_asm)

lemma text_plain: "json_ok v \<Longrightarrow> 0 \<notin> set (json_text v)"
  "members_ok ms \<Longrightarrow> 0 \<notin> set (members_text ms) \<and> 0 \<notin> set (tl (members_text ms))"
  "elements_ok es \<Longrightarrow> 0 \<notin> set (elements_text es) \<and> 0 \<notin> set (tl (elements_text es))"
  by (induction v and ms and es) (auto simp: plain_text_def number_char_def c_lit_def gap_chars)

text \<open>No name is found in a value that is not an object: the text does not start with a brace, or holds no quote.\<close>

lemma not_an_object:
  assumes v: "json_ok v" "v \<noteq> Jnull" "\<forall>g ms. v \<noteq> Jobj g ms" "value_content v \<noteq> []" and m: "m = xs @ value_content v @ ys" "0 \<in> set ys"
  shows "\<exists>r. json_get_value_by_name_len m (length xs) (length (value_content v)) name = Some (None, r)"
proof (cases "\<exists>s. v = Jstr s")
  case False
  then have w: "value_content v = json_text v" using v(3) by (cases v) (simp_all add: value_content_def)
  obtain c w where c: "json_text v = c # w" "value_start c = value_type v" "c \<noteq> 0"
    using value_first [OF v(1)] by (cases "json_text v") auto
  have "value_type v \<noteq> JOBJECT" "value_type v \<noteq> JNONE" using v(2,3) by (cases v; simp add: value_type_def)+
  then have "c \<noteq> 123" "c \<noteq> 32" using c(2) by (auto simp: value_start_def)
  note c = c this
  have "json_get_object JOBJECT m (length xs) (length xs + length (value_content v)) = Some None"
    using m w c by (subst json_get_object.simps) simp
  with w c show ?thesis by (simp add: json_get_value_by_name_len_def json_parse_name_value_def kv_loop.simps)
next
  case True
  then obtain s where s: "value_content v = s" "plain_text s" "s \<noteq> []" using v by (auto simp: value_content_def)
  have obj: "\<exists>r. json_get_object JOBJECT m (length xs + length u) (length xs + length s) = Some r \<and> (case r of None \<Rightarrow> True | Some q \<Rightarrow> \<exists>a b. s = a @ b \<and> q = length xs + length a \<and> b \<noteq> [])"
    if "s = u @ w" for u w
    using that
  proof (induction w arbitrary: u)
    case Nil
    then show ?case using m(2) unfolding m(1) s(1) by (subst json_get_object.simps) (auto simp: nth_append)
  next
    case (Cons c w)
    have c: "m ! (length xs + length u) = c" "length xs + length u < length m" "c \<noteq> 0" using Cons.prems m(1) s by (auto simp: nth_append plain_text_def)
    have ih: "\<exists>r. json_get_object JOBJECT m (length xs + length u + 1) (length xs + length s) = Some r \<and> (case r of None \<Rightarrow> True | Some q \<Rightarrow> \<exists>a b. s = a @ b \<and> q = length xs + length a \<and> b \<noteq> [])"
      using Cons.IH [of "u @ [c]"] Cons.prems by simp
    show ?case
    proof (cases "c = 32")
      case True
      with ih c Cons.prems show ?thesis by (subst json_get_object.simps) simp
    next
      case False
      with c Cons.prems show ?thesis by (subst json_get_object.simps) auto
    qed
  qed
  obtain r where r: "json_get_object JOBJECT m (length xs) (length xs + length s) = Some r"
    "case r of None \<Rightarrow> True | Some q \<Rightarrow> \<exists>a b. s = a @ b \<and> q = length xs + length a \<and> b \<noteq> []" using obj [of "[]" s] by auto
  show ?thesis
  proof (cases r)
    case None
    with r s show ?thesis by (simp add: json_get_value_by_name_len_def json_parse_name_value_def kv_loop.simps)
  next
    case (Some q)
    then obtain a b where ab: "s = a @ b" "q = length xs + length a" "b \<noteq> []" using r(2) by auto
    have "json_get_next_object JOBJECT m (length (xs @ a)) (length xs + length s) = Some None"
      using s ab m by (intro no_member [of b _ _ ys]) (auto simp: plain_text_def)
    moreover have "load m (length (xs @ a)) \<noteq> None" using m(1) s(1) ab by (simp add: load_def)
    ultimately have "kv_loop cb m (length xs + length s) (Some q) False nv = Some (False, nv)" for cb and nv :: JSON_NV
      using loop_ends [of m q "length xs + length s" cb False nv] ab(2) by simp
    with r(1) Some s show ?thesis by (simp add: json_get_value_by_name_len_def json_parse_name_value_def)
  qed
qed

lemma path_stuck:
  assumes "json_ok v" "v \<noteq> Jnull" "\<forall>g ms. v \<noteq> Jobj g ms" "value_content v \<noteq> []" "m = xs @ value_content v @ ys" "0 \<in> set ys"
  shows "value_of_path m (length xs) (length (value_content v)) (n # ns) = Some None"
  using not_an_object [OF assms, of n] by auto

lemma path_found:
  assumes "json_ok v" "v \<noteq> Jnull" "path_clear v names" "value_content v \<noteq> []" "m = xs @ value_content v @ ys" "0 \<in> set ys"
  shows "\<exists>r. value_of_path m (length xs) (length (value_content v)) names = Some r
    \<and> (case value_at v names of None \<Rightarrow> r = None
       | Some x \<Rightarrow> \<exists>a b. r = Some (length a, length (value_content x)) \<and> m = a @ value_content x @ b \<and> 0 \<in> set b \<and> json_ok x)"
  using assms
proof (induction v names arbitrary: xs ys rule: value_at.induct)
  case (1 v)
  then show ?case by auto
next
  case (2 g ms n ns)
  from 2(2,4) have ok: "members_ok ms" "gap g" "no_null ms" "n \<noteq> []" "member_of ms n \<noteq> Some (Jstr [])" by simp_all
  note first = shown_is_first [OF ok(1,4,5)]
  have m: "m = xs @ json_text (Jobj g ms) @ ys" "length (value_content (Jobj g ms)) = length (json_text (Jobj g ms))" using 2(6) by (simp_all add: value_content_def)
  obtain r where r: "json_get_value_by_name_len m (length xs) (length (json_text (Jobj g ms))) n = Some r"
    "case member_of ms n of None \<Rightarrow> fst r = None
       | Some v \<Rightarrow> (\<exists>a b. m = a @ value_content v @ b \<and> 0 \<in> set b \<and> r = (Some (length a), Some (length (value_content v), value_type v)))"
    using value_lookup [OF ok(1-3) 2(7) m(1) refl, of n] unfolding first by blast
  show ?case
  proof (cases "member_of ms n")
    case None
    with r m(2) show ?thesis by (cases r) simp
  next
    case (Some x)
    then obtain a b where ab: "m = a @ value_content x @ b" "0 \<in> set b" "r = (Some (length a), Some (length (value_content x), value_type x))" using r(2) by auto
    have x: "json_ok x" "x \<noteq> Jnull" "path_clear x ns" using member_ok [OF ok(1,3) Some] 2(4) Some by simp_all
    moreover from this have "value_content x \<noteq> []" using ok(5) Some by (simp add: content_empty)
    ultimately show ?thesis using 2(1) [OF Some x _ ab(1,2)] r(1) m(2) ab(3) Some by simp
  qed
next
  case "3_1"
  from path_stuck [OF this(1,2) _ this(4-6)] show ?case by simp
next
  case "3_2"
  from path_stuck [OF this(1,2) _ this(4-6)] show ?case by simp
next
  case "3_3"
  from path_stuck [OF this(1,2) _ this(4-6)] show ?case by simp
next
  case "3_4"
  from path_stuck [OF this(1,2) _ this(4-6)] show ?case by simp
next
  case "3_5"
  from path_stuck [OF this(1,2) _ this(4-6)] show ?case by simp
qed

text \<open>C19. The value of a path of names, separated by dots, in the text of an object is the text of the value reached by following the
  names from object to object, copied into fresh memory with a terminator; and null when a name is missing, when a value on the
  way is not an object, or when there is no memory.  The conditions of \<open>path_clear\<close> hold at every object on the way: none of its
  members is null, the name is not empty and its first member does not have the empty string as value; strings contain no escaped
  quote.\<close>

theorem json_path_correct:
  assumes "members_ok ms" "gap g" "path_clear (Jobj g ms) (split_path key)"
  shows "LITE_json_value_of got key (json_text (Jobj g ms) @ 0 # rest)
    = Some (if got then map_option (\<lambda>v. value_content v @ [0]) (value_at (Jobj g ms) (split_path key)) else None)"
proof -
  let ?m = "json_text (Jobj g ms) @ 0 # rest"
  have ok: "json_ok (Jobj g ms)" "value_content (Jobj g ms) = json_text (Jobj g ms)" "0 \<notin> set (json_text (Jobj g ms))"
    using assms(1,2) text_plain(1) [of "Jobj g ms"] by (simp_all add: value_content_def del: json_text.simps)
  have n: "c_strlen ?m = Some (length (json_text (Jobj g ms)))" using ok(3) by (rule c_strlen_text)
  obtain r where r: "value_of_path ?m 0 (length (json_text (Jobj g ms))) (split_path key) = Some r"
    "case value_at (Jobj g ms) (split_path key) of None \<Rightarrow> r = None
       | Some x \<Rightarrow> \<exists>a b. r = Some (length a, length (value_content x)) \<and> ?m = a @ value_content x @ b \<and> 0 \<in> set b \<and> json_ok x"
    using path_found [OF ok(1) _ assms(3), of ?m "[]" "0 # rest"] ok(2) by auto
  show ?thesis
  proof (cases "value_at (Jobj g ms) (split_path key)")
    case None
    with r n show ?thesis by (simp add: LITE_json_value_of_def del: json_text.simps)
  next
    case (Some x)
    then obtain a b where ab: "r = Some (length a, length (value_content x))" "?m = a @ value_content x @ b" "0 \<in> set b" "json_ok x" using r(2) by auto
    have "0 \<notin> set (value_content x)" using text_plain(1) [OF ab(4)] by (cases x) (auto simp: value_content_def)
    then have "c_text (value_content x @ b) = Some (value_content x @ takeWhile (\<lambda>c. c \<noteq> 0) b)"
      using ab(3) by (subst c_text_takeWhile) (auto simp: takeWhile_append)
    moreover have "drop (length a) ?m = value_content x @ b" unfolding ab(2) by simp
    ultimately show ?thesis using r(1) n ab(1) Some by (simp add: LITE_json_value_of_def del: json_text.simps)
  qed
qed

theorem json_path_correct_witness:
  "LITE_json_value_of True (c_lit ''a.b'') (json_text (Jobj [] sample_members) @ [0]) = Some (Some (c_lit ''}'' @ [0]))"
  using json_path_correct [of sample_members "[]" "c_lit ''a.b''" True "[]"]
  by (simp add: sample_members_def c_lit_def plain_text_def value_start_def number_char_def value_content_def)

section \<open>Where the scanner goes wrong\<close>

text \<open>C39. A text that ends behind the quote that opens a value is not rejected: the search steps over the terminating NUL and reads
  behind it, so the lookup of any name faults when the text fills its object.\<close>

theorem json_truncated_overread:
  assumes "plain_text k"
  shows "json_get_value_by_name (123 # QUOTE # k @ [QUOTE, COLON, QUOTE, 0]) 0 (length k + 5) name = None"
proof -
  define m where "m = 123 # QUOTE # k @ [QUOTE, COLON, QUOTE, 0]"
  define p where "p = length k + 3"
  define e where "e = p + 2"
  have q: "strchr m 0 QUOTE = Some (Some 1)" using strchr_found [of QUOTE "[123]" "[]" "k @ [QUOTE, COLON, QUOTE, 0]"] by (simp add: m_def)
  have r: "strchr m 2 QUOTE = Some (Some (2 + length k))"
    using strchr_found [of QUOTE k "[123, QUOTE]" "[COLON, QUOTE, 0]"] assms by (simp add: m_def plain_text_def numeral_2_eq_2)
  have d: "strchr m (2 + length k) COLON = Some (Some p)"
    using strchr_found [of COLON "[QUOTE]" "123 # QUOTE # k" "[QUOTE, 0]"] by (simp add: m_def p_def)
  have n: "m ! p = COLON" "m ! (p + 1) = QUOTE" "m ! e = 0" "length m = e + 1"
  proof -
    obtain xs where "length xs = p" "m = xs @ [COLON, QUOTE, 0]" using that [of "123 # QUOTE # k @ [QUOTE]"] by (simp add: m_def p_def)
    then show "m ! p = COLON" "m ! (p + 1) = QUOTE" "m ! e = 0" "length m = e + 1" by (simp_all add: nth_append e_def)
  qed
  have "value_find m p e = value_find m (p + 1) e"
    by (rule value_find_skip) (simp_all add: n value_start_def e_def)
  also have "\<dots> = Some (JSTRING, Some e, e)"
    using n by (subst value_find.simps) (simp add: value_start_def e_def)
  finally have f: "value_find m p e = Some (JSTRING, Some e, e)" .
  have l: "value_len m JSTRING e e e 0 False = Some 0" using n(3,4) by (subst value_len.simps) simp
  have it: "json_get_next_object JOBJECT m 0 e = Some (Some \<lparr>it_pos = Some (e + 1), it_key = 2, it_klen = length k,
      it_val = Some e, it_vlen = 0, it_vtype = JSTRING\<rparr>)"
    using q r d f l by (simp add: json_get_next_object_def json_value_def json_item_of_def Let_def p_def e_def numeral_2_eq_2)
  have stop: "load m (Suc e) = None" "load m 0 = Some 123" by (simp add: load_def n(4)) (simp add: load_def m_def)
  have "kv_loop cb m e (Some (e + 1)) found nv = None" for cb found and nv :: JSON_NV
    by (subst kv_loop.simps) (simp add: stop)
  then have "kv_loop cb m e (Some 0) found nv = None" for cb found and nv :: JSON_NV
    by (subst kv_loop.simps) (simp add: stop(2) it)
  moreover have "json_get_object JOBJECT m 0 e = Some (Some 0)" by (subst json_get_object.simps) (simp add: m_def e_def)
  ultimately have "json_get_value_by_name m 0 e name = None"
    by (simp add: json_get_value_by_name_def json_get_value_by_name_len_def json_parse_name_value_def e_def)
  moreover have "length k + 5 = e" by (simp add: p_def e_def)
  ultimately show ?thesis by (simp add: m_def)
qed

theorem json_truncated_overread_witness: "json_get_value_by_name (c_lit ''{\"id\":\"'' @ [0]) 0 7 (c_lit ''id'') = None"
  using json_truncated_overread [of "c_lit ''id''" "c_lit ''id''"] by (simp add: plain_text_def c_lit_def)

text \<open>C40. The value \<open>null\<close> is not known: the lookup of a name whose value is \<open>null\<close> returns the name of the next member as a string.\<close>

theorem json_null_misread:
  assumes "plain_text k" "k \<noteq> []" "plain_text k2" "k2 \<noteq> []"
    "m = 123 # QUOTE # k @ QUOTE # COLON # c_lit ''null,'' @ QUOTE # k2 @ QUOTE # ys" "n \<le> length m" "length k + length k2 + 12 \<le> n"
  shows "json_get_value_by_name m 0 n k = Some (Some (length k + 10), Some (length k2, JSTRING)) \<and> load_n m (length k + 10) (length k2) = Some k2"
proof -
  have q: "strchr m 0 QUOTE = Some (Some 1)"
    using strchr_found [of QUOTE "[123]" "[]" "k @ QUOTE # COLON # c_lit ''null,'' @ QUOTE # k2 @ QUOTE # ys"] assms(5) by simp
  have r: "strchr m 2 QUOTE = Some (Some (2 + length k))"
    using strchr_found [of QUOTE k "[123, QUOTE]" "COLON # c_lit ''null,'' @ QUOTE # k2 @ QUOTE # ys"] assms(1,5) by (simp add: plain_text_def numeral_2_eq_2)
  have d: "strchr m (2 + length k) COLON = Some (Some (3 + length k))"
    using strchr_found [of COLON "[QUOTE]" "123 # QUOTE # k" "c_lit ''null,'' @ QUOTE # k2 @ QUOTE # ys"] assms(5) by simp
  have c: "m ! (3 + length k + 0) = 58" "m ! (3 + length k + 1) = 110" "m ! (3 + length k + 2) = 117" "m ! (3 + length k + 3) = 108"
    "m ! (3 + length k + 4) = 108" "m ! (3 + length k + 5) = 44" "m ! (3 + length k + 6) = QUOTE"
    using assms(5) by (simp_all add: nth_append numeral_eq_Suc [of "num.Bit0 _"] numeral_eq_Suc [of "num.Bit1 _"] c_lit_def)
  have skip: "value_find m (3 + length k + i) n = value_find m (3 + length k + (i + 1)) n" if "i < 6" for i
  proof -
    have "i = 0 \<or> i = 1 \<or> i = 2 \<or> i = 3 \<or> i = 4 \<or> i = 5" using that by arith
    then have "m ! (3 + length k + i) \<in> {58, 110, 117, 108, 44}" using c by auto
    then have "m ! (3 + length k + i) \<noteq> 0" "value_start (m ! (3 + length k + i)) = JNONE" by (auto simp: value_start_def)
    with that assms(6,7) value_find_skip [of "3 + length k + i" m n] show ?thesis by simp
  qed
  have "value_find m (3 + length k) n = value_find m (3 + length k + 6) n"
    using skip [of 0] skip [of 1] skip [of 2] skip [of 3] skip [of 4] skip [of 5] by (simp del: add_Suc_right)
  also have "\<dots> = Some (JSTRING, Some (length k + 10), length k + 10)"
    using c(7) assms(6,7) by (subst value_find.simps) (simp add: value_start_def)
  finally have f: "value_find m (3 + length k) n = Some (JSTRING, Some (length k + 10), length k + 10)" .
  obtain xs where xs: "length xs = length k + 10" "m = xs @ k2 @ QUOTE # ys"
    using assms(5) that [of "123 # QUOTE # k @ QUOTE # COLON # c_lit ''null,'' @ [QUOTE]"] by (simp add: c_lit_def)
  have l: "value_len m JSTRING (length k + 10) n (length k + 10) 0 False = Some (length k2)"
    using len_string [OF assms(3), of xs n ys "length k + 10" 0 False] assms(7) xs by simp
  have it: "json_get_next_object JOBJECT m 0 n = Some (Some \<lparr>it_pos = Some (length k + 10 + length k2 + 1), it_key = 2, it_klen = length k,
      it_val = Some (length k + 10), it_vlen = length k2, it_vtype = JSTRING\<rparr>)"
    using q r d f l assms(7) by (simp add: json_get_next_object_def json_value_def json_item_of_def Let_def numeral_2_eq_2)
  have k: "load_n m 2 (length k) = Some k" using assms(5) by (simp add: load_n_def numeral_eq_Suc)
  have o: "json_get_object JOBJECT m 0 n = Some (Some 0)" "load m 0 = Some 123" using assms(5,7) by (subst json_get_object.simps, simp, simp add: load_def)
  have "load_n m (length xs) (length k2) = Some k2" unfolding xs(2) by (simp add: load_n_def)
  then have k2: "load_n m (length k + 10) (length k2) = Some k2" unfolding xs(1) .
  have "kv_loop (json_get_value_by_name_cb m) m n (Some 0) False \<lparr>nv_pN = k, nv_pV = None, nv_vLen = 0, nv_vType = JSTRING\<rparr>
      = Some (True, \<lparr>nv_pN = k, nv_pV = Some (length k + 10), nv_vLen = length k2, nv_vType = JSTRING\<rparr>)"
    by (subst kv_loop.simps) (simp add: o(2) it assms(2,4) json_get_value_by_name_cb_def k)
  with o(1) k2 assms(7) show ?thesis by (simp add: json_get_value_by_name_def json_get_value_by_name_len_def json_parse_name_value_def)
qed

theorem json_null_misread_witness:
  "json_get_value_by_name (c_lit ''{\"url\":null,\"md5\":\"0\"}'' @ [0]) 0 21 (c_lit ''url'') = Some (Some 13, Some (3, JSTRING))"
  using json_null_misread [of "c_lit ''url''" "c_lit ''md5''" "c_lit ''{\"url\":null,\"md5\":\"0\"}'' @ [0]" "c_lit '':\"0\"}'' @ [0]" 21]
  by (simp add: plain_text_def c_lit_def)

end
